(* ===== verification/Prelude.thy ===== *)
theory Prelude
  imports Complex_Main "HOL-Library.AList" "HOL-Library.Multiset"
    "HOL-Library.List_Lexorder" "HOL-Library.Char_ord"
begin

text \<open>
  What every component shares.

  A Python dict is an association list in insertion order (\<open>dict\<close>): assigning to a key
  that is present changes its value in place, assigning to a new key appends, exactly as
  Python iterates it. A Python str is a HOL \<open>string\<close> (a list of 8-bit characters; code
  points above 255 are not represented). \<open>time.monotonic()\<close> is a real number of seconds
  passed in as an argument; \<open>float('-inf')\<close> as a "never yet" stamp is \<open>None\<close>.
  Exceptions are values of \<open>py_error\<close> in the left summand of a sum.
\<close>

named_theorems dict_intros \<open>well-formedness of dictionaries is kept by every operation\<close>

type_synonym uuid = string
type_synonym time = real
type_synonym ('k, 'v) dict = "('k \<times> 'v) list"

datatype py_error = KeyError | ValueError | TypeError | IndexError | StructError
  | AssertionError | ReferenceError | OverflowError | OSError | AttributeError

abbreviation dget :: "('k, 'v) dict \<Rightarrow> 'k \<Rightarrow> 'v option" where
  "dget d k \<equiv> map_of d k"

abbreviation dset :: "'k \<Rightarrow> 'v \<Rightarrow> ('k, 'v) dict \<Rightarrow> ('k, 'v) dict" where
  "dset k v d \<equiv> AList.update k v d"

abbreviation dpop :: "'k \<Rightarrow> ('k, 'v) dict \<Rightarrow> ('k, 'v) dict" where
  "dpop k d \<equiv> AList.delete k d"

abbreviation dkeys :: "('k, 'v) dict \<Rightarrow> 'k list" where
  "dkeys d \<equiv> map fst d"

definition dict_ok :: "('k, 'v) dict \<Rightarrow> bool" where
  "dict_ok d \<longleftrightarrow> distinct (map fst d)"

subsection \<open>Dictionaries\<close>

lemma dget_dset [simp]: "map_of (AList.update k v d) j = (if j = k then Some v else map_of d j)"
  by (simp add: AList.update_conv')

lemma dget_dpop [simp]: "map_of (AList.delete k d) j = (if j = k then None else map_of d j)"
  by (simp add: AList.delete_conv')

lemma dict_ok_Nil [simp, dict_intros]: "dict_ok []"
  by (simp add: dict_ok_def)

lemma dict_ok_Cons [simp]: "dict_ok ((k, v) # d) \<longleftrightarrow> k \<notin> fst ` set d \<and> dict_ok d"
  by (auto simp: dict_ok_def)

lemma dict_ok_dset [simp, dict_intros]: "dict_ok d \<Longrightarrow> dict_ok (AList.update k v d)"
  by (simp add: dict_ok_def AList.distinct_update)

lemma dict_ok_dpop [simp, dict_intros]: "dict_ok d \<Longrightarrow> dict_ok (AList.delete k d)"
  by (simp add: dict_ok_def AList.distinct_delete)

lemma dict_ok_filter [simp, dict_intros]: "dict_ok d \<Longrightarrow> dict_ok (filter P d)"
  by (auto simp: dict_ok_def distinct_map inj_on_def)

lemma dict_ok_in_set: "dict_ok d \<Longrightarrow> (k, v) \<in> set d \<longleftrightarrow> map_of d k = Some v"
  by (simp add: dict_ok_def)

lemma dkeys_dset [simp]: "fst ` set (AList.update k v d) = insert k (fst ` set d)"
  by (simp add: AList.dom_update)

lemma dkeys_dpop [simp]: "fst ` set (AList.delete k d) = fst ` set d - {k}"
  by (auto simp: AList.delete_eq)

lemma set_dset: "dict_ok d \<Longrightarrow>
    set (AList.update k v d) = {(j, w). (j, w) \<in> set d \<and> j \<noteq> k} \<union> {(k, v)}"
  by (induction d) (auto simp: dict_ok_def rev_image_eqI)

lemma dset_new: "k \<notin> fst ` set d \<Longrightarrow> AList.update k v d = d @ [(k, v)]"
  by (induction d) auto

lemma length_dset_new: "k \<notin> fst ` set d \<Longrightarrow> length (AList.update k v d) = Suc (length d)"
  by (simp add: dset_new)

lemma not_in_keys_iff: "map_of d k = None \<longleftrightarrow> k \<notin> fst ` set d"
  by (simp add: map_of_eq_None_iff)

lemma dict_set_values_dset:
  "snd ` set (AList.update k v d) \<subseteq> insert v (snd ` set d)"
  by (induction d) auto

lemma dict_set_values_dpop:
  "snd ` set (AList.delete k d) \<subseteq> snd ` set d"
  by (auto simp: AList.delete_eq)

text \<open>Python's sorting of a set of strings: ascending by code point, no duplicates.\<close>

definition sorted_set :: "'a::linorder list \<Rightarrow> 'a list" where
  "sorted_set xs = sort (remdups xs)"

lemma set_sorted_set [simp]: "set (sorted_set xs) = set xs"
  by (simp add: sorted_set_def)

lemma distinct_sorted_set [simp]: "distinct (sorted_set xs)"
  by (simp add: sorted_set_def)

lemma sorted_sorted_set [simp]: "sorted (sorted_set xs)"
  by (simp add: sorted_set_def)

lemma sorted_set_cong: "set xs = set ys \<Longrightarrow> sorted_set xs = sorted_set ys"
  by (simp add: sorted_set_def sorted_distinct_set_unique)

lemma sorted_set_id: "sorted xs \<Longrightarrow> distinct xs \<Longrightarrow> sorted_set xs = xs"
  by (simp add: sorted_set_def sorted_sort_id)

lemma sorted_set_Nil_iff [simp]: "sorted_set xs = [] \<longleftrightarrow> xs = []"
  by (metis set_empty set_sorted_set)

subsection \<open>Stamps\<close>

text \<open>\<open>now - stamp >= d\<close>, where the stamp may be minus infinity.\<close>

definition elapsed_ge :: "time \<Rightarrow> time option \<Rightarrow> time \<Rightarrow> bool" where
  "elapsed_ge now stamp d \<longleftrightarrow> (case stamp of None \<Rightarrow> True | Some t \<Rightarrow> now - t \<ge> d)"

lemma elapsed_ge_None [simp]: "elapsed_ge now None d"
  by (simp add: elapsed_ge_def)

lemma elapsed_ge_Some [simp]: "elapsed_ge now (Some t) d \<longleftrightarrow> d \<le> now - t"
  by (simp add: elapsed_ge_def)

text \<open>Python's \<open>max\<close> of an optional stamp and a number, for "the later of the two".\<close>

lemma option_case_None_Some: "(case x of None \<Rightarrow> None | Some y \<Rightarrow> Some (f y)) = map_option f x"
  by (cases x) auto

subsection \<open>Rounding\<close>

text \<open>Python's \<open>round\<close>: to the nearest integer, halves to the even one.\<close>

definition py_round :: "real \<Rightarrow> int" where
  "py_round x = (let f = \<lfloor>x\<rfloor>; d = x - of_int f in
     if d < 1 / 2 then f else if d > 1 / 2 then f + 1 else if even f then f else f + 1)"

lemma py_round_near: "\<bar>of_int (py_round x) - x\<bar> \<le> 1 / 2"
  unfolding py_round_def Let_def by (auto simp: abs_le_iff)

lemma py_round_range: "of_int a \<le> x \<Longrightarrow> x \<le> of_int b \<Longrightarrow> a \<le> py_round x \<and> py_round x \<le> b"
  unfolding py_round_def Let_def by (auto simp: le_floor_iff floor_le_iff) linarith+

lemma py_round_le: "x \<le> of_int n \<Longrightarrow> py_round x \<le> n"
  using py_round_range [of "\<lfloor>x\<rfloor>" x n] by simp

lemma py_round_ge: "of_int (py_round x) \<le> x + 1 / 2"
  using py_round_near [of x] by linarith

end
