(* ===== verification/Dirty_Set.thy ===== *)
theory Dirty_Set
  imports Prelude
begin

text \<open>
  \<open>ring1/dirtyset.py\<close>: the host's cold-side state. An entry is a tier (1 or 2) or the
  tombstone value -1; \<open>ds_sent\<close> is the set of uuids the peer may know. The abstract
  specification is a status per uuid.
\<close>

datatype tier = T1 | T2

definition tier_value :: "tier \<Rightarrow> int" where
  "tier_value t = (case t of T1 \<Rightarrow> 1 | T2 \<Rightarrow> 2)"

definition tier_of_value :: "int \<Rightarrow> py_error + tier" where
  "tier_of_value v = (if v = 1 then Inr T1 else if v = 2 then Inr T2 else Inl ValueError)"

definition TOMBSTONE :: int where
  "TOMBSTONE = -1"

record dirty_set =
  ds_entries :: "(uuid, int) dict"
  ds_sent :: "uuid set"

definition ds_init :: dirty_set where
  "ds_init = \<lparr>ds_entries = [], ds_sent = {}\<rparr>"

definition ds_mark :: "uuid \<Rightarrow> tier \<Rightarrow> dirty_set \<Rightarrow> dirty_set" where
  "ds_mark u t s =
     (let current = dget (ds_entries s) u
      in if current = Some TOMBSTONE then s
         else s\<lparr>ds_entries := dset u (max (case current of None \<Rightarrow> 0 | Some c \<Rightarrow> c) (tier_value t))
                                   (ds_entries s)\<rparr>)"

definition ds_mark_deleted :: "uuid \<Rightarrow> dirty_set \<Rightarrow> dirty_set" where
  "ds_mark_deleted u s =
     (if u \<notin> ds_sent s then s\<lparr>ds_entries := dpop u (ds_entries s)\<rparr>
      else s\<lparr>ds_entries := dset u TOMBSTONE (ds_entries s)\<rparr>)"

fun ds_drain_loop ::
  "(uuid \<times> int) list \<Rightarrow> uuid set \<Rightarrow> uuid list \<Rightarrow> (uuid \<times> tier) list
    \<Rightarrow> py_error + (uuid set \<times> uuid list \<times> (uuid \<times> tier) list)" where
  "ds_drain_loop [] sent tombs dirty = Inr (sent, tombs, dirty)"
| "ds_drain_loop ((u, v) # es) sent tombs dirty =
     (if v = TOMBSTONE then ds_drain_loop es (sent - {u}) (tombs @ [u]) dirty
      else case tier_of_value v of
             Inl e \<Rightarrow> Inl e
           | Inr t \<Rightarrow> ds_drain_loop es (insert u sent) tombs (dirty @ [(u, t)]))"

definition ds_drain :: "dirty_set \<Rightarrow> py_error + (uuid list \<times> (uuid \<times> tier) list \<times> dirty_set)" where
  "ds_drain s =
     (case ds_drain_loop (ds_entries s) (ds_sent s) [] [] of
        Inl e \<Rightarrow> Inl e
      | Inr (sent, tombs, dirty) \<Rightarrow> Inr (tombs, dirty, s\<lparr>ds_entries := [], ds_sent := sent\<rparr>))"

definition ds_requeue :: "uuid \<Rightarrow> tier \<Rightarrow> dirty_set \<Rightarrow> dirty_set" where
  "ds_requeue u t s = ds_mark u t s"

definition ds_assume_known :: "uuid \<Rightarrow> dirty_set \<Rightarrow> dirty_set" where
  "ds_assume_known u s = s\<lparr>ds_sent := insert u (ds_sent s)\<rparr>"

definition ds_requeue_tombstone :: "uuid \<Rightarrow> dirty_set \<Rightarrow> dirty_set" where
  "ds_requeue_tombstone u s =
     s\<lparr>ds_entries := dset u TOMBSTONE (ds_entries s), ds_sent := insert u (ds_sent s)\<rparr>"

definition ds_peer_forgot_everything :: "dirty_set \<Rightarrow> dirty_set" where
  "ds_peer_forgot_everything s =
     s\<lparr>ds_sent := {}, ds_entries := filter (\<lambda>(u, v). v \<noteq> TOMBSTONE) (ds_entries s)\<rparr>"

definition ds_len :: "dirty_set \<Rightarrow> nat" where
  "ds_len s = length (ds_entries s)"

definition ds_counts :: "dirty_set \<Rightarrow> nat \<times> nat \<times> nat" where
  "ds_counts s =
     (length (filter (\<lambda>(u, v). v = 1) (ds_entries s)),
      length (filter (\<lambda>(u, v). v = 2) (ds_entries s)),
      length (filter (\<lambda>(u, v). v = TOMBSTONE) (ds_entries s)))"

subsection \<open>The value invariant: drain never raises\<close>

definition ds_ok :: "dirty_set \<Rightarrow> bool" where
  "ds_ok s \<longleftrightarrow> dict_ok (ds_entries s)
     \<and> (\<forall>u v. dget (ds_entries s) u = Some v \<longrightarrow> v \<in> {1, 2, TOMBSTONE})
     \<and> (\<forall>u. dget (ds_entries s) u = Some TOMBSTONE \<longrightarrow> u \<in> ds_sent s)"

named_theorems ds_ok_intros \<open>every operation keeps the dirty set well formed\<close>

lemma tier_of_value_tier_value [simp]: "tier_of_value (tier_value t) = Inr t"
  by (cases t) (auto simp: tier_of_value_def tier_value_def)

lemma tier_value_pos [simp]: "tier_value t \<noteq> TOMBSTONE" "tier_value t \<in> {1, 2}" "0 < tier_value t"
  by (cases t; simp add: tier_value_def TOMBSTONE_def)+

lemma ds_ok_values: "ds_ok s \<Longrightarrow> (u, v) \<in> set (ds_entries s) \<Longrightarrow> v \<in> {1, 2, TOMBSTONE}"
  by (auto simp: ds_ok_def dict_ok_in_set)

lemma ds_ok_init [ds_ok_intros]: "ds_ok ds_init"
  by (simp add: ds_ok_def ds_init_def)

lemma ds_ok_lookup: "ds_ok s \<Longrightarrow> dget (ds_entries s) u = Some v \<Longrightarrow> v = 1 \<or> v = 2 \<or> v = TOMBSTONE"
  by (auto simp: ds_ok_def)

lemma ds_ok_mark [ds_ok_intros]:
  assumes "ds_ok s"
  shows "ds_ok (ds_mark u t s)"
proof (cases "dget (ds_entries s) u")
  case None
  with assms show ?thesis
    by (cases t) (auto simp: ds_ok_def ds_mark_def Let_def tier_value_def TOMBSTONE_def)
next
  case (Some v)
  then consider "v = 1" | "v = 2" | "v = TOMBSTONE"
    using ds_ok_lookup [OF assms] by blast
  then show ?thesis
    using assms Some
    by cases (cases t; auto simp: ds_ok_def ds_mark_def Let_def tier_value_def TOMBSTONE_def)+
qed

lemma ds_ok_mark_deleted [ds_ok_intros]: "ds_ok s \<Longrightarrow> ds_ok (ds_mark_deleted u s)"
  by (auto simp: ds_ok_def ds_mark_deleted_def)

lemma ds_ok_requeue [ds_ok_intros]: "ds_ok s \<Longrightarrow> ds_ok (ds_requeue u t s)"
  by (simp add: ds_requeue_def ds_ok_mark)

lemma ds_ok_assume_known [ds_ok_intros]: "ds_ok s \<Longrightarrow> ds_ok (ds_assume_known u s)"
  by (auto simp: ds_ok_def ds_assume_known_def)

lemma ds_ok_requeue_tombstone [ds_ok_intros]: "ds_ok s \<Longrightarrow> ds_ok (ds_requeue_tombstone u s)"
  by (auto simp: ds_ok_def ds_requeue_tombstone_def)

lemma map_of_filter_value:
  "dict_ok d \<Longrightarrow> map_of (filter (\<lambda>(u, v). P v) d) k = (case map_of d k of None \<Rightarrow> None | Some v \<Rightarrow> if P v then Some v else None)"
  by (induction d) (auto simp: dict_ok_def split: option.splits simp flip: not_in_keys_iff)

lemma ds_ok_peer_forgot [ds_ok_intros]: "ds_ok s \<Longrightarrow> ds_ok (ds_peer_forgot_everything s)"
  by (auto simp: ds_ok_def ds_peer_forgot_everything_def map_of_filter_value split: option.splits if_splits)

subsection \<open>What drain takes\<close>

definition tier_of_entry :: "int \<Rightarrow> tier" where
  "tier_of_entry v = (if v = 1 then T1 else T2)"

lemma tier_of_value_entry: "v \<in> {1, 2} \<Longrightarrow> tier_of_value v = Inr (tier_of_entry v)"
  by (auto simp: tier_of_value_def tier_of_entry_def)

definition tombs_of :: "(uuid \<times> int) list \<Rightarrow> uuid list" where
  "tombs_of es = map fst (filter (\<lambda>(u, v). v = TOMBSTONE) es)"

definition dirty_of :: "(uuid \<times> int) list \<Rightarrow> (uuid \<times> tier) list" where
  "dirty_of es = map (\<lambda>(u, v). (u, tier_of_entry v)) (filter (\<lambda>(u, v). v \<noteq> TOMBSTONE) es)"

lemma tombs_of_simps [simp]:
  "tombs_of [] = []"
  "tombs_of ((u, v) # es) = (if v = TOMBSTONE then u # tombs_of es else tombs_of es)"
  by (auto simp: tombs_of_def)

lemma dirty_of_simps [simp]:
  "dirty_of [] = []"
  "dirty_of ((u, v) # es) = (if v = TOMBSTONE then dirty_of es else (u, tier_of_entry v) # dirty_of es)"
  by (auto simp: dirty_of_def)

lemma fst_dirty_of: "fst ` set (dirty_of es) \<union> set (tombs_of es) = fst ` set es"
proof (induction es)
  case (Cons e es)
  then show ?case by (cases e) auto
qed simp

lemma ds_drain_loop_eq:
  assumes "snd ` set es \<subseteq> {1, 2, TOMBSTONE}" and "dict_ok es"
  shows "ds_drain_loop es sent tombs dirty =
    Inr ((sent \<union> fst ` set (dirty_of es)) - set (tombs_of es), tombs @ tombs_of es, dirty @ dirty_of es)"
  using assms
proof (induction es sent tombs dirty rule: ds_drain_loop.induct)
  case (1 sent tombs dirty)
  then show ?case by simp
next
  case (2 u v es sent tombs dirty)
  have u: "u \<notin> fst ` set (dirty_of es)" "u \<notin> set (tombs_of es)"
    using 2(4) fst_dirty_of [of es] by auto
  show ?case
  proof (cases "v = TOMBSTONE")
    case True
    then show ?thesis using 2 u by auto
  next
    case False
    then have "tier_of_value v = Inr (tier_of_entry v)"
      using 2(3) by (intro tier_of_value_entry) auto
    then show ?thesis using 2 u False by auto
  qed
qed

theorem ds_drain_eq:
  assumes "ds_ok s"
  shows "ds_drain s = Inr (tombs_of (ds_entries s), dirty_of (ds_entries s),
    \<lparr>ds_entries = [], ds_sent = (ds_sent s \<union> fst ` set (dirty_of (ds_entries s))) - set (tombs_of (ds_entries s))\<rparr>)"
proof -
  have "snd ` set (ds_entries s) \<subseteq> {1, 2, TOMBSTONE}" and "dict_ok (ds_entries s)"
    using ds_ok_values [OF assms] assms by (force, simp add: ds_ok_def)
  then show ?thesis by (simp add: ds_drain_def ds_drain_loop_eq)
qed

subsection \<open>The abstract specification: one status per uuid\<close>

datatype status = Clean | Pending tier | Deleted

definition ds_status :: "dirty_set \<Rightarrow> uuid \<Rightarrow> status" where
  "ds_status s u = (case dget (ds_entries s) u of None \<Rightarrow> Clean
     | Some v \<Rightarrow> if v = TOMBSTONE then Deleted else Pending (tier_of_entry v))"

fun ratchet :: "status \<Rightarrow> tier \<Rightarrow> status" where
  "ratchet Clean t = Pending t"
| "ratchet (Pending T2) t = Pending T2"
| "ratchet (Pending T1) t = Pending t"
| "ratchet Deleted t = Deleted"

lemma ds_status_mark:
  assumes "ds_ok s"
  shows "ds_status (ds_mark u t s) = (ds_status s)(u := ratchet (ds_status s u) t)"
proof (cases "dget (ds_entries s) u")
  case None
  then show ?thesis
    by (cases t) (auto simp: ds_status_def ds_mark_def fun_eq_iff tier_value_def TOMBSTONE_def tier_of_entry_def)
next
  case (Some v)
  then consider "v = 1" | "v = 2" | "v = TOMBSTONE"
    using ds_ok_lookup [OF assms] by blast
  then show ?thesis
    using Some
    by cases (cases t; auto simp: ds_status_def ds_mark_def fun_eq_iff tier_value_def TOMBSTONE_def tier_of_entry_def)+
qed

lemma ds_sent_mark [simp]: "ds_sent (ds_mark u t s) = ds_sent s"
  by (simp add: ds_mark_def Let_def)

lemma ds_status_mark_deleted:
  "ds_status (ds_mark_deleted u s) = (ds_status s)(u := if u \<in> ds_sent s then Deleted else Clean)"
  by (auto simp: ds_status_def ds_mark_deleted_def fun_eq_iff)

lemma ds_sent_mark_deleted [simp]: "ds_sent (ds_mark_deleted u s) = ds_sent s"
  by (simp add: ds_mark_deleted_def)

lemma ds_status_requeue_tombstone:
  "ds_status (ds_requeue_tombstone u s) = (ds_status s)(u := Deleted)"
  by (auto simp: ds_status_def ds_requeue_tombstone_def fun_eq_iff)

lemma ds_status_peer_forgot:
  assumes "ds_ok s"
  shows "ds_status (ds_peer_forgot_everything s) u = (if ds_status s u = Deleted then Clean else ds_status s u)"
  using assms
  by (auto simp: ds_status_def ds_peer_forgot_everything_def ds_ok_def map_of_filter_value split: option.splits)

lemma ds_ok_dict [simp]: "ds_ok s \<Longrightarrow> dict_ok (ds_entries s)"
  by (simp add: ds_ok_def)

lemma in_tombs_of: "dict_ok es \<Longrightarrow> u \<in> set (tombs_of es) \<longleftrightarrow> map_of es u = Some TOMBSTONE"
  by (simp add: tombs_of_def dict_ok_in_set [symmetric] image_iff)

lemma in_dirty_of: "dict_ok es \<Longrightarrow>
    (u, t) \<in> set (dirty_of es) \<longleftrightarrow> (\<exists>v. map_of es u = Some v \<and> v \<noteq> TOMBSTONE \<and> t = tier_of_entry v)"
  by (auto simp: dirty_of_def dict_ok_in_set [symmetric] image_iff)

lemma set_tombs_of: "ds_ok s \<Longrightarrow> u \<in> set (tombs_of (ds_entries s)) \<longleftrightarrow> ds_status s u = Deleted"
  by (simp add: in_tombs_of ds_status_def split: option.split)

lemma tier_of_entry_value: "v = 1 \<or> v = 2 \<Longrightarrow> tier_value (tier_of_entry v) = v"
  by (auto simp: tier_of_entry_def tier_value_def)

lemma set_dirty_of: "ds_ok s \<Longrightarrow> (u, t) \<in> set (dirty_of (ds_entries s)) \<longleftrightarrow> ds_status s u = Pending t"
  by (auto simp: in_dirty_of ds_status_def split: option.split)

lemma tombs_of_keys: "set (tombs_of es) \<subseteq> fst ` set es"
  using fst_dirty_of [of es] by blast

lemma distinct_tombs_of: "dict_ok es \<Longrightarrow> distinct (tombs_of es)"
proof (induction es)
  case (Cons e es)
  then show ?case using tombs_of_keys [of es] by (cases e) auto
qed simp

lemma distinct_dirty_of: "dict_ok es \<Longrightarrow> distinct (map fst (dirty_of es))"
proof (induction es)
  case (Cons e es)
  then show ?case using fst_dirty_of [of es] by (cases e) auto
qed simp

subsection \<open>Runs\<close>

datatype ds_op = Mark uuid tier | Mark_Deleted uuid | Requeue uuid tier | Assume_Known uuid
  | Requeue_Tombstone uuid | Peer_Forgot | Drain

fun ds_step :: "ds_op \<Rightarrow> dirty_set \<Rightarrow> py_error + dirty_set" where
  "ds_step (Mark u t) s = Inr (ds_mark u t s)"
| "ds_step (Mark_Deleted u) s = Inr (ds_mark_deleted u s)"
| "ds_step (Requeue u t) s = Inr (ds_requeue u t s)"
| "ds_step (Assume_Known u) s = Inr (ds_assume_known u s)"
| "ds_step (Requeue_Tombstone u) s = Inr (ds_requeue_tombstone u s)"
| "ds_step Peer_Forgot s = Inr (ds_peer_forgot_everything s)"
| "ds_step Drain s = map_sum id (\<lambda>(tombs, dirty, s'). s') (ds_drain s)"

fun ds_run :: "ds_op list \<Rightarrow> dirty_set \<Rightarrow> py_error + dirty_set" where
  "ds_run [] s = Inr s"
| "ds_run (e # es) s = (case ds_step e s of Inl x \<Rightarrow> Inl x | Inr s' \<Rightarrow> ds_run es s')"

lemma ds_ok_drained: "ds_ok \<lparr>ds_entries = [], ds_sent = k\<rparr>"
  by (simp add: ds_ok_def)

lemma ds_step_ok: "ds_ok s \<Longrightarrow> \<exists>s'. ds_step e s = Inr s' \<and> ds_ok s'"
  by (cases e) (auto simp: ds_drain_eq ds_ok_drained intro: ds_ok_intros)

lemma ds_run_ok: "ds_ok s \<Longrightarrow> \<exists>s'. ds_run es s = Inr s' \<and> ds_ok s'"
proof (induction es arbitrary: s)
  case (Cons e es)
  then show ?case using ds_step_ok [of s e] by fastforce
qed simp

subsection \<open>Refinement of the abstract specification\<close>

text \<open>The abstract machine: what each uuid still owes the peer, and what the peer may know.\<close>

type_synonym abs_dirty = "(uuid \<Rightarrow> status) \<times> uuid set"

definition abs_dirty :: "dirty_set \<Rightarrow> abs_dirty" where
  "abs_dirty s = (ds_status s, ds_sent s)"

fun abs_dirty_step :: "ds_op \<Rightarrow> abs_dirty \<Rightarrow> abs_dirty" where
  "abs_dirty_step (Mark u t) (f, k) = (f(u := ratchet (f u) t), k)"
| "abs_dirty_step (Mark_Deleted u) (f, k) = (f(u := if u \<in> k then Deleted else Clean), k)"
| "abs_dirty_step (Requeue u t) (f, k) = (f(u := ratchet (f u) t), k)"
| "abs_dirty_step (Assume_Known u) (f, k) = (f, insert u k)"
| "abs_dirty_step (Requeue_Tombstone u) (f, k) = (f(u := Deleted), insert u k)"
| "abs_dirty_step Peer_Forgot (f, k) = ((\<lambda>u. if f u = Deleted then Clean else f u), {})"
| "abs_dirty_step Drain (f, k) =
     ((\<lambda>u. Clean), {u. f u \<noteq> Deleted \<and> (u \<in> k \<or> f u \<noteq> Clean)})"

lemma in_fst_dirty_of: "ds_ok s \<Longrightarrow> u \<in> fst ` set (dirty_of (ds_entries s)) \<longleftrightarrow> (\<exists>t. ds_status s u = Pending t)"
  by (force simp flip: set_dirty_of)

lemma sent_after_drain:
  assumes "ds_ok s"
  shows "(ds_sent s \<union> fst ` set (dirty_of (ds_entries s))) - set (tombs_of (ds_entries s))
    = {u. ds_status s u \<noteq> Deleted \<and> (u \<in> ds_sent s \<or> ds_status s u \<noteq> Clean)}"
proof (rule set_eqI)
  fix u
  show "u \<in> (ds_sent s \<union> fst ` set (dirty_of (ds_entries s))) - set (tombs_of (ds_entries s))
    \<longleftrightarrow> u \<in> {u. ds_status s u \<noteq> Deleted \<and> (u \<in> ds_sent s \<or> ds_status s u \<noteq> Clean)}"
    using in_fst_dirty_of [OF assms, of u] set_tombs_of [OF assms, of u]
    by (cases "ds_status s u") auto
qed

lemma ds_status_drained [simp]: "ds_status \<lparr>ds_entries = [], ds_sent = k\<rparr> = (\<lambda>u. Clean)"
  by (simp add: ds_status_def fun_eq_iff)

lemma ds_status_assume_known [simp]: "ds_status (ds_assume_known u s) = ds_status s"
  by (simp add: ds_status_def ds_assume_known_def fun_eq_iff)

lemma ds_sent_ops [simp]:
  "ds_sent (ds_assume_known u s) = insert u (ds_sent s)"
  "ds_sent (ds_requeue_tombstone u s) = insert u (ds_sent s)"
  "ds_sent (ds_peer_forgot_everything s) = {}"
  by (simp_all add: ds_assume_known_def ds_requeue_tombstone_def ds_peer_forgot_everything_def)

lemma ds_status_peer_forgot_fun:
  "ds_ok s \<Longrightarrow> ds_status (ds_peer_forgot_everything s) = (\<lambda>u. if ds_status s u = Deleted then Clean else ds_status s u)"
  by (simp add: fun_eq_iff ds_status_peer_forgot)

lemmas abs_dirty_simps = abs_dirty_def ds_status_mark ds_status_mark_deleted
  ds_status_requeue_tombstone ds_status_peer_forgot_fun ds_requeue_def

lemma ds_step_refines:
  assumes "ds_ok s"
  shows "\<exists>s'. ds_step e s = Inr s' \<and> abs_dirty s' = abs_dirty_step e (abs_dirty s)"
proof (cases e)
  case Drain
  then show ?thesis using assms
    by (simp add: ds_drain_eq abs_dirty_def sent_after_drain)
qed (simp_all add: abs_dirty_simps assms)

lemma ds_run_refines:
  "ds_ok s \<Longrightarrow> \<exists>s'. ds_run es s = Inr s' \<and> ds_ok s' \<and> abs_dirty s' = fold abs_dirty_step es (abs_dirty s)"
proof (induction es arbitrary: s)
  case (Cons e es)
  obtain s1 where "ds_step e s = Inr s1" "abs_dirty s1 = abs_dirty_step e (abs_dirty s)" "ds_ok s1"
    using ds_step_refines [OF Cons.prems, of e] ds_step_ok [OF Cons.prems, of e] by auto
  then show ?case using Cons.IH [of s1] by auto
qed simp

text \<open>C22: Every run of dirty-set operations from the empty set succeeds (drain never meets a value
  that is no tier), and its outcome is the one of the abstract machine that keeps one status per
  uuid: the tier ratchets up, a tombstone absorbs later marks, a deletion of a uuid the peer never
  heard of collapses to nothing, a drain clears everything.\<close>

theorem dirty_set_refines:
  "\<exists>s. ds_run es ds_init = Inr s \<and> abs_dirty s = fold abs_dirty_step es ((\<lambda>u. Clean), {})"
proof -
  have "abs_dirty ds_init = ((\<lambda>u. Clean), {})"
    by (simp add: abs_dirty_def ds_init_def)
  then show ?thesis using ds_run_refines [OF ds_ok_init, of es] by auto
qed

text \<open>After any run, drain hands out each uuid at most once: a duplicate-free list of
  tombstones, exactly the deleted uuids, and a duplicate-free list of dirty entries, exactly the
  pending uuids with their ratcheted tiers; nothing stays behind.\<close>

theorem dirty_drain_exact:
  "\<exists>s tombs dirty s'. ds_run es ds_init = Inr s \<and> ds_drain s = Inr (tombs, dirty, s')
     \<and> distinct (tombs @ map fst dirty)
     \<and> set tombs = {u. ds_status s u = Deleted}
     \<and> set dirty = {(u, t). ds_status s u = Pending t}
     \<and> ds_len s' = 0"
proof -
  obtain s where s: "ds_run es ds_init = Inr s" "ds_ok s"
    using ds_run_ok [OF ds_ok_init] by blast
  have "set (tombs_of (ds_entries s)) = {u. ds_status s u = Deleted}"
    and "set (dirty_of (ds_entries s)) = {(u, t). ds_status s u = Pending t}"
    using s(2) by (auto simp: set_tombs_of set_dirty_of)
  moreover have "set (tombs_of (ds_entries s)) \<inter> fst ` set (dirty_of (ds_entries s)) = {}"
  proof -
    have "u \<notin> fst ` set (dirty_of (ds_entries s))" if "u \<in> set (tombs_of (ds_entries s))" for u
      using that by (simp add: in_fst_dirty_of [OF s(2)] set_tombs_of [OF s(2)])
    then show ?thesis by blast
  qed
  then have "distinct (tombs_of (ds_entries s) @ map fst (dirty_of (ds_entries s)))"
    using s(2) by (simp add: distinct_tombs_of distinct_dirty_of)
  ultimately show ?thesis
    using s by (auto simp: ds_drain_eq ds_len_def)
qed

subsection \<open>A flush whose sends all fail\<close>

lemma ds_sent_requeue [simp]: "ds_sent (ds_requeue u t s) = ds_sent s"
  by (simp add: ds_requeue_def)

definition ds_requeue_all :: "uuid list \<Rightarrow> (uuid \<times> tier) list \<Rightarrow> dirty_set \<Rightarrow> dirty_set" where
  "ds_requeue_all tombs dirty s =
     fold (\<lambda>(u, t). ds_requeue u t) dirty (fold ds_requeue_tombstone tombs s)"

lemma fold_requeue_tombstone:
  "ds_ok s \<Longrightarrow> ds_ok (fold ds_requeue_tombstone tombs s)
    \<and> ds_status (fold ds_requeue_tombstone tombs s) = (\<lambda>u. if u \<in> set tombs then Deleted else ds_status s u)
    \<and> ds_sent (fold ds_requeue_tombstone tombs s) = ds_sent s \<union> set tombs"
  by (induction tombs arbitrary: s) (auto simp: ds_status_requeue_tombstone ds_ok_requeue_tombstone fun_eq_iff)

lemma fold_requeue:
  "ds_ok s \<Longrightarrow> distinct (map fst dirty) \<Longrightarrow> (\<And>u. u \<in> fst ` set dirty \<Longrightarrow> ds_status s u = Clean) \<Longrightarrow>
    ds_status (fold (\<lambda>(u, t). ds_requeue u t) dirty s) u
      = (case map_of dirty u of None \<Rightarrow> ds_status s u | Some t \<Rightarrow> Pending t)
    \<and> ds_sent (fold (\<lambda>(u, t). ds_requeue u t) dirty s) = ds_sent s"
proof (induction dirty arbitrary: s)
  case (Cons e dirty)
  obtain v t where e: "e = (v, t)" by (cases e)
  have v: "v \<notin> fst ` set dirty" "ds_status s v = Clean" using Cons.prems(2, 3) e by auto
  have st: "ds_status (ds_requeue v t s) = (ds_status s)(v := Pending t)"
    using Cons.prems(1) v by (simp add: ds_requeue_def ds_status_mark)
  have "ds_status (ds_requeue v t s) w = Clean" if "w \<in> fst ` set dirty" for w
    using Cons.prems(3) [of w] that v e st by (auto simp: image_iff)
  then have IH: "ds_status (fold (\<lambda>(u, t). ds_requeue u t) dirty (ds_requeue v t s)) u
      = (case map_of dirty u of None \<Rightarrow> ds_status (ds_requeue v t s) u | Some t \<Rightarrow> Pending t)
      \<and> ds_sent (fold (\<lambda>(u, t). ds_requeue u t) dirty (ds_requeue v t s)) = ds_sent (ds_requeue v t s)"
    using Cons.IH [of "ds_requeue v t s"] Cons.prems(1, 2) e by (simp add: ds_ok_requeue)
  show ?case
    using IH e v st map_of_eq_None_iff [of dirty v] by (auto split: option.splits)
qed simp

text \<open>When a flush drains the set and then every send is refused, putting the tombstones and
  the dirty entries back restores exactly the pending work of before the drain: nothing is lost
  and nothing changes tier. The peer-may-know set only grows.\<close>

theorem dirty_failed_flush_restores:
  assumes "ds_ok s" and "ds_drain s = Inr (tombs, dirty, s1)"
  shows "ds_status (ds_requeue_all tombs dirty s1) = ds_status s
    \<and> ds_sent s \<subseteq> ds_sent (ds_requeue_all tombs dirty s1)"
proof -
  let ?es = "ds_entries s"
  let ?s2 = "fold ds_requeue_tombstone tombs s1"
  have d: "tombs = tombs_of ?es" "dirty = dirty_of ?es" "ds_ok s1" "ds_status s1 = (\<lambda>u. Clean)"
    "ds_sent s1 = (ds_sent s \<union> fst ` set dirty) - set tombs"
    using assms(2) ds_ok_drained by (simp_all add: ds_drain_eq [OF assms(1)] eq_commute)
  have s2: "ds_ok ?s2" "ds_status ?s2 = (\<lambda>u. if u \<in> set tombs then Deleted else Clean)"
    "ds_sent ?s2 = ds_sent s1 \<union> set tombs"
    using fold_requeue_tombstone [OF d(3), of tombs] d(4) by auto
  have "ds_status ?s2 u = Clean" if "u \<in> fst ` set dirty" for u
    using that s2(2) d(1, 2) in_fst_dirty_of [OF assms(1)] set_tombs_of [OF assms(1)] by force
  then have r: "ds_status (ds_requeue_all tombs dirty s1) u = (case map_of dirty u of None \<Rightarrow> ds_status ?s2 u | Some t \<Rightarrow> Pending t)"
    and r2: "ds_sent (ds_requeue_all tombs dirty s1) = ds_sent ?s2" for u
    using fold_requeue [OF s2(1), of dirty] d(2) assms(1)
    by (auto simp: ds_requeue_all_def distinct_dirty_of)
  have m: "map_of dirty u = Some t \<longleftrightarrow> ds_status s u = Pending t" for u t
    using set_dirty_of [OF assms(1), of u t] d(2) distinct_dirty_of [of ?es] assms(1) by simp
  have "ds_status (ds_requeue_all tombs dirty s1) u = ds_status s u" for u
  proof (cases "map_of dirty u")
    case (Some t)
    then show ?thesis using r [of u] m [of u t] by simp
  next
    case None
    then have "ds_status s u = Clean \<or> ds_status s u = Deleted"
      using m [of u] by (cases "ds_status s u") auto
    then show ?thesis
      using None r [of u] s2(2) d(1) set_tombs_of [OF assms(1), of u] by auto
  qed
  then have "ds_status (ds_requeue_all tombs dirty s1) = ds_status s" by blast
  moreover have "ds_sent s \<subseteq> ds_sent (ds_requeue_all tombs dirty s1)"
    using r2 s2(3) d(5) by auto
  ultimately show ?thesis by blast
qed

theorem dirty_failed_flush_restores_witness:
  "ds_status (ds_requeue_all [''b''] [(''a'', T2)] \<lparr>ds_entries = [], ds_sent = {''a'', ''b''} - {''b''}\<rparr>)
     = ds_status \<lparr>ds_entries = [(''a'', 2), (''b'', TOMBSTONE)], ds_sent = {''b''}\<rparr>"
proof -
  let ?s = "\<lparr>ds_entries = [(''a'', 2), (''b'', TOMBSTONE)], ds_sent = {''b''}\<rparr>"
  have "ds_ok ?s" by (auto simp: ds_ok_def TOMBSTONE_def)
  moreover have "ds_drain ?s = Inr ([''b''], [(''a'', T2)], \<lparr>ds_entries = [], ds_sent = {''a'', ''b''} - {''b''}\<rparr>)"
    by (simp add: ds_drain_def TOMBSTONE_def tier_of_value_def)
  ultimately show ?thesis using dirty_failed_flush_restores by blast
qed

end
