(* ===== verification/Byte_Codec.thy ===== *)
theory Byte_Codec
  imports Prelude "HOL-Library.Word"
begin

unbundle bit_operations_syntax

text \<open>
  Bytes and the fixed-width integers of Python's \<open>struct\<close> module: little- and
  big-endian layouts, the range checks that raise \<open>struct.error\<close>, and the round trips.
  A floating-point field is carried as its IEEE bit pattern (a 32- or 64-bit word): the rounding
  of a Python float to that pattern is not part of the model, its placement in the packet is.
\<close>

type_synonym byte = "8 word"
type_synonym f32 = "32 word"
type_synonym f64 = "64 word"

subsection \<open>Little and big endian\<close>

primrec le_bytes :: "nat \<Rightarrow> nat \<Rightarrow> byte list" where
  "le_bytes 0 x = []"
| "le_bytes (Suc n) x = of_nat x # le_bytes n (x div 256)"

primrec le_val :: "byte list \<Rightarrow> nat" where
  "le_val [] = 0"
| "le_val (b # bs) = unat b + 256 * le_val bs"

definition be_bytes :: "nat \<Rightarrow> nat \<Rightarrow> byte list" where
  "be_bytes n x = rev (le_bytes n x)"

definition be_val :: "byte list \<Rightarrow> nat" where
  "be_val bs = le_val (rev bs)"

lemma length_le_bytes [simp]: "length (le_bytes n x) = n"
  by (induction n arbitrary: x) auto

lemma length_be_bytes [simp]: "length (be_bytes n x) = n"
  by (simp add: be_bytes_def)

lemma unat_byte_of_nat [simp]: "unat (of_nat x :: byte) = x mod 256"
  by (simp add: unat_of_nat)

lemma le_val_le_bytes: "le_val (le_bytes n x) = x mod 256 ^ n"
proof (induction n arbitrary: x)
  case (Suc n)
  have "x mod 256 ^ Suc n = x mod 256 + 256 * (x div 256 mod 256 ^ n)"
    by (simp add: mod_mult2_eq)
  with Suc show ?case by simp
qed simp

lemma le_val_bound: "le_val bs < 256 ^ length bs"
proof (induction bs)
  case (Cons b bs)
  have "unat b < 256" using unsigned_less [of b, where ?'a = nat] by simp
  with Cons show ?case by simp
qed simp

lemma le_bytes_le_val: "length bs = n \<Longrightarrow> le_bytes n (le_val bs) = bs"
proof (induction bs arbitrary: n)
  case (Cons b bs)
  then obtain m where n: "n = Suc m" "length bs = m" by auto
  have "unat b < 256" using unsigned_less [of b, where ?'a = nat] by simp
  then have "(unat b + 256 * le_val bs) div 256 = le_val bs" by simp
  moreover have "(of_nat (unat b + 256 * le_val bs) :: byte) = b"
  proof -
    have "unat (of_nat (unat b + 256 * le_val bs) :: byte) = unat b"
      using \<open>unat b < 256\<close> by (simp only: unat_byte_of_nat) simp
    then show ?thesis by (simp only: word_unat_eq_iff)
  qed
  ultimately show ?case using Cons n by simp
qed simp

lemma be_val_be_bytes: "be_val (be_bytes n x) = x mod 256 ^ n"
  by (simp add: be_val_def be_bytes_def le_val_le_bytes)

lemma be_val_bound: "be_val bs < 256 ^ length bs"
  using le_val_bound [of "rev bs"] by (simp add: be_val_def)

subsection \<open>The struct formats the source uses\<close>

definition pack_uint :: "nat \<Rightarrow> int \<Rightarrow> py_error + byte list" where
  \<comment> \<open>formats B, I, Q (n = 1, 4, 8), little endian\<close>
  "pack_uint n x = (if 0 \<le> x \<and> x < 256 ^ n then Inr (le_bytes n (nat x)) else Inl StructError)"

definition pack_sint32 :: "int \<Rightarrow> py_error + byte list" where
  \<comment> \<open>format i, two's complement\<close>
  "pack_sint32 x = (if - (2 ^ 31) \<le> x \<and> x < 2 ^ 31 then Inr (le_bytes 4 (nat (x mod 2 ^ 32))) else Inl StructError)"

definition unpack_uint :: "byte list \<Rightarrow> int" where
  "unpack_uint bs = int (le_val bs)"

definition unpack_sint32 :: "byte list \<Rightarrow> int" where
  "unpack_sint32 bs = (let v = int (le_val bs) in if v \<ge> 2 ^ 31 then v - 2 ^ 32 else v)"

definition pack_f32 :: "f32 \<Rightarrow> byte list" where
  "pack_f32 w = le_bytes 4 (unat w)"

definition unpack_f32 :: "byte list \<Rightarrow> f32" where
  "unpack_f32 bs = of_nat (le_val bs)"

definition pack_f64 :: "f64 \<Rightarrow> byte list" where
  "pack_f64 w = le_bytes 8 (unat w)"

definition unpack_f64 :: "byte list \<Rightarrow> f64" where
  "unpack_f64 bs = of_nat (le_val bs)"

definition pack_be32 :: "int \<Rightarrow> py_error + byte list" where
  \<comment> \<open>format >I\<close>
  "pack_be32 x = (if 0 \<le> x \<and> x < 2 ^ 32 then Inr (be_bytes 4 (nat x)) else Inl StructError)"

lemma length_packed [simp]:
  "length (pack_f32 w) = 4" "length (pack_f64 d) = 8"
  by (simp_all add: pack_f32_def pack_f64_def)

lemma unpack_pack_uint: "pack_uint n x = Inr bs \<Longrightarrow> unpack_uint bs = x \<and> length bs = n"
  by (auto simp: pack_uint_def unpack_uint_def le_val_le_bytes nat_less_iff split: if_splits)

lemma unpack_pack_sint32:
  assumes "pack_sint32 x = Inr bs"
  shows "unpack_sint32 bs = x \<and> length bs = 4"
proof -
  have r: "- (2 ^ 31) \<le> x" "x < 2 ^ 31" and bs: "bs = le_bytes 4 (nat (x mod 2 ^ 32))"
    using assms by (auto simp: pack_sint32_def split: if_splits)
  have "int (le_val bs) = x mod 2 ^ 32"
    by (simp add: bs le_val_le_bytes nat_mod_as_int)
  moreover have "x mod 2 ^ 32 = (if x < 0 then x + 2 ^ 32 else x)"
  proof (cases "x < 0")
    case True
    have "x mod 2 ^ 32 = (x + 2 ^ 32) mod 2 ^ 32" by simp
    also have "\<dots> = x + 2 ^ 32" using True r(1) by (intro mod_pos_pos_trivial) auto
    finally show ?thesis using True by simp
  qed (use r in simp)
  ultimately show ?thesis using r by (simp add: unpack_sint32_def Let_def bs split: if_splits)
qed

lemma unpack_pack_f32 [simp]: "unpack_f32 (pack_f32 w) = w"
proof -
  have "unat w < 256 ^ 4" using unsigned_less [of w, where ?'a = nat] by simp
  then show ?thesis by (simp add: unpack_f32_def pack_f32_def le_val_le_bytes)
qed

lemma unpack_pack_f64 [simp]: "unpack_f64 (pack_f64 w) = w"
proof -
  have "unat w < 256 ^ 8" using unsigned_less [of w, where ?'a = nat] by simp
  then show ?thesis by (simp add: unpack_f64_def pack_f64_def le_val_le_bytes)
qed

lemma unpack_pack_be32: "pack_be32 x = Inr bs \<Longrightarrow> int (be_val bs) = x \<and> length bs = 4"
  by (auto simp: pack_be32_def be_val_be_bytes nat_less_iff split: if_splits)

text \<open>Slicing a packet: the fields of a fixed layout one after another.\<close>

definition slice :: "nat \<Rightarrow> nat \<Rightarrow> 'a list \<Rightarrow> 'a list" where
  "slice i j xs = take (j - i) (drop i xs)"

lemma length_slice [simp]: "length (slice i j xs) = min (j - i) (length xs - i)"
  by (simp add: slice_def min.commute)

lemma slice_append_left: "j \<le> length xs \<Longrightarrow> slice i j (xs @ ys) = slice i j xs"
  by (simp add: slice_def)

lemma slice_append_right: "length xs \<le> i \<Longrightarrow> slice i j (xs @ ys) = slice (i - length xs) (j - length xs) ys"
  by (cases "i \<le> j") (auto simp: slice_def)

lemma slice_full: "length xs \<le> j \<Longrightarrow> slice 0 j xs = xs"
  by (simp add: slice_def)

end
