(* ===== verification/Probe.thy ===== *)
theory Probe
  imports Byte_Codec
begin

text \<open>
  \<open>ring1/probe.py\<close>: the latency strip, a row of black and white blocks that carries
  the host clock and a sequence number through the video stream. A row of luma samples is a list
  of integers. \<open>int(t * 1000)\<close> truncates towards zero.
\<close>

definition MARKER :: "int list" where
  "MARKER = [1, 0, 1, 1, 0, 0, 1, 0]"

definition DATA_BITS :: nat where
  "DATA_BITS = 32 + 16 + 8"

definition TOTAL_BITS :: nat where
  "TOTAL_BITS = length MARKER + DATA_BITS"

definition BLOCK_PX :: nat where
  "BLOCK_PX = 12"

definition py_trunc :: "real \<Rightarrow> int" where
  "py_trunc x = (if 0 \<le> x then \<lfloor>x\<rfloor> else \<lceil>x\<rceil>)"

definition probe_check :: "int \<Rightarrow> int \<Rightarrow> int" where
  "probe_check t_ms seq =
     (let data = le_bytes 4 (nat t_ms) @ le_bytes 2 (nat seq)
      in ((\<Sum>b\<leftarrow>data. uint b) XOR 0xA5) AND 0xFF)"

definition probe_word :: "int \<Rightarrow> int \<Rightarrow> int" where
  "probe_word t_ms seq = t_ms OR push_bit 32 seq OR push_bit 48 (probe_check t_ms seq)"

definition encode_bits :: "real \<Rightarrow> int \<Rightarrow> int list" where
  "encode_bits t_host seq0 =
     (let t_ms = py_trunc (t_host * 1000) AND 0xFFFFFFFF;
          seq = seq0 AND 0xFFFF;
          word = probe_word t_ms seq
      in MARKER @ map (\<lambda>i. drop_bit i word AND 1) [0..<DATA_BITS])"

fun collect_bits :: "nat \<Rightarrow> int list \<Rightarrow> int \<Rightarrow> int" where
  "collect_bits i [] word = word"
| "collect_bits i (b # bs) word = collect_bits (Suc i) bs (word OR push_bit i (b AND 1))"

definition decode_bits :: "int list \<Rightarrow> (int \<times> int) option" where
  "decode_bits bits =
     (if length bits \<noteq> TOTAL_BITS \<or> take (length MARKER) bits \<noteq> MARKER then None
      else let word = collect_bits 0 (drop (length MARKER) bits) 0;
               t_ms = word AND 0xFFFFFFFF;
               seq = drop_bit 32 word AND 0xFFFF
           in if drop_bit 48 word AND 0xFF \<noteq> probe_check t_ms seq then None
              else Some (t_ms, seq))"

definition sample_row :: "int list \<Rightarrow> nat \<Rightarrow> nat \<Rightarrow> int \<Rightarrow> int list" where
  "sample_row row x0 block threshold =
     (let half = block div 2
      in map (\<lambda>i. if row ! (x0 + i * block + half) \<ge> threshold then 1 else 0) [0..<TOTAL_BITS])"

definition latency_ms :: "real \<Rightarrow> int \<Rightarrow> int" where
  "latency_ms now_s t_ms = ((py_trunc (now_s * 1000) AND 0xFFFFFFFF) - t_ms) AND 0xFFFFFFFF"

subsection \<open>Finding the strip in a row\<close>

text \<open>The inner loop: extend \<open>last\<close> while the next offset still decodes.\<close>

function extend_last :: "int list \<Rightarrow> nat \<Rightarrow> nat \<Rightarrow> nat \<Rightarrow> nat" where
  "extend_last row block limit x =
     (if x + 1 \<le> limit \<and> decode_bits (sample_row row (x + 1) block 128) \<noteq> None
      then extend_last row block limit (x + 1) else x)"
  by pat_completeness auto
termination
  by (relation "measure (\<lambda>(row, block, limit, x). limit - x)") auto

declare extend_last.simps [simp del]

definition strip_candidate :: "int list \<Rightarrow> nat \<Rightarrow> nat \<Rightarrow> bool" where
  "strip_candidate row block x0 =
     (let span = TOTAL_BITS * block; half = block div 2
      in \<not> (row ! (x0 - half) \<ge> 64 \<or> row ! (x0 + span + half) \<ge> 64)
         \<and> list_all (\<lambda>(i, m). (row ! (x0 + i * block + half) \<ge> 128) = (m \<noteq> 0)) (enumerate 0 MARKER)
         \<and> decode_bits (sample_row row x0 block 128) \<noteq> None)"

fun find_strip_from :: "int list \<Rightarrow> nat \<Rightarrow> nat \<Rightarrow> nat list \<Rightarrow> nat option" where
  "find_strip_from row block limit [] = None"
| "find_strip_from row block limit (x0 # xs) =
     (if strip_candidate row block x0
      then Some ((x0 + extend_last row block limit x0) div 2)
      else find_strip_from row block limit xs)"

definition find_strip :: "int list \<Rightarrow> nat \<Rightarrow> nat option" where
  "find_strip row block =
     (let span = TOTAL_BITS * block
      in find_strip_from row block (length row - span - block) [block ..< length row + 1 - span - block])"

subsection \<open>Bits of the word\<close>

lemmas strip_sizes = MARKER_def DATA_BITS_def TOTAL_BITS_def

lemma and_masks:
  "(x::int) AND 0xFFFFFFFF = take_bit 32 x" "x AND 0xFFFF = take_bit 16 x" "x AND 0xFF = take_bit 8 x"
  by (simp_all add: take_bit_eq_mask mask_eq_exp_minus_1)

lemma bit_and_1: "bit (b AND 1 :: int) m \<longleftrightarrow> m = 0 \<and> odd b"
  unfolding bit_and_iff by (auto simp: bit_1_iff bit_0)

lemma bit_or_push: "bit (w OR push_bit i (b AND 1) :: int) n \<longleftrightarrow> bit w n \<or> (n = i \<and> odd b)"
  unfolding bit_or_iff bit_push_bit_iff_int bit_and_1 by auto

lemma bit_collect_bits:
  "bit (collect_bits i bs w) n \<longleftrightarrow> bit w n \<or> (i \<le> n \<and> n < i + length bs \<and> odd (bs ! (n - i)))"
proof (induction bs arbitrary: i w)
  case (Cons b bs)
  show ?case
    unfolding collect_bits.simps Cons.IH bit_or_push
    by (cases "n = i") (auto simp: nth_Cons' Suc_le_eq)
qed auto

lemma odd_and_1: "odd (x AND 1 :: int) \<longleftrightarrow> odd x"
  by (simp add: even_and_iff)

lemma collect_bits_map:
  "collect_bits 0 (map (\<lambda>i. drop_bit i w AND 1) [0..<n]) 0 = take_bit n w"
proof (rule bit_eqI)
  fix k
  show "bit (collect_bits 0 (map (\<lambda>i. drop_bit i w AND 1) [0..<n]) 0) k \<longleftrightarrow> bit (take_bit n w) k"
    unfolding bit_collect_bits bit_take_bit_iff
    by (cases "k < n") (simp_all add: odd_and_1 bit_iff_odd_drop_bit del: and_one_eq)
qed

lemma bit_bounded: "0 \<le> (x::int) \<Longrightarrow> x < 2 ^ k \<Longrightarrow> bit x n \<Longrightarrow> n < k"
  by (metis bit_take_bit_iff take_bit_int_eq_self)

lemma probe_check_range: "0 \<le> probe_check t s" "probe_check t s < 2 ^ 8"
  unfolding probe_check_def Let_def and_masks
  by (rule take_bit_nonnegative, rule take_bit_int_less_exp)

lemma probe_word_fields:
  assumes "0 \<le> t" "t < 2 ^ 32" "0 \<le> s" "s < 2 ^ 16"
  shows "take_bit 56 (probe_word t s) AND 0xFFFFFFFF = t"
    and "drop_bit 32 (take_bit 56 (probe_word t s)) AND 0xFFFF = s"
    and "drop_bit 48 (take_bit 56 (probe_word t s)) AND 0xFF = probe_check t s"
proof -
  note b = bit_bounded [OF assms(1, 2)] bit_bounded [OF assms(3, 4)] bit_bounded [OF probe_check_range, of t s]
  show "take_bit 56 (probe_word t s) AND 0xFFFFFFFF = t"
    by (rule bit_eqI) (auto simp: probe_word_def and_masks bit_simps dest: b)
  show "drop_bit 32 (take_bit 56 (probe_word t s)) AND 0xFFFF = s"
    by (rule bit_eqI) (auto simp: probe_word_def and_masks bit_simps dest: b)
  show "drop_bit 48 (take_bit 56 (probe_word t s)) AND 0xFF = probe_check t s"
    by (rule bit_eqI) (auto simp: probe_word_def and_masks bit_simps dest: b)
qed

lemma length_encode_bits [simp]: "length (encode_bits t seq) = TOTAL_BITS"
  by (simp add: encode_bits_def Let_def strip_sizes)

lemma take_encode_bits: "take (length MARKER) (encode_bits t seq) = MARKER"
  by (simp add: encode_bits_def Let_def)

lemma drop_encode_bits:
  "drop (length MARKER) (encode_bits t seq)
     = map (\<lambda>i. drop_bit i (probe_word (py_trunc (t * 1000) AND 0xFFFFFFFF) (seq AND 0xFFFF)) AND 1) [0..<DATA_BITS]"
  by (simp add: encode_bits_def Let_def del: and_one_eq)

lemma stamp_ranges:
  "0 \<le> (x::int) AND 0xFFFFFFFF" "x AND 0xFFFFFFFF < 2 ^ 32" "0 \<le> y AND (0xFFFF::int)" "y AND 0xFFFF < 2 ^ 16"
  unfolding and_masks by (rule take_bit_nonnegative take_bit_int_less_exp)+

lemma stamp_mod: "(x::int) AND 0xFFFFFFFF = x mod 2 ^ 32" "y AND (0xFFFF::int) = y mod 2 ^ 16"
  unfolding and_masks by (simp_all add: take_bit_eq_mod)

lemma decode_encode_bits:
  "decode_bits (encode_bits t seq) = Some (py_trunc (t * 1000) mod 2 ^ 32, seq mod 2 ^ 16)"
proof -
  let ?t = "py_trunc (t * 1000) AND 0xFFFFFFFF" and ?s = "seq AND 0xFFFF"
  note f = probe_word_fields [OF stamp_ranges, of "py_trunc (t * 1000)" seq]
  have "collect_bits 0 (drop (length MARKER) (encode_bits t seq)) 0 = take_bit 56 (probe_word ?t ?s)"
    unfolding drop_encode_bits collect_bits_map by (simp add: DATA_BITS_def)
  then show ?thesis
    using f take_encode_bits [of t seq] by (simp add: decode_bits_def Let_def stamp_mod)
qed

text \<open>Whatever the host clock and sequence number, the strip decodes to exactly the stamp
  that was encoded: the clock in milliseconds modulo 2^32 and the sequence number modulo 2^16.\<close>

theorem probe_roundtrip:
  "decode_bits (encode_bits t seq) = Some (py_trunc (t * 1000) mod 2 ^ 32, seq mod 2 ^ 16)"
  by (rule decode_encode_bits)

text \<open>The elapsed time survives the wrap of the 32-bit millisecond counter.\<close>

lemma latency_of_stamp:
  assumes "0 \<le> d" "d < 2 ^ 32" "py_trunc (now_s * 1000) = py_trunc (t * 1000) + d"
  shows "latency_ms now_s (py_trunc (t * 1000) mod 2 ^ 32) = d"
proof -
  have "latency_ms now_s (py_trunc (t * 1000) mod 2 ^ 32)
      = ((py_trunc (t * 1000) + d) mod 2 ^ 32 - py_trunc (t * 1000) mod 2 ^ 32) mod 2 ^ 32"
    by (simp add: latency_ms_def assms(3) stamp_mod)
  also have "\<dots> = (py_trunc (t * 1000) + d - py_trunc (t * 1000)) mod 2 ^ 32"
    by (rule mod_diff_eq)
  finally show ?thesis using assms(1, 2) by simp
qed

subsection \<open>The check byte catches every single-bit error\<close>

lemma unat_byte_take_bit: "unat (of_nat x :: byte) = take_bit 8 x"
  by (simp add: take_bit_eq_mod)

definition flip :: "nat \<Rightarrow> nat \<Rightarrow> nat" where
  "flip j x = x XOR 2 ^ j"

lemma bit_flip: "bit (flip j x) n \<longleftrightarrow> (if n = j then \<not> bit x n else bit x n)"
  by (auto simp: flip_def bit_xor_iff bit_exp_iff)

lemma flip_low: "j < 8 \<Longrightarrow> take_bit 8 (flip j x) = flip j (take_bit 8 x)"
  by (rule bit_eqI) (auto simp: bit_take_bit_iff bit_flip)

lemma flip_low_rest: "j < 8 \<Longrightarrow> drop_bit 8 (flip j x) = drop_bit 8 x"
  by (rule bit_eqI) (auto simp: bit_drop_bit_eq bit_flip)

lemma flip_high: "8 \<le> j \<Longrightarrow> take_bit 8 (flip j x) = take_bit 8 x"
  by (rule bit_eqI) (auto simp: bit_take_bit_iff bit_flip)

lemma flip_high_rest: "8 \<le> j \<Longrightarrow> drop_bit 8 (flip j x) = flip (j - 8) (drop_bit 8 x)"
  by (rule bit_eqI) (auto simp: bit_drop_bit_eq bit_flip)

lemma flip_diff: "int (flip j x) - int x = (if bit x j then - (2 ^ j) else 2 ^ j)"
proof (cases "bit x j")
  case True
  have "flip j x = unset_bit j x"
    by (rule bit_eqI) (auto simp: bit_flip bit_unset_bit_iff True)
  moreover have "x = flip j x + 2 ^ j"
  proof -
    have "unset_bit j x OR 2 ^ j = unset_bit j x + 2 ^ j"
      by (rule disjunctive_add [symmetric]) (auto simp: bit_unset_bit_iff bit_exp_iff)
    moreover have "unset_bit j x OR 2 ^ j = x"
      by (rule bit_eqI) (auto simp: bit_or_iff bit_unset_bit_iff bit_exp_iff True)
    ultimately show ?thesis using \<open>flip j x = unset_bit j x\<close> by simp
  qed
  then have "int x = int (flip j x) + 2 ^ j"
    by (metis of_nat_add of_nat_numeral of_nat_power)
  then show ?thesis using True by simp
next
  case False
  have "flip j x = x + 2 ^ j"
  proof -
    have "flip j x = x OR 2 ^ j"
      by (rule bit_eqI) (auto simp: bit_flip bit_or_iff bit_exp_iff False)
    also have "\<dots> = x + 2 ^ j"
      by (rule disjunctive_add [symmetric]) (use False in \<open>auto simp: bit_exp_iff\<close>)
    finally show ?thesis .
  qed
  then show ?thesis using False by simp
qed

definition byte_sum :: "nat \<Rightarrow> nat \<Rightarrow> int" where
  "byte_sum n x = (\<Sum>b\<leftarrow>le_bytes n x. uint b)"

lemma byte_sum_Suc: "byte_sum (Suc n) x = int (take_bit 8 x) + byte_sum n (drop_bit 8 x)"
  by (simp add: byte_sum_def drop_bit_eq_div unsigned_of_nat)

lemma byte_sum_flip:
  "j < 8 * n \<Longrightarrow> byte_sum n (flip j x) - byte_sum n x \<in> {2 ^ (j mod 8), - (2 ^ (j mod 8))}"
proof (induction n arbitrary: j x)
  case (Suc n)
  show ?case
  proof (cases "j < 8")
    case True
    then show ?thesis
      using flip_diff [of j "take_bit 8 x"]
      by (auto simp: byte_sum_Suc flip_low flip_low_rest split: if_splits)
  next
    case False
    then have "byte_sum n (flip (j - 8) (drop_bit 8 x)) - byte_sum n (drop_bit 8 x)
        \<in> {2 ^ ((j - 8) mod 8), - (2 ^ ((j - 8) mod 8))}"
      using Suc.prems by (intro Suc.IH) auto
    moreover have "(j - 8) mod 8 = j mod 8" using False by (simp add: le_mod_geq)
    ultimately show ?thesis
      using False by (auto simp: byte_sum_Suc flip_high flip_high_rest)
  qed
qed simp

lemma probe_check_eq: "probe_check t s = take_bit 8 ((byte_sum 4 (nat t) + byte_sum 2 (nat s)) XOR 0xA5)"
  by (simp add: probe_check_def Let_def and_masks byte_sum_def)

lemma take_bit_xor_cancel:
  "take_bit 8 ((a::int) XOR c) = take_bit 8 (b XOR c) \<Longrightarrow> take_bit 8 a = take_bit 8 b"
proof (rule bit_eqI)
  fix n
  assume "take_bit 8 (a XOR c) = take_bit 8 (b XOR c)"
  then have "bit (take_bit 8 (a XOR c)) n = bit (take_bit 8 (b XOR c)) n" by simp
  then show "bit (take_bit 8 a) n = bit (take_bit 8 b) n"
    by (auto simp: bit_take_bit_iff bit_xor_iff)
qed

lemma check_changes:
  assumes "a - b \<in> {2 ^ (k mod 8), - (2 ^ (k mod 8))}"
  shows "take_bit 8 ((a::int) XOR c) \<noteq> take_bit 8 (b XOR c)"
proof
  assume "take_bit 8 (a XOR c) = take_bit 8 (b XOR c)"
  then have "a mod 256 = b mod 256"
    by (drule_tac take_bit_xor_cancel) (simp add: take_bit_eq_mod)
  then have d: "(256::int) dvd 2 ^ (k mod 8)"
    using assms by (auto simp: mod_eq_dvd_iff)
  have "(2::int) ^ (k mod 8) < 2 ^ 8" by (rule power_strict_increasing) auto
  then show False using zdvd_imp_le [OF d] by simp
qed

lemma probe_check_flip_t:
  "j < 32 \<Longrightarrow> probe_check (int (flip j t)) (int s) \<noteq> probe_check (int t) (int s)"
  unfolding probe_check_eq using byte_sum_flip [of j 4 t]
  by (intro check_changes [of _ _ j]) auto

lemma probe_check_flip_s:
  "j < 16 \<Longrightarrow> probe_check (int t) (int (flip j s)) \<noteq> probe_check (int t) (int s)"
  unfolding probe_check_eq using byte_sum_flip [of j 2 s]
  by (intro check_changes [of _ _ j]) auto

text \<open>The decoder on the data bits alone, in terms of the collected word.\<close>

lemma decode_bits_word:
  assumes "length bits = TOTAL_BITS" "take (length MARKER) bits = MARKER"
  shows "decode_bits bits =
    (let w = collect_bits 0 (drop (length MARKER) bits) 0
     in if take_bit 8 (drop_bit 48 w) = probe_check (take_bit 32 w) (take_bit 16 (drop_bit 32 w))
        then Some (take_bit 32 w, take_bit 16 (drop_bit 32 w)) else None)"
  using assms by (simp add: decode_bits_def Let_def and_masks)

lemma bit_collected:
  "bit (collect_bits 0 ds 0) n \<longleftrightarrow> n < length ds \<and> odd (ds ! n)"
  by (simp add: bit_collect_bits)

lemma nat_flip_eqI:
  assumes "0 \<le> (x::int)" "0 \<le> y" "\<And>n. bit x n \<longleftrightarrow> (if n = j then \<not> bit y n else bit y n)"
  shows "x = int (flip j (nat y))"
proof (rule bit_eqI)
  fix n
  have e: "bit y m \<longleftrightarrow> bit (nat y) m" for m
    using assms(2) by (metis bit_of_nat_iff_bit int_nat_eq)
  show "bit x n = bit (int (flip j (nat y))) n"
    by (simp add: assms(3) bit_flip bit_of_nat_iff_bit e)
qed

lemma flipped_word_rejected:
  fixes w w' :: int
  assumes flip: "\<And>n. bit w' n \<longleftrightarrow> (if n = j then \<not> bit w n else bit w n)" and j: "j < 56"
    and ok: "take_bit 8 (drop_bit 48 w) = probe_check (take_bit 32 w) (take_bit 16 (drop_bit 32 w))"
  shows "take_bit 8 (drop_bit 48 w') \<noteq> probe_check (take_bit 32 w') (take_bit 16 (drop_bit 32 w'))"
proof -
  let ?t = "take_bit 32" and ?s = "\<lambda>w. take_bit 16 (drop_bit 32 w)" and ?c = "\<lambda>w. take_bit 8 (drop_bit 48 w)"
  consider (t) "j < 32" | (s) "32 \<le> j" "j < 48" | (c) "48 \<le> j" by linarith
  then show ?thesis
  proof cases
    case t
    have "?t w' = int (flip j (nat (?t w)))"
      by (rule nat_flip_eqI) (use t in \<open>auto simp: bit_take_bit_iff flip\<close>)
    moreover have "?s w' = ?s w" "?c w' = ?c w"
      by (rule bit_eqI, use t in \<open>auto simp: bit_take_bit_iff bit_drop_bit_eq flip\<close>)+
    ultimately show ?thesis
      using probe_check_flip_t [OF t, of "nat (?t w)" "nat (?s w)"] ok by simp
  next
    case s
    have "?s w' = int (flip (j - 32) (nat (?s w)))"
      by (rule nat_flip_eqI) (use s in \<open>auto simp: bit_take_bit_iff bit_drop_bit_eq flip\<close>)
    moreover have "?t w' = ?t w" "?c w' = ?c w"
      by (rule bit_eqI, use s in \<open>auto simp: bit_take_bit_iff bit_drop_bit_eq flip\<close>)+
    moreover have "j - 32 < 16" using s by simp
    ultimately show ?thesis
      using probe_check_flip_s [of "j - 32" "nat (?t w)" "nat (?s w)"] ok by simp
  next
    case c
    have "?t w' = ?t w" "?s w' = ?s w"
      by (rule bit_eqI, use c in \<open>auto simp: bit_take_bit_iff bit_drop_bit_eq flip\<close>)+
    moreover have "bit (?c w') (j - 48) \<noteq> bit (?c w) (j - 48)"
    proof -
      have "j - 48 < 8" using c j by simp
      then show ?thesis using c by (simp add: bit_take_bit_iff bit_drop_bit_eq flip)
    qed
    ultimately show ?thesis using ok by metis
  qed
qed

text \<open>Flipping any one of the 64 blocks of an encoded strip (marker, clock, sequence or
  check) makes the decoder reject it: a single-bit transmission error never yields a stamp.\<close>

theorem probe_single_bit_error_rejected:
  assumes "i < TOTAL_BITS"
  shows "decode_bits ((encode_bits t seq)[i := 1 - encode_bits t seq ! i]) = None"
proof -
  let ?bits = "encode_bits t seq" and ?m = "length MARKER"
  let ?bad = "?bits[i := 1 - ?bits ! i]"
  show ?thesis
  proof (cases "i < ?m")
    case True
    have "take ?m ?bad ! i = 1 - MARKER ! i"
      using True take_encode_bits [of t seq] assms by (metis length_encode_bits nth_list_update_eq nth_take)
    moreover have "1 - MARKER ! i \<noteq> MARKER ! i" by presburger
    ultimately have "take ?m ?bad \<noteq> MARKER" by metis
    then show ?thesis by (simp add: decode_bits_def)
  next
    case False
    then have tk: "take ?m ?bad = MARKER" using take_encode_bits [of t seq] by simp
    let ?ds = "drop ?m ?bits" and ?j = "i - ?m"
    have len: "length ?ds = 56" by (simp add: strip_sizes)
    have dr: "drop ?m ?bad = ?ds[?j := 1 - ?ds ! ?j]"
      using False assms by (simp add: drop_update_swap)
    have j: "?j < 56" using assms False by (simp add: strip_sizes)
    let ?w = "collect_bits 0 ?ds 0" and ?w' = "collect_bits 0 (?ds[?j := 1 - ?ds ! ?j]) 0"
    have "bit ?w' n \<longleftrightarrow> (if n = ?j then \<not> bit ?w n else bit ?w n)" for n
      using j len by (auto simp: bit_collected nth_list_update)
    moreover have "take_bit 8 (drop_bit 48 ?w) = probe_check (take_bit 32 ?w) (take_bit 16 (drop_bit 32 ?w))"
      using decode_encode_bits [of t seq]
      by (simp add: decode_bits_word take_encode_bits Let_def split: if_splits)
    ultimately have "take_bit 8 (drop_bit 48 ?w') \<noteq> probe_check (take_bit 32 ?w') (take_bit 16 (drop_bit 32 ?w'))"
      using j by (intro flipped_word_rejected [where w = ?w and j = ?j]) auto
    then show ?thesis by (simp add: decode_bits_word tk dr Let_def)
  qed
qed

theorem probe_single_bit_error_rejected_witness:
  "(0::nat) < TOTAL_BITS \<and> decode_bits ((encode_bits 1 7)[0 := 1 - encode_bits 1 7 ! 0]) = None"
proof -
  have "(0::nat) < TOTAL_BITS" by (simp add: strip_sizes)
  then show ?thesis using probe_single_bit_error_rejected by blast
qed

subsection \<open>The strip finder\<close>

lemma extend_last_spec:
  "x \<le> extend_last row block limit x
   \<and> (\<forall>y. x < y \<and> y \<le> extend_last row block limit x \<longrightarrow> y \<le> limit \<and> decode_bits (sample_row row y block 128) \<noteq> None)"
proof (induction row block limit x rule: extend_last.induct)
  case (1 row block limit x)
  show ?case
  proof (cases "x + 1 \<le> limit \<and> decode_bits (sample_row row (x + 1) block 128) \<noteq> None")
    case dec: True
    have IH: "x + 1 \<le> extend_last row block limit (x + 1)"
      "\<forall>y. x + 1 < y \<and> y \<le> extend_last row block limit (x + 1) \<longrightarrow> y \<le> limit \<and> decode_bits (sample_row row y block 128) \<noteq> None"
      using "1.IH" [OF dec] by blast+
    have "extend_last row block limit x = extend_last row block limit (x + 1)"
      using dec by (simp add: extend_last.simps [of row block limit x])
    moreover have "y \<le> limit \<and> decode_bits (sample_row row y block 128) \<noteq> None"
      if a: "x < y" "y \<le> extend_last row block limit (x + 1)" for y
    proof (cases "y = x + 1")
      case True
      then show ?thesis using dec by blast
    next
      case False
      then have "x + 1 < y" using a by linarith
      then show ?thesis using IH(2) a by blast
    qed
    ultimately show ?thesis using IH(1) by (metis Suc_eq_plus1 Suc_leD)
  next
    case False
    then have "extend_last row block limit x = x"
      by (simp only: extend_last.simps [of row block limit x] if_False)
    then show ?thesis by (metis leD order_refl)
  qed
qed

lemma find_strip_from_spec:
  "find_strip_from row block limit xs = Some m \<Longrightarrow>
    \<exists>x0 \<in> set xs. strip_candidate row block x0 \<and> m = (x0 + extend_last row block limit x0) div 2"
  by (induction row block limit xs rule: find_strip_from.induct) (auto split: if_splits)

lemma find_strip_from_None:
  "find_strip_from row block limit xs = None \<longleftrightarrow> (\<forall>x0 \<in> set xs. \<not> strip_candidate row block x0)"
  by (induction row block limit xs rule: find_strip_from.induct) auto

text \<open>The offset the finder locks on, the middle of the run of decoding offsets, itself
  decodes, and the whole strip with a block on either side lies inside the row.\<close>

theorem find_strip_locks_on_decoding_offset:
  assumes "find_strip row block = Some m" and "0 < block"
  shows "decode_bits (sample_row row m block 128) \<noteq> None
    \<and> block \<le> m \<and> m + TOTAL_BITS * block + block \<le> length row"
proof -
  let ?lim = "length row - TOTAL_BITS * block - block"
  have "find_strip_from row block ?lim [block ..< length row + 1 - TOTAL_BITS * block - block] = Some m"
    using assms(1) by (simp only: find_strip_def Let_def)
  from find_strip_from_spec [OF this]
  obtain x0 where x0: "x0 \<in> set [block ..< length row + 1 - TOTAL_BITS * block - block]"
    "strip_candidate row block x0" "m = (x0 + extend_last row block ?lim x0) div 2"
    by blast
  let ?l = "extend_last row block ?lim x0"
  note e = extend_last_spec [of x0 row block ?lim]
  have le: "x0 \<le> m" "m \<le> ?l" using e x0(3) by auto
  have x0b: "block \<le> x0" "x0 + TOTAL_BITS * block + block \<le> length row" using x0(1) by auto
  have "decode_bits (sample_row row x0 block 128) \<noteq> None"
    using x0(2) by (simp add: strip_candidate_def Let_def)
  then have "decode_bits (sample_row row m block 128) \<noteq> None"
    using e le by (cases "m = x0") auto
  moreover have "m + TOTAL_BITS * block + block \<le> length row"
    using e le x0b by (cases "m = x0") (auto simp: nat_less_le)
  ultimately show ?thesis using x0b le by simp
qed

definition sample_strip :: "int list" where
  "sample_strip = [0, 0] @ concat (map (\<lambda>b. [255 * b, 255 * b])
     (MARKER @ replicate 48 0 @ [1, 0, 1, 0, 0, 1, 0, 1])) @ [0, 0]"

theorem find_strip_locks_on_decoding_offset_witness:
  "find_strip sample_strip 2 = Some 2 \<and> decode_bits (sample_row sample_strip 2 2 128) \<noteq> None"
proof -
  have f: "find_strip sample_strip 2 = Some 2" by code_simp
  show ?thesis using f find_strip_locks_on_decoding_offset [OF f] by simp
qed

end
