(* ===== verification/Json.thy ===== *)
theory Json
  imports Byte_Codec
begin

text \<open>
  What the program uses of Python's \<open>json\<close>: \<open>dumps(v, separators=(",", ":"))\<close> (ASCII
  output) and \<open>loads\<close>, with the scanner's number grammar, string escapes, white space and
  duplicate-key rule (the last value wins, at the first key's place). A float is represented by
  the text of its numeral, which is all the program does with one on the wire. Code points above
  255 are not represented: an escape or a UTF-8 sequence for one is refused.
\<close>

datatype json = JNull | JBool bool | JInt int | JFloat string | JStr string
  | JList "json list" | JObj "(string, json) dict"

subsection \<open>Printing\<close>

abbreviation code :: "char \<Rightarrow> nat" where
  "code c \<equiv> of_char c"

definition digit_char :: "nat \<Rightarrow> char" where
  "digit_char n = char_of (48 + n)"

definition hex_char :: "nat \<Rightarrow> char" where
  "hex_char n = (if n < 10 then char_of (48 + n) else char_of (87 + n))"

fun nat_text :: "nat \<Rightarrow> string" where
  "nat_text n = (if n < 10 then [digit_char n] else nat_text (n div 10) @ [digit_char (n mod 10)])"

declare nat_text.simps [simp del]

definition int_text :: "int \<Rightarrow> string" where
  "int_text i = (if i < 0 then CHR ''-'' # nat_text (nat (- i)) else nat_text (nat i))"

definition escape_char :: "char \<Rightarrow> string" where
  "escape_char c =
     (if c = CHR 0x22 then [CHR 0x5C, CHR 0x22]
      else if c = CHR 0x5C then [CHR 0x5C, CHR 0x5C]
      else if code c = 10 then [CHR 0x5C, CHR ''n'']
      else if code c = 13 then [CHR 0x5C, CHR ''r'']
      else if code c = 9 then [CHR 0x5C, CHR ''t'']
      else if code c = 12 then [CHR 0x5C, CHR ''f'']
      else if code c = 8 then [CHR 0x5C, CHR ''b'']
      else if code c < 32 \<or> 126 < code c
      then [CHR 0x5C, CHR ''u'', CHR ''0'', CHR ''0'', hex_char (code c div 16), hex_char (code c mod 16)]
      else [c])"

definition str_text :: "string \<Rightarrow> string" where
  "str_text s = CHR 0x22 # concat (map escape_char s) @ [CHR 0x22]"

fun join_comma :: "string list \<Rightarrow> string" where
  "join_comma [] = []"
| "join_comma [x] = x"
| "join_comma (x # xs) = x @ CHR '','' # join_comma xs"

fun dumps :: "json \<Rightarrow> string" where
  "dumps JNull = ''null''"
| "dumps (JBool b) = (if b then ''true'' else ''false'')"
| "dumps (JInt i) = int_text i"
| "dumps (JFloat t) = t"
| "dumps (JStr s) = str_text s"
| "dumps (JList xs) = CHR ''['' # join_comma (map dumps xs) @ '']''"
| "dumps (JObj kvs) = CHR ''{'' # join_comma (map (\<lambda>(k, v). str_text k @ CHR '':'' # dumps v) kvs) @ ''}''"

subsection \<open>Scanning\<close>

definition is_digit :: "char \<Rightarrow> bool" where
  "is_digit c \<longleftrightarrow> 48 \<le> code c \<and> code c \<le> 57"

definition digits_val :: "string \<Rightarrow> nat" where
  "digits_val s = foldl (\<lambda>a c. 10 * a + (code c - 48)) 0 s"

definition is_ws :: "char \<Rightarrow> bool" where
  "is_ws c \<longleftrightarrow> code c \<in> {32, 9, 10, 13}"

definition skip_ws :: "string \<Rightarrow> string" where
  "skip_ws s = dropWhile is_ws s"

definition scan_sign :: "string \<Rightarrow> string \<times> string" where
  "scan_sign s = (case s of c # r \<Rightarrow> if c = CHR ''-'' then ([c], r) else ([], s) | [] \<Rightarrow> ([], s))"

definition scan_int :: "string \<Rightarrow> (string \<times> string) option" where
  "scan_int s = (case s of [] \<Rightarrow> None
     | c # r \<Rightarrow> if c = CHR ''0'' then Some ([c], r)
               else if is_digit c then Some (takeWhile is_digit s, dropWhile is_digit s) else None)"

definition scan_frac :: "string \<Rightarrow> string \<times> string" where
  "scan_frac s = (case s of [] \<Rightarrow> ([], s)
     | c # r \<Rightarrow> if c = CHR ''.'' \<and> takeWhile is_digit r \<noteq> []
               then (c # takeWhile is_digit r, dropWhile is_digit r) else ([], s))"

definition scan_exp_sign :: "string \<Rightarrow> string \<times> string" where
  "scan_exp_sign s = (case s of [] \<Rightarrow> ([], s)
     | c # r \<Rightarrow> if c = CHR ''-'' \<or> c = CHR ''+'' then ([c], r) else ([], s))"

definition scan_exp :: "string \<Rightarrow> string \<times> string" where
  "scan_exp s = (case s of [] \<Rightarrow> ([], s)
     | c # r \<Rightarrow> if c = CHR ''e'' \<or> c = CHR ''E''
               then let (sg, r1) = scan_exp_sign r
                    in if takeWhile is_digit r1 \<noteq> []
                       then (c # sg @ takeWhile is_digit r1, dropWhile is_digit r1) else ([], s)
               else ([], s))"

definition scan_number :: "string \<Rightarrow> (json \<times> string) option" where
  "scan_number s =
     (let (sg, s1) = scan_sign s
      in case scan_int s1 of None \<Rightarrow> None
         | Some (ip, s2) \<Rightarrow>
             let (fr, s3) = scan_frac s2; (ex, s4) = scan_exp s3
             in if fr = [] \<and> ex = []
                then Some (JInt (if sg = [] then int (digits_val ip) else - int (digits_val ip)), s4)
                else Some (JFloat (sg @ ip @ fr @ ex), s4))"

definition hex_val :: "char \<Rightarrow> nat option" where
  "hex_val c = (let n = code c in
     if 48 \<le> n \<and> n \<le> 57 then Some (n - 48)
     else if 97 \<le> n \<and> n \<le> 102 then Some (n - 87)
     else if 65 \<le> n \<and> n \<le> 70 then Some (n - 55) else None)"

definition hex4 :: "char \<Rightarrow> char \<Rightarrow> char \<Rightarrow> char \<Rightarrow> nat option" where
  "hex4 a b c d = (case (hex_val a, hex_val b, hex_val c, hex_val d) of
     (Some w, Some x, Some y, Some z) \<Rightarrow> Some (((w * 16 + x) * 16 + y) * 16 + z) | _ \<Rightarrow> None)"

definition unescape :: "char \<Rightarrow> char option" where
  "unescape c =
     (if c = CHR 0x22 \<or> c = CHR 0x5C \<or> c = CHR ''/'' then Some c
      else if c = CHR ''b'' then Some (char_of (8::nat))
      else if c = CHR ''f'' then Some (char_of (12::nat))
      else if c = CHR ''n'' then Some (char_of (10::nat))
      else if c = CHR ''r'' then Some (char_of (13::nat))
      else if c = CHR ''t'' then Some (char_of (9::nat)) else None)"

definition push_char :: "char \<Rightarrow> (string \<times> string) option \<Rightarrow> (string \<times> string) option" where
  "push_char c r = map_option (\<lambda>(s, t). (c # s, t)) r"

fun scan_str :: "string \<Rightarrow> (string \<times> string) option" where
  "scan_str [] = None"
| "scan_str (c # r) =
     (if c = CHR 0x22 then Some ([], r)
      else if c = CHR 0x5C then
        (case r of [] \<Rightarrow> None
         | e # r1 \<Rightarrow>
             if e = CHR ''u'' then
               (case r1 of a # b # x # y # r2 \<Rightarrow>
                  (case hex4 a b x y of None \<Rightarrow> None
                   | Some n \<Rightarrow> if n < 256 then push_char (char_of n) (scan_str r2) else None)
                | _ \<Rightarrow> None)
             else (case unescape e of None \<Rightarrow> None | Some ch \<Rightarrow> push_char ch (scan_str r1)))
      else if code c < 32 then None
      else push_char c (scan_str r))"

definition strip_prefix :: "string \<Rightarrow> string \<Rightarrow> string option" where
  "strip_prefix p s = (if take (length p) s = p then Some (drop (length p) s) else None)"

definition scan_atom :: "string \<Rightarrow> (json \<times> string) option" where
  "scan_atom s =
     (case strip_prefix ''null'' s of Some r \<Rightarrow> Some (JNull, r) | None \<Rightarrow>
      case strip_prefix ''true'' s of Some r \<Rightarrow> Some (JBool True, r) | None \<Rightarrow>
      case strip_prefix ''false'' s of Some r \<Rightarrow> Some (JBool False, r) | None \<Rightarrow>
      case scan_number s of Some r \<Rightarrow> Some r | None \<Rightarrow>
      case strip_prefix ''NaN'' s of Some r \<Rightarrow> Some (JFloat ''NaN'', r) | None \<Rightarrow>
      case strip_prefix ''Infinity'' s of Some r \<Rightarrow> Some (JFloat ''Infinity'', r) | None \<Rightarrow>
      case strip_prefix ''-Infinity'' s of Some r \<Rightarrow> Some (JFloat ''-Infinity'', r) | None \<Rightarrow> None)"

text \<open>The value parser; every call consumes a character, so the length of the text is enough fuel.\<close>

fun parse_value :: "nat \<Rightarrow> string \<Rightarrow> (json \<times> string) option"
  and parse_elems :: "nat \<Rightarrow> string \<Rightarrow> json list \<Rightarrow> (json \<times> string) option"
  and parse_members :: "nat \<Rightarrow> string \<Rightarrow> (string, json) dict \<Rightarrow> (json \<times> string) option" where
  "parse_value 0 s = None"
| "parse_value (Suc n) s =
     (case s of [] \<Rightarrow> None
      | c # r \<Rightarrow>
          if c = CHR 0x22 then map_option (\<lambda>(t, r1). (JStr t, r1)) (scan_str r)
          else if c = CHR ''{'' then
            (case skip_ws r of [] \<Rightarrow> None
             | d # r1 \<Rightarrow> if d = CHR ''}'' then Some (JObj [], r1) else parse_members n (d # r1) [])
          else if c = CHR ''['' then
            (case skip_ws r of [] \<Rightarrow> None
             | d # r1 \<Rightarrow> if d = CHR '']'' then Some (JList [], r1) else parse_elems n (d # r1) [])
          else scan_atom s)"
| "parse_elems 0 s acc = None"
| "parse_elems (Suc n) s acc =
     (case parse_value n s of None \<Rightarrow> None
      | Some (v, r) \<Rightarrow>
          (case skip_ws r of [] \<Rightarrow> None
           | d # r1 \<Rightarrow> if d = CHR '']'' then Some (JList (acc @ [v]), r1)
                      else if d = CHR '','' then parse_elems n (skip_ws r1) (acc @ [v]) else None))"
| "parse_members 0 s acc = None"
| "parse_members (Suc n) s acc =
     (case s of [] \<Rightarrow> None
      | q # r0 \<Rightarrow> if q \<noteq> CHR 0x22 then None else
     (case scan_str r0 of None \<Rightarrow> None
      | Some (k, r) \<Rightarrow>
          (case skip_ws r of [] \<Rightarrow> None
           | d # r1 \<Rightarrow> if d \<noteq> CHR '':'' then None else
          (case parse_value n (skip_ws r1) of None \<Rightarrow> None
           | Some (v, r2) \<Rightarrow>
               (case skip_ws r2 of [] \<Rightarrow> None
                | d2 # r3 \<Rightarrow> if d2 = CHR ''}'' then Some (JObj (dset k v acc), r3)
                            else if d2 = CHR '','' then parse_members n (skip_ws r3) (dset k v acc)
                            else None)))))"

definition loads :: "string \<Rightarrow> json option" where
  "loads s = (case parse_value (Suc (length s)) (skip_ws s) of None \<Rightarrow> None
     | Some (v, r) \<Rightarrow> if skip_ws r = [] then Some v else None)"

subsection \<open>UTF-8\<close>

definition utf8_char :: "char \<Rightarrow> byte list" where
  "utf8_char c = (if code c < 128 then [of_nat (code c)]
                  else [of_nat (192 + code c div 64), of_nat (128 + code c mod 64)])"

definition utf8_encode :: "string \<Rightarrow> byte list" where
  "utf8_encode s = concat (map utf8_char s)"

fun utf8_decode :: "byte list \<Rightarrow> string option" where
  "utf8_decode [] = Some []"
| "utf8_decode (b # bs) =
     (if unat b < 128 then map_option (\<lambda>s. char_of (unat b) # s) (utf8_decode bs)
      else if unat b = 194 \<or> unat b = 195 then
        (case bs of [] \<Rightarrow> None
         | c # r \<Rightarrow> if 128 \<le> unat c \<and> unat c < 192
                   then map_option (\<lambda>s. char_of ((unat b - 192) * 64 + (unat c - 128)) # s) (utf8_decode r)
                   else None)
      else None)"

lemma char_code_less: "code c < 256"
  by (metis char_of_char of_char_of mod_less_divisor zero_less_numeral)

lemma unat_small: "n < 256 \<Longrightarrow> unat (of_nat n :: byte) = n"
  by (simp add: unsigned_of_nat take_bit_eq_mod)

lemma utf8_decode_char: "utf8_decode (utf8_char c @ bs) = map_option (\<lambda>s. c # s) (utf8_decode bs)"
proof (cases "code c < 128")
  case True
  then have "unat (of_nat (code c) :: byte) = code c" by (intro unat_small) simp
  with True show ?thesis by (simp add: utf8_char_def)
next
  case False
  have lt: "code c < 256" by (rule char_code_less)
  have "128 div 64 \<le> code c div 64" by (rule div_le_mono) (use False in simp)
  moreover have "code c div 64 < 4" using lt by linarith
  ultimately have q: "code c div 64 = 2 \<or> code c div 64 = 3" by linarith
  have m: "code c mod 64 < 64" by simp
  have u: "unat (of_nat (192 + code c div 64) :: byte) = 192 + code c div 64"
    "unat (of_nat (128 + code c mod 64) :: byte) = 128 + code c mod 64"
    by (rule unat_small, use q m in linarith)+
  have "(code c div 64) * 64 + code c mod 64 = code c" by simp
  then show ?thesis
    using False q m u by (auto simp: utf8_char_def simp del: of_nat_add)
qed

lemma utf8_roundtrip [simp]: "utf8_decode (utf8_encode s) = Some s"
  by (induction s) (auto simp: utf8_encode_def utf8_decode_char)

subsection \<open>Numerals\<close>

lemma digit_char_simps [simp]: "n < 10 \<Longrightarrow> is_digit (digit_char n)" "n < 10 \<Longrightarrow> code (digit_char n) = 48 + n"
  by (simp_all add: digit_char_def is_digit_def)

lemma digits_val_snoc: "digits_val (s @ [c]) = 10 * digits_val s + (code c - 48)"
  by (simp add: digits_val_def)

lemma nat_text_digits: "c \<in> set (nat_text n) \<Longrightarrow> is_digit c"
  by (induction n rule: nat_text.induct) (subst (asm) (2) nat_text.simps, auto split: if_splits)

lemma nat_text_not_Nil [simp]: "nat_text n \<noteq> []"
  by (subst nat_text.simps) simp

lemma digits_val_nat_text [simp]: "digits_val (nat_text n) = n"
  by (induction n rule: nat_text.induct)
    (subst nat_text.simps, auto simp: digits_val_snoc, simp add: digits_val_def)

lemma digit_char_zero: "n < 10 \<Longrightarrow> digit_char n = CHR ''0'' \<longleftrightarrow> n = 0"
proof -
  assume "n < 10"
  then have "code (digit_char n) = 48 + n" by simp
  moreover have "code CHR ''0'' = 48" by simp
  ultimately show ?thesis by (metis add_0_right char_of_char digit_char_def add_left_imp_eq)
qed

lemma hd_nat_text: "0 < n \<Longrightarrow> hd (nat_text n) \<noteq> CHR ''0''"
  by (induction n rule: nat_text.induct)
    (subst nat_text.simps, auto simp: digit_char_zero hd_append)

text \<open>What may follow a value inside a message.\<close>

definition stop :: "string \<Rightarrow> bool" where
  "stop r \<longleftrightarrow> r = [] \<or> hd r \<in> {CHR '','', CHR '']'', CHR ''}''}"

lemma stop_simps [simp]: "stop []" "stop (CHR '','' # r)" "stop (CHR '']'' # r)" "stop (CHR ''}'' # r)"
  by (simp_all add: stop_def)

lemma stop_cases: "stop r \<Longrightarrow> (r = [] \<Longrightarrow> P) \<Longrightarrow> (\<And>c r'. r = c # r' \<Longrightarrow> c \<in> {CHR '','', CHR '']'', CHR ''}''} \<Longrightarrow> P) \<Longrightarrow> P"
  by (cases r) (auto simp: stop_def)

lemma takeWhile_digits_stop:
  assumes "stop r" shows "takeWhile is_digit (s @ r) = takeWhile is_digit s" "dropWhile is_digit (s @ r) = dropWhile is_digit s @ r"
  using assms by (induction s) (auto elim!: stop_cases simp: is_digit_def)

lemma scan_int_stop: "stop r \<Longrightarrow> scan_int s = Some (a, b) \<Longrightarrow> scan_int (s @ r) = Some (a, b @ r)"
  by (cases s) (auto simp: scan_int_def takeWhile_digits_stop split: if_splits)

lemma scan_frac_stop: "stop r \<Longrightarrow> scan_frac s = (a, b) \<Longrightarrow> scan_frac (s @ r) = (a, b @ r)"
  by (cases s) (auto simp: scan_frac_def takeWhile_digits_stop elim!: stop_cases split: if_splits)

lemma scan_exp_sign_stop: "stop r \<Longrightarrow> scan_exp_sign s = (a, b) \<Longrightarrow> scan_exp_sign (s @ r) = (a, b @ r)"
  by (cases s) (auto simp: scan_exp_sign_def elim!: stop_cases split: if_splits)

lemma scan_exp_stop: "stop r \<Longrightarrow> scan_exp s = (a, b) \<Longrightarrow> scan_exp (s @ r) = (a, b @ r)"
proof (cases s)
  case (Cons c u)
  assume "stop r" "scan_exp s = (a, b)"
  then show ?thesis
    by (cases "scan_exp_sign u")
      (auto simp: Cons scan_exp_def takeWhile_digits_stop scan_exp_sign_stop split: if_splits)
qed (auto simp: scan_exp_def elim!: stop_cases)

lemma scan_sign_stop: "s \<noteq> [] \<Longrightarrow> scan_sign s = (a, b) \<Longrightarrow> scan_sign (s @ r) = (a, b @ r)"
  by (cases s) (auto simp: scan_sign_def split: if_splits)

lemma scan_number_stop:
  assumes "stop r" "scan_number s = Some (v, [])"
  shows "scan_number (s @ r) = Some (v, r)"
proof -
  obtain sg s1 where a: "scan_sign s = (sg, s1)" by fastforce
  obtain ip s2 where b: "scan_int s1 = Some (ip, s2)"
    using assms(2) a by (auto simp: scan_number_def Let_def split: option.splits)
  obtain fr s3 where c: "scan_frac s2 = (fr, s3)" by fastforce
  obtain ex s4 where d: "scan_exp s3 = (ex, s4)" by fastforce
  have "s \<noteq> []" using assms(2) by (auto simp: scan_number_def scan_sign_def scan_int_def)
  then show ?thesis
    using assms(2) a b c d scan_sign_stop [OF _ a] scan_int_stop [OF assms(1) b]
      scan_frac_stop [OF assms(1) c] scan_exp_stop [OF assms(1) d]
    by (auto simp: scan_number_def Let_def split: if_splits)
qed

lemma nat_text_scan: "scan_int (nat_text n) = Some (nat_text n, [])"
proof (cases "n = 0")
  case True
  then show ?thesis by (simp add: nat_text.simps [of 0] digit_char_zero scan_int_def)
next
  case False
  obtain c r where e: "nat_text n = c # r" by (cases "nat_text n") auto
  have "\<forall>x \<in> set (c # r). is_digit x" using nat_text_digits [of _ n] e by auto
  moreover have "c \<noteq> CHR ''0''" using hd_nat_text [of n] False e by simp
  ultimately show ?thesis
    by (simp add: e scan_int_def takeWhile_eq_all_conv [THEN iffD2] dropWhile_eq_Nil_conv [THEN iffD2])
qed

lemma nat_text_no_sign: "scan_sign (nat_text n) = ([], nat_text n)"
proof -
  obtain c r where e: "nat_text n = c # r" by (cases "nat_text n") auto
  then have "is_digit c" using nat_text_digits [of c n] by simp
  then show ?thesis by (auto simp: e scan_sign_def is_digit_def)
qed

lemma scan_number_int_text: "scan_number (int_text i) = Some (JInt i, [])"
proof (cases "i < 0")
  case True
  have "scan_sign (int_text i) = (''-'', nat_text (nat (- i)))"
    using True by (simp add: int_text_def scan_sign_def)
  with True show ?thesis
    by (simp add: scan_number_def nat_text_scan scan_frac_def scan_exp_def)
next
  case False
  then show ?thesis
    by (simp add: int_text_def scan_number_def nat_text_no_sign nat_text_scan scan_frac_def scan_exp_def)
qed

subsection \<open>Strings\<close>

lemma hex_val_hex_char: "n < 16 \<Longrightarrow> hex_val (hex_char n) = Some n"
  by (auto simp: hex_val_def hex_char_def Let_def)

lemma hex4_escape:
  assumes "n < 256"
  shows "hex4 (CHR ''0'') (CHR ''0'') (hex_char (n div 16)) (hex_char (n mod 16)) = Some n"
proof -
  have "n div 16 < 16" using assms by (simp add: less_mult_imp_div_less)
  moreover have "hex_val CHR ''0'' = Some 0" by (simp add: hex_val_def)
  ultimately show ?thesis by (simp add: hex4_def hex_val_hex_char)
qed

lemma char_of_code_eq: "code c = n \<Longrightarrow> char_of n = c"
  by (metis char_of_char)

lemma scan_escape_char: "scan_str (escape_char c @ r) = push_char c (scan_str r)"
proof -
  consider "c = CHR 0x22 \<or> c = CHR 0x5C"
    | "c \<noteq> CHR 0x22" "c \<noteq> CHR 0x5C" "code c \<in> {10, 13, 9, 12, 8}"
    | "c \<noteq> CHR 0x22" "c \<noteq> CHR 0x5C" "code c \<notin> {10, 13, 9, 12, 8}" "code c < 32 \<or> 126 < code c"
    | "c \<noteq> CHR 0x22" "c \<noteq> CHR 0x5C" "code c \<notin> {10, 13, 9, 12, 8}" "\<not> (code c < 32 \<or> 126 < code c)"
    by blast
  then show ?thesis
  proof cases
    case 1
    then show ?thesis by (auto simp: escape_char_def unescape_def)
  next
    case 2
    then show ?thesis
      by (auto simp: escape_char_def unescape_def char_of_code_eq [of c])
  next
    case 3
    then show ?thesis
      by (simp add: escape_char_def hex4_escape [OF char_code_less] char_code_less)
  next
    case 4
    then show ?thesis by (simp add: escape_char_def)
  qed
qed

lemma scan_str_text [simp]: "scan_str (concat (map escape_char s) @ CHR 0x22 # r) = Some (s, r)"
  by (induction s) (auto simp: scan_escape_char push_char_def)

subsection \<open>Values\<close>

fun json_ok :: "json \<Rightarrow> bool" where
  "json_ok (JFloat t) \<longleftrightarrow> scan_number t = Some (JFloat t, []) \<or> t \<in> {''NaN'', ''Infinity'', ''-Infinity''}"
| "json_ok (JList xs) \<longleftrightarrow> (\<forall>x \<in> set xs. json_ok x)"
| "json_ok (JObj kvs) \<longleftrightarrow> distinct (map fst kvs) \<and> (\<forall>(k, v) \<in> set kvs. json_ok v)"
| "json_ok _ \<longleftrightarrow> True"

definition num_start :: "string \<Rightarrow> bool" where
  "num_start s \<longleftrightarrow> s \<noteq> [] \<and> (is_digit (hd s) \<or> hd s = CHR ''-'')"

lemma scan_number_start: "scan_number s = Some x \<Longrightarrow> num_start s"
  by (cases s)
    (auto simp: scan_number_def scan_sign_def scan_int_def num_start_def is_digit_def split: if_splits)

lemma num_start_append: "num_start s \<Longrightarrow> num_start (s @ r)"
  by (simp add: num_start_def)

lemma num_start_int_text: "num_start (int_text i)"
  using scan_number_int_text scan_number_start by blast

lemma scan_atom_number:
  assumes "scan_number s = Some x" shows "scan_atom s = Some x"
proof -
  have "num_start s" using scan_number_start [OF assms] .
  then obtain c r where "s = c # r" "is_digit c \<or> c = CHR ''-''"
    by (cases s) (auto simp: num_start_def)
  then show ?thesis using assms by (auto simp: scan_atom_def strip_prefix_def is_digit_def)
qed

lemma scan_atom_const:
  "scan_atom (''null'' @ r) = Some (JNull, r)"
  "scan_atom (''true'' @ r) = Some (JBool True, r)"
  "scan_atom (''false'' @ r) = Some (JBool False, r)"
  "scan_atom (''NaN'' @ r) = Some (JFloat ''NaN'', r)"
  "scan_atom (''Infinity'' @ r) = Some (JFloat ''Infinity'', r)"
  "scan_atom (''-Infinity'' @ r) = Some (JFloat ''-Infinity'', r)"
  by (simp_all add: scan_atom_def strip_prefix_def scan_number_def scan_sign_def scan_int_def is_digit_def)

lemma dumps_hd:
  assumes "json_ok v"
  obtains c r where "dumps v = c # r" "\<not> is_ws c" "c \<noteq> CHR '']''" "c \<noteq> CHR ''}''"
proof -
  have num: "\<exists>c r. s = c # r \<and> \<not> is_ws c \<and> c \<noteq> CHR '']'' \<and> c \<noteq> CHR ''}''" if "num_start s" for s
    using that by (cases s) (auto simp: num_start_def is_digit_def is_ws_def)
  have "\<exists>c r. dumps v = c # r \<and> \<not> is_ws c \<and> c \<noteq> CHR '']'' \<and> c \<noteq> CHR ''}''"
  proof (cases v)
    case (JInt i)
    then show ?thesis using num [OF num_start_int_text [of i]] by (simp only: dumps.simps)
  next
    case (JFloat t)
    then consider "num_start t" | "t \<in> {''NaN'', ''Infinity'', ''-Infinity''}"
      using assms scan_number_start by auto
    then show ?thesis
    proof cases
      case 1
      then show ?thesis using num [of t] JFloat by (simp only: dumps.simps)
    next
      case 2
      then show ?thesis unfolding JFloat by (elim insertE emptyE) (simp_all add: is_ws_def)
    qed
  qed (auto simp: is_ws_def str_text_def)
  then show ?thesis using that by blast
qed

lemma skip_ws_dumps [simp]: "json_ok v \<Longrightarrow> skip_ws (dumps v @ r) = dumps v @ r"
  by (rule dumps_hd) (auto simp: skip_ws_def)

lemma skip_ws_punct [simp]:
  "skip_ws (CHR '','' # r) = CHR '','' # r" "skip_ws (CHR '']'' # r) = CHR '']'' # r"
  "skip_ws (CHR ''}'' # r) = CHR ''}'' # r" "skip_ws (CHR '':'' # r) = CHR '':'' # r"
  "skip_ws (CHR 0x22 # r) = CHR 0x22 # r"
  by (simp_all add: skip_ws_def is_ws_def)

lemma parse_value_number:
  assumes "scan_number s = Some x" "0 < n" shows "parse_value n s = Some x"
proof -
  obtain m where "n = Suc m" using assms(2) by (cases n) auto
  moreover obtain c r where "s = c # r" "is_digit c \<or> c = CHR ''-''"
    using scan_number_start [OF assms(1)] by (cases s) (auto simp: num_start_def)
  ultimately show ?thesis using scan_atom_number [OF assms(1)] by (auto simp: is_digit_def)
qed

lemma skip_ws_join:
  assumes "\<forall>x \<in> set xs. json_ok x" "xs \<noteq> []"
  shows "skip_ws (join_comma (map dumps xs) @ r) = join_comma (map dumps xs) @ r"
proof (cases xs)
  case (Cons x ys)
  then have "json_ok x" using assms by simp
  then show ?thesis using Cons by (cases ys) simp_all
qed (use assms in simp)

lemma parse_elems_join:
  assumes "\<And>x n r. x \<in> set xs \<Longrightarrow> stop r \<Longrightarrow> length (dumps x) \<le> n \<Longrightarrow> parse_value n (dumps x @ r) = Some (x, r)"
    and "\<forall>x \<in> set xs. json_ok x" "xs \<noteq> []" "length (join_comma (map dumps xs)) < n"
  shows "parse_elems n (join_comma (map dumps xs) @ CHR '']'' # r) acc = Some (JList (acc @ xs), r)"
  using assms
proof (induction xs arbitrary: n acc)
  case (Cons x xs)
  obtain m where n: "n = Suc m" using Cons.prems(4) by (cases n) auto
  show ?case
  proof (cases xs)
    case Nil
    then show ?thesis using Cons.prems n by simp
  next
    case (Cons y ys)
    then have j: "join_comma (map dumps (x # xs)) = dumps x @ CHR '','' # join_comma (map dumps xs)" by simp
    have "length (dumps x) \<le> m" "length (join_comma (map dumps xs)) < m" using Cons.prems(4) n j by auto
    moreover have "parse_elems m (join_comma (map dumps xs) @ CHR '']'' # r) (acc @ [x])
        = Some (JList ((acc @ [x]) @ xs), r)"
      by (rule Cons.IH) (use Cons.prems Cons calculation in auto)
    moreover have "parse_value m (dumps x @ CHR '','' # join_comma (map dumps xs) @ CHR '']'' # r)
        = Some (x, CHR '','' # join_comma (map dumps xs) @ CHR '']'' # r)"
      using Cons.prems(1) [of x] calculation(1) by simp
    moreover have "skip_ws (join_comma (map dumps xs) @ CHR '']'' # r) = join_comma (map dumps xs) @ CHR '']'' # r"
      by (rule skip_ws_join) (use Cons.prems(2) Cons in auto)
    ultimately show ?thesis
      by (simp only: j n parse_elems.simps append_Cons append_assoc) simp
  qed
qed simp

abbreviation member_text :: "string \<times> json \<Rightarrow> string" where
  "member_text kv \<equiv> (case kv of (k, v) \<Rightarrow> str_text k @ CHR '':'' # dumps v)"

lemma skip_ws_join_members:
  "kvs \<noteq> [] \<Longrightarrow> skip_ws (join_comma (map member_text kvs) @ r) = join_comma (map member_text kvs) @ r"
  by (cases kvs rule: remdups_adj.cases) (auto simp: str_text_def skip_ws_def is_ws_def)

lemma parse_members_join:
  assumes "\<And>k x n r. (k, x) \<in> set kvs \<Longrightarrow> stop r \<Longrightarrow> length (dumps x) \<le> n \<Longrightarrow> parse_value n (dumps x @ r) = Some (x, r)"
    and "\<forall>(k, x) \<in> set kvs. json_ok x" "kvs \<noteq> []" "length (join_comma (map member_text kvs)) < n"
    and "distinct (map fst (acc @ kvs))"
  shows "parse_members n (join_comma (map member_text kvs) @ CHR ''}'' # r) acc = Some (JObj (acc @ kvs), r)"
  using assms
proof (induction kvs arbitrary: n acc)
  case (Cons kv kvs)
  obtain k x where kv: "kv = (k, x)" by fastforce
  obtain m where n: "n = Suc m" using Cons.prems(4) by (cases n) auto
  have new: "dset k x acc = acc @ [(k, x)]"
    using Cons.prems(5) kv by (intro dset_new) auto
  have okx: "json_ok x" using Cons.prems(2) kv by auto
  show ?case
  proof (cases "kvs = []")
    case True
    have "length (dumps x) \<le> m" using Cons.prems(4) n kv True by simp
    then have "parse_value m (dumps x @ CHR ''}'' # r) = Some (x, CHR ''}'' # r)"
      using Cons.prems(1) [of k x] kv by simp
    then show ?thesis using okx by (simp add: n kv True str_text_def new)
  next
    case False
    have j: "join_comma (map member_text (kv # kvs)) = member_text kv @ CHR '','' # join_comma (map member_text kvs)"
      using False by (cases kvs) auto
    have len: "length (dumps x) \<le> m" "length (join_comma (map member_text kvs)) < m"
      using Cons.prems(4) n j kv by (auto simp: str_text_def)
    have "parse_members m (join_comma (map member_text kvs) @ CHR ''}'' # r) (acc @ [(k, x)])
        = Some (JObj ((acc @ [(k, x)]) @ kvs), r)"
      by (rule Cons.IH) (use Cons.prems False len kv in auto)
    moreover have "parse_value m (dumps x @ CHR '','' # join_comma (map member_text kvs) @ CHR ''}'' # r)
        = Some (x, CHR '','' # join_comma (map member_text kvs) @ CHR ''}'' # r)"
      using Cons.prems(1) [of k x] kv len(1) by simp
    moreover have "skip_ws (join_comma (map member_text kvs) @ CHR ''}'' # r) = join_comma (map member_text kvs) @ CHR ''}'' # r"
      by (rule skip_ws_join_members [OF False])
    moreover have "join_comma (map member_text (kv # kvs)) @ CHR ''}'' # r = CHR 0x22 # concat (map escape_char k)
        @ CHR 0x22 # CHR '':'' # dumps x @ CHR '','' # join_comma (map member_text kvs) @ CHR ''}'' # r"
      unfolding j by (simp add: kv str_text_def)
    moreover obtain J where J: "join_comma (map member_text kvs) @ CHR ''}'' # r = J" by blast
    ultimately show ?thesis
      unfolding J n using okx by (simp add: new kv)
  qed
qed simp

lemma parse_value_dumps:
  "json_ok v \<Longrightarrow> stop r \<Longrightarrow> length (dumps v) \<le> n \<Longrightarrow> parse_value n (dumps v @ r) = Some (v, r)"
proof (induction v arbitrary: n r)
  case JNull
  then obtain m where n: "n = Suc m" by (cases n) auto
  show ?case using scan_atom_const(1) [of r] by (simp add: n)
next
  case (JBool b)
  then obtain m where n: "n = Suc m" by (cases n) (auto split: if_splits)
  show ?case using scan_atom_const(2, 3) [of r] by (cases b) (simp_all add: n)
next
  case (JInt i)
  have "0 < n" using JInt.prems num_start_int_text [of i] by (cases n) (auto simp: num_start_def)
  then show ?case using scan_number_stop [OF JInt.prems(2) scan_number_int_text] by (simp add: parse_value_number)
next
  case (JFloat t)
  then consider "scan_number t = Some (JFloat t, [])" | "t \<in> {''NaN'', ''Infinity'', ''-Infinity''}" by auto
  then show ?case
  proof cases
    case 1
    have "0 < n" using JFloat.prems scan_number_start [OF 1] by (cases n) (auto simp: num_start_def)
    then show ?thesis using scan_number_stop [OF JFloat.prems(2) 1] by (simp add: parse_value_number)
  next
    case 2
    then obtain m where n: "n = Suc m" using JFloat.prems by (cases n) auto
    show ?thesis using 2 scan_atom_const(4-6) [of r] by (auto simp: n)
  qed
next
  case (JStr s)
  then obtain m where "n = Suc m" by (cases n) (auto simp: str_text_def)
  then show ?case by (simp add: str_text_def)
next
  case (JList xs)
  then obtain m where n: "n = Suc m" by (cases n) auto
  show ?case
  proof (cases "xs = []")
    case False
    let ?J = "join_comma (map dumps xs)"
    have ok: "\<forall>x \<in> set xs. json_ok x" using JList.prems by simp
    have "parse_elems m (?J @ CHR '']'' # r) [] = Some (JList ([] @ xs), r)"
      by (rule parse_elems_join) (use JList False ok n in auto)
    moreover obtain c u where "?J = c # u" "\<not> is_ws c" "c \<noteq> CHR '']''"
    proof -
      obtain x ys where xs: "xs = x # ys" using False by (cases xs) auto
      obtain c u where "dumps x = c # u" "\<not> is_ws c" "c \<noteq> CHR '']''"
        using ok xs by (meson dumps_hd list.set_intros(1))
      then show ?thesis using that xs by (cases ys) auto
    qed
    ultimately show ?thesis by (simp add: n skip_ws_def)
  qed (simp add: n)
next
  case (JObj kvs)
  then obtain m where n: "n = Suc m" by (cases n) auto
  show ?case
  proof (cases "kvs = []")
    case False
    let ?J = "join_comma (map member_text kvs)"
    have "parse_members m (?J @ CHR ''}'' # r) [] = Some (JObj ([] @ kvs), r)"
    proof (rule parse_members_join)
      fix k x n' r'
      assume "(k, x) \<in> set kvs" "stop r'" "length (dumps x) \<le> n'"
      then show "parse_value n' (dumps x @ r') = Some (x, r')"
        using JObj.IH [of "(k, x)" x r' n'] JObj.prems(1) by (auto simp: snds.simps)
    qed (use JObj.prems False n in auto)
    moreover obtain u where "?J = CHR 0x22 # u"
      using False by (cases kvs rule: remdups_adj.cases) (auto simp: str_text_def)
    ultimately show ?thesis by (simp add: n skip_ws_def is_ws_def)
  qed (simp add: n)
qed

lemma loads_dumps:
  assumes "json_ok v" shows "loads (dumps v) = Some v"
proof -
  have "parse_value (Suc (length (dumps v))) (dumps v @ []) = Some (v, [])"
    by (rule parse_value_dumps) (use assms in auto)
  moreover have "skip_ws (dumps v) = dumps v" using skip_ws_dumps [OF assms, of "[]"] by simp
  ultimately show ?thesis by (simp add: loads_def skip_ws_def)
qed

end
