(* ===== verification/Protocol.thy ===== *)
theory Protocol
  imports Json "HOL-Library.Sublist"
begin

text \<open>
  \<open>ring1/protocol.py\<close>: the wire formats. A packet of the hot channel is a struct of
  fixed layout (floats are their IEEE bit patterns: packing and unpacking move them unchanged);
  control and cold headers are JSON objects; a large payload is cut into chunks and reassembled
  in any order; sequence numbers detect lost messages.
\<close>

type_synonym header = "(string, json) dict"

subsection \<open>The hot channel\<close>

definition PROTOCOL_VERSION :: int where
  "PROTOCOL_VERSION = 2"

definition HOT_MAGIC :: "byte list" where
  "HOT_MAGIC = map of_char ''QCB2''"

definition HOT_size :: nat where
  "HOT_size = 4 + 1 + 4 + 3 * 4 + 16 * 4 + 3 * 4"

definition HOT_PROBE_size :: nat where
  "HOT_PROBE_size = 8 + 4"

definition FLAG_PERSP :: int where "FLAG_PERSP = push_bit 0 1"
definition FLAG_HOLD :: int where "FLAG_HOLD = push_bit 1 1"
definition FLAG_CAMERA :: int where "FLAG_CAMERA = push_bit 2 1"

record hot_state =
  hs_frame :: int
  hs_view_matrix :: "f32 list"
  hs_lens :: f32
  hs_clip_start :: f32
  hs_clip_end :: f32
  hs_is_persp :: bool
  hs_hold :: bool
  hs_camera :: bool
  hs_cam_zoom :: f32
  hs_cam_offset :: "f32 \<times> f32"
  hs_t_host :: f64
  hs_probe_seq :: int

text \<open>The truth value of a float: false for +0.0 and -0.0 only.\<close>

definition f64_true :: "f64 \<Rightarrow> bool" where
  "f64_true w \<longleftrightarrow> take_bit 63 w \<noteq> 0"

definition hot_flags :: "hot_state \<Rightarrow> int" where
  "hot_flags h = ((if hs_is_persp h then FLAG_PERSP else 0) OR (if hs_hold h then FLAG_HOLD else 0))
     OR (if hs_camera h then FLAG_CAMERA else 0)"

definition hot_pack_core :: "hot_state \<Rightarrow> py_error + byte list" where
  "hot_pack_core h =
     (case pack_uint 1 (hot_flags h) of Inl e \<Rightarrow> Inl e | Inr fl \<Rightarrow>
      case pack_sint32 (hs_frame h) of Inl e \<Rightarrow> Inl e | Inr fr \<Rightarrow>
      if length (hs_view_matrix h) \<noteq> 16 then Inl StructError
      else Inr (HOT_MAGIC @ fl @ fr @ pack_f32 (hs_lens h) @ pack_f32 (hs_clip_start h)
                @ pack_f32 (hs_clip_end h) @ concat (map pack_f32 (hs_view_matrix h))
                @ pack_f32 (hs_cam_zoom h) @ pack_f32 (fst (hs_cam_offset h))
                @ pack_f32 (snd (hs_cam_offset h))))"

definition hot_pack :: "hot_state \<Rightarrow> py_error + byte list" where
  "hot_pack h =
     (case hot_pack_core h of Inl e \<Rightarrow> Inl e | Inr core \<Rightarrow>
      if f64_true (hs_t_host h)
      then (case pack_uint 4 (hs_probe_seq h) of Inl e \<Rightarrow> Inl e
            | Inr ps \<Rightarrow> Inr (core @ pack_f64 (hs_t_host h) @ ps))
      else Inr core)"

definition hot_core :: "byte list \<Rightarrow> byte list" where
  "hot_core data = take HOT_size data"

fun unpack_floats :: "nat \<Rightarrow> byte list \<Rightarrow> f32 list" where
  "unpack_floats 0 bs = []"
| "unpack_floats (Suc n) bs = unpack_f32 (take 4 bs) # unpack_floats n (drop 4 bs)"

definition unpack_hot :: "byte list \<Rightarrow> hot_state option" where
  "unpack_hot data =
     (if length data \<noteq> HOT_size + HOT_PROBE_size \<and> length data \<noteq> HOT_size then None
      else let (t_host, probe_seq) =
                 (if length data = HOT_size + HOT_PROBE_size
                  then (unpack_f64 (slice HOT_size (HOT_size + 8) data),
                        unpack_uint (slice (HOT_size + 8) (HOT_size + 12) data))
                  else (0, 0));
               flags = unpack_uint (slice 4 5 data);
               floats = unpack_floats 22 (slice 9 HOT_size data);
               matrix = take 16 (drop 3 floats);
               cam = drop 19 floats
           in if take 4 data \<noteq> HOT_MAGIC then None
              else Some \<lparr>hs_frame = unpack_sint32 (slice 5 9 data), hs_view_matrix = matrix,
                     hs_lens = floats ! 0, hs_clip_start = floats ! 1, hs_clip_end = floats ! 2,
                     hs_is_persp = (flags AND FLAG_PERSP \<noteq> 0), hs_hold = (flags AND FLAG_HOLD \<noteq> 0),
                     hs_camera = (flags AND FLAG_CAMERA \<noteq> 0), hs_cam_zoom = cam ! 0,
                     hs_cam_offset = (cam ! 1, cam ! 2), hs_t_host = t_host, hs_probe_seq = probe_seq\<rparr>)"

subsection \<open>The control channel\<close>

definition encode_control :: "header \<Rightarrow> byte list" where
  "encode_control msg = utf8_encode (dumps (JObj msg))"

definition json_object :: "json \<Rightarrow> header option" where
  "json_object v = (case v of JObj h \<Rightarrow> Some h | _ \<Rightarrow> None)"

definition decode_control :: "byte list \<Rightarrow> header option" where
  "decode_control data = (case utf8_decode data of None \<Rightarrow> None
     | Some s \<Rightarrow> (case loads s of None \<Rightarrow> None | Some v \<Rightarrow> json_object v))"

text \<open>\<open>sha\<close> is \<open>hashlib.sha256(...).hexdigest()\<close> on the bytes of a string.\<close>

definition srt_passphrase :: "(byte list \<Rightarrow> string) \<Rightarrow> string \<Rightarrow> string" where
  "srt_passphrase sha token = (if token = [] then [] else take 32 (sha (utf8_encode (''qcb-srt:'' @ token))))"

definition hello_secret :: "(byte list \<Rightarrow> string) \<Rightarrow> string \<Rightarrow> string" where
  "hello_secret sha token = (if token = [] then [] else sha (utf8_encode (''qcb-hello:'' @ token)))"

definition token_fingerprint :: "(byte list \<Rightarrow> string) \<Rightarrow> string \<Rightarrow> string" where
  "token_fingerprint sha token = (if token = [] then [] else take 8 (sha (utf8_encode (''qcb-token:'' @ token))))"

definition HOST_CAPS :: "string list" where
  "HOST_CAPS = [''fast_ack'', ''delta_resync'', ''cm'']"

definition REPLICA_CAPS :: "string list" where
  "REPLICA_CAPS = [''fast_ack'', ''batch_apply'', ''delta_resync'', ''cm'']"

definition make_hello :: "string \<Rightarrow> string \<Rightarrow> string \<Rightarrow> string \<Rightarrow> int \<Rightarrow> int \<Rightarrow> json list \<Rightarrow> header
    \<Rightarrow> header \<Rightarrow> header \<Rightarrow> header" where
  "make_hello token epoch blender_version addon_version seq seq_fast mappings shared_root cm viewer =
     [(''kind'', JStr ''hello''),
      (''caps'', JList (map JStr HOST_CAPS)),
      (''token'', JStr token),
      (''viewer'', JObj viewer),
      (''cm'', JObj cm),
      (''mappings'', JList mappings),
      (''shared_root'', JObj shared_root),
      (''epoch'', JStr epoch),
      (''seq'', JInt seq),
      (''seq_fast'', JInt seq_fast),
      (''protocol'', JInt PROTOCOL_VERSION),
      (''blender'', JStr blender_version),
      (''addon'', JStr addon_version)]"

text \<open>
  Python's equality of a JSON number with an int (a bool is an int; a float is compared by the
  value of its numeral), \<open>str()\<close> of a JSON value (\<open>py_repr\<close> renders everything that is not
  a string) and \<open>hmac.compare_digest\<close>, which refuses non-ASCII strings with a TypeError.
\<close>

definition numeral_eq_int :: "string \<Rightarrow> int \<Rightarrow> bool" where
  "numeral_eq_int t n =
     (let (sg, s1) = scan_sign t
      in case scan_int s1 of None \<Rightarrow> False
         | Some (ip, s2) \<Rightarrow>
             let (fr, s3) = scan_frac s2; (ex, s4) = scan_exp s3;
                 (es, ed) = scan_sign (dropWhile (\<lambda>c. c = CHR ''+'') (drop 1 ex));
                 e = (if es = [] then int (digits_val ed) else - int (digits_val ed)) - int (length (drop 1 fr));
                 m = (if sg = [] then 1 else -1) * int (digits_val (ip @ drop 1 fr))
             in m * 10 ^ nat e = n * 10 ^ nat (- e))"

definition json_eq_int :: "json \<Rightarrow> int \<Rightarrow> bool" where
  "json_eq_int v n = (case v of JInt i \<Rightarrow> i = n | JBool b \<Rightarrow> of_bool b = n
     | JFloat t \<Rightarrow> numeral_eq_int t n | _ \<Rightarrow> False)"

definition py_str :: "(json \<Rightarrow> string) \<Rightarrow> json \<Rightarrow> string" where
  "py_str py_repr v = (case v of JStr s \<Rightarrow> s | _ \<Rightarrow> py_repr v)"

definition compare_digest :: "string \<Rightarrow> string \<Rightarrow> py_error + bool" where
  "compare_digest a b =
     (if (\<exists>c \<in> set a \<union> set b. 128 \<le> code c) then Inl TypeError else Inr (a = b))"

definition check_hello :: "(json \<Rightarrow> string) \<Rightarrow> header \<Rightarrow> string \<Rightarrow> py_error + (bool \<times> string)" where
  "check_hello py_repr msg expected_token =
     (if dget msg ''kind'' \<noteq> Some (JStr ''hello'') then Inr (False, ''not a hello'')
      else case compare_digest (py_str py_repr (case dget msg ''token'' of None \<Rightarrow> JStr [] | Some v \<Rightarrow> v))
                  expected_token of
        Inl e \<Rightarrow> Inl e
      | Inr same \<Rightarrow>
          if \<not> same then Inr (False, ''token mismatch'')
          else let proto = (case dget msg ''protocol'' of None \<Rightarrow> JNull | Some v \<Rightarrow> v)
               in if \<not> json_eq_int proto PROTOCOL_VERSION
                  then Inr (False, ''protocol '' @ py_str py_repr proto @ '' != '' @ int_text PROTOCOL_VERSION)
                  else Inr (True, ''''))"

subsection \<open>The cold channel\<close>

definition encode_cold :: "header \<Rightarrow> byte list \<Rightarrow> byte list list" where
  "encode_cold h payload = [utf8_encode (dumps (JObj h)), payload]"

definition decode_cold :: "byte list list \<Rightarrow> (header \<times> byte list) option" where
  "decode_cold frames =
     (case frames of
        [f, payload] \<Rightarrow> (case decode_control f of None \<Rightarrow> None | Some h \<Rightarrow> Some (h, payload))
      | _ \<Rightarrow> None)"

definition DEFAULT_CHUNK_SIZE :: nat where
  "DEFAULT_CHUNK_SIZE = 4 * 1024 * 1024"

definition chunk_header :: "string \<Rightarrow> json \<Rightarrow> nat \<Rightarrow> nat \<Rightarrow> nat \<Rightarrow> nat \<Rightarrow> header \<Rightarrow> header" where
  "chunk_header kind blob_id i tot sz chunk_size meta =
     fold (\<lambda>(k, v). dset k v) meta
       [(''kind'', JStr kind),
        (''blob'', JObj [(''id'', blob_id), (''i'', JInt (int i)), (''n'', JInt (int tot)),
                         (''size'', JInt (int sz)), (''o'', JInt (int (i * chunk_size)))])]"

definition chunk_total :: "nat \<Rightarrow> nat \<Rightarrow> nat" where
  "chunk_total sz chunk_size = max 1 (nat (- ((- int sz) div int chunk_size)))"

definition chunk_blob :: "string \<Rightarrow> json \<Rightarrow> byte list \<Rightarrow> header \<Rightarrow> nat \<Rightarrow> (header \<times> byte list) list" where
  "chunk_blob kind blob_id data meta chunk_size =
     (let tot = chunk_total (length data) chunk_size
      in map (\<lambda>i. (chunk_header kind blob_id i tot (length data) chunk_size meta,
                   slice (i * chunk_size) ((i + 1) * chunk_size) data)) [0..<tot])"

subsection \<open>Reassembly\<close>

record partial_blob =
  pb_total :: int
  pb_size :: int
  pb_header :: header
  pb_buf :: "byte list"
  pb_got :: "int set"

text \<open>The blobs under assembly, by id. An id is any hashable JSON value.\<close>

type_synonym reassembler = "(json, partial_blob) dict"

definition rs_init :: reassembler where
  "rs_init = []"

definition json_true :: "json \<Rightarrow> bool" where
  "json_true v = (case v of JNull \<Rightarrow> False | JBool b \<Rightarrow> b | JInt i \<Rightarrow> i \<noteq> 0 | JFloat t \<Rightarrow> \<not> numeral_eq_int t 0
     | JStr s \<Rightarrow> s \<noteq> [] | JList xs \<Rightarrow> xs \<noteq> [] | JObj kvs \<Rightarrow> kvs \<noteq> [])"

definition hashable :: "json \<Rightarrow> bool" where
  "hashable v = (case v of JList _ \<Rightarrow> False | JObj _ \<Rightarrow> False | _ \<Rightarrow> True)"

definition item :: "header \<Rightarrow> string \<Rightarrow> py_error + json" where
  "item h k = (case dget h k of None \<Rightarrow> Inl KeyError | Some v \<Rightarrow> Inr v)"

definition as_int :: "json \<Rightarrow> py_error + int" where
  "as_int v = (case v of JInt i \<Rightarrow> Inr i | JBool b \<Rightarrow> Inr (of_bool b) | _ \<Rightarrow> Inl TypeError)"

definition int_item :: "header \<Rightarrow> string \<Rightarrow> py_error + int" where
  "int_item h k = (case item h k of Inl e \<Rightarrow> Inl e | Inr v \<Rightarrow> as_int v)"

text \<open>\<open>buf[lo:hi] = payload\<close>: negative bounds count from the end, both are clamped.\<close>

definition clamp_index :: "nat \<Rightarrow> int \<Rightarrow> nat" where
  "clamp_index n x = (if x < 0 then nat (max 0 (int n + x)) else nat (min (int n) x))"

definition slice_assign :: "'a list \<Rightarrow> int \<Rightarrow> int \<Rightarrow> 'a list \<Rightarrow> 'a list" where
  "slice_assign buf lo hi xs =
     (let l = clamp_index (length buf) lo; h = max l (clamp_index (length buf) hi)
      in take l buf @ xs @ drop h buf)"

definition new_partial :: "header \<Rightarrow> header \<Rightarrow> int \<Rightarrow> py_error + partial_blob" where
  "new_partial blob h n =
     (case int_item blob ''size'' of Inl e \<Rightarrow> Inl e
      | Inr sz \<Rightarrow> if sz < 0 then Inl ValueError
                   else Inr \<lparr>pb_total = n, pb_size = sz, pb_header = h,
                             pb_buf = replicate (nat sz) 0, pb_got = {}\<rparr>)"

definition rs_place :: "json \<Rightarrow> partial_blob \<Rightarrow> int \<Rightarrow> int \<Rightarrow> byte list \<Rightarrow> reassembler
    \<Rightarrow> (header \<times> byte list) option \<times> reassembler" where
  "rs_place bid part i offset payload s =
     (let past = offset + int (length payload)
      in if past > pb_size part then (None, dpop bid s)
         else let part' = part\<lparr>pb_buf := slice_assign (pb_buf part) offset past payload,
                               pb_got := insert i (pb_got part)\<rparr>
              in if int (card (pb_got part')) < pb_total part' then (None, dset bid part' s)
                 else (Some (pb_header part', pb_buf part'), dpop bid s))"

definition rs_feed :: "header \<Rightarrow> byte list \<Rightarrow> reassembler
    \<Rightarrow> (py_error + (header \<times> byte list) option) \<times> reassembler" where
  "rs_feed h payload s =
     (case dget h ''blob'' of None \<Rightarrow> (Inr (Some (h, payload)), s)
      | Some b \<Rightarrow>
        if \<not> json_true b then (Inr (Some (h, payload)), s)
        else (case json_object b of None \<Rightarrow> (Inl TypeError, s)
      | Some blob \<Rightarrow>
        (case (item blob ''id'', int_item blob ''i'', int_item blob ''n'') of
           (Inr bid, Inr i, Inr n) \<Rightarrow>
             if \<not> hashable bid then (Inl TypeError, s)
             else (case (case dget s bid of Some part \<Rightarrow> Inr part | None \<Rightarrow> new_partial blob h n) of
                Inl e \<Rightarrow> (Inl e, s)
              | Inr part \<Rightarrow>
                  (case (case dget blob ''o'' of None \<Rightarrow> Inr (i * int (length payload)) | Some v \<Rightarrow> as_int v) of
                     Inl e \<Rightarrow> (Inl e, dset bid part s)
                   | Inr offset \<Rightarrow> let (out, s') = rs_place bid part i offset payload s in (Inr out, s')))
         | (Inl e, _, _) \<Rightarrow> (Inl e, s)
         | (_, Inl e, _) \<Rightarrow> (Inl e, s)
         | (_, _, Inl e) \<Rightarrow> (Inl e, s))))"

definition rs_drop :: "json \<Rightarrow> reassembler \<Rightarrow> reassembler" where
  "rs_drop bid s = dpop bid s"

definition rs_pending :: "reassembler \<Rightarrow> nat" where
  "rs_pending s = length s"

fun rs_feed_all :: "(header \<times> byte list) list \<Rightarrow> reassembler
    \<Rightarrow> (py_error + (header \<times> byte list) option) list \<times> reassembler" where
  "rs_feed_all [] s = ([], s)"
| "rs_feed_all ((h, p) # ms) s =
     (let (r, s1) = rs_feed h p s; (rs, s2) = rs_feed_all ms s1 in (r # rs, s2))"

subsection \<open>Sequence numbers\<close>

record seq_tracker =
  sq_last_seen :: "int option"
  sq_gaps :: nat
  sq_first_missing :: "int option"

definition sq_init :: seq_tracker where
  "sq_init = \<lparr>sq_last_seen = None, sq_gaps = 0, sq_first_missing = None\<rparr>"

definition sq_observe :: "int \<Rightarrow> seq_tracker \<Rightarrow> bool \<times> seq_tracker" where
  "sq_observe seq t =
     (let contiguous = (case sq_last_seen t of None \<Rightarrow> True | Some l \<Rightarrow> seq = l + 1);
          t1 = (if contiguous then t
                else t\<lparr>sq_gaps := sq_gaps t + 1,
                       sq_first_missing :=
                         (case (sq_first_missing t, sq_last_seen t) of
                            (None, Some l) \<Rightarrow> if seq > l + 1 then Some (l + 1) else None
                          | (m, _) \<Rightarrow> m)\<rparr>);
          t2 = (case sq_last_seen t of
                  None \<Rightarrow> t1\<lparr>sq_last_seen := Some seq\<rparr>
                | Some l \<Rightarrow> if seq > l then t1\<lparr>sq_last_seen := Some seq\<rparr> else t1)
      in (contiguous, t2))"

definition sq_clear_gap :: "seq_tracker \<Rightarrow> seq_tracker" where
  "sq_clear_gap t = t\<lparr>sq_first_missing := None\<rparr>"

subsection \<open>Hot packets round trip\<close>

lemma unpack_floats_concat:
  "length fs = n \<Longrightarrow> unpack_floats n (concat (map pack_f32 fs) @ r) = fs"
  by (induction fs arbitrary: n) auto

lemma length_concat_floats [simp]: "length (concat (map pack_f32 fs)) = 4 * length fs"
  by (induction fs) auto

lemma hot_flags_bits:
  "hot_flags h AND FLAG_PERSP \<noteq> 0 \<longleftrightarrow> hs_is_persp h"
  "hot_flags h AND FLAG_HOLD \<noteq> 0 \<longleftrightarrow> hs_hold h"
  "hot_flags h AND FLAG_CAMERA \<noteq> 0 \<longleftrightarrow> hs_camera h"
  "0 \<le> hot_flags h" "hot_flags h < 256"
  by (cases "hs_is_persp h"; cases "hs_hold h"; cases "hs_camera h";
      simp add: hot_flags_def FLAG_PERSP_def FLAG_HOLD_def FLAG_CAMERA_def)+

lemma length_HOT_MAGIC [simp]: "length HOT_MAGIC = 4"
  by (simp add: HOT_MAGIC_def)

definition hot_floats :: "hot_state \<Rightarrow> f32 list" where
  "hot_floats h = [hs_lens h, hs_clip_start h, hs_clip_end h] @ hs_view_matrix h
     @ [hs_cam_zoom h, fst (hs_cam_offset h), snd (hs_cam_offset h)]"

lemma hot_pack_core_layout:
  assumes "hot_pack_core h = Inr core"
  obtains fl fr where "core = HOT_MAGIC @ fl @ fr @ concat (map pack_f32 (hot_floats h))"
    "length fl = 1" "length fr = 4" "unpack_uint fl = hot_flags h" "unpack_sint32 fr = hs_frame h"
    "length (hs_view_matrix h) = 16"
proof -
  obtain fl fr where p: "pack_uint 1 (hot_flags h) = Inr fl" "pack_sint32 (hs_frame h) = Inr fr"
    "length (hs_view_matrix h) = 16"
    and c: "core = HOT_MAGIC @ fl @ fr @ concat (map pack_f32 (hot_floats h))"
    using assms by (auto simp: hot_pack_core_def hot_floats_def split: sum.splits if_splits)
  show ?thesis
    using that [OF c] unpack_pack_uint [OF p(1)] unpack_pack_sint32 [OF p(2)] p(3) by simp
qed

lemma unpack_hot_layout:
  assumes l: "length fl = 1" "length fr = 4" "length (hs_view_matrix h) = 16"
    and u: "unpack_uint fl = hot_flags h" "unpack_sint32 fr = hs_frame h"
    and core: "core = HOT_MAGIC @ fl @ fr @ concat (map pack_f32 (hot_floats h))"
  shows "length core = HOT_size"
    and "unpack_hot core = Some (h\<lparr>hs_t_host := 0, hs_probe_seq := 0\<rparr>)"
    and "length tb = 8 \<Longrightarrow> length sb = 4 \<Longrightarrow>
      unpack_hot (core @ tb @ sb) = Some (h\<lparr>hs_t_host := unpack_f64 tb, hs_probe_seq := unpack_uint sb\<rparr>)"
proof -
  have n: "length (hot_floats h) = 22" using l by (simp add: hot_floats_def)
  show len: "length core = HOT_size" using n l by (simp add: core HOT_size_def)
  have at: "slice 4 5 (core @ r) = fl" "slice 5 9 (core @ r) = fr" "take 4 (core @ r) = HOT_MAGIC"
    "unpack_floats 22 (slice 9 HOT_size (core @ r)) = hot_floats h" for r
    using l n unpack_floats_concat [OF n, of "[]"]
    by (simp_all add: core slice_append_right slice_append_left slice_full HOT_size_def)
  have f: "hot_floats h ! 0 = hs_lens h" "hot_floats h ! 1 = hs_clip_start h" "hot_floats h ! 2 = hs_clip_end h"
    "take 16 (drop 3 (hot_floats h)) = hs_view_matrix h"
    "drop 19 (hot_floats h) = [hs_cam_zoom h, fst (hs_cam_offset h), snd (hs_cam_offset h)]"
    using l by (simp_all add: hot_floats_def eval_nat_numeral)
  show "unpack_hot core = Some (h\<lparr>hs_t_host := 0, hs_probe_seq := 0\<rparr>)"
    using len at [of "[]"] f u by (simp add: unpack_hot_def HOT_PROBE_size_def hot_flags_bits Let_def)
  assume t: "length tb = 8" "length sb = 4"
  have "slice HOT_size (HOT_size + 8) (core @ tb @ sb) = tb"
    "slice (HOT_size + 8) (HOT_size + 12) (core @ tb @ sb) = sb"
    using t len by (simp_all add: slice_append_right slice_append_left slice_full)
  then show "unpack_hot (core @ tb @ sb) = Some (h\<lparr>hs_t_host := unpack_f64 tb, hs_probe_seq := unpack_uint sb\<rparr>)"
    using len t at [of "tb @ sb"] f u by (simp add: unpack_hot_def HOT_PROBE_size_def hot_flags_bits Let_def)
qed

text \<open>A hot packet that packs unpacks to the same camera, flags and frame; the probe stamp
  comes back exactly when the host clock is non-zero, and what dedup compares is the packet
  without it.\<close>

theorem hot_pack_roundtrip:
  assumes "hot_pack h = Inr bs"
  shows "unpack_hot bs = Some (if f64_true (hs_t_host h) then h else h\<lparr>hs_t_host := 0, hs_probe_seq := 0\<rparr>)
    \<and> hot_pack_core h = Inr (hot_core bs)"
proof -
  obtain core where c: "hot_pack_core h = Inr core"
    using assms by (auto simp: hot_pack_def split: sum.splits)
  obtain fl fr where k: "core = HOT_MAGIC @ fl @ fr @ concat (map pack_f32 (hot_floats h))"
    "length fl = 1" "length fr = 4" "unpack_uint fl = hot_flags h" "unpack_sint32 fr = hs_frame h"
    "length (hs_view_matrix h) = 16"
    using c by (rule hot_pack_core_layout)
  note u = unpack_hot_layout [OF k(2,3,6,4,5,1)]
  show ?thesis
  proof (cases "f64_true (hs_t_host h)")
    case True
    obtain ps where ps: "pack_uint 4 (hs_probe_seq h) = Inr ps" "bs = core @ pack_f64 (hs_t_host h) @ ps"
      using assms c True by (auto simp: hot_pack_def split: sum.splits)
    then show ?thesis
      using True c u(1) u(3) [of "pack_f64 (hs_t_host h)" ps] unpack_pack_uint [OF ps(1)]
      by (simp add: hot_core_def)
  next
    case False
    then have "bs = core" using assms c by (simp add: hot_pack_def)
    then show ?thesis using False c u(1,2) by (simp add: hot_core_def)
  qed
qed

definition sample_hot :: hot_state where
  "sample_hot = \<lparr>hs_frame = -12, hs_view_matrix = replicate 16 0x3F800000, hs_lens = 0x42480000,
     hs_clip_start = 0, hs_clip_end = 1, hs_is_persp = False, hs_hold = False, hs_camera = True,
     hs_cam_zoom = 5, hs_cam_offset = (6, 7), hs_t_host = 0x3FF0000000000000, hs_probe_seq = 9\<rparr>"

theorem hot_pack_roundtrip_witness:
  "\<exists>bs. hot_pack sample_hot = Inr bs \<and> unpack_hot bs = Some sample_hot"
proof -
  have "\<exists>bs. hot_pack sample_hot = Inr bs"
    by (simp add: hot_pack_def hot_pack_core_def sample_hot_def pack_uint_def pack_sint32_def hot_flags_def
      FLAG_PERSP_def FLAG_HOLD_def FLAG_CAMERA_def)
  then obtain bs where bs: "hot_pack sample_hot = Inr bs" ..
  moreover have "f64_true (hs_t_host sample_hot)"
    by (simp add: f64_true_def sample_hot_def take_bit_eq_mod)
  ultimately show ?thesis using hot_pack_roundtrip [OF bs] by auto
qed

subsection \<open>Headers round trip and the hello check\<close>

lemma decode_encode_control: "json_ok (JObj h) \<Longrightarrow> decode_control (encode_control h) = Some h"
  by (simp add: decode_control_def encode_control_def loads_dumps json_object_def del: dumps.simps)

text \<open>Every header the sender can print decodes on the other side to itself, on the control
  channel and, with its payload untouched, on the cold channel.\<close>

theorem headers_roundtrip:
  assumes "json_ok (JObj h)"
  shows "decode_control (encode_control h) = Some h
    \<and> decode_cold (encode_cold h payload) = Some (h, payload)"
  using decode_encode_control [OF assms] by (simp add: decode_cold_def encode_cold_def encode_control_def)

theorem headers_roundtrip_witness:
  "decode_cold (encode_cold [(''kind'', JStr ''t1''), (''n'', JInt (-3))] [1, 2])
     = Some ([(''kind'', JStr ''t1''), (''n'', JInt (-3))], [1, 2])"
proof -
  have "json_ok (JObj [(''kind'', JStr ''t1''), (''n'', JInt (-3))])" by simp
  then show ?thesis using headers_roundtrip by blast
qed

definition ascii :: "string \<Rightarrow> bool" where
  "ascii s \<longleftrightarrow> list_all (\<lambda>c. code c < 128) s"

lemma compare_digest_ascii:
  "compare_digest a b = (if ascii a \<and> ascii b then Inr (a = b) else Inl TypeError)"
  by (auto simp: compare_digest_def ascii_def list_all_iff leD not_less)

definition hello_token :: "(json \<Rightarrow> string) \<Rightarrow> header \<Rightarrow> string" where
  "hello_token py_repr msg = py_str py_repr (case dget msg ''token'' of None \<Rightarrow> JStr [] | Some v \<Rightarrow> v)"

text \<open>A hello is accepted exactly when it is a hello, carries the expected secret (an ASCII
  string) and the protocol version; the hello a host builds is accepted exactly by a replica
  with the same ASCII secret, and a secret with a character outside ASCII makes the check raise.\<close>

theorem check_hello_exact:
  "((\<exists>why. check_hello py_repr msg secret = Inr (True, why)) \<longleftrightarrow>
      dget msg ''kind'' = Some (JStr ''hello'') \<and> hello_token py_repr msg = secret \<and> ascii secret
      \<and> (case dget msg ''protocol'' of None \<Rightarrow> False | Some v \<Rightarrow> json_eq_int v PROTOCOL_VERSION))
   \<and> check_hello py_repr (make_hello tok epoch bv av seq seqf maps sroot cm viewer) secret
       = (if \<not> (ascii tok \<and> ascii secret) then Inl TypeError
          else if tok = secret then Inr (True, '''') else Inr (False, ''token mismatch''))"
proof
  show "(\<exists>why. check_hello py_repr msg secret = Inr (True, why)) \<longleftrightarrow>
      dget msg ''kind'' = Some (JStr ''hello'') \<and> hello_token py_repr msg = secret \<and> ascii secret
      \<and> (case dget msg ''protocol'' of None \<Rightarrow> False | Some v \<Rightarrow> json_eq_int v PROTOCOL_VERSION)"
    by (cases "dget msg ''protocol''")
      (auto simp: check_hello_def hello_token_def compare_digest_ascii Let_def json_eq_int_def PROTOCOL_VERSION_def)
  show "check_hello py_repr (make_hello tok epoch bv av seq seqf maps sroot cm viewer) secret
       = (if \<not> (ascii tok \<and> ascii secret) then Inl TypeError
          else if tok = secret then Inr (True, '''') else Inr (False, ''token mismatch''))"
    by (simp add: check_hello_def make_hello_def compare_digest_ascii py_str_def json_eq_int_def)
qed

subsection \<open>Reassembly in any order\<close>

lemma dget_fold_dset: "k \<notin> fst ` set meta \<Longrightarrow> dget (fold (\<lambda>(k, v). dset k v) meta d) k = dget d k"
  by (induction meta arbitrary: d) auto

lemma chunk_header_blob:
  "''blob'' \<notin> fst ` set meta \<Longrightarrow> dget (chunk_header kind bid i n sz c meta) ''blob''
     = Some (JObj [(''id'', bid), (''i'', JInt (int i)), (''n'', JInt (int n)),
                   (''size'', JInt (int sz)), (''o'', JInt (int (i * c)))])"
  by (simp add: chunk_header_def dget_fold_dset)

definition chunk :: "string \<Rightarrow> json \<Rightarrow> byte list \<Rightarrow> header \<Rightarrow> nat \<Rightarrow> nat \<Rightarrow> header \<times> byte list" where
  "chunk kind bid data meta c i =
     (chunk_header kind bid i (chunk_total (length data) c) (length data) c meta, slice (i * c) ((i + 1) * c) data)"

lemma chunk_blob_map:
  "chunk_blob kind bid data meta c = map (chunk kind bid data meta c) [0..<chunk_total (length data) c]"
  by (simp add: chunk_blob_def chunk_def Let_def)

text \<open>The buffer once the chunks in \<open>G\<close> are in place.\<close>

definition assembled :: "byte list \<Rightarrow> nat \<Rightarrow> nat set \<Rightarrow> byte list" where
  "assembled data c G = map (\<lambda>j. if j div c \<in> G then data ! j else 0) [0..<length data]"

lemma assembled_empty: "assembled data c {} = replicate (length data) 0"
  by (simp add: assembled_def map_replicate_trivial)

lemma chunk_total_eq: "0 < c \<Longrightarrow> chunk_total n c = max 1 ((n + c - 1) div c)"
proof -
  assume c: "0 < c"
  define q where "q = (n + c - 1) div c"
  define r where "r = (n + c - 1) mod c"
  have "q * c + r = n + c - 1" "r < c" using c by (simp_all add: q_def r_def)
  then have "int q * int c + int r = int n + int c - 1" "int r < int c"
    using c by (simp_all add: of_nat_diff flip: of_nat_mult of_nat_add)
  then have "(- int n) div int c = - int q"
    by (intro int_div_pos_eq [where r = "int c - 1 - int r"]) (auto simp: algebra_simps)
  then show ?thesis by (simp add: chunk_total_def q_def)
qed

lemma chunk_bounds:
  assumes "0 < c" "i < chunk_total (length data) c"
  shows "i * c + length (slice (i * c) ((i + 1) * c) data) \<le> length data"
proof -
  have "i * c \<le> length data"
  proof (cases "length data = 0")
    case True
    have "(c - 1) div c = 0" using assms(1) by simp
    then have "i = 0" using assms True by (simp add: chunk_total_eq)
    then show ?thesis by simp
  next
    case False
    have "1 \<le> (length data + c - 1) div c"
    proof -
      have "c div c \<le> (length data + c - 1) div c" by (rule div_le_mono) (use False in \<open>cases data; simp\<close>)
      then show ?thesis using assms(1) by simp
    qed
    then have "i < (length data + c - 1) div c" using assms by (simp add: chunk_total_eq)
    then have "(i + 1) * c \<le> length data + c - 1"
      by (metis Suc_eq_plus1 Suc_leI div_times_less_eq_dividend mult_le_mono1 order_trans)
    then show ?thesis by simp
  qed
  then show ?thesis by simp
qed

lemma assembled_insert:
  assumes "0 < c" "i < chunk_total (length data) c"
  shows "slice_assign (assembled data c G) (int (i * c))
     (int (i * c) + int (length (slice (i * c) ((i + 1) * c) data))) (slice (i * c) ((i + 1) * c) data)
     = assembled data c (insert i G)"
proof -
  let ?p = "slice (i * c) ((i + 1) * c) data" and ?o = "i * c"
  have b: "?o + length ?p \<le> length data" by (rule chunk_bounds [OF assms])
  have len: "length (assembled data c H) = length data" for H by (simp add: assembled_def)
  have cl: "clamp_index (length data) (int ?o) = ?o"
    "clamp_index (length data) (int ?o + int (length ?p)) = ?o + length ?p"
    using b by (simp_all add: clamp_index_def del: length_slice flip: of_nat_add of_nat_mult)
  have "take ?o (assembled data c G) @ ?p @ drop (?o + length ?p) (assembled data c G) = assembled data c (insert i G)"
    (is "?l = ?r")
  proof (rule nth_equalityI)
    show "length ?l = length ?r" using b len by simp
  next
    fix j assume "j < length ?l"
    then have j: "j < length data" using b len by simp
    have pl: "length ?p = min c (length data - ?o)" by (simp add: algebra_simps)
    consider (lo) "j < ?o" | (mid) "?o \<le> j" "j < ?o + length ?p" | (hi) "?o + length ?p \<le> j" by linarith
    then show "?l ! j = ?r ! j"
    proof cases
      case lo
      then have "j div c < i" using assms(1) by (simp add: div_less_iff_less_mult)
      then show ?thesis using lo j b by (simp add: assembled_def nth_append)
    next
      case mid
      have "j < (i + 1) * c" using mid pl by (simp add: algebra_simps)
      then have "j div c = i" using mid(1) assms(1)
        by (metis Suc_eq_plus1 div_nat_eqI mult.commute)
      moreover have "j - ?o < length ?p" using mid by linarith
      ultimately show ?thesis using mid j b by (simp add: assembled_def nth_append slice_def)
    next
      case hi
      then have "(i + 1) * c \<le> j" using j pl by (simp add: algebra_simps min_def split: if_splits)
      then have "i + 1 \<le> j div c" using assms(1) by (simp add: less_eq_div_iff_mult_less_eq)
      moreover have "\<not> j < ?o" "\<not> j - ?o < length ?p" using hi by linarith+
      ultimately show ?thesis using hi j b by (auto simp add: assembled_def nth_append simp del: length_slice)
    qed
  qed
  then show ?thesis by (simp only: slice_assign_def len cl Let_def) (simp del: length_slice)
qed

lemma assembled_all:
  assumes "0 < c" "{..<chunk_total (length data) c} \<subseteq> G"
  shows "assembled data c G = data"
proof -
  have "j div c \<in> G" if "j < length data" for j
  proof -
    have "j div c < (length data + c - 1) div c"
    proof -
      have "j div c + 1 = (j + c) div c" using assms(1) by simp
      also have "\<dots> \<le> (length data + c - 1) div c" by (rule div_le_mono) (use that in simp)
      finally show ?thesis by simp
    qed
    then show ?thesis using assms by (auto simp: chunk_total_eq)
  qed
  then show ?thesis by (intro nth_equalityI) (auto simp: assembled_def)
qed

text \<open>A message for this blob, and what the blob's entry is once the chunks in \<open>G\<close> arrived.\<close>

definition for_blob :: "json \<Rightarrow> header \<times> byte list \<Rightarrow> bool" where
  "for_blob bid m = (case dget (fst m) ''blob'' of Some (JObj b) \<Rightarrow> dget b ''id'' = Some bid | _ \<Rightarrow> False)"

definition blob_state :: "byte list \<Rightarrow> nat \<Rightarrow> nat set \<Rightarrow> header \<Rightarrow> partial_blob option" where
  "blob_state data c G h =
     (if G = {} then None
      else Some \<lparr>pb_total = int (chunk_total (length data) c), pb_size = int (length data), pb_header = h,
                 pb_buf = assembled data c G, pb_got = int ` G\<rparr>)"

lemma for_blob_chunk: "''blob'' \<notin> fst ` set meta \<Longrightarrow> for_blob bid (chunk kind bid data meta c i)"
  by (simp add: for_blob_def chunk_def chunk_header_blob)

lemma rs_place_other: "b \<noteq> bid \<Longrightarrow> dget (snd (rs_place b part i offset p s)) bid = dget s bid"
  by (simp add: rs_place_def Let_def)

lemma rs_feed_other: "\<not> for_blob bid (h, p) \<Longrightarrow> dget (snd (rs_feed h p s)) bid = dget s bid"
proof (cases "dget h ''blob''")
  case (Some b)
  assume nf: "\<not> for_blob bid (h, p)"
  show ?thesis
  proof (cases b)
    case (JObj blob)
    show ?thesis
    proof (cases "item blob ''id''")
      case (Inr i)
      then have "i \<noteq> bid"
        using nf Some JObj by (auto simp: for_blob_def item_def split: option.splits)
      then show ?thesis
        using Some JObj Inr
        by (simp add: rs_feed_def json_object_def rs_place_other split_beta split: sum.split)
    qed (use Some JObj in \<open>simp add: rs_feed_def json_object_def\<close>)
  qed (use Some in \<open>simp_all add: rs_feed_def json_object_def\<close>)
qed (simp add: rs_feed_def)

lemma rs_feed_chunk:
  assumes c: "0 < c" and i: "i < chunk_total (length data) c" and ok: "hashable bid" "''blob'' \<notin> fst ` set meta"
    and st: "dget s bid = blob_state data c G h0" and G: "G \<subseteq> {..<chunk_total (length data) c}"
    and ch: "chunk kind bid data meta c i = (h, p)"
  defines "h1 \<equiv> (if G = {} then h else h0)" and "G1 \<equiv> insert i G"
  shows "fst (rs_feed h p s) = Inr (if G1 = {..<chunk_total (length data) c} then Some (h1, data) else None)
     \<and> dget (snd (rs_feed h p s)) bid
         = (if G1 = {..<chunk_total (length data) c} then None else blob_state data c G1 h1)"
proof -
  let ?N = "chunk_total (length data) c"
  let ?part = "\<lparr>pb_total = int ?N, pb_size = int (length data), pb_header = h1,
                 pb_buf = assembled data c G, pb_got = int ` G\<rparr>"
  have h: "h = chunk_header kind bid i ?N (length data) c meta" and p: "p = slice (i * c) ((i + 1) * c) data"
    using ch by (simp_all add: chunk_def)
  have part: "(case dget s bid of Some part \<Rightarrow> Inr part
      | None \<Rightarrow> new_partial [(''id'', bid), (''i'', JInt (int i)), (''n'', JInt (int ?N)),
                   (''size'', JInt (int (length data))), (''o'', JInt (int (i * c)))] h (int ?N)) = Inr ?part"
    by (simp add: st blob_state_def h1_def new_partial_def int_item_def item_def as_int_def assembled_empty)
  have "rs_feed h p s = (let (out, s') = rs_place bid ?part (int i) (int (i * c)) p s in (Inr out, s'))"
    using part unfolding h by (simp add: rs_feed_def chunk_header_blob [OF ok(2)] json_true_def json_object_def item_def
        int_item_def as_int_def ok(1) del: of_nat_mult)
  moreover have "rs_place bid ?part (int i) (int (i * c)) p s =
      (if card G1 < ?N then (None, dset bid (?part\<lparr>pb_buf := assembled data c G1, pb_got := int ` G1\<rparr>) s)
       else (Some (h1, assembled data c G1), dpop bid s))"
  proof -
    have "\<not> int (length data) < int (i * c) + int (length p)"
      using chunk_bounds [OF c i] by (simp add: p not_less del: length_slice flip: of_nat_add of_nat_mult)
    moreover have "insert (int i) (int ` G) = int ` G1" by (simp add: G1_def)
    moreover have "card (int ` G1) = card G1" by (simp add: card_image)
    moreover have "slice_assign (assembled data c G) (int (i * c)) (int (i * c) + int (length p)) p = assembled data c G1"
      unfolding p G1_def by (rule assembled_insert [OF c i])
    ultimately show ?thesis by (simp add: rs_place_def Let_def del: of_nat_mult)
  qed
  moreover have "G1 \<subseteq> {..<?N}" using G i by (simp add: G1_def)
  then have "card G1 < ?N \<longleftrightarrow> G1 \<noteq> {..<?N}"
    by (metis card_lessThan card_subset_eq finite_lessThan psubsetI psubset_card_mono less_irrefl)
  moreover have "G1 \<noteq> {}" by (simp add: G1_def)
  ultimately show ?thesis
    using assembled_all [OF c, of data G1] by (cases "G1 = {..<?N}") (simp_all add: blob_state_def)
qed

text \<open>The answers given to this blob's messages, in order.\<close>

definition answers :: "json \<Rightarrow> (header \<times> byte list) list \<Rightarrow> reassembler \<Rightarrow> (py_error + (header \<times> byte list) option) list" where
  "answers bid ms s = map snd (filter (\<lambda>(m, r). for_blob bid m) (zip ms (fst (rs_feed_all ms s))))"

lemma answers_simps [simp]:
  "answers bid [] s = []"
  "answers bid ((h, p) # ms) s =
     (if for_blob bid (h, p) then fst (rs_feed h p s) # answers bid ms (snd (rs_feed h p s))
      else answers bid ms (snd (rs_feed h p s)))"
  by (auto simp: answers_def Let_def split: prod.splits)

lemma rs_feed_all_Cons: "snd (rs_feed_all ((h, p) # ms) s) = snd (rs_feed_all ms (snd (rs_feed h p s)))"
  by (simp add: Let_def split: prod.splits)

lemma no_answers:
  "filter (for_blob bid) ms = [] \<Longrightarrow> answers bid ms s = [] \<and> dget (snd (rs_feed_all ms s)) bid = dget s bid"
proof (induction ms arbitrary: s)
  case (Cons m ms)
  obtain h p where m: "m = (h, p)" by fastforce
  then have "\<not> for_blob bid (h, p)" "filter (for_blob bid) ms = []" using Cons.prems by (auto split: if_splits)
  then show ?case using Cons.IH rs_feed_other by (simp add: m rs_feed_all_Cons del: rs_feed_all.simps)
qed simp

lemma reassembly_run:
  assumes c: "0 < c" and ok: "hashable bid" "''blob'' \<notin> fst ` set meta"
    and "filter (for_blob bid) ms = map (chunk kind bid data meta c) is" "is \<noteq> []"
    and "distinct is" "set is \<inter> G = {}" "G \<union> set is = {..<chunk_total (length data) c}"
    and "dget s bid = blob_state data c G h0"
  shows "answers bid ms s = replicate (length is - 1) (Inr None)
        @ [Inr (Some (if G = {} then fst (chunk kind bid data meta c (hd is)) else h0, data))]
    \<and> dget (snd (rs_feed_all ms s)) bid = None"
  using assms(4-)
proof (induction ms arbitrary: "is" G h0 s)
  case (Cons m ms)
  obtain h p where m: "m = (h, p)" by fastforce
  let ?s1 = "snd (rs_feed h p s)" and ?N = "chunk_total (length data) c"
  show ?case
  proof (cases "for_blob bid (h, p)")
    case False
    then show ?thesis
      using Cons.prems Cons.IH [of "is" G ?s1 h0] rs_feed_other [OF False, of s]
      by (simp add: m rs_feed_all_Cons del: rs_feed_all.simps)
  next
    case True
    then obtain i js where is': "is = i # js" and ch: "chunk kind bid data meta c i = (h, p)"
      and rest: "filter (for_blob bid) ms = map (chunk kind bid data meta c) js"
      using Cons.prems(1,2) m by (cases "is") auto
    have i: "i < ?N" and G: "G \<subseteq> {..<?N}" using Cons.prems(5) is' by auto
    note f = rs_feed_chunk [OF c i ok Cons.prems(6) G ch]
    show ?thesis
    proof (cases "js = []")
      case True
      then have "insert i G = {..<?N}" using Cons.prems(5) is' by auto
      then show ?thesis
        using f no_answers [of bid ms ?s1] rest True is' ch \<open>for_blob bid (h, p)\<close>
        by (simp add: m rs_feed_all_Cons del: rs_feed_all.simps)
    next
      case False
      then obtain j js' where js: "js = j # js'" by (cases js) auto
      have "j \<noteq> i" "j \<notin> G" "j < ?N" using Cons.prems(3-5) is' js by auto
      then have "insert i G \<noteq> {..<?N}" by blast
      moreover have "answers bid ms ?s1 = replicate (length js - 1) (Inr None)
          @ [Inr (Some (if insert i G = {} then fst (chunk kind bid data meta c (hd js))
                        else if G = {} then h else h0, data))]
        \<and> dget (snd (rs_feed_all ms ?s1)) bid = None"
        by (rule Cons.IH [OF rest False]) (use Cons.prems(3-5) is' f calculation in auto)
      ultimately show ?thesis
        using f \<open>for_blob bid (h, p)\<close> is' ch js
        by (simp add: m rs_feed_all_Cons del: rs_feed_all.simps)
    qed
  qed
qed simp

lemma mset_map_split_perm: "mset xs = mset (map f ys) \<Longrightarrow> \<exists>zs. mset zs = mset ys \<and> xs = map f zs"
proof (induction xs arbitrary: ys)
  case (Cons x xs)
  then have "x \<in> f ` set ys" by (metis list.set_intros(1) mset_eq_setD set_map)
  then obtain y where y: "y \<in> set ys" "x = f y" by blast
  then have "mset ys = add_mset y (mset (remove1 y ys))" by simp
  then have "mset (map f ys) = add_mset x (mset (map f (remove1 y ys)))"
    using y(2) by (metis image_mset_add_mset mset_map)
  then have "mset xs = mset (map f (remove1 y ys))"
    using Cons.prems by (metis add_mset_add_mset_same_iff mset.simps(2))
  then obtain zs where "mset zs = mset (remove1 y ys)" "xs = map f zs" using Cons.IH by blast
  then have "mset (y # zs) = mset ys" "x # xs = map f (y # zs)" using y by simp_all
  then show ?case by (intro exI [of _ "y # zs"] conjI)
qed simp

text \<open>C9: A blob's chunks, arriving once each in any order and interleaved with any other
  messages, are reassembled exactly: every one but the last to arrive answers nothing, the last
  answers the original bytes under the header of the first to arrive, and no entry is left.\<close>

theorem reassembly_any_order:
  assumes "0 < c" and "hashable bid" and "''blob'' \<notin> fst ` set meta" and "dget s bid = None"
    and "mset (filter (for_blob bid) ms) = mset (chunk_blob kind bid data meta c)"
  shows "answers bid ms s = replicate (chunk_total (length data) c - 1) (Inr None)
        @ [Inr (Some (fst (hd (filter (for_blob bid) ms)), data))]
    \<and> dget (snd (rs_feed_all ms s)) bid = None"
proof -
  let ?N = "chunk_total (length data) c" and ?ch = "chunk kind bid data meta c"
  obtain js where js: "mset js = mset [0..<?N]" "filter (for_blob bid) ms = map ?ch js"
    using mset_map_split_perm assms(5) unfolding chunk_blob_map by blast
  have len: "length js = ?N" using js(1) by (metis length_upt mset_eq_length diff_zero)
  have "js \<noteq> []" using len by (auto simp: chunk_total_def)
  moreover have "distinct js" using js(1) by (metis distinct_upt mset_eq_imp_distinct_iff)
  moreover have "set js = {..<?N}" using js(1) by (metis atLeast_upt mset_eq_setD)
  ultimately show ?thesis
    using reassembly_run [OF assms(1-3) js(2), of "{}" s "[]"] assms(4) js(2) len
    by (simp add: blob_state_def hd_map)
qed

theorem reassembly_any_order_witness:
  "let cs = chunk_blob ''t2'' (JStr ''b'') [1, 2, 3, 4, 5] [] 2;
       ms = [cs ! 2, ([(''kind'', JStr ''t1'')], [9]), cs ! 0, cs ! 1]
   in answers (JStr ''b'') ms rs_init = [Inr None, Inr None, Inr (Some (fst (cs ! 2), [1, 2, 3, 4, 5]))]"
proof -
  let ?cs = "chunk_blob ''t2'' (JStr ''b'') [1, 2, 3, 4, 5] [] 2"
  let ?ms = "[?cs ! 2, ([(''kind'', JStr ''t1'')], [9]), ?cs ! 0, ?cs ! 1]"
  have cs: "?cs = map (chunk ''t2'' (JStr ''b'') [1, 2, 3, 4, 5] [] 2) [0, 1, 2]"
  proof -
    have "chunk_total (length [1, 2, 3, 4, 5::byte]) 2 = 3" "[0..<3] = [0, 1, 2]"
      by (simp_all add: chunk_total_eq upt_rec)
    then show ?thesis by (simp only: chunk_blob_map)
  qed
  have f: "filter (for_blob (JStr ''b'')) ?ms = [?cs ! 2, ?cs ! 0, ?cs ! 1]"
    unfolding cs by (simp add: for_blob_chunk) (simp add: for_blob_def)
  have "mset (filter (for_blob (JStr ''b'')) ?ms) = mset ?cs"
    unfolding f by (simp add: cs)
  then have m: "mset (filter (for_blob (JStr ''b'')) ?ms) = mset ?cs" .
  have pre: "0 < (2::nat)" "hashable (JStr ''b'')" "''blob'' \<notin> fst ` set []" "dget rs_init (JStr ''b'') = None"
    by (simp_all add: hashable_def rs_init_def)
  have len: "chunk_total (length [1, 2, 3, 4, 5::byte]) 2 = Suc (Suc (Suc 0))" by (simp add: chunk_total_eq)
  show ?thesis
    unfolding Let_def conjunct1 [OF reassembly_any_order [OF pre m]] f len by simp
qed

subsection \<open>Loss detection\<close>

lemma sq_observe_next:
  "sq_last_seen t = Some l \<Longrightarrow> sq_observe (l + 1) t = (True, t\<lparr>sq_last_seen := Some (l + 1)\<rparr>)"
  by (simp add: sq_observe_def)

lemma sq_observe_jump:
  "sq_last_seen t = Some l \<Longrightarrow> l + 1 < q \<Longrightarrow> sq_observe q t =
     (False, t\<lparr>sq_gaps := sq_gaps t + 1, sq_last_seen := Some q,
               sq_first_missing := (case sq_first_missing t of None \<Rightarrow> Some (l + 1) | Some m \<Rightarrow> Some m)\<rparr>)"
  by (cases "sq_first_missing t") (simp_all add: sq_observe_def)

fun sq_run :: "int list \<Rightarrow> seq_tracker \<Rightarrow> seq_tracker" where
  "sq_run [] t = t"
| "sq_run (q # qs) t = sq_run qs (snd (sq_observe q t))"

text \<open>The number of jumps and the first number skipped in an increasing list of arrivals after \<open>l\<close>.\<close>

fun jumps :: "int \<Rightarrow> int list \<Rightarrow> nat" where
  "jumps l [] = 0"
| "jumps l (q # qs) = (if q = l + 1 then 0 else 1) + jumps q qs"

definition first_lost :: "int \<Rightarrow> int list \<Rightarrow> int option" where
  "first_lost l qs = find (\<lambda>m. m \<notin> set qs) [l + 1 .. (if qs = [] then l else last qs)]"

lemma first_lost_Cons:
  assumes "sorted_wrt (<) (q # qs)" "l < q"
  shows "first_lost l (q # qs) = (if q = l + 1 then first_lost q qs else Some (l + 1))"
proof (cases "q = l + 1")
  case True
  have "last (q # qs) \<in> set (q # qs)" by (rule last_in_set) simp
  then have le: "q \<le> last (q # qs)" using assms(1) by auto
  have "find (\<lambda>m. m \<notin> set (q # qs)) [l + 1 .. last (q # qs)] = find (\<lambda>m. m \<notin> set (q # qs)) [q + 1 .. last (q # qs)]"
    using True le by (simp add: upto_rec1)
  also have "\<dots> = find (\<lambda>m. m \<notin> set qs) [q + 1 .. last (q # qs)]"
    by (rule find_cong) auto
  finally show ?thesis using True by (cases "qs = []") (simp_all add: first_lost_def)
next
  case False
  have "last (q # qs) \<in> set (q # qs)" by (rule last_in_set) simp
  then have "l + 1 \<le> last (q # qs)" using assms by auto
  moreover have "l + 1 \<notin> set (q # qs)" using assms False by auto
  ultimately show ?thesis using False by (simp add: first_lost_def upto_rec1)
qed

lemma sq_run_tracks:
  "sq_last_seen t = Some l \<Longrightarrow> sorted_wrt (<) (l # qs) \<Longrightarrow>
     sq_run qs t = t\<lparr>sq_gaps := sq_gaps t + jumps l qs, sq_last_seen := Some (last (l # qs)),
       sq_first_missing := (case sq_first_missing t of Some m \<Rightarrow> Some m | None \<Rightarrow> first_lost l qs)\<rparr>"
proof (induction qs arbitrary: t l)
  case Nil
  then show ?case by (cases t) (auto simp: first_lost_def split: option.split)
next
  case (Cons q qs)
  then have lt: "l < q" "sorted_wrt (<) (q # qs)" by auto
  show ?case
  proof (cases "q = l + 1")
    case True
    then show ?thesis
      using Cons.IH [of "snd (sq_observe q t)" q] sq_observe_next [OF Cons.prems(1)] lt first_lost_Cons [OF lt(2,1)]
      by (cases t) (simp split: option.split)
  next
    case False
    then have "l + 1 < q" using lt by simp
    then show ?thesis
      using Cons.IH [of "snd (sq_observe q t)" q] sq_observe_jump [OF Cons.prems(1)] lt first_lost_Cons [OF lt(2,1)] False
      by (cases t) (auto split: option.split)
  qed
qed

text \<open>C11: On a lossy but ordered lane (strictly increasing numbers after the last one seen), the
  tracker counts every hole, remembers the first number that never arrived, or the older
  unresolved one, and stays silent exactly when nothing is missing.\<close>

theorem seq_tracker_detects_loss:
  assumes "sq_last_seen t = Some l" and "sorted_wrt (<) (l # qs)"
  shows "sq_run qs t = t\<lparr>sq_gaps := sq_gaps t + jumps l qs, sq_last_seen := Some (last (l # qs)),
       sq_first_missing := (case sq_first_missing t of Some m \<Rightarrow> Some m | None \<Rightarrow> first_lost l qs)\<rparr>
     \<and> (jumps l qs = 0 \<longleftrightarrow> qs = [l + 1 .. l + int (length qs)])
     \<and> (jumps l qs = 0 \<longleftrightarrow> first_lost l qs = None)"
proof -
  have "jumps l qs = 0 \<longleftrightarrow> qs = [l + 1 .. l + int (length qs)]" for l
  proof (induction qs arbitrary: l)
    case (Cons q qs)
    have "[l + 1 .. l + int (length (q # qs))] = (l + 1) # [l + 1 + 1 .. l + 1 + int (length qs)]"
      by (simp add: upto_rec1 add.assoc)
    then show ?case using Cons.IH [of "l + 1"] by auto
  qed simp
  moreover have "jumps l qs = 0 \<longleftrightarrow> first_lost l qs = None"
    using assms(2)
  proof (induction qs arbitrary: l)
    case (Cons q qs)
    then have lt: "l < q" "sorted_wrt (<) (q # qs)" by auto
    then show ?case using Cons.IH [of q] first_lost_Cons [OF lt(2,1)] by auto
  qed (simp add: first_lost_def)
  ultimately show ?thesis using sq_run_tracks [OF assms] by blast
qed

theorem seq_tracker_detects_loss_witness:
  "sq_run [4, 5, 8, 9] \<lparr>sq_last_seen = Some 3, sq_gaps = 0, sq_first_missing = None\<rparr>
     = \<lparr>sq_last_seen = Some 9, sq_gaps = 1, sq_first_missing = Some 6\<rparr>"
proof -
  let ?t = "\<lparr>sq_last_seen = Some 3, sq_gaps = 0, sq_first_missing = None\<rparr>"
  have "sq_last_seen ?t = Some 3" "sorted_wrt (<) [3::int, 4, 5, 8, 9]" by simp_all
  note r = seq_tracker_detects_loss [OF this]
  have "first_lost 3 [4, 5, 8, 9] = Some 6" by (simp add: first_lost_def upto_rec1)
  then show ?thesis using r by simp
qed

end
