(* ===== verification/Merge.thy ===== *)
theory Merge
  imports Protocol
begin

text \<open>
  \<open>ring1/merge.py\<close>: the replica merges the ordered cold lane and the ordered fast lane into
  one apply order. A fast message names the cold sequence it must follow (\<open>after\<close>) and is parked
  until that one has been applied. The Python set of fast numbers applied out of order is a list
  without duplicates here.
\<close>

definition LANE_COLD :: string where "LANE_COLD = ''c''"
definition LANE_FAST :: string where "LANE_FAST = ''f''"

record merger =
  mg_cold :: seq_tracker
  mg_fast :: seq_tracker
  mg_cold_applied :: int
  mg_fast_applied :: int
  mg_fast_done :: "int list"
  mg_parked :: "(int \<times> header \<times> byte list) list"

definition mg_init :: merger where
  "mg_init = \<lparr>mg_cold = sq_init, mg_fast = sq_init, mg_cold_applied = 0, mg_fast_applied = 0,
     mg_fast_done = [], mg_parked = []\<rparr>"

definition mg_gaps :: "merger \<Rightarrow> nat" where
  "mg_gaps m = sq_gaps (mg_cold m) + sq_gaps (mg_fast m)"

definition mg_parked_count :: "merger \<Rightarrow> nat" where
  "mg_parked_count m = length (mg_parked m)"

definition mg_gap_lane :: "merger \<Rightarrow> string" where
  "mg_gap_lane m =
     (let c = sq_first_missing (mg_cold m) \<noteq> None; f = sq_first_missing (mg_fast m) \<noteq> None
      in if c \<and> f then ''both'' else if c then ''cold'' else if f then ''fast'' else '''')"

definition lane_of :: "header \<Rightarrow> json" where
  "lane_of h = (case dget h ''lane'' of None \<Rightarrow> JStr LANE_COLD
     | Some v \<Rightarrow> if json_true v then v else JStr LANE_COLD)"

definition is_fast :: "header \<Rightarrow> bool" where
  "is_fast h \<longleftrightarrow> lane_of h = JStr LANE_FAST"

text \<open>\<open>header.get("seq")\<close> and \<open>int(header.get("after") or 0)\<close>; a value that is not an integer is refused.\<close>

definition seq_of :: "header \<Rightarrow> py_error + int option" where
  "seq_of h = (case dget h ''seq'' of None \<Rightarrow> Inr None
     | Some v \<Rightarrow> if v = JNull then Inr None
                else (case as_int v of Inl e \<Rightarrow> Inl e | Inr i \<Rightarrow> Inr (Some i)))"

definition after_of :: "header \<Rightarrow> py_error + int" where
  "after_of h = (case dget h ''after'' of None \<Rightarrow> Inr 0
     | Some v \<Rightarrow> if json_true v then as_int v else Inr 0)"

definition mg_observe :: "header \<Rightarrow> merger \<Rightarrow> (py_error + bool) \<times> merger" where
  "mg_observe h m =
     (case seq_of h of
        Inl e \<Rightarrow> (Inl e, m)
      | Inr None \<Rightarrow> (Inr True, m)
      | Inr (Some seq) \<Rightarrow>
          if is_fast h
          then let (ok, t) = sq_observe seq (mg_fast m) in (Inr ok, m\<lparr>mg_fast := t\<rparr>)
          else let (ok, t) = sq_observe seq (mg_cold m) in (Inr ok, m\<lparr>mg_cold := t\<rparr>))"

definition mg_admit :: "header \<Rightarrow> byte list \<Rightarrow> merger \<Rightarrow> (py_error + bool) \<times> merger" where
  "mg_admit h payload m =
     (if \<not> is_fast h then (Inr True, m)
      else case after_of h of
             Inl e \<Rightarrow> (Inl e, m)
           | Inr after \<Rightarrow>
               if after \<le> mg_cold_applied m then (Inr True, m)
               else (Inr False, m\<lparr>mg_parked := mg_parked m @ [(after, h, payload)]\<rparr>))"

definition mg_cold_done :: "int option \<Rightarrow> merger \<Rightarrow> (header \<times> byte list) list \<times> merger" where
  "mg_cold_done seq m =
     (let m1 = (case seq of Some s \<Rightarrow> if s > mg_cold_applied m then m\<lparr>mg_cold_applied := s\<rparr> else m | None \<Rightarrow> m);
          due = map snd (filter (\<lambda>(a, h, p). a \<le> mg_cold_applied m1) (mg_parked m1))
      in (due, if due \<noteq> []
               then m1\<lparr>mg_parked := filter (\<lambda>(a, h, p). a > mg_cold_applied m1) (mg_parked m1)\<rparr> else m1))"

function advance_applied :: "int \<Rightarrow> int list \<Rightarrow> int \<times> int list" where
  "advance_applied a done =
     (if a + 1 \<in> set done then advance_applied (a + 1) (removeAll (a + 1) done) else (a, done))"
  by pat_completeness auto
termination
  by (relation "measure (\<lambda>(a, done). length done)") (auto simp: length_removeAll_less)

declare advance_applied.simps [simp del]

definition mg_fast_done_op :: "int option \<Rightarrow> merger \<Rightarrow> merger" where
  "mg_fast_done_op seq m =
     (case seq of None \<Rightarrow> m
      | Some s \<Rightarrow>
          if s \<le> mg_fast_applied m then m
          else let (a, done) = advance_applied (mg_fast_applied m) (List.insert s (mg_fast_done m))
               in m\<lparr>mg_fast_applied := a, mg_fast_done := done\<rparr>)"

definition mg_clear_fast_gap :: "merger \<Rightarrow> merger" where
  "mg_clear_fast_gap m =
     (let m1 = m\<lparr>mg_fast := sq_clear_gap (mg_fast m)\<rparr>;
          m2 = (case sq_last_seen (mg_fast m1) of
                  Some l \<Rightarrow> if l > mg_fast_applied m1 then m1\<lparr>mg_fast_applied := l\<rparr> else m1
                | None \<Rightarrow> m1)
      in m2\<lparr>mg_fast_done := filter (\<lambda>s. s > mg_fast_applied m2) (mg_fast_done m2)\<rparr>)"

definition mg_clear_cold_gap :: "merger \<Rightarrow> merger" where
  "mg_clear_cold_gap m = m\<lparr>mg_cold := sq_clear_gap (mg_cold m)\<rparr>"

definition mg_reset :: "merger \<Rightarrow> merger" where
  "mg_reset m = m\<lparr>mg_cold := sq_init, mg_fast := sq_init, mg_cold_applied := 0, mg_fast_applied := 0,
     mg_fast_done := [], mg_parked := []\<rparr>"

subsection \<open>Parking: nothing is lost, nothing is early\<close>

datatype mg_event = Arrive header "byte list" | ColdDone "int option"

text \<open>One event of the apply loop and the fast messages it applies, each with the cold sequence
  applied by then.\<close>

fun mg_step :: "mg_event \<Rightarrow> merger \<Rightarrow> (int \<times> header \<times> byte list) list \<times> merger" where
  "mg_step (Arrive h p) m =
     (case mg_admit h p m of
        (Inr True, m1) \<Rightarrow> ((if is_fast h then [(mg_cold_applied m1, h, p)] else []), m1)
      | (_, m1) \<Rightarrow> ([], m1))"
| "mg_step (ColdDone seq) m =
     (let (due, m1) = mg_cold_done seq m in (map (\<lambda>(h, p). (mg_cold_applied m1, h, p)) due, m1))"

fun mg_run :: "mg_event list \<Rightarrow> merger \<Rightarrow> (int \<times> header \<times> byte list) list \<times> merger" where
  "mg_run [] m = ([], m)"
| "mg_run (e # es) m = (let (out, m1) = mg_step e m; (outs, m2) = mg_run es m1 in (out @ outs, m2))"

text \<open>The fast messages that arrived with a readable \<open>after\<close>.\<close>

fun arrivals :: "mg_event list \<Rightarrow> (header \<times> byte list) list" where
  "arrivals [] = []"
| "arrivals (Arrive h p # es) =
     (if is_fast h \<and> (\<exists>a. after_of h = Inr a) then (h, p) # arrivals es else arrivals es)"
| "arrivals (ColdDone _ # es) = arrivals es"

definition parked_ok :: "merger \<Rightarrow> bool" where
  "parked_ok m \<longleftrightarrow> list_all (\<lambda>(a, h, p). after_of h = Inr a \<and> mg_cold_applied m < a) (mg_parked m)"

definition due_ok :: "int \<times> header \<times> byte list \<Rightarrow> bool" where
  "due_ok x = (case x of (applied, h, p) \<Rightarrow> (case after_of h of Inr a \<Rightarrow> a \<le> applied | Inl _ \<Rightarrow> False))"

abbreviation msgs :: "(int \<times> header \<times> byte list) list \<Rightarrow> (header \<times> byte list) multiset" where
  "msgs xs \<equiv> mset (map snd xs)"

lemma mg_step_Arrive:
  assumes "parked_ok m" "mg_step (Arrive h p) m = (out, m1)"
  shows "parked_ok m1 \<and> list_all due_ok out
    \<and> msgs out + msgs (mg_parked m1) = mset (arrivals [Arrive h p]) + msgs (mg_parked m)"
proof (cases "is_fast h")
  case True
  then show ?thesis
    using assms by (cases "after_of h")
      (auto simp: mg_admit_def parked_ok_def due_ok_def split: if_splits)
qed (use assms in \<open>auto simp: mg_admit_def\<close>)

lemma mset_partition_map:
  "mset (map f (filter P xs)) + mset (map f (filter (\<lambda>x. \<not> P x) xs)) = mset (map f xs)"
  by (induction xs) auto

lemma mg_cold_done_eq:
  "mg_cold_done seq m =
     (let c = (case seq of Some s \<Rightarrow> max s (mg_cold_applied m) | None \<Rightarrow> mg_cold_applied m)
      in (map snd (filter (\<lambda>x. fst x \<le> c) (mg_parked m)),
          m\<lparr>mg_cold_applied := c, mg_parked := filter (\<lambda>x. \<not> fst x \<le> c) (mg_parked m)\<rparr>))"
proof -
  have fe: "filter (\<lambda>(a, h, p). a \<le> c) xs = filter (\<lambda>x. fst x \<le> c) xs"
    "filter (\<lambda>(a, h, p). c < a) xs = filter (\<lambda>x. \<not> fst x \<le> c) xs"
    for c :: int and xs :: "(int \<times> header \<times> byte list) list"
    by (auto intro!: filter_cong)
  have nd: "filter (\<lambda>x. fst x \<le> c) xs = [] \<Longrightarrow> filter (\<lambda>x. \<not> fst x \<le> c) xs = xs"
    for c :: int and xs :: "(int \<times> header \<times> byte list) list"
    by (auto simp: filter_empty_conv intro: filter_True)
  show ?thesis
    by (cases m; cases seq) (auto simp: mg_cold_done_def Let_def fe max_def nd)
qed

lemma mg_step_ColdDone:
  assumes "parked_ok m" "mg_step (ColdDone seq) m = (out, m1)"
  shows "parked_ok m1 \<and> list_all due_ok out \<and> msgs out + msgs (mg_parked m1) = msgs (mg_parked m)"
proof -
  define c where "c = (case seq of Some s \<Rightarrow> max s (mg_cold_applied m) | None \<Rightarrow> mg_cold_applied m)"
  have m1: "m1 = m\<lparr>mg_cold_applied := c, mg_parked := filter (\<lambda>x. \<not> fst x \<le> c) (mg_parked m)\<rparr>"
    and out: "out = map (\<lambda>x. (c, snd x)) (filter (\<lambda>x. fst x \<le> c) (mg_parked m))"
    using assms(2) by (auto simp: mg_cold_done_eq c_def Let_def)
  have "parked_ok m1" using assms(1) by (auto simp: parked_ok_def list_all_iff m1)
  moreover have "list_all due_ok out"
    using assms(1) by (auto simp: parked_ok_def list_all_iff out due_ok_def)
  moreover have "msgs out = mset (map snd (filter (\<lambda>x. fst x \<le> c) (mg_parked m)))"
    by (simp add: out comp_def)
  ultimately show ?thesis
    using mset_partition_map [of snd "\<lambda>x. fst x \<le> c" "mg_parked m"] by (simp add: m1)
qed

lemma mg_run_parks:
  "parked_ok m \<Longrightarrow> mg_run es m = (outs, m2) \<Longrightarrow> parked_ok m2 \<and> list_all due_ok outs
     \<and> msgs outs + msgs (mg_parked m2) = mset (arrivals es) + msgs (mg_parked m)"
proof (induction es arbitrary: m outs)
  case (Cons e es)
  obtain out m1 where s: "mg_step e m = (out, m1)" by fastforce
  obtain outs1 where r: "mg_run es m1 = (outs1, m2)" "outs = out @ outs1"
    using Cons.prems(2) s by (auto simp: Let_def split: prod.splits)
  show ?case
  proof (cases e)
    case (Arrive h p)
    note st = mg_step_Arrive [OF Cons.prems(1) s [unfolded Arrive]]
    then show ?thesis using Cons.IH [OF _ r(1)] r(2) Arrive by (auto simp: ac_simps)
  next
    case (ColdDone seq)
    note st = mg_step_ColdDone [OF Cons.prems(1) s [unfolded ColdDone]]
    then show ?thesis using Cons.IH [OF _ r(1)] r(2) ColdDone by (auto simp: ac_simps)
  qed
qed simp

text \<open>C1: Whatever the order of arrivals and cold completions, each fast message is applied or
  still parked exactly once, none is applied before the cold sequence it names, and what is
  still parked names a cold sequence not yet applied.\<close>

theorem merger_parks_exactly:
  "(case mg_run es mg_init of (outs, m) \<Rightarrow>
      mset (map snd outs) + mset (map snd (mg_parked m)) = mset (arrivals es)
      \<and> list_all due_ok outs \<and> parked_ok m)"
proof -
  obtain outs m where r: "mg_run es mg_init = (outs, m)" by fastforce
  have "parked_ok mg_init" "mg_parked mg_init = []" by (simp_all add: parked_ok_def mg_init_def)
  with mg_run_parks [OF this(1) r] show ?thesis by (simp add: r)
qed

subsection \<open>The applied mark\<close>

definition done_ok :: "int set \<Rightarrow> int \<times> int list \<Rightarrow> bool" where
  "done_ok D x = (case x of (a, done) \<Rightarrow> distinct done \<and> {1..a} \<subseteq> D \<and> set done = {d \<in> D. a < d})"

lemma advance_applied_spec:
  "done_ok D (a, done) \<Longrightarrow> 0 \<le> a \<Longrightarrow>
     done_ok D (advance_applied a done) \<and> 0 \<le> fst (advance_applied a done) \<and> fst (advance_applied a done) + 1 \<notin> D"
proof (induction a "done" rule: advance_applied.induct)
  case (1 a "done")
  show ?case
  proof (cases "a + 1 \<in> set done")
    case True
    have "{1..a + 1} = insert (a + 1) {1..a}" using "1.prems" by auto
    then have "done_ok D (a + 1, removeAll (a + 1) done)"
      using True "1.prems"(1) by (auto simp: done_ok_def distinct_removeAll)
    then show ?thesis
      using "1.IH" [OF True] "1.prems"(2) True by (simp add: advance_applied.simps [of a])
  next
    case False
    then have "a + 1 \<notin> D" using "1.prems" by (auto simp: done_ok_def)
    then show ?thesis using False "1.prems" by (simp add: advance_applied.simps [of a])
  qed
qed

lemma advance_idle: "a + 1 \<notin> set done \<Longrightarrow> advance_applied a done = (a, done)"
  by (simp add: advance_applied.simps [of a])

lemma fast_done_spec:
  assumes "done_ok D (mg_fast_applied m, mg_fast_done m)" "0 \<le> mg_fast_applied m" "mg_fast_applied m + 1 \<notin> D" "0 < s"
  defines "m1 \<equiv> mg_fast_done_op (Some s) m"
  shows "done_ok (insert s D) (mg_fast_applied m1, mg_fast_done m1) \<and> 0 \<le> mg_fast_applied m1
     \<and> mg_fast_applied m1 + 1 \<notin> insert s D"
proof (cases "s \<le> mg_fast_applied m")
  case True
  then have "s \<in> D" using assms(1,4) by (auto simp: done_ok_def)
  then show ?thesis using True assms(1-3) by (simp add: m1_def mg_fast_done_op_def insert_absorb)
next
  case False
  have "done_ok (insert s D) (mg_fast_applied m, List.insert s (mg_fast_done m))"
    using assms(1) False by (auto simp: done_ok_def)
  from advance_applied_spec [OF this assms(2)] show ?thesis
    using False by (simp add: m1_def mg_fast_done_op_def split_beta Let_def)
qed

text \<open>After any sequence of completed fast messages, in any order and with repeats, the
  applied mark is exactly the contiguous one: everything up to it has been applied, the next
  number has not, and what is remembered besides is what was applied above it.\<close>

theorem fast_applied_is_contiguous:
  assumes "\<forall>s \<in> set qs. 0 < s"
  defines "m \<equiv> fold (\<lambda>s. mg_fast_done_op (Some s)) qs mg_init"
  shows "0 \<le> mg_fast_applied m \<and> {1..mg_fast_applied m} \<subseteq> set qs \<and> mg_fast_applied m + 1 \<notin> set qs
    \<and> set (mg_fast_done m) = {s \<in> set qs. mg_fast_applied m < s}"
proof -
  have "done_ok (set qs \<union> D) (mg_fast_applied m', mg_fast_done m') \<and> 0 \<le> mg_fast_applied m'
      \<and> mg_fast_applied m' + 1 \<notin> set qs \<union> D"
    if "done_ok D (mg_fast_applied m0, mg_fast_done m0) \<and> 0 \<le> mg_fast_applied m0 \<and> mg_fast_applied m0 + 1 \<notin> D"
      "m' = fold (\<lambda>s. mg_fast_done_op (Some s)) qs m0" for D m0 m'
    using assms(1) that
  proof (induction qs arbitrary: D m0)
    case (Cons q qs)
    have "0 < q" using Cons.prems(1) by simp
    then show ?case
      using Cons.IH [of "insert q D" "mg_fast_done_op (Some q) m0"] Cons.prems fast_done_spec [of D m0 q] by simp
  qed simp
  from this [of "{}" mg_init m] show ?thesis
    by (simp add: m_def mg_init_def done_ok_def)
qed

theorem fast_applied_is_contiguous_witness:
  "{1..mg_fast_applied (fold (\<lambda>s. mg_fast_done_op (Some s)) [1, 2, 4] mg_init)} \<subseteq> {1, 2, 4}"
  using fast_applied_is_contiguous [of "[1, 2, 4]"] by simp

end
