(* ===== verification/Registry.thy ===== *)
theory Registry
  imports Dirty_Set
begin

text \<open>
  \<open>ring1/registry.py\<close>: the two maps between wire uuids and Blender's runtime identities,
  and \<open>ring1/classifier.py\<close>: the debouncer and the tier of one update.
\<close>

record registry =
  rg_suid :: "(uuid, int) dict"
  rg_uuid :: "(int, uuid) dict"

definition rg_init :: registry where
  "rg_init = \<lparr>rg_suid = [], rg_uuid = []\<rparr>"

definition rg_register :: "uuid \<Rightarrow> int \<Rightarrow> registry \<Rightarrow> registry" where
  "rg_register u suid r =
     (let old = dget (rg_uuid r) suid;
          suids = (case old of Some ou \<Rightarrow> if ou \<noteq> u then dpop ou (rg_suid r) else rg_suid r
                             | None \<Rightarrow> rg_suid r)
      in r\<lparr>rg_suid := dset u suid suids, rg_uuid := dset suid u (rg_uuid r)\<rparr>)"

definition rg_claim :: "uuid \<Rightarrow> int \<Rightarrow> registry \<Rightarrow> string \<times> registry" where
  "rg_claim u suid r =
     (case dget (rg_suid r) u of
        None \<Rightarrow> (''ok'', rg_register u suid r)
      | Some holder \<Rightarrow> if holder = suid then (''ok'', r) else (''collision'', r))"

definition rg_forget_uuid :: "uuid \<Rightarrow> registry \<Rightarrow> registry" where
  "rg_forget_uuid u r =
     (case dget (rg_suid r) u of
        None \<Rightarrow> r\<lparr>rg_suid := dpop u (rg_suid r)\<rparr>
      | Some suid \<Rightarrow> r\<lparr>rg_suid := dpop u (rg_suid r), rg_uuid := dpop suid (rg_uuid r)\<rparr>)"

definition rg_uuid_for :: "int \<Rightarrow> registry \<Rightarrow> uuid option" where
  "rg_uuid_for suid r = dget (rg_uuid r) suid"

definition rg_session_uid_for :: "uuid \<Rightarrow> registry \<Rightarrow> int option" where
  "rg_session_uid_for u r = dget (rg_suid r) u"

definition rg_len :: "registry \<Rightarrow> nat" where
  "rg_len r = length (rg_suid r)"

subsection \<open>The two maps stay inverse\<close>

text \<open>The abstract specification: a partial bijection, as the relation of the live stamps.\<close>

definition rg_rel :: "registry \<Rightarrow> (uuid \<times> int) set" where
  "rg_rel r = {(u, s). dget (rg_suid r) u = Some s}"

definition rg_ok :: "registry \<Rightarrow> bool" where
  "rg_ok r \<longleftrightarrow> (\<forall>u s. dget (rg_suid r) u = Some s \<longleftrightarrow> dget (rg_uuid r) s = Some u)"

lemma rg_okD: "rg_ok r \<Longrightarrow> dget (rg_suid r) u = Some s \<longleftrightarrow> dget (rg_uuid r) s = Some u"
  by (simp add: rg_ok_def)

lemma rg_inj: "rg_ok r \<Longrightarrow> dget (rg_uuid r) s = Some u \<Longrightarrow> dget (rg_uuid r) t = Some u \<Longrightarrow> s = t"
  by (metis rg_okD option.inject)

lemma rg_ok_init: "rg_ok rg_init"
  by (simp add: rg_ok_def rg_init_def)

lemma rg_ok_register:
  assumes "rg_ok r" "dget (rg_suid r) u = None"
  shows "rg_ok (rg_register u suid r)"
    and "rg_rel (rg_register u suid r) = insert (u, suid) {(v, s) \<in> rg_rel r. s \<noteq> suid}"
proof -
  have m: "dget (rg_suid (rg_register u suid r)) v
      = (if v = u then Some suid else if dget (rg_uuid r) suid = Some v then None else dget (rg_suid r) v)" for v
    by (auto simp: rg_register_def Let_def split: option.splits)
  have n: "dget (rg_uuid (rg_register u suid r)) s = (if s = suid then Some u else dget (rg_uuid r) s)" for s
    by (auto simp: rg_register_def Let_def split: option.splits)
  have nu: "dget (rg_uuid r) s \<noteq> Some u" for s
    using assms rg_okD [OF assms(1), of u s] by simp
  show "rg_ok (rg_register u suid r)"
    using rg_okD [OF assms(1)] nu by (auto simp: rg_ok_def m n split: if_splits) (metis rg_inj [OF assms(1)])+
  show "rg_rel (rg_register u suid r) = insert (u, suid) {(v, s) \<in> rg_rel r. s \<noteq> suid}"
  proof (intro set_eqI)
    fix x :: "uuid \<times> int"
    obtain v s where x: "x = (v, s)" by fastforce
    note k = rg_okD [OF assms(1), of v suid]
    show "x \<in> rg_rel (rg_register u suid r) \<longleftrightarrow> x \<in> insert (u, suid) {(v, s) \<in> rg_rel r. s \<noteq> suid}"
    proof (cases "v = u")
      case True
      then show ?thesis using assms(2) by (auto simp: x rg_rel_def m)
    next
      case False
      then show ?thesis using k by (cases "dget (rg_uuid r) suid = Some v") (auto simp: x rg_rel_def m)
    qed
  qed
qed

lemma rg_ok_forget:
  assumes "rg_ok r"
  shows "rg_ok (rg_forget_uuid u r)" and "rg_rel (rg_forget_uuid u r) = {(v, s) \<in> rg_rel r. v \<noteq> u}"
proof -
  show "rg_ok (rg_forget_uuid u r)"
  proof (cases "dget (rg_suid r) u")
    case None
    then show ?thesis using rg_okD [OF assms] by (auto simp: rg_forget_uuid_def rg_ok_def) (metis option.distinct(1))
  next
    case (Some s)
    have f: "rg_forget_uuid u r = r\<lparr>rg_suid := dpop u (rg_suid r), rg_uuid := dpop s (rg_uuid r)\<rparr>"
      using Some by (simp add: rg_forget_uuid_def)
    have "dget (rg_uuid r) s = Some u" using Some rg_okD [OF assms] by simp
    then show ?thesis
      unfolding f using rg_okD [OF assms] rg_inj [OF assms] by (auto simp: rg_ok_def)
  qed
  show "rg_rel (rg_forget_uuid u r) = {(v, s) \<in> rg_rel r. v \<noteq> u}"
    by (auto simp: rg_forget_uuid_def rg_rel_def split: option.splits if_splits)
qed

datatype rg_op = Claim uuid int | Forget uuid

fun rg_step :: "rg_op \<Rightarrow> registry \<Rightarrow> registry" where
  "rg_step (Claim u s) r = snd (rg_claim u s r)"
| "rg_step (Forget u) r = rg_forget_uuid u r"

fun rel_step :: "rg_op \<Rightarrow> (uuid \<times> int) set \<Rightarrow> (uuid \<times> int) set" where
  "rel_step (Claim u s) R = (if u \<in> fst ` R then R else insert (u, s) {(v, t) \<in> R. t \<noteq> s})"
| "rel_step (Forget u) R = {(v, t) \<in> R. v \<noteq> u}"

lemma rg_rel_dom: "u \<in> fst ` rg_rel r \<longleftrightarrow> dget (rg_suid r) u \<noteq> None"
  by (force simp: rg_rel_def)

lemma rg_step_ok: "rg_ok r \<Longrightarrow> rg_ok (rg_step op r) \<and> rg_rel (rg_step op r) = rel_step op (rg_rel r)"
proof (cases op)
  case (Claim u s)
  assume "rg_ok r"
  then show ?thesis
    using rg_ok_register [of r u s] rg_rel_dom [of u r]
    by (cases "dget (rg_suid r) u") (auto simp: Claim rg_claim_def)
qed (simp add: rg_ok_forget)

text \<open>Through any sequence of claims and deletions the two maps are inverse of each other and
  hold the relation of the specification: a claim of a free uuid takes over the identity's old
  stamp, a claim of a held uuid changes nothing. A claim is a collision exactly when another
  live datablock holds the uuid.\<close>

theorem registry_refines:
  "(let r = fold rg_step ops rg_init
    in (\<forall>u s. rg_session_uid_for u r = Some s \<longleftrightarrow> rg_uuid_for s r = Some u)
       \<and> rg_rel r = fold rel_step ops {}
       \<and> (fst (rg_claim u s r) = ''collision'' \<longleftrightarrow> (\<exists>t. (u, t) \<in> fold rel_step ops {} \<and> t \<noteq> s)))"
proof -
  have "rg_ok (fold rg_step ops r) \<and> rg_rel (fold rg_step ops r) = fold rel_step ops (rg_rel r)" if "rg_ok r" for r
    using that by (induction ops arbitrary: r) (auto simp: rg_step_ok)
  from this [OF rg_ok_init] have *: "rg_ok (fold rg_step ops rg_init)"
    "rg_rel (fold rg_step ops rg_init) = fold rel_step ops {}"
    by (simp_all add: rg_rel_def rg_init_def)
  moreover have "fst (rg_claim u s r) = ''collision'' \<longleftrightarrow> (\<exists>t. (u, t) \<in> rg_rel r \<and> t \<noteq> s)" for r
    by (auto simp: rg_claim_def rg_rel_def split: option.splits)
  ultimately show ?thesis
    using rg_okD [OF *(1)] by (simp add: Let_def rg_session_uid_for_def rg_uuid_for_def)
qed

subsection \<open>The debouncer\<close>

record debouncer =
  db_window :: time
  db_touched :: "(uuid, time) dict"

definition DEBOUNCE_S :: time where
  "DEBOUNCE_S = 8 / 100"

definition db_init :: "time \<Rightarrow> debouncer" where
  "db_init w = \<lparr>db_window = w, db_touched = []\<rparr>"

definition db_touch :: "uuid \<Rightarrow> time \<Rightarrow> debouncer \<Rightarrow> debouncer" where
  "db_touch u now d = d\<lparr>db_touched := dset u now (db_touched d)\<rparr>"

definition db_ready :: "time \<Rightarrow> debouncer \<Rightarrow> uuid list \<times> debouncer" where
  "db_ready now d =
     (let due = map fst (filter (\<lambda>(u, t). now - t \<ge> db_window d) (db_touched d))
      in (due, d\<lparr>db_touched := fold dpop due (db_touched d)\<rparr>))"

definition db_drop :: "uuid \<Rightarrow> debouncer \<Rightarrow> debouncer" where
  "db_drop u d = d\<lparr>db_touched := dpop u (db_touched d)\<rparr>"

text \<open>\<open>type_key\<close> is None for a datablock type with no property table; the geometry flag is ignored.\<close>

definition classify_update :: "string option \<Rightarrow> bool \<Rightarrow> tier" where
  "classify_update type_key is_geometry = (if type_key = None then T2 else T1)"

definition db_len :: "debouncer \<Rightarrow> nat" where
  "db_len d = length (db_touched d)"

lemma dget_fold_dpop: "dget (fold dpop us d) k = (if k \<in> set us then None else dget d k)"
  by (induction us arbitrary: d) auto

lemma dict_ok_fold_dpop: "dict_ok d \<Longrightarrow> dict_ok (fold dpop us d)"
  by (induction us arbitrary: d) auto

text \<open>Asking which datablocks are ready returns, once each, exactly those left alone for the
  whole window since their last touch, and forgets exactly them: a datablock touched again
  inside the window is held back.\<close>

theorem debounce_ready_exact:
  assumes "dict_ok (db_touched d)"
  shows "(case db_ready now d of (due, d') \<Rightarrow>
      distinct due
      \<and> set due = {u. \<exists>t. dget (db_touched d) u = Some t \<and> db_window d \<le> now - t}
      \<and> (\<forall>u. dget (db_touched d') u = (if u \<in> set due then None else dget (db_touched d) u)))
    \<and> (0 < db_window d \<longrightarrow> u \<notin> set (fst (db_ready now (db_touch u now d))))"
proof -
  have ready: "distinct (fst (db_ready now e))
      \<and> set (fst (db_ready now e)) = {u. \<exists>t. dget (db_touched e) u = Some t \<and> db_window e \<le> now - t}"
    if "dict_ok (db_touched e)" for e
  proof
    have "dict_ok (filter (\<lambda>(u, t). db_window e \<le> now - t) (db_touched e))" using that by simp
    then show "distinct (fst (db_ready now e))" by (simp add: db_ready_def Let_def dict_ok_def)
    have "x \<in> set (fst (db_ready now e)) \<longleftrightarrow> (\<exists>t. (x, t) \<in> set (db_touched e) \<and> db_window e \<le> now - t)" for x
      by (force simp: db_ready_def Let_def)
    then show "set (fst (db_ready now e)) = {u. \<exists>t. dget (db_touched e) u = Some t \<and> db_window e \<le> now - t}"
      by (simp add: dict_ok_in_set [OF that] set_eq_iff)
  qed
  have "dict_ok (db_touched (db_touch u now d))" using assms by (simp add: db_touch_def)
  from ready [OF this] have "0 < db_window d \<longrightarrow> u \<notin> set (fst (db_ready now (db_touch u now d)))"
    by (auto simp: db_touch_def)
  moreover have "dget (db_touched (snd (db_ready now d))) v
      = (if v \<in> set (fst (db_ready now d)) then None else dget (db_touched d) v)" for v
    by (simp add: db_ready_def Let_def dget_fold_dpop)
  ultimately show ?thesis using ready [OF assms] by (simp add: split_beta)
qed

theorem debounce_ready_exact_witness:
  "''a'' \<in> set (fst (db_ready 1 \<lparr>db_window = 1 / 2, db_touched = [(''a'', 1 / 4), (''b'', 3 / 4)]\<rparr>))"
proof -
  let ?d = "\<lparr>db_window = 1 / 2, db_touched = [(''a'', 1 / 4), (''b'', 3 / 4)]\<rparr> :: debouncer"
  have "dict_ok (db_touched ?d)" by simp
  from debounce_ready_exact [OF this, of 1 "''a''"] show ?thesis
    by (simp add: split_beta) (rule exI [of _ "1 / 4"], simp)
qed

end
