(* ===== verification/Fast_Log.thy ===== *)
theory Fast_Log
  imports Prelude
begin

text \<open>
  \<open>ring1/fastlog.py\<close>: the bounded log of what left on the fast lane, from which the host
  re-asserts every datablock named at or after a hole.
\<close>

record fast_log =
  fl_capacity :: nat
  fl_entries :: "(int \<times> uuid \<times> string) list"

definition fl_init :: "nat \<Rightarrow> fast_log" where
  "fl_init capacity = \<lparr>fl_capacity = capacity, fl_entries = []\<rparr>"

text \<open>\<open>deque(maxlen=capacity).append\<close>: the oldest entry falls off.\<close>

definition fl_record :: "int \<Rightarrow> uuid \<Rightarrow> string \<Rightarrow> fast_log \<Rightarrow> fast_log" where
  "fl_record seq u kind l =
     (let es = fl_entries l @ [(seq, u, kind)]
      in l\<lparr>fl_entries := drop (length es - fl_capacity l) es\<rparr>)"

definition fl_oldest_seq :: "fast_log \<Rightarrow> int option" where
  "fl_oldest_seq l = (case fl_entries l of [] \<Rightarrow> None | (s, _) # _ \<Rightarrow> Some s)"

definition fl_newest_seq :: "fast_log \<Rightarrow> int option" where
  "fl_newest_seq l = (if fl_entries l = [] then None else Some (fst (last (fl_entries l))))"

definition fl_covers :: "int option \<Rightarrow> fast_log \<Rightarrow> bool" where
  "fl_covers seq l \<longleftrightarrow> (case (seq, fl_oldest_seq l) of (Some s, Some old) \<Rightarrow> s \<ge> old | _ \<Rightarrow> False)"

fun fl_window_loop :: "int \<Rightarrow> (int \<times> uuid \<times> string) list \<Rightarrow> (uuid, string) dict \<Rightarrow> (uuid, string) dict" where
  "fl_window_loop seq [] acc = acc"
| "fl_window_loop seq ((s, u, kind) # es) acc =
     fl_window_loop seq es (if s \<ge> seq then dset u kind acc else acc)"

definition fl_window_since :: "int \<Rightarrow> fast_log \<Rightarrow> (uuid \<times> string) list" where
  "fl_window_since seq l = fl_window_loop seq (fl_entries l) []"

definition fl_clear :: "fast_log \<Rightarrow> fast_log" where
  "fl_clear l = l\<lparr>fl_entries := []\<rparr>"

definition fl_len :: "fast_log \<Rightarrow> nat" where
  "fl_len l = length (fl_entries l)"

subsection \<open>The bounded log against the whole history\<close>

text \<open>Everything ever recorded, and the last kind a uuid had at or after a number.\<close>

fun last_kind :: "int \<Rightarrow> uuid \<Rightarrow> (int \<times> uuid \<times> string) list \<Rightarrow> string option" where
  "last_kind seq u [] = None"
| "last_kind seq u ((s, v, k) # es) =
     (case last_kind seq u es of Some k' \<Rightarrow> Some k' | None \<Rightarrow> if v = u \<and> s \<ge> seq then Some k else None)"

definition fl_record_all :: "(int \<times> uuid \<times> string) list \<Rightarrow> fast_log \<Rightarrow> fast_log" where
  "fl_record_all es l = fold (\<lambda>(s, u, k). fl_record s u k) es l"

lemma fl_record_all_eq:
  "fl_record_all es (fl_init c) = \<lparr>fl_capacity = c, fl_entries = drop (length es - c) es\<rparr>"
proof (induction es rule: rev_induct)
  case (snoc e es)
  obtain s u k where e: "e = (s, u, k)" by (cases e)
  have "fl_record_all (es @ [e]) (fl_init c) = fl_record s u k (fl_record_all es (fl_init c))"
    by (simp add: fl_record_all_def e)
  moreover have "drop (length es - c) es @ [e] = drop (length es - c) (es @ [e])" by simp
  moreover have "length es - (length es - c) + 1 - c + (length es - c) = length es + 1 - c" by linarith
  ultimately show ?case
    by (simp add: snoc fl_record_def Let_def drop_drop flip: e del: drop_append)
qed (simp add: fl_record_all_def fl_init_def)


lemma dget_fl_window_loop:
  "dget (fl_window_loop seq es acc) u = (case last_kind seq u es of Some k \<Rightarrow> Some k | None \<Rightarrow> dget acc u)"
  by (induction es arbitrary: acc) (auto split: option.splits)

lemma dict_ok_fl_window_loop: "dict_ok acc \<Longrightarrow> dict_ok (fl_window_loop seq es acc)"
  by (induction es arbitrary: acc) auto

lemma last_kind_append:
  "last_kind seq u (es @ fs) = (case last_kind seq u fs of Some k \<Rightarrow> Some k | None \<Rightarrow> last_kind seq u es)"
  by (induction es) (auto split: option.splits)

lemma last_kind_old: "\<forall>e \<in> set es. fst e < seq \<Longrightarrow> last_kind seq u es = None"
  by (induction es) auto

text \<open>C27: When the bounded log still covers a hole, the window it re-asserts is the one the whole
  history of the lane would give: each datablock named at or after the hole, once, with the last
  thing that happened to it.\<close>

theorem fast_window_is_complete:
  assumes "sorted_wrt (<) (map fst es)" and "fl_covers (Some seq) (fl_record_all es (fl_init c))"
  shows "dict_ok (fl_window_since seq (fl_record_all es (fl_init c)))
    \<and> dget (fl_window_since seq (fl_record_all es (fl_init c))) u = last_kind seq u es"
proof -
  let ?n = "length es - c"
  have ne: "drop ?n es \<noteq> []" and old: "fst (hd (drop ?n es)) \<le> seq"
    using assms(2) by (auto simp: fl_covers_def fl_oldest_seq_def fl_record_all_eq split: list.splits)
  have "\<forall>e \<in> set (take ?n es). fst e < seq"
  proof
    fix e assume e: "e \<in> set (take ?n es)"
    have "sorted_wrt (<) (map fst (take ?n es @ drop ?n es))" using assms(1) by simp
    then have "fst e < fst (hd (drop ?n es))"
      using e ne by (auto simp: sorted_wrt_append simp del: append_take_drop_id)
    then show "fst e < seq" using old by simp
  qed
  then have "last_kind seq u (take ?n es @ drop ?n es) = last_kind seq u (drop ?n es)"
    by (simp add: last_kind_append last_kind_old del: append_take_drop_id split: option.split)
  then show ?thesis
    by (simp add: fl_window_since_def fl_record_all_eq dget_fl_window_loop dict_ok_fl_window_loop
        split: option.split)
qed

theorem fast_window_is_complete_witness:
  "dget (fl_window_since 3 (fl_record_all [(1, ''a'', ''t1''), (2, ''b'', ''t1''), (3, ''a'', ''tomb'')] (fl_init 2))) ''a''
     = last_kind 3 ''a'' [(1, ''a'', ''t1''), (2, ''b'', ''t1''), (3, ''a'', ''tomb'')]"
proof -
  let ?es = "[(1::int, ''a'', ''t1''), (2, ''b'', ''t1''), (3, ''a'', ''tomb'')]"
  have "sorted_wrt (<) (map fst ?es)" "fl_covers (Some 3) (fl_record_all ?es (fl_init 2))"
    by (simp_all add: fl_covers_def fl_oldest_seq_def fl_record_all_eq)
  then show ?thesis using fast_window_is_complete by blast
qed

end
