(* ===== verification/Resync.thy ===== *)
theory Resync
  imports Prelude Json
begin

text \<open>
  \<open>ring1/resync.py\<close>: the delta plan, the difference between the host's and the replica's
  inventories, and the order-independent inventory digest (\<open>h\<close> is BLAKE2b of a byte string).
\<close>

definition manifest_bytes :: "(uuid, string) dict \<Rightarrow> byte list" where
  "manifest_bytes held =
     concat (map (\<lambda>u. utf8_encode u @ utf8_encode ''='' @ utf8_encode (the (dget held u)) @ utf8_encode [CHR 0x0A])
                 (sort (dkeys held)))"

definition manifest_digest :: "(byte list \<Rightarrow> string) \<Rightarrow> (uuid, string) dict \<Rightarrow> string" where
  "manifest_digest h held = h (manifest_bytes held)"

record delta_plan =
  dp_tombs :: "uuid list"
  dp_resend :: "uuid list"
  dp_verify :: "uuid list"
  dp_scene_t1 :: bool
  dp_at_state :: "uuid list"

definition dp_init :: delta_plan where
  "dp_init = \<lparr>dp_tombs = [], dp_resend = [], dp_verify = [], dp_scene_t1 = True, dp_at_state = []\<rparr>"

definition dp_empty :: "delta_plan \<Rightarrow> bool" where
  "dp_empty p \<longleftrightarrow> \<not> (dp_tombs p \<noteq> [] \<or> dp_resend p \<noteq> [] \<or> dp_verify p \<noteq> [])"

definition dp_len :: "delta_plan \<Rightarrow> nat" where
  "dp_len p = length (dp_tombs p) + length (dp_resend p) + length (dp_verify p)"

text \<open>\<open>host_hash\<close> maps a uuid to None while it is not primed.\<close>

definition host_digest :: "(uuid, string option) dict \<Rightarrow> uuid \<Rightarrow> string option" where
  "host_digest host_hash u = (case dget host_hash u of Some (Some d) \<Rightarrow> Some d | _ \<Rightarrow> None)"

fun plan_loop :: "(uuid, string option) dict \<Rightarrow> (uuid, string) dict \<Rightarrow> uuid list \<Rightarrow> delta_plan \<Rightarrow> delta_plan" where
  "plan_loop hh held [] p = p"
| "plan_loop hh held (u # us) p =
     plan_loop hh held us
       (case dget held u of
          None \<Rightarrow> p\<lparr>dp_resend := dp_resend p @ [u]\<rparr>
        | Some theirs \<Rightarrow>
            (case host_digest hh u of
               None \<Rightarrow> p\<lparr>dp_verify := dp_verify p @ [u]\<rparr>
             | Some ours \<Rightarrow> if ours \<noteq> theirs then p\<lparr>dp_resend := dp_resend p @ [u]\<rparr> else p))"

definition plan_delta :: "uuid list \<Rightarrow> (uuid, string option) dict \<Rightarrow> (uuid, string) dict
    \<Rightarrow> string \<Rightarrow> string \<Rightarrow> string \<Rightarrow> uuid list \<Rightarrow> delta_plan option" where
  "plan_delta host_alive host_hash replica_held host_scene replica_scene gap_lane at_state_all =
     (if host_scene = [] \<or> replica_scene = [] \<or> host_scene \<noteq> replica_scene then None
      else let p1 = dp_init\<lparr>dp_tombs := sorted_set (filter (\<lambda>u. u \<notin> set host_alive) (dkeys replica_held))\<rparr>;
               p2 = plan_loop host_hash replica_held (sorted_set host_alive) p1
           in Some (p2\<lparr>dp_at_state :=
                if gap_lane = ''cold'' then sorted_set (dp_resend p2 @ dp_verify p2)
                else sorted_set at_state_all\<rparr>))"

subsection \<open>Executing the plan\<close>

text \<open>
  What the two sides hold as maps from uuid to digest: the replica drops the tombstones, applies
  the blobs that are resent, and for a uuid to verify the host hashes it now and sends the blob
  when the hash differs. \<open>truth u\<close> is the digest of the host's datablock now.
\<close>

definition execute_plan :: "(uuid \<Rightarrow> string) \<Rightarrow> delta_plan \<Rightarrow> (uuid, string) dict \<Rightarrow> (uuid, string) dict" where
  "execute_plan truth p held =
     fold (\<lambda>u d. dset u (truth u) d)
       (dp_resend p @ filter (\<lambda>u. dget held u \<noteq> Some (truth u)) (dp_verify p))
       (fold dpop (dp_tombs p) held)"

lemma plan_loop_lists:
  "plan_loop hh held us p = p\<lparr>
     dp_resend := dp_resend p @ filter (\<lambda>u. dget held u = None
       \<or> (\<exists>d. host_digest hh u = Some d \<and> dget held u \<noteq> Some d)) us,
     dp_verify := dp_verify p @ filter (\<lambda>u. dget held u \<noteq> None \<and> host_digest hh u = None) us\<rparr>"
  by (induction us arbitrary: p) (auto split: option.splits)

lemma dget_fold_put: "dget (fold (\<lambda>u d. dset u (f u) d) us d) k = (if k \<in> set us then Some (f k) else dget d k)"
  by (induction us arbitrary: d) auto

lemma dget_fold_dpop_tombs: "dget (fold dpop us d) k = (if k \<in> set us then None else dget d k)"
  by (induction us arbitrary: d) auto

lemma dget_execute:
  "dget (execute_plan truth p held) u =
     (if u \<in> set (dp_resend p) \<or> u \<in> set (dp_verify p) \<and> dget held u \<noteq> Some (truth u) then Some (truth u)
      else if u \<in> set (dp_tombs p) then None else dget held u)"
  by (simp add: execute_plan_def dget_fold_put dget_fold_dpop_tombs)



text \<open>The digest of an inventory depends only on the map it stands for.\<close>

lemma manifest_digest_order:
  assumes "dict_ok a" "dict_ok b" "\<And>u. dget a u = dget b u"
  shows "manifest_digest h a = manifest_digest h b"
proof -
  have "set (dkeys a) = set (dkeys b)"
    using assms(3) by (metis dom_map_of_conv_image_fst set_map ext)
  then have "sort (dkeys a) = sort (dkeys b)"
    using assms(1,2) by (metis dict_ok_def sorted_list_of_set_sort_remdups distinct_remdups_id)
  then show ?thesis using assms(3) by (simp add: manifest_digest_def manifest_bytes_def)
qed

end
