(* ===== verification/Shadow.thy ===== *)
theory Shadow
  imports Json
begin

text \<open>
  \<open>ring1/shadow.py\<close>: the tracked property paths of each datablock type, and the shadow of
  what the peer is believed to hold. A snapshot is a dict from a path to a value; the value type is
  left open, its HOL equality is Python's \<open>==\<close> on the values the snapshots carry.
\<close>

type_synonym 'v snapshot = "(string, 'v) dict"
type_synonym 'v shadow_store = "(uuid, 'v snapshot) dict"

subsection \<open>The tracked paths\<close>

definition TRACKED_OBJECT :: "string list" where
  "TRACKED_OBJECT =
    [''name'', ''location'', ''rotation_euler'', ''rotation_quaternion'', ''rotation_mode'',
     ''scale'', ''delta_location'', ''delta_rotation_euler'', ''delta_scale'', ''color'',
     ''hide_viewport'', ''hide_render'', ''display_type'', ''show_in_front'', ''show_wire'',
     ''show_name'', ''show_axis'', ''visible_camera'', ''visible_diffuse'', ''visible_glossy'',
     ''visible_transmission'', ''visible_volume_scatter'', ''visible_shadow'', ''is_holdout'',
     ''is_shadow_catcher'', ''instance_type'', ''use_instance_vertices_rotation'',
     ''empty_display_type'', ''empty_display_size'', ''empty_image_offset'', ''empty_image_depth'',
     ''field.type'', ''field.strength'', ''field.flow'', ''field.noise'', ''field.seed'',
     ''field.shape'', ''field.falloff_type'', ''field.falloff_power'', ''field.use_max_distance'',
     ''field.distance_max'', ''field.use_min_distance'', ''field.distance_min'',
     ''field.wind_factor'', ''field.inflow'']"

definition TRACKED_LIGHT :: "string list" where
  "TRACKED_LIGHT =
    [''name'', ''type'', ''color'', ''energy'', ''exposure'', ''normalize'', ''shadow_soft_size'',
     ''use_shadow'', ''spot_size'', ''spot_blend'', ''show_cone'', ''shape'', ''size'', ''size_y'',
     ''spread'', ''angle'', ''diffuse_factor'', ''specular_factor'', ''volume_factor'',
     ''transmission_factor'', ''use_custom_distance'', ''cutoff_distance'',
     ''shadow_jitter_overblur'']"

definition TRACKED_CAMERA :: "string list" where
  "TRACKED_CAMERA =
    [''name'', ''type'', ''lens'', ''lens_unit'', ''ortho_scale'', ''clip_start'', ''clip_end'',
     ''sensor_width'', ''sensor_height'', ''sensor_fit'', ''shift_x'', ''shift_y'',
     ''dof.use_dof'', ''dof.focus_distance'', ''dof.aperture_fstop'', ''dof.aperture_blades'',
     ''dof.aperture_rotation'', ''dof.aperture_ratio'', ''show_passepartout'',
     ''passepartout_alpha'', ''show_background_images'', ''display_size'']"

definition TRACKED_SCENE :: "string list" where
  "TRACKED_SCENE =
    [''name'', ''frame_start'', ''frame_end'', ''frame_step'', ''render.fps'', ''render.fps_base'',
     ''render.engine'', ''render.resolution_x'', ''render.resolution_y'',
     ''render.resolution_percentage'', ''render.pixel_aspect_x'', ''render.pixel_aspect_y'',
     ''render.film_transparent'', ''render.use_motion_blur'', ''render.motion_blur_shutter'',
     ''render.use_border'', ''render.use_crop_to_border'', ''render.border_min_x'',
     ''render.border_max_x'', ''render.border_min_y'', ''render.border_max_y'',
     ''render.filter_size'', ''render.use_simplify'', ''render.simplify_subdivision'',
     ''view_settings.view_transform'', ''view_settings.look'', ''view_settings.exposure'',
     ''view_settings.gamma'', ''display_settings.display_device'', ''display_settings.emulation'',
     ''view_settings.use_curve_mapping'', ''view_settings.use_white_balance'',
     ''view_settings.white_balance_temperature'', ''view_settings.white_balance_tint'',
     ''view_settings.use_hdr_view'', ''unit_settings.system'', ''unit_settings.scale_length'',
     ''unit_settings.length_unit'', ''unit_settings.system_rotation'', ''gravity'',
     ''use_gravity'', ''cycles.use_preview_denoising'', ''cycles.preview_samples'',
     ''cycles.samples'', ''cycles.use_denoising'', ''cycles.use_adaptive_sampling'',
     ''cycles.adaptive_threshold'', ''cycles.time_limit'', ''cycles.max_bounces'',
     ''cycles.film_exposure'', ''eevee.taa_samples'', ''eevee.taa_render_samples'',
     ''eevee.use_shadows'', ''eevee.use_raytracing'', ''eevee.use_volumetric_shadows'',
     ''rigidbody_world.enabled'', ''rigidbody_world.time_scale'',
     ''rigidbody_world.substeps_per_frame'', ''rigidbody_world.solver_iterations'',
     ''rigidbody_world.use_split_impulse'']"

definition TRACKED_MATERIAL :: "string list" where
  "TRACKED_MATERIAL =
    [''name'', ''blend_method'', ''surface_render_method'', ''use_backface_culling'',
     ''use_backface_culling_shadow'', ''use_transparent_shadow'', ''displacement_method'',
     ''diffuse_color'', ''metallic'', ''roughness'', ''specular_intensity'', ''pass_index'',
     ''use_nodes'']"

definition TRACKED_WORLD :: "string list" where
  "TRACKED_WORLD =
    [''name'', ''use_nodes'', ''color'']"

definition TRACKED_COLLECTION :: "string list" where
  "TRACKED_COLLECTION =
    [''name'', ''hide_viewport'', ''hide_render'', ''hide_select'', ''instance_offset'',
     ''color_tag'']"

definition TRACKED_KEY :: "string list" where
  "TRACKED_KEY =
    [''name'']"

definition TRACKED :: "(string, string list) dict" where
  "TRACKED = [(''OBJECT'', TRACKED_OBJECT), (''LIGHT'', TRACKED_LIGHT), (''CAMERA'', TRACKED_CAMERA), 
     (''SCENE'', TRACKED_SCENE), (''MATERIAL'', TRACKED_MATERIAL), (''WORLD'', TRACKED_WORLD), 
     (''COLLECTION'', TRACKED_COLLECTION), (''KEY'', TRACKED_KEY)]"

subsection \<open>The store\<close>

record 'v shadow_diff =
  sd_changes :: "(string \<times> 'v) list"
  sd_structural :: bool

definition tilde :: "string \<Rightarrow> bool" where
  "tilde path \<longleftrightarrow> take 1 path = ''~''"

definition sh_init :: "'v shadow_store" where
  "sh_init = []"

definition snapshot_diff :: "'v snapshot \<Rightarrow> 'v snapshot \<Rightarrow> 'v shadow_diff" where
  "snapshot_diff shadow snapshot =
     (let changes = filter (\<lambda>(path, v). dget shadow path \<noteq> Some v) snapshot;
          structural = (set (dkeys shadow) \<noteq> set (dkeys snapshot) \<or> list_ex (\<lambda>(path, _). tilde path) changes)
      in \<lparr>sd_changes = filter (\<lambda>(path, _). \<not> tilde path) changes, sd_structural = structural\<rparr>)"

definition sh_diff_and_update :: "uuid \<Rightarrow> 'v snapshot \<Rightarrow> 'v shadow_store \<Rightarrow> 'v shadow_diff option \<times> 'v shadow_store" where
  "sh_diff_and_update u snapshot s =
     (case dget s u of
        None \<Rightarrow> (None, dset u snapshot s)
      | Some shadow \<Rightarrow> (Some (snapshot_diff shadow snapshot), dset u snapshot s))"

definition sh_forget :: "uuid \<Rightarrow> 'v shadow_store \<Rightarrow> 'v shadow_store" where
  "sh_forget u s = dpop u s"

definition sh_get :: "uuid \<Rightarrow> 'v shadow_store \<Rightarrow> 'v snapshot option" where
  "sh_get u s = dget s u"

definition sh_restore :: "uuid \<Rightarrow> 'v snapshot option \<Rightarrow> 'v shadow_store \<Rightarrow> 'v shadow_store" where
  "sh_restore u old s = (case old of None \<Rightarrow> dpop u s | Some o' \<Rightarrow> dset u o' s)"

definition sh_known :: "uuid \<Rightarrow> 'v shadow_store \<Rightarrow> bool" where
  "sh_known u s \<longleftrightarrow> dget s u \<noteq> None"

definition sh_len :: "'v shadow_store \<Rightarrow> nat" where
  "sh_len s = length s"

lemma tracked_paths_plain: "list_all (\<lambda>(_, ps). distinct ps \<and> list_all (\<lambda>p. \<not> tilde p \<and> take 1 p \<noteq> ''@'') ps) TRACKED"
  by code_simp

subsection \<open>The diff is sound and complete\<close>

definition apply_changes :: "(string \<times> 'v) list \<Rightarrow> 'v snapshot \<Rightarrow> 'v snapshot" where
  "apply_changes cs p = fold (\<lambda>(path, v). dset path v) cs p"

definition agree :: "'v snapshot \<Rightarrow> 'v snapshot \<Rightarrow> bool" where
  "agree p q \<longleftrightarrow> (\<forall>path. \<not> tilde path \<longrightarrow> dget p path = dget q path)"

lemma dget_apply_changes:
  "distinct (map fst cs) \<Longrightarrow> dget (apply_changes cs p) k = (case map_of cs k of Some v \<Rightarrow> Some v | None \<Rightarrow> dget p k)"
  unfolding apply_changes_def by (induction cs arbitrary: p) (auto split: option.splits simp flip: not_in_keys_iff)

lemma map_of_filter_pairs:
  "distinct (map fst d) \<Longrightarrow> map_of (filter P d) k = (case map_of d k of None \<Rightarrow> None | Some v \<Rightarrow> if P (k, v) then Some v else None)"
proof (induction d)
  case (Cons x d)
  obtain j v where "x = (j, v)" by fastforce
  moreover have "map_of d j = None" if "j \<notin> fst ` set d" using that by (simp add: not_in_keys_iff)
  ultimately show ?case using Cons by (auto split: option.splits)
qed simp

lemma dget_diff_changes:
  assumes "dict_ok snap"
  shows "map_of (sd_changes (snapshot_diff sh snap)) k
     = (case dget snap k of Some v \<Rightarrow> if dget sh k \<noteq> Some v \<and> \<not> tilde k then Some v else None | None \<Rightarrow> None)"
    and "distinct (map fst (sd_changes (snapshot_diff sh snap)))"
proof -
  have d: "distinct (map fst snap)" using assms by (simp add: dict_ok_def)
  have e: "sd_changes (snapshot_diff sh snap) = filter (\<lambda>(k, v). dget sh k \<noteq> Some v \<and> \<not> tilde k) snap"
    by (auto simp: snapshot_diff_def Let_def intro: filter_cong)
  show "map_of (sd_changes (snapshot_diff sh snap)) k
     = (case dget snap k of Some v \<Rightarrow> if dget sh k \<noteq> Some v \<and> \<not> tilde k then Some v else None | None \<Rightarrow> None)"
    unfolding e map_of_filter_pairs [OF d] by (simp split: option.split)
  show "distinct (map fst (sd_changes (snapshot_diff sh snap)))"
    unfolding e using dict_ok_filter [OF assms] by (simp add: dict_ok_def)
qed

lemma diff_agree:
  assumes "dict_ok snap" "\<not> sd_structural (snapshot_diff sh snap)" "agree peer sh"
  shows "agree (apply_changes (sd_changes (snapshot_diff sh snap)) peer) snap"
  unfolding agree_def
proof (intro allI impI)
  fix path assume t: "\<not> tilde path"
  have keys: "fst ` set sh = fst ` set snap" using assms(2) by (auto simp: snapshot_diff_def Let_def)
  show "dget (apply_changes (sd_changes (snapshot_diff sh snap)) peer) path = dget snap path"
  proof (cases "dget snap path")
    case None
    then have "dget sh path = None" using keys by (simp add: not_in_keys_iff)
    then show ?thesis
      using None assms(3) t by (simp add: dget_apply_changes dget_diff_changes [OF assms(1)] agree_def)
  next
    case (Some v)
    then show ?thesis
      using assms(3) t by (auto simp: dget_apply_changes dget_diff_changes [OF assms(1)] agree_def)
  qed
qed

text \<open>
  A flush of one datablock: diff against the shadow; a structural change resends the whole
  datablock, otherwise the changes are sent. A refused send restores the shadow. The peer holds
  what it was sent.
\<close>

definition flush_one :: "uuid \<Rightarrow> 'v snapshot \<times> bool \<Rightarrow> 'v shadow_store \<times> 'v snapshot \<Rightarrow> 'v shadow_store \<times> 'v snapshot" where
  "flush_one u t sp =
     (let (snap, sent) = t; (s, peer) = sp; old = sh_get u s; (d, s1) = sh_diff_and_update u snap s
      in if \<not> sent then (sh_restore u old s1, peer)
         else case d of None \<Rightarrow> (s1, snap)
              | Some d \<Rightarrow> if sd_structural d then (s1, snap) else (s1, apply_changes (sd_changes d) peer))"

lemma flush_one_inv:
  assumes "dict_ok (fst t)" "dget s u = Some sh" "agree peer sh" "flush_one u t (s, peer) = (s', peer')"
  shows "\<exists>sh'. dget s' u = Some sh' \<and> agree peer' sh' \<and> sh' = (if snd t then fst t else sh)"
proof (cases "snd t")
  case True
  then show ?thesis
    using assms diff_agree [OF assms(1) _ assms(3)]
    by (cases t; cases "sd_structural (snapshot_diff sh (fst t))")
      (auto simp: flush_one_def sh_diff_and_update_def agree_def)
next
  case False
  then show ?thesis
    using assms by (cases t) (auto simp: flush_one_def sh_diff_and_update_def sh_restore_def sh_get_def)
qed



end
