(* ===== verification/Visview.thy ===== *)
theory Visview
  imports Protocol
begin

text \<open>
  \<open>ring1/visview.py\<close>: what one viewport shows (Local View and per-viewport collections), its
  wire form, and the operator calls that take one viewport state to another. Uuids are strings; a
  tuple of them is a sorted list without duplicates.
\<close>

definition VIS_KEY :: "byte list" where
  "VIS_KEY = utf8_encode ''vis''"

record vis_sig =
  vs_local :: "uuid list"
  vs_local_colls :: bool
  vs_hidden_lc :: "uuid list"

definition vis_make :: "uuid list \<Rightarrow> bool \<Rightarrow> uuid list \<Rightarrow> vis_sig" where
  "vis_make loc colls hidden = \<lparr>vs_local = sorted_set loc, vs_local_colls = colls, vs_hidden_lc = sorted_set hidden\<rparr>"

definition vis_encode :: "vis_sig \<Rightarrow> byte list" where
  "vis_encode sig = utf8_encode (dumps (JObj
     [(''l'', JList (map JStr (vs_local sig))), (''c'', JBool (vs_local_colls sig)),
      (''h'', JList (map JStr (vs_hidden_lc sig)))]))"

definition str_of :: "json \<Rightarrow> string option" where
  "str_of v = (case v of JStr s \<Rightarrow> Some s | _ \<Rightarrow> None)"

text \<open>\<open>d.get(k) or ()\<close> as the elements it iterates; a value that does not iterate over strings is
  a TypeError, which \<open>decode\<close> turns into None.\<close>

definition iter_strings :: "json option \<Rightarrow> uuid list option" where
  "iter_strings v =
     (case v of None \<Rightarrow> Some []
      | Some w \<Rightarrow> if \<not> json_true w then Some []
                 else (case w of
                         JList xs \<Rightarrow> if list_all (\<lambda>x. str_of x \<noteq> None) xs then Some (map (the \<circ> str_of) xs) else None
                       | JStr s \<Rightarrow> Some (map (\<lambda>c. [c]) s)
                       | JObj kvs \<Rightarrow> Some (dkeys kvs)
                       | _ \<Rightarrow> None))"

definition vis_decode :: "byte list option \<Rightarrow> vis_sig option" where
  "vis_decode data =
     (case data of None \<Rightarrow> None
      | Some bs \<Rightarrow> if bs = [] then None
                  else (case decode_control bs of None \<Rightarrow> None
      | Some d \<Rightarrow> (case (iter_strings (dget d ''l''), iter_strings (dget d ''h'')) of
                    (Some l, Some h) \<Rightarrow> Some (vis_make l (case dget d ''c'' of None \<Rightarrow> False | Some v \<Rightarrow> json_true v) h)
                  | _ \<Rightarrow> None)))"

record vis_plan =
  vp_exit :: bool
  vp_enter_with :: "uuid list"
  vp_add :: "uuid list"
  vp_remove :: "uuid list"
  vp_set_local_colls :: "bool option"
  vp_lc_hide :: "uuid list"
  vp_lc_show :: "uuid list"

definition vp_empty :: "vis_plan \<Rightarrow> bool" where
  "vp_empty p \<longleftrightarrow> \<not> (vp_exit p \<or> vp_enter_with p \<noteq> [] \<or> vp_add p \<noteq> [] \<or> vp_remove p \<noteq> []
     \<or> vp_set_local_colls p \<noteq> None \<or> vp_lc_hide p \<noteq> [] \<or> vp_lc_show p \<noteq> [])"

definition set_minus :: "uuid list \<Rightarrow> uuid list \<Rightarrow> uuid list" where
  "set_minus xs ys = sorted_set (filter (\<lambda>x. x \<notin> set ys) xs)"

definition vis_plan_of :: "vis_sig \<Rightarrow> vis_sig \<Rightarrow> vis_plan" where
  "vis_plan_of shown want =
     (let both = vs_local want \<noteq> [] \<and> vs_local shown \<noteq> []
      in \<lparr>vp_exit = (vs_local shown \<noteq> [] \<and> vs_local want = []),
          vp_enter_with = (if vs_local want \<noteq> [] \<and> vs_local shown = [] then vs_local want else []),
          vp_add = (if both then set_minus (vs_local want) (vs_local shown) else []),
          vp_remove = (if both then set_minus (vs_local shown) (vs_local want) else []),
          vp_set_local_colls = (if vs_local_colls shown = vs_local_colls want then None else Some (vs_local_colls want)),
          vp_lc_hide = (if vs_local_colls want then set_minus (vs_hidden_lc want) (vs_hidden_lc shown) else []),
          vp_lc_show = (if vs_local_colls want then set_minus (vs_hidden_lc shown) (vs_hidden_lc want)
                        else if vs_local_colls shown then sort (vs_hidden_lc shown) else [])\<rparr>)"

subsection \<open>The wire form\<close>

definition vis_normal :: "vis_sig \<Rightarrow> bool" where
  "vis_normal s \<longleftrightarrow> sorted (vs_local s) \<and> distinct (vs_local s) \<and> sorted (vs_hidden_lc s) \<and> distinct (vs_hidden_lc s)"

lemma vis_make_normal: "vis_normal (vis_make l c h)"
  by (simp add: vis_normal_def vis_make_def)

lemma iter_strings_map: "iter_strings (Some (JList (map JStr xs))) = Some xs"
  by (simp add: iter_strings_def json_true_def str_of_def list_all_iff comp_def)

lemma vis_decode_encode: "vis_normal s \<Longrightarrow> vis_decode (Some (vis_encode s)) = Some s"
proof -
  assume n: "vis_normal s"
  let ?h = "[(''l'', JList (map JStr (vs_local s))), (''c'', JBool (vs_local_colls s)),
      (''h'', JList (map JStr (vs_hidden_lc s)))]"
  have "decode_control (vis_encode s) = Some ?h"
    unfolding vis_encode_def encode_control_def [symmetric] by (rule decode_encode_control) auto
  moreover have "vis_encode s \<noteq> []"
    by (simp add: vis_encode_def utf8_encode_def utf8_char_def)
  ultimately show ?thesis
    using n by (simp add: vis_decode_def iter_strings_map vis_make_def vis_normal_def sorted_set_id json_true_def)
qed

subsection \<open>Executing a plan\<close>

text \<open>What the operator calls do to a viewport: its Local View set, the flag and the hidden set.\<close>

definition vis_execute :: "vis_plan \<Rightarrow> vis_sig \<Rightarrow> uuid set \<times> bool \<times> uuid set" where
  "vis_execute p s =
     (let l1 = (if vp_exit p then {} else set (vs_local s));
          l2 = (if vp_enter_with p \<noteq> [] then set (vp_enter_with p) else l1);
          l3 = (l2 \<union> set (vp_add p)) - set (vp_remove p);
          c = (case vp_set_local_colls p of None \<Rightarrow> vs_local_colls s | Some b \<Rightarrow> b);
          h = (set (vs_hidden_lc s) \<union> set (vp_lc_hide p)) - set (vp_lc_show p)
      in (l3, c, h))"

text \<open>Executing the plan computed from what a replica shows to what the host shows makes the
  viewport show exactly that; collections hidden in the viewport only matter while the host isolates
  collections, and none stays hidden when it stops. The plan is empty exactly when nothing differs.\<close>

theorem vis_plan_reaches_target:
  "(case vis_execute (vis_plan_of shown want) shown of (l, c, h) \<Rightarrow>
      l = set (vs_local want) \<and> c = vs_local_colls want
      \<and> h = (if vs_local_colls want then set (vs_hidden_lc want)
             else if vs_local_colls shown then {} else set (vs_hidden_lc shown)))
   \<and> (vp_empty (vis_plan_of shown want) \<longleftrightarrow>
        set (vs_local shown) = set (vs_local want) \<and> vs_local_colls shown = vs_local_colls want
        \<and> (if vs_local_colls want then set (vs_hidden_lc shown) = set (vs_hidden_lc want) else True))"
proof
  have sm: "set (set_minus a b) = set a - set b" "set_minus a b = [] \<longleftrightarrow> set a \<subseteq> set b" for a b
    by (auto simp: set_minus_def filter_empty_conv)
  show "case vis_execute (vis_plan_of shown want) shown of (l, c, h) \<Rightarrow>
      l = set (vs_local want) \<and> c = vs_local_colls want
      \<and> h = (if vs_local_colls want then set (vs_hidden_lc want)
             else if vs_local_colls shown then {} else set (vs_hidden_lc shown))"
    by (auto simp: vis_execute_def vis_plan_of_def Let_def sm)
  show "vp_empty (vis_plan_of shown want) \<longleftrightarrow>
        set (vs_local shown) = set (vs_local want) \<and> vs_local_colls shown = vs_local_colls want
        \<and> (if vs_local_colls want then set (vs_hidden_lc shown) = set (vs_hidden_lc want) else True)"
    by (cases "vs_local shown = []"; cases "vs_local want = []")
      (auto simp: vp_empty_def vis_plan_of_def Let_def sm)
qed

end
