(* ===== verification/Ring_Layout.thy ===== *)
theory Ring_Layout
  imports Probe Json
begin

text \<open>
  \<open>ring1/ring_layout.py\<close>: the shared-memory block Blender writes and the encode helper reads:
  a header page, then slots of a descriptor page and a page-aligned pixel region. A struct of
  unsigned fields is a list of (bytes, value); a double is its bit pattern.
\<close>

definition RING_MAGIC :: "byte list" where "RING_MAGIC = map of_char ''QCBF''"
definition RING_VERSION :: int where "RING_VERSION = 1"
definition PAGE :: nat where "PAGE = 4096"
definition ROW_ALIGN :: nat where "ROW_ALIGN = 256"
definition DEFAULT_SLOTS :: nat where "DEFAULT_SLOTS = 3"
definition NAME_MAX :: nat where "NAME_MAX = 30"
definition PF_RGBA32F :: int where "PF_RGBA32F = 4"
definition F_PROBE_STAMPED :: int where "F_PROBE_STAMPED = 2"
definition STATE_LIVE :: int where "STATE_LIVE = 0"
definition STATE_RETIRED :: int where "STATE_RETIRED = 1"

subsection \<open>Struct fields\<close>

fun pack_fields :: "(nat \<times> int) list \<Rightarrow> py_error + byte list" where
  "pack_fields [] = Inr []"
| "pack_fields ((n, x) # fs) =
     (case pack_uint n x of Inl e \<Rightarrow> Inl e
      | Inr b \<Rightarrow> (case pack_fields fs of Inl e \<Rightarrow> Inl e | Inr bs \<Rightarrow> Inr (b @ bs)))"

fun unpack_fields :: "nat list \<Rightarrow> byte list \<Rightarrow> int list" where
  "unpack_fields [] bs = []"
| "unpack_fields (n # ns) bs = unpack_uint (take n bs) # unpack_fields ns (drop n bs)"

lemma unpack_pack_fields:
  "pack_fields fs = Inr bs \<Longrightarrow> unpack_fields (map fst fs) (bs @ r) = map snd fs \<and> length bs = sum_list (map fst fs)"
proof (induction fs arbitrary: bs)
  case (Cons f fs)
  obtain n x where f: "f = (n, x)" by fastforce
  obtain b cs where b: "pack_uint n x = Inr b" "pack_fields fs = Inr cs" "bs = b @ cs"
    using Cons.prems by (auto simp: f split: sum.splits)
  with Cons.IH [OF b(2)] unpack_pack_uint [OF b(1)] show ?case by (simp add: f)
qed simp

subsection \<open>Geometry\<close>

definition HEADER_FIELDS :: "nat list" where "HEADER_FIELDS = [4, 4, 4, 8, 8, 8, 8, 8, 8, 4, 8]"
definition HEADER_SIZE :: nat where "HEADER_SIZE = 4 + sum_list HEADER_FIELDS"
definition LATEST_OFFSET :: nat where "LATEST_OFFSET = 4 + sum_list (take 7 HEADER_FIELDS)"
definition READER_CLAIM_OFFSET :: nat where "READER_CLAIM_OFFSET = LATEST_OFFSET + 8"
definition STATE_OFFSET :: nat where "STATE_OFFSET = READER_CLAIM_OFFSET + 8"
definition DESC_FIELDS :: "nat list" where "DESC_FIELDS = [8, 4, 4, 4, 4, 4, 4, 4, 8, 8, 8, 8, 4, 8]"
definition DESC_SIZE :: nat where "DESC_SIZE = sum_list DESC_FIELDS"

definition round_up :: "nat \<Rightarrow> nat \<Rightarrow> nat" where
  "round_up n to = (n + to - 1) div to * to"

definition bytes_per_row :: "nat \<Rightarrow> nat \<Rightarrow> nat" where
  "bytes_per_row width bpp = round_up (width * bpp) ROW_ALIGN"

definition capacity_for :: "nat \<Rightarrow> nat \<Rightarrow> nat \<Rightarrow> nat" where
  "capacity_for width height bpp = round_up (bytes_per_row width bpp * height) PAGE"

definition height_cap :: "nat \<Rightarrow> nat" where
  "height_cap width = round_up (width * 3 div 4) 2"

record layout =
  ly_slot_count :: nat
  ly_pixels_capacity :: nat
  ly_slot_stride :: nat

definition ly_pixels_offset :: "layout \<Rightarrow> nat" where
  "ly_pixels_offset l = PAGE"

definition ly_total_size :: "layout \<Rightarrow> nat" where
  "ly_total_size l = PAGE + ly_slot_count l * ly_slot_stride l"

definition ly_slot_offset :: "layout \<Rightarrow> nat \<Rightarrow> nat" where
  "ly_slot_offset l slot = PAGE + slot * ly_slot_stride l"

definition ly_pixels_at :: "layout \<Rightarrow> nat \<Rightarrow> nat" where
  "ly_pixels_at l slot = ly_slot_offset l slot + ly_pixels_offset l"

definition ly_fits :: "layout \<Rightarrow> nat \<Rightarrow> nat \<Rightarrow> nat \<Rightarrow> bool" where
  "ly_fits l width height bpp \<longleftrightarrow> bytes_per_row width bpp * height \<le> ly_pixels_capacity l"

definition layout_for :: "nat \<Rightarrow> nat option \<Rightarrow> nat \<Rightarrow> layout" where
  "layout_for width height slots =
     (let cap = capacity_for width (case height of Some h \<Rightarrow> h | None \<Rightarrow> height_cap width) 16
      in \<lparr>ly_slot_count = slots, ly_pixels_capacity = cap, ly_slot_stride = PAGE + cap\<rparr>)"

definition ring_name :: "nat \<Rightarrow> nat \<Rightarrow> py_error + string" where
  "ring_name pid gen =
     (let name = ''qcb-'' @ nat_text pid @ ''-'' @ nat_text gen
      in if length name \<le> NAME_MAX then Inr name else Inl AssertionError)"

subsection \<open>Header and descriptor\<close>

definition pack_header :: "layout \<Rightarrow> int \<Rightarrow> f64 \<Rightarrow> py_error + byte list" where
  "pack_header l pid t_created =
     (case pack_fields [(4, RING_VERSION), (4, int (ly_slot_count l)), (4, pid), (8, int (ly_slot_stride l)),
         (8, int (ly_pixels_offset l)), (8, int (ly_pixels_capacity l)), (8, int (ly_total_size l)),
         (8, 0), (8, 0), (4, STATE_LIVE), (8, uint t_created)] of
        Inl e \<Rightarrow> Inl e | Inr bs \<Rightarrow> Inr (RING_MAGIC @ bs))"

record ring_header =
  rh_magic :: "byte list"
  rh_version :: int
  rh_slot_count :: int
  rh_producer_pid :: int
  rh_slot_stride :: int
  rh_pixels_offset :: int
  rh_pixels_capacity :: int
  rh_total_size :: int
  rh_latest :: int
  rh_reader_claim :: int
  rh_state :: int
  rh_t_created :: f64

definition unpack_header :: "byte list \<Rightarrow> py_error + ring_header" where
  "unpack_header buf =
     (if length buf < HEADER_SIZE then Inl StructError
      else let v = unpack_fields HEADER_FIELDS (drop 4 buf)
           in Inr \<lparr>rh_magic = take 4 buf, rh_version = v ! 0, rh_slot_count = v ! 1, rh_producer_pid = v ! 2,
                  rh_slot_stride = v ! 3, rh_pixels_offset = v ! 4, rh_pixels_capacity = v ! 5,
                  rh_total_size = v ! 6, rh_latest = v ! 7, rh_reader_claim = v ! 8, rh_state = v ! 9,
                  rh_t_created = word_of_int (v ! 10)\<rparr>)"

definition pack_latest :: "int \<Rightarrow> int \<Rightarrow> int" where
  "pack_latest seq slot = push_bit 8 seq OR (slot AND 0xFF)"

definition unpack_latest :: "int \<Rightarrow> int \<times> int" where
  "unpack_latest latest = (drop_bit 8 latest, latest AND 0xFF)"

record desc =
  de_seqlock :: int
  de_w :: int
  de_h :: int
  de_bytes_per_row :: int
  de_pixel_format :: int
  de_flags :: int
  de_frame_number :: int
  de_t_read_start :: f64
  de_t_read_end :: f64
  de_t_publish :: f64
  de_frame_seq :: int
  de_probe_seq :: int
  de_probe_t_host :: f64

definition pack_desc :: "desc \<Rightarrow> py_error + byte list" where
  "pack_desc d = pack_fields
     [(8, de_seqlock d), (4, de_w d), (4, de_h d), (4, de_bytes_per_row d), (4, de_pixel_format d),
      (4, de_flags d), (4, de_frame_number d), (4, 0), (8, uint (de_t_read_start d)),
      (8, uint (de_t_read_end d)), (8, uint (de_t_publish d)), (8, de_frame_seq d),
      (4, de_probe_seq d), (8, uint (de_probe_t_host d))]"

definition unpack_desc :: "byte list \<Rightarrow> nat \<Rightarrow> py_error + desc" where
  "unpack_desc buf off =
     (if length buf < off + DESC_SIZE then Inl StructError
      else let v = unpack_fields DESC_FIELDS (drop off buf)
           in Inr \<lparr>de_seqlock = v ! 0, de_w = v ! 1, de_h = v ! 2, de_bytes_per_row = v ! 3,
                  de_pixel_format = v ! 4, de_flags = v ! 5, de_frame_number = v ! 6,
                  de_t_read_start = word_of_int (v ! 8), de_t_read_end = word_of_int (v ! 9),
                  de_t_publish = word_of_int (v ! 10), de_frame_seq = v ! 11, de_probe_seq = v ! 12,
                  de_probe_t_host = word_of_int (v ! 13)\<rparr>)"

text \<open>\<open>last_slot\<close> is -1 before the first frame.\<close>

definition next_slot :: "int \<Rightarrow> int \<Rightarrow> int \<Rightarrow> int" where
  "next_slot last_slot reader_claim slot_count =
     (let held = (if reader_claim \<noteq> 0 then Some (reader_claim - 1) else None);
          slot = (last_slot + 1) mod slot_count
      in if Some slot = held then (slot + 1) mod slot_count else slot)"

subsection \<open>The layout is sound\<close>

lemma round_up_ge: "0 < to \<Longrightarrow> n \<le> round_up n to \<and> to dvd round_up n to \<and> round_up n to < n + to"
proof -
  assume to: "0 < to"
  let ?m = "n + to - 1"
  have m: "?m = ?m div to * to + ?m mod to" by simp
  have "?m mod to < to" using to by simp
  then have "n \<le> ?m div to * to" using m to by linarith
  moreover have "?m div to * to \<le> ?m" by simp
  moreover have "?m < n + to" using to by simp
  ultimately show ?thesis unfolding round_up_def by (meson dvd_triv_right le_less_trans)
qed

lemma round_up_mono: "0 < to \<Longrightarrow> m \<le> n \<Longrightarrow> round_up m to \<le> round_up n to"
  by (simp add: round_up_def div_le_mono mult_le_mono1)

text \<open>A layout sized for a width (and height) puts every slot, descriptor page and pixels, at
  page-aligned offsets inside the block, after the header page and apart from every other slot,
  and each slot has room for a frame of that size, rows padded, and for every smaller one.\<close>

theorem layout_sound:
  "let l = layout_for width height slots; hgt = (case height of Some h \<Rightarrow> h | None \<Rightarrow> height_cap width)
   in (i < slots \<longrightarrow>
        HEADER_SIZE \<le> ly_slot_offset l i \<and> PAGE dvd ly_slot_offset l i \<and> PAGE dvd ly_pixels_at l i
        \<and> DESC_SIZE \<le> ly_pixels_offset l
        \<and> ly_pixels_at l i + ly_pixels_capacity l = ly_slot_offset l i + ly_slot_stride l
        \<and> ly_slot_offset l i + ly_slot_stride l \<le> ly_total_size l
        \<and> (i < j \<longrightarrow> ly_slot_offset l i + ly_slot_stride l \<le> ly_slot_offset l j))
      \<and> (w \<le> width \<and> h \<le> hgt \<longrightarrow> ly_fits l w h 16 \<and> ROW_ALIGN dvd bytes_per_row w 16 \<and> w * 16 \<le> bytes_per_row w 16)"
proof -
  define hgt where "hgt = (case height of Some h \<Rightarrow> h | None \<Rightarrow> height_cap width)"
  define cap where "cap = capacity_for width hgt 16"
  have l: "layout_for width height slots = \<lparr>ly_slot_count = slots, ly_pixels_capacity = cap, ly_slot_stride = PAGE + cap\<rparr>"
    by (simp add: layout_for_def cap_def hgt_def Let_def)
  have pos: "0 < PAGE" "0 < ROW_ALIGN" by (simp_all add: PAGE_def ROW_ALIGN_def)
  have cd: "PAGE dvd cap" using round_up_ge [OF pos(1)] by (simp add: cap_def capacity_for_def)
  have "(i + 1) * (PAGE + cap) \<le> k * (PAGE + cap)" if "i < k" for k
    using that by (intro mult_le_mono1) simp
  then have le: "PAGE + i * (PAGE + cap) + (PAGE + cap) \<le> PAGE + k * (PAGE + cap)" if "i < k" for k
    using that by fastforce
  have fit: "bytes_per_row w 16 * h \<le> cap" if "w \<le> width" "h \<le> hgt"
  proof -
    have "bytes_per_row w 16 \<le> bytes_per_row width 16"
      unfolding bytes_per_row_def by (rule round_up_mono [OF pos(2)]) (use that in simp)
    then have "bytes_per_row w 16 * h \<le> bytes_per_row width 16 * hgt" using that by (intro mult_le_mono)
    also have "\<dots> \<le> cap" using round_up_ge [OF pos(1)] by (simp add: cap_def capacity_for_def)
    finally show ?thesis .
  qed
  have sz: "HEADER_SIZE \<le> PAGE" "DESC_SIZE \<le> PAGE"
    by (simp_all add: HEADER_SIZE_def HEADER_FIELDS_def DESC_SIZE_def DESC_FIELDS_def PAGE_def)
  have al: "PAGE dvd PAGE + k * (PAGE + cap)" for k using cd by simp
  show ?thesis
    using sz al cd le fit round_up_ge [OF pos(2)]
    unfolding Let_def l hgt_def [symmetric]
    by (auto simp: ly_slot_offset_def ly_pixels_at_def ly_pixels_offset_def ly_total_size_def ly_fits_def
        bytes_per_row_def trans_le_add1)
qed

lemma word_of_int_uint: "(word_of_int (uint w) :: 64 word) = w"
  by simp

text \<open>A header and a descriptor read back field by field as they were written, wherever the
  descriptor lies in the block.\<close>

theorem ring_structs_roundtrip:
  assumes "pack_header l pid t = Inr hb" and "pack_desc d = Inr db" and "length pre = off"
  shows "unpack_header (hb @ r) = Inr \<lparr>rh_magic = RING_MAGIC, rh_version = RING_VERSION,
        rh_slot_count = int (ly_slot_count l), rh_producer_pid = pid, rh_slot_stride = int (ly_slot_stride l),
        rh_pixels_offset = int PAGE, rh_pixels_capacity = int (ly_pixels_capacity l),
        rh_total_size = int (ly_total_size l), rh_latest = 0, rh_reader_claim = 0, rh_state = STATE_LIVE,
        rh_t_created = t\<rparr>
    \<and> unpack_desc (pre @ db @ r) off = Inr d"
proof -
  let ?hf = "[(4, RING_VERSION), (4, int (ly_slot_count l)), (4, pid), (8, int (ly_slot_stride l)),
         (8, int (ly_pixels_offset l)), (8, int (ly_pixels_capacity l)), (8, int (ly_total_size l)),
         (8, 0), (8, 0), (4, STATE_LIVE), (8, uint t)]"
  obtain bs where bs: "pack_fields ?hf = Inr bs" "hb = RING_MAGIC @ bs"
    using assms(1) by (auto simp: pack_header_def split: sum.splits)
  have fs: "map fst ?hf = HEADER_FIELDS" by (simp add: HEADER_FIELDS_def)
  note u = unpack_pack_fields [OF bs(1), of r, unfolded fs]
  have m: "length RING_MAGIC = 4" by (simp add: RING_MAGIC_def)
  have 1: "unpack_header (hb @ r) = Inr \<lparr>rh_magic = RING_MAGIC, rh_version = RING_VERSION,
        rh_slot_count = int (ly_slot_count l), rh_producer_pid = pid, rh_slot_stride = int (ly_slot_stride l),
        rh_pixels_offset = int PAGE, rh_pixels_capacity = int (ly_pixels_capacity l),
        rh_total_size = int (ly_total_size l), rh_latest = 0, rh_reader_claim = 0, rh_state = STATE_LIVE,
        rh_t_created = t\<rparr>"
    using u m by (simp add: unpack_header_def Let_def bs(2) HEADER_SIZE_def ly_pixels_offset_def)
  let ?df = "[(8, de_seqlock d), (4, de_w d), (4, de_h d), (4, de_bytes_per_row d), (4, de_pixel_format d),
      (4, de_flags d), (4, de_frame_number d), (4, 0), (8, uint (de_t_read_start d)),
      (8, uint (de_t_read_end d)), (8, uint (de_t_publish d)), (8, de_frame_seq d),
      (4, de_probe_seq d), (8, uint (de_probe_t_host d))]"
  have ds: "map fst ?df = DESC_FIELDS" by (simp add: DESC_FIELDS_def)
  note v = unpack_pack_fields [OF assms(2) [unfolded pack_desc_def], of r, unfolded ds]
  have "unpack_desc (pre @ db @ r) off = Inr d"
    using v assms(3) by (simp add: unpack_desc_def Let_def DESC_SIZE_def)
  with 1 show ?thesis by blast
qed

definition sample_desc :: desc where
  "sample_desc = \<lparr>de_seqlock = 2, de_w = 4, de_h = 3, de_bytes_per_row = 256, de_pixel_format = 4, de_flags = 0,
     de_frame_number = 1, de_t_read_start = 0, de_t_read_end = 0, de_t_publish = 0, de_frame_seq = 1,
     de_probe_seq = 0, de_probe_t_host = 0\<rparr>"

theorem ring_structs_roundtrip_witness:
  "\<exists>hb db. pack_header (layout_for 4 None 3) 7 0 = Inr hb \<and> pack_desc sample_desc = Inr db
     \<and> unpack_desc ([0] @ db @ []) 1 = Inr sample_desc"
proof -
  have l: "layout_for 4 None 3 = \<lparr>ly_slot_count = 3, ly_pixels_capacity = 4096, ly_slot_stride = 8192\<rparr>"
    by (simp add: layout_for_def height_cap_def capacity_for_def bytes_per_row_def round_up_def PAGE_def
        ROW_ALIGN_def Let_def)
  have "\<exists>hb. pack_header (layout_for 4 None 3) 7 0 = Inr hb"
    by (simp add: l pack_header_def pack_uint_def RING_VERSION_def ly_pixels_offset_def PAGE_def
        ly_total_size_def STATE_LIVE_def)
  moreover have "\<exists>db. pack_desc sample_desc = Inr db"
    by (simp add: pack_desc_def sample_desc_def pack_uint_def)
  moreover have "length [0::byte] = 1" by simp
  ultimately show ?thesis using ring_structs_roundtrip by blast
qed

lemma unpack_pack_latest: "0 \<le> seq \<Longrightarrow> 0 \<le> slot \<Longrightarrow> slot < 256 \<Longrightarrow> unpack_latest (pack_latest seq slot) = (seq, slot)"
proof -
  assume s: "0 \<le> seq" "0 \<le> slot" "slot < 256"
  have m: "slot AND 0xFF = slot"
    using s by (simp add: and_masks take_bit_int_eq_self)
  have "drop_bit 8 (push_bit 8 seq OR slot) = seq"
  proof -
    have "drop_bit 8 slot = 0" using s by (simp add: drop_bit_eq_div)
    then show ?thesis by (simp only: drop_bit_or) (simp add: drop_bit_push_bit)
  qed
  moreover have "(push_bit 8 seq OR slot) AND 0xFF = slot"
    using s by (simp add: and_masks take_bit_or take_bit_push_bit take_bit_int_eq_self)
  ultimately show ?thesis by (simp add: unpack_latest_def pack_latest_def m)
qed

lemma next_slot_spec:
  assumes "3 \<le> n" "-1 \<le> l" "l < n" "0 \<le> c"
  shows "0 \<le> next_slot l c n \<and> next_slot l c n < n \<and> next_slot l c n \<noteq> l \<and> (c \<noteq> 0 \<longrightarrow> next_slot l c n \<noteq> c - 1)"
proof -
  have one: "(k + 1) mod n = (if k + 1 = n then 0 else k + 1)" if "-1 \<le> k" "k < n" for k
    using that assms(1) by (auto simp: mod_pos_pos_trivial)
  let ?s = "(l + 1) mod n"
  have s: "0 \<le> ?s" "?s < n" using assms(1) by simp_all
  show ?thesis
    using one [OF assms(2,3)] one [of ?s] s assms unfolding next_slot_def Let_def
    by (auto split: if_splits)
qed

text \<open>With at least three slots the writer never takes the slot the reader holds nor the one
  it published last, so the newest frame stays readable while the next is written.\<close>

theorem next_slot_avoids_reader:
  assumes "3 \<le> n" "-1 \<le> l" "l < n" "0 \<le> c"
  shows "0 \<le> next_slot l c n \<and> next_slot l c n < n \<and> next_slot l c n \<noteq> l
    \<and> (c \<noteq> 0 \<longrightarrow> next_slot l c n \<noteq> c - 1)"
  using next_slot_spec [OF assms] .

theorem next_slot_avoids_reader_witness: "next_slot 0 2 3 \<noteq> 1 \<and> next_slot 0 2 3 \<noteq> 0"
  using next_slot_avoids_reader [of 3 0 2] by simp

theorem layout_sound_witness:
  "let l = layout_for 64 (Some 32) 3
   in ly_fits l 64 32 16 \<and> PAGE dvd ly_pixels_at l 0 \<and> ly_slot_offset l 0 + ly_slot_stride l \<le> ly_slot_offset l 1"
  using layout_sound [where width = 64 and height = "Some 32" and slots = 3 and i = 0 and j = 1 and w = 64 and h = 32]
  by (simp add: Let_def)

end
