(* ===== verification/Frame_Ring.thy ===== *)
theory Frame_Ring
  imports Ring_Layout
begin

text \<open>
  \<open>ring0/frame_ring.py\<close>: the writer of the frame ring. The shared block is its control words
  and slots (seqlock, descriptor, float pixels); a publish is a sequence of stores, which the encode
  helper may observe between any two. The reader follows the helpers' loop
  (\<open>agent/encode-win/src/main.rs\<close>): pick the newest slot, claim it, read the seqlock, copy,
  read the seqlock again.
\<close>

record slot_mem =
  sm_seqlock :: int
  sm_desc :: desc
  sm_pixels :: "f32 list"

record ring_mem =
  rm_latest :: int
  rm_claim :: int
  rm_state :: int
  rm_slots :: "slot_mem list"

record frame_ring =
  fr_layout :: layout
  fr_seq :: int
  fr_last_slot :: int
  fr_published :: nat
  fr_retired :: bool

definition zero_desc :: desc where
  "zero_desc = \<lparr>de_seqlock = 0, de_w = 0, de_h = 0, de_bytes_per_row = 0, de_pixel_format = 0, de_flags = 0,
     de_frame_number = 0, de_t_read_start = 0, de_t_read_end = 0, de_t_publish = 0, de_frame_seq = 0,
     de_probe_seq = 0, de_probe_t_host = 0\<rparr>"

text \<open>A fresh shared-memory block is zero-filled; the constructor writes the header.\<close>

definition fr_create :: "nat \<Rightarrow> nat \<Rightarrow> frame_ring \<times> ring_mem" where
  "fr_create width slots =
     (let l = layout_for width None slots
      in (\<lparr>fr_layout = l, fr_seq = 0, fr_last_slot = -1, fr_published = 0, fr_retired = False\<rparr>,
          \<lparr>rm_latest = 0, rm_claim = 0, rm_state = STATE_LIVE,
           rm_slots = replicate slots \<lparr>sm_seqlock = 0, sm_desc = zero_desc,
             sm_pixels = replicate (ly_pixels_capacity l div 4) 0\<rparr>\<rparr>))"

definition fr_fits :: "frame_ring \<Rightarrow> nat \<Rightarrow> nat \<Rightarrow> bool" where
  "fr_fits r w h = ly_fits (fr_layout r) w h 16"

record frame_args =
  fa_rows :: "f32 list list"
  fa_h :: nat
  fa_w :: nat
  fa_flags :: int
  fa_frame_number :: int
  fa_t_read_start :: f64
  fa_t_read_end :: f64
  fa_t_publish :: f64
  fa_stamp :: "(real \<times> f64 \<times> int) option"

datatype store =
    St_Seqlock nat int
  | St_Pixel nat nat f32
  | St_Desc nat desc
  | St_Latest int
  | St_State int

fun apply_store :: "store \<Rightarrow> ring_mem \<Rightarrow> ring_mem" where
  "apply_store (St_Seqlock i v) m = m\<lparr>rm_slots := (rm_slots m)[i := (rm_slots m ! i)\<lparr>sm_seqlock := v\<rparr>]\<rparr>"
| "apply_store (St_Pixel i k x) m = m\<lparr>rm_slots := (rm_slots m)[i := (rm_slots m ! i)\<lparr>sm_pixels := (sm_pixels (rm_slots m ! i))[k := x]\<rparr>]\<rparr>"
| "apply_store (St_Desc i d) m = m\<lparr>rm_slots := (rm_slots m)[i := (rm_slots m ! i)\<lparr>sm_desc := d\<rparr>]\<rparr>"
| "apply_store (St_Latest v) m = m\<lparr>rm_latest := v\<rparr>"
| "apply_store (St_State v) m = m\<lparr>rm_state := v\<rparr>"

text \<open>\<open>np.copyto(dst[:, : w * 4], arr.reshape(h, w * 4))\<close>: the padding of a row keeps its old value.\<close>

definition copy_stores :: "nat \<Rightarrow> nat \<Rightarrow> frame_args \<Rightarrow> store list" where
  "copy_stores slot stride a =
     concat (map (\<lambda>y. map (\<lambda>c. St_Pixel slot (y * stride + c) (fa_rows a ! y ! c)) [0..<fa_w a * 4]) [0..<fa_h a])"

definition TEN :: f32 where "TEN = 0x41200000"

definition fill_stores :: "nat \<Rightarrow> nat \<Rightarrow> nat \<Rightarrow> nat \<Rightarrow> nat \<Rightarrow> nat \<Rightarrow> f32 \<Rightarrow> store list" where
  "fill_stores slot stride y0 y1 x0 x1 v =
     concat (map (\<lambda>y. concat (map (\<lambda>x. map (\<lambda>ch. St_Pixel slot (y * stride + x * 4 + ch) v) [0..<3]) [x0..<x1])) [y0..<y1])"

definition stamp_stores :: "nat \<Rightarrow> nat \<Rightarrow> nat \<Rightarrow> nat \<Rightarrow> real \<times> int \<Rightarrow> store list" where
  "stamp_stores slot stride w h stamp =
     (let b = BLOCK_PX; bits = encode_bits (fst stamp) (snd stamp); x = b; y0 = 48 + b; y1 = y0 + b;
          x1 = min w (x + length bits * b + b)
      in if y1 + b > h \<or> x1 \<le> x then []
         else fill_stores slot stride (y0 - b) (y1 + b) 0 x1 0
              @ concat (map (\<lambda>(i, bit). if bit \<noteq> 0 then fill_stores slot stride y0 y1 (x + i * b) (min w (x + (i + 1) * b)) TEN else [])
                  (enumerate 0 bits)))"

definition frame_desc :: "frame_args \<Rightarrow> int \<Rightarrow> int \<Rightarrow> desc" where
  "frame_desc a seqlock seq =
     \<lparr>de_seqlock = seqlock, de_w = int (fa_w a), de_h = int (fa_h a), de_bytes_per_row = int (bytes_per_row (fa_w a) 16),
      de_pixel_format = PF_RGBA32F,
      de_flags = (case fa_stamp a of None \<Rightarrow> fa_flags a | Some _ \<Rightarrow> fa_flags a OR F_PROBE_STAMPED),
      de_frame_number = fa_frame_number a, de_t_read_start = fa_t_read_start a, de_t_read_end = fa_t_read_end a,
      de_t_publish = fa_t_publish a, de_frame_seq = seq,
      de_probe_seq = (case fa_stamp a of None \<Rightarrow> 0 | Some (_, _, q) \<Rightarrow> q),
      de_probe_t_host = (case fa_stamp a of None \<Rightarrow> 0 | Some (_, t, _) \<Rightarrow> t)\<rparr>"

text \<open>
  \<open>publish\<close>: its answer, the ring object afterwards and the stores it makes, in order. A
  descriptor that does not pack (a value out of its field) raises after the pixels were written,
  which leaves the slot's seqlock odd.
\<close>

definition fr_publish :: "frame_args \<Rightarrow> frame_ring \<Rightarrow> ring_mem \<Rightarrow> (py_error + bool) \<times> frame_ring \<times> store list" where
  "fr_publish a r m =
     (if fr_retired r then (Inr False, r, [])
      else if \<not> fr_fits r (fa_w a) (fa_h a) then (Inr False, r, [])
      else let slot = nat (next_slot (fr_last_slot r) (rm_claim m) (int (ly_slot_count (fr_layout r))));
               stride = bytes_per_row (fa_w a) 16 div 4;
               seqlock = sm_seqlock (rm_slots m ! slot) OR 1;
               d = frame_desc a (seqlock + 1) (fr_seq r + 1);
               inside = St_Seqlock slot seqlock # copy_stores slot stride a
                 @ (case fa_stamp a of None \<Rightarrow> [] | Some (t, _, q) \<Rightarrow> stamp_stores slot stride (fa_w a) (fa_h a) (t, q));
               r1 = r\<lparr>fr_seq := fr_seq r + 1\<rparr>
           in case pack_desc d of
                Inl e \<Rightarrow> (Inl e, r1, inside)
              | Inr _ \<Rightarrow> (Inr True, r1\<lparr>fr_last_slot := int slot, fr_published := fr_published r + 1\<rparr>,
                  inside @ [St_Desc slot d, St_Seqlock slot (seqlock + 1), St_Latest (pack_latest (fr_seq r + 1) (int slot))]))"

definition fr_retire :: "frame_ring \<Rightarrow> frame_ring \<times> store list" where
  "fr_retire r = (if fr_retired r then (r, []) else (r\<lparr>fr_retired := True\<rparr>, [St_State STATE_RETIRED]))"

subsection \<open>Writer and reader interleaved\<close>

datatype reader =
    RIdle
  | RPicked nat
  | RClaimed nat
  | RCopying nat int "desc option" "f32 list"

type_synonym frame_copy = "nat \<times> int \<times> desc \<times> f32 list"

record ring_sys =
  sy_ring :: frame_ring
  sy_mem :: ring_mem
  sy_pending :: "store list"
  sy_reader :: reader
  sy_log :: "frame_copy list"
  sy_accepted :: "frame_copy list"

text \<open>The ghost log: what a slot held whenever its seqlock was stored even.\<close>

definition log_store :: "store \<Rightarrow> ring_mem \<Rightarrow> frame_copy list" where
  "log_store st m = (case st of
       St_Seqlock i v \<Rightarrow> if even v then [(i, v, sm_desc (rm_slots m ! i), sm_pixels (rm_slots m ! i))] else []
     | _ \<Rightarrow> [])"

inductive ring_step :: "ring_sys \<Rightarrow> ring_sys \<Rightarrow> bool" where
  w_publish: "sy_pending s = [] \<Longrightarrow> fr_publish a (sy_ring s) (sy_mem s) = (res, r, sts) \<Longrightarrow>
     ring_step s (s\<lparr>sy_ring := r, sy_pending := sts\<rparr>)"
| w_retire: "sy_pending s = [] \<Longrightarrow> fr_retire (sy_ring s) = (r, sts) \<Longrightarrow>
     ring_step s (s\<lparr>sy_ring := r, sy_pending := sts\<rparr>)"
| w_store: "sy_pending s = st # sts \<Longrightarrow>
     ring_step s (s\<lparr>sy_mem := apply_store st (sy_mem s), sy_pending := sts, sy_log := sy_log s @ log_store st (sy_mem s)\<rparr>)"
| r_pick: "sy_reader s = RIdle \<Longrightarrow> rm_latest (sy_mem s) \<noteq> 0 \<Longrightarrow>
     ring_step s (s\<lparr>sy_reader := RPicked (nat (snd (unpack_latest (rm_latest (sy_mem s)))))\<rparr>)"
| r_claim: "sy_reader s = RPicked i \<Longrightarrow>
     ring_step s (s\<lparr>sy_reader := RClaimed i, sy_mem := (sy_mem s)\<lparr>rm_claim := int i + 1\<rparr>\<rparr>)"
| r_enter: "sy_reader s = RClaimed i \<Longrightarrow> even (sm_seqlock (rm_slots (sy_mem s) ! i)) \<Longrightarrow>
     ring_step s (s\<lparr>sy_reader := RCopying i (sm_seqlock (rm_slots (sy_mem s) ! i)) None []\<rparr>)"
| r_desc: "sy_reader s = RCopying i v None px \<Longrightarrow>
     ring_step s (s\<lparr>sy_reader := RCopying i v (Some (sm_desc (rm_slots (sy_mem s) ! i))) px\<rparr>)"
| r_pixel: "sy_reader s = RCopying i v d px \<Longrightarrow> length px < length (sm_pixels (rm_slots (sy_mem s) ! i)) \<Longrightarrow>
     ring_step s (s\<lparr>sy_reader := RCopying i v d (px @ [sm_pixels (rm_slots (sy_mem s) ! i) ! length px])\<rparr>)"
| r_accept: "sy_reader s = RCopying i v (Some d) px \<Longrightarrow> length px = length (sm_pixels (rm_slots (sy_mem s) ! i)) \<Longrightarrow>
     sm_seqlock (rm_slots (sy_mem s) ! i) = v \<Longrightarrow>
     ring_step s (s\<lparr>sy_reader := RIdle, sy_mem := (sy_mem s)\<lparr>rm_claim := 0\<rparr>, sy_accepted := sy_accepted s @ [(i, v, d, px)]\<rparr>)"
| r_release: "sy_reader s \<noteq> RIdle \<Longrightarrow>
     ring_step s (s\<lparr>sy_reader := RIdle, sy_mem := (sy_mem s)\<lparr>rm_claim := 0\<rparr>\<rparr>)"

inductive ring_reach :: "nat \<Rightarrow> nat \<Rightarrow> ring_sys \<Rightarrow> bool" for width slots where
  init: "ring_reach width slots \<lparr>sy_ring = fst (fr_create width slots), sy_mem = snd (fr_create width slots),
     sy_pending = [], sy_reader = RIdle, sy_log = [], sy_accepted = []\<rparr>"
| step: "ring_reach width slots s \<Longrightarrow> ring_step s s' \<Longrightarrow> ring_reach width slots s'"

inductive_cases ring_stepE: "ring_step s s'"

subsection \<open>No torn frame\<close>

abbreviation seqlock_at :: "ring_mem \<Rightarrow> nat \<Rightarrow> int" where
  "seqlock_at m i \<equiv> sm_seqlock (rm_slots m ! i)"

fun body_store :: "nat \<Rightarrow> store \<Rightarrow> bool" where
  "body_store i (St_Pixel j _ _) \<longleftrightarrow> j = i"
| "body_store i (St_Desc j _) \<longleftrightarrow> j = i"
| "body_store i _ \<longleftrightarrow> False"

definition tail_ok :: "nat \<Rightarrow> int \<Rightarrow> store list \<Rightarrow> bool" where
  "tail_ok i w t \<longleftrightarrow> t = [] \<or> (\<exists>q. 0 < q \<and> t = [St_Seqlock i (w + 1), St_Latest (pack_latest q (int i))])"

text \<open>What the writer still has to do: nothing, one control word, or the rest of one publish.\<close>

definition pend_ok :: "nat \<Rightarrow> ring_mem \<Rightarrow> store list \<Rightarrow> bool" where
  "pend_ok n m p \<longleftrightarrow> p = [] \<or> (\<exists>v. p = [St_State v])
     \<or> (\<exists>q i. p = [St_Latest (pack_latest q (int i))] \<and> 0 < q \<and> i < n \<and> 0 < seqlock_at m i)
     \<or> (\<exists>i w body t. i < n \<and> odd w \<and> seqlock_at m i \<le> w \<and> list_all (body_store i) body \<and> tail_ok i w t
          \<and> (p = St_Seqlock i w # body @ t \<or> p = body @ t \<and> seqlock_at m i = w))"

definition latest_ok :: "nat \<Rightarrow> ring_mem \<Rightarrow> bool" where
  "latest_ok n m \<longleftrightarrow> rm_latest m = 0
     \<or> (\<exists>q i. rm_latest m = pack_latest q (int i) \<and> 0 < q \<and> i < n \<and> 0 < seqlock_at m i)"

fun reader_ok :: "nat \<Rightarrow> ring_mem \<Rightarrow> reader \<Rightarrow> bool" where
  "reader_ok n m RIdle \<longleftrightarrow> True"
| "reader_ok n m (RPicked i) \<longleftrightarrow> i < n \<and> 0 < seqlock_at m i"
| "reader_ok n m (RClaimed i) \<longleftrightarrow> i < n \<and> 0 < seqlock_at m i"
| "reader_ok n m (RCopying i v d px) \<longleftrightarrow> i < n \<and> 0 < v \<and> even v \<and> v \<le> seqlock_at m i
     \<and> (seqlock_at m i = v \<longrightarrow> (d = None \<or> d = Some (sm_desc (rm_slots m ! i)))
          \<and> px = take (length px) (sm_pixels (rm_slots m ! i)))"

definition slots_ok :: "nat \<Rightarrow> ring_mem \<Rightarrow> frame_copy list \<Rightarrow> bool" where
  "slots_ok n m seen \<longleftrightarrow> length (rm_slots m) = n
     \<and> (\<forall>i<n. 0 \<le> seqlock_at m i
          \<and> (even (seqlock_at m i) \<and> 0 < seqlock_at m i
             \<longrightarrow> (i, seqlock_at m i, sm_desc (rm_slots m ! i), sm_pixels (rm_slots m ! i)) \<in> set seen))"

definition ring_inv :: "nat \<Rightarrow> ring_sys \<Rightarrow> bool" where
  "ring_inv n s \<longleftrightarrow> ly_slot_count (fr_layout (sy_ring s)) = n \<and> -1 \<le> fr_last_slot (sy_ring s)
     \<and> fr_last_slot (sy_ring s) < int n \<and> 0 \<le> fr_seq (sy_ring s) \<and> 0 \<le> rm_claim (sy_mem s)
     \<and> pend_ok n (sy_mem s) (sy_pending s) \<and> latest_ok n (sy_mem s) \<and> reader_ok n (sy_mem s) (sy_reader s)
     \<and> slots_ok n (sy_mem s) (sy_log s) \<and> set (sy_accepted s) \<subseteq> set (sy_log s)"

lemma body_copy_stores: "list_all (body_store i) (copy_stores i stride a)"
  by (simp add: copy_stores_def list_all_iff)

lemma body_fill_stores: "list_all (body_store i) (fill_stores i stride y0 y1 x0 x1 v)"
  by (auto simp: fill_stores_def list_all_iff)

lemma body_stamp_stores: "list_all (body_store i) (stamp_stores i stride w h st)"
  using body_fill_stores by (auto simp: stamp_stores_def Let_def list_all_iff split: if_splits)

lemma mem_other [simp]:
  "rm_slots (m\<lparr>rm_claim := c\<rparr>) = rm_slots m" "rm_latest (m\<lparr>rm_claim := c\<rparr>) = rm_latest m"
  by simp_all

lemma ok_claim [simp]:
  "pend_ok n (m\<lparr>rm_claim := c\<rparr>) p = pend_ok n m p" "latest_ok n (m\<lparr>rm_claim := c\<rparr>) = latest_ok n m"
  "reader_ok n (m\<lparr>rm_claim := c\<rparr>) r = reader_ok n m r" "slots_ok n (m\<lparr>rm_claim := c\<rparr>) seen = slots_ok n m seen"
  by (simp_all add: pend_ok_def latest_ok_def slots_ok_def) (cases r; simp)

lemma publish_pend_ok:
  assumes n: "3 \<le> n" and inv: "ring_inv n s" and p: "fr_publish a (sy_ring s) (sy_mem s) = (res, r, sts)"
  shows "pend_ok n (sy_mem s) sts \<and> ly_slot_count (fr_layout r) = n \<and> -1 \<le> fr_last_slot r
    \<and> fr_last_slot r < int n \<and> 0 \<le> fr_seq r"
proof -
  let ?r = "sy_ring s" and ?m = "sy_mem s"
  define slot where "slot = nat (next_slot (fr_last_slot ?r) (rm_claim ?m) (int n))"
  have i: "slot < n" "0 \<le> next_slot (fr_last_slot ?r) (rm_claim ?m) (int n)"
    using next_slot_spec [of "int n" "fr_last_slot ?r" "rm_claim ?m"] n inv by (auto simp: slot_def ring_inv_def)
  define w where "w = seqlock_at ?m slot OR 1"
  have w: "odd w" "seqlock_at ?m slot \<le> w" by (simp_all add: w_def or_one_eq)
  have base: "ly_slot_count (fr_layout ?r) = n" "-1 \<le> fr_last_slot ?r" "fr_last_slot ?r < int n" "0 \<le> fr_seq ?r"
    using inv by (simp_all add: ring_inv_def)
  show ?thesis
  proof (cases "fr_retired ?r \<or> \<not> fr_fits ?r (fa_w a) (fa_h a)")
    case True
    then have "sts = [] \<and> r = ?r" using p by (cases "fr_retired ?r") (simp_all add: fr_publish_def)
    then show ?thesis using base by (simp add: pend_ok_def)
  next
    case False
    define stride where "stride = bytes_per_row (fa_w a) 16 div 4"
    define d where "d = frame_desc a (w + 1) (fr_seq ?r + 1)"
    define body where "body = copy_stores slot stride a
        @ (case fa_stamp a of None \<Rightarrow> [] | Some (t, _, q) \<Rightarrow> stamp_stores slot stride (fa_w a) (fa_h a) (t, q))"
    have b: "list_all (body_store slot) body"
      using body_copy_stores body_stamp_stores by (auto simp: body_def split: option.split)
    have eq: "fr_publish a ?r ?m = (case pack_desc d of
                Inl e \<Rightarrow> (Inl e, ?r\<lparr>fr_seq := fr_seq ?r + 1\<rparr>, St_Seqlock slot w # body)
              | Inr _ \<Rightarrow> (Inr True, ?r\<lparr>fr_seq := fr_seq ?r + 1, fr_last_slot := int slot, fr_published := fr_published ?r + 1\<rparr>,
                  (St_Seqlock slot w # body) @ [St_Desc slot d, St_Seqlock slot (w + 1),
                    St_Latest (pack_latest (fr_seq ?r + 1) (int slot))]))"
      using False unfolding fr_publish_def Let_def body_def d_def slot_def w_def stride_def base(1)
      by (auto split: sum.split)
    show ?thesis
    proof (cases "pack_desc d")
      case (Inl e)
      have "pend_ok n ?m (St_Seqlock slot w # body)"
        unfolding pend_ok_def tail_ok_def using i w b by (intro disjI2) (metis append_Nil2)
      then show ?thesis using eq p Inl base by simp
    next
      case (Inr x)
      have "tail_ok slot w [St_Seqlock slot (w + 1), St_Latest (pack_latest (fr_seq ?r + 1) (int slot))]"
        unfolding tail_ok_def using base(4) by (intro disjI2 exI [of _ "fr_seq ?r + 1"]) simp
      moreover have "list_all (body_store slot) (body @ [St_Desc slot d])" using b by simp
      ultimately have "pend_ok n ?m (St_Seqlock slot w # (body @ [St_Desc slot d]) @ [St_Seqlock slot (w + 1), St_Latest (pack_latest (fr_seq ?r + 1) (int slot))])"
        unfolding pend_ok_def using i w by blast
      then show ?thesis using eq p Inr base i by auto
    qed
  qed
qed

lemma body_store_mem:
  assumes "body_store i st"
  shows "seqlock_at (apply_store st m) j = seqlock_at m j"
    and "j \<noteq> i \<Longrightarrow> rm_slots (apply_store st m) ! j = rm_slots m ! j"
    and "rm_latest (apply_store st m) = rm_latest m"
    and "length (rm_slots (apply_store st m)) = length (rm_slots m)"
  using assms by (cases st; cases "i < length (rm_slots m)"; cases "j = i"; simp add: list_update_beyond)+

lemma length_apply_store [simp]: "length (rm_slots (apply_store st m)) = length (rm_slots m)"
  by (cases st) auto

lemma seqlock_store_mem:
  "i < length (rm_slots m) \<Longrightarrow>
     seqlock_at (apply_store (St_Seqlock i v) m) j = (if j = i then v else seqlock_at m j)"
  "j \<noteq> i \<Longrightarrow> rm_slots (apply_store (St_Seqlock i v) m) ! j = rm_slots m ! j"
  "i < length (rm_slots m) \<Longrightarrow> sm_desc (rm_slots (apply_store (St_Seqlock i v) m) ! j) = sm_desc (rm_slots m ! j)"
  "i < length (rm_slots m) \<Longrightarrow> sm_pixels (rm_slots (apply_store (St_Seqlock i v) m) ! j) = sm_pixels (rm_slots m ! j)"
  by (cases "j = i"; simp)+

lemma body_not_control:
  "list_all (body_store i) body \<Longrightarrow> body @ t = st # sts \<Longrightarrow>
     (body = [] \<and> t = st # sts) \<or> (\<exists>b. body = st # b \<and> body_store i st \<and> list_all (body_store i) b \<and> sts = b @ t)"
  by (cases body) auto

definition store_kind :: "nat \<Rightarrow> ring_mem \<Rightarrow> store \<Rightarrow> bool" where
  "store_kind n m st \<longleftrightarrow> (\<exists>v. st = St_State v)
     \<or> (\<exists>q i. st = St_Latest (pack_latest q (int i)) \<and> 0 < q \<and> i < n \<and> 0 < seqlock_at m i)
     \<or> (\<exists>i v. st = St_Seqlock i v \<and> i < n \<and> seqlock_at m i \<le> v \<and> (even v \<longrightarrow> seqlock_at m i < v))
     \<or> (\<exists>i. body_store i st \<and> i < n \<and> odd (seqlock_at m i))"

lemma pend_ok_step:
  assumes "pend_ok n m (st # sts)" "length (rm_slots m) = n" "\<forall>i<n. 0 \<le> seqlock_at m i"
  shows "pend_ok n (apply_store st m) sts \<and> store_kind n m st"
proof -
  consider (a) v where "st = St_State v" "sts = []"
    | (b) q i where "st = St_Latest (pack_latest q (int i))" "sts = []" "0 < q" "i < n" "0 < seqlock_at m i"
    | (c) i w body t where "i < n" "odd w" "seqlock_at m i \<le> w" "list_all (body_store i) body" "tail_ok i w t"
        "st = St_Seqlock i w" "sts = body @ t"
    | (d) i w body t where "i < n" "odd w" "seqlock_at m i = w" "list_all (body_store i) body" "tail_ok i w t"
        "st # sts = body @ t"
    using assms(1) unfolding pend_ok_def by auto
  then show ?thesis
  proof cases
    case a
    then show ?thesis by (simp add: pend_ok_def store_kind_def)
  next
    case b
    then show ?thesis by (auto simp: pend_ok_def store_kind_def)
  next
    case c
    have "seqlock_at (apply_store st m) i = w" using c assms(2) by (simp add: seqlock_store_mem)
    then have "pend_ok n (apply_store st m) sts" unfolding pend_ok_def using c(1,2,4,5,7) by blast
    then show ?thesis using c by (auto simp: store_kind_def)
  next
    case d
    from body_not_control [OF d(4) d(6) [symmetric]]
    consider "body = []" "t = st # sts" | b where "body = st # b" "body_store i st" "list_all (body_store i) b" "sts = b @ t"
      by blast
    then show ?thesis
    proof cases
      case 1
      then obtain q where q: "0 < q" "st = St_Seqlock i (w + 1)" "sts = [St_Latest (pack_latest q (int i))]"
        using d(5) by (auto simp: tail_ok_def)
      have "0 \<le> w" using d assms(3) by blast
      then have "0 < seqlock_at (apply_store st m) i" using q d(1) assms(2) by (simp add: seqlock_store_mem)
      then have "pend_ok n (apply_store st m) sts" unfolding pend_ok_def using q(1,3) d(1) by blast
      then show ?thesis using q d by (auto simp: store_kind_def)
    next
      case 2
      have "seqlock_at (apply_store st m) i = w" using body_store_mem(1) [OF 2(2)] d(3) by simp
      then have "pend_ok n (apply_store st m) sts" unfolding pend_ok_def using 2 d(1,2,5) by blast
      then show ?thesis using 2 d by (auto simp: store_kind_def)
    qed
  qed
qed

text \<open>Every store keeps seqlocks from going back and changes a slot's contents only while odd.\<close>

lemma store_mono:
  assumes "store_kind n m st" "length (rm_slots m) = n"
  shows "seqlock_at m j \<le> seqlock_at (apply_store st m) j"
    and "even (seqlock_at (apply_store st m) j) \<and> seqlock_at (apply_store st m) j = seqlock_at m j \<longrightarrow>
          sm_desc (rm_slots (apply_store st m) ! j) = sm_desc (rm_slots m ! j)
          \<and> sm_pixels (rm_slots (apply_store st m) ! j) = sm_pixels (rm_slots m ! j)"
    and "length (rm_slots (apply_store st m)) = n"
    and "seqlock_at (apply_store st m) j \<noteq> seqlock_at m j \<and> even (seqlock_at (apply_store st m) j) \<longrightarrow>
          (j, seqlock_at (apply_store st m) j, sm_desc (rm_slots (apply_store st m) ! j),
             sm_pixels (rm_slots (apply_store st m) ! j)) \<in> set (log_store st m)"
proof -
  consider (a) v where "st = St_State v" | (b) v where "st = St_Latest v"
    | (c) i v where "st = St_Seqlock i v" "i < n" "seqlock_at m i \<le> v" "even v \<longrightarrow> seqlock_at m i < v"
    | (d) i where "body_store i st" "i < n" "odd (seqlock_at m i)"
    using assms(1) unfolding store_kind_def by auto
  then have "seqlock_at m j \<le> seqlock_at (apply_store st m) j
    \<and> (even (seqlock_at (apply_store st m) j) \<and> seqlock_at (apply_store st m) j = seqlock_at m j \<longrightarrow>
          sm_desc (rm_slots (apply_store st m) ! j) = sm_desc (rm_slots m ! j)
          \<and> sm_pixels (rm_slots (apply_store st m) ! j) = sm_pixels (rm_slots m ! j))
    \<and> length (rm_slots (apply_store st m)) = n
    \<and> (seqlock_at (apply_store st m) j \<noteq> seqlock_at m j \<and> even (seqlock_at (apply_store st m) j) \<longrightarrow>
          (j, seqlock_at (apply_store st m) j, sm_desc (rm_slots (apply_store st m) ! j),
             sm_pixels (rm_slots (apply_store st m) ! j)) \<in> set (log_store st m))"
  proof cases
    case c
    then show ?thesis
      using assms(2) by (cases "j = i") (auto simp: log_store_def simp del: apply_store.simps simp: seqlock_store_mem)
  next
    case d
    then show ?thesis
      using assms(2) body_store_mem [OF d(1)] by (cases "j = i") auto
  qed (use assms(2) in auto)
  then show "seqlock_at m j \<le> seqlock_at (apply_store st m) j"
    "even (seqlock_at (apply_store st m) j) \<and> seqlock_at (apply_store st m) j = seqlock_at m j \<longrightarrow>
          sm_desc (rm_slots (apply_store st m) ! j) = sm_desc (rm_slots m ! j)
          \<and> sm_pixels (rm_slots (apply_store st m) ! j) = sm_pixels (rm_slots m ! j)"
    "length (rm_slots (apply_store st m)) = n"
    "seqlock_at (apply_store st m) j \<noteq> seqlock_at m j \<and> even (seqlock_at (apply_store st m) j) \<longrightarrow>
          (j, seqlock_at (apply_store st m) j, sm_desc (rm_slots (apply_store st m) ! j),
             sm_pixels (rm_slots (apply_store st m) ! j)) \<in> set (log_store st m)"
    by blast+
qed

lemma slots_ok_store:
  assumes "store_kind n m st" "slots_ok n m seen"
  shows "slots_ok n (apply_store st m) (seen @ log_store st m)"
proof -
  have len: "length (rm_slots m) = n" using assms(2) by (simp add: slots_ok_def)
  note sm = store_mono [OF assms(1) len]
  have "0 \<le> seqlock_at (apply_store st m) j \<and> (even (seqlock_at (apply_store st m) j) \<and> 0 < seqlock_at (apply_store st m) j
      \<longrightarrow> (j, seqlock_at (apply_store st m) j, sm_desc (rm_slots (apply_store st m) ! j),
            sm_pixels (rm_slots (apply_store st m) ! j)) \<in> set (seen @ log_store st m))" if "j < n" for j
    using sm(1,2,4) [of j] assms(2) that
    by (cases "seqlock_at (apply_store st m) j = seqlock_at m j") (auto simp: slots_ok_def dest: order_trans)
  then show ?thesis using sm(3) by (simp add: slots_ok_def)
qed

lemma reader_ok_store:
  assumes "store_kind n m st" "length (rm_slots m) = n" "reader_ok n m r"
  shows "reader_ok n (apply_store st m) r"
proof (cases r)
  case (RCopying i v d px)
  note sm = store_mono(1,2) [OF assms(1,2), of i]
  have "seqlock_at (apply_store st m) i = v \<Longrightarrow> seqlock_at m i = v"
    using sm(1) assms(3) RCopying by auto
  then show ?thesis using sm assms(3) RCopying by auto
qed (use assms(3) store_mono(1) [OF assms(1,2)] in \<open>auto intro: less_le_trans\<close>)

lemma latest_ok_store:
  assumes "store_kind n m st" "length (rm_slots m) = n" "latest_ok n m"
  shows "latest_ok n (apply_store st m)"
proof -
  have up: "0 < seqlock_at m i \<Longrightarrow> 0 < seqlock_at (apply_store st m) i" for i
    using store_mono(1) [OF assms(1,2), of i] by linarith
  show ?thesis
  proof (cases "\<exists>v. st = St_Latest v")
    case True
    then show ?thesis using assms(1) up by (auto simp: store_kind_def latest_ok_def)
  next
    case False
    then have "rm_latest (apply_store st m) = rm_latest m" by (cases st) auto
    then show ?thesis using assms(3) up unfolding latest_ok_def by auto
  qed
qed

lemma retire_pend_ok: "fr_retire r = (r', sts) \<Longrightarrow> pend_ok n m sts \<and> fr_layout r' = fr_layout r
    \<and> fr_last_slot r' = fr_last_slot r \<and> fr_seq r' = fr_seq r"
  by (auto simp: fr_retire_def pend_ok_def split: if_splits)

lemma take_snoc_nth: "px = take (length px) xs \<Longrightarrow> length px < length xs \<Longrightarrow>
    px @ [xs ! length px] = take (length (px @ [xs ! length px])) xs"
  by (metis length_append_singleton take_Suc_conv_app_nth)

lemma ring_inv_step:
  assumes "3 \<le> n" "n \<le> 256" "ring_inv n s" "ring_step s s'"
  shows "ring_inv n s'"
  using assms(4,3)
proof cases
  case (w_publish a res r sts)
  then show ?thesis
    using publish_pend_ok [OF assms(1,3) w_publish(3)] assms(3) by (simp add: ring_inv_def)
next
  case (w_retire r sts)
  then show ?thesis using retire_pend_ok [OF w_retire(3), of n "sy_mem s"] assms(3) by (simp add: ring_inv_def)
next
  case (w_store st sts)
  have len: "length (rm_slots (sy_mem s)) = n" and nn: "\<forall>i<n. 0 \<le> seqlock_at (sy_mem s) i"
    using assms(3) by (auto simp: ring_inv_def slots_ok_def)
  have p: "pend_ok n (sy_mem s) (st # sts)" using assms(3) w_store(2) by (simp add: ring_inv_def)
  note k = pend_ok_step [OF p len nn]
  have "0 \<le> rm_claim (apply_store st (sy_mem s))" using assms(3) by (cases st) (auto simp: ring_inv_def)
  then show ?thesis
    using k slots_ok_store [of n "sy_mem s" st "sy_log s"] reader_ok_store [of n "sy_mem s" st "sy_reader s"]
      latest_ok_store [of n "sy_mem s" st] assms(3) len w_store(1)
    by (auto simp: ring_inv_def)
next
  case r_pick
  then obtain q i where q: "rm_latest (sy_mem s) = pack_latest q (int i)" "0 < q" "i < n" "0 < seqlock_at (sy_mem s) i"
    using assms(3) by (auto simp: ring_inv_def latest_ok_def)
  then have "unpack_latest (rm_latest (sy_mem s)) = (q, int i)"
    using unpack_pack_latest [of q "int i"] assms(2) by simp
  then show ?thesis using r_pick assms(3) q by (simp add: ring_inv_def)
next
  case (r_claim i)
  then show ?thesis using assms(3) by (simp add: ring_inv_def)
next
  case (r_enter i)
  then show ?thesis using assms(3) by (simp add: ring_inv_def)
next
  case (r_desc i v px)
  then show ?thesis using assms(3) by (simp add: ring_inv_def)
next
  case (r_pixel i v d px)
  then show ?thesis using assms(3) take_snoc_nth by (auto simp: ring_inv_def)
next
  case (r_accept i v d px)
  then have v: "i < n" "0 < v" "even v" "d = sm_desc (rm_slots (sy_mem s) ! i)" "px = sm_pixels (rm_slots (sy_mem s) ! i)"
    using assms(3) by (auto simp: ring_inv_def)
  then have "(i, v, d, px) \<in> set (sy_log s)"
    using assms(3) r_accept by (auto simp: ring_inv_def slots_ok_def)
  then show ?thesis using assms(3) r_accept by (simp add: ring_inv_def)
next
  case r_release
  then show ?thesis using assms(3) by (simp add: ring_inv_def)
qed

lemma ring_inv_reach:
  assumes "ring_reach width slots s" "3 \<le> slots" "slots \<le> 256"
  shows "ring_inv slots s"
  using assms(1)
proof induction
  case init
  then show ?case
    using assms(2) by (simp add: ring_inv_def fr_create_def Let_def layout_for_def pend_ok_def latest_ok_def slots_ok_def)
next
  case (step s s')
  then show ?case using ring_inv_step assms(2,3) by blast
qed

text \<open>C7: However the writer's stores and the reader's loads interleave, through any number of
  publishes, refused frames and retirements, every frame the reader accepts is one the slot held
  whole, descriptor and every pixel, at the moment its seqlock was stored even: never a torn one.\<close>

theorem ring_never_torn:
  assumes "ring_reach width slots s" and "3 \<le> slots" "slots \<le> 256"
  shows "set (sy_accepted s) \<subseteq> set (sy_log s)"
  using ring_inv_reach [OF assms] by (simp add: ring_inv_def)

text \<open>A concrete run: one frame of 2 by 1 pixels published, read and accepted.\<close>

lemma reach_steps: "ring_step\<^sup>*\<^sup>* s s' \<Longrightarrow> ring_reach width slots s \<Longrightarrow> ring_reach width slots s'"
  by (induction rule: rtranclp_induct) (auto intro: ring_reach.step)

lemma run_stores:
  "\<exists>seen. ring_step\<^sup>*\<^sup>* (s\<lparr>sy_pending := sts\<rparr>) (s\<lparr>sy_mem := fold apply_store sts (sy_mem s), sy_pending := [], sy_log := seen\<rparr>)"
proof (induction sts arbitrary: s)
  case Nil
  have "s\<lparr>sy_pending := []\<rparr> = s\<lparr>sy_mem := sy_mem s, sy_pending := [], sy_log := sy_log s\<rparr>" by simp
  then show ?case by (metis fold_simps(1) rtranclp.rtrancl_refl)
next
  case (Cons st sts)
  let ?s1 = "s\<lparr>sy_mem := apply_store st (sy_mem s), sy_log := sy_log s @ log_store st (sy_mem s)\<rparr>"
  have "ring_step (s\<lparr>sy_pending := st # sts\<rparr>) (?s1\<lparr>sy_pending := sts\<rparr>)"
    using ring_step.w_store [of "s\<lparr>sy_pending := st # sts\<rparr>" st sts] by (cases s) simp
  moreover obtain seen where "ring_step\<^sup>*\<^sup>* (?s1\<lparr>sy_pending := sts\<rparr>)
      (?s1\<lparr>sy_mem := fold apply_store sts (sy_mem ?s1), sy_pending := [], sy_log := seen\<rparr>)"
    using Cons.IH by blast
  ultimately show ?case
    by (intro exI [of _ seen]) (cases s, simp add: converse_rtranclp_into_rtranclp)
qed

lemma run_pixels:
  "sy_reader s = RCopying i v d px \<Longrightarrow> px = take (length px) (sm_pixels (rm_slots (sy_mem s) ! i)) \<Longrightarrow>
     ring_step\<^sup>*\<^sup>* s (s\<lparr>sy_reader := RCopying i v d (sm_pixels (rm_slots (sy_mem s) ! i))\<rparr>)"
proof (induction "length (sm_pixels (rm_slots (sy_mem s) ! i)) - length px" arbitrary: s px)
  case 0
  then have "px = sm_pixels (rm_slots (sy_mem s) ! i)" by simp
  then have "s\<lparr>sy_reader := RCopying i v d (sm_pixels (rm_slots (sy_mem s) ! i))\<rparr> = s\<lparr>sy_reader := sy_reader s\<rparr>"
    using 0(2) by (simp only:)
  then show ?case by simp
next
  case (Suc k)
  let ?P = "sm_pixels (rm_slots (sy_mem s) ! i)"
  have lt: "length px < length ?P" using Suc.hyps(2) by simp
  let ?s1 = "s\<lparr>sy_reader := RCopying i v d (px @ [?P ! length px])\<rparr>"
  have "ring_step s ?s1" using ring_step.r_pixel [OF Suc.prems(1) lt] .
  moreover have "ring_step\<^sup>*\<^sup>* ?s1 (?s1\<lparr>sy_reader := RCopying i v d (sm_pixels (rm_slots (sy_mem ?s1) ! i))\<rparr>)"
    by (rule Suc.hyps(1) [of ?s1 "px @ [?P ! length px]"])
      (use Suc.hyps(2) lt take_snoc_nth [OF Suc.prems(2) lt] in auto)
  ultimately show ?case by (simp add: converse_rtranclp_into_rtranclp)
qed

definition sample_frame :: frame_args where
  "sample_frame = \<lparr>fa_rows = [[1, 2, 3, 4, 5, 6, 7, 8]], fa_h = 1, fa_w = 2, fa_flags = 0, fa_frame_number = 1,
     fa_t_read_start = 0, fa_t_read_end = 0, fa_t_publish = 0, fa_stamp = None\<rparr>"

theorem ring_never_torn_witness:
  "\<exists>s. ring_reach 4 3 s \<and> sy_accepted s \<noteq> [] \<and> set (sy_accepted s) \<subseteq> set (sy_log s)"
proof -
  let ?r = "fst (fr_create 4 3)" and ?m = "snd (fr_create 4 3)"
  let ?s0 = "\<lparr>sy_ring = ?r, sy_mem = ?m, sy_pending = [], sy_reader = RIdle, sy_log = [], sy_accepted = []\<rparr>"
  let ?d = "frame_desc sample_frame 2 1"
  have lay: "layout_for 4 None 3 = \<lparr>ly_slot_count = 3, ly_pixels_capacity = 4096, ly_slot_stride = 8192\<rparr>"
    by (simp add: layout_for_def height_cap_def capacity_for_def bytes_per_row_def round_up_def PAGE_def ROW_ALIGN_def Let_def)
  have ok: "\<exists>bs. pack_desc ?d = Inr bs"
    by (simp add: pack_desc_def frame_desc_def sample_frame_def pack_uint_def PF_RGBA32F_def bytes_per_row_def
        round_up_def ROW_ALIGN_def)
  define sts where "sts = St_Seqlock 0 1 # copy_stores 0 64 sample_frame @ [St_Desc 0 ?d, St_Seqlock 0 2, St_Latest (pack_latest 1 0)]"
  define r1 where "r1 = ?r\<lparr>fr_seq := 1, fr_last_slot := 0, fr_published := 1\<rparr>"
  have fit: "fr_fits ?r 2 1"
    by (simp add: fr_create_def Let_def lay fr_fits_def ly_fits_def bytes_per_row_def round_up_def ROW_ALIGN_def)
  have pub: "fr_publish sample_frame ?r ?m = (Inr True, r1, sts)"
    using ok fit
    by (auto simp: fr_publish_def fr_create_def Let_def lay next_slot_def sample_frame_def bytes_per_row_def round_up_def
        ROW_ALIGN_def r1_def sts_def)
  let ?m1 = "fold apply_store sts ?m"
  have b: "list_all (body_store 0) (copy_stores 0 64 sample_frame)" by (rule body_copy_stores)
  have m1: "seqlock_at ?m1 0 = 2" "rm_latest ?m1 = pack_latest 1 0" "length (rm_slots ?m1) = 3"
  proof -
    have l: "length (rm_slots (fold apply_store xs m)) = length (rm_slots m)" for xs m
      by (induction xs arbitrary: m) (auto simp del: apply_store.simps)
    show "length (rm_slots ?m1) = 3" by (simp add: l fr_create_def Let_def)
    show "seqlock_at ?m1 0 = 2" "rm_latest ?m1 = pack_latest 1 0"
      using l by (simp_all add: sts_def fr_create_def Let_def)
  qed
  have "ring_reach 4 3 ?s0" by (rule ring_reach.init)
  then have "ring_reach 4 3 (?s0\<lparr>sy_ring := r1, sy_pending := sts\<rparr>)"
    using ring_reach.step ring_step.w_publish [of ?s0, OF _ , of sample_frame "Inr True" r1 sts] pub by simp
  moreover obtain seen where "ring_step\<^sup>*\<^sup>* (?s0\<lparr>sy_ring := r1, sy_pending := sts\<rparr>)
      (?s0\<lparr>sy_ring := r1, sy_mem := ?m1, sy_log := seen\<rparr>)"
    using run_stores [where s = "?s0\<lparr>sy_ring := r1\<rparr>" and sts = sts] by auto
  ultimately have "ring_reach 4 3 (?s0\<lparr>sy_ring := r1, sy_mem := ?m1, sy_log := seen\<rparr>)"
    using reach_steps by blast
  then have "ring_reach 4 3 (?s0\<lparr>sy_ring := r1, sy_mem := ?m1, sy_log := seen, sy_reader := RPicked 0\<rparr>)"
    using ring_reach.step ring_step.r_pick [of "?s0\<lparr>sy_ring := r1, sy_mem := ?m1, sy_log := seen\<rparr>"] m1(2)
    by (simp add: pack_latest_def unpack_latest_def)
  then have "ring_reach 4 3 (?s0\<lparr>sy_ring := r1, sy_mem := ?m1\<lparr>rm_claim := 1\<rparr>, sy_log := seen, sy_reader := RClaimed 0\<rparr>)"
    using ring_reach.step [OF _ ring_step.r_claim [of "?s0\<lparr>sy_ring := r1, sy_mem := ?m1, sy_log := seen, sy_reader := RPicked 0\<rparr>" 0]]
    by simp
  then have "ring_reach 4 3 (?s0\<lparr>sy_ring := r1, sy_mem := ?m1\<lparr>rm_claim := 1\<rparr>, sy_log := seen, sy_reader := RCopying 0 2 None []\<rparr>)"
    using ring_reach.step [OF _ ring_step.r_enter [of "?s0\<lparr>sy_ring := r1, sy_mem := ?m1\<lparr>rm_claim := 1\<rparr>, sy_log := seen, sy_reader := RClaimed 0\<rparr>" 0]] m1(1)
    by simp
  then have "ring_reach 4 3 (?s0\<lparr>sy_ring := r1, sy_mem := ?m1\<lparr>rm_claim := 1\<rparr>, sy_log := seen,
      sy_reader := RCopying 0 2 (Some (sm_desc (rm_slots ?m1 ! 0))) []\<rparr>)"
    using ring_reach.step [OF _ ring_step.r_desc [of "?s0\<lparr>sy_ring := r1, sy_mem := ?m1\<lparr>rm_claim := 1\<rparr>, sy_log := seen, sy_reader := RCopying 0 2 None []\<rparr>" 0 2 "[]"]]
    by simp
  moreover have "ring_step\<^sup>*\<^sup>* (?s0\<lparr>sy_ring := r1, sy_mem := ?m1\<lparr>rm_claim := 1\<rparr>, sy_log := seen,
      sy_reader := RCopying 0 2 (Some (sm_desc (rm_slots ?m1 ! 0))) []\<rparr>) (?s0\<lparr>sy_ring := r1, sy_mem := ?m1\<lparr>rm_claim := 1\<rparr>, sy_log := seen,
      sy_reader := RCopying 0 2 (Some (sm_desc (rm_slots ?m1 ! 0))) (sm_pixels (rm_slots ?m1 ! 0))\<rparr>)"
    (is "ring_step\<^sup>*\<^sup>* ?a ?b")
    using run_pixels [where s = ?a and i = 0 and v = 2 and d = "Some (sm_desc (rm_slots ?m1 ! 0))" and px = "[]"] by simp
  ultimately have rb: "ring_reach 4 3 ?b" using reach_steps by blast
  let ?c = "?b\<lparr>sy_reader := RIdle, sy_mem := (sy_mem ?b)\<lparr>rm_claim := 0\<rparr>,
      sy_accepted := sy_accepted ?b @ [(0, 2, sm_desc (rm_slots ?m1 ! 0), sm_pixels (rm_slots ?m1 ! 0))]\<rparr>"
  have "ring_step ?b ?c"
    using ring_step.r_accept [of ?b 0 2 "sm_desc (rm_slots ?m1 ! 0)" "sm_pixels (rm_slots ?m1 ! 0)"] m1(1) by simp
  then have rc: "ring_reach 4 3 ?c" using rb ring_reach.step by blast
  moreover from ring_never_torn [OF this] have "set (sy_accepted ?c) \<subseteq> set (sy_log ?c)" by simp
  ultimately show ?thesis by (intro exI [of _ ?c]) simp
qed

subsection \<open>What a publish writes\<close>

fun pixel_writes :: "nat \<Rightarrow> store list \<Rightarrow> (nat \<times> f32) list" where
  "pixel_writes i [] = []"
| "pixel_writes i (St_Pixel j k x # sts) = (if j = i then (k, x) # pixel_writes i sts else pixel_writes i sts)"
| "pixel_writes i (_ # sts) = pixel_writes i sts"

lemma pixels_kept:
  "i < length ss \<Longrightarrow> sm_pixels (ss[j := (ss ! j)\<lparr>sm_seqlock := v\<rparr>] ! i) = sm_pixels (ss ! i)"
  "i < length ss \<Longrightarrow> sm_pixels (ss[j := (ss ! j)\<lparr>sm_desc := d\<rparr>] ! i) = sm_pixels (ss ! i)"
  by (cases "j = i"; simp)+

lemma pixels_fold:
  "i < length (rm_slots m) \<Longrightarrow> sm_pixels (rm_slots (fold apply_store sts m) ! i)
     = fold (\<lambda>(k, x) px. px[k := x]) (pixel_writes i sts) (sm_pixels (rm_slots m ! i))"
proof (induction sts arbitrary: m)
  case (Cons st sts)
  then show ?case
    by (cases st) (auto simp: nth_list_update pixels_kept)
qed simp

lemma fold_update_nth:
  assumes "\<And>k x. (k, x) \<in> set ws \<Longrightarrow> x = f k" "j < length xs"
  shows "fold (\<lambda>(k, x) px. px[k := x]) ws xs ! j = (if j \<in> fst ` set ws then f j else xs ! j)"
  using assms
proof (induction ws arbitrary: xs)
  case (Cons w ws)
  obtain k x where w: "w = (k, x)" by fastforce
  have "x = f k" using Cons.prems(1) w by simp
  then show ?case using Cons.IH [of "xs[k := x]"] Cons.prems w by (auto simp: nth_list_update)
qed simp

lemma pixel_writes_append [simp]: "pixel_writes i (xs @ ys) = pixel_writes i xs @ pixel_writes i ys"
  by (induction i xs rule: pixel_writes.induct) auto

lemma pixel_writes_map [simp]: "pixel_writes i (map (\<lambda>c. St_Pixel i (g c) (f c)) cs) = map (\<lambda>c. (g c, f c)) cs"
  by (induction cs) auto

lemma pixel_writes_concat: "pixel_writes i (concat xss) = concat (map (pixel_writes i) xss)"
  by (induction xss) auto

lemma fold_apply_other:
  "list_all (body_store i) sts \<Longrightarrow> seqlock_at (fold apply_store sts m) j = seqlock_at m j
     \<and> rm_latest (fold apply_store sts m) = rm_latest m \<and> length (rm_slots (fold apply_store sts m)) = length (rm_slots m)
     \<and> (j \<noteq> i \<longrightarrow> rm_slots (fold apply_store sts m) ! j = rm_slots m ! j)"
  by (induction sts arbitrary: m) (auto simp: body_store_mem)

text \<open>A publish that succeeds, once its stores are done, leaves the frame in the slot row by row
  at the padded stride, its descriptor beside it, the seqlock even and \<open>latest\<close> naming that slot
  and the new sequence; the slot is neither the reader's nor the last one published, and every
  other slot is untouched.\<close>

theorem publish_writes_frame:
  assumes p: "fr_publish a r m = (Inr True, r', sts)" and ns: "fa_stamp a = None"
    and l: "fr_layout r = layout_for width None slots" and n: "3 \<le> slots"
    and ml: "length (rm_slots m) = slots" "0 \<le> rm_claim m" "-1 \<le> fr_last_slot r" "fr_last_slot r < int slots"
    and px: "\<forall>i < slots. length (sm_pixels (rm_slots m ! i)) = ly_pixels_capacity (fr_layout r) div 4"
  shows "\<exists>i. fr_last_slot r' = int i \<and> i < slots \<and> int i \<noteq> fr_last_slot r \<and> int i + 1 \<noteq> rm_claim m
     \<and> (let m' = fold apply_store sts m; stride = bytes_per_row (fa_w a) 16 div 4
        in (\<forall>y c. y < fa_h a \<and> c < fa_w a * 4 \<longrightarrow>
               sm_pixels (rm_slots m' ! i) ! (y * stride + c) = fa_rows a ! y ! c)
           \<and> sm_desc (rm_slots m' ! i) = frame_desc a (seqlock_at m' i) (fr_seq r')
           \<and> seqlock_at m' i = (seqlock_at m i OR 1) + 1 \<and> rm_latest m' = pack_latest (fr_seq r') (int i)
           \<and> (\<forall>j. j \<noteq> i \<longrightarrow> rm_slots m' ! j = rm_slots m ! j))"
proof -
  have cnt: "ly_slot_count (fr_layout r) = slots" by (simp add: l layout_for_def Let_def)
  define i where "i = nat (next_slot (fr_last_slot r) (rm_claim m) (int slots))"
  define w where "w = seqlock_at m i OR 1"
  define stride where "stride = bytes_per_row (fa_w a) 16 div 4"
  define d where "d = frame_desc a (w + 1) (fr_seq r + 1)"
  have nx: "i < slots" "int i \<noteq> fr_last_slot r" "int i + 1 \<noteq> rm_claim m"
    using next_slot_spec [of "int slots" "fr_last_slot r" "rm_claim m"] n ml by (auto simp: i_def)
  have nr: "\<not> fr_retired r" "fr_fits r (fa_w a) (fa_h a)" using p by (auto simp: fr_publish_def split: if_splits)
  obtain bs where "pack_desc d = Inr bs"
    using p nr ns cnt by (auto simp: fr_publish_def Let_def d_def w_def i_def split: sum.splits)
  then have r': "r' = r\<lparr>fr_seq := fr_seq r + 1, fr_last_slot := int i, fr_published := fr_published r + 1\<rparr>"
    and sts: "sts = St_Seqlock i w # copy_stores i stride a @ [St_Desc i d, St_Seqlock i (w + 1), St_Latest (pack_latest (fr_seq r + 1) (int i))]"
    using p nr ns cnt by (auto simp: fr_publish_def Let_def d_def w_def i_def stride_def)
  let ?m1 = "apply_store (St_Seqlock i w) m"
  let ?m2 = "fold apply_store (copy_stores i stride a) ?m1"
  have m': "fold apply_store sts m = apply_store (St_Latest (pack_latest (fr_seq r + 1) (int i)))
      (apply_store (St_Seqlock i (w + 1)) (apply_store (St_Desc i d) ?m2))"
    by (simp add: sts del: apply_store.simps)
  note o2 = fold_apply_other [OF body_copy_stores [of i stride a], of ?m1]
  have il: "i < length (rm_slots ?m2)" using nx ml o2 by simp
  have stride: "fa_w a * 4 \<le> stride" "stride * fa_h a \<le> ly_pixels_capacity (fr_layout r) div 4"
  proof -
    have "fa_w a * 16 \<le> bytes_per_row (fa_w a) 16" "4 dvd bytes_per_row (fa_w a) 16"
      using round_up_ge [of ROW_ALIGN "fa_w a * 16"]
      by (auto simp: bytes_per_row_def ROW_ALIGN_def intro: dvd_trans [of 4 256])
    then obtain k where k: "bytes_per_row (fa_w a) 16 = 4 * k" "fa_w a * 4 \<le> k" by (auto elim: dvdE)
    have "4 * (k * fa_h a) \<le> ly_pixels_capacity (fr_layout r)"
      using nr(2) by (simp add: fr_fits_def ly_fits_def k mult.assoc)
    then have "k * fa_h a \<le> ly_pixels_capacity (fr_layout r) div 4" by linarith
    then show "fa_w a * 4 \<le> stride" "stride * fa_h a \<le> ly_pixels_capacity (fr_layout r) div 4"
      using k by (simp_all add: stride_def)
  qed
  have pix: "sm_pixels (rm_slots ?m2 ! i) ! (y * stride + c) = fa_rows a ! y ! c" if yc: "y < fa_h a" "c < fa_w a * 4" for y c
  proof -
    let ?ws = "concat (map (\<lambda>y. map (\<lambda>c. (y * stride + c, fa_rows a ! y ! c)) [0..<fa_w a * 4]) [0..<fa_h a])"
    have c: "c < stride" if "c < fa_w a * 4" for c using that stride(1) by simp
    have "y * stride + c < stride * fa_h a"
    proof -
      have "y * stride + c < (y + 1) * stride" using c [OF yc(2)] by simp
      also have "\<dots> \<le> fa_h a * stride" by (rule mult_le_mono1) (use yc in simp)
      finally show ?thesis by (simp add: mult.commute)
    qed
    then have lt: "y * stride + c < length (sm_pixels (rm_slots ?m1 ! i))"
      using stride(2) px nx ml by (simp add: nth_list_update)
    have "sm_pixels (rm_slots ?m2 ! i) = fold (\<lambda>(k, x) px. px[k := x]) ?ws (sm_pixels (rm_slots ?m1 ! i))"
      using pixels_fold [of i ?m1 "copy_stores i stride a"] nx ml
      by (simp add: copy_stores_def pixel_writes_concat comp_def del: apply_store.simps)
    moreover have "fold (\<lambda>(k, x) px. px[k := x]) ?ws (sm_pixels (rm_slots ?m1 ! i)) ! (y * stride + c)
        = (if y * stride + c \<in> fst ` set ?ws then fa_rows a ! ((y * stride + c) div stride) ! ((y * stride + c) mod stride)
           else sm_pixels (rm_slots ?m1 ! i) ! (y * stride + c))"
      by (rule fold_update_nth [where f = "\<lambda>k. fa_rows a ! (k div stride) ! (k mod stride)", OF _ lt])
        (use c in auto)
    moreover have "y * stride + c \<in> fst ` set ?ws" using yc by force
    ultimately show ?thesis using c [OF yc(2)] by simp
  qed
  have "sm_pixels (rm_slots (fold apply_store sts m) ! i) = sm_pixels (rm_slots ?m2 ! i)"
    "sm_desc (rm_slots (fold apply_store sts m) ! i) = d" "seqlock_at (fold apply_store sts m) i = w + 1"
    "rm_latest (fold apply_store sts m) = pack_latest (fr_seq r + 1) (int i)"
    unfolding m' using il by simp_all
  moreover have "rm_slots (fold apply_store sts m) ! j = rm_slots m ! j" if "j \<noteq> i" for j
    unfolding m' using that o2 fold_apply_other [OF body_copy_stores [of i stride a], of ?m1 j] by simp
  ultimately show ?thesis
    using pix nx by (intro exI [of _ i]) (simp add: r' d_def w_def Let_def flip: stride_def)
qed

theorem publish_writes_frame_witness:
  "\<exists>r' sts. fr_publish sample_frame (fst (fr_create 4 3)) (snd (fr_create 4 3)) = (Inr True, r', sts)
     \<and> rm_latest (fold apply_store sts (snd (fr_create 4 3))) = pack_latest (fr_seq r') (fr_last_slot r')"
proof -
  let ?r = "fst (fr_create 4 3)" and ?m = "snd (fr_create 4 3)"
  have lay: "layout_for 4 None 3 = \<lparr>ly_slot_count = 3, ly_pixels_capacity = 4096, ly_slot_stride = 8192\<rparr>"
    by (simp add: layout_for_def height_cap_def capacity_for_def bytes_per_row_def round_up_def PAGE_def ROW_ALIGN_def Let_def)
  have ok: "\<exists>bs. pack_desc (frame_desc sample_frame 2 1) = Inr bs"
    by (simp add: pack_desc_def frame_desc_def sample_frame_def pack_uint_def PF_RGBA32F_def bytes_per_row_def
        round_up_def ROW_ALIGN_def)
  have fit: "fr_fits ?r 2 1"
    by (simp add: fr_create_def Let_def lay fr_fits_def ly_fits_def bytes_per_row_def round_up_def ROW_ALIGN_def)
  have "\<exists>r' sts. fr_publish sample_frame ?r ?m = (Inr True, r', sts)"
    using ok fit
    by (auto simp: fr_publish_def fr_create_def Let_def lay next_slot_def sample_frame_def bytes_per_row_def round_up_def ROW_ALIGN_def)
  then obtain r' sts where p: "fr_publish sample_frame ?r ?m = (Inr True, r', sts)" by blast
  have "fa_stamp sample_frame = None" "fr_layout ?r = layout_for 4 None 3" "3 \<le> (3::nat)" "length (rm_slots ?m) = 3"
    "0 \<le> rm_claim ?m" "-1 \<le> fr_last_slot ?r" "fr_last_slot ?r < int 3"
    "\<forall>i < 3. length (sm_pixels (rm_slots ?m ! i)) = ly_pixels_capacity (fr_layout ?r) div 4"
    by (simp_all add: sample_frame_def fr_create_def Let_def)
  from publish_writes_frame [OF p this] have "rm_latest (fold apply_store sts ?m) = pack_latest (fr_seq r') (fr_last_slot r')"
    by (auto simp: Let_def)
  with p show ?thesis by blast
qed

end
