(* ===== verification/Pathmap.thy ===== *)
theory Pathmap
  imports Protocol
begin

text \<open>
  \<open>ring1/pathmap.py\<close>: translating paths between the two machines. The platform and the home
  directory of the machine the code runs on are parameters (\<open>cur\<close>, \<open>home\<close>); characters are
  Latin-1, whose lower case keeps the length of a string.
\<close>

definition WIRE_OS :: string where "WIRE_OS = ''win''"

record path_mapping =
  pm_win :: string
  pm_mac :: string
  pm_enabled :: bool
  pm_label :: string

subsection \<open>Python's string operations\<close>

definition replace_char :: "char \<Rightarrow> char \<Rightarrow> string \<Rightarrow> string" where
  "replace_char a b s = map (\<lambda>c. if c = a then b else c) s"

definition lstrip :: "char list \<Rightarrow> string \<Rightarrow> string" where
  "lstrip cs s = dropWhile (\<lambda>c. c \<in> set cs) s"

definition rstrip :: "char list \<Rightarrow> string \<Rightarrow> string" where
  "rstrip cs s = rev (dropWhile (\<lambda>c. c \<in> set cs) (rev s))"

definition startswith :: "string \<Rightarrow> string \<Rightarrow> bool" where
  "startswith s p \<longleftrightarrow> take (length p) s = p"

definition lower_char :: "char \<Rightarrow> char" where
  "lower_char c =
     (if 65 \<le> code c \<and> code c \<le> 90 \<or> 192 \<le> code c \<and> code c \<le> 222 \<and> code c \<noteq> 215
      then char_of (code c + 32) else c)"

definition lower :: "string \<Rightarrow> string" where
  "lower s = map lower_char s"

definition is_alpha :: "char \<Rightarrow> bool" where
  "is_alpha c \<longleftrightarrow> 65 \<le> code c \<and> code c \<le> 90 \<or> 97 \<le> code c \<and> code c \<le> 122 \<or> code c \<in> {170, 181, 186}
     \<or> 192 \<le> code c \<and> code c \<noteq> 215 \<and> code c \<noteq> 247"

abbreviation slash :: char where "slash \<equiv> CHR ''/''"
abbreviation bslash :: char where "bslash \<equiv> CHR 0x5C"

definition to_slashes :: "string \<Rightarrow> string" where
  "to_slashes s = replace_char bslash slash s"

subsection \<open>The table\<close>

definition rows_to_wire :: "path_mapping list \<Rightarrow> json list" where
  "rows_to_wire ms = map (\<lambda>m. JObj [(''win'', JStr (pm_win m)), (''mac'', JStr (pm_mac m)),
     (''enabled'', JBool (pm_enabled m)), (''label'', JStr (pm_label m))]) ms"

definition row_from_wire :: "(json \<Rightarrow> string) \<Rightarrow> json \<Rightarrow> path_mapping option" where
  "row_from_wire py_repr r =
     (case r of
        JObj d \<Rightarrow>
          (case (dget d ''win'', dget d ''mac'') of
             (Some (JStr win), Some (JStr mac)) \<Rightarrow>
               Some \<lparr>pm_win = win, pm_mac = mac,
                 pm_enabled = (case dget d ''enabled'' of None \<Rightarrow> True | Some v \<Rightarrow> json_true v),
                 pm_label = (case dget d ''label'' of None \<Rightarrow> '''' | Some v \<Rightarrow> py_str py_repr v)\<rparr>
           | _ \<Rightarrow> None)
      | _ \<Rightarrow> None)"

definition rows_from_wire :: "(json \<Rightarrow> string) \<Rightarrow> json list \<Rightarrow> path_mapping list" where
  "rows_from_wire py_repr rows = List.map_filter (row_from_wire py_repr) rows"

definition row_key :: "path_mapping \<Rightarrow> string \<times> string" where
  "row_key m = (rstrip [bslash] (replace_char slash bslash (lower (pm_win m))), rstrip [slash] (pm_mac m))"

fun merge_loop :: "path_mapping list \<Rightarrow> path_mapping list \<Rightarrow> (string \<times> string) set \<Rightarrow> path_mapping list" where
  "merge_loop [] out seen = out"
| "merge_loop (m # ms) out seen =
     (if row_key m \<notin> seen then merge_loop ms (out @ [m]) (insert (row_key m) seen)
      else merge_loop ms out seen)"

definition merge_tables :: "path_mapping list \<Rightarrow> path_mapping list \<Rightarrow> path_mapping list" where
  "merge_tables own received = merge_loop received own (row_key ` set own)"

subsection \<open>Translation\<close>

definition current_os_tag :: "string \<Rightarrow> string" where
  "current_os_tag platform =
     (if platform = ''win32'' then ''win'' else if platform = ''darwin'' then ''mac'' else ''lin'')"

definition to_native :: "string \<Rightarrow> string \<Rightarrow> string" where
  "to_native path os_tag =
     (if os_tag = ''win'' then replace_char slash bslash path else replace_char bslash slash path)"

definition expand_home :: "string \<Rightarrow> string \<Rightarrow> string" where
  "expand_home home pre =
     (if pre = ''~'' \<or> startswith pre ''~/'' \<or> startswith pre [CHR ''~'', bslash]
      then let h = rstrip [slash] (to_slashes home); rest = lstrip [slash, bslash] (drop 1 pre)
           in if rest \<noteq> [] then h @ [slash] @ rest else h
      else pre)"

definition expand_mapping_prefix :: "string \<Rightarrow> string \<Rightarrow> string \<Rightarrow> string \<Rightarrow> string" where
  "expand_mapping_prefix cur home pre os_tag = (if os_tag = cur then expand_home home pre else pre)"

definition strip_for_win :: "string \<Rightarrow> string" where
  "strip_for_win s =
     (let s1 = (if 2 \<le> length s \<and> s ! 1 = CHR '':'' \<and> is_alpha (s ! 0) then drop 2 s else s)
      in lstrip [slash] s1)"

definition mapping_prefix_for :: "path_mapping \<Rightarrow> string \<Rightarrow> string option" where
  "mapping_prefix_for m os_tag =
     (if os_tag = ''win'' then Some (pm_win m) else if os_tag = ''mac'' then Some (pm_mac m) else None)"

definition candidates :: "string \<Rightarrow> string \<Rightarrow> path_mapping list \<Rightarrow> (string \<times> string) list" where
  "candidates source_os target_os mappings =
     List.map_filter (\<lambda>m.
       if \<not> pm_enabled m then None
       else case (mapping_prefix_for m source_os, mapping_prefix_for m target_os) of
              (Some s, Some t) \<Rightarrow> if s \<noteq> [] \<and> t \<noteq> [] then Some (s, t) else None
            | _ \<Rightarrow> None) mappings"

definition root_length :: "string \<times> string \<Rightarrow> int" where
  "root_length c = int (length (rstrip [slash] (to_slashes (fst c))))"

definition sorted_candidates :: "string \<Rightarrow> string \<Rightarrow> path_mapping list \<Rightarrow> (string \<times> string) list" where
  "sorted_candidates source_os target_os mappings =
     sort_key (\<lambda>c. - root_length c) (candidates source_os target_os mappings)"

text \<open>What is compared for one candidate: the path with its case, the path and the prefix as compared.\<close>

definition compare_forms :: "string \<Rightarrow> string \<Rightarrow> string \<Rightarrow> string \<Rightarrow> string \<Rightarrow> string \<times> string \<times> string" where
  "compare_forms cur home source_os path source_raw =
     (let norm_path = to_slashes path;
          norm_source = to_slashes (expand_mapping_prefix cur home source_raw source_os)
      in if source_os = ''win''
         then let stripped = strip_for_win norm_source
              in if rstrip [slash] (lstrip [slash] stripped) = []
                 then (norm_path, lower norm_path, lower (rstrip [slash] norm_source))
                 else (strip_for_win norm_path, lower (strip_for_win norm_path), lower (rstrip [slash] stripped))
         else (norm_path, norm_path, rstrip [slash] norm_source))"

definition boundary_match :: "string \<Rightarrow> string \<Rightarrow> bool" where
  "boundary_match cmp_source cmp_path \<longleftrightarrow> cmp_path = cmp_source \<or> startswith cmp_path (cmp_source @ [slash])"

definition candidate_matches :: "string \<Rightarrow> string \<Rightarrow> string \<Rightarrow> string \<Rightarrow> string \<times> string \<Rightarrow> bool" where
  "candidate_matches cur home source_os path c =
     (case compare_forms cur home source_os path (fst c) of (case_path, cmp_path, cmp_source) \<Rightarrow>
        boundary_match cmp_source cmp_path)"

definition rewrite :: "string \<Rightarrow> string \<Rightarrow> string \<Rightarrow> string \<Rightarrow> string \<Rightarrow> string \<times> string \<Rightarrow> string" where
  "rewrite cur home source_os target_os path c =
     (case compare_forms cur home source_os path (fst c) of (case_path, cmp_path, cmp_source) \<Rightarrow>
        let remainder = lstrip [slash, bslash] (drop (length cmp_source) case_path);
            target_norm = rstrip [slash, bslash] (expand_mapping_prefix cur home (snd c) target_os);
            translated = (if remainder \<noteq> [] then target_norm @ [slash] @ remainder else target_norm)
        in to_native translated target_os)"

definition translate :: "string \<Rightarrow> string \<Rightarrow> string \<Rightarrow> string \<Rightarrow> string \<Rightarrow> path_mapping list \<Rightarrow> string" where
  "translate cur home source_os target_os path mappings =
     (case find (candidate_matches cur home source_os path) (sorted_candidates source_os target_os mappings) of
        Some c \<Rightarrow> rewrite cur home source_os target_os path c
      | None \<Rightarrow> to_native path target_os)"

definition to_canonical :: "string \<Rightarrow> string \<Rightarrow> string \<Rightarrow> path_mapping list \<Rightarrow> string" where
  "to_canonical cur home native mappings = translate cur home cur WIRE_OS native mappings"

definition from_canonical :: "string \<Rightarrow> string \<Rightarrow> string \<Rightarrow> path_mapping list \<Rightarrow> string" where
  "from_canonical cur home wire mappings = translate cur home WIRE_OS cur wire mappings"

fun localize_loop :: "string \<Rightarrow> string \<Rightarrow> string \<Rightarrow> path_mapping list \<Rightarrow> string list \<Rightarrow> string" where
  "localize_loop cur home path mappings [] = path"
| "localize_loop cur home path mappings (src # srcs) =
     (let t = translate cur home src cur path mappings
      in if t \<noteq> to_native path cur then t else localize_loop cur home path mappings srcs)"

definition localize_any :: "string \<Rightarrow> string \<Rightarrow> string \<Rightarrow> path_mapping list \<Rightarrow> string" where
  "localize_any cur home path mappings = localize_loop cur home path mappings [WIRE_OS, ''mac'', ''lin'']"

definition is_mapped :: "string \<Rightarrow> string \<Rightarrow> string \<Rightarrow> string \<Rightarrow> path_mapping list \<Rightarrow> bool" where
  "is_mapped cur home source_os path mappings =
     (let target_os = (if source_os = ''win'' then ''mac'' else ''win'')
      in translate cur home source_os target_os path mappings \<noteq> to_native path target_os)"

subsection \<open>Component boundaries and the longest root\<close>

fun components :: "string \<Rightarrow> string list" where
  "components [] = [[]]"
| "components (c # cs) = (if c = slash then [] # components cs
     else (case components cs of w # ws \<Rightarrow> (c # w) # ws | [] \<Rightarrow> [[c]]))"

fun join_slash :: "string list \<Rightarrow> string" where
  "join_slash [] = []"
| "join_slash [w] = w"
| "join_slash (w # ws) = w @ slash # join_slash ws"

lemma components_not_Nil [simp]: "components s \<noteq> []"
  by (induction s) (auto split: list.splits)

lemma join_components [simp]: "join_slash (components s) = s"
proof (induction s)
  case (Cons c s)
  then show ?case
    by (cases "components s" rule: join_slash.cases) auto
qed simp

lemma join_Cons: "ws \<noteq> [] \<Longrightarrow> join_slash (w # ws) = w @ slash # join_slash ws"
  by (cases ws) auto

lemma join_append: "xs \<noteq> [] \<Longrightarrow> ys \<noteq> [] \<Longrightarrow> join_slash (xs @ ys) = join_slash xs @ slash # join_slash ys"
  by (induction xs rule: join_slash.induct) (auto simp: join_Cons)

lemma components_append: "components (a @ slash # b) = components a @ components b"
  by (induction a) (auto split: list.splits)

lemma boundary_match_iff: "boundary_match src path \<longleftrightarrow> prefix (components src) (components path)"
proof
  assume "boundary_match src path"
  then consider "path = src" | r where "path = src @ slash # r"
    unfolding boundary_match_def startswith_def by (metis append.assoc append_Cons append_Nil append_take_drop_id)
  then show "prefix (components src) (components path)"
    by cases (simp_all add: components_append)
next
  assume "prefix (components src) (components path)"
  then obtain zs where z: "components path = components src @ zs" by (auto elim: prefixE)
  show "boundary_match src path"
  proof (cases "zs = []")
    case True
    then have "path = src" using z by (metis append_Nil2 join_components)
    then show ?thesis by (simp add: boundary_match_def)
  next
    case False
    then have "path = src @ slash # join_slash zs" using z join_append by (metis components_not_Nil join_components)
    then show ?thesis by (simp add: boundary_match_def startswith_def)
  qed
qed

lemma find_sorted_least:
  "sorted (map f xs) \<Longrightarrow> find P xs = Some x \<Longrightarrow> y \<in> set xs \<Longrightarrow> P y \<Longrightarrow> (f x :: int) \<le> f y"
  by (induction xs) (auto split: if_splits)


definition sample_rows :: "path_mapping list" where
  "sample_rows = [\<lparr>pm_win = ''U:'' @ [bslash] @ ''proj'', pm_mac = ''/Volumes/share'', pm_enabled = True, pm_label = []\<rparr>]"


subsection \<open>There and back\<close>

lemma to_slashes_id: "bslash \<notin> set s \<Longrightarrow> to_slashes s = s"
  by (auto simp: to_slashes_def replace_char_def intro: map_idI)

lemma replace_back: "bslash \<notin> set s \<Longrightarrow> replace_char bslash slash (replace_char slash bslash s) = s"
  by (auto simp: replace_char_def intro!: map_idI)

lemma rstrip_id: "s = [] \<or> last s \<notin> set cs \<Longrightarrow> rstrip cs s = s"
  unfolding rstrip_def by (cases s rule: rev_cases) auto

lemma lstrip_id: "s = [] \<or> hd s \<notin> set cs \<Longrightarrow> lstrip cs s = s"
  unfolding lstrip_def by (cases s) auto

lemma expand_home_id: "s \<noteq> [] \<Longrightarrow> hd s \<noteq> CHR ''~'' \<Longrightarrow> expand_home home s = s"
  by (cases s) (auto simp: expand_home_def startswith_def)

text \<open>A root in plain form: no backslash, no home, no trailing separator.\<close>

definition plain_root :: "string \<Rightarrow> bool" where
  "plain_root s \<longleftrightarrow> s \<noteq> [] \<and> bslash \<notin> set s \<and> hd s \<noteq> CHR ''~'' \<and> last s \<noteq> slash"

text \<open>A Windows root with a drive letter and at least one folder, in plain form.\<close>

definition win_root :: "string \<Rightarrow> bool" where
  "win_root s \<longleftrightarrow> (\<exists>d r. s = d # CHR '':'' # bslash # r \<and> is_alpha d \<and> slash \<notin> set s \<and> bslash \<notin> set (take 1 r)
     \<and> r \<noteq> [] \<and> last r \<noteq> bslash)"

definition rel_path :: "string \<Rightarrow> bool" where
  "rel_path r \<longleftrightarrow> r \<noteq> [] \<and> bslash \<notin> set r \<and> hd r \<noteq> slash"

lemma mac_to_win:
  assumes "plain_root M" "win_root W" "rel_path r"
  shows "translate ''mac'' home ''mac'' ''win'' (M @ slash # r) [\<lparr>pm_win = W, pm_mac = M, pm_enabled = True, pm_label = lb\<rparr>]
    = W @ bslash # replace_char slash bslash r"
proof -
  obtain d w where W: "W = d # CHR '':'' # bslash # w" "is_alpha d" "slash \<notin> set W" "w \<noteq> []" "last w \<noteq> bslash"
    using assms(2) unfolding win_root_def by blast
  have M: "M \<noteq> []" "bslash \<notin> set M" "hd M \<noteq> CHR ''~''" "last M \<noteq> slash" using assms(1) by (simp_all add: plain_root_def)
  have r: "r \<noteq> []" "bslash \<notin> set r" "hd r \<noteq> slash" using assms(3) by (simp_all add: rel_path_def)
  have ps: "to_slashes (M @ slash # r) = M @ slash # r" by (rule to_slashes_id) (use M r in auto)
  have cf: "compare_forms ''mac'' home ''mac'' (M @ slash # r) M = (M @ slash # r, M @ slash # r, M)"
    using M ps by (simp add: compare_forms_def expand_mapping_prefix_def expand_home_id to_slashes_id rstrip_id Let_def)
  have "last W \<in> set W" using W(1) by (intro last_in_set) simp
  moreover have "last W = last w" using W(1,4) by simp
  ultimately have "last W \<notin> set [slash, bslash]" using W(3,5) by auto
  then have "rstrip [slash, bslash] W = W" by (intro rstrip_id) auto
  moreover have "lstrip [slash, bslash] (slash # r) = r"
    using r by (cases r) (auto simp: lstrip_def)
  moreover have "replace_char slash bslash W = W" using W(3) by (auto simp: replace_char_def intro!: map_idI)
  ultimately show ?thesis
    using r W(1) M(1)
    by (simp add: translate_def sorted_candidates_def candidates_def List.map_filter_def mapping_prefix_for_def
        candidate_matches_def rewrite_def cf boundary_match_def startswith_def expand_mapping_prefix_def to_native_def
        replace_char_def)
qed

lemma win_to_mac:
  assumes "plain_root M" "win_root W" "rel_path r"
  shows "translate ''mac'' home ''win'' ''mac'' (W @ bslash # replace_char slash bslash r)
      [\<lparr>pm_win = W, pm_mac = M, pm_enabled = True, pm_label = lb\<rparr>] = M @ slash # r"
proof -
  obtain d w where W: "W = d # CHR '':'' # bslash # w" "is_alpha d" "slash \<notin> set W" "w \<noteq> []" "last w \<noteq> bslash"
    "bslash \<notin> set (take 1 w)"
    using assms(2) unfolding win_root_def by blast
  have M: "M \<noteq> []" "bslash \<notin> set M" "hd M \<noteq> CHR ''~''" "last M \<noteq> slash" using assms(1) by (simp_all add: plain_root_def)
  have r: "r \<noteq> []" "bslash \<notin> set r" "hd r \<noteq> slash" using assms(3) by (simp_all add: rel_path_def)
  define v where "v = to_slashes w"
  have v: "v \<noteq> []" "last v \<noteq> slash" "hd v \<noteq> slash"
  proof -
    have nl: "slash \<notin> set w" using W(1,3) by simp
    then have "last w \<noteq> slash" using W(4) last_in_set by metis
    then show "v \<noteq> []" "last v \<noteq> slash"
      using W(4,5) by (auto simp: v_def to_slashes_def replace_char_def last_map)
    show "hd v \<noteq> slash" using W(4,6) nl by (cases w) (auto simp: v_def to_slashes_def replace_char_def)
  qed
  have p: "to_slashes (W @ bslash # replace_char slash bslash r) = d # CHR '':'' # slash # v @ slash # r"
    and s: "to_slashes W = d # CHR '':'' # slash # v"
    using W(1,2) replace_back [OF r(2)] by (auto simp: to_slashes_def replace_char_def v_def is_alpha_def)
  have st: "strip_for_win (d # CHR '':'' # slash # v) = v" "strip_for_win (d # CHR '':'' # slash # v @ slash # r) = v @ slash # r"
    using W(2) v by (cases v; auto simp: strip_for_win_def lstrip_def)+
  have rs: "rstrip [slash] v = v" using v by (simp add: rstrip_id)
  have "lstrip [slash] v = v" using v by (simp add: lstrip_id)
  then have cf: "compare_forms ''mac'' home ''win'' (W @ bslash # replace_char slash bslash r) W
      = (v @ slash # r, lower (v @ slash # r), lower v)"
    using p s st rs v(1) by (simp add: compare_forms_def expand_mapping_prefix_def Let_def)
  have lw: "lower (v @ slash # r) = lower v @ slash # lower r"
    by (simp add: lower_def lower_char_def)
  have "rstrip [slash, bslash] M = M"
  proof (rule rstrip_id)
    have "last M \<noteq> bslash" using M(1,2) last_in_set by metis
    then show "M = [] \<or> last M \<notin> set [slash, bslash]" using M(4) by simp
  qed
  moreover have "lstrip [slash, bslash] (slash # r) = r"
    using r by (cases r) (auto simp: lstrip_def)
  moreover have "replace_char bslash slash (M @ slash # r) = M @ slash # r"
    using to_slashes_id [of "M @ slash # r"] M r by (simp add: to_slashes_def)
  ultimately show ?thesis
    using r W(1) M cf lw
    by (simp add: translate_def sorted_candidates_def candidates_def List.map_filter_def mapping_prefix_for_def
        candidate_matches_def rewrite_def boundary_match_def startswith_def expand_mapping_prefix_def to_native_def
        expand_home_id length_map lower_def)
qed

text \<open>Under one mapping row, a path the host canonicalizes for the wire comes back on the same
  machine exactly as it was, letter case included.\<close>

theorem path_roundtrip:
  assumes "plain_root M" "win_root W" "rel_path r"
  defines "rows \<equiv> [\<lparr>pm_win = W, pm_mac = M, pm_enabled = True, pm_label = []\<rparr>]"
  shows "to_canonical ''mac'' home (M @ slash # r) rows = W @ bslash # replace_char slash bslash r
    \<and> from_canonical ''mac'' home (to_canonical ''mac'' home (M @ slash # r) rows) rows = M @ slash # r"
  using mac_to_win [OF assms(1-3)] win_to_mac [OF assms(1-3)]
  by (simp add: rows_def to_canonical_def from_canonical_def WIRE_OS_def)

theorem path_roundtrip_witness:
  "from_canonical ''mac'' [] (to_canonical ''mac'' [] ''/Volumes/share/Shot/a.exr'' sample_rows) sample_rows
     = ''/Volumes/share/Shot/a.exr''"
proof -
  have "plain_root ''/Volumes/share''" "win_root (''U:'' @ [bslash] @ ''proj'')" "rel_path ''Shot/a.exr''"
    by (simp_all add: plain_root_def win_root_def rel_path_def is_alpha_def)
  note r = path_roundtrip [OF this, of "[]"]
  have "''/Volumes/share/Shot/a.exr'' = ''/Volumes/share'' @ slash # ''Shot/a.exr''" by simp
  then show ?thesis unfolding sample_rows_def using r by metis
qed

subsection \<open>Merging tables\<close>

lemma merge_loop_spec:
  "\<exists>add. merge_loop ms out seen = out @ add \<and> distinct (map row_key add) \<and> set add \<subseteq> set ms
     \<and> row_key ` set add \<inter> seen = {} \<and> row_key ` set ms \<subseteq> seen \<union> row_key ` set add"
proof (induction ms arbitrary: out seen)
  case (Cons m ms)
  show ?case
  proof (cases "row_key m \<in> seen")
    case True
    obtain add where a: "merge_loop ms out seen = out @ add" "distinct (map row_key add)" "set add \<subseteq> set ms"
      "row_key ` set add \<inter> seen = {}" "row_key ` set ms \<subseteq> seen \<union> row_key ` set add"
      using Cons.IH [of out seen] by (elim exE conjE)
    show ?thesis
      by (intro exI [of _ add] conjI) (use a True in auto)
  next
    case False
    obtain add where a: "merge_loop ms (out @ [m]) (insert (row_key m) seen) = (out @ [m]) @ add"
      "distinct (map row_key add)" "set add \<subseteq> set ms" "row_key ` set add \<inter> insert (row_key m) seen = {}"
      "row_key ` set ms \<subseteq> insert (row_key m) seen \<union> row_key ` set add"
      using Cons.IH [of "out @ [m]" "insert (row_key m) seen"] by (elim exE conjE)
    show ?thesis
    proof (intro exI conjI)
      show "merge_loop (m # ms) out seen = out @ (m # add)" using False a(1) by simp
      show "distinct (map row_key (m # add))" using a(2,4) by auto
      show "set (m # add) \<subseteq> set (m # ms)" using a(3) by auto
      show "row_key ` set (m # add) \<inter> seen = {}" using a(4) False by auto
      show "row_key ` set (m # ms) \<subseteq> seen \<union> row_key ` set (m # add)" using a(5) by auto
    qed
  qed
qed simp

text \<open>Merging the tables keeps this machine's rows, unchanged and first, and adds from the
  peer's each location not yet known exactly once, so every location either side knows is known.\<close>

theorem merge_tables_spec:
  "\<exists>add. merge_tables own received = own @ add \<and> distinct (map row_key add) \<and> set add \<subseteq> set received
     \<and> row_key ` set add \<inter> row_key ` set own = {}
     \<and> row_key ` set (merge_tables own received) = row_key ` set own \<union> row_key ` set received"
proof -
  obtain add where "merge_tables own received = own @ add" "distinct (map row_key add)" "set add \<subseteq> set received"
    "row_key ` set add \<inter> row_key ` set own = {}" "row_key ` set received \<subseteq> row_key ` set own \<union> row_key ` set add"
    using merge_loop_spec [of received own "row_key ` set own"] unfolding merge_tables_def by (elim exE conjE)
  then show ?thesis by (intro exI [of _ add]) auto
qed

end
