(* ===== verification/Timeline.thy ===== *)
theory Timeline
  imports Prelude
begin

text \<open>
  \<open>ring1/timeline.py\<close>: one line per session stage. The clock, the wall-clock text and the
  formatting of a float to three decimals (\<open>f3\<close>) are arguments; \<open>ok\<close> says whether the file
  operation succeeds. The file is the list of lines it holds.
\<close>

definition KEEP :: nat where "KEEP = 400"

datatype tl_value = TFloat real | TList "tl_value list" | TOther string

record timeline =
  tl_t0 :: "time option"
  tl_path :: string
  tl_role :: string
  tl_lines :: "string list"
  tl_last :: "(string, string) dict"
  tl_file :: "string list"

definition tl_init :: timeline where
  "tl_init = \<lparr>tl_t0 = None, tl_path = [], tl_role = [], tl_lines = [], tl_last = [], tl_file = []\<rparr>"

fun join_with :: "string \<Rightarrow> string list \<Rightarrow> string" where
  "join_with sep [] = []"
| "join_with sep [x] = x"
| "join_with sep (x # xs) = x @ sep @ join_with sep xs"

fun tl_fmt :: "(real \<Rightarrow> string) \<Rightarrow> tl_value \<Rightarrow> string" where
  "tl_fmt f3 (TFloat x) = f3 x"
| "tl_fmt f3 (TList xs) = ''['' @ join_with '','' (map (tl_fmt f3) xs) @ '']''"
| "tl_fmt f3 (TOther s) = take 300 (map (\<lambda>c. if c = CHR 0x0A then CHR '' '' else c) s)"

definition tl_body :: "(real \<Rightarrow> string) \<Rightarrow> (string, tl_value) dict \<Rightarrow> string" where
  "tl_body f3 detail = join_with '' '' (map (\<lambda>(k, v). k @ ''='' @ tl_fmt f3 v) detail)"

definition tl_elapsed :: "time \<Rightarrow> timeline \<Rightarrow> time" where
  "tl_elapsed now t = (case tl_t0 t of None \<Rightarrow> 0 | Some t0 \<Rightarrow> now - t0)"

definition keep_last :: "nat \<Rightarrow> 'a list \<Rightarrow> 'a list" where
  "keep_last n xs = drop (length xs - n) xs"

definition tl_mark :: "(real \<Rightarrow> string) \<Rightarrow> string \<Rightarrow> bool \<Rightarrow> time \<Rightarrow> string \<Rightarrow> (string, tl_value) dict
    \<Rightarrow> timeline \<Rightarrow> string \<times> timeline" where
  "tl_mark f3 wall ok now stage detail t =
     (let body = tl_body f3 detail;
          line = wall @ '' +'' @ f3 (tl_elapsed now t) @ ''s '' @ stage @ (if body \<noteq> [] then '' '' @ body else []);
          t1 = t\<lparr>tl_lines := keep_last KEEP (tl_lines t @ [line]), tl_last := dset stage body (tl_last t)\<rparr>
      in (line, if tl_path t \<noteq> [] \<and> ok then t1\<lparr>tl_file := tl_file t @ [line]\<rparr> else t1))"

definition tl_begin :: "(real \<Rightarrow> string) \<Rightarrow> string \<Rightarrow> bool \<Rightarrow> time \<Rightarrow> string \<Rightarrow> string \<Rightarrow> (string, tl_value) dict
    \<Rightarrow> timeline \<Rightarrow> timeline" where
  "tl_begin f3 wall ok now role path detail t =
     (let t1 = t\<lparr>tl_t0 := Some now, tl_path := path, tl_role := role, tl_lines := [], tl_last := []\<rparr>;
          t2 = (if path = [] then t1 else if ok then t1\<lparr>tl_file := []\<rparr> else t1\<lparr>tl_path := []\<rparr>)
      in snd (tl_mark f3 wall ok now ''session.start'' ((''role'', TOther role) # detail) t2))"

definition tl_mark_changed :: "(real \<Rightarrow> string) \<Rightarrow> string \<Rightarrow> bool \<Rightarrow> time \<Rightarrow> string \<Rightarrow> (string, tl_value) dict
    \<Rightarrow> timeline \<Rightarrow> bool \<times> timeline" where
  "tl_mark_changed f3 wall ok now stage detail t =
     (if dget (tl_last t) stage = Some (tl_body f3 detail) then (False, t)
      else (True, snd (tl_mark f3 wall ok now stage detail t)))"

definition tl_tail :: "nat \<Rightarrow> timeline \<Rightarrow> string list" where
  "tl_tail n t = (if n = 0 then tl_lines t else keep_last n (tl_lines t))"

definition tl_reset :: "timeline \<Rightarrow> timeline" where
  "tl_reset t = t\<lparr>tl_t0 := None, tl_path := [], tl_role := [], tl_lines := [], tl_last := []\<rparr>"

subsection \<open>What is kept\<close>

lemma keep_last_snoc: "keep_last n (keep_last n xs @ [x]) = keep_last n (xs @ [x])"
  by (cases "length xs \<le> n") (auto simp: keep_last_def Suc_diff_le)

lemma length_keep_last [simp]: "length (keep_last n xs) = min n (length xs)"
  by (simp add: keep_last_def)

text \<open>While writes succeed the file holds every line since the session began and the memory the
  last \<open>KEEP\<close> of them.\<close>

definition tl_synced :: "timeline \<Rightarrow> bool" where
  "tl_synced t \<longleftrightarrow> tl_path t \<noteq> [] \<and> tl_lines t = keep_last KEEP (tl_file t)"

lemma tl_mark_synced: "tl_synced t \<Longrightarrow> tl_synced (snd (tl_mark f3 wall True now stage detail t))"
  by (simp add: tl_synced_def tl_mark_def Let_def keep_last_snoc)

lemma tl_begin_synced: "path \<noteq> [] \<Longrightarrow> tl_synced (tl_begin f3 wall True now role path detail t)"
  unfolding tl_begin_def by (simp add: Let_def) (rule tl_mark_synced, simp add: tl_synced_def keep_last_def)

lemma tl_mark_changed_idem:
  "fst (tl_mark_changed f3 w' ok' now' stage detail (snd (tl_mark_changed f3 w ok now stage detail t))) = False"
  by (simp add: tl_mark_changed_def tl_mark_def Let_def)

end
