(* ===== verification/Toolbox.thy ===== *)
theory Toolbox
  imports Protocol
begin

text \<open>
  \<open>ring1/toolbox.py\<close>: which ffmpeg to run. The environment, the file system (\<open>isfile\<close>,
  \<open>read_file\<close>), PATH lookup and the spawn test are parameters.
\<close>

definition toolbox_path :: "string \<Rightarrow> (string \<Rightarrow> string) \<Rightarrow> (string \<Rightarrow> string \<Rightarrow> string) \<Rightarrow> string \<Rightarrow> string" where
  "toolbox_path platform expanduser path_join localappdata =
     (if platform = ''win32''
      then (if localappdata \<noteq> [] then path_join (path_join localappdata ''QCView'') ''toolbox.json'' else [])
      else if platform = ''darwin'' then expanduser ''~/Library/Application Support/QCView/toolbox.json''
      else expanduser ''~/.local/share/QCView/toolbox.json'')"

text \<open>\<open>read_file\<close> is None when opening or decoding the file raises an OSError.\<close>

definition read_toolbox :: "(string \<Rightarrow> string option) \<Rightarrow> string \<Rightarrow> header" where
  "read_toolbox read_file path =
     (case read_file path of None \<Rightarrow> []
      | Some s \<Rightarrow> (case loads s of Some (JObj d) \<Rightarrow> d | _ \<Rightarrow> []))"

definition strip_spaces :: "string \<Rightarrow> string" where
  "strip_spaces s = (let w = (\<lambda>c. code c = 32 \<or> 9 \<le> code c \<and> code c \<le> 13 \<or> 28 \<le> code c \<and> code c \<le> 31
                                  \<or> code c = 133 \<or> code c = 160)
                     in rev (dropWhile w (rev (dropWhile w s))))"

text \<open>The answer is the path, or None, and where it came from or why there is none. A toolbox entry
  that is not a string is not a file.\<close>

definition resolve_ffmpeg :: "(string \<Rightarrow> bool) \<Rightarrow> (string \<Rightarrow> bool) \<Rightarrow> (string \<Rightarrow> string option) \<Rightarrow> string option
    \<Rightarrow> string option \<Rightarrow> string \<Rightarrow> string option \<times> string" where
  "resolve_ffmpeg isfile spawnable read_file found pref_value toolbox_file =
     (let pref = strip_spaces (case pref_value of None \<Rightarrow> [] | Some p \<Rightarrow> p)
      in if pref \<noteq> [] \<and> pref \<noteq> ''ffmpeg''
         then (if isfile pref \<and> spawnable pref then (Some pref, ''preferences'')
               else if isfile pref then (None, ''preferences ffmpeg exists but won'' @ [CHR 0x27] @ ''t spawn: '' @ pref)
               else (None, ''preferences path missing: '' @ pref))
         else let qcview = (case dget (read_toolbox read_file toolbox_file) ''ffmpeg'' of Some (JStr s) \<Rightarrow> s | _ \<Rightarrow> [])
              in if qcview \<noteq> [] \<and> isfile qcview \<and> spawnable qcview then (Some qcview, ''qcview'')
                 else case found of
                   Some f \<Rightarrow> if f \<noteq> [] \<and> spawnable f then (Some f, ''path'')
                             else if qcview \<noteq> [] \<or> f \<noteq> [] then (None, ''found but not spawnable (MSIX ACL?) - set a path in preferences'')
                             else (None, ''not found - set a path in preferences or install QCView'')
                 | None \<Rightarrow> if qcview \<noteq> [] then (None, ''found but not spawnable (MSIX ACL?) - set a path in preferences'')
                          else (None, ''not found - set a path in preferences or install QCView''))"

lemma resolve_ffmpeg_runs:
  "fst (resolve_ffmpeg isfile spawnable read_file found pref tb) = Some f \<Longrightarrow> spawnable f \<and> f \<noteq> []"
  by (auto simp: resolve_ffmpeg_def Let_def split: if_splits option.splits)

lemma resolve_ffmpeg_pref_final:
  assumes "strip_spaces p \<noteq> []" "strip_spaces p \<noteq> ''ffmpeg''"
  shows "fst (resolve_ffmpeg isfile spawnable read_file found (Some p) tb)
     = (if isfile (strip_spaces p) \<and> spawnable (strip_spaces p) then Some (strip_spaces p) else None)"
  using assms by (simp add: resolve_ffmpeg_def Let_def)

end
