(* ===== verification/Transport.thy ===== *)
theory Transport
  imports Protocol
begin

text \<open>
  \<open>ring1/transport.py\<close>: the interface between the session and a transport, and what both
  transports share. A locale states each half of the contract: requests are answered at most
  once, each by its own first reply; a send that is refused leaves the lane as it was and one
  that is accepted adds exactly its message at the end. \<open>Transport_Agent\<close> and \<open>Transport_Zmq\<close>
  interpret both on their own definitions.
\<close>

record transport_config =
  tc_address :: string
  tc_port_control :: int
  tc_port_hot :: int
  tc_port_cold :: int
  tc_heartbeat_interval :: time
  tc_heartbeat_misses :: int
  tc_token :: string
  tc_helper_path :: string
  tc_fingerprint :: string
  tc_cert_dir :: string
  tc_video_listen :: string
  tc_cap_mbps :: real

definition transport_config_of :: "string \<Rightarrow> int \<Rightarrow> int \<Rightarrow> int \<Rightarrow> transport_config" where
  "transport_config_of address control hot cold =
     \<lparr>tc_address = address, tc_port_control = control, tc_port_hot = hot, tc_port_cold = cold,
      tc_heartbeat_interval = 1, tc_heartbeat_misses = 3, tc_token = [], tc_helper_path = [],
      tc_fingerprint = [], tc_cert_dir = [], tc_video_listen = [], tc_cap_mbps = 0\<rparr>"

subsection \<open>Pending requests\<close>

text \<open>
  One entry per request: its event (absent for a request that does not block, otherwise whether
  it is set) and the replies that came for it. \<open>req\<close> in a reply is any JSON value, looked up
  with Python's equality; a list or an object cannot be looked up.
\<close>

record pending_slot =
  ps_event :: "bool option"
  ps_replies :: "header list"

type_synonym pending_table = "(int, pending_slot) dict"

definition find_pending :: "json \<Rightarrow> pending_table \<Rightarrow> py_error + (int \<times> pending_slot) option" where
  "find_pending v t = (if \<not> hashable v then Inl TypeError else Inr (find (\<lambda>(k, p). json_eq_int v k) t))"

definition req_of :: "header \<Rightarrow> json" where
  "req_of reply = (case dget reply ''req'' of None \<Rightarrow> JNull | Some v \<Rightarrow> v)"

definition with_req :: "int \<Rightarrow> header \<Rightarrow> header" where
  "with_req req_id msg = dset ''req'' (JInt req_id) msg"

definition is_pong :: "header \<Rightarrow> bool" where
  "is_pong reply \<longleftrightarrow> dget reply ''kind'' = Some (JStr ''pong'')"

definition slot_reply :: "header \<Rightarrow> pending_slot \<Rightarrow> pending_slot" where
  "slot_reply reply p = p\<lparr>ps_replies := ps_replies p @ [reply], ps_event := map_option (\<lambda>_. True) (ps_event p)\<rparr>"

definition table_deliver :: "header \<Rightarrow> pending_table \<Rightarrow> py_error + pending_table" where
  "table_deliver reply t =
     (case find_pending (req_of reply) t of
        Inl e \<Rightarrow> Inl e
      | Inr None \<Rightarrow> Inr t
      | Inr (Some (k, p)) \<Rightarrow> Inr (dset k (slot_reply reply p) t))"

definition table_poll :: "int \<Rightarrow> pending_table \<Rightarrow> header option \<times> pending_table" where
  "table_poll req_id t =
     (case dget t req_id of
        Some p \<Rightarrow> (case ps_replies p of r # _ \<Rightarrow> (Some r, dpop req_id t) | [] \<Rightarrow> (None, t))
      | None \<Rightarrow> (None, t))"

text \<open>The end of a blocking request: the entry goes, its first reply is the result.\<close>

definition table_finish :: "int \<Rightarrow> pending_table \<Rightarrow> header option \<times> pending_table" where
  "table_finish req_id t =
     (case dget t req_id of
        Some p \<Rightarrow> (case ps_replies p of r # _ \<Rightarrow> Some r | [] \<Rightarrow> None)
      | None \<Rightarrow> None, dpop req_id t)"

definition table_waiting :: "pending_table \<Rightarrow> int \<Rightarrow> header list option" where
  "table_waiting t k = map_option ps_replies (dget t k)"

definition table_ok :: "pending_table \<Rightarrow> int \<Rightarrow> bool" where
  "table_ok t n \<longleftrightarrow> dict_ok t \<and> (\<forall>k \<in> fst ` set t. k < n)"

text \<open>What a reply answers, among the ids: with Python's equality no JSON value equals two ints.\<close>

definition answers :: "header \<Rightarrow> int \<Rightarrow> bool" where
  "answers reply k \<longleftrightarrow> \<not> is_pong reply \<and> hashable (req_of reply) \<and> json_eq_int (req_of reply) k"

subsection \<open>Equality of a reply's id with a request's\<close>

lemma numeral_eq_int_unique: "numeral_eq_int t a \<Longrightarrow> numeral_eq_int t b \<Longrightarrow> a = b"
  by (auto simp: numeral_eq_int_def Let_def split: prod.splits option.splits)

lemma json_eq_int_unique: "json_eq_int v a \<Longrightarrow> json_eq_int v b \<Longrightarrow> a = b"
  by (auto simp: json_eq_int_def intro: numeral_eq_int_unique split: json.splits)

lemma answers_unique: "answers r a \<Longrightarrow> answers r b \<Longrightarrow> a = b"
  by (auto simp: answers_def intro: json_eq_int_unique)

lemma find_pending_Some:
  assumes "find_pending v t = Inr (Some (k, p))" "dict_ok t"
  shows "json_eq_int v k \<and> hashable v \<and> dget t k = Some p"
proof -
  have h: "hashable v" and f: "find (\<lambda>(k, p). json_eq_int v k) t = Some (k, p)"
    using assms(1) by (auto simp: find_pending_def split: if_splits)
  have "(k, p) \<in> set t \<and> json_eq_int v k"
    using f by (force simp: find_Some_iff dest: nth_mem)
  then show ?thesis using h assms(2) by (simp add: dict_ok_def)
qed

lemma find_pending_None:
  assumes "find_pending v t = Inr None" "json_eq_int v k"
  shows "dget t k = None"
proof -
  have "find (\<lambda>(k, p). json_eq_int v k) t = None"
    using assms(1) by (auto simp: find_pending_def split: if_splits)
  then have "k \<notin> fst ` set t" using assms(2) by (auto simp: find_None_iff)
  then show ?thesis by (simp add: not_in_keys_iff)
qed

lemma find_pending_error: "find_pending v t = Inl e \<Longrightarrow> \<not> hashable v"
  by (auto simp: find_pending_def split: if_splits)

lemma table_waiting_dset [simp]:
  "table_waiting (dset k p t) = (table_waiting t)(k \<mapsto> ps_replies p)"
  by (auto simp: table_waiting_def)

lemma table_waiting_dpop [simp]: "table_waiting (dpop k t) = (table_waiting t)(k := None)"
  by (auto simp: table_waiting_def)

lemma table_ok_new: "table_ok t n \<Longrightarrow> table_ok (dset n p t) (n + 1)"
  by (auto simp: table_ok_def)

lemma table_ok_dpop: "table_ok t n \<Longrightarrow> table_ok (dpop k t) n"
  by (auto simp: table_ok_def)

lemma table_ok_waiting: "table_ok t n \<Longrightarrow> table_waiting t k \<noteq> None \<Longrightarrow> k < n"
  by (auto simp: table_ok_def table_waiting_def dest!: map_of_SomeD)

lemma table_poll_spec:
  "table_poll k t = (case table_waiting t k of Some (r # rs) \<Rightarrow> (Some r, dpop k t) | _ \<Rightarrow> (None, t))"
  by (auto simp: table_poll_def table_waiting_def split: option.splits list.splits)

lemma table_deliver_spec:
  assumes ok: "table_ok t n" and pong: "\<not> is_pong r" and d: "table_deliver r t = Inr t'"
  shows "table_ok t' n \<and> table_waiting t' =
    (\<lambda>k. if answers r k then map_option (\<lambda>rs. rs @ [r]) (table_waiting t k) else table_waiting t k)"
proof -
  have dk: "dict_ok t" using ok by (simp add: table_ok_def)
  consider (none) "find_pending (req_of r) t = Inr None" "t' = t"
    | (some) k p where "find_pending (req_of r) t = Inr (Some (k, p))" "t' = dset k (slot_reply r p) t"
    using d by (auto simp: table_deliver_def split: sum.splits option.splits)
  then show ?thesis
  proof cases
    case none
    have "table_waiting t k = None" if "answers r k" for k
      using that find_pending_None [OF none(1)] by (simp add: answers_def table_waiting_def)
    then show ?thesis using ok none(2) by auto
  next
    case some
    have k: "json_eq_int (req_of r) k" "hashable (req_of r)" "dget t k = Some p"
      using find_pending_Some [OF some(1) dk] by auto
    then have a: "answers r k" using pong by (simp add: answers_def)
    have "k \<in> fst ` set t" using k(3) by (metis not_in_keys_iff option.distinct(1))
    then have "table_ok t' n" using ok some(2) by (auto simp: table_ok_def insert_absorb)
    moreover have "table_waiting t' j =
        (if answers r j then map_option (\<lambda>rs. rs @ [r]) (table_waiting t j) else table_waiting t j)" for j
    proof (cases "j = k")
      case True
      then show ?thesis using a k(3) some(2) by (simp add: table_waiting_def slot_reply_def)
    next
      case False
      then have "\<not> answers r j" using answers_unique a by blast
      then show ?thesis using False some(2) by (simp add: table_waiting_def)
    qed
    ultimately show ?thesis by blast
  qed
qed

lemma table_deliver_error: "table_deliver r t = Inl e \<Longrightarrow> \<not> answers r k"
  by (auto simp: table_deliver_def answers_def dest: find_pending_error split: sum.splits option.splits)

subsection \<open>Requests are answered once, each by its own first reply\<close>

datatype 'o req_op = Issue header | Poll int | Cancel int | Deliver time header | Other 'o
datatype req_out = Got header | Nothing

text \<open>What a request sees of a run: the operations after the one that issued it.\<close>

fun since_issue :: "nat \<Rightarrow> 'o req_op list \<Rightarrow> 'o req_op list option" where
  "since_issue j [] = None"
| "since_issue j (Issue m # ops) = (case j of 0 \<Rightarrow> Some ops | Suc i \<Rightarrow> since_issue i ops)"
| "since_issue j (op # ops) = since_issue j ops"

fun delivered :: "'o req_op list \<Rightarrow> header list" where
  "delivered [] = []"
| "delivered (Deliver t r # ops) = r # delivered ops"
| "delivered (op # ops) = delivered ops"

text \<open>One operation on a channel whose five operations are given, and a run of several.\<close>

fun req_step :: "(header \<Rightarrow> 's \<Rightarrow> (py_error + int) \<times> 's) \<Rightarrow> (int \<Rightarrow> 's \<Rightarrow> header option \<times> 's)
    \<Rightarrow> (int \<Rightarrow> 's \<Rightarrow> 's) \<Rightarrow> (time \<Rightarrow> header \<Rightarrow> 's \<Rightarrow> py_error + 's) \<Rightarrow> ('o \<Rightarrow> 's \<Rightarrow> 's)
    \<Rightarrow> 'o req_op \<Rightarrow> 's \<Rightarrow> req_out \<times> 's" where
  "req_step issue poll cancel deliver other (Issue m) s = (Nothing, snd (issue m s))"
| "req_step issue poll cancel deliver other (Poll k) s =
     ((case fst (poll k s) of Some r \<Rightarrow> Got r | None \<Rightarrow> Nothing), snd (poll k s))"
| "req_step issue poll cancel deliver other (Cancel k) s = (Nothing, cancel k s)"
| "req_step issue poll cancel deliver other (Deliver t r) s =
     (Nothing, case deliver t r s of Inl e \<Rightarrow> s | Inr s' \<Rightarrow> s')"
| "req_step issue poll cancel deliver other (Other x) s = (Nothing, other x s)"

fun req_run :: "(header \<Rightarrow> 's \<Rightarrow> (py_error + int) \<times> 's) \<Rightarrow> (int \<Rightarrow> 's \<Rightarrow> header option \<times> 's)
    \<Rightarrow> (int \<Rightarrow> 's \<Rightarrow> 's) \<Rightarrow> (time \<Rightarrow> header \<Rightarrow> 's \<Rightarrow> py_error + 's) \<Rightarrow> ('o \<Rightarrow> 's \<Rightarrow> 's)
    \<Rightarrow> 'o req_op list \<Rightarrow> 's \<Rightarrow> req_out list \<times> 's" where
  "req_run issue poll cancel deliver other [] s = ([], s)"
| "req_run issue poll cancel deliver other (op # ops) s =
     (let (out, s1) = req_step issue poll cancel deliver other op s;
          (outs, s2) = req_run issue poll cancel deliver other ops s1 in (out # outs, s2))"

lemma run_Cons: "fst (req_run i p c d x (op # ops) s) =
    fst (req_step i p c d x op s) # fst (req_run i p c d x ops (snd (req_step i p c d x op s)))"
  "snd (req_run i p c d x (op # ops) s) = snd (req_run i p c d x ops (snd (req_step i p c d x op s)))"
  by (simp_all add: Let_def split: prod.splits)

declare req_run.simps(2) [simp del]

text \<open>A poll of \<open>k\<close> in the run took a reply.\<close>

definition taken :: "int \<Rightarrow> 'o req_op list \<Rightarrow> req_out list \<Rightarrow> bool" where
  "taken k ops outs \<longleftrightarrow> (\<exists>r. (Poll k, Got r) \<in> set (zip ops outs))"

lemma taken_Cons: "taken k (op # ops) (out # outs) \<longleftrightarrow> (op = Poll k \<and> (\<exists>r. out = Got r)) \<or> taken k ops outs"
  by (auto simp: taken_def)

lemma taken_Nil [simp]: "\<not> taken k [] outs"
  by (simp add: taken_def)

locale request_channel =
  fixes issue :: "header \<Rightarrow> 's \<Rightarrow> (py_error + int) \<times> 's"
    and poll :: "int \<Rightarrow> 's \<Rightarrow> header option \<times> 's"
    and cancel :: "int \<Rightarrow> 's \<Rightarrow> 's"
    and deliver :: "time \<Rightarrow> header \<Rightarrow> 's \<Rightarrow> py_error + 's"
    and other :: "'o \<Rightarrow> 's \<Rightarrow> 's"
    and waiting :: "'s \<Rightarrow> int \<Rightarrow> header list option"
    and next_id :: "'s \<Rightarrow> int"
    and inv :: "'s \<Rightarrow> bool"
  assumes waiting_bound: "inv s \<Longrightarrow> waiting s k \<noteq> None \<Longrightarrow> k < next_id s"
    and issue_law: "inv s \<Longrightarrow> inv (snd (issue m s)) \<and> waiting (snd (issue m s)) = (waiting s)(next_id s \<mapsto> [])
          \<and> next_id (snd (issue m s)) = next_id s + 1"
    and poll_law: "inv s \<Longrightarrow> inv (snd (poll k s)) \<and> next_id (snd (poll k s)) = next_id s
          \<and> fst (poll k s) = (case waiting s k of Some (r # rs) \<Rightarrow> Some r | _ \<Rightarrow> None)
          \<and> waiting (snd (poll k s)) = (case waiting s k of Some (r # rs) \<Rightarrow> (waiting s)(k := None) | _ \<Rightarrow> waiting s)"
    and cancel_law: "inv s \<Longrightarrow> inv (cancel k s) \<and> next_id (cancel k s) = next_id s
          \<and> waiting (cancel k s) = (waiting s)(k := None)"
    and deliver_law: "inv s \<Longrightarrow> deliver t r s = Inr s' \<Longrightarrow> inv s' \<and> next_id s' = next_id s
          \<and> waiting s' = (\<lambda>k. if answers r k then map_option (\<lambda>rs. rs @ [r]) (waiting s k) else waiting s k)"
    and deliver_error: "inv s \<Longrightarrow> deliver t r s = Inl e \<Longrightarrow> \<not> answers r k"
    and other_law: "inv s \<Longrightarrow> inv (other x s) \<and> next_id (other x s) = next_id s \<and> waiting (other x s) = waiting s"
begin

abbreviation step :: "'o req_op \<Rightarrow> 's \<Rightarrow> req_out \<times> 's" where
  "step \<equiv> req_step issue poll cancel deliver other"

abbreviation run :: "'o req_op list \<Rightarrow> 's \<Rightarrow> req_out list \<times> 's" where
  "run \<equiv> req_run issue poll cancel deliver other"

lemma length_run [simp]: "length (fst (run ops s)) = length ops"
  by (induction ops arbitrary: s) (simp_all add: run_Cons)

lemma step_inv: "inv s \<Longrightarrow> inv (snd (step op s))"
  by (cases op) (auto simp: issue_law poll_law cancel_law deliver_law other_law split: sum.splits)

lemma step_next_id: "inv s \<Longrightarrow> next_id (snd (step op s)) = next_id s + (case op of Issue m \<Rightarrow> 1 | _ \<Rightarrow> 0)"
  by (cases op) (auto simp: issue_law poll_law cancel_law deliver_law other_law split: sum.splits)

text \<open>What one step does to the entry of a request already issued.\<close>

definition entry_step :: "int \<Rightarrow> 'o req_op \<Rightarrow> header list option \<Rightarrow> header list option" where
  "entry_step k op w =
     (case op of
        Poll j \<Rightarrow> if j = k \<and> (\<exists>r rs. w = Some (r # rs)) then None else w
      | Cancel j \<Rightarrow> if j = k then None else w
      | Deliver t r \<Rightarrow> if answers r k then map_option (\<lambda>rs. rs @ [r]) w else w
      | _ \<Rightarrow> w)"

lemma step_entry:
  assumes "inv s" "k < next_id s"
  shows "waiting (snd (step op s)) k = entry_step k op (waiting s k)"
proof (cases op)
  case (Deliver t r)
  show ?thesis
  proof (cases "deliver t r s")
    case (Inl e)
    then show ?thesis using Deliver deliver_error [OF assms(1) Inl] by (simp add: entry_step_def)
  next
    case (Inr s')
    then show ?thesis using Deliver deliver_law [OF assms(1) Inr] by (simp add: entry_step_def)
  qed
qed (use assms in \<open>auto simp: entry_step_def issue_law poll_law cancel_law other_law
      split: option.splits list.splits\<close>)

lemma step_out:
  assumes "inv s"
  shows "(op = Poll k \<and> fst (step op s) = Got r) \<longleftrightarrow> (op = Poll k \<and> (\<exists>rs. waiting s k = Some (r # rs)))"
  using assms by (cases op) (auto simp: poll_law split: option.splits list.splits)

lemma closed_stays:
  assumes "inv s" "k < next_id s" "waiting s k = None"
  shows "waiting (snd (run ops s)) k = None \<and> \<not> taken k ops (fst (run ops s))"
  using assms
proof (induction ops arbitrary: s)
  case (Cons op ops)
  have w: "waiting (snd (step op s)) k = None"
    using step_entry [OF Cons.prems(1,2)] Cons.prems(3) by (auto simp: entry_step_def split: req_op.splits)
  have n: "k < next_id (snd (step op s))"
    using step_next_id [OF Cons.prems(1), of op] Cons.prems(2) by (auto split: req_op.splits)
  have "\<not> (op = Poll k \<and> (\<exists>r. fst (step op s) = Got r))"
    using step_out [OF Cons.prems(1), of op k] Cons.prems(3) by auto
  then show ?case
    using Cons.IH [OF step_inv [OF Cons.prems(1)] n w] by (simp add: run_Cons taken_Cons)
qed (use assms in simp)

lemma open_run:
  assumes "inv s" "k < next_id s" "waiting s k = Some rs"
  shows "waiting (snd (run ops s)) k =
    (if Cancel k \<in> set ops \<or> taken k ops (fst (run ops s)) then None
     else Some (rs @ filter (\<lambda>r. answers r k) (delivered ops)))"
  using assms
proof (induction ops arbitrary: s rs)
  case (Cons op ops)
  let ?s = "snd (step op s)"
  have i: "inv ?s" using step_inv [OF Cons.prems(1)] .
  have n: "k < next_id ?s"
    using step_next_id [OF Cons.prems(1), of op] Cons.prems(2) by (auto split: req_op.splits)
  have e: "waiting ?s k = entry_step k op (Some rs)"
    using step_entry [OF Cons.prems(1,2)] Cons.prems(3) by simp
  have o: "(op = Poll k \<and> (\<exists>r. fst (step op s) = Got r)) \<longleftrightarrow> (op = Poll k \<and> rs \<noteq> [])"
    using step_out [OF Cons.prems(1), of op k] Cons.prems(3) by (cases rs) auto
  show ?case
  proof (cases "op = Cancel k \<or> (op = Poll k \<and> rs \<noteq> [])")
    case True
    then have "waiting ?s k = None" using e by (cases rs) (auto simp: entry_step_def)
    then show ?thesis using closed_stays [OF i n] True o by (auto simp: run_Cons taken_Cons)
  next
    case False
    then obtain rs' where w: "waiting ?s k = Some rs'"
      and rs': "rs' @ filter (\<lambda>r. answers r k) (delivered ops) = rs @ filter (\<lambda>r. answers r k) (delivered (op # ops))"
      using e by (cases op) (auto simp: entry_step_def split: if_splits)
    have "op \<noteq> Cancel k" "\<not> (op = Poll k \<and> (\<exists>r. fst (step op s) = Got r))" using False o by auto
    then show ?thesis using Cons.IH [OF i n w] rs' by (auto simp: run_Cons taken_Cons)
  qed
qed simp

lemma not_issued:
  assumes "inv s" "next_id s \<le> k"
  shows "(case since_issue (nat (k - next_id s)) ops of
      None \<Rightarrow> waiting (snd (run ops s)) k = None
    | Some b \<Rightarrow> waiting (snd (run ops s)) k =
        (if Cancel k \<in> set b \<or> taken k ops (fst (run ops s)) then None
         else Some (filter (\<lambda>r. answers r k) (delivered b))))"
  using assms
proof (induction ops arbitrary: s)
  case Nil
  then have "waiting s k = None" using waiting_bound [of s k] by force
  then show ?case by simp
next
  case (Cons op ops)
  let ?s = "snd (step op s)"
  have i: "inv ?s" using step_inv [OF Cons.prems(1)] .
  have w0: "waiting s k = None" using waiting_bound [OF Cons.prems(1), of k] Cons.prems(2) by force
  have nt: "\<not> (op = Poll k \<and> (\<exists>r. fst (step op s) = Got r))"
    using step_out [OF Cons.prems(1), of op k] w0 by auto
  have nid: "next_id ?s = next_id s + (case op of Issue m \<Rightarrow> 1 | _ \<Rightarrow> 0)"
    using step_next_id [OF Cons.prems(1)] .
  show ?case
  proof (cases "\<exists>m. op = Issue m \<and> k = next_id s")
    case True
    then obtain m where m: "op = Issue m" "k = next_id s" by blast
    have "waiting ?s k = Some []" using m issue_law [OF Cons.prems(1)] by simp
    moreover have "k < next_id ?s" using nid m by simp
    ultimately show ?thesis using open_run [OF i, of k "[]" ops] m nt by (simp add: run_Cons taken_Cons)
  next
    case False
    have le: "next_id ?s \<le> k" using nid Cons.prems(2) False by (cases op) auto
    have since: "since_issue (nat (k - next_id s)) (op # ops) = since_issue (nat (k - next_id ?s)) ops"
    proof (cases op)
      case (Issue m)
      then have "nat (k - next_id s) = Suc (nat (k - next_id ?s))" using nid le by simp
      then show ?thesis using Issue by simp
    qed (use nid in simp_all)
    have tk: "taken k (op # ops) (fst (run (op # ops) s)) = taken k ops (fst (run ops ?s))"
      unfolding run_Cons taken_Cons using nt by blast
    have rn: "snd (run (op # ops) s) = snd (run ops ?s)" by (simp add: run_Cons)
    show ?thesis using Cons.IH [OF i le] unfolding since tk rn .
  qed
qed

text \<open>Polling a request gives its first reply, exactly once, and nothing when it was cancelled.\<close>

lemma poll_exact:
  assumes "inv s" "next_id s \<le> k"
  shows "fst (poll k (snd (run ops s))) =
    (case since_issue (nat (k - next_id s)) ops of None \<Rightarrow> None
     | Some b \<Rightarrow> if Cancel k \<in> set b \<or> taken k ops (fst (run ops s)) then None
                else find (\<lambda>r. answers r k) (delivered b))"
proof -
  have i: "inv (snd (run ops s))"
    using assms(1) by (induction ops arbitrary: s) (simp_all add: run_Cons step_inv)
  have hd: "(case filter P xs of [] \<Rightarrow> None | x # _ \<Rightarrow> Some x) = find P xs" for P and xs :: "header list"
    by (induction xs) auto
  show ?thesis
    using not_issued [OF assms, of ops] poll_law [OF i, of k] hd [of "\<lambda>r. answers r k"]
    by (auto split: option.splits list.splits)
qed

end

subsection \<open>A send is refused or adds its message at the end of its lane\<close>

text \<open>
  \<open>send_cold\<close> answers false (peer gone, backpressure) or takes the message; \<open>send_fast\<close> uses a
  lane of its own where the transport has one and the cold lane otherwise. \<open>body\<close> is what a
  message is on the lane, \<open>unbody\<close> what the other end reads back from it.
\<close>

locale lane_sender =
  fixes send_cold send_fast :: "header \<Rightarrow> byte list \<Rightarrow> 's \<Rightarrow> (py_error + bool) \<times> 's"
    and cold_lane fast_lane :: "'s \<Rightarrow> 'b list"
    and own_fast :: "'s \<Rightarrow> bool"
    and body :: "header \<Rightarrow> byte list \<Rightarrow> 'b"
    and unbody :: "'b \<Rightarrow> (header \<times> byte list) option"
  assumes cold_taken: "send_cold h p s = (Inr True, s') \<Longrightarrow>
          cold_lane s' = cold_lane s @ [body h p] \<and> fast_lane s' = fast_lane s \<and> own_fast s' = own_fast s"
    and cold_refused: "send_cold h p s = (r, s') \<Longrightarrow> r \<noteq> Inr True \<Longrightarrow>
          cold_lane s' = cold_lane s \<and> fast_lane s' = fast_lane s \<and> own_fast s' = own_fast s"
    and fast_taken: "own_fast s \<Longrightarrow> send_fast h p s = (Inr True, s') \<Longrightarrow>
          fast_lane s' = fast_lane s @ [body h p] \<and> cold_lane s' = cold_lane s \<and> own_fast s' = own_fast s"
    and fast_refused: "own_fast s \<Longrightarrow> send_fast h p s = (r, s') \<Longrightarrow> r \<noteq> Inr True \<Longrightarrow>
          cold_lane s' = cold_lane s \<and> fast_lane s' = fast_lane s \<and> own_fast s' = own_fast s"
    and fast_shared: "\<not> own_fast s \<Longrightarrow> send_fast h p s = send_cold h p s"
    and unbody_body: "send_cold h p s = (Inr True, s') \<or> send_fast h p s = (Inr True, s') \<Longrightarrow>
          json_ok (JObj h) \<Longrightarrow> unbody (body h p) = Some (h, p)"
begin

text \<open>Both lanes together, in the order the messages were taken on each.\<close>

definition lanes :: "'s \<Rightarrow> 'b list \<times> 'b list" where
  "lanes s = (cold_lane s, fast_lane s)"

lemma taken_or_same:
  assumes "send_cold h p s = (r, s') \<or> send_fast h p s = (r, s')"
  shows "own_fast s' = own_fast s \<and>
    (if r = Inr True
     then (cold_lane s' = cold_lane s @ [body h p] \<and> fast_lane s' = fast_lane s)
          \<or> (fast_lane s' = fast_lane s @ [body h p] \<and> cold_lane s' = cold_lane s)
     else lanes s' = lanes s)"
  using assms cold_taken cold_refused fast_taken fast_refused fast_shared
  unfolding lanes_def by (metis (no_types, lifting))

end

end
