(* ===== verification/Frame_Link.thy ===== *)
theory Frame_Link
  imports Transport
begin

text \<open>
  The framed byte pipe between the add-on and the agent (\<open>ring1/transport_agent.py\<close>,
  \<open>_FrameLink\<close> and \<open>_AgentLink\<close>): frames queue for a writer thread, hot values conflate per key
  while it is busy, the reader cuts the byte stream back into frames. The bytes the socket has
  accepted are \<open>lk_wire\<close>; a socket error is the number of bytes accepted before it.
\<close>

definition T_CONTROL :: int where "T_CONTROL = 0x01"
definition T_HOT :: int where "T_HOT = 0x02"
definition T_COLD :: int where "T_COLD = 0x03"
definition T_COLD_ACK :: int where "T_COLD_ACK = 0x04"
definition T_FAST :: int where "T_FAST = 0x05"
definition T_FAST_ACK :: int where "T_FAST_ACK = 0x06"
definition T_CMD :: int where "T_CMD = 0x10"
definition T_EVENT :: int where "T_EVENT = 0x20"

lemmas frame_kinds = T_CONTROL_def T_HOT_def T_COLD_def T_COLD_ACK_def T_FAST_def T_FAST_ACK_def
  T_CMD_def T_EVENT_def

definition PEER :: "byte list" where "PEER = [0]"
definition HOT_KEY_CAMERA :: "byte list" where "HOT_KEY_CAMERA = map of_char ''cam''"

subsection \<open>Frames and cold bodies\<close>

definition frame :: "int \<Rightarrow> byte list list \<Rightarrow> py_error + byte list list" where
  "frame kind parts =
     (case (pack_be32 (int (sum_list (map length parts)) + 1), pack_uint 1 kind) of
        (Inr n, Inr k) \<Rightarrow> Inr ((n @ k) # parts)
      | _ \<Rightarrow> Inl StructError)"

definition cold_parts :: "header \<Rightarrow> byte list \<Rightarrow> py_error + byte list list" where
  "cold_parts h payload =
     (let head = utf8_encode (dumps (JObj h))
      in case pack_be32 (int (length head)) of Inl e \<Rightarrow> Inl e
         | Inr n \<Rightarrow> Inr [PEER, n, head, payload])"

definition pack_cold :: "header \<Rightarrow> byte list \<Rightarrow> py_error + byte list" where
  "pack_cold h payload =
     (let head = utf8_encode (dumps (JObj h))
      in case pack_be32 (int (length head)) of Inl e \<Rightarrow> Inl e | Inr n \<Rightarrow> Inr (n @ head @ payload))"

definition unpack_cold :: "byte list \<Rightarrow> (header \<times> byte list) option" where
  "unpack_cold body =
     (if length body < 4 then None
      else let n = be_val (take 4 body)
           in if length body < 4 + n then None
              else decode_cold [slice 4 (4 + n) body, drop (4 + n) body])"

subsection \<open>The link\<close>

record frame_link =
  lk_frames :: "byte list list list"
  lk_hot :: "(byte list, byte list list) dict"
  lk_closing :: bool
  lk_down :: bool
  lk_wire :: "byte list"

definition lk_init :: frame_link where
  "lk_init = \<lparr>lk_frames = [], lk_hot = [], lk_closing = False, lk_down = False, lk_wire = []\<rparr>"

definition lk_send :: "int \<Rightarrow> byte list list \<Rightarrow> frame_link \<Rightarrow> (py_error + unit) \<times> frame_link" where
  "lk_send kind parts s =
     (case frame kind parts of Inl e \<Rightarrow> (Inl e, s) | Inr f \<Rightarrow> (Inr (), s\<lparr>lk_frames := lk_frames s @ [f]\<rparr>))"

definition hot_body :: "byte list \<Rightarrow> byte list \<Rightarrow> byte list" where
  "hot_body key v = PEER @ [of_nat (length key)] @ key @ v"

definition lk_send_hot :: "byte list \<Rightarrow> byte list \<Rightarrow> frame_link \<Rightarrow> (py_error + unit) \<times> frame_link" where
  "lk_send_hot key v s =
     (if 256 \<le> length key then (Inl ValueError, s)
      else case frame T_HOT [hot_body key v] of Inl e \<Rightarrow> (Inl e, s)
           | Inr f \<Rightarrow> (Inr (), s\<lparr>lk_hot := dset key f (lk_hot s)\<rparr>))"

definition lk_cmd :: "header \<Rightarrow> frame_link \<Rightarrow> (py_error + unit) \<times> frame_link" where
  "lk_cmd cmd s = lk_send T_CMD [utf8_encode (dumps (JObj cmd))] s"

text \<open>
  One round of the writer thread. \<open>failure\<close> is \<open>None\<close> when the socket takes the whole batch and
  \<open>Some n\<close> when it raises after \<open>n\<close> bytes; the thread then ends, as it does once the link is
  closing and nothing was queued.
\<close>

definition lk_batch :: "frame_link \<Rightarrow> byte list list list" where
  "lk_batch s = lk_frames s @ map snd (lk_hot s)"

definition lk_write :: "nat option \<Rightarrow> frame_link \<Rightarrow> frame_link" where
  "lk_write failure s =
     (if lk_down s \<or> (lk_frames s = [] \<and> lk_hot s = [] \<and> \<not> lk_closing s) then s
      else let batch = lk_batch s; bytes = concat (map concat batch);
               s1 = s\<lparr>lk_frames := [], lk_hot := []\<rparr>
           in case failure of
                Some n \<Rightarrow> if n < length bytes
                          then s1\<lparr>lk_wire := lk_wire s @ take n bytes, lk_down := True\<rparr>
                          else s1\<lparr>lk_wire := lk_wire s @ bytes, lk_down := lk_closing s \<and> batch = []\<rparr>
              | None \<Rightarrow> s1\<lparr>lk_wire := lk_wire s @ bytes, lk_down := lk_closing s \<and> batch = []\<rparr>)"

definition lk_close :: "frame_link \<Rightarrow> frame_link" where
  "lk_close s = (snd (lk_cmd [(''cmd'', JStr ''detach'')] s))\<lparr>lk_closing := True\<rparr>"

text \<open>The reader: \<open>recv_into\<close> fills a buffer of exactly \<open>n\<close> bytes, or the stream ended.\<close>

definition read_exact :: "nat \<Rightarrow> byte list \<Rightarrow> (byte list \<times> byte list) option" where
  "read_exact n bs = (if n \<le> length bs then Some (take n bs, drop n bs) else None)"

function read_loop :: "byte list \<Rightarrow> (int \<times> byte list) list" where
  "read_loop bs =
     (case read_exact 5 bs of None \<Rightarrow> []
      | Some (head, r) \<Rightarrow>
          let n = be_val (take 4 head); kind = uint (head ! 4)
          in case (if n > 1 then read_exact (n - 1) r else Some ([], r)) of
               None \<Rightarrow> []
             | Some (body, r') \<Rightarrow> (kind, body) # read_loop r')"
  by pat_completeness auto
termination
  by (relation "measure length") (auto simp: read_exact_def split: if_splits)

declare read_loop.simps [simp del]

text \<open>The attach command, sent before either thread starts.\<close>

definition attach_parts :: "string \<Rightarrow> string \<Rightarrow> py_error + byte list list" where
  "attach_parts secret role =
     frame T_CMD [utf8_encode (dumps (JObj [(''cmd'', JStr ''attach''), (''secret'', JStr secret), (''role'', JStr role)]))]"

definition lk_start :: "string \<Rightarrow> string \<Rightarrow> py_error + frame_link" where
  "lk_start secret role =
     (case attach_parts secret role of Inl e \<Rightarrow> Inl e
      | Inr f \<Rightarrow> Inr (lk_init\<lparr>lk_wire := concat f\<rparr>))"

lemma le_bytes_4: "le_bytes 4 x = [of_nat x, of_nat (x div 256), of_nat (x div 256 div 256), of_nat (x div 256 div 256 div 256)]"
proof -
  have "(4::nat) = Suc (Suc (Suc (Suc 0)))" by simp
  then show ?thesis by (simp only: le_bytes.simps)
qed

lemma le_bytes_1: "le_bytes (Suc 0) x = [of_nat x]" "le_bytes 1 x = [of_nat x]"
  by simp_all

subsection \<open>Frames read back\<close>

lemma frame_Inr:
  assumes "frame kind parts = Inr f"
  shows "\<exists>n. length n = 4 \<and> be_val n = length (concat parts) + 1 \<and> 0 \<le> kind \<and> kind < 256
    \<and> f = (n @ [word_of_int kind]) # parts"
proof -
  obtain n k where n: "pack_be32 (int (sum_list (map length parts)) + 1) = Inr n"
    and k: "pack_uint 1 kind = Inr k" and f: "f = (n @ k) # parts"
    using assms by (auto simp: frame_def split: sum.splits)
  have "be_val n = length (concat parts) + 1" "length n = 4"
    using unpack_pack_be32 [OF n] by (auto simp: length_concat)
  moreover have "0 \<le> kind" "kind < 256" "k = [word_of_int kind]"
    using k by (auto simp: pack_uint_def split: if_splits)
  ultimately show ?thesis using f by blast
qed

definition frame_msg :: "byte list list \<Rightarrow> int \<times> byte list" where
  "frame_msg f = (uint (hd f ! 4), concat (tl f))"

definition is_frame :: "byte list list \<Rightarrow> bool" where
  "is_frame f \<longleftrightarrow> (\<exists>kind parts. frame kind parts = Inr f)"

lemma frame_msg_frame: "frame kind parts = Inr f \<Longrightarrow> frame_msg f = (kind, concat parts)"
  using frame_Inr [of kind parts f]
  by (auto simp: frame_msg_def nth_append unsigned_of_int take_bit_int_eq_self)

lemma read_loop_frame:
  assumes "is_frame f"
  shows "read_loop (concat f @ rest) = frame_msg f # read_loop rest"
proof -
  obtain kind parts where fr: "frame kind parts = Inr f" using assms by (auto simp: is_frame_def)
  obtain n where n: "length n = 4" "be_val n = length (concat parts) + 1" "0 \<le> kind" "kind < 256"
    "f = (n @ [word_of_int kind]) # parts" using frame_Inr [OF fr] by blast
  obtain b where b: "concat parts = b" by blast
  have cf: "concat f @ rest = n @ [word_of_int kind] @ b @ rest" using n(5) b by simp
  have 1: "read_exact 5 (concat f @ rest) = Some (n @ [word_of_int kind], b @ rest)"
    using n(1) by (simp add: cf read_exact_def)
  have 2: "(if be_val n > 1 then read_exact (be_val n - 1) (b @ rest) else Some ([], b @ rest)) = Some (b, rest)"
    using n(2) b by (simp add: read_exact_def)
  have 3: "uint ((n @ [word_of_int kind]) ! 4 :: byte) = kind"
    using n(1,3,4) by (simp add: nth_append unsigned_of_int take_bit_int_eq_self)
  have 4: "take 4 (n @ [word_of_int kind]) = n" using n(1) by simp
  show ?thesis
    using frame_msg_frame [OF fr] b
    by (subst read_loop.simps) (simp only: 1 2 3 4 Let_def option.case prod.case)
qed

lemma read_loop_frames:
  "(\<forall>f \<in> set fs. is_frame f) \<Longrightarrow> read_loop (concat (map concat fs) @ rest) = map frame_msg fs @ read_loop rest"
  by (induction fs) (auto simp: read_loop_frame)

lemma read_loop_Nil [simp]: "read_loop [] = []"
  by (subst read_loop.simps) (simp add: read_exact_def)

text \<open>A stream cut short gives a prefix of the frames.\<close>

lemma read_exact_take:
  "read_exact k (take n bs) = Some (x, r) \<Longrightarrow> read_exact k bs = Some (x, drop k bs) \<and> r = take (n - k) (drop k bs)"
  by (auto simp: read_exact_def min_def drop_take split: if_splits)

lemma read_loop_take: "prefix (read_loop (take n bs)) (read_loop bs)"
proof (induction bs arbitrary: n rule: read_loop.induct)
  case (1 bs)
  show ?case
  proof (cases "read_loop (take n bs)")
    case Nil
    then show ?thesis by simp
  next
    case (Cons m ms)
    obtain head r where h: "read_exact 5 (take n bs) = Some (head, r)"
      using Cons by (subst (asm) read_loop.simps) (auto split: option.splits)
    let ?n = "be_val (take 4 head)"
    let ?body = "\<lambda>r. if ?n > 1 then read_exact (?n - 1) r else Some ([], r)"
    obtain body r' where b: "?body r = Some (body, r')"
      using Cons h by (subst (asm) read_loop.simps) (auto simp: Let_def split: option.splits)
    have m: "m = (uint (head ! 4), body)" "ms = read_loop r'"
      using Cons h b by (subst (asm) read_loop.simps; simp add: Let_def)+
    have h': "read_exact 5 bs = Some (head, drop 5 bs)" and r: "r = take (n - 5) (drop 5 bs)"
      using read_exact_take [OF h] by auto
    obtain r'' j where b': "?body (drop 5 bs) = Some (body, r'')" and r': "r' = take j r''"
      using b r read_exact_take [of "?n - 1" "n - 5" "drop 5 bs" body r'] by (cases "?n > 1") auto
    have "prefix (read_loop (take j r'')) (read_loop r'')"
      using "1.IH" [OF h' refl refl refl b' refl] by blast
    moreover have "read_loop bs = (uint (head ! 4), body) # read_loop r''"
      using h' b' by (subst read_loop.simps) (simp add: Let_def)
    ultimately show ?thesis using Cons m r' by simp
  qed
qed

text \<open>A cold message survives the trip.\<close>

lemma unpack_cold_parts:
  assumes "cold_parts h payload = Inr parts" "json_ok (JObj h)"
  shows "unpack_cold (drop 1 (concat parts)) = Some (h, payload)"
proof -
  let ?head = "utf8_encode (dumps (JObj h))"
  obtain n where n: "pack_be32 (int (length ?head)) = Inr n" and p: "parts = [PEER, n, ?head, payload]"
    using assms(1) by (auto simp: cold_parts_def Let_def split: sum.splits)
  have l: "length n = 4" "be_val n = length ?head" using unpack_pack_be32 [OF n] by auto
  have "decode_control ?head = Some h"
    using decode_encode_control [OF assms(2)] by (simp add: encode_control_def)
  then show ?thesis
    using l by (simp add: p PEER_def unpack_cold_def decode_cold_def slice_def)
qed

subsection \<open>What the other end of the pipe reads\<close>

datatype link_op = Send int "byte list list" | Send_Hot "byte list" "byte list" | Write "nat option" | Close

fun link_step :: "link_op \<Rightarrow> frame_link \<Rightarrow> frame_link" where
  "link_step (Send kind parts) s = snd (lk_send kind parts s)"
| "link_step (Send_Hot key v) s = snd (lk_send_hot key v s)"
| "link_step (Write failure) s = lk_write failure s"
| "link_step Close s = lk_close s"

definition link_run :: "link_op list \<Rightarrow> frame_link \<Rightarrow> frame_link" where
  "link_run ops s = fold link_step ops s"

definition sent_msg :: "int \<Rightarrow> byte list list \<Rightarrow> (int \<times> byte list) list" where
  "sent_msg kind parts = (case frame kind parts of Inl e \<Rightarrow> [] | Inr f \<Rightarrow> [(kind, concat parts)])"

fun sent_msgs :: "link_op list \<Rightarrow> (int \<times> byte list) list" where
  "sent_msgs [] = []"
| "sent_msgs (Send kind parts # ops) = sent_msg kind parts @ sent_msgs ops"
| "sent_msgs (Close # ops) = sent_msg T_CMD [utf8_encode (dumps (JObj [(''cmd'', JStr ''detach'')]))] @ sent_msgs ops"
| "sent_msgs (op # ops) = sent_msgs ops"

fun hot_sent :: "byte list \<Rightarrow> link_op list \<Rightarrow> byte list list" where
  "hot_sent k [] = []"
| "hot_sent k (Send_Hot key v # ops) =
     (if key = k \<and> length key < 256 \<and> frame T_HOT [hot_body key v] \<noteq> Inl StructError
      then v # hot_sent k ops else hot_sent k ops)"
| "hot_sent k (op # ops) = hot_sent k ops"

text \<open>How the replica reads a hot frame: key length, key, value.\<close>

definition hot_split :: "byte list \<Rightarrow> byte list \<times> byte list" where
  "hot_split body = (let n = unat (body ! 1) in (slice 2 (2 + n) body, drop (2 + n) body))"

definition hot_seen :: "byte list \<Rightarrow> (int \<times> byte list) list \<Rightarrow> byte list list" where
  "hot_seen k msgs = map (\<lambda>m. snd (hot_split (snd m))) (filter (\<lambda>m. fst m = T_HOT \<and> fst (hot_split (snd m)) = k) msgs)"

definition not_hot :: "(int \<times> byte list) list \<Rightarrow> (int \<times> byte list) list" where
  "not_hot msgs = filter (\<lambda>m. fst m \<noteq> T_HOT) msgs"

definition hot_pending :: "byte list \<Rightarrow> frame_link \<Rightarrow> byte list list" where
  "hot_pending k s = hot_seen k (map frame_msg (map snd (lk_hot s)))"

definition last_opt :: "'a list \<Rightarrow> 'a option" where
  "last_opt xs = (if xs = [] then None else Some (last xs))"

lemma last_opt_snoc [simp]: "last_opt (xs @ [x]) = Some x"
  by (simp add: last_opt_def)

lemma seen_simps [simp]:
  "hot_seen k (a @ b) = hot_seen k a @ hot_seen k b" "hot_seen k [] = []"
  "not_hot (a @ b) = not_hot a @ not_hot b" "not_hot [] = []"
  by (simp_all add: hot_seen_def not_hot_def)

lemma sent_msgs_append [simp]: "sent_msgs (a @ b) = sent_msgs a @ sent_msgs b"
  by (induction a rule: sent_msgs.induct) auto

lemma hot_sent_append [simp]: "hot_sent k (a @ b) = hot_sent k a @ hot_sent k b"
  by (induction k a rule: hot_sent.induct) auto

lemma frame_error: "frame kind parts = Inl e \<Longrightarrow> e = StructError"
  by (auto simp: frame_def split: sum.splits)

lemma hot_split_body: "length key < 256 \<Longrightarrow> hot_split (hot_body key v) = (key, v)"
  by (simp add: hot_split_def hot_body_def PEER_def slice_def Let_def numeral_2_eq_2 unsigned_of_nat
      take_bit_nat_eq_self)

lemma hot_pending_upd [simp]:
  "hot_pending k (s\<lparr>lk_frames := a\<rparr>) = hot_pending k s" "hot_pending k (s\<lparr>lk_wire := w\<rparr>) = hot_pending k s"
  "hot_pending k (s\<lparr>lk_down := c\<rparr>) = hot_pending k s" "hot_pending k (s\<lparr>lk_closing := c\<rparr>) = hot_pending k s"
  "hot_pending k (s\<lparr>lk_hot := []\<rparr>) = []"
  by (simp_all add: hot_pending_def)

text \<open>The invariant: \<open>fs\<close> are the frames written, in order.\<close>

definition hot_entry :: "byte list \<times> byte list list \<Rightarrow> bool" where
  "hot_entry e \<longleftrightarrow> length (fst e) < 256 \<and> (\<exists>v. frame T_HOT [hot_body (fst e) v] = Inr (snd e))"

definition link_inv :: "link_op list \<Rightarrow> frame_link \<Rightarrow> byte list list list \<Rightarrow> bool" where
  "link_inv ops s fs \<longleftrightarrow>
     (\<forall>f \<in> set fs. is_frame f) \<and> (\<forall>f \<in> set (lk_frames s). is_frame f \<and> fst (frame_msg f) \<noteq> T_HOT)
     \<and> (\<forall>e \<in> set (lk_hot s). hot_entry e) \<and> distinct (map fst (lk_hot s))
     \<and> (if lk_down s
        then (\<exists>n. lk_wire s = take n (concat (map concat fs))) \<and> prefix (not_hot (map frame_msg fs)) (sent_msgs ops)
        else lk_wire s = concat (map concat fs)
          \<and> not_hot (map frame_msg fs) @ map frame_msg (lk_frames s) = sent_msgs ops
          \<and> (\<forall>k. subseq (hot_seen k (map frame_msg fs) @ hot_pending k s) (hot_sent k ops)
               \<and> last_opt (hot_seen k (map frame_msg fs) @ hot_pending k s) = last_opt (hot_sent k ops)))"

lemma hot_entry_frame:
  assumes "hot_entry e"
  shows "is_frame (snd e)" "fst (frame_msg (snd e)) = T_HOT" "fst (hot_split (snd (frame_msg (snd e)))) = fst e"
  using assms by (auto simp: hot_entry_def is_frame_def frame_msg_frame hot_split_body)

lemma hot_pending_dget:
  assumes "\<forall>e \<in> set (lk_hot s). hot_entry e" "distinct (map fst (lk_hot s))"
  shows "hot_pending k s = (case dget (lk_hot s) k of None \<Rightarrow> []
    | Some f \<Rightarrow> [snd (hot_split (snd (frame_msg f)))])"
proof -
  have "hot_seen k (map frame_msg (map snd hs)) = (case dget hs k of None \<Rightarrow> []
      | Some f \<Rightarrow> [snd (hot_split (snd (frame_msg f)))])"
    if "\<forall>e \<in> set hs. hot_entry e" "distinct (map fst hs)" for hs
    using that
  proof (induction hs)
    case (Cons e hs)
    have d: "fst e \<notin> fst ` set hs" using Cons.prems by simp
    have "dget hs (fst e) = None" using d by (simp add: not_in_keys_iff)
    then show ?case using Cons hot_entry_frame [of e]
      by (cases e) (auto simp: hot_seen_def)
  qed simp
  then show ?thesis using assms by (simp add: hot_pending_def)
qed

lemma link_inv_send:
  assumes inv: "link_inv ops s fs" and k: "kind \<noteq> T_HOT"
    and sm: "sent_msgs (ops @ [op]) = sent_msgs ops @ sent_msg kind parts" "\<And>k. hot_sent k (ops @ [op]) = hot_sent k ops"
  shows "link_inv (ops @ [op]) (snd (lk_send kind parts s)) fs"
proof (cases "frame kind parts")
  case (Inl e)
  then have "snd (lk_send kind parts s) = s" "sent_msg kind parts = []" by (simp_all add: lk_send_def sent_msg_def)
  then show ?thesis using inv unfolding link_inv_def sm by simp
next
  case (Inr f)
  have f: "frame_msg f = (kind, concat parts)" "is_frame f" using Inr by (auto simp: frame_msg_frame is_frame_def)
  have "snd (lk_send kind parts s) = s\<lparr>lk_frames := lk_frames s @ [f]\<rparr>" "sent_msg kind parts = [(kind, concat parts)]"
    using Inr by (simp_all add: lk_send_def sent_msg_def)
  then show ?thesis using inv k f unfolding link_inv_def sm
    by (cases "lk_down s") (simp_all add: prefix_append ball_Un flip: append_assoc)
qed

lemma dset_keys_distinct: "distinct (map fst d) \<Longrightarrow> distinct (map fst (dset k v d))"
  by (simp add: AList.distinct_update)

lemma link_inv_hot:
  assumes inv: "link_inv ops s fs"
  shows "link_inv (ops @ [Send_Hot key v]) (snd (lk_send_hot key v s)) fs"
proof (cases "length key < 256 \<and> frame T_HOT [hot_body key v] \<noteq> Inl StructError")
  case False
  then have "lk_send_hot key v s = (fst (lk_send_hot key v s), s)"
    by (auto simp: lk_send_hot_def dest: frame_error split: sum.splits)
  then have "snd (lk_send_hot key v s) = s" by (metis snd_conv)
  then show ?thesis using inv False by (auto simp: link_inv_def)
next
  case True
  then obtain f where f: "frame T_HOT [hot_body key v] = Inr f"
    by (cases "frame T_HOT [hot_body key v]") (auto dest: frame_error)
  let ?s = "s\<lparr>lk_hot := dset key f (lk_hot s)\<rparr>"
  have s': "snd (lk_send_hot key v s) = ?s" using True f by (simp add: lk_send_hot_def)
  have e: "hot_entry (key, f)" using True f by (auto simp: hot_entry_def)
  have hot: "\<forall>e \<in> set (lk_hot s). hot_entry e" and d: "distinct (map fst (lk_hot s))"
    using inv by (simp_all add: link_inv_def)
  have d': "distinct (map fst (lk_hot ?s))" using dset_keys_distinct [OF d] by simp
  have hot': "\<forall>e \<in> set (lk_hot ?s). hot_entry e"
    using hot e set_dset [of "lk_hot s" key f] d by (auto simp: dict_ok_def)
  have val: "snd (hot_split (snd (frame_msg f))) = v"
    using True frame_msg_frame [OF f] by (simp add: hot_split_body)
  have p': "hot_pending k ?s = (if k = key then [v] else hot_pending k s)" for k
    using hot_pending_dget [OF hot' d', of k] hot_pending_dget [OF hot d, of k] val by simp
  have sub: "subseq (hot_seen key (map frame_msg fs) @ [v]) (hot_sent key ops @ [v])" if "\<not> lk_down s"
  proof -
    have "subseq (hot_seen key (map frame_msg fs) @ hot_pending key s) (hot_sent key ops)"
      using inv that by (simp add: link_inv_def)
    then have "subseq (hot_seen key (map frame_msg fs)) (hot_sent key ops)"
      using subseq_order.trans prefix_imp_subseq prefixI by metis
    then show ?thesis by simp
  qed
  show ?thesis using inv hot' d' sub True unfolding s' link_inv_def p' by auto
qed

lemma link_inv_write:
  assumes inv: "link_inv ops s fs"
  shows "\<exists>fs'. link_inv (ops @ [Write failure]) (lk_write failure s) fs'"
proof (cases "lk_down s \<or> (lk_frames s = [] \<and> lk_hot s = [] \<and> \<not> lk_closing s)")
  case True
  then show ?thesis using inv by (intro exI [of _ fs]) (auto simp: lk_write_def link_inv_def)
next
  case False
  then have up: "\<not> lk_down s" by simp
  define fs' where "fs' = fs @ lk_batch s"
  define bytes where "bytes = concat (map concat (lk_batch s))"
  have hot: "\<forall>e \<in> set (lk_hot s). hot_entry e" and fr: "\<forall>f \<in> set (lk_frames s). is_frame f \<and> fst (frame_msg f) \<noteq> T_HOT"
    using inv by (simp_all add: link_inv_def)
  have is': "\<forall>f \<in> set fs'. is_frame f"
    using inv hot_entry_frame(1) by (auto simp: fs'_def lk_batch_def link_inv_def)
  have nh: "not_hot (map frame_msg (map snd (lk_hot s))) = []"
    using hot hot_entry_frame(2) by (auto simp: not_hot_def filter_empty_conv)
  have hs: "hot_seen k (map frame_msg (lk_frames s)) = []" for k
    using fr by (auto simp: hot_seen_def filter_empty_conv)
  have nf: "not_hot (map frame_msg (lk_frames s)) = map frame_msg (lk_frames s)"
    using fr by (auto simp: not_hot_def filter_id_conv)
  have all: "not_hot (map frame_msg fs') = sent_msgs ops"
    using inv up nh nf by (simp add: fs'_def lk_batch_def link_inv_def)
  have wire: "lk_wire s = concat (map concat fs)" using inv up by (simp add: link_inv_def)
  have seen: "hot_seen k (map frame_msg fs') = hot_seen k (map frame_msg fs) @ hot_pending k s" for k
    using hs by (simp add: fs'_def lk_batch_def hot_pending_def)
  have H: "subseq (hot_seen k (map frame_msg fs')) (hot_sent k ops)
      \<and> last_opt (hot_seen k (map frame_msg fs')) = last_opt (hot_sent k ops)" for k
    using inv up by (simp add: seen link_inv_def)
  have whole: "concat (map concat fs') = lk_wire s @ bytes" by (simp add: fs'_def bytes_def wire)
  let ?s1 = "s\<lparr>lk_frames := [], lk_hot := []\<rparr>"
  have good: "link_inv (ops @ [Write failure]) (?s1\<lparr>lk_wire := lk_wire s @ bytes, lk_down := c\<rparr>) fs'" for c
    using is' all H whole by (auto simp: link_inv_def hot_pending_def intro: exI [of _ "length (lk_wire s @ bytes)"])
  have bad: "link_inv (ops @ [Write failure]) (?s1\<lparr>lk_wire := lk_wire s @ take n bytes, lk_down := True\<rparr>) fs'" for n
    using is' all whole
    by (auto simp: link_inv_def hot_pending_def intro!: exI [of _ "length (lk_wire s) + n"])
  show ?thesis
    using False good bad by (intro exI [of _ fs']) (auto simp: lk_write_def bytes_def Let_def split: option.splits)
qed

lemma link_inv_run:
  assumes "\<forall>kind parts. Send kind parts \<in> set ops \<longrightarrow> kind \<noteq> T_HOT"
  shows "\<exists>fs. link_inv ops (link_run ops lk_init) fs"
  using assms
proof (induction ops rule: rev_induct)
  case Nil
  show ?case by (intro exI [of _ "[]"]) (simp add: link_run_def link_inv_def lk_init_def hot_pending_def last_opt_def)
next
  case (snoc op ops)
  then obtain fs where fs: "link_inv ops (link_run ops lk_init) fs" by auto
  have step: "link_run (ops @ [op]) lk_init = link_step op (link_run ops lk_init)" by (simp add: link_run_def)
  show ?case
  proof (cases op)
    case (Send kind parts)
    then have "kind \<noteq> T_HOT" using snoc.prems by auto
    then show ?thesis using link_inv_send [OF fs, of kind op parts] Send step by auto
  next
    case (Send_Hot key v)
    then show ?thesis using link_inv_hot [OF fs] step by auto
  next
    case (Write failure)
    then show ?thesis using link_inv_write [OF fs] step by auto
  next
    case Close
    have "link_inv (ops @ [op]) (snd (lk_cmd [(''cmd'', JStr ''detach'')] (link_run ops lk_init))) fs"
      unfolding lk_cmd_def using Close by (intro link_inv_send [OF fs]) (simp_all add: frame_kinds)
    then show ?thesis using Close step by (auto simp: lk_close_def link_inv_def hot_pending_def)
  qed
qed

text \<open>The other end reads exactly the frames that were sent, in the order they were sent, and
  a broken pipe only ever loses a tail of them. A hot key may skip values but never goes back, and
  the newest one is either read or still queued.\<close>

theorem link_delivers_in_order:
  assumes "\<forall>kind parts. Send kind parts \<in> set ops \<longrightarrow> kind \<noteq> T_HOT"
  shows "prefix (not_hot (read_loop (lk_wire (link_run ops lk_init)))) (sent_msgs ops)
    \<and> (if lk_down (link_run ops lk_init) then True
       else not_hot (read_loop (lk_wire (link_run ops lk_init))) @ map frame_msg (lk_frames (link_run ops lk_init))
              = sent_msgs ops
          \<and> (\<forall>k. subseq (hot_seen k (read_loop (lk_wire (link_run ops lk_init))) @ hot_pending k (link_run ops lk_init))
                     (hot_sent k ops)
               \<and> last_opt (hot_seen k (read_loop (lk_wire (link_run ops lk_init))) @ hot_pending k (link_run ops lk_init))
                     = last_opt (hot_sent k ops)))"
proof -
  define s where "s = link_run ops lk_init"
  obtain fs where inv: "link_inv ops s fs" using link_inv_run [OF assms] s_def by blast
  have whole: "read_loop (concat (map concat fs)) = map frame_msg fs"
    using read_loop_frames [of fs "[]"] inv by (simp add: link_inv_def)
  show ?thesis
  proof (cases "lk_down s")
    case True
    then obtain n where "lk_wire s = take n (concat (map concat fs))" using inv by (auto simp: link_inv_def)
    then have "prefix (read_loop (lk_wire s)) (map frame_msg fs)" using read_loop_take whole by metis
    then have "prefix (not_hot (read_loop (lk_wire s))) (not_hot (map frame_msg fs))"
      by (auto simp: prefix_def)
    then show ?thesis using inv True by (auto simp: link_inv_def s_def [symmetric] intro: prefix_order.trans)
  next
    case False
    then have w: "read_loop (lk_wire s) = map frame_msg fs" using inv whole by (simp add: link_inv_def)
    have all: "not_hot (map frame_msg fs) @ map frame_msg (lk_frames s) = sent_msgs ops"
      and hot: "\<forall>k. subseq (hot_seen k (map frame_msg fs) @ hot_pending k s) (hot_sent k ops)
        \<and> last_opt (hot_seen k (map frame_msg fs) @ hot_pending k s) = last_opt (hot_sent k ops)"
      using inv False by (simp_all add: link_inv_def)
    have "prefix (not_hot (map frame_msg fs)) (sent_msgs ops)" using all by (metis prefixI)
    then show ?thesis using all hot False unfolding s_def [symmetric] w by simp
  qed
qed

theorem link_delivers_in_order_witness:
  "read_loop (lk_wire (link_run [Send T_COLD [[0], [7]], Send_Hot [1] [2], Send_Hot [1] [3], Write None] lk_init))
     = [(T_COLD, [0, 7]), (T_HOT, [0, 1, 1, 3])]
   \<and> not_hot (read_loop (lk_wire (link_run [Send T_COLD [[0], [7]], Send_Hot [1] [2], Send_Hot [1] [3], Write None] lk_init)))
     @ [] = sent_msgs [Send T_COLD [[0], [7]], Send_Hot [1] [2], Send_Hot [1] [3], Write None]"
proof -
  define ops where "ops = [Send T_COLD [[0], [7]], Send_Hot [1] [2], Send_Hot [1] [3], Write None]"
  have fr: "frame T_COLD [[0], [7]] = Inr [[0, 0, 0, 3, 3], [0], [7]]"
    "frame T_HOT [hot_body [1] [v]] = Inr [[0, 0, 0, 5, 2], [0, 1, 1, v]]" for v
    by (simp_all add: frame_def pack_be32_def pack_uint_def be_bytes_def frame_kinds hot_body_def PEER_def
        le_bytes_4 le_bytes_1)
  have s: "link_run ops lk_init = \<lparr>lk_frames = [], lk_hot = [], lk_closing = False, lk_down = False,
      lk_wire = [0, 0, 0, 3, 3, 0, 7, 0, 0, 0, 5, 2, 0, 1, 1, 3]\<rparr>"
    by (simp add: ops_def link_run_def lk_send_def lk_send_hot_def lk_write_def lk_batch_def lk_init_def fr)
  have "is_frame [[0, 0, 0, 3, 3], [0], [7]]" "is_frame [[0, 0, 0, 5, 2], [0, 1, 1, 3]]"
    using fr by (auto simp: is_frame_def)
  then have "read_loop (lk_wire (link_run ops lk_init)) = [(T_COLD, [0, 7]), (T_HOT, [0, 1, 1, 3])]"
    using read_loop_frames [of "[[[0, 0, 0, 3, 3], [0], [7]], [[0, 0, 0, 5, 2], [0, 1, 1, 3]]]" "[]"]
    by (simp add: s frame_msg_def frame_kinds)
  moreover have "\<forall>kind parts. Send kind parts \<in> set ops \<longrightarrow> kind \<noteq> T_HOT"
    by (auto simp: ops_def frame_kinds)
  ultimately show ?thesis
    using link_delivers_in_order [of ops] s unfolding ops_def by simp
qed

end
