(* ===== verification/Liveness.thy ===== *)
theory Liveness
  imports Protocol
begin

text \<open>
  \<open>ring1/liveness.py\<close>: the host's decisions about the replica, from the pong's status alone.
  A repair is a re-assert of the fast window, a delta or a whole bootstrap; the policy answers
  each replica state once and keeps both kinds of repair apart in time.
\<close>

definition CAP_FAST_ACK :: string where "CAP_FAST_ACK = ''fast_ack''"
definition CAP_DELTA :: string where "CAP_DELTA = ''delta_resync''"

definition truthy :: "header \<Rightarrow> string \<Rightarrow> bool" where
  "truthy h k = (case dget h k of None \<Rightarrow> False | Some v \<Rightarrow> json_true v)"

definition get_or :: "header \<Rightarrow> string \<Rightarrow> json \<Rightarrow> json" where
  "get_or h k d = (case dget h k of None \<Rightarrow> d | Some v \<Rightarrow> v)"

text \<open>The epoch of the pairing is \<open>JNull\<close> before the first one.\<close>

definition replica_restarted :: "header \<Rightarrow> json \<Rightarrow> bool" where
  "replica_restarted status known_epoch \<longleftrightarrow>
     truthy status ''epoch'' \<and> known_epoch \<noteq> JNull \<and> get_or status ''epoch'' JNull \<noteq> known_epoch"

datatype verdict = VNone | VFast | VDelta | VFull

record resync_policy =
  rp_min_interval :: time
  rp_fast_interval :: time
  rp_last_sent :: "time option"
  rp_last_fast :: "time option"
  rp_served_for :: "(json \<times> json) option"
  rp_sent :: nat
  rp_fast_sent :: nat
  rp_delta_sent :: nat

definition rp_init :: "time \<Rightarrow> time \<Rightarrow> resync_policy" where
  "rp_init min_interval fast_interval =
     \<lparr>rp_min_interval = min_interval, rp_fast_interval = fast_interval, rp_last_sent = None,
      rp_last_fast = None, rp_served_for = None, rp_sent = 0, rp_fast_sent = 0, rp_delta_sent = 0\<rparr>"

definition rp_state :: "header \<Rightarrow> json \<times> json" where
  "rp_state status = (get_or status ''bootstraps'' JNull, get_or status ''resyncs'' (JInt 0))"

text \<open>\<open>caps\<close> is the replica's capability list, \<open>fast_covers\<close> the fast log's test and
  \<open>delta_state\<close> the inventory comparison, each possibly absent.\<close>

definition has_cap :: "string \<Rightarrow> string list option \<Rightarrow> bool" where
  "has_cap c caps \<longleftrightarrow> (case caps of None \<Rightarrow> False | Some cs \<Rightarrow> c \<in> set cs)"

definition rp_decide :: "header \<Rightarrow> time \<Rightarrow> string list option \<Rightarrow> (json \<Rightarrow> bool) option \<Rightarrow> string option
    \<Rightarrow> resync_policy \<Rightarrow> verdict \<times> resync_policy" where
  "rp_decide status now caps fast_covers delta_state p =
     (if \<not> truthy status ''want_resync'' then (VNone, p)
      else let state = rp_state status
      in if Some state = rp_served_for p then (VNone, p)
      else if get_or status ''gap_lane'' (JStr []) = JStr ''fast'' \<and> has_cap CAP_FAST_ACK caps
           \<and> (case fast_covers of None \<Rightarrow> False | Some f \<Rightarrow> f (get_or status ''fast_gap_at'' JNull))
      then (if \<not> elapsed_ge now (rp_last_fast p) (rp_fast_interval p) then (VNone, p)
            else (VFast, p\<lparr>rp_last_fast := Some now, rp_served_for := Some state,
                           rp_fast_sent := rp_fast_sent p + 1\<rparr>))
      else if has_cap CAP_DELTA caps \<and> delta_state \<in> {Some ''ready'', Some ''pending''}
      then (if delta_state = Some ''pending'' then (VNone, p)
            else if \<not> elapsed_ge now (rp_last_fast p) (rp_fast_interval p) then (VNone, p)
            else (VDelta, p\<lparr>rp_last_fast := Some now, rp_served_for := Some state,
                            rp_delta_sent := rp_delta_sent p + 1\<rparr>))
      else if \<not> elapsed_ge now (rp_last_sent p) (rp_min_interval p) then (VNone, p)
      else (VFull, p\<lparr>rp_last_sent := Some now, rp_served_for := Some state, rp_sent := rp_sent p + 1\<rparr>))"

definition rp_allow_full :: "time \<Rightarrow> resync_policy \<Rightarrow> bool \<times> resync_policy" where
  "rp_allow_full now p =
     (if \<not> elapsed_ge now (rp_last_sent p) (rp_min_interval p)
      then (False, p\<lparr>rp_served_for := None\<rparr>)
      else (True, p\<lparr>rp_last_sent := Some now, rp_sent := rp_sent p + 1\<rparr>))"

definition rp_should_resync :: "header \<Rightarrow> time \<Rightarrow> resync_policy \<Rightarrow> bool \<times> resync_policy" where
  "rp_should_resync status now p =
     (let (v, p') = rp_decide status now None None None p in (v = VFull, p'))"

definition rp_reset :: "(json \<times> json) option \<Rightarrow> resync_policy \<Rightarrow> resync_policy" where
  "rp_reset served_for p = p\<lparr>rp_served_for := served_for\<rparr>"

subsection \<open>Once per state, and never a storm\<close>

datatype rp_op =
    Decide header time "string list option" "(json \<Rightarrow> bool) option" "string option"
  | Allow_Full time
  | Reset "(json \<times> json) option"

datatype grant = No_Grant | Full_At time | Repair_At time

fun rp_step :: "rp_op \<Rightarrow> resync_policy \<Rightarrow> grant \<times> resync_policy" where
  "rp_step (Decide st now caps cov dl) p =
     (case rp_decide st now caps cov dl p of
        (VFull, p') \<Rightarrow> (Full_At now, p')
      | (VNone, p') \<Rightarrow> (No_Grant, p')
      | (_, p') \<Rightarrow> (Repair_At now, p'))"
| "rp_step (Allow_Full now) p = (case rp_allow_full now p of (ok, p') \<Rightarrow> (if ok then Full_At now else No_Grant, p'))"
| "rp_step (Reset s) p = (No_Grant, rp_reset s p)"

fun rp_grants :: "rp_op list \<Rightarrow> resync_policy \<Rightarrow> grant list" where
  "rp_grants [] p = []"
| "rp_grants (op # ops) p = (case rp_step op p of (g, p') \<Rightarrow> g # rp_grants ops p')"

fun full_times :: "grant list \<Rightarrow> time list" where
  "full_times [] = []"
| "full_times (Full_At t # gs) = t # full_times gs"
| "full_times (_ # gs) = full_times gs"

fun repair_times :: "grant list \<Rightarrow> time list" where
  "repair_times [] = []"
| "repair_times (Repair_At t # gs) = t # repair_times gs"
| "repair_times (_ # gs) = repair_times gs"

lemma rp_step_cases:
  assumes "rp_step op p = (g, p')"
  shows "rp_min_interval p' = rp_min_interval p \<and> rp_fast_interval p' = rp_fast_interval p
    \<and> (case g of
         No_Grant \<Rightarrow> rp_last_sent p' = rp_last_sent p \<and> rp_last_fast p' = rp_last_fast p
       | Full_At t \<Rightarrow> elapsed_ge t (rp_last_sent p) (rp_min_interval p) \<and> rp_last_sent p' = Some t
                     \<and> rp_last_fast p' = rp_last_fast p
       | Repair_At t \<Rightarrow> elapsed_ge t (rp_last_fast p) (rp_fast_interval p) \<and> rp_last_fast p' = Some t
                     \<and> rp_last_sent p' = rp_last_sent p)"
proof (cases op)
  case (Decide st now caps cov dl)
  then show ?thesis using assms by (auto simp: rp_decide_def Let_def split: if_splits)
next
  case (Allow_Full now)
  then show ?thesis using assms by (auto simp: rp_allow_full_def split: if_splits)
next
  case (Reset s)
  then show ?thesis using assms by (auto simp: rp_reset_def)
qed

definition spaced_from :: "time \<Rightarrow> time option \<Rightarrow> time list \<Rightarrow> bool" where
  "spaced_from d stamp ts \<longleftrightarrow> successively (\<lambda>a b. d \<le> b - a) ((case stamp of None \<Rightarrow> [] | Some t \<Rightarrow> [t]) @ ts)"

lemma spaced_from_Cons: "spaced_from d stamp (t # ts) \<longleftrightarrow> elapsed_ge t stamp d \<and> spaced_from d (Some t) ts"
  by (cases stamp) (auto simp: spaced_from_def)

lemma rp_grants_spaced:
  "spaced_from (rp_min_interval p) (rp_last_sent p) (full_times (rp_grants ops p))
   \<and> spaced_from (rp_fast_interval p) (rp_last_fast p) (repair_times (rp_grants ops p))"
proof (induction ops arbitrary: p)
  case Nil
  then show ?case by (simp add: spaced_from_def split: option.split)
next
  case (Cons op ops)
  obtain g p' where s: "rp_step op p = (g, p')" by fastforce
  show ?case
    using Cons.IH [of p'] rp_step_cases [OF s] s by (cases g) (auto simp: spaced_from_Cons)
qed

text \<open>C14: Whatever pongs arrive and whenever, bootstraps are granted at least \<open>min_interval\<close>
  apart and the lighter repairs at least \<open>fast_interval\<close> apart, across decisions, escalations
  and re-handshakes: a flapping link cannot become a bootstrap storm.\<close>

theorem resync_no_storm:
  "successively (\<lambda>a b. min_interval \<le> b - a) (full_times (rp_grants ops (rp_init min_interval fast_interval)))
   \<and> successively (\<lambda>a b. fast_interval \<le> b - a) (repair_times (rp_grants ops (rp_init min_interval fast_interval)))"
  using rp_grants_spaced [of "rp_init min_interval fast_interval" ops]
  by (simp add: rp_init_def spaced_from_def)

lemma rp_decide_serves:
  "fst (rp_decide st now caps cov dl p) \<noteq> VNone \<Longrightarrow>
     rp_served_for (snd (rp_decide st now caps cov dl p)) = Some (rp_state st)"
  by (auto simp: rp_decide_def Let_def split: if_splits)

text \<open>A want_resync is answered at once when the state has not been served, both intervals have
  passed and no manifest is on its way; and once answered, the same replica state is not answered
  again, whatever is decided about it later.\<close>

theorem resync_answered_once:
  assumes "truthy st ''want_resync''" and "rp_served_for p \<noteq> Some (rp_state st)"
    and "elapsed_ge now (rp_last_sent p) (rp_min_interval p)" "elapsed_ge now (rp_last_fast p) (rp_fast_interval p)"
    and "dl \<noteq> Some ''pending''" and "rp_state st' = rp_state st"
  shows "fst (rp_decide st now caps cov dl p) \<noteq> VNone
    \<and> fst (rp_decide st' now' caps' cov' dl' (snd (rp_decide st now caps cov dl p))) = VNone"
proof -
  have "fst (rp_decide st now caps cov dl p) \<noteq> VNone"
    using assms(1-5) by (auto simp: rp_decide_def Let_def)
  with rp_decide_serves [OF this] show ?thesis by (simp add: rp_decide_def [of st'] assms(6))
qed

theorem resync_answered_once_witness:
  "fst (rp_decide [(''want_resync'', JBool True)] 5 None None None (rp_init 10 1)) \<noteq> VNone"
proof -
  let ?st = "[(''want_resync'', JBool True)]"
  have "truthy ?st ''want_resync''" "rp_served_for (rp_init 10 1) \<noteq> Some (rp_state ?st)"
    "elapsed_ge 5 (rp_last_sent (rp_init 10 1)) (rp_min_interval (rp_init 10 1))"
    "elapsed_ge 5 (rp_last_fast (rp_init 10 1)) (rp_fast_interval (rp_init 10 1))" "None \<noteq> Some ''pending''"
    by (simp_all add: truthy_def json_true_def rp_init_def)
  from resync_answered_once [OF this refl] show ?thesis by blast
qed

end
