(* ===== verification/Transport_Agent.thy ===== *)
theory Transport_Agent
  imports Frame_Link Liveness
begin

text \<open>
  The agent transport (\<open>ring1/transport_agent.py\<close>): the host's and the replica's end of the
  framed pipe. The host keeps the pending requests, the credit windows of the two lanes and the
  state the agent reports in events; the replica keeps the hot register, the two receive queues
  and answers control requests. Calls to the timeline are recorded in \<open>marks\<close>, calls of the
  peer-state callback in \<open>peer_calls\<close>. A handler that raises leaves its error as the result: the
  read loop swallows it.
\<close>

definition COLD_WINDOW :: int where "COLD_WINDOW = 64"
definition COLD_WINDOW_BYTES :: int where "COLD_WINDOW_BYTES = push_bit 20 32"
definition FAST_WINDOW_BYTES :: int where "FAST_WINDOW_BYTES = push_bit 20 4"
definition TICK :: time where "TICK = 0.05"

subsection \<open>Values of an event\<close>

text \<open>
  \<open>event.get(k) or d\<close>; \<open>dict(v)\<close>, \<open>list(v)\<close> and \<open>x in v\<close> on a JSON value. (\<open>dict\<close> of a list of pairs
  is refused here.) \<open>int(v)\<close> reads a float's numeral exactly and a decimal string with a sign and
  surrounding spaces.
\<close>

definition get_true :: "header \<Rightarrow> string \<Rightarrow> json \<Rightarrow> json" where
  "get_true h k d = (if truthy h k then get_or h k d else d)"

definition as_dict :: "json \<Rightarrow> py_error + header" where
  "as_dict v = (case v of JObj h \<Rightarrow> Inr h | JStr _ \<Rightarrow> Inl ValueError | _ \<Rightarrow> Inl TypeError)"

definition as_list :: "json \<Rightarrow> py_error + json list" where
  "as_list v = (case v of JList xs \<Rightarrow> Inr xs | JObj h \<Rightarrow> Inr (map (\<lambda>kv. JStr (fst kv)) h)
     | JStr s \<Rightarrow> Inr (map (\<lambda>c. JStr [c]) s) | _ \<Rightarrow> Inl TypeError)"

definition str_in :: "string \<Rightarrow> json \<Rightarrow> py_error + bool" where
  "str_in x v = (case v of JList xs \<Rightarrow> Inr (JStr x \<in> set xs) | JObj h \<Rightarrow> Inr (x \<in> fst ` set h)
     | JStr s \<Rightarrow> Inr (sublist x s) | _ \<Rightarrow> Inl TypeError)"

definition numeral_trunc :: "string \<Rightarrow> int option" where
  "numeral_trunc t =
     (let (sg, s1) = scan_sign t
      in case scan_int s1 of None \<Rightarrow> None
         | Some (ip, s2) \<Rightarrow>
             let (fr, s3) = scan_frac s2; (ex, s4) = scan_exp s3;
                 (es, ed) = scan_sign (dropWhile (\<lambda>c. c = CHR ''+'') (drop 1 ex));
                 e = (if es = [] then int (digits_val ed) else - int (digits_val ed)) - int (length (drop 1 fr));
                 m = int (digits_val (ip @ drop 1 fr)) * 10 ^ nat e div 10 ^ nat (- e)
             in Some (if sg = [] then m else - m))"

definition str_int :: "string \<Rightarrow> int option" where
  "str_int s =
     (let t = rev (dropWhile is_ws (rev (dropWhile is_ws s)));
          (neg, ds) = (case t of c # r \<Rightarrow> if c = CHR ''-'' then (True, r) else if c = CHR ''+'' then (False, r) else (False, t)
                        | [] \<Rightarrow> (False, []))
      in if ds \<noteq> [] \<and> (\<forall>c \<in> set ds. is_digit c) then Some (if neg then - int (digits_val ds) else int (digits_val ds))
         else None)"

definition py_int :: "json \<Rightarrow> py_error + int" where
  "py_int v = (case v of JInt i \<Rightarrow> Inr i | JBool b \<Rightarrow> Inr (of_bool b)
     | JFloat t \<Rightarrow> (case numeral_trunc t of Some i \<Rightarrow> Inr i | None \<Rightarrow> Inl (if t = ''NaN'' then ValueError else OverflowError))
     | JStr s \<Rightarrow> (case str_int s of Some i \<Rightarrow> Inr i | None \<Rightarrow> Inl ValueError) | _ \<Rightarrow> Inl TypeError)"

text \<open>\<open>"agent refused the attach: " + (event.get("reason") or "bad secret")\<close>\<close>

definition refusal_note :: "header \<Rightarrow> py_error + json" where
  "refusal_note event = (case get_true event ''reason'' (JStr ''bad secret'') of
     JStr r \<Rightarrow> Inr (JStr (''agent refused the attach: '' @ r)) | _ \<Rightarrow> Inl TypeError)"

text \<open>\<open>isinstance(req, int)\<close> holds of a bool as well.\<close>

definition int_req :: "header \<Rightarrow> int option" where
  "int_req event = (case dget event ''req'' of Some (JInt i) \<Rightarrow> Some i | Some (JBool b) \<Rightarrow> Some (of_bool b) | _ \<Rightarrow> None)"

type_synonym mark = "string \<times> (string \<times> json) list"

subsection \<open>The host's end\<close>

record host_agent =
  ha_cfg :: transport_config
  ha_link :: frame_link
  ha_pending :: pending_table
  ha_next_req :: int
  ha_last_pong :: time
  ha_alive :: bool
  ha_link_up :: bool
  ha_cold_outstanding :: int
  ha_fast_outstanding :: int
  ha_peer_status :: header
  ha_peer_fingerprint :: json
  ha_peer_pinned :: bool
  ha_link_note :: json
  ha_cold_dropped :: int
  ha_credits_bytes :: bool
  ha_has_fast :: bool
  ha_wire_compresses :: bool
  ha_stats :: header
  ha_agent_version :: json
  ha_agent_exe :: json
  ha_agent_mode :: bool
  ha_agent_config :: header
  ha_peer_addr :: json
  ha_peers :: "json list"
  ha_peers_sources :: "json list"
  ha_next_cmd :: int
  ha_cmd_replies :: "(int, header) dict"
  ha_attached :: bool
  ha_marks :: "mark list"
  ha_peer_calls :: "bool list"

definition ha_init :: "transport_config \<Rightarrow> host_agent" where
  "ha_init cfg = \<lparr>ha_cfg = cfg, ha_link = lk_init, ha_pending = [], ha_next_req = 1, ha_last_pong = 0,
     ha_alive = False, ha_link_up = False, ha_cold_outstanding = 0, ha_fast_outstanding = 0,
     ha_peer_status = [], ha_peer_fingerprint = JStr [], ha_peer_pinned = True, ha_link_note = JStr [],
     ha_cold_dropped = 0, ha_credits_bytes = False, ha_has_fast = False, ha_wire_compresses = False,
     ha_stats = [], ha_agent_version = JStr [], ha_agent_exe = JStr [], ha_agent_mode = False,
     ha_agent_config = [], ha_peer_addr = JStr [], ha_peers = [], ha_peers_sources = [],
     ha_next_cmd = 1000, ha_cmd_replies = [], ha_attached = False, ha_marks = [], ha_peer_calls = []\<rparr>"

definition ha_cmd :: "header \<Rightarrow> host_agent \<Rightarrow> (py_error + unit) \<times> host_agent" where
  "ha_cmd cmd s = (let (r, l) = lk_cmd cmd (ha_link s) in (r, s\<lparr>ha_link := l\<rparr>))"

text \<open>\<open>start\<close> with a link already made: the address in the configuration is an explicit override.\<close>

definition ha_start :: "frame_link \<Rightarrow> host_agent \<Rightarrow> (py_error + unit) \<times> host_agent" where
  "ha_start l s =
     (let s1 = s\<lparr>ha_link := l, ha_agent_mode := True\<rparr>; cfg = ha_cfg s
      in if tc_address cfg \<noteq> []
         then ha_cmd [(''cmd'', JStr ''connect''),
                      (''peer'', JStr (tc_address cfg @ '':'' @ int_text (tc_port_control cfg))),
                      (''fingerprint'', JStr (tc_fingerprint cfg))] s1
         else (Inr (), s1))"

definition ha_stop :: "host_agent \<Rightarrow> host_agent" where
  "ha_stop s = s\<lparr>ha_link := lk_close (ha_link s)\<rparr>"

definition ha_send_control :: "header \<Rightarrow> host_agent \<Rightarrow> (py_error + unit) \<times> host_agent" where
  "ha_send_control msg s =
     (let (r, l) = lk_send T_CONTROL [PEER @ encode_control msg] (ha_link s) in (r, s\<lparr>ha_link := l\<rparr>))"

definition ha_register :: "bool option \<Rightarrow> host_agent \<Rightarrow> host_agent" where
  "ha_register ev s =
     s\<lparr>ha_pending := dset (ha_next_req s) \<lparr>ps_event = ev, ps_replies = []\<rparr> (ha_pending s),
       ha_next_req := ha_next_req s + 1\<rparr>"

definition ha_request_nowait :: "header \<Rightarrow> host_agent \<Rightarrow> (py_error + int) \<times> host_agent" where
  "ha_request_nowait msg s =
     (let req_id = ha_next_req s; (r, s2) = ha_send_control (with_req req_id msg) (ha_register None s)
      in (case r of Inl e \<Rightarrow> Inl e | Inr _ \<Rightarrow> Inr req_id, s2))"

text \<open>The blocking \<open>request\<close>: before the wait, and after it.\<close>

definition ha_request_begin :: "header \<Rightarrow> host_agent \<Rightarrow> (py_error + int) \<times> host_agent" where
  "ha_request_begin msg s =
     (let req_id = ha_next_req s; (r, s2) = ha_send_control (with_req req_id msg) (ha_register (Some False) s)
      in (case r of Inl e \<Rightarrow> Inl e | Inr _ \<Rightarrow> Inr req_id, s2))"

definition ha_request_end :: "int \<Rightarrow> host_agent \<Rightarrow> header option \<times> host_agent" where
  "ha_request_end req_id s = (let (r, t) = table_finish req_id (ha_pending s) in (r, s\<lparr>ha_pending := t\<rparr>))"

definition ha_poll_reply :: "int \<Rightarrow> host_agent \<Rightarrow> header option \<times> host_agent" where
  "ha_poll_reply req_id s = (let (r, t) = table_poll req_id (ha_pending s) in (r, s\<lparr>ha_pending := t\<rparr>))"

definition ha_cancel_request :: "int \<Rightarrow> host_agent \<Rightarrow> host_agent" where
  "ha_cancel_request req_id s = s\<lparr>ha_pending := dpop req_id (ha_pending s)\<rparr>"

definition ha_handle_reply :: "time \<Rightarrow> header \<Rightarrow> host_agent \<Rightarrow> py_error + host_agent" where
  "ha_handle_reply now reply s =
     (if is_pong reply
      then Inr (let s1 = s\<lparr>ha_last_pong := now\<rparr>
                in case dget reply ''status'' of Some (JObj st) \<Rightarrow> s1\<lparr>ha_peer_status := st\<rparr> | _ \<Rightarrow> s1)
      else case table_deliver reply (ha_pending s) of Inl e \<Rightarrow> Inl e | Inr t \<Rightarrow> Inr (s\<lparr>ha_pending := t\<rparr>))"

definition ha_send_hot_keyed :: "byte list \<Rightarrow> byte list \<Rightarrow> host_agent \<Rightarrow> (py_error + unit) \<times> host_agent" where
  "ha_send_hot_keyed key v s =
     (if ha_link_up s then (let (r, l) = lk_send_hot key v (ha_link s) in (r, s\<lparr>ha_link := l\<rparr>)) else (Inr (), s))"

definition ha_send_hot :: "byte list \<Rightarrow> host_agent \<Rightarrow> (py_error + unit) \<times> host_agent" where
  "ha_send_hot packed s = ha_send_hot_keyed HOT_KEY_CAMERA packed s"

definition parts_size :: "byte list list \<Rightarrow> int" where
  "parts_size parts = int (sum_list (map length parts))"

definition cold_cost :: "byte list list \<Rightarrow> host_agent \<Rightarrow> int" where
  "cold_cost parts s = (if ha_credits_bytes s then parts_size parts else 1)"

definition cold_window :: "host_agent \<Rightarrow> int" where
  "cold_window s = (if ha_credits_bytes s then COLD_WINDOW_BYTES else COLD_WINDOW)"

definition ha_send_cold :: "header \<Rightarrow> byte list \<Rightarrow> host_agent \<Rightarrow> (py_error + bool) \<times> host_agent" where
  "ha_send_cold h payload s =
     (case cold_parts h payload of Inl e \<Rightarrow> (Inl e, s)
      | Inr parts \<Rightarrow>
          let cost = cold_cost parts s
          in if \<not> ha_link_up s \<or> (ha_cold_outstanding s \<noteq> 0 \<and> ha_cold_outstanding s + cost > cold_window s)
             then (Inr False, s)
             else (case lk_send T_COLD parts (ha_link s) of (r, l) \<Rightarrow>
                     (case r of Inl e \<Rightarrow> Inl e | Inr _ \<Rightarrow> Inr True,
                      s\<lparr>ha_cold_outstanding := ha_cold_outstanding s + cost, ha_link := l\<rparr>)))"

definition ha_send_fast :: "header \<Rightarrow> byte list \<Rightarrow> host_agent \<Rightarrow> (py_error + bool) \<times> host_agent" where
  "ha_send_fast h payload s =
     (if \<not> ha_has_fast s then ha_send_cold h payload s
      else case cold_parts h payload of Inl e \<Rightarrow> (Inl e, s)
      | Inr parts \<Rightarrow>
          let sz = parts_size parts
          in if \<not> ha_link_up s \<or> (ha_fast_outstanding s \<noteq> 0 \<and> ha_fast_outstanding s + sz > FAST_WINDOW_BYTES)
             then (Inr False, s)
             else (case lk_send T_FAST parts (ha_link s) of (r, l) \<Rightarrow>
                     (case r of Inl e \<Rightarrow> Inl e | Inr _ \<Rightarrow> Inr True,
                      s\<lparr>ha_fast_outstanding := ha_fast_outstanding s + sz, ha_link := l\<rparr>)))"

subsubsection \<open>Events of the agent\<close>

definition ha_stash_reply :: "header \<Rightarrow> host_agent \<Rightarrow> host_agent" where
  "ha_stash_reply event s =
     (case int_req event of Some req \<Rightarrow> s\<lparr>ha_cmd_replies := dset req event (ha_cmd_replies s)\<rparr> | None \<Rightarrow> s)"

definition ha_poll_cmd_reply :: "int \<Rightarrow> host_agent \<Rightarrow> header option \<times> host_agent" where
  "ha_poll_cmd_reply req s = (dget (ha_cmd_replies s) req, s\<lparr>ha_cmd_replies := dpop req (ha_cmd_replies s)\<rparr>)"

definition ha_on_attached :: "header \<Rightarrow> host_agent \<Rightarrow> (py_error + unit) \<times> host_agent" where
  "ha_on_attached event s =
     (let s1 = s\<lparr>ha_agent_version := get_or event ''version'' (JStr []), ha_agent_exe := get_or event ''exe'' (JStr []),
                 ha_link_up := truthy event ''peer_up'',
                 ha_peer_fingerprint := get_true event ''peer_fingerprint'' (JStr []),
                 ha_peer_addr := get_true event ''peer_addr'' (JStr []), ha_peer_pinned := True\<rparr>
      in case as_dict (get_true event ''config'' (JObj [])) of Inl e \<Rightarrow> (Inl e, s1)
         | Inr cfg \<Rightarrow>
             let s2 = s1\<lparr>ha_agent_config := cfg,
                         ha_credits_bytes := (dget event ''credits'' = Some (JStr ''bytes''))\<rparr>
             in case str_in ''fast'' (get_true event ''lanes'' (JList [])) of Inl e \<Rightarrow> (Inl e, s2)
                | Inr fast \<Rightarrow> (Inr (), s2\<lparr>ha_has_fast := fast,
                    ha_wire_compresses := (dget event ''codec'' = Some (JStr ''zstd'')), ha_attached := True\<rparr>))"

text \<open>\<open>event.get("config") or self.agent_config\<close> and \<open>event.get("peers") or []\<close>\<close>

definition ha_on_config :: "header \<Rightarrow> host_agent \<Rightarrow> (py_error + unit) \<times> host_agent" where
  "ha_on_config event s =
     (case as_dict (get_true event ''config'' (JObj (ha_agent_config s))) of Inl e \<Rightarrow> (Inl e, s)
      | Inr cfg \<Rightarrow> (Inr (), ha_stash_reply event (s\<lparr>ha_agent_config := cfg\<rparr>)))"

definition ha_on_peers :: "header \<Rightarrow> host_agent \<Rightarrow> (py_error + unit) \<times> host_agent" where
  "ha_on_peers event s =
     (case as_list (get_true event ''peers'' (JList [])) of Inl e \<Rightarrow> (Inl e, s)
      | Inr ps \<Rightarrow>
          case as_list (get_true event ''sources'' (JList [])) of Inl e \<Rightarrow> (Inl e, s\<lparr>ha_peers := ps\<rparr>)
          | Inr srcs \<Rightarrow> (Inr (), ha_stash_reply event (s\<lparr>ha_peers := ps, ha_peers_sources := srcs\<rparr>)))"

definition ha_on_peer :: "(json \<Rightarrow> string) \<Rightarrow> header \<Rightarrow> host_agent \<Rightarrow> host_agent" where
  "ha_on_peer py_repr event s =
     (if truthy event ''up''
      then (let s1 = s\<lparr>ha_link_up := True\<rparr>;
                s2 = (if get_or event ''fingerprint'' JNull \<noteq> JNull
                      then s1\<lparr>ha_peer_fingerprint := get_true event ''fingerprint'' (JStr [])\<rparr> else s1);
                s3 = (if truthy event ''addr''
                      then s2\<lparr>ha_peer_addr := JStr (py_str py_repr (get_or event ''addr'' JNull))\<rparr> else s2)
            in s3\<lparr>ha_peer_pinned := json_true (get_or event ''pinned'' (JBool True)), ha_link_note := JStr []\<rparr>)
      else s\<lparr>ha_link_up := False, ha_link_note := get_true event ''reason'' (JStr []), ha_last_pong := 0\<rparr>)"

definition ha_note_addr :: "(string \<times> json) list \<Rightarrow> string \<Rightarrow> host_agent \<Rightarrow> host_agent" where
  "ha_note_addr via addr s =
     s\<lparr>ha_peer_addr := JStr addr, ha_marks := ha_marks s @ [(''agent.peer_addr'', (''addr'', JStr addr) # via)]\<rparr>"

definition ha_handle_event :: "(json \<Rightarrow> string) \<Rightarrow> header \<Rightarrow> host_agent \<Rightarrow> (py_error + unit) \<times> host_agent" where
  "ha_handle_event py_repr event s =
     (let name = get_or event ''event'' JNull in
      if name = JStr ''attached'' then ha_on_attached event s
      else if name = JStr ''config'' then ha_on_config event s
      else if name = JStr ''peers'' then ha_on_peers event s
      else if name = JStr ''rejected''
      then (case refusal_note event of Inl e \<Rightarrow> (Inl e, s) | Inr n \<Rightarrow> (Inr (), s\<lparr>ha_link_note := n\<rparr>))
      else if name = JStr ''peer'' then (Inr (), ha_on_peer py_repr event s)
      else if name = JStr ''peer_addr''
      then (Inr (), if truthy event ''addr'' then ha_note_addr [] (py_str py_repr (get_or event ''addr'' JNull)) s else s)
      else if name = JStr ''stats''
      then (Inr (), let s1 = s\<lparr>ha_stats := event\<rparr>; addr = py_str py_repr (get_or event ''peer_addr'' JNull)
                    in if truthy event ''peer_addr'' \<and> JStr addr \<noteq> ha_peer_addr s
                       then ha_note_addr [(''via'', JStr ''stats'')] addr s1 else s1)
      else if name = JStr ''cold_dropped''
      then (case py_int (get_true event ''n'' (JInt 1)) of Inl e \<Rightarrow> (Inl e, s)
            | Inr n \<Rightarrow> (Inr (), s\<lparr>ha_cold_dropped := ha_cold_dropped s + n\<rparr>))
      else if name = JStr ''error'' then (Inr (), s\<lparr>ha_link_note := get_true event ''msg'' (JStr [])\<rparr>)
      else (Inr (), s))"

text \<open>An acknowledgement names how much the agent took; \<open>json.loads\<close> of an event may be any value.\<close>

definition ack_count :: "byte list \<Rightarrow> py_error + int" where
  "ack_count body = (if length body < 4 then Inl StructError else Inr (int (be_val (take 4 body))))"

definition decode_event :: "byte list \<Rightarrow> py_error + header" where
  "decode_event body = (case utf8_decode body of None \<Rightarrow> Inl ValueError
     | Some t \<Rightarrow> (case loads t of None \<Rightarrow> Inl ValueError
                  | Some v \<Rightarrow> (case json_object v of None \<Rightarrow> Inl AttributeError | Some h \<Rightarrow> Inr h)))"

definition ha_on_frame :: "(json \<Rightarrow> string) \<Rightarrow> time \<Rightarrow> int \<Rightarrow> byte list \<Rightarrow> host_agent
    \<Rightarrow> (py_error + unit) \<times> host_agent" where
  "ha_on_frame py_repr now kind body s =
     (if kind = T_CONTROL
      then (case decode_control (drop 1 body) of None \<Rightarrow> (Inr (), s)
            | Some reply \<Rightarrow> (case ha_handle_reply now reply s of Inl e \<Rightarrow> (Inl e, s) | Inr s' \<Rightarrow> (Inr (), s')))
      else if kind = T_COLD_ACK
      then (case ack_count body of Inl e \<Rightarrow> (Inl e, s)
            | Inr n \<Rightarrow> (Inr (), s\<lparr>ha_cold_outstanding := max 0 (ha_cold_outstanding s - n)\<rparr>))
      else if kind = T_FAST_ACK
      then (case ack_count body of Inl e \<Rightarrow> (Inl e, s)
            | Inr n \<Rightarrow> (Inr (), s\<lparr>ha_fast_outstanding := max 0 (ha_fast_outstanding s - n)\<rparr>))
      else if kind = T_EVENT
      then (case decode_event body of Inl e \<Rightarrow> (Inl e, s) | Inr event \<Rightarrow> ha_handle_event py_repr event s)
      else (Inr (), s))"

subsubsection \<open>Agent commands and the liveness tick\<close>

definition ha_discover :: "string option \<Rightarrow> host_agent \<Rightarrow> (py_error + int) \<times> host_agent" where
  "ha_discover addr s =
     (let req = ha_next_cmd s;
          cmd = [(''cmd'', JStr ''discover''), (''req'', JInt req)]
                @ (case addr of Some a \<Rightarrow> if a \<noteq> [] then [(''addr'', JStr a)] else [] | None \<Rightarrow> []);
          (r, s1) = ha_cmd cmd (s\<lparr>ha_next_cmd := req + 1\<rparr>)
      in (case r of Inl e \<Rightarrow> Inl e | Inr _ \<Rightarrow> Inr req, s1))"

definition ha_set_config :: "header \<Rightarrow> host_agent \<Rightarrow> (py_error + int) \<times> host_agent" where
  "ha_set_config settings s =
     (let req = ha_next_cmd s;
          (r, s1) = ha_cmd [(''cmd'', JStr ''set_config''), (''req'', JInt req), (''set'', JObj settings)]
                      (s\<lparr>ha_next_cmd := req + 1\<rparr>)
      in (case r of Inl e \<Rightarrow> Inl e | Inr _ \<Rightarrow> Inr req, s1))"

definition heartbeat_window :: "transport_config \<Rightarrow> time" where
  "heartbeat_window cfg = tc_heartbeat_interval cfg * of_int (tc_heartbeat_misses cfg)"

text \<open>One round of \<open>_io_loop\<close>; the time of the next ping is the loop's local variable.\<close>

definition ha_io_tick :: "time \<Rightarrow> time \<times> host_agent \<Rightarrow> (py_error + unit) \<times> time \<times> host_agent" where
  "ha_io_tick now st =
     (let (next_ping, s) = st;
          (r, next1, s1) = (if ha_link_up s \<and> now \<ge> next_ping
                            then (let (r, s') = ha_send_control [(''kind'', JStr ''ping'')] s
                                  in (r, now + tc_heartbeat_interval (ha_cfg s), s'))
                            else (Inr (), next_ping, s))
      in case r of Inl e \<Rightarrow> (Inl e, next_ping, s1)
         | Inr _ \<Rightarrow>
             let alive = (ha_link_up s1 \<and> 0 < ha_last_pong s1
                          \<and> now - ha_last_pong s1 < heartbeat_window (ha_cfg s1))
             in (Inr (), next1, if alive \<noteq> ha_alive s1
                                then s1\<lparr>ha_alive := alive, ha_peer_calls := ha_peer_calls s1 @ [alive]\<rparr> else s1))"

subsection \<open>The replica's end\<close>

record replica_agent =
  ra_cfg :: transport_config
  ra_link :: frame_link
  ra_hot :: "(byte list, byte list) dict"
  ra_cold_q :: "(header \<times> byte list) list"
  ra_fast_q :: "(header \<times> byte list) list"
  ra_last_ping :: time
  ra_ready :: bool
  ra_port :: int
  ra_fingerprint :: json
  ra_link_note :: json
  ra_session_on :: bool
  ra_stats :: header
  ra_agent_config :: header
  ra_peer_addr :: string
  ra_peers :: "json list"
  ra_peers_sources :: "json list"
  ra_next_cmd :: int
  ra_cmd_replies :: "(int, header) dict"
  ra_agent_version :: json
  ra_agent_exe :: json
  ra_agent_mode :: bool
  ra_quit_requested :: bool
  ra_marks :: "mark list"

definition ra_init :: "transport_config \<Rightarrow> replica_agent" where
  "ra_init cfg = \<lparr>ra_cfg = cfg, ra_link = lk_init, ra_hot = [], ra_cold_q = [], ra_fast_q = [],
     ra_last_ping = 0, ra_ready = False, ra_port = 0, ra_fingerprint = JStr [], ra_link_note = JStr [],
     ra_session_on = True, ra_stats = [], ra_agent_config = [], ra_peer_addr = [], ra_peers = [],
     ra_peers_sources = [], ra_next_cmd = 1000, ra_cmd_replies = [], ra_agent_version = JStr [],
     ra_agent_exe = JStr [], ra_agent_mode = False, ra_quit_requested = False, ra_marks = []\<rparr>"

definition ra_start :: "frame_link \<Rightarrow> replica_agent \<Rightarrow> replica_agent" where
  "ra_start l s = s\<lparr>ra_link := l, ra_agent_mode := True\<rparr>"

definition ra_stop :: "replica_agent \<Rightarrow> replica_agent" where
  "ra_stop s = s\<lparr>ra_link := lk_close (ra_link s)\<rparr>"

definition ra_poll_hot :: "replica_agent \<Rightarrow> byte list option" where
  "ra_poll_hot s = dget (ra_hot s) HOT_KEY_CAMERA"

definition ra_poll_hot_keyed :: "replica_agent \<Rightarrow> (byte list, byte list) dict" where
  "ra_poll_hot_keyed s = ra_hot s"

definition ra_poll_fast :: "nat \<Rightarrow> replica_agent \<Rightarrow> (header \<times> byte list) list \<times> replica_agent" where
  "ra_poll_fast n s = (take n (ra_fast_q s), s\<lparr>ra_fast_q := drop n (ra_fast_q s)\<rparr>)"

definition ra_poll_cold :: "nat \<Rightarrow> replica_agent \<Rightarrow> (header \<times> byte list) list \<times> replica_agent" where
  "ra_poll_cold n s = (take n (ra_cold_q s), s\<lparr>ra_cold_q := drop n (ra_cold_q s)\<rparr>)"

definition ra_peer_alive :: "time \<Rightarrow> replica_agent \<Rightarrow> bool" where
  "ra_peer_alive now s \<longleftrightarrow> 0 < ra_last_ping s \<and> now - ra_last_ping s < heartbeat_window (ra_cfg s)"

definition ra_bound_ports :: "replica_agent \<Rightarrow> int \<times> int \<times> int" where
  "ra_bound_ports s = (ra_port s, ra_port s, ra_port s)"

definition ra_stash_reply :: "header \<Rightarrow> replica_agent \<Rightarrow> replica_agent" where
  "ra_stash_reply event s =
     (case int_req event of Some req \<Rightarrow> s\<lparr>ra_cmd_replies := dset req event (ra_cmd_replies s)\<rparr> | None \<Rightarrow> s)"

definition ra_poll_cmd_reply :: "int \<Rightarrow> replica_agent \<Rightarrow> header option \<times> replica_agent" where
  "ra_poll_cmd_reply req s = (dget (ra_cmd_replies s) req, s\<lparr>ra_cmd_replies := dpop req (ra_cmd_replies s)\<rparr>)"

definition ra_note_peer_addr :: "string \<Rightarrow> string \<Rightarrow> replica_agent \<Rightarrow> replica_agent" where
  "ra_note_peer_addr addr via s =
     (if addr \<noteq> [] \<and> addr \<noteq> ra_peer_addr s
      then s\<lparr>ra_peer_addr := addr,
             ra_marks := ra_marks s @ [(''agent.peer_addr'', [(''addr'', JStr addr), (''via'', JStr via)])]\<rparr>
      else s)"

text \<open>\<open>if event.get(k): self._note_peer_addr(str(event[k]), via)\<close>\<close>

definition ra_note_from :: "(json \<Rightarrow> string) \<Rightarrow> header \<Rightarrow> string \<Rightarrow> string \<Rightarrow> replica_agent \<Rightarrow> replica_agent" where
  "ra_note_from py_repr event k via s =
     (if truthy event k then ra_note_peer_addr (py_str py_repr (get_or event k JNull)) via s else s)"

definition ra_on_attached :: "(json \<Rightarrow> string) \<Rightarrow> header \<Rightarrow> replica_agent \<Rightarrow> (py_error + unit) \<times> replica_agent" where
  "ra_on_attached py_repr event s =
     (case py_int (get_true event ''port'' (JInt 0)) of Inl e \<Rightarrow> (Inl e, s)
      | Inr port \<Rightarrow>
          let s1 = s\<lparr>ra_port := port, ra_fingerprint := get_true event ''fingerprint'' (JStr []),
                     ra_agent_version := get_or event ''version'' (JStr []),
                     ra_agent_exe := get_or event ''exe'' (JStr [])\<rparr>
          in case as_dict (get_true event ''config'' (JObj [])) of Inl e \<Rightarrow> (Inl e, s1)
             | Inr cfg \<Rightarrow> (Inr (), (ra_note_from py_repr event ''peer_addr'' ''attached''
                                     (s1\<lparr>ra_agent_config := cfg\<rparr>))\<lparr>ra_ready := True\<rparr>))"

definition ra_handle_event :: "(json \<Rightarrow> string) \<Rightarrow> header \<Rightarrow> replica_agent \<Rightarrow> (py_error + unit) \<times> replica_agent" where
  "ra_handle_event py_repr event s =
     (let name = get_or event ''event'' JNull in
      if name = JStr ''attached'' then ra_on_attached py_repr event s
      else if name = JStr ''config''
      then (case as_dict (get_true event ''config'' (JObj (ra_agent_config s))) of Inl e \<Rightarrow> (Inl e, s)
            | Inr cfg \<Rightarrow> (Inr (), ra_stash_reply event (s\<lparr>ra_agent_config := cfg\<rparr>)))
      else if name = JStr ''status'' \<and> dget event ''session'' \<noteq> None
      then (Inr (), s\<lparr>ra_session_on := truthy event ''session''\<rparr>)
      else if name = JStr ''peers''
      then (case as_list (get_true event ''peers'' (JList [])) of Inl e \<Rightarrow> (Inl e, s)
            | Inr ps \<Rightarrow>
                case as_list (get_true event ''sources'' (JList [])) of Inl e \<Rightarrow> (Inl e, s\<lparr>ra_peers := ps\<rparr>)
                | Inr srcs \<Rightarrow> (Inr (), ra_stash_reply event (s\<lparr>ra_peers := ps, ra_peers_sources := srcs\<rparr>)))
      else if name = JStr ''rejected''
      then (case refusal_note event of Inl e \<Rightarrow> (Inl e, s)
            | Inr n \<Rightarrow> (Inr (), s\<lparr>ra_link_note := n, ra_ready := True\<rparr>))
      else if name = JStr ''quit'' then (Inr (), s\<lparr>ra_quit_requested := True\<rparr>)
      else if name = JStr ''peer''
      then (Inr (), let up = truthy event ''up'';
                        s1 = s\<lparr>ra_link_note := (if up then JStr [] else get_true event ''reason'' (JStr []))\<rparr>
                    in if \<not> up then s1\<lparr>ra_last_ping := 0\<rparr> else ra_note_from py_repr event ''addr'' ''peer'' s1)
      else if name = JStr ''peer_addr'' then (Inr (), ra_note_from py_repr event ''addr'' ''event'' s)
      else if name = JStr ''stats''
      then (Inr (), ra_note_from py_repr event ''peer_addr'' ''stats'' (s\<lparr>ra_stats := event\<rparr>))
      else if name = JStr ''error'' then (Inr (), s\<lparr>ra_link_note := get_true event ''msg'' (JStr [])\<rparr>)
      else (Inr (), s))"

definition ra_discover :: "string option \<Rightarrow> replica_agent \<Rightarrow> (py_error + int) \<times> replica_agent" where
  "ra_discover addr s =
     (let req = ra_next_cmd s;
          cmd = [(''cmd'', JStr ''discover''), (''req'', JInt req)]
                @ (case addr of Some a \<Rightarrow> if a \<noteq> [] then [(''addr'', JStr a)] else [] | None \<Rightarrow> []);
          (r, l) = lk_cmd cmd (ra_link s)
      in (case r of Inl e \<Rightarrow> Inl e | Inr _ \<Rightarrow> Inr req, s\<lparr>ra_next_cmd := req + 1, ra_link := l\<rparr>))"

definition ra_set_config :: "header \<Rightarrow> replica_agent \<Rightarrow> (py_error + int) \<times> replica_agent" where
  "ra_set_config settings s =
     (let req = ra_next_cmd s;
          (r, l) = lk_cmd [(''cmd'', JStr ''set_config''), (''req'', JInt req), (''set'', JObj settings)] (ra_link s)
      in (case r of Inl e \<Rightarrow> Inl e | Inr _ \<Rightarrow> Inr req, s\<lparr>ra_next_cmd := req + 1, ra_link := l\<rparr>))"

text \<open>
  The request handler and the status provider are the session's; they act on a state of its own
  and raise with the text of the exception.
\<close>

type_synonym 'h handler = "header \<Rightarrow> 'h \<Rightarrow> (string + header) \<times> 'h"
type_synonym 'h provider = "('h \<Rightarrow> string + header) option"

definition control_reply :: "'h handler \<Rightarrow> 'h provider \<Rightarrow> header \<Rightarrow> 'h \<Rightarrow> header \<times> 'h" where
  "control_reply handler provider msg h =
     (if dget msg ''kind'' = Some (JStr ''ping'')
      then (case provider of None \<Rightarrow> [(''kind'', JStr ''pong'')]
            | Some p \<Rightarrow> (case p h of Inl _ \<Rightarrow> [(''kind'', JStr ''pong'')]
                         | Inr st \<Rightarrow> [(''kind'', JStr ''pong''), (''status'', JObj st)]), h)
      else (case handler msg h of (r, h') \<Rightarrow>
              (dset ''req'' (req_of msg)
                 (case r of Inl err \<Rightarrow> [(''kind'', JStr ''error''), (''error'', JStr err)] | Inr reply \<Rightarrow> reply), h')))"

definition ra_serve_control :: "'h handler \<Rightarrow> 'h provider \<Rightarrow> time \<Rightarrow> header \<Rightarrow> 'h \<times> replica_agent
    \<Rightarrow> (py_error + unit) \<times> 'h \<times> replica_agent" where
  "ra_serve_control handler provider now msg hs =
     (let (h, s) = hs;
          s1 = (if dget msg ''kind'' = Some (JStr ''ping'') then s\<lparr>ra_last_ping := now\<rparr> else s);
          (reply, h') = control_reply handler provider msg h;
          (r, l) = lk_send T_CONTROL [PEER @ encode_control reply] (ra_link s1)
      in (r, h', s1\<lparr>ra_link := l\<rparr>))"

definition ra_on_frame :: "(json \<Rightarrow> string) \<Rightarrow> 'h handler \<Rightarrow> 'h provider \<Rightarrow> time \<Rightarrow> int \<Rightarrow> byte list
    \<Rightarrow> 'h \<times> replica_agent \<Rightarrow> (py_error + unit) \<times> 'h \<times> replica_agent" where
  "ra_on_frame py_repr handler provider now kind body hs =
     (let (h, s) = hs in
      if kind = T_CONTROL
      then (case decode_control (drop 1 body) of None \<Rightarrow> (Inr (), h, s)
            | Some msg \<Rightarrow> ra_serve_control handler provider now msg (h, s))
      else if kind = T_HOT
      then (if length body < 2 then (Inl IndexError, h, s)
            else let (key, v) = hot_split body in (Inr (), h, s\<lparr>ra_hot := dset key v (ra_hot s)\<rparr>))
      else if kind = T_COLD
      then (case unpack_cold (drop 1 body) of None \<Rightarrow> (Inr (), h, s)
            | Some m \<Rightarrow> (Inr (), h, s\<lparr>ra_cold_q := ra_cold_q s @ [m]\<rparr>))
      else if kind = T_FAST
      then (case unpack_cold (drop 1 body) of None \<Rightarrow> (Inr (), h, s)
            | Some m \<Rightarrow> (Inr (), h, s\<lparr>ra_fast_q := ra_fast_q s @ [m]\<rparr>))
      else if kind = T_EVENT
      then (case decode_event body of Inl e \<Rightarrow> (Inl e, h, s)
            | Inr event \<Rightarrow> (case ra_handle_event py_repr event s of (r, s') \<Rightarrow> (r, h, s')))
      else (Inr (), h, s))"

subsection \<open>The host's operations as one step function\<close>

datatype ha_op = H_Cold header "byte list" | H_Fast header "byte list" | H_Hot "byte list" "byte list"
  | H_Request header | H_Poll int | H_Write "nat option" | H_Frame time int "byte list" | H_Tick time time
  | H_Discover "string option" | H_Set_Config header

fun ha_step :: "(json \<Rightarrow> string) \<Rightarrow> ha_op \<Rightarrow> host_agent \<Rightarrow> host_agent" where
  "ha_step py_repr (H_Cold h p) s = snd (ha_send_cold h p s)"
| "ha_step py_repr (H_Fast h p) s = snd (ha_send_fast h p s)"
| "ha_step py_repr (H_Hot k v) s = snd (ha_send_hot_keyed k v s)"
| "ha_step py_repr (H_Request msg) s = snd (ha_request_nowait msg s)"
| "ha_step py_repr (H_Poll k) s = snd (ha_poll_reply k s)"
| "ha_step py_repr (H_Write failure) s = s\<lparr>ha_link := lk_write failure (ha_link s)\<rparr>"
| "ha_step py_repr (H_Frame now kind body) s = snd (ha_on_frame py_repr now kind body s)"
| "ha_step py_repr (H_Tick now next_ping) s = snd (snd (ha_io_tick now (next_ping, s)))"
| "ha_step py_repr (H_Discover addr) s = snd (ha_discover addr s)"
| "ha_step py_repr (H_Set_Config settings) s = snd (ha_set_config settings s)"

definition ha_run :: "(json \<Rightarrow> string) \<Rightarrow> ha_op list \<Rightarrow> host_agent \<Rightarrow> host_agent" where
  "ha_run py_repr ops s = fold (ha_step py_repr) ops s"

text \<open>What runs beside the requests: everything that is not itself a request, a poll or a reply.\<close>

fun ha_beside :: "(json \<Rightarrow> string) \<Rightarrow> ha_op \<Rightarrow> host_agent \<Rightarrow> host_agent" where
  "ha_beside py_repr (H_Request msg) s = s"
| "ha_beside py_repr (H_Poll k) s = s"
| "ha_beside py_repr (H_Frame now kind body) s = (if kind = T_CONTROL then s else ha_step py_repr (H_Frame now kind body) s)"
| "ha_beside py_repr op s = ha_step py_repr op s"

lemma ha_control_state [simp]:
  "ha_pending (snd (ha_send_control m s)) = ha_pending s" "ha_next_req (snd (ha_send_control m s)) = ha_next_req s"
  "ha_pending (snd (ha_cmd m s)) = ha_pending s" "ha_next_req (snd (ha_cmd m s)) = ha_next_req s"
  "ha_pending (snd (ha_send_hot_keyed k v s)) = ha_pending s" "ha_next_req (snd (ha_send_hot_keyed k v s)) = ha_next_req s"
  by (simp_all add: ha_send_control_def ha_cmd_def ha_send_hot_keyed_def Let_def split: prod.splits)

lemma ha_send_state [simp]:
  "ha_pending (snd (ha_send_cold h p s)) = ha_pending s" "ha_next_req (snd (ha_send_cold h p s)) = ha_next_req s"
  "ha_pending (snd (ha_send_fast h p s)) = ha_pending s" "ha_next_req (snd (ha_send_fast h p s)) = ha_next_req s"
  by (simp_all add: ha_send_cold_def ha_send_fast_def Let_def split: sum.splits prod.splits)

lemma ha_stash_state [simp]:
  "ha_pending (ha_stash_reply e s) = ha_pending s" "ha_next_req (ha_stash_reply e s) = ha_next_req s"
  by (simp_all add: ha_stash_reply_def split: option.splits)

text \<open>An event leaves the pending requests and the queued frames alone.\<close>

definition ha_same :: "host_agent \<Rightarrow> host_agent \<Rightarrow> bool" where
  "ha_same s s' \<longleftrightarrow> ha_pending s' = ha_pending s \<and> ha_next_req s' = ha_next_req s \<and> ha_link s' = ha_link s
     \<and> ha_alive s' = ha_alive s \<and> ha_peer_calls s' = ha_peer_calls s"

lemma ha_same_if: "ha_same s (snd a) \<Longrightarrow> ha_same s (snd b) \<Longrightarrow> ha_same s (snd (if c then a else b))"
  by simp

lemma ha_same_stash: "ha_same s (ha_stash_reply e s') = ha_same s s'"
  by (simp add: ha_same_def ha_stash_reply_def split: option.splits)

lemma ha_same_attached: "ha_same s (snd (ha_on_attached e s))"
  by (simp add: ha_same_def ha_on_attached_def Let_def split: sum.splits)

lemma ha_same_config: "ha_same s (snd (ha_on_config e s))"
  by (simp add: ha_on_config_def ha_same_stash split: sum.splits) (simp add: ha_same_def)

lemma ha_same_peers: "ha_same s (snd (ha_on_peers e s))"
  by (simp add: ha_on_peers_def ha_same_stash split: sum.splits) (simp add: ha_same_def)

lemma ha_same_peer: "ha_same s (ha_on_peer py_repr e s)"
  by (simp add: ha_on_peer_def ha_same_def Let_def)

lemma ha_same_event: "ha_same s (snd (ha_handle_event py_repr e s))"
  unfolding ha_handle_event_def Let_def
  by (intro ha_same_if ha_same_attached ha_same_config ha_same_peers;
      simp add: ha_same_peer split: sum.splits; simp add: ha_same_def ha_note_addr_def)

lemma ha_event_state [simp]:
  "ha_pending (snd (ha_handle_event py_repr e s)) = ha_pending s"
  "ha_next_req (snd (ha_handle_event py_repr e s)) = ha_next_req s"
  "ha_link (snd (ha_handle_event py_repr e s)) = ha_link s"
  using ha_same_event [of s py_repr e] by (simp_all add: ha_same_def)

lemma ha_tick_state [simp]:
  "ha_pending (snd (snd (ha_io_tick now st))) = ha_pending (snd st)"
  "ha_next_req (snd (snd (ha_io_tick now st))) = ha_next_req (snd st)"
proof -
  obtain np s where st: "st = (np, s)" by (cases st)
  obtain r s' where c: "ha_send_control [(''kind'', JStr ''ping'')] s = (r, s')" by (cases "ha_send_control [(''kind'', JStr ''ping'')] s")
  have "ha_pending s' = ha_pending s" "ha_next_req s' = ha_next_req s"
    using ha_control_state(1,2) [where m = "[(''kind'', JStr ''ping'')]" and s = s] c by simp_all
  then show "ha_pending (snd (snd (ha_io_tick now st))) = ha_pending (snd st)"
    "ha_next_req (snd (snd (ha_io_tick now st))) = ha_next_req (snd st)"
    by (auto simp: st ha_io_tick_def c Let_def split: sum.splits)
qed

lemma ha_beside_state:
  "ha_pending (ha_beside py_repr op s) = ha_pending s \<and> ha_next_req (ha_beside py_repr op s) = ha_next_req s"
proof (cases op)
  case (H_Frame now kind body)
  then show ?thesis by (simp add: ha_on_frame_def split: sum.splits)
qed (simp_all add: ha_discover_def ha_set_config_def ha_cmd_def Let_def split: prod.splits)

definition ha_waiting :: "host_agent \<Rightarrow> int \<Rightarrow> header list option" where
  "ha_waiting s = table_waiting (ha_pending s)"

definition ha_req_ok :: "host_agent \<Rightarrow> bool" where
  "ha_req_ok s \<longleftrightarrow> table_ok (ha_pending s) (ha_next_req s)"

lemma ha_issue_state:
  "ha_pending (snd (ha_request_nowait m s)) = dset (ha_next_req s) \<lparr>ps_event = None, ps_replies = []\<rparr> (ha_pending s)"
  "ha_next_req (snd (ha_request_nowait m s)) = ha_next_req s + 1"
  using ha_control_state(1,2) [where m = "with_req (ha_next_req s) m" and s = "ha_register None s"]
  by (simp_all add: ha_request_nowait_def Let_def ha_register_def case_prod_unfold)

lemma ha_poll_state:
  "fst (ha_poll_reply k s) = (case ha_waiting s k of Some (r # rs) \<Rightarrow> Some r | _ \<Rightarrow> None)"
  "ha_pending (snd (ha_poll_reply k s)) = (case ha_waiting s k of Some (r # rs) \<Rightarrow> dpop k (ha_pending s) | _ \<Rightarrow> ha_pending s)"
  "ha_next_req (snd (ha_poll_reply k s)) = ha_next_req s"
  by (simp_all add: ha_poll_reply_def table_poll_spec ha_waiting_def split: option.splits list.splits)

lemma ha_deliver_state:
  assumes "ha_req_ok s" "ha_handle_reply t r s = Inr s'"
  shows "ha_req_ok s' \<and> ha_next_req s' = ha_next_req s \<and>
    ha_waiting s' = (\<lambda>k. if answers r k then map_option (\<lambda>rs. rs @ [r]) (ha_waiting s k) else ha_waiting s k)"
proof (cases "is_pong r")
  case True
  then have "ha_pending s' = ha_pending s" "ha_next_req s' = ha_next_req s"
    using assms(2) by (auto simp: ha_handle_reply_def Let_def split: option.splits json.splits)
  moreover have "\<not> answers r k" for k using True by (simp add: answers_def)
  ultimately show ?thesis using assms(1) by (simp add: ha_req_ok_def ha_waiting_def)
next
  case False
  then obtain t' where t': "table_deliver r (ha_pending s) = Inr t'" "s' = s\<lparr>ha_pending := t'\<rparr>"
    using assms(2) by (auto simp: ha_handle_reply_def split: sum.splits)
  then show ?thesis
    using table_deliver_spec [OF _ False t'(1), of "ha_next_req s"] assms(1)
    by (simp add: ha_req_ok_def ha_waiting_def cong: if_cong)
qed

interpretation ha_req: request_channel ha_request_nowait ha_poll_reply ha_cancel_request ha_handle_reply
    "ha_beside py_repr" ha_waiting ha_next_req ha_req_ok
  for py_repr
proof unfold_locales
  show "ha_req_ok s \<Longrightarrow> ha_waiting s k \<noteq> None \<Longrightarrow> k < ha_next_req s" for s k
    by (simp add: ha_req_ok_def ha_waiting_def table_ok_waiting)
next
  show "ha_req_ok s \<Longrightarrow> ha_req_ok (snd (ha_request_nowait m s)) \<and>
      ha_waiting (snd (ha_request_nowait m s)) = (ha_waiting s)(ha_next_req s \<mapsto> []) \<and>
      ha_next_req (snd (ha_request_nowait m s)) = ha_next_req s + 1" for s m
    by (simp add: ha_req_ok_def ha_waiting_def ha_issue_state table_ok_new)
next
  show "ha_req_ok s \<Longrightarrow> ha_req_ok (snd (ha_poll_reply k s)) \<and> ha_next_req (snd (ha_poll_reply k s)) = ha_next_req s \<and>
      fst (ha_poll_reply k s) = (case ha_waiting s k of Some (r # rs) \<Rightarrow> Some r | _ \<Rightarrow> None) \<and>
      ha_waiting (snd (ha_poll_reply k s)) =
        (case ha_waiting s k of Some (r # rs) \<Rightarrow> (ha_waiting s)(k := None) | _ \<Rightarrow> ha_waiting s)" for s k
    unfolding ha_poll_state ha_req_ok_def
    by (auto simp: ha_waiting_def ha_poll_state table_ok_dpop split: option.splits list.splits)
next
  show "ha_req_ok s \<Longrightarrow> ha_req_ok (ha_cancel_request k s) \<and> ha_next_req (ha_cancel_request k s) = ha_next_req s \<and>
      ha_waiting (ha_cancel_request k s) = (ha_waiting s)(k := None)" for s k
    by (simp add: ha_req_ok_def ha_waiting_def ha_cancel_request_def table_ok_dpop)
next
  show "ha_req_ok s \<Longrightarrow> ha_handle_reply t r s = Inr s' \<Longrightarrow> ha_req_ok s' \<and> ha_next_req s' = ha_next_req s \<and>
      ha_waiting s' = (\<lambda>k. if answers r k then map_option (\<lambda>rs. rs @ [r]) (ha_waiting s k) else ha_waiting s k)"
    for s t r s' using ha_deliver_state .
next
  show "ha_req_ok s \<Longrightarrow> ha_handle_reply t r s = Inl e \<Longrightarrow> \<not> answers r k" for s t r e k
    by (auto simp: ha_handle_reply_def Let_def answers_def dest: table_deliver_error split: if_splits sum.splits)
next
  show "ha_req_ok s \<Longrightarrow> ha_req_ok (ha_beside py_repr x s) \<and> ha_next_req (ha_beside py_repr x s) = ha_next_req s \<and>
      ha_waiting (ha_beside py_repr x s) = ha_waiting s" for s py_repr x
    using ha_beside_state [of py_repr x s] by (simp add: ha_req_ok_def ha_waiting_def)
qed

text \<open>C25: On the agent transport a poll of a request id gives the first reply the peer sent for it
  after it was issued, the first time it is asked for, and never again; a cancelled request and an
  id not yet issued give nothing. Lane sends, events, acks, pings and writes in between change
  nothing of it.\<close>

theorem agent_reply_exactly_once:
  assumes "1 \<le> k"
  shows "fst (ha_poll_reply k (snd (req_run ha_request_nowait ha_poll_reply ha_cancel_request ha_handle_reply
          (ha_beside py_repr) ops (ha_init cfg)))) =
    (case since_issue (nat (k - 1)) ops of None \<Rightarrow> None
     | Some b \<Rightarrow> if Cancel k \<in> set b \<or> taken k ops (fst (req_run ha_request_nowait ha_poll_reply ha_cancel_request
                    ha_handle_reply (ha_beside py_repr) ops (ha_init cfg))) then None
                else find (\<lambda>r. answers r k) (delivered b))"
proof -
  have "ha_req_ok (ha_init cfg)" "ha_next_req (ha_init cfg) = 1"
    by (simp_all add: ha_req_ok_def ha_init_def table_ok_def)
  then show ?thesis using ha_req.poll_exact [of "ha_init cfg" k py_repr ops] assms by simp
qed

theorem agent_reply_exactly_once_witness:
  "fst (ha_poll_reply 1 (snd (req_run ha_request_nowait ha_poll_reply ha_cancel_request ha_handle_reply
      (ha_beside (\<lambda>_. [])) [Issue [], Deliver 0 [(''req'', JInt 1)], Other (H_Cold [] [])]
      (ha_init (transport_config_of [] 1 2 3))))) = Some [(''req'', JInt 1)]"
proof -
  let ?ops = "[Issue [], Deliver 0 [(''req'', JInt 1)], Other (H_Cold [] [])] :: ha_op req_op list"
  have "answers [(''req'', JInt 1)] 1" by (simp add: answers_def is_pong_def req_of_def hashable_def json_eq_int_def)
  moreover have "\<not> taken 1 ?ops outs" for outs by (cases outs) (auto simp: taken_def dest: set_zip_leftD)
  ultimately show ?thesis
    by (subst agent_reply_exactly_once) simp_all
qed

subsection \<open>The two lanes\<close>

definition ha_log :: "host_agent \<Rightarrow> (int \<times> byte list) list" where
  "ha_log s = read_loop (lk_wire (ha_link s)) @ map frame_msg (lk_frames (ha_link s))"

definition kind_bodies :: "int \<Rightarrow> (int \<times> byte list) list \<Rightarrow> byte list list" where
  "kind_bodies kind msgs = map snd (filter (\<lambda>m. fst m = kind) msgs)"

definition ha_cold_lane :: "host_agent \<Rightarrow> byte list list" where
  "ha_cold_lane s = kind_bodies T_COLD (ha_log s)"

definition ha_fast_lane :: "host_agent \<Rightarrow> byte list list" where
  "ha_fast_lane s = kind_bodies T_FAST (ha_log s)"

definition cold_body :: "header \<Rightarrow> byte list \<Rightarrow> byte list" where
  "cold_body h p = (case cold_parts h p of Inl e \<Rightarrow> [] | Inr parts \<Rightarrow> concat parts)"

definition cold_unbody :: "byte list \<Rightarrow> (header \<times> byte list) option" where
  "cold_unbody b = unpack_cold (drop 1 b)"

lemma kind_bodies_append [simp]: "kind_bodies k (a @ b) = kind_bodies k a @ kind_bodies k b" "kind_bodies k [] = []"
  by (simp_all add: kind_bodies_def)

lemma lk_send_log:
  assumes "lk_send kind parts l = (Inr (), l')"
  shows "lk_wire l' = lk_wire l \<and> map frame_msg (lk_frames l') = map frame_msg (lk_frames l) @ [(kind, concat parts)]
    \<and> frame kind parts \<noteq> Inl StructError"
  using assms by (auto simp: lk_send_def frame_msg_frame split: sum.splits)

lemma lk_send_same: "lk_send kind parts l = (Inl e, l') \<Longrightarrow> l' = l"
  by (auto simp: lk_send_def split: sum.splits)

lemma ha_send_cold_taken:
  assumes "ha_send_cold h p s = (Inr True, s')"
  shows "\<exists>parts. cold_parts h p = Inr parts \<and> ha_log s' = ha_log s @ [(T_COLD, concat parts)]
    \<and> ha_has_fast s' = ha_has_fast s \<and> ha_link s' = snd (lk_send T_COLD parts (ha_link s))
    \<and> frame T_COLD parts \<noteq> Inl StructError"
proof -
  obtain parts where p: "cold_parts h p = Inr parts" using assms by (auto simp: ha_send_cold_def split: sum.splits)
  obtain r l where l: "lk_send T_COLD parts (ha_link s) = (r, l)" by (cases "lk_send T_COLD parts (ha_link s)")
  have "r = Inr ()" "ha_link s' = l" "ha_has_fast s' = ha_has_fast s"
    using assms by (auto simp: ha_send_cold_def p l Let_def split: if_splits sum.splits)
  then show ?thesis using lk_send_log [of T_COLD parts "ha_link s" l] l p by (auto simp: ha_log_def)
qed

lemma ha_send_cold_refused:
  assumes "ha_send_cold h p s = (r, s')" "r \<noteq> Inr True"
  shows "ha_link s' = ha_link s \<and> ha_has_fast s' = ha_has_fast s"
proof (cases "cold_parts h p")
  case (Inl e)
  then show ?thesis using assms by (auto simp: ha_send_cold_def)
next
  case (Inr parts)
  obtain q l where l: "lk_send T_COLD parts (ha_link s) = (q, l)" by (cases "lk_send T_COLD parts (ha_link s)")
  then show ?thesis using assms Inr lk_send_same [of T_COLD parts "ha_link s" _ l]
    by (auto simp: ha_send_cold_def Let_def split: if_splits sum.splits)
qed

lemma ha_send_fast_taken:
  assumes "ha_send_fast h p s = (Inr True, s')" "ha_has_fast s"
  shows "\<exists>parts. cold_parts h p = Inr parts \<and> ha_log s' = ha_log s @ [(T_FAST, concat parts)]
    \<and> ha_has_fast s' = ha_has_fast s \<and> ha_link s' = snd (lk_send T_FAST parts (ha_link s))
    \<and> frame T_FAST parts \<noteq> Inl StructError"
proof -
  obtain parts where p: "cold_parts h p = Inr parts" using assms by (auto simp: ha_send_fast_def split: sum.splits)
  obtain r l where l: "lk_send T_FAST parts (ha_link s) = (r, l)" by (cases "lk_send T_FAST parts (ha_link s)")
  have "r = Inr ()" "ha_link s' = l" "ha_has_fast s' = ha_has_fast s"
    using assms by (auto simp: ha_send_fast_def p l Let_def split: if_splits sum.splits)
  then show ?thesis using lk_send_log [of T_FAST parts "ha_link s" l] l p by (auto simp: ha_log_def)
qed

lemma ha_send_fast_refused:
  assumes "ha_send_fast h p s = (r, s')" "r \<noteq> Inr True" "ha_has_fast s"
  shows "ha_link s' = ha_link s \<and> ha_has_fast s' = ha_has_fast s"
proof (cases "cold_parts h p")
  case (Inl e)
  then show ?thesis using assms by (auto simp: ha_send_fast_def)
next
  case (Inr parts)
  obtain q l where l: "lk_send T_FAST parts (ha_link s) = (q, l)" by (cases "lk_send T_FAST parts (ha_link s)")
  then show ?thesis using assms Inr lk_send_same [of T_FAST parts "ha_link s" _ l]
    by (auto simp: ha_send_fast_def Let_def split: if_splits sum.splits)
qed

lemma fast_shared: "\<not> ha_has_fast s \<Longrightarrow> ha_send_fast h p s = ha_send_cold h p s"
  by (simp add: ha_send_fast_def)

lemmas lane_defs = ha_cold_lane_def ha_fast_lane_def cold_body_def kind_bodies_def

lemma ha_lane_unbody:
  assumes "ha_send_cold h p s = (Inr True, s') \<or> ha_send_fast h p s = (Inr True, s')" "json_ok (JObj h)"
  shows "cold_unbody (cold_body h p) = Some (h, p)"
proof -
  obtain parts where "cold_parts h p = Inr parts"
    using assms(1) by (auto simp: ha_send_cold_def ha_send_fast_def split: if_splits sum.splits)
  then show ?thesis using unpack_cold_parts [OF _ assms(2)] by (simp add: cold_unbody_def cold_body_def)
qed

interpretation ha_lane: lane_sender ha_send_cold ha_send_fast ha_cold_lane ha_fast_lane ha_has_fast cold_body cold_unbody
proof unfold_locales
  show "ha_send_cold h p s = (Inr True, s') \<Longrightarrow> ha_cold_lane s' = ha_cold_lane s @ [cold_body h p]
      \<and> ha_fast_lane s' = ha_fast_lane s \<and> ha_has_fast s' = ha_has_fast s" for h p s s'
    using ha_send_cold_taken [of h p s s'] by (auto simp: lane_defs frame_kinds)
next
  show "ha_send_cold h p s = (r, s') \<Longrightarrow> r \<noteq> Inr True \<Longrightarrow> ha_cold_lane s' = ha_cold_lane s
      \<and> ha_fast_lane s' = ha_fast_lane s \<and> ha_has_fast s' = ha_has_fast s" for h p s r s'
    using ha_send_cold_refused [of h p s r s'] by (simp add: lane_defs ha_log_def)
next
  show "ha_has_fast s \<Longrightarrow> ha_send_fast h p s = (Inr True, s') \<Longrightarrow> ha_fast_lane s' = ha_fast_lane s @ [cold_body h p]
      \<and> ha_cold_lane s' = ha_cold_lane s \<and> ha_has_fast s' = ha_has_fast s" for s h p s'
    using ha_send_fast_taken [of h p s s'] by (auto simp: lane_defs frame_kinds)
next
  show "ha_has_fast s \<Longrightarrow> ha_send_fast h p s = (r, s') \<Longrightarrow> r \<noteq> Inr True \<Longrightarrow> ha_cold_lane s' = ha_cold_lane s
      \<and> ha_fast_lane s' = ha_fast_lane s \<and> ha_has_fast s' = ha_has_fast s" for s h p r s'
    using ha_send_fast_refused [of h p s r s'] by (simp add: lane_defs ha_log_def)
next
  show "\<not> ha_has_fast s \<Longrightarrow> ha_send_fast h p s = ha_send_cold h p s" for s h p
    using fast_shared .
next
  show "ha_send_cold h p s = (Inr True, s') \<or> ha_send_fast h p s = (Inr True, s') \<Longrightarrow> json_ok (JObj h) \<Longrightarrow>
      cold_unbody (cold_body h p) = Some (h, p)" for h p s s'
    using ha_lane_unbody .
qed

subsection \<open>From the host's send to the replica's queue\<close>

fun ha_took :: "ha_op \<Rightarrow> host_agent \<Rightarrow> (int \<times> header \<times> byte list) list" where
  "ha_took (H_Cold h p) s = (if fst (ha_send_cold h p s) = Inr True then [(T_COLD, h, p)] else [])"
| "ha_took (H_Fast h p) s =
     (if fst (ha_send_fast h p s) = Inr True then [(if ha_has_fast s then T_FAST else T_COLD, h, p)] else [])"
| "ha_took op s = []"

fun ha_taken :: "(json \<Rightarrow> string) \<Rightarrow> ha_op list \<Rightarrow> host_agent \<Rightarrow> (int \<times> header \<times> byte list) list" where
  "ha_taken py_repr [] s = []"
| "ha_taken py_repr (op # ops) s = ha_took op s @ ha_taken py_repr ops (ha_step py_repr op s)"

definition lane_items :: "int \<Rightarrow> (int \<times> header \<times> byte list) list \<Rightarrow> (header \<times> byte list) list" where
  "lane_items kind xs = map snd (filter (\<lambda>x. fst x = kind) xs)"

definition link_ops_ok :: "link_op list \<Rightarrow> (int \<times> header \<times> byte list) list \<Rightarrow> bool" where
  "link_ops_ok lops took \<longleftrightarrow> (\<forall>kind parts. Send kind parts \<in> set lops \<longrightarrow> kind \<noteq> T_HOT)
     \<and> (\<forall>kind \<in> {T_COLD, T_FAST}.
          kind_bodies kind (sent_msgs lops) = map (\<lambda>(h, p). cold_body h p) (lane_items kind took))"

lemma link_ops_ok_append: "link_ops_ok a x \<Longrightarrow> link_ops_ok b y \<Longrightarrow> link_ops_ok (a @ b) (x @ y)"
  by (auto simp: link_ops_ok_def lane_items_def)

lemma link_run_append: "link_run (a @ b) l = link_run b (link_run a l)"
  by (simp add: link_run_def)

lemma link_ops_ok_Nil [simp]: "link_ops_ok [] []"
  by (simp add: link_ops_ok_def lane_items_def)

lemma link_ops_ok_other [simp]:
  "kind \<notin> {T_HOT, T_COLD, T_FAST} \<Longrightarrow> link_ops_ok [Send kind parts] []"
  "link_ops_ok [Send_Hot k v] []" "link_ops_ok [Write failure] []"
  by (auto simp: link_ops_ok_def lane_items_def kind_bodies_def sent_msg_def split: sum.splits)

lemma link_run_1 [simp]: "link_run [op] l = link_step op l" "link_run [] l = l"
  by (simp_all add: link_run_def)

lemma link_ops_ok_lane:
  assumes "cold_parts h p = Inr parts" "frame kind parts \<noteq> Inl StructError" "kind \<in> {T_COLD, T_FAST}"
  shows "link_ops_ok [Send kind parts] [(kind, h, p)]"
proof -
  obtain f where "frame kind parts = Inr f" using assms(2) frame_error by (cases "frame kind parts") auto
  then have "sent_msg kind parts = [(kind, cold_body h p)]"
    using assms(1) by (simp add: sent_msg_def cold_body_def)
  then show ?thesis using assms(3) by (auto simp: link_ops_ok_def lane_items_def kind_bodies_def frame_kinds)
qed

lemma ha_cmd_link: "ha_link (snd (ha_cmd m s)) = link_run [Send T_CMD [utf8_encode (dumps (JObj m))]] (ha_link s)"
  by (simp add: ha_cmd_def lk_cmd_def Let_def case_prod_unfold del: dumps.simps)

lemma ha_control_link: "ha_link (snd (ha_send_control m s)) = link_run [Send T_CONTROL [PEER @ encode_control m]] (ha_link s)"
  by (simp add: ha_send_control_def Let_def case_prod_unfold)

lemma ha_frame_link: "ha_link (snd (ha_on_frame py_repr now kind body s)) = ha_link s"
  by (auto simp: ha_on_frame_def ha_handle_reply_def Let_def split: sum.splits option.splits json.splits)

lemma ha_step_link:
  "\<exists>lops. ha_link (ha_step py_repr op s) = link_run lops (ha_link s) \<and> link_ops_ok lops (ha_took op s)"
proof (cases op)
  case (H_Cold h p)
  obtain r s' where e: "ha_send_cold h p s = (r, s')" by (cases "ha_send_cold h p s")
  show ?thesis
  proof (cases "r = Inr True")
    case True
    then obtain parts where "cold_parts h p = Inr parts" "ha_link s' = snd (lk_send T_COLD parts (ha_link s))"
      "frame T_COLD parts \<noteq> Inl StructError" using ha_send_cold_taken e by blast
    then show ?thesis using e True H_Cold link_ops_ok_lane [of h p parts T_COLD]
      by (intro exI [of _ "[Send T_COLD parts]"]) simp
  next
    case False
    then show ?thesis using e H_Cold ha_send_cold_refused [OF e] by (intro exI [of _ "[]"]) simp
  qed
next
  case (H_Fast h p)
  obtain r s' where e: "ha_send_fast h p s = (r, s')" by (cases "ha_send_fast h p s")
  show ?thesis
  proof (cases "r = Inr True")
    case True
    obtain kind parts where "kind = (if ha_has_fast s then T_FAST else T_COLD)" "cold_parts h p = Inr parts"
      "ha_link s' = snd (lk_send kind parts (ha_link s))" "frame kind parts \<noteq> Inl StructError"
    proof (cases "ha_has_fast s")
      case has: True
      then show ?thesis using ha_send_fast_taken [of h p s s'] e True that [of T_FAST] by auto
    next
      case False
      then show ?thesis using ha_send_cold_taken [of h p s s'] fast_shared [of s h p] e True that [of T_COLD] by auto
    qed
    then show ?thesis using e True H_Fast link_ops_ok_lane [of h p parts kind]
      by (intro exI [of _ "[Send kind parts]"]) simp
  next
    case False
    have "ha_link s' = ha_link s"
      using ha_send_fast_refused [OF e False] fast_shared [of s h p] ha_send_cold_refused [of h p s r s'] e False
      by (cases "ha_has_fast s") auto
    then show ?thesis using e False H_Fast by (intro exI [of _ "[]"]) simp
  qed
next
  case (H_Hot k v)
  then show ?thesis
    by (intro exI [of _ "if ha_link_up s then [Send_Hot k v] else []"])
       (simp add: ha_send_hot_keyed_def Let_def case_prod_unfold)
next
  case (H_Request msg)
  then show ?thesis
    by (intro exI [of _ "[Send T_CONTROL [PEER @ encode_control (with_req (ha_next_req s) msg)]]"])
       (simp add: ha_request_nowait_def Let_def case_prod_unfold ha_control_link ha_register_def frame_kinds)
next
  case (H_Poll k)
  then show ?thesis by (intro exI [of _ "[]"]) (simp add: ha_poll_reply_def case_prod_unfold Let_def)
next
  case (H_Write failure)
  then show ?thesis by (intro exI [of _ "[Write failure]"]) simp
next
  case (H_Frame now kind body)
  then show ?thesis by (intro exI [of _ "[]"]) (simp add: ha_frame_link)
next
  case (H_Tick now np)
  have t: "ha_link (snd (snd (ha_io_tick now (np, s)))) =
      (if ha_link_up s \<and> now \<ge> np then ha_link (snd (ha_send_control [(''kind'', JStr ''ping'')] s)) else ha_link s)"
    by (simp add: ha_io_tick_def Let_def case_prod_unfold split: sum.splits)
  show ?thesis using H_Tick
    by (intro exI [of _ "if ha_link_up s \<and> now \<ge> np then [Send T_CONTROL [PEER @ encode_control [(''kind'', JStr ''ping'')]]] else []"])
       (simp add: t ha_control_link frame_kinds)
next
  case (H_Discover addr)
  obtain m where "ha_link (snd (ha_discover addr s)) = ha_link (snd (ha_cmd m (s\<lparr>ha_next_cmd := ha_next_cmd s + 1\<rparr>)))"
    unfolding ha_discover_def Let_def case_prod_unfold by simp
  then have "ha_link (ha_step py_repr op s) = link_run [Send T_CMD [utf8_encode (dumps (JObj m))]] (ha_link s)"
    using H_Discover ha_cmd_link [of m] by (simp del: dumps.simps link_run_1)
  moreover have "link_ops_ok [Send T_CMD [utf8_encode (dumps (JObj m))]] (ha_took op s)"
    using H_Discover by (simp add: frame_kinds)
  ultimately show ?thesis by blast
next
  case (H_Set_Config settings)
  obtain m where "ha_link (snd (ha_set_config settings s)) = ha_link (snd (ha_cmd m (s\<lparr>ha_next_cmd := ha_next_cmd s + 1\<rparr>)))"
    unfolding ha_set_config_def Let_def case_prod_unfold by simp
  then have "ha_link (ha_step py_repr op s) = link_run [Send T_CMD [utf8_encode (dumps (JObj m))]] (ha_link s)"
    using H_Set_Config ha_cmd_link [of m] by (simp del: dumps.simps link_run_1)
  moreover have "link_ops_ok [Send T_CMD [utf8_encode (dumps (JObj m))]] (ha_took op s)"
    using H_Set_Config by (simp add: frame_kinds)
  ultimately show ?thesis by blast
qed

lemma ha_run_link:
  "\<exists>lops. ha_link (ha_run py_repr ops s) = link_run lops (ha_link s) \<and> link_ops_ok lops (ha_taken py_repr ops s)"
proof (induction ops arbitrary: s)
  case Nil
  show ?case by (intro exI [of _ "[]"]) (simp add: ha_run_def)
next
  case (Cons op ops)
  obtain l1 where 1: "ha_link (ha_step py_repr op s) = link_run l1 (ha_link s)" "link_ops_ok l1 (ha_took op s)"
    using ha_step_link by blast
  obtain l2 where 2: "ha_link (ha_run py_repr ops (ha_step py_repr op s)) = link_run l2 (ha_link (ha_step py_repr op s))"
    "link_ops_ok l2 (ha_taken py_repr ops (ha_step py_repr op s))" using Cons.IH by blast
  show ?case using 1 2 by (intro exI [of _ "l1 @ l2"]) (simp add: ha_run_def link_run_append link_ops_ok_append)
qed

text \<open>The replica, fed with the frames its own agent hands over.\<close>

definition ra_feed :: "(json \<Rightarrow> string) \<Rightarrow> 'h handler \<Rightarrow> 'h provider \<Rightarrow> time \<Rightarrow> (int \<times> byte list) list
    \<Rightarrow> 'h \<times> replica_agent \<Rightarrow> 'h \<times> replica_agent" where
  "ra_feed py_repr handler provider now msgs hs =
     fold (\<lambda>(kind, body) hs. snd (ra_on_frame py_repr handler provider now kind body hs)) msgs hs"

definition ra_queues :: "replica_agent \<Rightarrow> (header \<times> byte list) list \<times> (header \<times> byte list) list" where
  "ra_queues s = (ra_cold_q s, ra_fast_q s)"

definition ra_same :: "replica_agent \<Rightarrow> replica_agent \<Rightarrow> bool" where
  "ra_same s s' \<longleftrightarrow> ra_queues s' = ra_queues s"

lemma ra_same_if: "ra_same s (snd a) \<Longrightarrow> ra_same s (snd b) \<Longrightarrow> ra_same s (snd (if c then a else b))"
  by simp

lemma ra_same_notes: "ra_same s (ra_note_from py_repr e k via s') = ra_same s s'"
  "ra_same s (ra_stash_reply e s') = ra_same s s'"
  by (simp_all add: ra_note_from_def ra_note_peer_addr_def ra_stash_reply_def ra_same_def ra_queues_def split: option.splits)

lemma ra_same_attached: "ra_same s (snd (ra_on_attached py_repr e s))"
proof -
  have "ra_same s (s'\<lparr>ra_ready := b\<rparr>) = ra_same s s'" for s' b by (simp add: ra_same_def ra_queues_def)
  then show ?thesis
    by (auto simp: ra_on_attached_def Let_def ra_same_notes split: sum.splits) (simp_all add: ra_same_def ra_queues_def)
qed

lemma ra_same_event: "ra_same s (snd (ra_handle_event py_repr e s))"
  unfolding ra_handle_event_def Let_def
  by (intro ra_same_if ra_same_attached;
      simp add: ra_same_notes split: sum.splits; simp add: ra_same_def ra_queues_def)

definition decoded :: "byte list list \<Rightarrow> (header \<times> byte list) list" where
  "decoded bodies = List.map_filter cold_unbody bodies"

lemma decoded_simps [simp]: "decoded [] = []" "decoded (a @ b) = decoded a @ decoded b"
  by (simp_all add: decoded_def map_filter_def)

lemma decoded_Cons: "decoded (b # bs) = (case cold_unbody b of None \<Rightarrow> [] | Some m \<Rightarrow> [m]) @ decoded bs"
  by (simp add: decoded_def map_filter_def split: option.splits)

lemma ra_frame_queues:
  "ra_queues (snd (snd (ra_on_frame py_repr handler provider now kind body (h, s)))) =
     (ra_cold_q s @ decoded (kind_bodies T_COLD [(kind, body)]), ra_fast_q s @ decoded (kind_bodies T_FAST [(kind, body)]))"
proof -
  have ev: "ra_queues (snd (ra_handle_event py_repr e s)) = (ra_cold_q s, ra_fast_q s)" for e
    using ra_same_event [of s py_repr e] by (simp add: ra_same_def ra_queues_def)
  have sv: "ra_queues (snd (snd (ra_serve_control handler provider now msg (h, s)))) = (ra_cold_q s, ra_fast_q s)" for msg
    by (simp add: ra_serve_control_def Let_def case_prod_unfold ra_queues_def)
  consider "kind = T_CONTROL" | "kind = T_HOT" | "kind = T_COLD" | "kind = T_FAST" | "kind = T_EVENT"
    | "kind \<notin> {T_CONTROL, T_HOT, T_COLD, T_FAST, T_EVENT}" by blast
  then show ?thesis
  proof cases
    case 1
    then show ?thesis
      by (auto simp: ra_on_frame_def sv kind_bodies_def frame_kinds split: option.splits) (simp add: ra_queues_def)
  next
    case 2
    then show ?thesis
      by (simp add: ra_on_frame_def kind_bodies_def frame_kinds ra_queues_def split: prod.splits)
  next
    case 3
    then show ?thesis
      by (auto simp: ra_on_frame_def kind_bodies_def frame_kinds ra_queues_def decoded_Cons cold_unbody_def split: option.splits)
  next
    case 4
    then show ?thesis
      by (auto simp: ra_on_frame_def kind_bodies_def frame_kinds ra_queues_def decoded_Cons cold_unbody_def split: option.splits)
  next
    case 5
    then show ?thesis
      using ev by (cases "decode_event body")
         (auto simp: ra_on_frame_def kind_bodies_def frame_kinds ra_queues_def Let_def case_prod_unfold)
  next
    case 6
    then show ?thesis by (auto simp: ra_on_frame_def kind_bodies_def ra_queues_def)
  qed
qed

lemma ra_feed_queues:
  "ra_queues (snd (ra_feed py_repr handler provider now msgs hs)) =
     (ra_cold_q (snd hs) @ decoded (kind_bodies T_COLD msgs), ra_fast_q (snd hs) @ decoded (kind_bodies T_FAST msgs))"
proof (induction msgs arbitrary: hs)
  case Nil
  then show ?case by (simp add: ra_feed_def ra_queues_def)
next
  case (Cons m msgs)
  obtain kind body where m: "m = (kind, body)" by (cases m)
  obtain h s where hs: "hs = (h, s)" by (cases hs)
  let ?hs = "snd (ra_on_frame py_repr handler provider now kind body (h, s))"
  have q: "ra_cold_q (snd ?hs) = ra_cold_q s @ decoded (kind_bodies T_COLD [m])"
    "ra_fast_q (snd ?hs) = ra_fast_q s @ decoded (kind_bodies T_FAST [m])"
    using ra_frame_queues [of py_repr handler provider now kind body h s] m by (simp_all add: ra_queues_def)
  have k: "kind_bodies k (m # msgs) = kind_bodies k [m] @ kind_bodies k msgs" for k
    using kind_bodies_append(1) [of k "[m]" msgs] by simp
  have "ra_feed py_repr handler provider now (m # msgs) hs = ra_feed py_repr handler provider now msgs ?hs"
    by (simp add: ra_feed_def m hs)
  then show ?case using Cons.IH [of ?hs] q by (simp add: k hs)
qed

lemma kind_bodies_not_hot: "kind \<noteq> T_HOT \<Longrightarrow> kind_bodies kind (not_hot msgs) = kind_bodies kind msgs"
  by (induction msgs) (auto simp: kind_bodies_def not_hot_def)

lemma decoded_cold_bodies:
  assumes "\<forall>(h, p) \<in> set xs. cold_unbody (cold_body h p) = Some (h, p)"
  shows "decoded (map (\<lambda>(h, p). cold_body h p) xs) = xs"
  using assms by (induction xs) (auto simp: decoded_Cons)

lemma ha_taken_bodies:
  assumes "\<forall>h p. H_Cold h p \<in> set ops \<or> H_Fast h p \<in> set ops \<longrightarrow> json_ok (JObj h)"
  shows "\<forall>(kind, h, p) \<in> set (ha_taken py_repr ops s). cold_unbody (cold_body h p) = Some (h, p)"
  using assms
proof (induction ops arbitrary: s)
  case (Cons op ops)
  have "\<forall>(kind, h, p) \<in> set (ha_took op s). cold_unbody (cold_body h p) = Some (h, p)"
  proof (cases op)
    case (H_Cold h p)
    obtain s' where "ha_send_cold h p s = (fst (ha_send_cold h p s), s')" by (cases "ha_send_cold h p s") simp
    then show ?thesis using H_Cold Cons.prems ha_lane_unbody [of h p s s'] by auto
  next
    case (H_Fast h p)
    obtain s' where "ha_send_fast h p s = (fst (ha_send_fast h p s), s')" by (cases "ha_send_fast h p s") simp
    then show ?thesis using H_Fast Cons.prems ha_lane_unbody [of h p s s'] by auto
  qed simp_all
  then show ?case using Cons.IH [of "ha_step py_repr op s"] Cons.prems by auto
qed simp

text \<open>What the read side of the pipe holds of one lane, against what was taken for it.\<close>

lemma ha_lane_read:
  fixes ops :: "ha_op list" and py_repr :: "json \<Rightarrow> string" and cfg :: transport_config
  assumes json: "\<forall>h p. H_Cold h p \<in> set ops \<or> H_Fast h p \<in> set ops \<longrightarrow> json_ok (JObj h)"
    and kind: "kind \<in> {T_COLD, T_FAST}"
  defines "l \<equiv> ha_link (ha_run py_repr ops (ha_init cfg))"
    and "items \<equiv> lane_items kind (ha_taken py_repr ops (ha_init cfg))"
  shows "prefix (decoded (kind_bodies kind (read_loop (lk_wire l)))) items
    \<and> (lk_down l \<or> lk_frames l \<noteq> [] \<or> decoded (kind_bodies kind (read_loop (lk_wire l))) = items)"
proof -
  obtain lops where lops: "l = link_run lops lk_init" "link_ops_ok lops (ha_taken py_repr ops (ha_init cfg))"
    using ha_run_link [of py_repr ops "ha_init cfg"] by (auto simp: l_def ha_init_def)
  obtain fs where inv: "link_inv lops l fs"
    using link_inv_run [of lops] lops unfolding link_ops_ok_def by metis
  have whole: "read_loop (concat (map concat fs)) = map frame_msg fs"
    using read_loop_frames [of fs "[]"] inv by (simp add: link_inv_def)
  have ok: "\<forall>(h, p) \<in> set items. cold_unbody (cold_body h p) = Some (h, p)"
    using ha_taken_bodies [OF json, of py_repr "ha_init cfg"] by (auto simp: items_def lane_items_def)
  have sent: "decoded (kind_bodies kind (sent_msgs lops)) = items"
    using lops(2) kind decoded_cold_bodies [OF ok] by (auto simp: link_ops_ok_def items_def)
  have nh: "kind \<noteq> T_HOT" using kind by (auto simp: frame_kinds)
  have mono: "prefix (decoded (kind_bodies kind a)) (decoded (kind_bodies kind b))" if "prefix a b" for a b
    using that by (auto simp: prefix_def)
  show ?thesis
  proof (cases "lk_down l")
    case True
    then obtain n where w: "lk_wire l = take n (concat (map concat fs))"
      and p: "prefix (not_hot (map frame_msg fs)) (sent_msgs lops)" using inv by (auto simp: link_inv_def)
    have "prefix (read_loop (lk_wire l)) (map frame_msg fs)" using read_loop_take whole w by metis
    then have "prefix (decoded (kind_bodies kind (read_loop (lk_wire l)))) (decoded (kind_bodies kind (map frame_msg fs)))"
      by (rule mono)
    moreover have "prefix (decoded (kind_bodies kind (map frame_msg fs))) items"
      using mono [OF p] by (simp add: kind_bodies_not_hot [OF nh] sent)
    ultimately show ?thesis using True by (auto intro: prefix_order.trans)
  next
    case False
    then have w: "read_loop (lk_wire l) = map frame_msg fs"
      and e: "not_hot (map frame_msg fs) @ map frame_msg (lk_frames l) = sent_msgs lops"
      using inv whole by (simp_all add: link_inv_def)
    have "items = decoded (kind_bodies kind (map frame_msg fs)) @ decoded (kind_bodies kind (map frame_msg (lk_frames l)))"
      using sent by (simp add: e [symmetric] kind_bodies_not_hot [OF nh])
    then show ?thesis by (auto simp: w)
  qed
qed


lemma decode_event_encode: "json_ok (JObj e) \<Longrightarrow> decode_event (encode_control e) = Inr e"
  by (simp add: decode_event_def encode_control_def loads_dumps json_object_def del: dumps.simps)

definition sample_ops :: "ha_op list" where
  "sample_ops = [H_Frame 0 T_EVENT (encode_control [(''event'', JStr ''peer''), (''up'', JBool True)]),
     H_Cold [] [7], H_Write None]"

lemma sample_taken:
  "ha_taken py_repr sample_ops (ha_init cfg) = [(T_COLD, [], [7])]"
  "lk_frames (ha_link (ha_run py_repr sample_ops (ha_init cfg))) = []"
  "\<not> lk_down (ha_link (ha_run py_repr sample_ops (ha_init cfg)))"
proof -
  let ?e = "[(''event'', JStr ''peer''), (''up'', JBool True)]"
  have ev: "decode_event (encode_control ?e) = Inr ?e" by (rule decode_event_encode) simp
  define s where "s = snd (ha_on_frame py_repr 0 T_EVENT (encode_control ?e) (ha_init cfg))"
  have s: "ha_link_up s" "ha_link s = lk_init" "ha_cold_outstanding s = 0"
    by (simp_all add: s_def ha_on_frame_def ev ha_handle_event_def get_or_def ha_on_peer_def truthy_def
        json_true_def frame_kinds ha_init_def Let_def)
  have head: "utf8_encode (dumps (JObj [])) = [123, 125]" by (simp add: utf8_encode_def utf8_char_def)
  obtain n where n: "pack_be32 2 = Inr n" "length n = 4"
    using unpack_pack_be32 by (cases "pack_be32 2") (auto simp: pack_be32_def)
  have parts: "cold_parts [] [7] = Inr [PEER, n, [123, 125], [7]]"
    using n unfolding cold_parts_def head by simp
  obtain f where f: "frame T_COLD [PEER, n, [123, 125], [7]] = Inr f"
    by (cases "frame T_COLD [PEER, n, [123, 125], [7]]")
       (auto simp: frame_def pack_be32_def pack_uint_def frame_kinds PEER_def n(2) split: sum.splits if_splits)
  have c: "ha_send_cold [] [7] s = (Inr True, s\<lparr>ha_cold_outstanding := cold_cost [PEER, n, [123, 125], [7]] s,
      ha_link := lk_init\<lparr>lk_frames := [f]\<rparr>\<rparr>)"
    using s f by (simp add: ha_send_cold_def parts lk_send_def lk_init_def)
  show "ha_taken py_repr sample_ops (ha_init cfg) = [(T_COLD, [], [7])]"
    "lk_frames (ha_link (ha_run py_repr sample_ops (ha_init cfg))) = []"
    "\<not> lk_down (ha_link (ha_run py_repr sample_ops (ha_init cfg)))"
    using c by (simp_all add: sample_ops_def ha_run_def lk_write_def lk_batch_def lk_init_def Let_def
        flip: s_def del: ha_event_state)
qed


subsection \<open>Flow control and liveness\<close>

datatype credit_op = Take header "byte list" | Ack nat

definition ack_body :: "nat \<Rightarrow> byte list" where
  "ack_body n = be_bytes 4 n"

fun credit_step :: "(json \<Rightarrow> string) \<Rightarrow> credit_op \<Rightarrow> host_agent \<Rightarrow> host_agent" where
  "credit_step py_repr (Take h p) s = snd (ha_send_cold h p s)"
| "credit_step py_repr (Ack n) s = snd (ha_on_frame py_repr 0 T_COLD_ACK (ack_body n) s)"

text \<open>What the agent took, and what it acknowledged, in the unit of the window.\<close>

fun credit_cost :: "credit_op \<Rightarrow> host_agent \<Rightarrow> int" where
  "credit_cost (Take h p) s =
     (case ha_send_cold h p s of (Inr True, s') \<Rightarrow> (if ha_credits_bytes s then int (length (cold_body h p)) else 1) | _ \<Rightarrow> 0)"
| "credit_cost (Ack n) s = - int n"

fun credit_run :: "(json \<Rightarrow> string) \<Rightarrow> credit_op list \<Rightarrow> host_agent \<Rightarrow> host_agent" where
  "credit_run py_repr [] s = s"
| "credit_run py_repr (op # ops) s = credit_run py_repr ops (credit_step py_repr op s)"

fun ledger :: "(json \<Rightarrow> string) \<Rightarrow> credit_op list \<Rightarrow> host_agent \<Rightarrow> int" where
  "ledger py_repr [] s = 0"
| "ledger py_repr (op # ops) s = credit_cost op s + ledger py_repr ops (credit_step py_repr op s)"

text \<open>The agent acknowledges no more than it took.\<close>

fun acks_honest :: "(json \<Rightarrow> string) \<Rightarrow> credit_op list \<Rightarrow> int \<Rightarrow> host_agent \<Rightarrow> bool" where
  "acks_honest py_repr [] b s \<longleftrightarrow> True"
| "acks_honest py_repr (op # ops) b s \<longleftrightarrow>
     0 \<le> b + credit_cost op s \<and> acks_honest py_repr ops (b + credit_cost op s) (credit_step py_repr op s)"

text \<open>A frame fits its length field.\<close>

definition fits_frame :: "header \<Rightarrow> byte list \<Rightarrow> bool" where
  "fits_frame h p \<longleftrightarrow> (\<exists>parts. cold_parts h p = Inr parts \<and> frame T_COLD parts \<noteq> Inl StructError)"

lemma parts_size_concat: "parts_size parts = int (length (concat parts))"
  by (simp add: parts_size_def length_concat)

lemma take_credit:
  assumes f: "fits_frame h p"
  shows "let s' = snd (ha_send_cold h p s); c = credit_cost (Take h p) s
    in ha_cold_outstanding s' = ha_cold_outstanding s + c \<and> 0 \<le> c \<and> ha_credits_bytes s' = ha_credits_bytes s
       \<and> ha_link_up s' = ha_link_up s
       \<and> (c = 0 \<or> ha_cold_outstanding s = 0 \<or> ha_cold_outstanding s' \<le> cold_window s)
       \<and> (fst (ha_send_cold h p s) = Inr True \<longleftrightarrow> ha_link_up s
           \<and> (ha_cold_outstanding s = 0 \<or> ha_cold_outstanding s + (if ha_credits_bytes s then int (length (cold_body h p)) else 1)
                \<le> cold_window s))"
proof -
  obtain parts where parts: "cold_parts h p = Inr parts" "frame T_COLD parts \<noteq> Inl StructError"
    using f by (auto simp: fits_frame_def)
  obtain fr where fr: "frame T_COLD parts = Inr fr" using parts(2) frame_error by (cases "frame T_COLD parts") auto
  have c: "cold_cost parts s = (if ha_credits_bytes s then int (length (cold_body h p)) else 1)"
    by (simp add: cold_cost_def parts_size_concat cold_body_def parts)
  show ?thesis
    by (auto simp: ha_send_cold_def parts lk_send_def fr c [symmetric] Let_def credit_cost.simps split: if_splits)
       (simp_all add: cold_cost_def parts_size_def)
qed

lemma ack_credit:
  assumes "n < 2 ^ 32"
  shows "snd (ha_on_frame py_repr 0 T_COLD_ACK (ack_body n) s) = s\<lparr>ha_cold_outstanding := max 0 (ha_cold_outstanding s - int n)\<rparr>"
  using assms by (simp add: ha_on_frame_def frame_kinds ack_count_def ack_body_def be_val_be_bytes)

definition credit_ops_ok :: "credit_op list \<Rightarrow> bool" where
  "credit_ops_ok ops \<longleftrightarrow> (\<forall>h p. Take h p \<in> set ops \<longrightarrow> fits_frame h p) \<and> (\<forall>n. Ack n \<in> set ops \<longrightarrow> n < 2 ^ 32)"

definition largest_cost :: "credit_op list \<Rightarrow> int" where
  "largest_cost ops = fold (\<lambda>op m. case op of Take h p \<Rightarrow> max m (int (length (cold_body h p))) | Ack n \<Rightarrow> m) ops 1"

lemma largest_cost_ge: "m \<le> fold (\<lambda>op m. case op of Take h p \<Rightarrow> max m (int (length (cold_body h p))) | Ack n \<Rightarrow> m) ops m"
proof (induction ops arbitrary: m)
  case (Cons op ops)
  have "m \<le> (case op of Take h p \<Rightarrow> max m (int (length (cold_body h p))) | Ack n \<Rightarrow> m)" by (cases op) auto
  then show ?case using Cons.IH order_trans by (fastforce simp: fold_Cons)
qed simp

lemma largest_cost_mem:
  assumes "Take h p \<in> set ops"
  shows "int (length (cold_body h p)) \<le> largest_cost ops"
proof -
  have "int (length (cold_body h p)) \<le>
      fold (\<lambda>op m. case op of Take h p \<Rightarrow> max m (int (length (cold_body h p))) | Ack n \<Rightarrow> m) ops m" for m
    using assms
  proof (induction ops arbitrary: m)
    case (Cons op ops)
    show ?case
    proof (cases "op = Take h p")
      case True
      then show ?thesis using largest_cost_ge [of "max m (int (length (cold_body h p)))" ops] by simp
    qed (use Cons in auto)
  qed simp
  then show ?thesis by (simp add: largest_cost_def)
qed

lemma largest_cost_one: "1 \<le> largest_cost ops"
  using largest_cost_ge [of 1 ops] by (simp add: largest_cost_def)

lemma credit_run_spec:
  assumes "credit_ops_ok ops" "\<forall>h p. Take h p \<in> set ops \<longrightarrow> int (length (cold_body h p)) \<le> m" "1 \<le> m"
    and "0 \<le> ha_cold_outstanding s" "ha_cold_outstanding s \<le> max (cold_window s) m"
  shows "0 \<le> ha_cold_outstanding (credit_run py_repr ops s)
    \<and> ha_cold_outstanding (credit_run py_repr ops s) \<le> max (cold_window s) m
    \<and> ha_link_up (credit_run py_repr ops s) = ha_link_up s
    \<and> ha_credits_bytes (credit_run py_repr ops s) = ha_credits_bytes s
    \<and> (acks_honest py_repr ops (ha_cold_outstanding s) s \<longrightarrow>
         ha_cold_outstanding (credit_run py_repr ops s) = ha_cold_outstanding s + ledger py_repr ops s)"
  using assms
proof (induction ops arbitrary: s)
  case (Cons op ops)
  let ?s = "credit_step py_repr op s" and ?c = "credit_cost op s"
  have step: "0 \<le> ha_cold_outstanding ?s \<and> ha_cold_outstanding ?s \<le> max (cold_window s) m
      \<and> ha_credits_bytes ?s = ha_credits_bytes s \<and> ha_link_up ?s = ha_link_up s
      \<and> (0 \<le> ha_cold_outstanding s + ?c \<longrightarrow> ha_cold_outstanding ?s = ha_cold_outstanding s + ?c)"
  proof (cases op)
    case (Take h p)
    have f: "fits_frame h p" and l: "int (length (cold_body h p)) \<le> m"
      using Cons.prems(1,2) Take by (auto simp: credit_ops_ok_def)
    have "?c \<le> m" using l Cons.prems(3) Take by (auto split: prod.splits sum.splits bool.splits)
    then show ?thesis using take_credit [OF f, of s] Cons.prems(4,5) Take
      by (auto simp: Let_def simp del: credit_cost.simps)
  next
    case (Ack n)
    then have "n < 2 ^ 32" using Cons.prems(1) by (auto simp: credit_ops_ok_def)
    then show ?thesis using ack_credit [of n py_repr s] Cons.prems(4,5) Ack by auto
  qed
  have w: "cold_window ?s = cold_window s" using step by (simp add: cold_window_def)
  have "credit_ops_ok ops" using Cons.prems(1) by (simp add: credit_ops_ok_def)
  then show ?case using Cons.IH [of ?s] Cons.prems(2,3) step w by auto
qed simp

text \<open>C32: The cold credit window: what is in flight never passes the window (or one frame larger than
  it, which still goes when nothing is in flight); against an agent that acknowledges what it took, it is
  exactly what was taken and not yet acknowledged; and with nothing in flight on a link that is
  up the next send is taken.\<close>

theorem cold_credits_exact:
  assumes "credit_ops_ok ops" "ha_cold_outstanding s = 0"
  shows "0 \<le> ha_cold_outstanding (credit_run py_repr ops s)
    \<and> ha_cold_outstanding (credit_run py_repr ops s) \<le> max (cold_window s) (largest_cost ops)
    \<and> (acks_honest py_repr ops 0 s \<longrightarrow> ha_cold_outstanding (credit_run py_repr ops s) = ledger py_repr ops s)
    \<and> (ha_link_up s \<and> ha_cold_outstanding (credit_run py_repr ops s) = 0 \<and> fits_frame h p \<longrightarrow>
         fst (ha_send_cold h p (credit_run py_repr ops s)) = Inr True)"
proof -
  have w: "0 \<le> cold_window s" by (simp add: cold_window_def COLD_WINDOW_def COLD_WINDOW_BYTES_def)
  have "\<forall>h p. Take h p \<in> set ops \<longrightarrow> int (length (cold_body h p)) \<le> largest_cost ops"
    using largest_cost_mem by blast
  note run = credit_run_spec [OF assms(1) this largest_cost_one, of s py_repr]
  show ?thesis
    using run assms(2) w largest_cost_one [of ops] take_credit [of h p "credit_run py_repr ops s"]
    by (auto simp: Let_def)
qed

lemma fits_sample: "fits_frame [] [7]"
proof -
  have head: "utf8_encode (dumps (JObj [])) = [123, 125]" by (simp add: utf8_encode_def utf8_char_def)
  obtain n where n: "pack_be32 2 = Inr n" "length n = 4"
    using unpack_pack_be32 by (cases "pack_be32 2") (auto simp: pack_be32_def)
  have parts: "cold_parts [] [7] = Inr [PEER, n, [123, 125], [7]]"
    using n unfolding cold_parts_def head by simp
  have "frame T_COLD [PEER, n, [123, 125], [7]] \<noteq> Inl StructError"
    by (auto simp: frame_def pack_be32_def pack_uint_def frame_kinds PEER_def n(2) split: sum.splits if_splits)
  then show ?thesis using parts by (auto simp: fits_frame_def)
qed

theorem cold_credits_exact_witness:
  "let s = credit_run (\<lambda>_. []) [Take [] [7], Ack 1] ((ha_init (transport_config_of [] 1 2 3))\<lparr>ha_link_up := True\<rparr>)
   in ha_cold_outstanding s = 0 \<and> fst (ha_send_cold [] [7] s) = Inr True"
proof -
  define s0 where "s0 = (ha_init (transport_config_of [] 1 2 3))\<lparr>ha_link_up := True\<rparr>"
  have s0: "ha_cold_outstanding s0 = 0" "ha_link_up s0" "\<not> ha_credits_bytes s0" by (simp_all add: s0_def ha_init_def)
  have "fst (ha_send_cold [] [7] s0) = Inr True" using take_credit [OF fits_sample, of s0] s0 by (simp add: Let_def)
  then have c: "credit_cost (Take [] [7]) s0 = 1" using s0 by (cases "ha_send_cold [] [7] s0") simp
  have ops: "credit_ops_ok [Take [] [7], Ack 1]" by (simp add: credit_ops_ok_def fits_sample)
  have "acks_honest (\<lambda>_. []) [Take [] [7], Ack 1] 0 s0" "ledger (\<lambda>_. []) [Take [] [7], Ack 1] s0 = 0"
    using c by (simp_all del: credit_cost.simps(1))
  then show ?thesis
    using cold_credits_exact [OF ops s0(1), of "\<lambda>_. []" "[]" "[7]"] s0 fits_sample
    unfolding s0_def [symmetric] Let_def by simp
qed

lemma ha_quiet:
  "ha_alive (snd (ha_send_control m s)) = ha_alive s \<and> ha_peer_calls (snd (ha_send_control m s)) = ha_peer_calls s"
  "ha_alive (snd (ha_cmd m s)) = ha_alive s \<and> ha_peer_calls (snd (ha_cmd m s)) = ha_peer_calls s"
  by (simp_all add: ha_send_control_def ha_cmd_def Let_def case_prod_unfold)

lemma ha_quiet_send:
  "ha_alive (snd (ha_send_cold h p s)) = ha_alive s \<and> ha_peer_calls (snd (ha_send_cold h p s)) = ha_peer_calls s"
  "ha_alive (snd (ha_send_fast h p s)) = ha_alive s \<and> ha_peer_calls (snd (ha_send_fast h p s)) = ha_peer_calls s"
  "ha_alive (snd (ha_send_hot_keyed k v s)) = ha_alive s \<and> ha_peer_calls (snd (ha_send_hot_keyed k v s)) = ha_peer_calls s"
  by (simp_all add: ha_send_cold_def ha_send_fast_def ha_send_hot_keyed_def Let_def case_prod_unfold split: sum.splits)

lemma ha_quiet_frame:
  "ha_alive (snd (ha_on_frame py_repr now kind body s)) = ha_alive s
   \<and> ha_peer_calls (snd (ha_on_frame py_repr now kind body s)) = ha_peer_calls s"
  using ha_same_event [of s py_repr]
  by (auto simp: ha_on_frame_def ha_same_def ha_handle_reply_def Let_def split: sum.splits option.splits json.splits)

lemma ha_quiet_step:
  "(\<forall>now np. op \<noteq> H_Tick now np) \<Longrightarrow> ha_alive (ha_step py_repr op s) = ha_alive s
     \<and> ha_peer_calls (ha_step py_repr op s) = ha_peer_calls s"
  by (cases op)
     (simp_all add: ha_quiet ha_quiet_send ha_quiet_frame ha_request_nowait_def ha_register_def ha_poll_reply_def
       ha_discover_def ha_set_config_def Let_def case_prod_unfold)

definition peer_state_now :: "time \<Rightarrow> host_agent \<Rightarrow> bool" where
  "peer_state_now now s \<longleftrightarrow> ha_link_up s \<and> 0 < ha_last_pong s \<and> now - ha_last_pong s < heartbeat_window (ha_cfg s)"

lemma ha_tick_edges:
  "case ha_io_tick now (np, s) of (r, np', s') \<Rightarrow>
     (r = Inr () \<longrightarrow> ha_alive s' = peer_state_now now s)
     \<and> ha_peer_calls s' = ha_peer_calls s @ (if ha_alive s' \<noteq> ha_alive s then [ha_alive s'] else [])"
proof -
  obtain r s' where c: "ha_send_control [(''kind'', JStr ''ping'')] s = (r, s')"
    by (cases "ha_send_control [(''kind'', JStr ''ping'')] s")
  have k: "ha_alive s' = ha_alive s" "ha_peer_calls s' = ha_peer_calls s" "ha_link_up s' = ha_link_up s"
    "ha_last_pong s' = ha_last_pong s" "ha_cfg s' = ha_cfg s"
    using c by (auto simp: ha_send_control_def Let_def split: prod.splits)
  show ?thesis
    by (cases r) (auto simp: ha_io_tick_def c k peer_state_now_def Let_def)
qed

text \<open>The host reports the peer as alive exactly when the link is up and a pong came within the
  heartbeat window, and its callback fires once per change: alive, lost, alive, and so on, never
  twice the same.\<close>

theorem peer_state_edges:
  "(\<exists>n. ha_peer_calls (ha_run py_repr ops (ha_init cfg)) = map even [0..<n]
        \<and> ha_alive (ha_run py_repr ops (ha_init cfg)) = odd n)
   \<and> (case ha_io_tick now (np, s) of (Inl e, _) \<Rightarrow> True | (Inr _, np', s') \<Rightarrow> ha_alive s' = peer_state_now now s)"
proof
  show "\<exists>n. ha_peer_calls (ha_run py_repr ops (ha_init cfg)) = map even [0..<n]
        \<and> ha_alive (ha_run py_repr ops (ha_init cfg)) = odd n"
  proof (induction ops rule: rev_induct)
    case Nil
    show ?case by (intro exI [of _ 0]) (simp add: ha_run_def ha_init_def)
  next
    case (snoc op ops)
    then obtain n where n: "ha_peer_calls (ha_run py_repr ops (ha_init cfg)) = map even [0..<n]"
      "ha_alive (ha_run py_repr ops (ha_init cfg)) = odd n" by blast
    let ?s = "ha_run py_repr ops (ha_init cfg)"
    have step: "ha_run py_repr (ops @ [op]) (ha_init cfg) = ha_step py_repr op ?s" by (simp add: ha_run_def)
    show ?case
    proof (cases "\<exists>now np. op = H_Tick now np")
      case True
      then obtain now np where op: "op = H_Tick now np" by blast
      obtain r np' s' where t: "ha_io_tick now (np, ?s) = (r, np', s')" by (cases "ha_io_tick now (np, ?s)")
      have c: "ha_peer_calls s' = ha_peer_calls ?s @ (if ha_alive s' \<noteq> ha_alive ?s then [ha_alive s'] else [])"
        using ha_tick_edges [where now = now and np = np and s = ?s] t by simp
      show ?thesis
      proof (cases "ha_alive s' = ha_alive ?s")
        case True
        then show ?thesis using n c step op t by (intro exI [of _ n]) simp
      next
        case False
        then show ?thesis using n c step op t by (intro exI [of _ "Suc n"]) simp
      qed
    next
      case False
      then show ?thesis using n ha_quiet_step [of op py_repr ?s] step by (intro exI [of _ n]) simp
    qed
  qed
  show "case ha_io_tick now (np, s) of (Inl e, _) \<Rightarrow> True | (Inr _, np', s') \<Rightarrow> ha_alive s' = peer_state_now now s"
    using ha_tick_edges [where now = now and np = np and s = s] by (auto split: prod.splits sum.splits)
qed

end
