(* ===== verification/Transport_Zmq.thy ===== *)
theory Transport_Zmq
  imports Transport_Agent
begin

text \<open>
  The fallback transport (\<open>ring1/transport_zmq.py\<close>). A zmq socket is outside the repository: what
  it takes before it would block is an argument (\<open>takes\<close>, \<open>room\<close>), what it took is recorded in
  \<open>hz_hot_sent\<close>, \<open>hz_cold_sent\<close> and \<open>hz_ctl_sent\<close>, what arrives is an argument of a round of the
  IO thread. An exception in a round ends the thread (\<open>hz_io_dead\<close>, \<open>rz_io_dead\<close>).
\<close>

definition POLL_MS :: int where "POLL_MS = 50"
definition COLD_SNDHWM :: int where "COLD_SNDHWM = 64"

definition endpoint :: "string \<Rightarrow> int \<Rightarrow> string" where
  "endpoint address port = ''tcp://'' @ address @ '':'' @ int_text port"

subsection \<open>The host's end\<close>

record host_zmq =
  hz_cfg :: transport_config
  hz_outbox :: "byte list list"
  hz_carry :: "byte list option"
  hz_pending :: pending_table
  hz_next_req :: int
  hz_next_ping :: time
  hz_last_pong :: time
  hz_alive :: bool
  hz_peer_status :: header
  hz_peer_calls :: "bool list"
  hz_hot_sent :: "byte list list"
  hz_cold_sent :: "byte list list list"
  hz_ctl_sent :: "byte list list"
  hz_pings :: nat
  hz_io_dead :: bool

definition hz_init :: "transport_config \<Rightarrow> host_zmq" where
  "hz_init cfg = \<lparr>hz_cfg = cfg, hz_outbox = [], hz_carry = None, hz_pending = [], hz_next_req = 1,
     hz_next_ping = 0, hz_last_pong = 0, hz_alive = False, hz_peer_status = [], hz_peer_calls = [],
     hz_hot_sent = [], hz_cold_sent = [], hz_ctl_sent = [], hz_pings = 0, hz_io_dead = False\<rparr>"

definition hz_register :: "bool option \<Rightarrow> header \<Rightarrow> host_zmq \<Rightarrow> host_zmq" where
  "hz_register ev msg s =
     s\<lparr>hz_pending := dset (hz_next_req s) \<lparr>ps_event = ev, ps_replies = []\<rparr> (hz_pending s),
       hz_next_req := hz_next_req s + 1,
       hz_outbox := hz_outbox s @ [encode_control (with_req (hz_next_req s) msg)]\<rparr>"

definition hz_request_nowait :: "header \<Rightarrow> host_zmq \<Rightarrow> (py_error + int) \<times> host_zmq" where
  "hz_request_nowait msg s = (Inr (hz_next_req s), hz_register None msg s)"

definition hz_request_begin :: "header \<Rightarrow> host_zmq \<Rightarrow> int \<times> host_zmq" where
  "hz_request_begin msg s = (hz_next_req s, hz_register (Some False) msg s)"

definition hz_request_end :: "int \<Rightarrow> host_zmq \<Rightarrow> header option \<times> host_zmq" where
  "hz_request_end req_id s = (let (r, t) = table_finish req_id (hz_pending s) in (r, s\<lparr>hz_pending := t\<rparr>))"

definition hz_poll_reply :: "int \<Rightarrow> host_zmq \<Rightarrow> header option \<times> host_zmq" where
  "hz_poll_reply req_id s = (let (r, t) = table_poll req_id (hz_pending s) in (r, s\<lparr>hz_pending := t\<rparr>))"

definition hz_cancel_request :: "int \<Rightarrow> host_zmq \<Rightarrow> host_zmq" where
  "hz_cancel_request req_id s = s\<lparr>hz_pending := dpop req_id (hz_pending s)\<rparr>"

definition hz_send_hot :: "(host_zmq \<Rightarrow> bool) \<Rightarrow> byte list \<Rightarrow> host_zmq \<Rightarrow> host_zmq" where
  "hz_send_hot takes packed s = (if takes s then s\<lparr>hz_hot_sent := hz_hot_sent s @ [packed]\<rparr> else s)"

definition hz_send_cold :: "(host_zmq \<Rightarrow> bool) \<Rightarrow> header \<Rightarrow> byte list \<Rightarrow> host_zmq \<Rightarrow> (py_error + bool) \<times> host_zmq" where
  "hz_send_cold takes h payload s =
     (if takes s then (Inr True, s\<lparr>hz_cold_sent := hz_cold_sent s @ [encode_cold h payload]\<rparr>) else (Inr False, s))"

definition hz_send_fast :: "(host_zmq \<Rightarrow> bool) \<Rightarrow> header \<Rightarrow> byte list \<Rightarrow> host_zmq \<Rightarrow> (py_error + bool) \<times> host_zmq" where
  "hz_send_fast takes h payload s = hz_send_cold takes h payload s"

definition hz_handle_reply :: "time \<Rightarrow> header \<Rightarrow> host_zmq \<Rightarrow> py_error + host_zmq" where
  "hz_handle_reply now reply s =
     (if is_pong reply
      then Inr (let s1 = s\<lparr>hz_last_pong := now\<rparr>
                in case dget reply ''status'' of Some (JObj st) \<Rightarrow> s1\<lparr>hz_peer_status := st\<rparr> | _ \<Rightarrow> s1)
      else case table_deliver reply (hz_pending s) of Inl e \<Rightarrow> Inl e | Inr t \<Rightarrow> Inr (s\<lparr>hz_pending := t\<rparr>))"

definition hz_update_liveness :: "time \<Rightarrow> host_zmq \<Rightarrow> host_zmq" where
  "hz_update_liveness now s =
     (let alive = (0 < hz_last_pong s \<and> now - hz_last_pong s < heartbeat_window (hz_cfg s))
      in if alive \<noteq> hz_alive s then s\<lparr>hz_alive := alive, hz_peer_calls := hz_peer_calls s @ [alive]\<rparr> else s)"

text \<open>The send loop: the message that would block is carried to the next round.\<close>

function flush_control :: "nat \<Rightarrow> byte list option \<Rightarrow> byte list list
    \<Rightarrow> byte list list \<times> byte list option \<times> byte list list" where
  "flush_control room None [] = ([], None, [])"
| "flush_control room None (m # q) = flush_control room (Some m) q"
| "flush_control 0 (Some m) q = ([], Some m, q)"
| "flush_control (Suc room) (Some m) q =
     (let (out, c, rest) = flush_control room None q in (m # out, c, rest))"
  by pat_completeness auto
termination
  by (relation "measure (\<lambda>(room, c, q). 2 * length q + (if c = None then 0 else 1))") auto

definition hz_flush :: "nat \<Rightarrow> host_zmq \<Rightarrow> host_zmq" where
  "hz_flush room s =
     (let (out, c, rest) = flush_control room (hz_carry s) (hz_outbox s)
      in s\<lparr>hz_ctl_sent := hz_ctl_sent s @ out, hz_carry := c, hz_outbox := rest\<rparr>)"

definition hz_ping :: "bool \<Rightarrow> time \<Rightarrow> host_zmq \<Rightarrow> host_zmq" where
  "hz_ping takes_ping now s =
     (if now \<ge> hz_next_ping s
      then s\<lparr>hz_pings := hz_pings s + of_bool takes_ping,
             hz_next_ping := now + tc_heartbeat_interval (hz_cfg s)\<rparr> else s)"

text \<open>
  One round of the IO thread at time \<open>now\<close>: a ping when due, the outbox, at most one incoming
  message (handled at \<open>now2\<close>), the liveness update. An exception leaves through the final flush.
\<close>

definition hz_io_round :: "bool \<Rightarrow> nat \<Rightarrow> byte list option \<Rightarrow> time \<Rightarrow> time \<Rightarrow> host_zmq \<Rightarrow> host_zmq" where
  "hz_io_round takes_ping room incoming now now2 s =
     (if hz_io_dead s then s
      else let s1 = hz_flush room (hz_ping takes_ping now s)
      in case (case incoming of None \<Rightarrow> None | Some data \<Rightarrow> decode_control data) of
           None \<Rightarrow> hz_update_liveness now2 s1
         | Some reply \<Rightarrow> (case hz_handle_reply now2 reply s1 of
               Inl e \<Rightarrow> (hz_flush room s1)\<lparr>hz_io_dead := True\<rparr>
             | Inr s2 \<Rightarrow> hz_update_liveness now2 s2))"

definition hz_stop :: "nat \<Rightarrow> host_zmq \<Rightarrow> host_zmq" where
  "hz_stop room s = (if hz_io_dead s then s else (hz_flush room s)\<lparr>hz_io_dead := True\<rparr>)"

subsection \<open>The replica's end\<close>

record replica_zmq =
  rz_cfg :: transport_config
  rz_hot_slot :: "byte list option"
  rz_cold_q :: "(header \<times> byte list) list"
  rz_last_ping :: time
  rz_ports :: "(int \<times> int \<times> int) option"
  rz_ready :: bool
  rz_sent :: "(byte list \<times> byte list) list"
  rz_io_dead :: bool

definition rz_init :: "transport_config \<Rightarrow> replica_zmq" where
  "rz_init cfg = \<lparr>rz_cfg = cfg, rz_hot_slot = None, rz_cold_q = [], rz_last_ping = 0, rz_ports = None,
     rz_ready = False, rz_sent = [], rz_io_dead = False\<rparr>"

text \<open>The ports the sockets were bound to are known once the thread has bound all three.\<close>

definition rz_bound :: "int \<times> int \<times> int \<Rightarrow> replica_zmq \<Rightarrow> replica_zmq" where
  "rz_bound ports s = s\<lparr>rz_ports := Some ports, rz_ready := True\<rparr>"

definition rz_bound_ports :: "replica_zmq \<Rightarrow> py_error + (int \<times> int \<times> int)" where
  "rz_bound_ports s = (case rz_ports s of None \<Rightarrow> Inl AssertionError | Some p \<Rightarrow> Inr p)"

definition rz_poll_hot :: "replica_zmq \<Rightarrow> byte list option" where
  "rz_poll_hot s = rz_hot_slot s"

definition rz_poll_fast :: "nat \<Rightarrow> replica_zmq \<Rightarrow> (header \<times> byte list) list" where
  "rz_poll_fast n s = []"

definition rz_poll_cold :: "nat \<Rightarrow> replica_zmq \<Rightarrow> (header \<times> byte list) list \<times> replica_zmq" where
  "rz_poll_cold n s = (take n (rz_cold_q s), s\<lparr>rz_cold_q := drop n (rz_cold_q s)\<rparr>)"

definition rz_peer_alive :: "time \<Rightarrow> replica_zmq \<Rightarrow> bool" where
  "rz_peer_alive now s \<longleftrightarrow> 0 < rz_last_ping s \<and> now - rz_last_ping s < heartbeat_window (rz_cfg s)"

definition rz_serve_control :: "'h handler \<Rightarrow> 'h provider \<Rightarrow> time \<Rightarrow> byte list list \<Rightarrow> 'h \<times> replica_zmq
    \<Rightarrow> 'h \<times> replica_zmq" where
  "rz_serve_control handler provider now parts hs =
     (case (parts, hs) of
        ([ident, payload], (h, s)) \<Rightarrow>
          (case decode_control payload of None \<Rightarrow> (h, s)
           | Some msg \<Rightarrow>
               let s1 = (if dget msg ''kind'' = Some (JStr ''ping'') then s\<lparr>rz_last_ping := now\<rparr> else s);
                   (reply, h') = control_reply handler provider msg h
               in (h', s1\<lparr>rz_sent := rz_sent s1 @ [(ident, encode_control reply)]\<rparr>))
      | (_, (h, s)) \<Rightarrow> (h, s\<lparr>rz_io_dead := True\<rparr>))"

definition rz_io_round :: "'h handler \<Rightarrow> 'h provider \<Rightarrow> time \<Rightarrow> byte list list option \<Rightarrow> byte list option
    \<Rightarrow> byte list list list \<Rightarrow> 'h \<times> replica_zmq \<Rightarrow> 'h \<times> replica_zmq" where
  "rz_io_round handler provider now ctl hot cold hs =
     (if rz_io_dead (snd hs) then hs
      else let (h, s1) = (case ctl of None \<Rightarrow> hs | Some parts \<Rightarrow> rz_serve_control handler provider now parts hs)
      in if rz_io_dead s1 then (h, s1)
         else let s2 = (case hot of None \<Rightarrow> s1 | Some packed \<Rightarrow> s1\<lparr>rz_hot_slot := Some packed\<rparr>)
              in (h, s2\<lparr>rz_cold_q := rz_cold_q s2 @ List.map_filter decode_cold cold\<rparr>))"

subsection \<open>The contracts\<close>

datatype hz_op = Z_Hot "byte list" | Z_Cold header "byte list" | Z_Round bool nat time time | Z_Final nat

fun hz_beside :: "(host_zmq \<Rightarrow> bool) \<Rightarrow> hz_op \<Rightarrow> host_zmq \<Rightarrow> host_zmq" where
  "hz_beside takes (Z_Hot packed) s = hz_send_hot takes packed s"
| "hz_beside takes (Z_Cold h p) s = snd (hz_send_cold takes h p s)"
| "hz_beside takes (Z_Round tp room now now2) s = hz_io_round tp room None now now2 s"
| "hz_beside takes (Z_Final room) s = hz_stop room s"

definition hz_waiting :: "host_zmq \<Rightarrow> int \<Rightarrow> header list option" where
  "hz_waiting s = table_waiting (hz_pending s)"

definition hz_req_ok :: "host_zmq \<Rightarrow> bool" where
  "hz_req_ok s \<longleftrightarrow> table_ok (hz_pending s) (hz_next_req s)"

lemma hz_flush_state [simp]:
  "hz_pending (hz_flush room s) = hz_pending s" "hz_next_req (hz_flush room s) = hz_next_req s"
  by (simp_all add: hz_flush_def case_prod_unfold Let_def)

lemma hz_beside_state:
  "hz_pending (hz_beside takes op s) = hz_pending s \<and> hz_next_req (hz_beside takes op s) = hz_next_req s"
  by (cases op) (simp_all add: hz_send_hot_def hz_send_cold_def hz_io_round_def hz_ping_def hz_update_liveness_def
      hz_stop_def Let_def)

lemma hz_deliver_state:
  assumes "hz_req_ok s" "hz_handle_reply t r s = Inr s'"
  shows "hz_req_ok s' \<and> hz_next_req s' = hz_next_req s \<and>
    hz_waiting s' = (\<lambda>k. if answers r k then map_option (\<lambda>rs. rs @ [r]) (hz_waiting s k) else hz_waiting s k)"
proof (cases "is_pong r")
  case True
  then have "hz_pending s' = hz_pending s" "hz_next_req s' = hz_next_req s"
    using assms(2) by (auto simp: hz_handle_reply_def Let_def split: option.splits json.splits)
  moreover have "\<not> answers r k" for k using True by (simp add: answers_def)
  ultimately show ?thesis using assms(1) by (simp add: hz_req_ok_def hz_waiting_def)
next
  case False
  then obtain t' where t': "table_deliver r (hz_pending s) = Inr t'" "s' = s\<lparr>hz_pending := t'\<rparr>"
    using assms(2) by (auto simp: hz_handle_reply_def split: sum.splits)
  then show ?thesis
    using table_deliver_spec [OF _ False t'(1), of "hz_next_req s"] assms(1)
    by (simp add: hz_req_ok_def hz_waiting_def cong: if_cong)
qed

interpretation hz_req: request_channel hz_request_nowait hz_poll_reply hz_cancel_request hz_handle_reply
    "hz_beside takes" hz_waiting hz_next_req hz_req_ok
  for takes
proof unfold_locales
  show "hz_req_ok s \<Longrightarrow> hz_waiting s k \<noteq> None \<Longrightarrow> k < hz_next_req s" for s k
    by (simp add: hz_req_ok_def hz_waiting_def table_ok_waiting)
next
  show "hz_req_ok s \<Longrightarrow> hz_req_ok (snd (hz_request_nowait m s)) \<and>
      hz_waiting (snd (hz_request_nowait m s)) = (hz_waiting s)(hz_next_req s \<mapsto> []) \<and>
      hz_next_req (snd (hz_request_nowait m s)) = hz_next_req s + 1" for s m
    by (simp add: hz_req_ok_def hz_waiting_def hz_request_nowait_def hz_register_def table_ok_new)
next
  show "hz_req_ok s \<Longrightarrow> hz_req_ok (snd (hz_poll_reply k s)) \<and> hz_next_req (snd (hz_poll_reply k s)) = hz_next_req s \<and>
      fst (hz_poll_reply k s) = (case hz_waiting s k of Some (r # rs) \<Rightarrow> Some r | _ \<Rightarrow> None) \<and>
      hz_waiting (snd (hz_poll_reply k s)) =
        (case hz_waiting s k of Some (r # rs) \<Rightarrow> (hz_waiting s)(k := None) | _ \<Rightarrow> hz_waiting s)" for s k
    by (auto simp: hz_poll_reply_def table_poll_spec hz_req_ok_def hz_waiting_def table_ok_dpop
        split: option.splits list.splits)
next
  show "hz_req_ok s \<Longrightarrow> hz_req_ok (hz_cancel_request k s) \<and> hz_next_req (hz_cancel_request k s) = hz_next_req s \<and>
      hz_waiting (hz_cancel_request k s) = (hz_waiting s)(k := None)" for s k
    by (simp add: hz_req_ok_def hz_waiting_def hz_cancel_request_def table_ok_dpop)
next
  show "hz_req_ok s \<Longrightarrow> hz_handle_reply t r s = Inr s' \<Longrightarrow> hz_req_ok s' \<and> hz_next_req s' = hz_next_req s \<and>
      hz_waiting s' = (\<lambda>k. if answers r k then map_option (\<lambda>rs. rs @ [r]) (hz_waiting s k) else hz_waiting s k)"
    for s t r s' using hz_deliver_state .
next
  show "hz_req_ok s \<Longrightarrow> hz_handle_reply t r s = Inl e \<Longrightarrow> \<not> answers r k" for s t r e k
    by (auto simp: hz_handle_reply_def Let_def answers_def dest: table_deliver_error split: if_splits sum.splits)
next
  show "hz_req_ok s \<Longrightarrow> hz_req_ok (hz_beside takes x s) \<and> hz_next_req (hz_beside takes x s) = hz_next_req s \<and>
      hz_waiting (hz_beside takes x s) = hz_waiting s" for s takes x
    using hz_beside_state [of takes x s] by (simp add: hz_req_ok_def hz_waiting_def)
qed

lemma decode_encode_cold: "json_ok (JObj h) \<Longrightarrow> decode_cold (encode_cold h p) = Some (h, p)"
  using decode_encode_control by (simp add: encode_cold_def decode_cold_def encode_control_def del: dumps.simps json_ok.simps)

interpretation hz_lane: lane_sender "hz_send_cold takes" "hz_send_fast takes" hz_cold_sent "\<lambda>_. []" "\<lambda>_. False"
    encode_cold decode_cold
  for takes
  by unfold_locales
     (auto simp: hz_send_cold_def hz_send_fast_def decode_encode_cold simp del: json_ok.simps split: if_splits)

subsection \<open>The control outbox\<close>

datatype hz_io_op = Z_Request header | Z_Io bool nat "byte list option" time time | Z_Stop nat

fun hz_io_step :: "hz_io_op \<Rightarrow> host_zmq \<Rightarrow> host_zmq" where
  "hz_io_step (Z_Request msg) s = snd (hz_request_nowait msg s)"
| "hz_io_step (Z_Io tp room incoming now now2) s = hz_io_round tp room incoming now now2 s"
| "hz_io_step (Z_Stop room) s = hz_stop room s"

fun hz_requests :: "int \<Rightarrow> hz_io_op list \<Rightarrow> byte list list" where
  "hz_requests n [] = []"
| "hz_requests n (Z_Request msg # ops) = encode_control (with_req n msg) # hz_requests (n + 1) ops"
| "hz_requests n (op # ops) = hz_requests n ops"

lemma flush_control_keeps:
  "case flush_control room c q of (out, c', q') \<Rightarrow> out @ (case c' of None \<Rightarrow> [] | Some m \<Rightarrow> [m]) @ q' =
     (case c of None \<Rightarrow> [] | Some m \<Rightarrow> [m]) @ q \<and> length out \<le> room \<and> (length out < room \<longrightarrow> c' = None \<and> q' = [])"
  by (induction room c q rule: flush_control.induct) (auto split: prod.splits)

definition hz_stream :: "host_zmq \<Rightarrow> byte list list" where
  "hz_stream s = hz_ctl_sent s @ (case hz_carry s of None \<Rightarrow> [] | Some m \<Rightarrow> [m]) @ hz_outbox s"

lemma hz_flush_stream: "hz_stream (hz_flush room s) = hz_stream s \<and> hz_next_req (hz_flush room s) = hz_next_req s
    \<and> hz_pending (hz_flush room s) = hz_pending s"
  using flush_control_keeps [where room = room and c = "hz_carry s" and q = "hz_outbox s"]
  by (auto simp: hz_flush_def hz_stream_def split: prod.splits)

lemma hz_reply_stream: "hz_handle_reply t r s = Inr s' \<Longrightarrow> hz_stream s' = hz_stream s \<and> hz_next_req s' = hz_next_req s"
  by (auto simp: hz_handle_reply_def hz_stream_def Let_def split: if_splits sum.splits option.splits json.splits)

lemma hz_quiet_stream:
  "hz_stream (hz_ping tp now s) = hz_stream s \<and> hz_next_req (hz_ping tp now s) = hz_next_req s"
  "hz_stream (hz_update_liveness now s) = hz_stream s \<and> hz_next_req (hz_update_liveness now s) = hz_next_req s"
  "hz_stream (s\<lparr>hz_io_dead := d\<rparr>) = hz_stream s"
  by (simp_all add: hz_stream_def hz_ping_def hz_update_liveness_def Let_def)

lemma hz_round_stream:
  "hz_stream (hz_io_round tp room incoming now now2 s) = hz_stream s
   \<and> hz_next_req (hz_io_round tp room incoming now now2 s) = hz_next_req s"
  unfolding hz_io_round_def Let_def
  by (auto simp: hz_flush_stream hz_quiet_stream dest: hz_reply_stream split: option.splits sum.splits)

lemma hz_io_steps_stream:
  "hz_stream (fold hz_io_step ops s) = hz_stream s @ hz_requests (hz_next_req s) ops"
proof (induction ops arbitrary: s)
  case (Cons op ops)
  show ?case
  proof (cases op)
    case (Z_Request msg)
    have "hz_stream (hz_io_step op s) = hz_stream s @ [encode_control (with_req (hz_next_req s) msg)]"
      "hz_next_req (hz_io_step op s) = hz_next_req s + 1"
      using Z_Request by (simp_all add: hz_request_nowait_def hz_register_def hz_stream_def)
    then show ?thesis using Cons.IH [of "hz_io_step op s"] Z_Request by simp
  next
    case (Z_Io tp room incoming now now2)
    then show ?thesis using Cons.IH [of "hz_io_step op s"] by (simp add: hz_round_stream)
  next
    case (Z_Stop room)
    have "hz_stream (hz_stop room s) = hz_stream s" "hz_next_req (hz_stop room s) = hz_next_req s"
      by (simp_all add: hz_stop_def hz_flush_stream hz_quiet_stream)
    then show ?thesis using Cons.IH [of "hz_io_step op s"] Z_Stop by simp
  qed
qed simp

text \<open>On the zmq transport the control socket is given every request exactly once and in the order
  the session queued them, over any sequence of rounds in which the socket takes as much or as
  little as it likes, incoming messages included; and a socket that takes everything drains the outbox
  in one round of a live thread.\<close>

theorem zmq_outbox_in_order:
  "hz_ctl_sent (fold hz_io_step ops (hz_init cfg)) @
     (case hz_carry (fold hz_io_step ops (hz_init cfg)) of None \<Rightarrow> [] | Some m \<Rightarrow> [m]) @
     hz_outbox (fold hz_io_step ops (hz_init cfg)) = hz_requests 1 ops
   \<and> (if hz_io_dead s then True
      else hz_ctl_sent (hz_io_round tp (Suc (length (hz_outbox s) + 1)) None now now2 s) = hz_stream s)"
proof -
  have "hz_stream (fold hz_io_step ops (hz_init cfg)) = hz_requests 1 ops"
    using hz_io_steps_stream [of ops "hz_init cfg"] by (simp add: hz_init_def hz_stream_def)
  moreover have "hz_ctl_sent (hz_io_round tp (Suc (length (hz_outbox s) + 1)) None now now2 s) = hz_stream s"
    if "\<not> hz_io_dead s"
  proof -
    let ?room = "Suc (length (hz_outbox s) + 1)"
    let ?s = "hz_ping tp now s"
    have s: "hz_carry ?s = hz_carry s" "hz_outbox ?s = hz_outbox s" "hz_ctl_sent ?s = hz_ctl_sent s"
      by (simp_all add: hz_ping_def)
    obtain out c q where f: "flush_control ?room (hz_carry s) (hz_outbox s) = (out, c, q)"
      by (cases "flush_control ?room (hz_carry s) (hz_outbox s)")
    have k: "out @ (case c of None \<Rightarrow> [] | Some m \<Rightarrow> [m]) @ q = (case hz_carry s of None \<Rightarrow> [] | Some m \<Rightarrow> [m]) @ hz_outbox s"
      "length out < ?room \<longrightarrow> c = None \<and> q = []"
      using flush_control_keeps [where room = ?room and c = "hz_carry s" and q = "hz_outbox s"] f by auto
    have "length out \<le> length ((case hz_carry s of None \<Rightarrow> [] | Some m \<Rightarrow> [m]) @ hz_outbox s)"
      using k(1) by (metis length_append le_add1)
    then have "length out < ?room" by (auto split: option.splits)
    then have "out = (case hz_carry s of None \<Rightarrow> [] | Some m \<Rightarrow> [m]) @ hz_outbox s" using k by simp
    then show ?thesis using that f s
      by (simp add: hz_io_round_def hz_flush_def hz_update_liveness_def hz_stream_def Let_def)
  qed
  ultimately show ?thesis by (simp add: hz_stream_def)
qed

text \<open>A control message from the peer whose \<open>req\<close> is a list or an object ends the zmq transport's IO
  thread: no later round sends, pings or notices the peer again. The agent transport drops the same
  message and goes on.\<close>

theorem unhashable_req_ends_zmq_thread:
  assumes "json_ok (JObj reply)" "\<not> is_pong reply" "\<not> hashable (req_of reply)" "\<not> hz_io_dead s"
  shows "hz_io_dead (hz_io_round tp room (Some (encode_control reply)) now now2 s)
    \<and> hz_io_round tp' room' incoming now' now2' (hz_io_round tp room (Some (encode_control reply)) now now2 s)
        = hz_io_round tp room (Some (encode_control reply)) now now2 s
    \<and> snd (ha_on_frame py_repr now T_CONTROL (PEER @ encode_control reply) a) = a"
proof -
  have d: "decode_control (encode_control reply) = Some reply" by (rule decode_encode_control [OF assms(1)])
  have e: "table_deliver reply t = Inl TypeError" for t
    using assms(3) by (simp add: table_deliver_def find_pending_def)
  have "hz_handle_reply now2 reply s1 = Inl TypeError" for s1 using assms(2) by (simp add: hz_handle_reply_def e)
  then have z: "hz_io_dead (hz_io_round tp room (Some (encode_control reply)) now now2 s)"
    using assms(4) by (simp add: hz_io_round_def d Let_def)
  have "ha_handle_reply now reply a = Inl TypeError" using assms(2) by (simp add: ha_handle_reply_def e)
  then have "snd (ha_on_frame py_repr now T_CONTROL (PEER @ encode_control reply) a) = a"
    by (simp add: ha_on_frame_def PEER_def d)
  then show ?thesis using z by (simp add: hz_io_round_def)
qed

theorem unhashable_req_ends_zmq_thread_witness:
  "hz_io_dead (hz_io_round True 1 (Some (encode_control [(''req'', JList [])])) 0 0 (hz_init (transport_config_of [] 1 2 3)))"
proof -
  have "json_ok (JObj [(''req'', JList [])])" "\<not> is_pong [(''req'', JList [])]" "\<not> hashable (req_of [(''req'', JList [])])"
    "\<not> hz_io_dead (hz_init (transport_config_of [] 1 2 3))"
    by (simp_all add: is_pong_def req_of_def hashable_def hz_init_def)
  from unhashable_req_ends_zmq_thread [OF this] show ?thesis by blast
qed

end
