(* ===== verification/Wire_Format.thy ===== *)
theory Wire_Format
  imports Prelude
begin

unbundle bit_operations_syntax

text \<open>
  \<open>ring1/wire_format.py\<close>: a scene-linear pixel to PQ-coded BT.2020 Y'CbCr in 10-bit limited range and
  back. Floats are real numbers here, so the round trips are those of the mathematics; what double
  rounding adds is not modelled. Writing and reading a float as text are parameters.
\<close>

type_synonym vec3 = "real \<times> real \<times> real"
type_synonym mat3 = "vec3 \<times> vec3 \<times> vec3"

definition ANCHOR_NITS :: real where "ANCHOR_NITS = 100"
definition PQ_PEAK_NITS :: real where "PQ_PEAK_NITS = 10000"

definition PQ_M1 :: real where "PQ_M1 = 1593017578125 / 10 ^ 13"
definition PQ_M2 :: real where "PQ_M2 = 7884375 / 10 ^ 5"
definition PQ_C1 :: real where "PQ_C1 = 8359375 / 10 ^ 7"
definition PQ_C2 :: real where "PQ_C2 = 188515625 / 10 ^ 7"
definition PQ_C3 :: real where "PQ_C3 = 186875 / 10 ^ 4"

definition M_709_TO_2020 :: mat3 where
  "M_709_TO_2020 = ((6274 / 10000, 3293 / 10000, 433 / 10000), (691 / 10000, 9195 / 10000, 114 / 10000),
     (164 / 10000, 880 / 10000, 8956 / 10000))"

definition M_2020_TO_709 :: mat3 where
  "M_2020_TO_709 = ((16605 / 10000, - 5876 / 10000, - 728 / 10000), (- 1246 / 10000, 11329 / 10000, - 83 / 10000),
     (- 182 / 10000, - 1006 / 10000, 11187 / 10000))"

definition KR :: real where "KR = 2627 / 10000"
definition KG :: real where "KG = 6780 / 10000"
definition KB :: real where "KB = 593 / 10000"
definition CB_DIV :: real where "CB_DIV = 2 * (1 - KB)"
definition CR_DIV :: real where "CR_DIV = 2 * (1 - KR)"

definition Y_MIN :: int where "Y_MIN = 64"
definition Y_MAX :: int where "Y_MAX = 940"
definition C_MIN :: int where "C_MIN = 64"
definition C_MAX :: int where "C_MAX = 960"

subsection \<open>Colour\<close>

definition dot3 :: "vec3 \<Rightarrow> vec3 \<Rightarrow> real" where
  "dot3 a b = (case (a, b) of ((a0, a1, a2), (b0, b1, b2)) \<Rightarrow> a0 * b0 + a1 * b1 + a2 * b2)"

definition rgb_to_2020 :: "mat3 \<Rightarrow> vec3 \<Rightarrow> vec3" where
  "rgb_to_2020 m v = (case m of (r0, r1, r2) \<Rightarrow> (max 0 (dot3 r0 v), max 0 (dot3 r1 v), max 0 (dot3 r2 v)))"

definition rgb709_to_2020 :: "vec3 \<Rightarrow> vec3" where
  "rgb709_to_2020 v = rgb_to_2020 M_709_TO_2020 v"

definition rgb2020_to_709 :: "vec3 \<Rightarrow> vec3" where
  "rgb2020_to_709 v = (case M_2020_TO_709 of (r0, r1, r2) \<Rightarrow> (dot3 r0 v, dot3 r1 v, dot3 r2 v))"

definition pq_oetf :: "real \<Rightarrow> real" where
  "pq_oetf x =
     (let l = max 0 (min 1 (x * ANCHOR_NITS / PQ_PEAK_NITS)); lm = l powr PQ_M1
      in ((PQ_C1 + PQ_C2 * lm) / (1 + PQ_C3 * lm)) powr PQ_M2)"

definition pq_eotf :: "real \<Rightarrow> real" where
  "pq_eotf signal =
     (let e = max 0 (min 1 signal); em = e powr (1 / PQ_M2);
          l = (max 0 (em - PQ_C1) / (PQ_C2 - PQ_C3 * em)) powr (1 / PQ_M1)
      in l * PQ_PEAK_NITS / ANCHOR_NITS)"

definition ycbcr :: "vec3 \<Rightarrow> vec3" where
  "ycbcr v = (case v of (rp, gp, bp) \<Rightarrow> let y = KR * rp + KG * gp + KB * bp in (y, (bp - y) / CB_DIV, (rp - y) / CR_DIV))"

definition ycbcr_inverse :: "vec3 \<Rightarrow> vec3" where
  "ycbcr_inverse v = (case v of (y, cb, cr) \<Rightarrow>
     let rp = y + CR_DIV * cr; bp = y + CB_DIV * cb; gp = (y - KR * rp - KB * bp) / KG in (rp, gp, bp))"

subsection \<open>Codes\<close>

definition quantize :: "vec3 \<Rightarrow> int \<times> int \<times> int" where
  "quantize v = (case v of (y, cb, cr) \<Rightarrow>
     let dy = py_round (876 * y + 64); dcb = py_round (896 * cb + 512); dcr = py_round (896 * cr + 512)
     in (max Y_MIN (min Y_MAX dy), max C_MIN (min C_MAX dcb), max C_MIN (min C_MAX dcr)))"

definition dequantize :: "int \<times> int \<times> int \<Rightarrow> vec3" where
  "dequantize c = (case c of (dy, dcb, dcr) \<Rightarrow>
     ((of_int dy - 64) / 876, (of_int dcb - 512) / 896, (of_int dcr - 512) / 896))"

definition encode_pixel :: "mat3 \<Rightarrow> vec3 \<Rightarrow> vec3" where
  "encode_pixel m v = (case rgb_to_2020 m v of (r, g, b) \<Rightarrow> ycbcr (pq_oetf r, pq_oetf g, pq_oetf b))"

definition decode_pixel :: "vec3 \<Rightarrow> vec3" where
  "decode_pixel v = (case ycbcr_inverse v of (rp, gp, bp) \<Rightarrow> rgb2020_to_709 (pq_eotf rp, pq_eotf gp, pq_eotf bp))"

definition plane_word :: "int \<Rightarrow> int" where
  "plane_word code = push_bit 6 (code AND 0x3FF)"

subsection \<open>A tile\<close>

record wire_tile =
  wt_w :: nat
  wt_h :: nat
  wt_y :: "int list list"
  wt_cb :: "int list list"
  wt_cr :: "int list list"

text \<open>The average of one chroma component over the 2x2 block whose corner is \<open>(2 i, 2 j)\<close>.\<close>

definition block_mean :: "(nat \<Rightarrow> nat \<Rightarrow> real) \<Rightarrow> nat \<Rightarrow> nat \<Rightarrow> real" where
  "block_mean c j i = (c (2 * j) (2 * i) + c (2 * j) (2 * i + 1) + c (2 * j + 1) (2 * i) + c (2 * j + 1) (2 * i + 1)) / 4"

definition encode_tile :: "mat3 \<Rightarrow> vec3 list list \<Rightarrow> py_error + wire_tile" where
  "encode_tile m rgb =
     (let h = length rgb; w = (if rgb = [] then 0 else length (rgb ! 0));
          px = (\<lambda>j i. encode_pixel m (rgb ! j ! i));
          cb = block_mean (\<lambda>j i. fst (snd (px j i))); cr = block_mean (\<lambda>j i. snd (snd (px j i)))
      in if odd h \<or> odd w then Inl AssertionError
         else if \<exists>row \<in> set rgb. length row < w then Inl IndexError
         else Inr \<lparr>wt_w = w, wt_h = h,
           wt_y = map (\<lambda>j. map (\<lambda>i. fst (quantize (fst (px j i), 0, 0))) [0..<w]) [0..<h],
           wt_cb = map (\<lambda>j. map (\<lambda>i. fst (snd (quantize (0, cb j i, cr j i)))) [0..<w div 2]) [0..<h div 2],
           wt_cr = map (\<lambda>j. map (\<lambda>i. snd (snd (quantize (0, cb j i, cr j i)))) [0..<w div 2]) [0..<h div 2]\<rparr>)"

subsection \<open>The matrix on a command line\<close>

definition mat_entries :: "mat3 \<Rightarrow> real list" where
  "mat_entries m = (case m of ((a, b, c), (d, e, f), (g, h, i)) \<Rightarrow> [a, b, c, d, e, f, g, h, i])"

fun join_with :: "string \<Rightarrow> string list \<Rightarrow> string" where
  "join_with s [] = []"
| "join_with s [x] = x"
| "join_with s (x # xs) = x @ s @ join_with s xs"

fun split_with :: "char \<Rightarrow> string \<Rightarrow> string list" where
  "split_with c [] = [[]]"
| "split_with c (x # t) = (if x = c then [] # split_with c t
     else case split_with c t of [] \<Rightarrow> [[x]] | w # ws \<Rightarrow> (x # w) # ws)"

definition matrix_arg :: "(real \<Rightarrow> string) \<Rightarrow> mat3 \<Rightarrow> string" where
  "matrix_arg show7g m = join_with '','' (map show7g (mat_entries m))"

fun read_all :: "(string \<Rightarrow> real option) \<Rightarrow> string list \<Rightarrow> real list option" where
  "read_all py_float [] = Some []"
| "read_all py_float (t # ts) = (case py_float t of None \<Rightarrow> None | Some v \<Rightarrow> map_option ((#) v) (read_all py_float ts))"

definition parse_matrix_arg :: "(string \<Rightarrow> real option) \<Rightarrow> string \<Rightarrow> py_error + mat3" where
  "parse_matrix_arg py_float t = (case read_all py_float (split_with (CHR '','') t) of
     Some [a, b, c, d, e, f, g, h, i] \<Rightarrow> Inr ((a, b, c), (d, e, f), (g, h, i)) | _ \<Rightarrow> Inl ValueError)"

subsection \<open>The round trips\<close>

lemmas pq_defs = PQ_M1_def PQ_M2_def PQ_C1_def PQ_C2_def PQ_C3_def

lemma pq_roundtrip:
  assumes "0 \<le> x" "x \<le> 100"
  shows "0 \<le> pq_oetf x" "pq_oetf x \<le> 1" "pq_eotf (pq_oetf x) = x"
proof -
  define l where "l = x / 100"
  define lm where "lm = l powr PQ_M1"
  define q where "q = (PQ_C1 + PQ_C2 * lm) / (1 + PQ_C3 * lm)"
  have l: "0 \<le> l" "l \<le> 1" using assms by (simp_all add: l_def)
  have "l powr PQ_M1 \<le> 1 powr PQ_M1" using l by (intro powr_mono2) (simp_all add: pq_defs)
  then have lm: "0 \<le> lm" "lm \<le> 1" by (simp_all add: lm_def)
  have den: "0 < 1 + PQ_C3 * lm" using lm by (simp add: pq_defs add_pos_nonneg)
  have q: "0 < q" "q \<le> 1"
    using lm den by (simp_all add: q_def pq_defs add_pos_nonneg divide_le_eq)
  have o: "pq_oetf x = q powr PQ_M2"
    using l by (simp add: pq_oetf_def ANCHOR_NITS_def PQ_PEAK_NITS_def q_def lm_def l_def Let_def)
  have "q powr PQ_M2 \<le> 1 powr PQ_M2" using q by (intro powr_mono2) (simp_all add: pq_defs)
  then show r: "0 \<le> pq_oetf x" "pq_oetf x \<le> 1" by (simp_all add: o)
  have em: "pq_oetf x powr (1 / PQ_M2) = q" using q by (simp add: o powr_powr pq_defs)
  have a: "q - PQ_C1 = (PQ_C2 - PQ_C1 * PQ_C3) * lm / (1 + PQ_C3 * lm)"
    using den by (simp add: q_def field_simps)
  have b: "PQ_C2 - PQ_C3 * q = (PQ_C2 - PQ_C1 * PQ_C3) / (1 + PQ_C3 * lm)"
    using den by (simp add: q_def field_simps)
  have c: "0 < PQ_C2 - PQ_C1 * PQ_C3" by (simp add: pq_defs)
  have "max 0 (q - PQ_C1) = q - PQ_C1" using a c lm den by simp
  then have "max 0 (q - PQ_C1) / (PQ_C2 - PQ_C3 * q) = lm"
    using c den by (simp add: a b)
  moreover have "lm powr (1 / PQ_M1) = l"
    using l by (simp add: lm_def powr_powr pq_defs)
  ultimately show "pq_eotf (pq_oetf x) = x"
    using r em by (simp add: pq_eotf_def Let_def ANCHOR_NITS_def PQ_PEAK_NITS_def l_def)
qed

lemma ycbcr_roundtrip: "ycbcr_inverse (ycbcr v) = v"
  by (cases v) (simp add: ycbcr_inverse_def ycbcr_def Let_def CB_DIV_def CR_DIV_def KR_def KG_def KB_def field_simps)

text \<open>The chroma of colours between 0 and 1 stays in its signed half range.\<close>

lemma ycbcr_range:
  assumes "0 \<le> r" "r \<le> 1" "0 \<le> g" "g \<le> 1" "0 \<le> b" "b \<le> 1"
  shows "case ycbcr (r, g, b) of (y, cb, cr) \<Rightarrow> 0 \<le> y \<and> y \<le> 1 \<and> \<bar>cb\<bar> \<le> 1 / 2 \<and> \<bar>cr\<bar> \<le> 1 / 2"
proof -
  have "0 \<le> KR * r + KG * g + KB * b" "KR * r + KG * g + KB * b \<le> 1"
    using assms by (simp_all add: KR_def KG_def KB_def)
  moreover have "\<bar>b - (KR * r + KG * g + KB * b)\<bar> \<le> CB_DIV / 2" "\<bar>r - (KR * r + KG * g + KB * b)\<bar> \<le> CR_DIV / 2"
    unfolding KR_def KG_def KB_def CB_DIV_def CR_DIV_def abs_le_iff using assms by auto
  moreover have "\<bar>x / d\<bar> \<le> 1 / 2" if "\<bar>x\<bar> \<le> d / 2" "0 < d" for x d :: real
    using that by (simp add: abs_divide divide_le_eq)
  moreover have "0 < CB_DIV" "0 < CR_DIV" by (simp_all add: CB_DIV_def CR_DIV_def KB_def KR_def)
  ultimately show ?thesis by (simp add: ycbcr_def Let_def)
qed

lemma quantize_near:
  assumes "0 \<le> y" "y \<le> 1" "\<bar>cb\<bar> \<le> 1 / 2" "\<bar>cr\<bar> \<le> 1 / 2"
  shows "case quantize (y, cb, cr) of (dy, dcb, dcr) \<Rightarrow> 64 \<le> dy \<and> dy \<le> 940 \<and> 64 \<le> dcb \<and> dcb \<le> 960 \<and> 64 \<le> dcr \<and> dcr \<le> 960"
    and "case dequantize (quantize (y, cb, cr)) of (y', cb', cr') \<Rightarrow>
      \<bar>y' - y\<bar> \<le> 1 / 1752 \<and> \<bar>cb' - cb\<bar> \<le> 1 / 1792 \<and> \<bar>cr' - cr\<bar> \<le> 1 / 1792"
proof -
  have c: "64 \<le> py_round (896 * c + 512) \<and> py_round (896 * c + 512) \<le> 960" if "\<bar>c\<bar> \<le> 1 / 2" for c
    using that by (intro py_round_range) (auto simp: abs_le_iff)
  have y: "64 \<le> py_round (876 * y + 64) \<and> py_round (876 * y + 64) \<le> 940"
    using assms(1,2) by (intro py_round_range) auto
  have q: "quantize (y, cb, cr) = (py_round (876 * y + 64), py_round (896 * cb + 512), py_round (896 * cr + 512))"
    using y c [OF assms(3)] c [OF assms(4)] by (simp add: quantize_def Let_def Y_MIN_def Y_MAX_def C_MIN_def C_MAX_def)
  show "case quantize (y, cb, cr) of (dy, dcb, dcr) \<Rightarrow> 64 \<le> dy \<and> dy \<le> 940 \<and> 64 \<le> dcb \<and> dcb \<le> 960 \<and> 64 \<le> dcr \<and> dcr \<le> 960"
    using y c [OF assms(3)] c [OF assms(4)] by (simp add: q)
  show "case dequantize (quantize (y, cb, cr)) of (y', cb', cr') \<Rightarrow>
      \<bar>y' - y\<bar> \<le> 1 / 1752 \<and> \<bar>cb' - cb\<bar> \<le> 1 / 1792 \<and> \<bar>cr' - cr\<bar> \<le> 1 / 1792"
    using py_round_near [of "876 * y + 64"] py_round_near [of "896 * cb + 512"] py_round_near [of "896 * cr + 512"]
    by (simp add: q dequantize_def abs_le_iff) (simp add: field_simps)
qed



end
