(* ===== verification/Colour_State.thy ===== *)
theory Colour_State
  imports Transport_Agent Pathmap Wire_Format
begin

text \<open>
  \<open>ring1/colour_state.py\<close>: the colour-state block each end keeps and what two blocks say about
  each other. A block is a JSON object, of which the other end's comes off the wire, so every access
  may meet a value of another kind; \<open>py_float\<close> is Python's \<open>float()\<close> on a JSON value and
  \<open>sha1\<close> the hash, both parameters. Of a row for the panel the level and the key are modelled and
  the values its text names; the wording and \<open>summary_rows\<close>, which only formats, are left out.
\<close>

definition err_bind :: "py_error + 'a \<Rightarrow> ('a \<Rightarrow> py_error + 'b) \<Rightarrow> py_error + 'b" where
  "err_bind r f = (case r of Inl e \<Rightarrow> Inl e | Inr x \<Rightarrow> f x)"

lemma err_bind_simps [simp]: "err_bind (Inl e) f = Inl e" "err_bind (Inr x) f = f x"
  by (simp_all add: err_bind_def)

lemma err_bind_Inr: "err_bind r f = Inr y \<longleftrightarrow> (\<exists>x. r = Inr x \<and> f x = Inr y)"
  by (cases r) auto

datatype cm_level = Cm_Error | Cm_Warn | Cm_Info

type_synonym cm_row = "cm_level \<times> string \<times> json list"

definition LEVELS :: "cm_level list" where "LEVELS = [Cm_Error, Cm_Warn, Cm_Info]"
definition CM_VERSION :: int where "CM_VERSION = 1"
definition DIGEST_SKIP :: "string list" where
  "DIGEST_SKIP = [''views_available'', ''looks_available'', ''digest'']"

subsection \<open>Matrices\<close>

definition M_XYZ_TO_2020 :: mat3 where
  "M_XYZ_TO_2020 = ((17166512 / 10 ^ 7, - 3556708 / 10 ^ 7, - 2533663 / 10 ^ 7),
                    (- 6666844 / 10 ^ 7, 16164812 / 10 ^ 7, 157685 / 10 ^ 7),
                    (176399 / 10 ^ 7, - 427706 / 10 ^ 7, 9421031 / 10 ^ 7))"

definition M_709_TO_XYZ :: mat3 where
  "M_709_TO_XYZ = ((4123908 / 10 ^ 7, 3575843 / 10 ^ 7, 1804808 / 10 ^ 7),
                   (2126390 / 10 ^ 7, 7151687 / 10 ^ 7, 721923 / 10 ^ 7),
                   (193308 / 10 ^ 7, 1191948 / 10 ^ 7, 9505322 / 10 ^ 7))"

definition mat_from_columns :: "mat3 \<Rightarrow> mat3" where
  "mat_from_columns m = (case m of ((a, b, c), (d, e, f), (g, h, i)) \<Rightarrow> ((a, d, g), (b, e, h), (c, f, i)))"

definition row_times :: "vec3 \<Rightarrow> mat3 \<Rightarrow> vec3" where
  "row_times r m = (case mat_from_columns m of (p, q, s) \<Rightarrow> (dot3 r p, dot3 r q, dot3 r s))"

definition mat_mul :: "mat3 \<Rightarrow> mat3 \<Rightarrow> mat3" where
  "mat_mul a b = (case a of (r, s, t) \<Rightarrow> (row_times r b, row_times s b, row_times t b))"

definition working_to_2020 :: "mat3 \<Rightarrow> mat3" where
  "working_to_2020 to_xyz = mat_mul M_XYZ_TO_2020 to_xyz"

text \<open>\<open>v[i]\<close> of a JSON value.\<close>

definition json_at :: "json \<Rightarrow> nat \<Rightarrow> py_error + json" where
  "json_at v i = (case v of
       JList xs \<Rightarrow> if i < length xs then Inr (xs ! i) else Inl IndexError
     | JStr s \<Rightarrow> if i < length s then Inr (JStr [s ! i]) else Inl IndexError
     | JObj h \<Rightarrow> Inl KeyError | _ \<Rightarrow> Inl TypeError)"

definition mat_entry :: "(json \<Rightarrow> py_error + real) \<Rightarrow> json \<Rightarrow> nat \<times> nat \<Rightarrow> py_error + real" where
  "mat_entry py_float m ij = err_bind (json_at m (fst ij)) (\<lambda>row. err_bind (json_at row (snd ij)) py_float)"

fun entries_close :: "(json \<Rightarrow> py_error + real) \<Rightarrow> json \<Rightarrow> json \<Rightarrow> real \<Rightarrow> (nat \<times> nat) list \<Rightarrow> py_error + bool" where
  "entries_close py_float a b tol [] = Inr True"
| "entries_close py_float a b tol (ij # ijs) =
     err_bind (mat_entry py_float a ij) (\<lambda>x. err_bind (mat_entry py_float b ij) (\<lambda>y.
       if \<bar>x - y\<bar> \<le> tol then entries_close py_float a b tol ijs else Inr False))"

definition mat_index :: "(nat \<times> nat) list" where
  "mat_index = [(0, 0), (0, 1), (0, 2), (1, 0), (1, 1), (1, 2), (2, 0), (2, 1), (2, 2)]"

definition matrix_close :: "(json \<Rightarrow> py_error + real) \<Rightarrow> json \<Rightarrow> json \<Rightarrow> real \<Rightarrow> py_error + bool" where
  "matrix_close py_float a b tol = (case entries_close py_float a b tol mat_index of
     Inl e \<Rightarrow> if e = TypeError \<or> e = IndexError \<or> e = ValueError then Inr False else Inl e | Inr r \<Rightarrow> Inr r)"

subsection \<open>The block\<close>

definition empty_cm :: "string \<Rightarrow> string \<Rightarrow> header" where
  "empty_cm role blender =
    [(''v'', JInt CM_VERSION), (''blender'', JStr blender), (''role'', JStr role),
     (''config'', JObj [(''kind'', JStr ''unknown''), (''name'', JStr ''''), (''file'', JStr ''''),
                        (''cache_id'', JStr ''''), (''bundled'', JNull)]),
     (''ocio'', JObj [(''available'', JBool False), (''version'', JStr ''''), (''error'', JStr '''')]),
     (''working'', JObj [(''name'', JStr ''''), (''to_xyz'', JNull), (''linear'', JNull),
                         (''assumed'', JBool True), (''source'', JStr '''')]),
     (''display'', JObj [(''device'', JStr ''''), (''emulation'', JNull), (''colorspace'', JStr ''''),
                         (''encoding'', JStr ''''), (''in_config'', JNull), (''xy'', JNull), (''gamma_est'', JNull)]),
     (''view'', JObj [(''transform'', JStr ''''), (''look'', JStr ''''), (''exposure'', JFloat ''0.0''),
                      (''gamma'', JFloat ''1.0''), (''in_config'', JNull), (''look_in_config'', JNull),
                      (''is_hdr'', JNull), (''use_hdr_view'', JNull)]),
     (''wb'', JObj [(''on'', JBool False), (''temperature'', JNull), (''tint'', JNull)]),
     (''curves'', JObj [(''on'', JBool False)]),
     (''render'', JObj [(''engine'', JStr ''''), (''mapped_engine'', JNull), (''cycles'', JNull), (''eevee'', JNull)]),
     (''views_available'', JList []), (''looks_available'', JList []), (''digest'', JStr '''')]"

text \<open>\<open>json.dumps(..., sort_keys=True)\<close> orders the keys of every object.\<close>

fun sort_keys :: "json \<Rightarrow> json" where
  "sort_keys (JList xs) = JList (map sort_keys xs)"
| "sort_keys (JObj h) = JObj (sort_key fst (map (\<lambda>(k, v). (k, sort_keys v)) h))"
| "sort_keys v = v"

definition cm_digest :: "(byte list \<Rightarrow> string) \<Rightarrow> header \<Rightarrow> string" where
  "cm_digest sha1 cm = take 16 (sha1 (utf8_encode (dumps (sort_keys
     (JObj (filter (\<lambda>(k, v). k \<notin> set DIGEST_SKIP) cm))))))"

text \<open>\<open>fallback_cm\<close>: the scene's fields laid over the assumed working space; \<open>rows_709\<close> is
  \<open>matrix_rows(M_709_TO_XYZ)\<close> as JSON.\<close>

fun overlay_fields :: "(string \<times> json) list \<Rightarrow> header \<Rightarrow> header" where
  "overlay_fields [] cm = cm"
| "overlay_fields ((k, v) # kvs) cm = overlay_fields kvs (case (dget cm k, v) of
      (None, _) \<Rightarrow> cm
    | (Some (JObj old), JObj new) \<Rightarrow> dset k (JObj (fold (\<lambda>(j, w). dset j w) new old)) cm
    | (Some _, _) \<Rightarrow> dset k v cm)"

definition fallback_cm :: "(byte list \<Rightarrow> string) \<Rightarrow> json \<Rightarrow> string \<Rightarrow> string \<Rightarrow> (string \<times> json) list \<Rightarrow> string \<Rightarrow> header" where
  "fallback_cm sha1 rows_709 role blender scene_fields err =
     (let cm = dset ''ocio'' (JObj [(''available'', JBool False), (''version'', JStr ''''), (''error'', JStr err)])
                 (empty_cm role blender);
          cm1 = dset ''working'' (JObj [(''name'', JStr ''Linear Rec.709''), (''to_xyz'', rows_709),
                  (''linear'', JBool True), (''assumed'', JBool True), (''source'', JStr ''assumed'')]) cm;
          cm2 = overlay_fields scene_fields cm1
      in dset ''digest'' (JStr (cm_digest sha1 cm2)) cm2)"

definition config_kind :: "string list \<Rightarrow> bool \<Rightarrow> string list \<Rightarrow> string" where
  "config_kind colorspaces has_scene_linear views_on_srgb =
     (if ''Linear Rec.709'' \<in> set colorspaces \<and> has_scene_linear \<and> ''AgX'' \<in> set views_on_srgb
      then ''blender'' else ''other'')"

subsection \<open>What the two blocks say about each other\<close>

fun cm_walk :: "json \<Rightarrow> string list \<Rightarrow> json" where
  "cm_walk v [] = v"
| "cm_walk v (p # ps) = (case v of JObj h \<Rightarrow> cm_walk (get_or h p JNull) ps | _ \<Rightarrow> JNull)"

definition cm_get :: "json \<Rightarrow> string list \<Rightarrow> json \<Rightarrow> json" where
  "cm_get cm path d = (case cm_walk cm path of JNull \<Rightarrow> d | v \<Rightarrow> v)"

text \<open>\<open>v.get\<close> needs a dictionary; \<open>v or ""\<close>; \<open>x in v\<close>.\<close>

definition obj_of :: "json \<Rightarrow> py_error + header" where
  "obj_of v = (case v of JObj h \<Rightarrow> Inr h | _ \<Rightarrow> Inl AttributeError)"

definition or_empty :: "json \<Rightarrow> json" where
  "or_empty v = (if json_true v then v else JStr [])"

definition json_in :: "json \<Rightarrow> json \<Rightarrow> py_error + bool" where
  "json_in x v = (case v of
       JList xs \<Rightarrow> Inr (x \<in> set xs)
     | JObj h \<Rightarrow> if hashable x then Inr (\<exists>k \<in> set (dkeys h). x = JStr k) else Inl TypeError
     | JStr s \<Rightarrow> (case x of JStr t \<Rightarrow> Inr (sublist t s) | _ \<Rightarrow> Inl TypeError)
     | _ \<Rightarrow> Inl TypeError)"

text \<open>\<open>guard and x not in v\<close>\<close>

definition lacks :: "bool \<Rightarrow> json \<Rightarrow> json \<Rightarrow> py_error + bool" where
  "lacks guard x v = (if guard then err_bind (json_in x v) (\<lambda>b. Inr (\<not> b)) else Inr False)"

definition str_head :: "nat \<Rightarrow> json \<Rightarrow> py_error + json" where
  "str_head n v = (case v of JStr s \<Rightarrow> Inr (JStr (take n s)) | JList xs \<Rightarrow> Inr (JList (take n xs))
     | JObj h \<Rightarrow> Inl KeyError | _ \<Rightarrow> Inl TypeError)"

definition join_texts :: "string \<Rightarrow> json list \<Rightarrow> py_error + string" where
  "join_texts sep vs = (if \<forall>v \<in> set vs. (case v of JStr s \<Rightarrow> True | _ \<Rightarrow> False)
     then Inr (join_with sep (map (\<lambda>v. case v of JStr s \<Rightarrow> s | _ \<Rightarrow> []) vs)) else Inl TypeError)"

definition config_label :: "header \<Rightarrow> py_error + string" where
  "config_label c =
     (let name = get_true c ''name'' (get_true c ''file'' (JStr ''?''));
          kind = or_empty (get_or c ''kind'' JNull)
      in err_bind (str_head 8 (or_empty (get_or c ''cache_id'' JNull))) (\<lambda>cid.
           join_texts ''/'' ([name] @ (if json_true kind \<and> kind \<noteq> JStr ''unknown'' then [kind] else [])
             @ (if json_true cid then [cid] else []))))"

definition same_working :: "(json \<Rightarrow> py_error + real) \<Rightarrow> header \<Rightarrow> header \<Rightarrow> py_error + bool" where
  "same_working py_float hw rw =
     (if or_empty (get_or hw ''name'' JNull) \<noteq> or_empty (get_or rw ''name'' JNull) then Inr False
      else matrix_close py_float (get_or hw ''to_xyz'' JNull) (get_or rw ''to_xyz'' JNull) (1 / 1000))"

definition display_missing :: "header \<Rightarrow> json \<Rightarrow> py_error + bool" where
  "display_missing replica device =
     (if \<not> json_true device then Inr False
      else if cm_get (JObj replica) [''display'', ''in_config''] JNull = JBool False
           \<and> cm_get (JObj replica) [''display'', ''device''] JNull = device then Inr True
      else lacks (truthy replica ''display_devices'') device (get_or replica ''display_devices'' JNull))"

definition view_missing :: "header \<Rightarrow> json \<Rightarrow> py_error + bool" where
  "view_missing replica view =
     lacks (json_true view \<and> truthy replica ''views_available'') view (get_or replica ''views_available'' JNull)"

definition look_missing :: "header \<Rightarrow> json \<Rightarrow> py_error + bool" where
  "look_missing replica look =
     lacks (json_true look \<and> look \<noteq> JStr ''None'' \<and> truthy replica ''looks_available'') look
       (get_or replica ''looks_available'' JNull)"

definition config_rows :: "bool \<Rightarrow> header \<Rightarrow> header \<Rightarrow> py_error + cm_row list" where
  "config_rows agree hc rc =
     (if or_empty (get_or hc ''cache_id'' JNull) = or_empty (get_or rc ''cache_id'' JNull)
         \<and> or_empty (get_or hc ''name'' JNull) = or_empty (get_or rc ''name'' JNull) then Inr []
      else err_bind (config_label hc) (\<lambda>h. err_bind (config_label rc) (\<lambda>r.
        Inr [(if agree then Cm_Info else Cm_Warn, ''config'', [JStr h, JStr r])])))"

definition row_if :: "bool \<Rightarrow> cm_level \<Rightarrow> string \<Rightarrow> json list \<Rightarrow> cm_row list" where
  "row_if b lv key names = (if b then [(lv, key, names)] else [])"

definition engine_rows :: "json \<Rightarrow> json \<Rightarrow> cm_row list" where
  "engine_rows host replica =
     (let h = cm_get host [''render'', ''engine''] (JStr ''''); m = cm_get replica [''render'', ''mapped_engine''] JNull;
          r = cm_get replica [''render'', ''engine''] (JStr '''')
      in if h = JStr ''CYCLES'' \<and> json_true m \<and> m \<noteq> JStr ''QCB_CYCLES'' then [(Cm_Warn, ''engine'', [m])]
         else row_if (json_true h \<and> json_true r \<and> h \<noteq> r) Cm_Warn ''engine'' [r, h])"

definition cycles_rows :: "json \<Rightarrow> json \<Rightarrow> cm_row list" where
  "cycles_rows host replica =
     (case (cm_get host [''render'', ''cycles''] JNull, cm_get replica [''render'', ''cycles''] JNull) of
        (JObj h, JObj r) \<Rightarrow>
          let diffs = filter (\<lambda>k. get_or h k JNull \<noteq> get_or r k JNull)
                        [''device'', ''preview_samples'', ''use_preview_denoising'']
          in row_if (diffs \<noteq> []) Cm_Info ''cycles'' (map (\<lambda>k. get_or r k JNull) diffs)
      | _ \<Rightarrow> [])"

definition common_rows :: "json \<Rightarrow> json \<Rightarrow> cm_row list" where
  "common_rows host replica =
     row_if (json_true (cm_get host [''wb'', ''on''] JNull)) Cm_Warn ''wb'' []
     @ row_if (json_true (cm_get host [''curves'', ''on''] JNull)) Cm_Warn ''curves'' []
     @ row_if (json_true (cm_get host [''view'', ''is_hdr''] JNull)) Cm_Warn ''hdr'' []
     @ engine_rows host replica
     @ row_if (\<not> json_true (cm_get host [''ocio'', ''available''] (JBool False))) Cm_Warn ''ocio_host'' []
     @ row_if (\<not> json_true (cm_get replica [''ocio'', ''available''] (JBool False))) Cm_Warn ''ocio_replica'' []
     @ cycles_rows host replica"

definition pair_rows :: "(json \<Rightarrow> py_error + real) \<Rightarrow> header \<Rightarrow> header \<Rightarrow> py_error + cm_row list" where
  "pair_rows py_float host replica =
     err_bind (obj_of (get_or host ''working'' (JObj []))) (\<lambda>hw.
     err_bind (obj_of (get_or replica ''working'' (JObj []))) (\<lambda>rw.
     err_bind (same_working py_float hw rw) (\<lambda>same_ws.
       let device = cm_get (JObj host) [''display'', ''device''] (JStr '''');
           view = cm_get (JObj host) [''view'', ''transform''] (JStr '''');
           look = cm_get (JObj host) [''view'', ''look''] (JStr '''') in
     err_bind (display_missing replica device) (\<lambda>no_display.
     err_bind (view_missing replica view) (\<lambda>no_view.
     err_bind (look_missing replica look) (\<lambda>no_look.
     err_bind (obj_of (get_or host ''config'' (JObj []))) (\<lambda>hc.
     err_bind (obj_of (get_or replica ''config'' (JObj []))) (\<lambda>rc.
     err_bind (config_rows (same_ws \<and> \<not> (no_display \<or> no_view \<or> no_look)) hc rc) (\<lambda>config.
       Inr (config
         @ row_if (\<not> same_ws) Cm_Error ''working'' [get_true hw ''name'' (JStr ''?''), get_true rw ''name'' (JStr ''?'')]
         @ row_if no_display Cm_Error ''display'' [device]
         @ row_if no_view Cm_Error ''view'' [view, if json_true device then device else JStr ''?'']
         @ row_if no_look Cm_Warn ''look'' [look]
         @ common_rows (JObj host) (JObj replica)))))))))))"

definition mismatches :: "(json \<Rightarrow> py_error + real) \<Rightarrow> json \<Rightarrow> json \<Rightarrow> py_error + cm_row list" where
  "mismatches py_float host replica =
     (if \<not> json_true host then Inr []
      else if \<not> json_true replica then Inr [(Cm_Warn, ''peer_cm'', [])]
      else err_bind (obj_of host) (\<lambda>h. err_bind (obj_of replica) (pair_rows py_float h)))"

definition self_notes :: "json \<Rightarrow> cm_row list" where
  "self_notes cm =
     (if \<not> json_true cm then []
      else let device = cm_get cm [''display'', ''device''] (JStr '''');
               enc = or_empty (cm_get cm [''display'', ''encoding''] (JStr ''''));
               view = cm_get cm [''view'', ''transform''] (JStr '''')
        in row_if (json_true device \<and> device \<noteq> JStr ''sRGB''
                    \<and> json_true (cm_get cm [''display'', ''in_config''] (JBool True))
                    \<and> enc \<in> {JStr '''', JStr ''sdr-video'', JStr ''display-linear''}) Cm_Warn ''display_device'' [device]
           @ row_if (view \<in> {JStr ''False Color'', JStr ''Raw''}) Cm_Info ''view_kind'' [view])"

fun worst_of :: "cm_level list \<Rightarrow> cm_row list \<Rightarrow> cm_level option" where
  "worst_of [] rows = None"
| "worst_of (lv # lvs) rows = (if lv \<in> fst ` set rows then Some lv else worst_of lvs rows)"

definition worst_level :: "cm_row list \<Rightarrow> cm_level option" where
  "worst_level rows = worst_of LEVELS rows"

subsection \<open>The link\<close>

definition cm_flag :: "bool \<Rightarrow> json" where "cm_flag b = JStr (if b then ''1'' else ''0'')"

definition num_text :: "(json \<Rightarrow> py_error + real) \<Rightarrow> (real \<Rightarrow> string) \<Rightarrow> json \<Rightarrow> py_error + string" where
  "num_text py_float fmt v = err_bind (py_float v) (\<lambda>x. Inr (fmt x))"

fun map_err :: "('a \<Rightarrow> py_error + 'b) \<Rightarrow> 'a list \<Rightarrow> py_error + 'b list" where
  "map_err f [] = Inr []"
| "map_err f (x # xs) = err_bind (f x) (\<lambda>y. err_bind (map_err f xs) (\<lambda>ys. Inr (y # ys)))"

text \<open>\<open>",".join("%.5f" % float(v) for k in ("r", "g", "b", "w") for v in xy[k])\<close>, when all four are there.\<close>

definition xy_text :: "(json \<Rightarrow> py_error + real) \<Rightarrow> (real \<Rightarrow> string) \<Rightarrow> json \<Rightarrow> py_error + (string \<times> json) list" where
  "xy_text py_float f5 xy = (case xy of
     JObj h \<Rightarrow> if list_all (\<lambda>k. dget h k \<noteq> None) [''r'', ''g'', ''b'', ''w'']
       then err_bind (map_err (\<lambda>k. err_bind (as_list (get_or h k JNull)) (map_err (num_text py_float f5)))
                       [''r'', ''g'', ''b'', ''w''])
              (\<lambda>ts. Inr [(''display_xy'', JStr (join_with '','' (concat ts)))])
       else Inr []
   | _ \<Rightarrow> Inr [])"

text \<open>\<open>float(v or d)\<close>: the texts of the defaults are Python's.\<close>

definition float_or :: "json \<Rightarrow> string \<Rightarrow> json" where
  "float_or v d = (if json_true v then v else JFloat d)"

definition wire_name :: "(json \<Rightarrow> string) \<Rightarrow> header \<Rightarrow> py_error + string" where
  "wire_name py_repr fmt = err_bind (py_int (get_or fmt ''anchor_nits'' (JInt 100))) (\<lambda>nits.
     Inr (py_str py_repr (get_or fmt ''transfer'' (JStr ''pq'')) @ ''-''
        @ py_str py_repr (get_or fmt ''primaries'' (JStr ''bt2020'')) @ ''-'' @ int_text nits))"

definition config_text :: "(json \<Rightarrow> string) \<Rightarrow> header \<Rightarrow> string" where
  "config_text py_repr hc = py_str py_repr (get_true hc ''kind'' (JStr ''unknown'')) @ '':''
     @ py_str py_repr (or_empty (get_or hc ''name'' JNull)) @ '':'' @ py_str py_repr (or_empty (get_or hc ''cache_id'' JNull))"

record formats =
  fm_g4 :: "real \<Rightarrow> string"
  fm_g3 :: "real \<Rightarrow> string"
  fm_f5 :: "real \<Rightarrow> string"

definition link_fields :: "(json \<Rightarrow> string) \<Rightarrow> json \<Rightarrow> json \<Rightarrow> header \<Rightarrow> string \<Rightarrow> cm_row list \<Rightarrow> string \<Rightarrow> string
    \<Rightarrow> (string \<times> json) list" where
  "link_fields py_repr host replica hc wire rows exposure gamma =
     (let h = (\<lambda>a b. cm_get host [a, b] (JStr []));
          input = cm_get replica [''working'', ''name''] (JStr []); look = h ''view'' ''look''
      in [(''wire'', JStr wire),
          (''input'', if json_true input then input else h ''working'' ''name''),
          (''ws'', h ''working'' ''name''),
          (''ws_source'', JStr (py_str py_repr (or_empty (h ''working'' ''source'')))),
          (''ws_assumed'', cm_flag (json_true (cm_get host [''working'', ''assumed''] (JBool True))
                                    \<or> json_true (cm_get replica [''working'', ''assumed''] (JBool False)))),
          (''config'', JStr (config_text py_repr hc)),
          (''config_bundled'', cm_flag (truthy hc ''bundled'')),
          (''display'', h ''display'' ''device''),
          (''emulation'', JStr (lower (py_str py_repr (or_empty (h ''display'' ''emulation''))))),
          (''display_cs'', h ''display'' ''colorspace''),
          (''view'', h ''view'' ''transform''),
          (''look'', if json_true look then look else JStr ''None''),
          (''exposure'', JStr exposure), (''gamma'', JStr gamma),
          (''wb'', cm_flag (json_true (cm_get host [''wb'', ''on''] JNull))),
          (''curves'', cm_flag (json_true (cm_get host [''curves'', ''on''] JNull))),
          (''hdr'', cm_flag (json_true (cm_get host [''view'', ''is_hdr''] JNull))),
          (''engine'', h ''render'' ''engine''),
          (''cm_ok'', cm_flag (worst_level rows \<noteq> Some Cm_Error)),
          (''cm_n'', JStr (nat_text (length rows)))])"

definition gamma_text :: "(json \<Rightarrow> py_error + real) \<Rightarrow> (real \<Rightarrow> string) \<Rightarrow> json \<Rightarrow> py_error + (string \<times> json) list" where
  "gamma_text py_float g3 v = (if v = JNull then Inr []
     else err_bind (num_text py_float g3 v) (\<lambda>t. Inr [(''display_gamma'', JStr t)]))"

definition or_obj :: "json \<Rightarrow> json" where
  "or_obj v = (if json_true v then v else JObj [])"

definition deep_link_params :: "(json \<Rightarrow> string) \<Rightarrow> (json \<Rightarrow> py_error + real) \<Rightarrow> formats \<Rightarrow> json \<Rightarrow> json \<Rightarrow> json
    \<Rightarrow> py_error + (string \<times> json) list" where
  "deep_link_params py_repr py_float fmts host0 replica0 fmt0 =
     (let host = or_obj host0; replica = or_obj replica0 in
      err_bind (mismatches py_float host replica) (\<lambda>rows.
      err_bind (err_bind (obj_of (or_obj fmt0)) (wire_name py_repr)) (\<lambda>wire.
      err_bind (err_bind (obj_of host) (\<lambda>d. obj_of (get_or d ''config'' (JObj [])))) (\<lambda>hc.
      err_bind (num_text py_float (fm_g4 fmts) (float_or (cm_get host [''view'', ''exposure''] JNull) ''0.0'')) (\<lambda>exposure.
      err_bind (num_text py_float (fm_g4 fmts) (float_or (cm_get host [''view'', ''gamma''] JNull) ''1.0'')) (\<lambda>gamma.
      err_bind (xy_text py_float (fm_f5 fmts) (cm_get host [''display'', ''xy''] JNull)) (\<lambda>xy.
      err_bind (gamma_text py_float (fm_g3 fmts) (cm_get host [''display'', ''gamma_est''] JNull)) (\<lambda>est.
        Inr (link_fields py_repr host replica hc wire rows exposure gamma @ xy @ est)))))))))"

subsection \<open>What a block must be for the comparison to succeed\<close>

definition text_field :: "header \<Rightarrow> string \<Rightarrow> bool" where
  "text_field c k \<longleftrightarrow> (case get_or c k JNull of JStr s \<Rightarrow> True | v \<Rightarrow> \<not> json_true v)"

definition list_field :: "header \<Rightarrow> string \<Rightarrow> bool" where
  "list_field c k \<longleftrightarrow> (case get_or c k JNull of JList xs \<Rightarrow> True | v \<Rightarrow> \<not> json_true v)"

definition matrix_field :: "json \<Rightarrow> bool" where
  "matrix_field m \<longleftrightarrow> (case m of JList rows \<Rightarrow> list_all (\<lambda>r. case r of JObj h \<Rightarrow> False | _ \<Rightarrow> True) rows
     | JObj h \<Rightarrow> False | JStr s \<Rightarrow> False | _ \<Rightarrow> True)"

definition cm_block :: "json \<Rightarrow> bool" where
  "cm_block cm \<longleftrightarrow> (case cm of
     JObj h \<Rightarrow> h \<noteq> [] \<and> list_all (list_field h) [''views_available'', ''looks_available'', ''display_devices'']
       \<and> (case get_or h ''working'' (JObj []) of JObj w \<Rightarrow> matrix_field (get_or w ''to_xyz'' JNull) | _ \<Rightarrow> False)
       \<and> (case get_or h ''config'' (JObj []) of
            JObj c \<Rightarrow> list_all (text_field c) [''name'', ''file'', ''kind'', ''cache_id''] | _ \<Rightarrow> False)
   | _ \<Rightarrow> False)"

text \<open>\<open>py_float\<close> raises nothing but the two errors \<open>matrix_close\<close> expects (an int too big for a float
  would be another one).\<close>

definition float_tame :: "(json \<Rightarrow> py_error + real) \<Rightarrow> bool" where
  "float_tame py_float \<longleftrightarrow> (\<forall>v. case py_float v of Inl e \<Rightarrow> e \<in> {TypeError, ValueError} | Inr x \<Rightarrow> True)"

definition shape_error :: "py_error \<Rightarrow> bool" where
  "shape_error e \<longleftrightarrow> e \<in> {TypeError, IndexError, ValueError}"

lemma mat_entry_error:
  assumes "float_tame py_float" "matrix_field m"
  shows "case mat_entry py_float m ij of Inl e \<Rightarrow> shape_error e | Inr x \<Rightarrow> True"
proof -
  have row: "case json_at m i of Inl e \<Rightarrow> shape_error e | Inr r \<Rightarrow> (\<forall>h. r \<noteq> JObj h)" for i
    using assms(2) by (auto simp: matrix_field_def json_at_def shape_error_def list_all_length split: json.splits)
  have at: "\<forall>h. r \<noteq> JObj h \<Longrightarrow> case json_at r j of Inl e \<Rightarrow> shape_error e | Inr v \<Rightarrow> True" for r j
    by (auto simp: json_at_def shape_error_def split: json.splits)
  have fl: "case py_float v of Inl e \<Rightarrow> shape_error e | Inr x \<Rightarrow> True" for v
    using assms(1) unfolding float_tame_def shape_error_def by (auto split: sum.splits dest: spec [of _ v])
  show ?thesis
    using row [of "fst ij"] at fl
    by (fastforce simp: mat_entry_def err_bind_def split: sum.splits)
qed

lemma matrix_close_total:
  assumes "float_tame py_float" "matrix_field a" "matrix_field b"
  shows "\<exists>r. matrix_close py_float a b tol = Inr r"
proof -
  have "case entries_close py_float a b tol ijs of Inl e \<Rightarrow> shape_error e | Inr r \<Rightarrow> True" for ijs
  proof (induction ijs)
    case (Cons ij ijs)
    then show ?case
      using mat_entry_error [OF assms(1,2), of ij] mat_entry_error [OF assms(1,3), of ij]
      by (auto simp: err_bind_def split: sum.splits)
  qed simp
  from this [of mat_index] show ?thesis
    by (auto simp: matrix_close_def shape_error_def split: sum.splits)
qed

lemma lacks_list: "list_field h k \<Longrightarrow> \<exists>b. lacks (g \<and> truthy h k) x (get_or h k JNull) = Inr b"
  by (auto simp: lacks_def list_field_def json_in_def truthy_def get_or_def split: json.splits option.splits)

lemma display_missing_total: "list_field h ''display_devices'' \<Longrightarrow> \<exists>b. display_missing h device = Inr b"
  using lacks_list [of h _ True] by (auto simp: display_missing_def)

lemma config_label_total:
  assumes "list_all (text_field c) [''name'', ''file'', ''kind'', ''cache_id'']"
  shows "\<exists>t. config_label c = Inr t"
proof -
  have v: "\<exists>s. or_empty (get_or c k JNull) = JStr s" if "text_field c k" for k
    using that by (auto simp: text_field_def or_empty_def split: json.splits)
  have n: "\<exists>s. get_true c k (JStr d) = JStr s" if "text_field c k" for k d
    using that by (auto simp: text_field_def get_true_def truthy_def get_or_def split: json.splits option.splits if_splits)
  have f: "\<exists>s. get_true c k x = JStr s" if "text_field c k" "x = JStr d" for k d x using n that by auto
  show ?thesis
    using assms n [of "''file''" "''?''"] v [of "''kind''"] v [of "''cache_id''"] f [of "''name''" "get_true c ''file'' (JStr ''?'')"]
    by (auto simp: config_label_def Let_def str_head_def join_texts_def)
qed

definition cm_part :: "string \<Rightarrow> json \<Rightarrow> header" where
  "cm_part k cm = (case cm of JObj h \<Rightarrow> (case get_or h k (JObj []) of JObj s \<Rightarrow> s | _ \<Rightarrow> []) | _ \<Rightarrow> [])"

definition cm_fields :: "json \<Rightarrow> header" where
  "cm_fields cm = (case cm of JObj h \<Rightarrow> h | _ \<Rightarrow> [])"

lemma cm_blockE:
  assumes "cm_block cm"
  obtains h where "cm = JObj h" "h \<noteq> []" "obj_of (get_or h ''working'' (JObj [])) = Inr (cm_part ''working'' cm)"
    "matrix_field (get_or (cm_part ''working'' cm) ''to_xyz'' JNull)"
    "obj_of (get_or h ''config'' (JObj [])) = Inr (cm_part ''config'' cm)"
    "list_all (text_field (cm_part ''config'' cm)) [''name'', ''file'', ''kind'', ''cache_id'']"
    "list_field h ''views_available''" "list_field h ''looks_available''" "list_field h ''display_devices''"
  using assms by (auto simp: cm_block_def cm_part_def obj_of_def split: json.splits)

lemma config_rows_total:
  assumes "list_all (text_field hc) [''name'', ''file'', ''kind'', ''cache_id'']"
    "list_all (text_field rc) [''name'', ''file'', ''kind'', ''cache_id'']"
  obtains rows where "config_rows b hc rc = Inr rows" "set (map (fst \<circ> snd) rows) \<subseteq> {''config''}"
    "distinct (map (fst \<circ> snd) rows)" "Cm_Error \<notin> fst ` set rows"
proof -
  obtain h r where "config_label hc = Inr h" "config_label rc = Inr r"
    using assms config_label_total by blast
  then have "config_rows b hc rc = Inr []
      \<or> config_rows b hc rc = Inr [(if b then Cm_Info else Cm_Warn, ''config'', [JStr h, JStr r])]"
    by (simp add: config_rows_def)
  then show ?thesis by (elim disjE) (rule that, assumption, simp_all)+
qed

lemma row_if_facts [simp]:
  "map (fst \<circ> snd) (row_if b lv k ns) = (if b then [k] else [])" "fst ` set (row_if b lv k ns) = (if b then {lv} else {})"
  by (simp_all add: row_if_def)

lemma engine_rows_facts:
  "map (fst \<circ> snd) (engine_rows h r) \<in> {[], [''engine'']}" "Cm_Error \<notin> fst ` set (engine_rows h r)"
  by (auto simp: engine_rows_def row_if_def Let_def)

lemma cycles_rows_facts:
  "map (fst \<circ> snd) (cycles_rows h r) \<in> {[], [''cycles'']}" "Cm_Error \<notin> fst ` set (cycles_rows h r)"
  by (auto simp: cycles_rows_def row_if_def Let_def split: json.splits)

definition common_keys :: "json \<Rightarrow> json \<Rightarrow> string list" where
  "common_keys h r = map (fst \<circ> snd) (common_rows h r)"

lemma common_rows_facts:
  "distinct (common_keys h r)" "Cm_Error \<notin> fst ` set (common_rows h r)"
  "set (common_keys h r) \<inter> {''config'', ''working'', ''display'', ''view'', ''look''} = {}"
proof -
  define e c where "e = map (fst \<circ> snd) (engine_rows h r)" and "c = map (fst \<circ> snd) (cycles_rows h r)"
  have ec: "e = [] \<or> e = [''engine'']" "c = [] \<or> c = [''cycles'']"
    using engine_rows_facts(1) [of h r] cycles_rows_facts(1) [of h r] unfolding e_def c_def by simp_all
  have k: "\<exists>b1 b2 b3 b4 b5. common_keys h r = (if b1 then [''wb''] else []) @ (if b2 then [''curves''] else [])
      @ (if b3 then [''hdr''] else []) @ e @ (if b4 then [''ocio_host''] else []) @ (if b5 then [''ocio_replica''] else []) @ c"
    unfolding common_keys_def common_rows_def map_append row_if_facts e_def c_def by blast
  from k ec show "distinct (common_keys h r)" by (elim exE disjE) (simp_all only: distinct_append, auto)
  from k ec show "set (common_keys h r) \<inter> {''config'', ''working'', ''display'', ''view'', ''look''} = {}"
    by (elim exE disjE) auto
  show "Cm_Error \<notin> fst ` set (common_rows h r)"
    using engine_rows_facts(2) [of h r] cycles_rows_facts(2) [of h r]
    unfolding common_rows_def set_append image_Un row_if_facts by simp
qed



end
