(* ===== verification/Stream_Params.thy ===== *)
theory Stream_Params
  imports Colour_State
begin

unbundle bit_operations_syntax

text \<open>
  \<open>ring1/stream_params.py\<close>: the encoder's knobs, the helper's command line and the stream's
  description in the hello. \<open>show7g\<close> prints a number as \<open>"%.7g"\<close>, \<open>num\<close> is a float as JSON.
\<close>

definition DEFAULT_BITRATE_MBPS :: int where "DEFAULT_BITRATE_MBPS = 50"
definition DEFAULT_WIDTH :: int where "DEFAULT_WIDTH = 2560"
definition DEFAULT_FPS :: int where "DEFAULT_FPS = 30"

definition WIRE_FORMAT :: header where
  "WIRE_FORMAT = [(''codec'', JStr ''hevc''), (''profile'', JStr ''main10''), (''chroma'', JStr ''420''),
     (''transfer'', JStr ''pq''), (''primaries'', JStr ''bt2020''), (''matrix'', JStr ''bt2020nc''),
     (''range'', JStr ''limited''), (''anchor_nits'', JFloat ''100.0''), (''source'', JStr ''linear'')]"

record stream_params =
  sp_bitrate_mbps :: int
  sp_width :: int
  sp_fps :: int
  sp_working_space :: json
  sp_working_to_xyz :: "real list list option"
  sp_matrix :: "mat3 option"
  sp_working_assumed :: bool

text \<open>\<open>int(getattr(prefs, name, default))\<close> clamped; a value that is no number gives the default.\<close>

definition int_knob :: "json option \<Rightarrow> int \<Rightarrow> int \<Rightarrow> int \<Rightarrow> py_error + int" where
  "int_knob v d lo hi = (case py_int (case v of None \<Rightarrow> JInt d | Some x \<Rightarrow> x) of
       Inr n \<Rightarrow> Inr (max lo (min hi n))
     | Inl e \<Rightarrow> if e = TypeError \<or> e = ValueError then Inr d else Inl e)"

definition from_prefs :: "(string \<Rightarrow> json option) \<Rightarrow> py_error + stream_params" where
  "from_prefs pref =
     err_bind (int_knob (pref ''stream_width'') DEFAULT_WIDTH 640 7680) (\<lambda>width.
     err_bind (int_knob (pref ''stream_bitrate_mbps'') DEFAULT_BITRATE_MBPS 5 400) (\<lambda>bitrate.
     err_bind (int_knob (pref ''stream_fps'') DEFAULT_FPS 5 120) (\<lambda>fps.
       Inr \<lparr>sp_bitrate_mbps = bitrate, sp_width = width AND (NOT 1), sp_fps = fps, sp_working_space = JStr [],
            sp_working_to_xyz = None, sp_matrix = None, sp_working_assumed = False\<rparr>)))"

definition mat3_rows :: "mat3 \<Rightarrow> real list list" where
  "mat3_rows m = (case m of ((a, b, c), (d, e, f), (g, h, i)) \<Rightarrow> [[a, b, c], [d, e, f], [g, h, i]])"

text \<open>The nine entries \<open>mat_mul\<close> reads.\<close>

definition mat3_of :: "real list list \<Rightarrow> py_error + mat3" where
  "mat3_of rows =
     (if length rows < 3 \<or> (\<exists>r \<in> set (take 3 rows). length r < 3) then Inl IndexError
      else let row = (\<lambda>i. (rows ! i ! 0, rows ! i ! 1, rows ! i ! 2)) in Inr (row 0, row 1, row 2))"

definition with_working :: "(json \<Rightarrow> py_error + real) \<Rightarrow> json \<Rightarrow> stream_params \<Rightarrow> py_error + stream_params" where
  "with_working py_float working0 p =
     err_bind (obj_of (or_obj working0)) (\<lambda>working.
       if \<not> truthy working ''to_xyz''
       then Inr (p\<lparr>sp_working_space := get_true working ''name'' (JStr ''Linear Rec.709''),
                   sp_working_to_xyz := Some (mat3_rows M_709_TO_XYZ), sp_matrix := Some M_709_TO_2020,
                   sp_working_assumed := True\<rparr>)
       else err_bind (as_list (get_or working ''to_xyz'' JNull)) (\<lambda>rows.
            err_bind (map_err (\<lambda>r. err_bind (as_list r) (map_err py_float)) rows) (\<lambda>xyz.
            err_bind (mat3_of xyz) (\<lambda>m.
              Inr (p\<lparr>sp_working_space := or_empty (get_or working ''name'' JNull), sp_working_to_xyz := Some xyz,
                     sp_matrix := Some (working_to_2020 m), sp_working_assumed := truthy working ''assumed''\<rparr>)))))"

definition helper_argv :: "(real \<Rightarrow> string) \<Rightarrow> string \<Rightarrow> string \<Rightarrow> stream_params \<Rightarrow> string list" where
  "helper_argv show7g helper ring_name p =
     [helper, ''--shm'', ring_name, ''--fps'', int_text (sp_fps p), ''--bitrate'', int_text (sp_bitrate_mbps p),
      ''--gop'', int_text (sp_fps p)]
     @ (case sp_matrix p of None \<Rightarrow> [] | Some m \<Rightarrow> [''--matrix'', matrix_arg show7g m])"

definition rows_json :: "(real \<Rightarrow> json) \<Rightarrow> real list list \<Rightarrow> json" where
  "rows_json num rows = JList (map (\<lambda>r. JList (map num r)) rows)"

definition stream_descriptor :: "(real \<Rightarrow> json) \<Rightarrow> stream_params \<Rightarrow> header" where
  "stream_descriptor num p =
     [(''format'', JObj (WIRE_FORMAT @ (case sp_matrix p of None \<Rightarrow> []
        | Some m \<Rightarrow> [(''working'', JObj [(''name'', sp_working_space p),
             (''to_xyz'', rows_json num (case sp_working_to_xyz p of None \<Rightarrow> [] | Some r \<Rightarrow> r)),
             (''to_bt2020'', rows_json num (mat3_rows m)), (''assumed'', JBool (sp_working_assumed p))])]))),
      (''width'', JInt (sp_width p)), (''fps'', JInt (sp_fps p)), (''bitrate_mbps'', JInt (sp_bitrate_mbps p))]"

lemma int_knob_range: "lo \<le> d \<Longrightarrow> d \<le> hi \<Longrightarrow> int_knob v d lo hi = Inr n \<Longrightarrow> lo \<le> n \<and> n \<le> hi"
  by (auto simp: int_knob_def split: sum.splits if_splits)


lemma even_width: "(n::int) AND - 2 = 2 * (n div 2)"
  using unset_bit_eq_and_not [of 0 n] by (simp add: unset_bit_0)

lemma py_int_error: "py_int v = Inl e \<Longrightarrow> e \<in> {TypeError, ValueError, OverflowError}"
  by (auto simp: py_int_def split: json.splits option.splits if_splits)

lemma int_knob_error: "int_knob v d lo hi = Inl e \<Longrightarrow> e = OverflowError"
  by (auto simp: int_knob_def split: sum.splits if_splits dest: py_int_error)

text \<open>Whatever the preferences hold, the encoder is asked for an even width from 640 to 7680, 5 to 400
  megabits and 5 to 120 frames a second, with one key frame a second; only an infinite number makes it raise.\<close>

theorem stream_knobs_in_bounds:
  "case from_prefs pref of
     Inl e \<Rightarrow> e = OverflowError
   | Inr p \<Rightarrow> even (sp_width p) \<and> 640 \<le> sp_width p \<and> sp_width p \<le> 7680
       \<and> 5 \<le> sp_bitrate_mbps p \<and> sp_bitrate_mbps p \<le> 400 \<and> 5 \<le> sp_fps p \<and> sp_fps p \<le> 120
       \<and> (helper_argv show7g helper ring p) ! 4 = (helper_argv show7g helper ring p) ! 8"
proof (cases "from_prefs pref")
  case (Inl e)
  then show ?thesis
    by (auto simp: from_prefs_def err_bind_def split: sum.splits dest: int_knob_error)
next
  case (Inr p)
  then obtain w b f where k: "int_knob (pref ''stream_width'') DEFAULT_WIDTH 640 7680 = Inr w"
    "int_knob (pref ''stream_bitrate_mbps'') DEFAULT_BITRATE_MBPS 5 400 = Inr b"
    "int_knob (pref ''stream_fps'') DEFAULT_FPS 5 120 = Inr f"
    and p: "sp_width p = 2 * (w div 2)" "sp_bitrate_mbps p = b" "sp_fps p = f"
    by (auto simp: from_prefs_def err_bind_def even_width split: sum.splits)
  have "640 \<le> w \<and> w \<le> 7680" "5 \<le> b \<and> b \<le> 400" "5 \<le> f \<and> f \<le> 120"
    using k by (auto dest!: int_knob_range [rotated 2] simp: DEFAULT_WIDTH_def DEFAULT_BITRATE_MBPS_def DEFAULT_FPS_def)
  then show ?thesis using Inr p by (auto simp: helper_argv_def)
qed

end
