(* ===== verification/State_Exc.thy ===== *)
theory State_Exc
  imports Prelude
begin

text \<open>
  Methods that change an object and may raise: a computation takes the state to a result or an
  exception and the state reached. An exception keeps what was done before it, as in Python.
\<close>

type_synonym ('a, 's) sx = "'s \<Rightarrow> (py_error + 'a) \<times> 's"

definition sx_return :: "'a \<Rightarrow> ('a, 's) sx" where
  "sx_return x s = (Inr x, s)"

definition sx_raise :: "py_error \<Rightarrow> ('a, 's) sx" where
  "sx_raise e s = (Inl e, s)"

definition sx_bind :: "('a, 's) sx \<Rightarrow> ('a \<Rightarrow> ('b, 's) sx) \<Rightarrow> ('b, 's) sx" where
  "sx_bind m f s = (case m s of (Inl e, s') \<Rightarrow> (Inl e, s') | (Inr x, s') \<Rightarrow> f x s')"

definition sx_seq :: "('a, 's) sx \<Rightarrow> ('b, 's) sx \<Rightarrow> ('b, 's) sx" where
  "sx_seq m n = sx_bind m (\<lambda>_. n)"

definition sx_mod :: "('s \<Rightarrow> 's) \<Rightarrow> (unit, 's) sx" where
  "sx_mod f s = (Inr (), f s)"

text \<open>A computation chosen by the state it starts from.\<close>

definition sx_read :: "('s \<Rightarrow> ('a, 's) sx) \<Rightarrow> ('a, 's) sx" where
  "sx_read f s = f s s"

definition sx_lift :: "py_error + 'a \<Rightarrow> ('a, 's) sx" where
  "sx_lift r s = (r, s)"

text \<open>\<open>try: m; except e where P e: h\<close>\<close>

definition sx_try :: "(py_error \<Rightarrow> bool) \<Rightarrow> ('a, 's) sx \<Rightarrow> (py_error \<Rightarrow> ('a, 's) sx) \<Rightarrow> ('a, 's) sx" where
  "sx_try P m h s = (case m s of (Inl e, s') \<Rightarrow> if P e then h e s' else (Inl e, s') | (Inr x, s') \<Rightarrow> (Inr x, s'))"

definition sx_when :: "bool \<Rightarrow> (unit, 's) sx \<Rightarrow> (unit, 's) sx" where
  "sx_when b m = (if b then m else sx_return ())"

primrec sx_each :: "('a \<Rightarrow> (unit, 's) sx) \<Rightarrow> 'a list \<Rightarrow> (unit, 's) sx" where
  "sx_each f [] = sx_return ()"
| "sx_each f (x # xs) = sx_seq (f x) (sx_each f xs)"

primrec sx_do :: "(unit, 's) sx list \<Rightarrow> (unit, 's) sx" where
  "sx_do [] = sx_return ()"
| "sx_do (m # ms) = sx_seq m (sx_do ms)"

text \<open>\<open>try: m; finally: f\<close>, where \<open>f\<close> only changes the state.\<close>

definition sx_finally :: "('a, 's) sx \<Rightarrow> ('s \<Rightarrow> 's) \<Rightarrow> ('a, 's) sx" where
  "sx_finally m f s = (case m s of (r, s') \<Rightarrow> (r, f s'))"

text \<open>\<open>try: m; finally: n\<close>, where \<open>n\<close> may raise: then its exception is the one that leaves.\<close>

definition sx_ensure :: "('a, 's) sx \<Rightarrow> (unit, 's) sx \<Rightarrow> ('a, 's) sx" where
  "sx_ensure m n s = (case m s of (r, s') \<Rightarrow> (case n s' of (Inl e, s2) \<Rightarrow> (Inl e, s2) | (Inr _, s2) \<Rightarrow> (r, s2)))"

lemmas sx_defs = sx_return_def sx_raise_def sx_bind_def sx_seq_def sx_mod_def sx_read_def sx_lift_def
  sx_try_def sx_when_def

subsection \<open>What a computation keeps\<close>

text \<open>
  \<open>sx_keeps P m\<close>: from a state where \<open>P\<close> holds, \<open>m\<close> reaches one where it holds unless it raises;
  \<open>sx_always P m\<close>: even then. \<open>sx_steps R m\<close>: the states before and after are related by \<open>R\<close>.
  The rules follow the constructors, so a component proof only looks at its primitive steps.
\<close>

named_theorems keeps_intros \<open>rules for sx_keeps\<close>
named_theorems always_intros \<open>rules for sx_always\<close>

definition sx_keeps :: "('s \<Rightarrow> bool) \<Rightarrow> ('a, 's) sx \<Rightarrow> bool" where
  "sx_keeps P m \<longleftrightarrow> (\<forall>s. P s \<longrightarrow> (case m s of (Inl e, s') \<Rightarrow> True | (Inr x, s') \<Rightarrow> P s'))"

definition sx_always :: "('s \<Rightarrow> bool) \<Rightarrow> ('a, 's) sx \<Rightarrow> bool" where
  "sx_always P m \<longleftrightarrow> (\<forall>s. P s \<longrightarrow> P (snd (m s)))"

definition sx_steps :: "('s \<Rightarrow> 's \<Rightarrow> bool) \<Rightarrow> ('a, 's) sx \<Rightarrow> bool" where
  "sx_steps R m \<longleftrightarrow> (\<forall>s. R s (snd (m s)))"

lemma sx_keepsD: "sx_keeps P m \<Longrightarrow> P s \<Longrightarrow> m s = (Inr x, s') \<Longrightarrow> P s'"
  by (force simp: sx_keeps_def)

lemma sx_keepsI: "(\<And>s x s'. P s \<Longrightarrow> m s = (Inr x, s') \<Longrightarrow> P s') \<Longrightarrow> sx_keeps P m"
  by (auto simp: sx_keeps_def split: prod.splits sum.splits)

lemma sx_keeps_return [keeps_intros, intro]: "sx_keeps P (sx_return x)"
  by (simp add: sx_keeps_def sx_return_def)

lemma sx_keeps_raise [keeps_intros, intro]: "sx_keeps P (sx_raise e)"
  by (simp add: sx_keeps_def sx_raise_def)

lemma sx_keeps_lift [keeps_intros, intro]: "sx_keeps P (sx_lift r)"
  by (auto simp: sx_keeps_def sx_lift_def split: sum.splits)

lemma sx_keeps_mod: "(\<And>s. P s \<Longrightarrow> P (f s)) \<Longrightarrow> sx_keeps P (sx_mod f)"
  by (simp add: sx_keeps_def sx_mod_def)

lemma sx_keeps_bind [keeps_intros]: "sx_keeps P m \<Longrightarrow> (\<And>x. sx_keeps P (f x)) \<Longrightarrow> sx_keeps P (sx_bind m f)"
  by (fastforce simp: sx_keeps_def sx_bind_def split: prod.splits sum.splits)

lemma sx_keeps_seq [keeps_intros]: "sx_keeps P m \<Longrightarrow> sx_keeps P n \<Longrightarrow> sx_keeps P (sx_seq m n)"
  by (simp add: sx_seq_def sx_keeps_bind)

lemma sx_keeps_read [keeps_intros]: "(\<And>s. sx_keeps P (f s)) \<Longrightarrow> sx_keeps P (sx_read f)"
  by (simp add: sx_keeps_def sx_read_def)

lemma sx_keeps_when [keeps_intros]: "sx_keeps P m \<Longrightarrow> sx_keeps P (sx_when b m)"
  by (simp add: sx_when_def sx_keeps_return)

lemma sx_keeps_if [keeps_intros]: "sx_keeps P m \<Longrightarrow> sx_keeps P n \<Longrightarrow> sx_keeps P (if b then m else n)"
  by simp

lemma sx_keeps_each [keeps_intros]: "(\<And>x. sx_keeps P (f x)) \<Longrightarrow> sx_keeps P (sx_each f xs)"
  by (induction xs) (auto intro: keeps_intros)

lemma sx_keeps_do_Nil [keeps_intros]: "sx_keeps P (sx_do [])"
  by (simp add: sx_keeps_return)

lemma sx_keeps_do_Cons [keeps_intros]: "sx_keeps P m \<Longrightarrow> sx_keeps P (sx_do ms) \<Longrightarrow> sx_keeps P (sx_do (m # ms))"
  by (simp add: sx_keeps_seq)

lemma sx_keeps_option [keeps_intros]:
  "sx_keeps P m \<Longrightarrow> (\<And>x. sx_keeps P (f x)) \<Longrightarrow> sx_keeps P (case v of None \<Rightarrow> m | Some x \<Rightarrow> f x)"
  by (cases v) auto

lemma sx_keeps_sum [keeps_intros]:
  "(\<And>e. sx_keeps P (f e)) \<Longrightarrow> (\<And>x. sx_keeps P (g x)) \<Longrightarrow> sx_keeps P (case r of Inl e \<Rightarrow> f e | Inr x \<Rightarrow> g x)"
  by (cases r) auto

lemma sx_keeps_prod [keeps_intros]: "(\<And>a b. sx_keeps P (f a b)) \<Longrightarrow> sx_keeps P (case v of (a, b) \<Rightarrow> f a b)"
  by (cases v) auto

lemma sx_keeps_list [keeps_intros]:
  "sx_keeps P m \<Longrightarrow> (\<And>x xs. sx_keeps P (f x xs)) \<Longrightarrow> sx_keeps P (case v of [] \<Rightarrow> m | x # xs \<Rightarrow> f x xs)"
  by (cases v) auto

lemma sx_steps_return: "reflp R \<Longrightarrow> sx_steps R (sx_return x)"
  by (simp add: sx_steps_def sx_return_def reflpD)

lemma sx_steps_raise: "reflp R \<Longrightarrow> sx_steps R (sx_raise e)"
  by (simp add: sx_steps_def sx_raise_def reflpD)

lemma sx_steps_lift: "reflp R \<Longrightarrow> sx_steps R (sx_lift r)"
  by (simp add: sx_steps_def sx_lift_def reflpD)

lemma sx_steps_mod: "(\<And>s. R s (f s)) \<Longrightarrow> sx_steps R (sx_mod f)"
  by (simp add: sx_steps_def sx_mod_def)

lemma sx_steps_bind: "transp R \<Longrightarrow> sx_steps R m \<Longrightarrow> (\<And>x. sx_steps R (f x)) \<Longrightarrow> sx_steps R (sx_bind m f)"
  unfolding sx_steps_def sx_bind_def
  by (auto split: prod.splits sum.splits) (metis snd_conv transpD)+

lemma sx_steps_seq: "transp R \<Longrightarrow> sx_steps R m \<Longrightarrow> sx_steps R n \<Longrightarrow> sx_steps R (sx_seq m n)"
  by (simp add: sx_seq_def sx_steps_bind)

lemma sx_steps_read: "(\<And>s. sx_steps R (f s)) \<Longrightarrow> sx_steps R (sx_read f)"
  by (simp add: sx_steps_def sx_read_def)

lemma sx_steps_when: "reflp R \<Longrightarrow> sx_steps R m \<Longrightarrow> sx_steps R (sx_when b m)"
  by (simp add: sx_when_def sx_steps_return)

lemma sx_steps_each: "reflp R \<Longrightarrow> transp R \<Longrightarrow> (\<And>x. sx_steps R (f x)) \<Longrightarrow> sx_steps R (sx_each f xs)"
  by (induction xs) (auto intro: sx_steps_return sx_steps_seq)

lemma sx_keeps_finally [keeps_intros]:
  "sx_keeps P m \<Longrightarrow> (\<And>s. P s \<Longrightarrow> P (f s)) \<Longrightarrow> sx_keeps P (sx_finally m f)"
  by (fastforce simp: sx_keeps_def sx_finally_def split: prod.splits sum.splits)

text \<open>The weakest precondition of one run that does not raise.\<close>

definition sx_ok :: "('a \<Rightarrow> 's \<Rightarrow> bool) \<Rightarrow> ('a, 's) sx \<Rightarrow> 's \<Rightarrow> bool" where
  "sx_ok Q m s = (case m s of (Inl e, s') \<Rightarrow> True | (Inr x, s') \<Rightarrow> Q x s')"

lemma sx_ok_return [simp]: "sx_ok Q (sx_return x) = Q x"
  by (simp add: fun_eq_iff sx_ok_def sx_return_def)

lemma sx_ok_raise [simp]: "sx_ok Q (sx_raise e) = (\<lambda>_. True)"
  by (simp add: fun_eq_iff sx_ok_def sx_raise_def)

lemma sx_ok_bind [simp]: "sx_ok Q (sx_bind m f) = sx_ok (\<lambda>x. sx_ok Q (f x)) m"
  by (simp add: fun_eq_iff sx_ok_def sx_bind_def split: prod.splits sum.splits)

lemma sx_ok_mod [simp]: "sx_ok Q (sx_mod g) = (\<lambda>s. Q () (g s))"
  by (simp add: fun_eq_iff sx_ok_def sx_mod_def)

lemma sx_ok_read [simp]: "sx_ok Q (sx_read h) = (\<lambda>s. sx_ok Q (h s) s)"
  by (simp add: fun_eq_iff sx_ok_def sx_read_def)

lemma sx_ok_seq [simp]: "sx_ok Q (sx_seq m n) = sx_ok (\<lambda>_. sx_ok Q n) m"
  by (simp add: sx_seq_def)

lemma sx_ok_when [simp]: "sx_ok Q (sx_when b m) = (if b then sx_ok Q m else Q ())"
  by (simp add: sx_when_def)

lemma sx_ok_lift [simp]: "sx_ok Q (sx_lift r) = (\<lambda>s. case r of Inl e \<Rightarrow> True | Inr x \<Rightarrow> Q x s)"
  by (cases r) (simp_all add: fun_eq_iff sx_ok_def sx_lift_def)

lemma sx_ok_mono: "sx_ok P m s \<Longrightarrow> (\<And>x s'. P x s' \<Longrightarrow> Q x s') \<Longrightarrow> sx_ok Q m s"
  by (auto simp: sx_ok_def split: prod.splits sum.splits)

lemma sx_ok_conj: "sx_ok P m s \<Longrightarrow> sx_ok Q m s \<Longrightarrow> sx_ok (\<lambda>x s. P x s \<and> Q x s) m s"
  by (auto simp: sx_ok_def split: prod.splits sum.splits)

lemma sx_keeps_iff: "sx_keeps P m \<longleftrightarrow> (\<forall>s. P s \<longrightarrow> sx_ok (\<lambda>_. P) m s)"
  by (simp add: sx_keeps_def sx_ok_def)

lemma sx_keeps_okD: "sx_keeps P m \<Longrightarrow> P s \<Longrightarrow> sx_ok (\<lambda>_. P) m s"
  by (simp add: sx_keeps_iff)

lemma sx_keeps_read_ok: "(\<And>s. P s \<Longrightarrow> sx_ok (\<lambda>_. P) (f s) s) \<Longrightarrow> sx_keeps P (sx_read f)"
  by (simp add: sx_keeps_iff)

text \<open>What holds of every run's end, whatever came before its last part.\<close>

definition sx_post :: "('a \<Rightarrow> 's \<Rightarrow> bool) \<Rightarrow> ('a, 's) sx \<Rightarrow> bool" where
  "sx_post Q m \<longleftrightarrow> (\<forall>s. sx_ok Q m s)"

lemma sx_post_bind: "(\<And>x. sx_post Q (f x)) \<Longrightarrow> sx_post Q (sx_bind m f)"
  by (auto simp: sx_post_def) (simp add: sx_ok_def split: prod.split sum.split)

lemma sx_post_seq: "sx_post Q n \<Longrightarrow> sx_post Q (sx_seq m n)"
  by (simp add: sx_seq_def sx_post_bind)

lemma sx_post_read: "(\<And>s. sx_post Q (f s)) \<Longrightarrow> sx_post Q (sx_read f)"
  by (simp add: sx_post_def)

lemma sx_post_if: "sx_post Q m \<Longrightarrow> sx_post Q n \<Longrightarrow> sx_post Q (if b then m else n)"
  by simp

lemma sx_post_option:
  "sx_post Q m \<Longrightarrow> (\<And>x. sx_post Q (f x)) \<Longrightarrow> sx_post Q (case v of None \<Rightarrow> m | Some x \<Rightarrow> f x)"
  by (cases v) auto

lemma sx_post_return: "(\<And>s. Q x s) \<Longrightarrow> sx_post Q (sx_return x)"
  by (simp add: sx_post_def)

lemmas post_intros = sx_post_bind sx_post_seq sx_post_read sx_post_if sx_post_option

text \<open>\<open>try: x = ...; except ReferenceError: ...\<close> around a read that does not change the state.\<close>

definition sx_unless_dead :: "py_error + 'a \<Rightarrow> ('b, 's) sx \<Rightarrow> ('a \<Rightarrow> ('b, 's) sx) \<Rightarrow> ('b, 's) sx" where
  "sx_unless_dead r dead f =
     (case r of Inl e \<Rightarrow> if e = ReferenceError then dead else sx_raise e | Inr x \<Rightarrow> f x)"

lemma sx_keeps_unless_dead [keeps_intros]:
  "sx_keeps P dead \<Longrightarrow> (\<And>x. sx_keeps P (f x)) \<Longrightarrow> sx_keeps P (sx_unless_dead r dead f)"
  by (cases r) (auto simp: sx_unless_dead_def sx_keeps_raise)

subsection \<open>What even a run that raises keeps\<close>

lemma sx_alwaysD: "sx_always P m \<Longrightarrow> P s \<Longrightarrow> P (snd (m s))"
  by (simp add: sx_always_def)

lemma sx_always_return [always_intros]: "sx_always P (sx_return x)"
  by (simp add: sx_always_def sx_return_def)

lemma sx_always_raise [always_intros]: "sx_always P (sx_raise e)"
  by (simp add: sx_always_def sx_raise_def)

lemma sx_always_lift [always_intros]: "sx_always P (sx_lift r)"
  by (simp add: sx_always_def sx_lift_def)

lemma sx_always_mod: "(\<And>s. P s \<Longrightarrow> P (f s)) \<Longrightarrow> sx_always P (sx_mod f)"
  by (simp add: sx_always_def sx_mod_def)

lemma sx_always_bind [always_intros]: "sx_always P m \<Longrightarrow> (\<And>x. sx_always P (f x)) \<Longrightarrow> sx_always P (sx_bind m f)"
  by (fastforce simp: sx_always_def sx_bind_def split: prod.split sum.split)

lemma sx_always_seq [always_intros]: "sx_always P m \<Longrightarrow> sx_always P n \<Longrightarrow> sx_always P (sx_seq m n)"
  by (simp add: sx_seq_def sx_always_bind)

lemma sx_always_read [always_intros]: "(\<And>s. sx_always P (f s)) \<Longrightarrow> sx_always P (sx_read f)"
  by (simp add: sx_always_def sx_read_def)

lemma sx_always_when [always_intros]: "sx_always P m \<Longrightarrow> sx_always P (sx_when b m)"
  by (simp add: sx_when_def sx_always_return)

lemma sx_always_if [always_intros]: "sx_always P m \<Longrightarrow> sx_always P n \<Longrightarrow> sx_always P (if b then m else n)"
  by simp

lemma sx_always_each [always_intros]: "(\<And>x. sx_always P (f x)) \<Longrightarrow> sx_always P (sx_each f xs)"
  by (induction xs) (auto intro: always_intros)

lemma sx_always_do_Nil [always_intros]: "sx_always P (sx_do [])"
  by (simp add: sx_always_return)

lemma sx_always_do_Cons [always_intros]: "sx_always P m \<Longrightarrow> sx_always P (sx_do ms) \<Longrightarrow> sx_always P (sx_do (m # ms))"
  by (simp add: sx_always_seq)

lemma sx_always_option [always_intros]:
  "sx_always P m \<Longrightarrow> (\<And>x. sx_always P (f x)) \<Longrightarrow> sx_always P (case v of None \<Rightarrow> m | Some x \<Rightarrow> f x)"
  by (cases v) auto

lemma sx_always_sum [always_intros]:
  "(\<And>e. sx_always P (f e)) \<Longrightarrow> (\<And>x. sx_always P (g x)) \<Longrightarrow> sx_always P (case r of Inl e \<Rightarrow> f e | Inr x \<Rightarrow> g x)"
  by (cases r) auto

lemma sx_always_prod [always_intros]: "(\<And>a b. sx_always P (f a b)) \<Longrightarrow> sx_always P (case v of (a, b) \<Rightarrow> f a b)"
  by (cases v) auto

lemma sx_always_list [always_intros]:
  "sx_always P m \<Longrightarrow> (\<And>x xs. sx_always P (f x xs)) \<Longrightarrow> sx_always P (case v of [] \<Rightarrow> m | x # xs \<Rightarrow> f x xs)"
  by (cases v) auto

lemma sx_always_try [always_intros]:
  "sx_always P m \<Longrightarrow> (\<And>e. sx_always P (h e)) \<Longrightarrow> sx_always P (sx_try Q m h)"
  unfolding sx_always_def sx_try_def by (auto split: prod.split sum.split)

lemma sx_always_ensure [always_intros]: "sx_always P m \<Longrightarrow> sx_always P n \<Longrightarrow> sx_always P (sx_ensure m n)"
  unfolding sx_always_def sx_ensure_def by (auto split: prod.split sum.split)

end
