(* ===== verification/Identity.thy ===== *)
theory Identity
  imports Registry
begin

text \<open>
  \<open>ring0/identity.py\<close>: the uuid stamped on a datablock as a custom property. A datablock is its
  session uid; \<open>stamps\<close> is the property on each of them, which Blender copies with a duplicate and
  takes back with an undo. \<open>mint\<close> gives the fresh uuids (\<open>uuid4().hex\<close>).
\<close>

type_synonym db_ref = int

record stamp_world =
  sw_stamps :: "(db_ref, uuid) dict"
  sw_registry :: registry
  sw_minted :: nat

definition UUID_PROP :: string where
  "UUID_PROP = ''qcbridge_uuid''"

definition is_stampable :: "'lib option \<Rightarrow> bool \<Rightarrow> bool" where
  "is_stampable library is_embedded \<longleftrightarrow> library = None \<and> \<not> is_embedded"

definition read_uuid :: "db_ref \<Rightarrow> stamp_world \<Rightarrow> uuid option" where
  "read_uuid d w = (case dget (sw_stamps w) d of Some u \<Rightarrow> if u = [] then None else Some u | None \<Rightarrow> None)"

definition mint_uuid :: "(nat \<Rightarrow> uuid) \<Rightarrow> db_ref \<Rightarrow> stamp_world \<Rightarrow> uuid \<times> stamp_world" where
  "mint_uuid mint d w =
     (let fresh = mint (sw_minted w); (_, r) = rg_claim fresh d (sw_registry w)
      in (fresh, w\<lparr>sw_stamps := dset d fresh (sw_stamps w), sw_registry := r, sw_minted := sw_minted w + 1\<rparr>))"

definition ensure_uuid :: "(nat \<Rightarrow> uuid) \<Rightarrow> db_ref \<Rightarrow> stamp_world \<Rightarrow> uuid \<times> stamp_world" where
  "ensure_uuid mint d w =
     (case read_uuid d w of
        Some stamped \<Rightarrow>
          let (verdict, r) = rg_claim stamped d (sw_registry w)
          in if verdict = ''ok'' then (stamped, w\<lparr>sw_registry := r\<rparr>) else mint_uuid mint d (w\<lparr>sw_registry := r\<rparr>)
      | None \<Rightarrow>
          (case rg_uuid_for d (sw_registry w) of
             Some existing \<Rightarrow>
               if existing \<noteq> [] then (existing, w\<lparr>sw_stamps := dset d existing (sw_stamps w)\<rparr>)
               else mint_uuid mint d w
           | None \<Rightarrow> mint_uuid mint d w))"

text \<open>A fresh uuid is not empty, not registered and not on any datablock.\<close>

definition mint_ok :: "(nat \<Rightarrow> uuid) \<Rightarrow> stamp_world \<Rightarrow> bool" where
  "mint_ok mint w \<longleftrightarrow> inj mint \<and> (\<forall>n. mint n \<noteq> []) \<and> (\<forall>n \<ge> sw_minted w.
     dget (rg_suid (sw_registry w)) (mint n) = None \<and> (\<forall>d. dget (sw_stamps w) d \<noteq> Some (mint n)))"

lemma rg_claim_result:
  assumes "rg_ok r"
  shows "case rg_claim u s r of (v, r') \<Rightarrow> rg_ok r'
    \<and> (v = ''ok'' \<longrightarrow> dget (rg_suid r') u = Some s \<and> dget (rg_uuid r') s = Some u)
    \<and> (v \<noteq> ''ok'' \<longrightarrow> r' = r)
    \<and> (\<forall>v. v \<noteq> u \<longrightarrow> dget (rg_suid r') v \<noteq> None \<longrightarrow> dget (rg_suid r) v \<noteq> None)"
proof (cases "dget (rg_suid r) u")
  case None
  have ok: "rg_ok (rg_register u s r)" by (rule rg_ok_register(1) [OF assms None])
  have m: "dget (rg_suid (rg_register u s r)) v
      = (if v = u then Some s else if dget (rg_uuid r) s = Some v then None else dget (rg_suid r) v)" for v
    by (auto simp: rg_register_def Let_def split: option.splits)
  have "dget (rg_uuid (rg_register u s r)) s = Some u"
    using rg_okD [OF ok, of u s] m by simp
  then show ?thesis using None ok m by (auto simp: rg_claim_def)
next
  case (Some holder)
  then show ?thesis using assms rg_okD [OF assms, of u s] by (auto simp: rg_claim_def)
qed

definition sw_ok :: "(nat \<Rightarrow> uuid) \<Rightarrow> stamp_world \<Rightarrow> bool" where
  "sw_ok mint w \<longleftrightarrow> rg_ok (sw_registry w) \<and> mint_ok mint w \<and> (\<forall>s. dget (rg_uuid (sw_registry w)) s \<noteq> Some [])"

definition names_it :: "db_ref \<Rightarrow> uuid \<Rightarrow> stamp_world \<Rightarrow> bool" where
  "names_it d u w \<longleftrightarrow> u \<noteq> [] \<and> dget (sw_stamps w) d = Some u
     \<and> rg_uuid_for d (sw_registry w) = Some u \<and> rg_session_uid_for u (sw_registry w) = Some d"

lemma mint_uuid_spec:
  assumes "rg_ok (sw_registry w)" "mint_ok mint w" "\<forall>s. dget (rg_uuid (sw_registry w)) s \<noteq> Some []"
  shows "case mint_uuid mint d w of (u, w') \<Rightarrow> sw_ok mint w' \<and> names_it d u w' \<and> u = mint (sw_minted w)"
proof -
  let ?f = "mint (sw_minted w)"
  have none: "dget (rg_suid (sw_registry w)) ?f = None" and ne: "?f \<noteq> []"
    using assms(2) by (auto simp: mint_ok_def)
  obtain r where c: "rg_claim ?f d (sw_registry w) = (''ok'', r)" using none by (simp add: rg_claim_def)
  have r: "rg_ok r" "dget (rg_suid r) ?f = Some d" "dget (rg_uuid r) d = Some ?f"
    "\<And>v. v \<noteq> ?f \<Longrightarrow> dget (rg_suid r) v \<noteq> None \<Longrightarrow> dget (rg_suid (sw_registry w)) v \<noteq> None"
    using rg_claim_result [OF assms(1), of ?f d] c by auto
  have empty: "dget (rg_uuid r) s \<noteq> Some []" for s
  proof
    assume "dget (rg_uuid r) s = Some []"
    then have "dget (rg_suid r) [] \<noteq> None" using rg_okD [OF r(1), of "[]" s] by simp
    then have "dget (rg_suid (sw_registry w)) [] \<noteq> None" using r(4) ne by metis
    then show False using rg_okD [OF assms(1)] assms(3) by (metis not_None_eq)
  qed
  have "dget (rg_suid r) (mint n) = None \<and> mint n \<noteq> ?f" if "Suc (sw_minted w) \<le> n" for n
  proof -
    have "mint n \<noteq> ?f" using assms(2) that by (auto simp: mint_ok_def dest: injD)
    then show ?thesis using r(4) [of "mint n"] assms(2) that by (cases "dget (rg_suid r) (mint n)") (auto simp: mint_ok_def)
  qed
  then show ?thesis
    using r c ne empty assms(2)
    by (auto simp: mint_uuid_def Let_def sw_ok_def names_it_def mint_ok_def rg_uuid_for_def rg_session_uid_for_def
        Suc_le_eq)
qed

text \<open>Asking for a datablock's uuid leaves it stamped and registered under exactly that uuid, and
  the registry a bijection: a copied stamp is replaced by a fresh one while the original keeps its
  own, and a stamp an undo took back is restored as it was, not minted again.\<close>

theorem ensure_uuid_names:
  assumes "sw_ok mint w"
  shows "(case ensure_uuid mint d w of (u, w') \<Rightarrow> sw_ok mint w' \<and> names_it d u w'
      \<and> ensure_uuid mint d w' = (u, w')
      \<and> (case read_uuid d w of
           None \<Rightarrow> (case rg_uuid_for d (sw_registry w) of Some v \<Rightarrow> u = v | None \<Rightarrow> u = mint (sw_minted w))
         | Some v \<Rightarrow> if rg_session_uid_for v (sw_registry w) \<in> {None, Some d} then u = v
                    else u = mint (sw_minted w)))"
proof -
  have ok: "rg_ok (sw_registry w)" "mint_ok mint w" "\<forall>s. dget (rg_uuid (sw_registry w)) s \<noteq> Some []"
    using assms by (simp_all add: sw_ok_def)
  have again: "ensure_uuid mint d w' = (u, w')" if "names_it d u w'" for u w'
    using that by (simp add: names_it_def ensure_uuid_def read_uuid_def rg_claim_def rg_session_uid_for_def)
  have fresh: "case mint_uuid mint d w of (u, w') \<Rightarrow> sw_ok mint w' \<and> names_it d u w' \<and> u = mint (sw_minted w)"
    by (rule mint_uuid_spec [OF ok])
  show ?thesis
  proof (cases "read_uuid d w")
    case None
    show ?thesis
    proof (cases "rg_uuid_for d (sw_registry w)")
      case reg: (Some v)
      then have v: "v \<noteq> []" "dget (rg_uuid (sw_registry w)) d = Some v" using ok(3) by (auto simp: rg_uuid_for_def)
      let ?w = "w\<lparr>sw_stamps := dset d v (sw_stamps w)\<rparr>"
      have e: "ensure_uuid mint d w = (v, ?w)" using None reg v by (simp add: ensure_uuid_def)
      have "names_it d v ?w" using v rg_okD [OF ok(1), of v d] by (simp add: names_it_def rg_uuid_for_def rg_session_uid_for_def)
      moreover have "mint n \<noteq> v" if "sw_minted w \<le> n" for n
        using ok(2) that rg_okD [OF ok(1), of v d] v(2) by (auto simp: mint_ok_def)
      then have "sw_ok mint ?w" using assms by (auto simp: sw_ok_def mint_ok_def)
      ultimately show ?thesis using e again None reg by simp
    next
      case none: None
      then have "ensure_uuid mint d w = mint_uuid mint d w" using None by (simp add: ensure_uuid_def)
      then show ?thesis using fresh again None none by auto
    qed
  next
    case (Some v)
    then have v: "v \<noteq> []" "dget (sw_stamps w) d = Some v" by (auto simp: read_uuid_def split: option.splits if_splits)
    obtain verdict r where c: "rg_claim v d (sw_registry w) = (verdict, r)" by (cases "rg_claim v d (sw_registry w)")
    have k: "rg_ok r" "verdict = ''ok'' \<longrightarrow> dget (rg_suid r) v = Some d \<and> dget (rg_uuid r) d = Some v"
      "verdict \<noteq> ''ok'' \<longrightarrow> r = sw_registry w"
      "\<And>u. u \<noteq> v \<Longrightarrow> dget (rg_suid r) u \<noteq> None \<Longrightarrow> dget (rg_suid (sw_registry w)) u \<noteq> None"
      using rg_claim_result [OF ok(1), of v d] c by auto
    have vd: "verdict = ''ok'' \<longleftrightarrow> rg_session_uid_for v (sw_registry w) \<in> {None, Some d}"
      using c by (auto simp: rg_claim_def rg_session_uid_for_def split: option.splits if_splits)
    show ?thesis
    proof (cases "verdict = ''ok''")
      case True
      let ?w = "w\<lparr>sw_registry := r\<rparr>"
      have e: "ensure_uuid mint d w = (v, ?w)" using Some c True by (simp add: ensure_uuid_def)
      have n: "names_it d v ?w" using k(2) True v by (simp add: names_it_def rg_uuid_for_def rg_session_uid_for_def)
      have "dget (rg_uuid r) s \<noteq> Some []" for s
      proof
        assume "dget (rg_uuid r) s = Some []"
        then have "dget (rg_suid r) [] \<noteq> None" using rg_okD [OF k(1), of "[]" s] by simp
        then have "dget (rg_suid (sw_registry w)) [] \<noteq> None" using k(4) v(1) by metis
        then show False using rg_okD [OF ok(1)] ok(3) by (metis not_None_eq)
      qed
      moreover have "dget (rg_suid r) (mint n) = None" if "sw_minted w \<le> n" for n
      proof -
        have "mint n \<noteq> v" using ok(2) that v(2) by (auto simp: mint_ok_def)
        then show ?thesis using k(4) [of "mint n"] ok(2) that
          by (cases "dget (rg_suid r) (mint n)") (auto simp: mint_ok_def)
      qed
      ultimately have "sw_ok mint ?w" using k(1) ok(2) by (simp add: sw_ok_def mint_ok_def)
      then show ?thesis using e n again [OF n] Some vd True by simp
    next
      case False
      then have "ensure_uuid mint d w = mint_uuid mint d w"
        using Some c k(3) by (simp add: ensure_uuid_def)
      then show ?thesis using fresh again Some vd False by auto
    qed
  qed
qed

theorem ensure_uuid_names_witness:
  "let w = \<lparr>sw_stamps = [(7, ''a''), (8, ''a'')], sw_registry = rg_init, sw_minted = 0\<rparr>;
       mint = (\<lambda>n. replicate (n + 2) (CHR ''x''));
       (u, w1) = ensure_uuid mint 7 w; (v, w2) = ensure_uuid mint 8 w1
   in u = ''a'' \<and> v = ''xx'' \<and> names_it 8 v w2 \<and> names_it 7 u w2"
proof -
  define w where "w = \<lparr>sw_stamps = [(7, ''a''), (8, ''a'')], sw_registry = rg_init, sw_minted = 0\<rparr>"
  define mint where "mint = (\<lambda>n::nat. replicate (n + 2) (CHR ''x''))"
  have inj: "inj mint" by (auto simp: mint_def inj_on_def dest: arg_cong [of _ _ length])
  have "sw_ok mint w" using inj by (auto simp: sw_ok_def w_def rg_ok_init mint_ok_def mint_def)
    (auto simp: rg_init_def)
  note 1 = ensure_uuid_names [OF this, of 7]
  obtain u w1 where e: "ensure_uuid mint 7 w = (u, w1)" by (cases "ensure_uuid mint 7 w")
  have u: "u = ''a''" "sw_ok mint w1" "names_it 7 u w1"
    using 1 e by (auto simp: w_def read_uuid_def rg_session_uid_for_def rg_init_def)
  have w1: "w1 = w\<lparr>sw_registry := \<lparr>rg_suid = [(''a'', 7)], rg_uuid = [(7, ''a'')]\<rparr>\<rparr>"
    using e u(1) by (auto simp add: w_def ensure_uuid_def read_uuid_def rg_claim_def rg_register_def rg_init_def)
  obtain v w2 where e2: "ensure_uuid mint 8 w1 = (v, w2)" by (cases "ensure_uuid mint 8 w1")
  have v: "v = ''xx''" "names_it 8 v w2"
    using ensure_uuid_names [OF u(2), of 8] e2
    by (auto simp: w1 w_def read_uuid_def rg_session_uid_for_def mint_def numeral_2_eq_2)
  have "names_it 7 u w2"
    using e2 u(1) by (auto simp: Let_def w1 w_def ensure_uuid_def mint_uuid_def read_uuid_def rg_claim_def rg_register_def
        names_it_def rg_uuid_for_def rg_session_uid_for_def mint_def)
  then show ?thesis unfolding w_def [symmetric] mint_def [symmetric] Let_def using e e2 u v by simp
qed

end
