(* ===== verification/Host_State.thy ===== *)
theory Host_State
  imports State_Exc Identity Fast_Log Resync Shadow Visview Merge
begin

text \<open>
  The state of \<open>HostSync\<close> (\<open>ring0/host_handlers.py\<close>) and what its methods read from
  outside. A datablock is its session uid; \<open>host_env\<close> holds everything Blender, the file system
  and the hash functions answer during one operation on the main thread (the clock is read once per
  operation), \<open>transport\<close> the operations of the transport, whose own state is \<open>hy_wire\<close>. The
  trace marks of \<open>timeline\<close> and the debug prints leave no state and are left out.
\<close>

subsection \<open>What the host reads\<close>

type_synonym blob_chunks = "(header \<times> byte list) list"

record depsgraph_update =
  du_id :: db_ref
  du_geometry :: bool
  du_shading :: bool
  du_transform :: bool

text \<open>The 3D view: the objects in its local view, whether it has local collections, the hidden ones.\<close>

record view_sample =
  vw_local :: "db_ref list option"
  vw_local_colls :: bool
  vw_hidden :: "db_ref list"

record host_env =
  he_now :: time
  he_paused :: bool
  he_mint :: "nat \<Rightarrow> uuid"
  he_alive :: "db_ref \<Rightarrow> bool"
  he_kept :: "db_ref \<Rightarrow> bool"
  he_type_key :: "db_ref \<Rightarrow> string option"
  he_syncable :: "db_ref \<Rightarrow> bool"
  he_stampable :: "db_ref \<Rightarrow> bool"
  he_shading_pinged :: "db_ref \<Rightarrow> bool"
  he_bake_nodes :: "db_ref \<Rightarrow> bool"
  he_name :: "db_ref \<Rightarrow> string"
  he_coll :: "db_ref \<Rightarrow> string option"
  he_snapshot :: "db_ref \<Rightarrow> py_error + json snapshot"
  he_serialize :: "bool \<Rightarrow> db_ref \<Rightarrow> py_error + byte list option"
  he_pcache :: "db_ref \<Rightarrow> json"
  he_owner :: "db_ref \<Rightarrow> db_ref option"
  he_lookup :: "string \<Rightarrow> json \<Rightarrow> db_ref option"
  he_scene :: "db_ref option"
  he_data :: "string \<Rightarrow> db_ref list"

record host_files = host_env +
  he_mainfile :: "bool \<Rightarrow> py_error + byte list"
  he_filename :: string
  he_project_dir :: string
  he_libs :: "(string \<times> string list \<times> string list) list"
  he_lib_size :: "string \<Rightarrow> int"
  he_lib_read :: "string \<Rightarrow> string + byte list"
  he_basename :: "string \<Rightarrow> string"
  he_blake2b :: "byte list \<Rightarrow> string"
  he_md5 :: "byte list \<Rightarrow> string"
  he_sha1 :: "byte list \<Rightarrow> string"
  he_object_vector :: "db_ref \<Rightarrow> json"
  he_layer :: "db_ref \<Rightarrow> (bool \<times> bool) option"
  he_hide :: "db_ref \<Rightarrow> bool \<times> bool"
  he_idprops :: "db_ref \<Rightarrow> string"
  he_view :: "view_sample option"

text \<open>The transport: \<open>None\<close> where an older one has no such operation.\<close>

record 't transport =
  tp_send_cold :: "header \<Rightarrow> byte list \<Rightarrow> 't \<Rightarrow> (py_error + bool) \<times> 't"
  tp_send_fast :: "header \<Rightarrow> byte list \<Rightarrow> 't \<Rightarrow> (py_error + bool) \<times> 't"
  tp_request_nowait :: "(header \<Rightarrow> 't \<Rightarrow> (py_error + int) \<times> 't) option"
  tp_poll_reply :: "int \<Rightarrow> 't \<Rightarrow> header option \<times> 't"
  tp_cancel_request :: "int \<Rightarrow> 't \<Rightarrow> 't"
  tp_hot_keyed :: "(byte list \<Rightarrow> byte list \<Rightarrow> 't \<Rightarrow> (py_error + unit) \<times> 't) option"
  tp_wire_compresses :: bool

definition FLUSH_TICK :: time where "FLUSH_TICK = 25 / 1000"
definition SWEEP_INTERVAL :: time where "SWEEP_INTERVAL = 25 / 100"
definition AUTO_BOOT_DEBOUNCE :: time where "AUTO_BOOT_DEBOUNCE = 1"
definition AUTO_BOOT_COVERED_S :: time where "AUTO_BOOT_COVERED_S = 10"
definition AUTO_BOOT_MIN_INTERVAL :: time where "AUTO_BOOT_MIN_INTERVAL = 5"
definition T2_PER_TICK :: nat where "T2_PER_TICK = 2"
definition FAST_RESEND_PER_TICK :: nat where "FAST_RESEND_PER_TICK = 16"
definition MANIFEST_BATCH :: nat where "MANIFEST_BATCH = 512"
definition DELTA_PER_TICK :: nat where "DELTA_PER_TICK = T2_PER_TICK * 4"
definition MANIFEST_REQ_TIMEOUT :: time where "MANIFEST_REQ_TIMEOUT = 5"
definition LIB_FILE_MAX :: int where "LIB_FILE_MAX = 64 * 1024 * 1024"
definition FASTLOG_CAPACITY :: nat where "FASTLOG_CAPACITY = 4096"

definition SWEPT_COLLECTIONS :: "string list" where
  "SWEPT_COLLECTIONS =
    [''objects'', ''lights'', ''cameras'', ''materials'', ''worlds'', ''scenes'', ''meshes'',
     ''curves'', ''images'', ''node_groups'', ''collections'', ''actions'', ''shape_keys'',
     ''lattices'', ''armatures'', ''metaballs'', ''volumes'', ''hair_curves'',
     ''pointclouds'', ''lightprobes'', ''grease_pencils'', ''textures'', ''particles'',
     ''cache_files'']"

definition SWEPT_T1_TYPES :: "string list" where
  "SWEPT_T1_TYPES = [''scenes'', ''materials'', ''worlds'', ''lights'', ''cameras'']"

definition POINTER_SETTERS :: "(string, string) dict" where
  "POINTER_SETTERS =
    [(''@scene_world'', ''worlds''), (''@scene_camera'', ''objects''),
     (''@instance_collection'', ''collections''), (''@dof_focus_object'', ''objects''),
     (''@ll_receiver'', ''collections''), (''@ll_blocker'', ''collections'')]"

definition SCENE_STRUCT_KEYS :: "string list" where
  "SCENE_STRUCT_KEYS = [''~scene_struct'', ''@master_members'', ''~anim'', ''~idprop_groups'']"

subsection \<open>The state\<close>

record 't host_lanes =
  hy_wire :: 't
  hy_seq :: int
  hy_seq_fast :: int
  hy_uuid_cold_seq :: "(uuid, int) dict"
  hy_boot_last_seq :: int
  hy_link_seq :: int
  hy_boot_outbox :: blob_chunks
  hy_lib_outbox :: blob_chunks
  hy_t2_outbox :: "(uuid, blob_chunks) dict"
  hy_stamps :: stamp_world
  hy_shadow :: "json shadow_store"
  hy_debounce :: debouncer
  hy_dirty :: dirty_set
  hy_fastlog :: fast_log
  hy_db :: "(uuid, db_ref) dict"
  hy_shipped :: "uuid set"
  hy_blob_hash :: "(uuid, string) dict"
  hy_scene_digest :: string

record 't host_queues = "'t host_lanes" +
  hy_fast_resend_queue :: "(uuid \<times> string) list"
  hy_fast_resend_end :: bool
  hy_manifest_pending :: "(uuid, string) dict"
  hy_manifest_reqs :: "(int \<times> time) list"
  hy_manifest :: "header option"
  hy_manifest_req :: "int option"
  hy_manifest_req_at :: time
  hy_delta_queue :: "(uuid \<times> json) list"
  hy_delta_tail :: "uuid list"
  hy_delta_end_pending :: bool
  hy_boot_gen :: int
  hy_burst :: bool
  hy_prime_queue :: "uuid list"
  hy_lib_state :: "(string, string list \<times> string list) dict"
  hy_libs_served :: "(string, string) dict"
  hy_suppress_marks :: bool
  hy_in_handler :: bool
  hy_drop_next_batch :: bool

record 't host_sync = "'t host_queues" +
  hy_boot_queued_at :: time
  hy_boot_sent_at :: time
  hy_auto_boot_at :: time
  hy_last_auto_boot :: "time option"
  hy_last_sweep :: time
  hy_vis_state :: "(uuid, json) dict"
  hy_vis_sig :: "vis_sig option"
  hy_vis_sent_at :: time
  hy_bake_note :: string
  hy_libs_shipped :: nat
  hy_sent_boot :: nat
  hy_fast_resyncs :: nat
  hy_delta_resyncs :: nat
  hy_delta_t2 :: nat
  hy_manifests_sent :: nat
  hy_sent_t1 :: nat
  hy_sent_t2 :: nat
  hy_t2_unsupported :: nat
  hy_t2_skipped :: nat
  hy_primed :: nat
  hy_links_sent :: nat
  hy_auto_boots :: nat
  hy_sync_errors :: nat
  hy_last_sync_error :: "py_error option"
  hy_last_bootstrap_bytes :: nat

end
