(* ===== verification/Host_Send.thy ===== *)
theory Host_Send
  imports Host_State
begin

text \<open>
  How \<open>HostSync\<close> puts messages on the two lanes: the sequence numbers, the tier-1 deltas and
  tombstones on the fast lane, the chunks of a tier-2 blob on the cold lane, and what a refusal leaves
  behind. A chunk that is refused keeps no number: the next attempt writes its own into the header.
\<close>

definition sx_void :: "('a, 's) sx \<Rightarrow> (unit, 's) sx" where
  "sx_void m = sx_bind m (\<lambda>_. sx_return ())"

lemma sx_keeps_void [keeps_intros]: "sx_keeps P m \<Longrightarrow> sx_keeps P (sx_void m)"
  by (simp add: sx_void_def sx_keeps_bind sx_keeps_return)

text \<open>\<open>json.dumps\<close> with its default separators.\<close>

fun join_comma_sp :: "string list \<Rightarrow> string" where
  "join_comma_sp [] = []"
| "join_comma_sp [x] = x"
| "join_comma_sp (x # xs) = x @ '', '' @ join_comma_sp xs"

fun dumps_sp :: "json \<Rightarrow> string" where
  "dumps_sp JNull = ''null''"
| "dumps_sp (JBool b) = (if b then ''true'' else ''false'')"
| "dumps_sp (JInt i) = int_text i"
| "dumps_sp (JFloat t) = t"
| "dumps_sp (JStr s) = str_text s"
| "dumps_sp (JList xs) = CHR ''['' # join_comma_sp (map dumps_sp xs) @ '']''"
| "dumps_sp (JObj kvs) = CHR ''{'' # join_comma_sp (map (\<lambda>(k, v). str_text k @ '': '' @ dumps_sp v) kvs) @ ''}''"

subsection \<open>Small pieces\<close>

abbreviation is_a :: "'z host_env_scheme \<Rightarrow> db_ref \<Rightarrow> string \<Rightarrow> bool" where
  "is_a env d key \<equiv> he_type_key env d = Some key"

definition hy_tp_cold :: "'t transport \<Rightarrow> header \<Rightarrow> byte list \<Rightarrow> (bool, 't host_sync) sx" where
  "hy_tp_cold tr h p s = (case tp_send_cold tr h p (hy_wire s) of (r, t) \<Rightarrow> (r, s\<lparr>hy_wire := t\<rparr>))"

definition hy_tp_fast :: "'t transport \<Rightarrow> header \<Rightarrow> byte list \<Rightarrow> (bool, 't host_sync) sx" where
  "hy_tp_fast tr h p s = (case tp_send_fast tr h p (hy_wire s) of (r, t) \<Rightarrow> (r, s\<lparr>hy_wire := t\<rparr>))"

text \<open>\<open>identity.ensure_uuid(db, self.registry)\<close> and the entry in \<open>_uuid_to_db\<close> that follows it.\<close>

definition hy_adopt :: "'z host_env_scheme \<Rightarrow> db_ref \<Rightarrow> (uuid, 't host_sync) sx" where
  "hy_adopt env d s = (let (u, w) = ensure_uuid (he_mint env) d (hy_stamps s)
     in (Inr u, s\<lparr>hy_stamps := w, hy_db := dset u d (hy_db s)\<rparr>))"

definition hy_mark :: "uuid \<Rightarrow> tier \<Rightarrow> (unit, 't host_sync) sx" where
  "hy_mark u t = sx_mod (\<lambda>s. s\<lparr>hy_dirty := ds_mark u t (hy_dirty s)\<rparr>)"

definition hy_requeue :: "uuid \<Rightarrow> tier \<Rightarrow> (unit, 't host_sync) sx" where
  "hy_requeue u t = sx_mod (\<lambda>s. s\<lparr>hy_dirty := ds_requeue u t (hy_dirty s)\<rparr>)"

definition touch_ready :: "uuid \<Rightarrow> time \<Rightarrow> (unit, 't host_sync) sx" where
  "touch_ready u now = sx_mod (\<lambda>s. s\<lparr>hy_debounce := db_touch u (now - DEBOUNCE_S) (hy_debounce s)\<rparr>)"

definition hy_restore :: "uuid \<Rightarrow> json snapshot option \<Rightarrow> (unit, 't host_sync) sx" where
  "hy_restore u old =
     (case old of None \<Rightarrow> sx_return ()
      | Some sn \<Rightarrow> sx_mod (\<lambda>s. s\<lparr>hy_shadow := sh_restore u (Some sn) (hy_shadow s)\<rparr>))"

text \<open>\<open>self.shadow.diff_and_update(uuid, snapshot)\<close>, with its result.\<close>

definition hy_diff :: "uuid \<Rightarrow> json snapshot \<Rightarrow> (json shadow_diff option, 't host_sync) sx" where
  "hy_diff u sn s = (let (d, sh) = sh_diff_and_update u sn (hy_shadow s) in (Inr d, s\<lparr>hy_shadow := sh\<rparr>))"

definition cold_seq_of :: "uuid \<Rightarrow> 't host_sync \<Rightarrow> int" where
  "cold_seq_of u s = (case dget (hy_uuid_cold_seq s) u of Some n \<Rightarrow> n | None \<Rightarrow> 0)"

definition after_for :: "uuid \<Rightarrow> 't host_sync \<Rightarrow> int" where
  "after_for u s = max (max (cold_seq_of u s) (hy_boot_last_seq s)) (hy_link_seq s)"

definition blend_compress :: "'t transport \<Rightarrow> bool" where
  "blend_compress tr \<longleftrightarrow> \<not> tp_wire_compresses tr"

definition blob_digest :: "'z host_files_scheme \<Rightarrow> db_ref \<Rightarrow> byte list \<Rightarrow> json snapshot option \<Rightarrow> string" where
  "blob_digest env d data snap =
     (let pc = (case snap of Some sn \<Rightarrow> (case dget sn ''~pcache'' of None \<Rightarrow> JNull | Some v \<Rightarrow> v)
                | None \<Rightarrow> if is_a env d ''OBJECT'' then he_pcache env d else JNull)
      in he_blake2b env (data @ utf8_encode (dumps_sp pc)))"

definition scene_struct_digest :: "'z host_files_scheme \<Rightarrow> json snapshot \<Rightarrow> string" where
  "scene_struct_digest env sn =
     he_md5 env (utf8_encode (dumps_sp (JObj (map (\<lambda>k. (k, the (dget sn k)))
       (sort (filter (\<lambda>k. dget sn k \<noteq> None) SCENE_STRUCT_KEYS))))))"

subsection \<open>The cold lane\<close>

text \<open>
  The pattern of every cold send: take the next number, write it into the header, give it back when
  the transport refuses.
\<close>

definition cold_next :: "'t transport \<Rightarrow> header \<Rightarrow> byte list \<Rightarrow> (bool, 't host_sync) sx" where
  "cold_next tr h p =
     sx_seq (sx_mod (\<lambda>s. s\<lparr>hy_seq := hy_seq s + 1\<rparr>))
       (sx_read (\<lambda>s. sx_bind (hy_tp_cold tr (dset ''seq'' (JInt (hy_seq s)) h) p)
          (\<lambda>taken. if taken then sx_return True
                   else sx_seq (sx_mod (\<lambda>s. s\<lparr>hy_seq := hy_seq s - 1\<rparr>)) (sx_return False))))"

definition send_cold_msg :: "'t transport \<Rightarrow> header \<Rightarrow> (bool, 't host_sync) sx" where
  "send_cold_msg tr h = sx_bind (cold_next tr h [])
     (\<lambda>taken. if taken then sx_seq (sx_mod (\<lambda>s. s\<lparr>hy_link_seq := hy_seq s\<rparr>)) (sx_return True)
              else sx_return False)"

fun send_chunks :: "'t transport \<Rightarrow> uuid \<Rightarrow> blob_chunks \<Rightarrow> (bool, 't host_sync) sx" where
  "send_chunks tr u [] = sx_return True"
| "send_chunks tr u ((h, p) # chunks) = sx_bind (cold_next tr h p)
     (\<lambda>taken. if taken
        then sx_seq (sx_mod (\<lambda>s. s\<lparr>hy_t2_outbox := dset u chunks (hy_t2_outbox s),
                                    hy_uuid_cold_seq := dset u (hy_seq s) (hy_uuid_cold_seq s)\<rparr>))
                    (send_chunks tr u chunks)
        else sx_return False)"

fun drain_t2_loop :: "'t transport \<Rightarrow> uuid option \<Rightarrow> uuid list \<Rightarrow> (bool, 't host_sync) sx" where
  "drain_t2_loop tr only [] = sx_return True"
| "drain_t2_loop tr only (u # us) =
     (if only \<noteq> None \<and> only \<noteq> Some u then drain_t2_loop tr only us
      else sx_read (\<lambda>s. case dget (hy_t2_outbox s) u of
             None \<Rightarrow> sx_raise KeyError
           | Some chunks \<Rightarrow> sx_bind (send_chunks tr u chunks) (\<lambda>done.
               if done then sx_seq (sx_mod (\<lambda>s. s\<lparr>hy_t2_outbox := dpop u (hy_t2_outbox s),
                                                   hy_shipped := insert u (hy_shipped s)\<rparr>))
                                   (drain_t2_loop tr only us)
               else sx_return False)))"

definition drain_t2_outbox :: "'t transport \<Rightarrow> uuid option \<Rightarrow> (bool, 't host_sync) sx" where
  "drain_t2_outbox tr only = sx_read (\<lambda>s. drain_t2_loop tr only (dkeys (hy_t2_outbox s)))"

definition t2_meta :: "'z host_files_scheme \<Rightarrow> uuid \<Rightarrow> db_ref \<Rightarrow> string \<Rightarrow> header" where
  "t2_meta env u d digest =
     [(''uuid'', JStr u), (''name'', JStr (he_name env d)),
      (''coll'', case he_coll env d of None \<Rightarrow> JNull | Some c \<Rightarrow> JStr c), (''digest'', JStr digest)]"

definition blob_name :: "string \<Rightarrow> int \<Rightarrow> json" where
  "blob_name stem n = JStr (stem @ ''.'' @ int_text n)"

definition t2_chunks :: "uuid \<Rightarrow> int \<Rightarrow> byte list \<Rightarrow> header \<Rightarrow> blob_chunks" where
  "t2_chunks u n data meta = chunk_blob ''t2'' (blob_name u n) data meta DEFAULT_CHUNK_SIZE"

text \<open>The second half of \<open>_flush_t2\<close>: the blob goes unless the replica holds exactly it.\<close>

definition queue_t2 :: "'z host_files_scheme \<Rightarrow> 't transport \<Rightarrow> uuid \<Rightarrow> db_ref \<Rightarrow> json snapshot
    \<Rightarrow> byte list \<Rightarrow> (unit, 't host_sync) sx" where
  "queue_t2 env tr u d sn data = sx_read (\<lambda>s.
     let digest = blob_digest env d data (Some sn);
         meta = t2_meta env u d digest @ (if hy_burst s then [(''more'', JBool True)] else [])
     in if u \<in> hy_shipped s \<and> dget (hy_blob_hash s) u = Some digest
        then sx_mod (\<lambda>s. s\<lparr>hy_t2_skipped := hy_t2_skipped s + 1\<rparr>)
        else sx_seq (sx_mod (\<lambda>s. s\<lparr>hy_blob_hash := dset u digest (hy_blob_hash s),
                                    hy_manifest_pending := dpop u (hy_manifest_pending s),
                                    hy_t2_outbox := dset u (t2_chunks u (hy_seq s + 1) data meta) (hy_t2_outbox s),
                                    hy_sent_t2 := hy_sent_t2 s + 1\<rparr>))
                    (sx_void (drain_t2_outbox tr (Some u))))"

definition given_or :: "json snapshot option \<Rightarrow> py_error + json snapshot \<Rightarrow> (json snapshot, 's) sx" where
  "given_or snap r = (case snap of Some sn \<Rightarrow> sx_return sn | None \<Rightarrow> sx_lift r)"

text \<open>
  \<open>_flush_t2\<close> of a datablock that travels by itself; \<open>fallback\<close> sends the tier-1 half of the
  diff of a type that is not resent.
\<close>

definition flush_t2_data :: "'z host_files_scheme \<Rightarrow> 't transport \<Rightarrow> (unit, 't host_sync) sx \<Rightarrow> uuid
    \<Rightarrow> db_ref \<Rightarrow> json snapshot option \<Rightarrow> (unit, 't host_sync) sx" where
  "flush_t2_data env tr fallback u d snap =
     sx_unless_dead (he_serialize env (blend_compress tr) d) (sx_return ())
       (\<lambda>r. case r of
          None \<Rightarrow> sx_do [sx_mod (\<lambda>s. s\<lparr>hy_t2_unsupported := hy_t2_unsupported s + 1\<rparr>), fallback,
                        sx_mod (\<lambda>s. s\<lparr>hy_auto_boot_at := he_now env + AUTO_BOOT_DEBOUNCE\<rparr>)]
        | Some data \<Rightarrow> sx_bind (given_or snap (he_snapshot env d)) (\<lambda>sn.
            sx_do [sx_void (hy_diff u sn), queue_t2 env tr u d sn data]))"

text \<open>
  \<open>_flush_t2\<close>. Shape keys travel with their owner, which is a mesh, a curve or a lattice, so the
  recursion is one call deep.
\<close>

definition flush_t2 :: "'z host_files_scheme \<Rightarrow> 't transport \<Rightarrow> (unit, 't host_sync) sx \<Rightarrow> uuid
    \<Rightarrow> json snapshot option \<Rightarrow> (unit, 't host_sync) sx" where
  "flush_t2 env tr fallback u snap = sx_read (\<lambda>s.
     case dget (hy_db s) u of
       None \<Rightarrow> sx_return ()
     | Some d \<Rightarrow>
         if is_a env d ''KEY''
         then sx_bind (given_or snap (he_snapshot env d)) (\<lambda>sn.
           sx_seq (sx_void (hy_diff u sn))
             (case he_owner env d of
                None \<Rightarrow> sx_return ()
              | Some owner \<Rightarrow>
                  if \<not> he_stampable env owner then sx_return ()
                  else sx_bind (hy_adopt env owner) (\<lambda>ou.
                    if ou \<noteq> u then flush_t2_data env tr (sx_return ()) ou owner None else sx_return ())))
         else flush_t2_data env tr fallback u d snap)"

subsection \<open>The fast lane\<close>

definition fast_next :: "'t transport \<Rightarrow> (int \<Rightarrow> header) \<Rightarrow> byte list \<Rightarrow> (unit, 't host_sync) sx
    \<Rightarrow> (unit, 't host_sync) sx \<Rightarrow> (bool, 't host_sync) sx" where
  "fast_next tr header payload taken refused =
     sx_seq (sx_mod (\<lambda>s. s\<lparr>hy_seq_fast := hy_seq_fast s + 1\<rparr>))
       (sx_read (\<lambda>s. sx_bind (hy_tp_fast tr (header (hy_seq_fast s)) payload)
          (\<lambda>ok. if ok then sx_seq taken (sx_return True)
                else sx_seq (sx_mod (\<lambda>s. s\<lparr>hy_seq_fast := hy_seq_fast s - 1\<rparr>))
                            (sx_seq refused (sx_return False)))))"

definition fast_header :: "string \<Rightarrow> uuid \<Rightarrow> int \<Rightarrow> int \<Rightarrow> header" where
  "fast_header kind u after n =
     [(''kind'', JStr kind), (''lane'', JStr ''f''), (''seq'', JInt n), (''uuid'', JStr u), (''after'', JInt after)]"

definition log_fast :: "uuid \<Rightarrow> string \<Rightarrow> (unit, 't host_sync) sx" where
  "log_fast u kind = sx_mod (\<lambda>s. s\<lparr>hy_fastlog := fl_record (hy_seq_fast s) u kind (hy_fastlog s)\<rparr>)"

definition send_tombstone :: "'t transport \<Rightarrow> uuid \<Rightarrow> (bool, 't host_sync) sx" where
  "send_tombstone tr u = sx_read (\<lambda>s.
     fast_next tr (fast_header ''tomb'' u (after_for u s)) [] (log_fast u ''tomb'')
       (sx_mod (\<lambda>s. s\<lparr>hy_dirty := ds_requeue_tombstone u (hy_dirty s)\<rparr>)))"

definition at_path :: "string \<Rightarrow> bool" where
  "at_path path \<longleftrightarrow> take 1 path = ''@''"

definition defer_t1 :: "uuid \<Rightarrow> json snapshot option \<Rightarrow> (unit, 't host_sync) sx" where
  "defer_t1 u old = sx_seq (hy_requeue u T1) (hy_restore u old)"

text \<open>
  The loop over the pointers of a delta: a target the replica lacks is shipped first, \<open>None\<close> when
  its blob has not fully left, else the cold number the delta has to follow.
\<close>

fun ship_targets :: "'z host_files_scheme \<Rightarrow> 't transport \<Rightarrow> uuid \<Rightarrow> json snapshot option
    \<Rightarrow> (string \<times> json) list \<Rightarrow> int \<Rightarrow> (int option, 't host_sync) sx" where
  "ship_targets env tr u old [] after = sx_return (Some after)"
| "ship_targets env tr u old ((path, v) # changes) after =
     (case dget POINTER_SETTERS path of
        None \<Rightarrow> ship_targets env tr u old changes after
      | Some coll \<Rightarrow>
          if \<not> json_true v then ship_targets env tr u old changes after
          else case he_lookup env coll v of
            None \<Rightarrow> ship_targets env tr u old changes after
          | Some target \<Rightarrow>
              if \<not> he_stampable env target then ship_targets env tr u old changes after
              else sx_bind (hy_adopt env target) (\<lambda>tu.
                sx_seq (sx_read (\<lambda>s. sx_when (tu \<notin> hy_shipped s) (flush_t2 env tr (sx_return ()) tu None)))
                  (sx_read (\<lambda>s. if dget (hy_t2_outbox s) tu \<noteq> None
                     then sx_seq (defer_t1 u old) (sx_return None)
                     else ship_targets env tr u old changes (max after (cold_seq_of tu s))))))"

definition t1_payload :: "(string \<times> json) list \<Rightarrow> byte list" where
  "t1_payload changes = utf8_encode (dumps_sp (JList (map (\<lambda>(p, v). JList [JStr p, v]) changes)))"

definition t1_extra :: "bool \<Rightarrow> bool \<Rightarrow> string \<Rightarrow> header" where
  "t1_extra full is_scene digest =
     (if full then [(''full'', JBool True)] else [])
     @ (if is_scene \<and> digest \<noteq> [] then [(''sd'', JStr digest)] else [])"

definition send_t1 :: "'z host_files_scheme \<Rightarrow> 't transport \<Rightarrow> uuid \<Rightarrow> db_ref \<Rightarrow> (string \<times> json) list
    \<Rightarrow> json snapshot option \<Rightarrow> bool \<Rightarrow> (bool, 't host_sync) sx" where
  "send_t1 env tr u d changes old full =
     (if changes = [] then sx_return True
      else let ordered = sort_key (\<lambda>c. \<not> at_path (fst c)) changes
      in sx_bind (sx_read (\<lambda>s. ship_targets env tr u old ordered (after_for u s))) (\<lambda>r. case r of
           None \<Rightarrow> sx_return False
         | Some after \<Rightarrow> sx_read (\<lambda>s.
             fast_next tr (\<lambda>n. fast_header ''t1'' u after n @ t1_extra full (is_a env d ''SCENE'') (hy_scene_digest s))
               (t1_payload ordered)
               (sx_seq (sx_mod (\<lambda>s. s\<lparr>hy_sent_t1 := hy_sent_t1 s + length changes\<rparr>)) (log_fast u ''t1''))
               (defer_t1 u old))))"

definition flush_t1 :: "'z host_files_scheme \<Rightarrow> 't transport \<Rightarrow> uuid \<Rightarrow> (unit, 't host_sync) sx" where
  "flush_t1 env tr u = sx_read (\<lambda>s.
     case dget (hy_db s) u of
       None \<Rightarrow> sx_return ()
     | Some d \<Rightarrow> sx_unless_dead (he_snapshot env d) (sx_return ()) (\<lambda>sn.
         sx_seq (sx_when (is_a env d ''SCENE'') (sx_mod (\<lambda>s. s\<lparr>hy_scene_digest := scene_struct_digest env sn\<rparr>)))
           (sx_bind (hy_diff u sn) (\<lambda>r. case r of
              None \<Rightarrow> if \<not> he_kept env d then sx_return () else flush_t2 env tr (sx_return ()) u (Some sn)
            | Some diff \<Rightarrow>
                if sd_structural diff
                then flush_t2 env tr (sx_void (send_t1 env tr u d (sd_changes diff) None False)) u (Some sn)
                else sx_void (send_t1 env tr u d (sd_changes diff) (sh_get u (hy_shadow s)) False)))))"

text \<open>A whole re-assert: every tracked path of the datablock in one message.\<close>

definition send_t1_full :: "'z host_files_scheme \<Rightarrow> 't transport \<Rightarrow> uuid \<Rightarrow> (bool, 't host_sync) sx" where
  "send_t1_full env tr u = sx_read (\<lambda>s.
     let assert = (\<lambda>d sn. send_t1 env tr u d (filter (\<lambda>(p, _). \<not> tilde p) sn) None True)
     in case dget (hy_db s) u of
       None \<Rightarrow> send_tombstone tr u
     | Some d \<Rightarrow>
         if \<not> he_alive env d then send_tombstone tr u
         else (case sh_get u (hy_shadow s) of
             Some sn \<Rightarrow> assert d sn
           | None \<Rightarrow> sx_unless_dead (he_snapshot env d) (send_tombstone tr u) (\<lambda>sn.
               sx_seq (sx_void (hy_diff u sn)) (assert d sn))))"

end
