(* ===== verification/Host_Flush.thy ===== *)
theory Host_Flush
  imports Host_Send Liveness
begin

text \<open>
  The queues of \<open>HostSync\<close> and the flush timer: bootstraps, the re-assert of a hole on the fast
  lane, the delta resync, the idle work, libraries, the sweeps, and one tick of the timer.
\<close>

subsection \<open>The re-assert of the fast lane\<close>

definition resend_fast_window :: "int option \<Rightarrow> (nat, 't host_sync) sx" where
  "resend_fast_window gap_at s =
     (let window = fl_window_since (case gap_at of None \<Rightarrow> 0 | Some g \<Rightarrow> g) (hy_fastlog s)
      in (Inr (length window), s\<lparr>hy_fast_resend_queue := hy_fast_resend_queue s @ window,
            hy_fast_resend_end := True, hy_fast_resyncs := hy_fast_resyncs s + 1\<rparr>))"

fun resend_loop :: "'z host_files_scheme \<Rightarrow> 't transport \<Rightarrow> (uuid \<times> string) list \<Rightarrow> (bool, 't host_sync) sx" where
  "resend_loop env tr [] = sx_return True"
| "resend_loop env tr ((u, kind) # es) =
     sx_bind (if kind = ''tomb'' then send_tombstone tr u else send_t1_full env tr u)
       (\<lambda>sent. if \<not> sent then sx_return False
          else sx_seq (sx_mod (\<lambda>s. s\<lparr>hy_fast_resend_queue := drop 1 (hy_fast_resend_queue s)\<rparr>)) (resend_loop env tr es))"

definition drain_fast_resend :: "'z host_files_scheme \<Rightarrow> 't transport \<Rightarrow> (unit, 't host_sync) sx" where
  "drain_fast_resend env tr =
     sx_bind (sx_read (\<lambda>s. resend_loop env tr (take FAST_RESEND_PER_TICK (hy_fast_resend_queue s)))) (\<lambda>went.
       sx_when went (sx_read (\<lambda>s.
         sx_when (hy_fast_resend_queue s = [] \<and> hy_fast_resend_end s)
           (sx_void (fast_next tr (fast_header ''resync_end'' [] 0) []
              (sx_mod (\<lambda>s. s\<lparr>hy_fast_resend_end := False\<rparr>)) (sx_return ()))))))"

subsection \<open>The delta resync\<close>

definition scene_digest_now :: "'z host_files_scheme \<Rightarrow> (string, 't host_sync) sx" where
  "scene_digest_now env = (case he_scene env of
       None \<Rightarrow> sx_return []
     | Some scene \<Rightarrow> sx_seq (case he_snapshot env scene of Inl e \<Rightarrow> sx_return ()
           | Inr sn \<Rightarrow> sx_mod (\<lambda>s. s\<lparr>hy_scene_digest := scene_struct_digest env sn\<rparr>))
         (sx_read (\<lambda>s. sx_return (hy_scene_digest s))))"

definition hy_poll_reply :: "'t transport \<Rightarrow> int \<Rightarrow> (header option, 't host_sync) sx" where
  "hy_poll_reply tr k s = (case tp_poll_reply tr k (hy_wire s) of (r, t) \<Rightarrow> (Inr r, s\<lparr>hy_wire := t\<rparr>))"

definition hy_cancel :: "'t transport \<Rightarrow> int \<Rightarrow> (unit, 't host_sync) sx" where
  "hy_cancel tr k = sx_mod (\<lambda>s. s\<lparr>hy_wire := tp_cancel_request tr k (hy_wire s)\<rparr>)"

definition hy_request :: "'t transport \<Rightarrow> header \<Rightarrow> (int, 't host_sync) sx" where
  "hy_request tr msg s = (case tp_request_nowait tr of
       None \<Rightarrow> (Inl AttributeError, s)
     | Some f \<Rightarrow> (case f msg (hy_wire s) of (r, t) \<Rightarrow> (r, s\<lparr>hy_wire := t\<rparr>)))"

fun reap_manifest_reqs :: "'t transport \<Rightarrow> time \<Rightarrow> (int \<times> time) list \<Rightarrow> (unit, 't host_sync) sx" where
  "reap_manifest_reqs tr now [] = sx_return ()"
| "reap_manifest_reqs tr now ((k, t) # reqs) =
     sx_bind (hy_poll_reply tr k) (\<lambda>reply.
       sx_seq (sx_when (reply \<noteq> None \<or> now - t > MANIFEST_REQ_TIMEOUT)
                 (sx_seq (hy_cancel tr k) (sx_mod (\<lambda>s. s\<lparr>hy_manifest_reqs := remove1 (k, t) (hy_manifest_reqs s)\<rparr>))))
         (reap_manifest_reqs tr now reqs))"

definition send_manifest_batch :: "'z host_files_scheme \<Rightarrow> 't transport \<Rightarrow> (unit, 't host_sync) sx" where
  "send_manifest_batch env tr =
     sx_seq (sx_read (\<lambda>s. reap_manifest_reqs tr (he_now env) (hy_manifest_reqs s)))
       (sx_read (\<lambda>s.
          if hy_manifest_pending s = [] \<or> 4 \<le> length (hy_manifest_reqs s) then sx_return ()
          else if tp_request_nowait tr = None then sx_mod (\<lambda>s. s\<lparr>hy_manifest_pending := []\<rparr>)
          else let batch = take MANIFEST_BATCH (hy_manifest_pending s) in
            sx_seq (sx_mod (\<lambda>s. s\<lparr>hy_manifest_pending := fold dpop (dkeys batch) (hy_manifest_pending s)\<rparr>))
              (sx_bind (hy_request tr [(''kind'', JStr ''manifest''), (''boot'', JInt (hy_boot_gen s)),
                                       (''held'', JObj (map (\<lambda>(u, d). (u, JStr d)) batch))])
                 (\<lambda>k. sx_mod (\<lambda>s. s\<lparr>hy_manifest_reqs := hy_manifest_reqs s @ [(k, he_now env)],
                                     hy_manifests_sent := hy_manifests_sent s + 1\<rparr>)))))"

definition delta_ask :: "'z host_files_scheme \<Rightarrow> 't transport \<Rightarrow> (string, 't host_sync) sx" where
  "delta_ask env tr = sx_bind (hy_request tr [(''kind'', JStr ''manifest_req'')]) (\<lambda>k.
     sx_seq (sx_mod (\<lambda>s. s\<lparr>hy_manifest_req := Some k, hy_manifest_req_at := he_now env\<rparr>)) (sx_return ''pending''))"

text \<open>The answer to an outstanding \<open>manifest_req\<close>, if it is in.\<close>

definition delta_reply :: "'z host_files_scheme \<Rightarrow> 't transport \<Rightarrow> json \<Rightarrow> int \<Rightarrow> (string, 't host_sync) sx" where
  "delta_reply env tr held_digest k = sx_bind (hy_poll_reply tr k) (\<lambda>reply. case reply of
     Some r \<Rightarrow> sx_seq (sx_mod (\<lambda>s. s\<lparr>hy_manifest_req := None\<rparr>))
       (if dget r ''kind'' = Some (JStr ''manifest'')
        then sx_seq (sx_mod (\<lambda>s. s\<lparr>hy_manifest := Some (dset ''held_digest'' held_digest r)\<rparr>))
               (sx_read (\<lambda>s. sx_return (if dget r ''scene_digest'' = Some (JStr (hy_scene_digest s))
                                        then ''ready'' else ''mismatch'')))
        else sx_return ''mismatch'')
   | None \<Rightarrow> sx_read (\<lambda>s. if he_now env - hy_manifest_req_at s > MANIFEST_REQ_TIMEOUT
       then sx_seq (hy_cancel tr k) (sx_seq (sx_mod (\<lambda>s. s\<lparr>hy_manifest_req := None\<rparr>)) (sx_return ''mismatch''))
       else sx_return ''pending''))"

definition delta_state :: "'z host_files_scheme \<Rightarrow> 't transport \<Rightarrow> header \<Rightarrow> (string, 't host_sync) sx" where
  "delta_state env tr status =
     (if \<not> truthy status ''scene_digest'' then sx_return ''mismatch''
      else sx_bind (scene_digest_now env) (\<lambda>digest.
        if get_or status ''scene_digest'' JNull \<noteq> JStr digest then sx_return ''mismatch''
        else let held_digest = get_or status ''held_digest'' JNull in
          sx_read (\<lambda>s.
            if (case hy_manifest s of Some m \<Rightarrow> get_or m ''held_digest'' JNull = held_digest | None \<Rightarrow> False)
            then sx_return ''ready''
            else case hy_manifest_req s of
                Some k \<Rightarrow> delta_reply env tr held_digest k
              | None \<Rightarrow> delta_ask env tr)))"

definition file_held :: "'z host_files_scheme \<Rightarrow> db_ref \<Rightarrow> bool" where
  "file_held env d \<longleftrightarrow> he_alive env d \<and> he_kept env d"

text \<open>What a blob can carry: not a Scene, not a Key, and with a library collection of its own.\<close>

definition blob_capable :: "'z host_files_scheme \<Rightarrow> db_ref \<Rightarrow> bool" where
  "blob_capable env d \<longleftrightarrow> file_held env d \<and> \<not> is_a env d ''SCENE'' \<and> \<not> is_a env d ''KEY'' \<and> he_coll env d \<noteq> None"

definition manifest_held :: "'t host_sync \<Rightarrow> header" where
  "manifest_held s = (case hy_manifest s of None \<Rightarrow> []
     | Some m \<Rightarrow> (case dget m ''held'' of Some (JObj h) \<Rightarrow> h | _ \<Rightarrow> []))"

definition manifest_scene :: "'t host_sync \<Rightarrow> string" where
  "manifest_scene s = (case hy_manifest s of None \<Rightarrow> []
     | Some m \<Rightarrow> (case dget m ''scene_digest'' of Some (JStr d) \<Rightarrow> d | _ \<Rightarrow> []))"

definition json_text :: "json \<Rightarrow> string" where
  "json_text v = (case v of JStr t \<Rightarrow> t | _ \<Rightarrow> [])"

definition plan_from_manifest :: "'z host_files_scheme \<Rightarrow> header \<Rightarrow> 't host_sync \<Rightarrow> delta_plan option" where
  "plan_from_manifest env status s =
     (let capable = filter (\<lambda>(u, d). blob_capable env d) (hy_db s)
      in plan_delta (map fst capable) (map (\<lambda>(u, h). (u, Some h)) (hy_blob_hash s))
           (map (\<lambda>(u, v). (u, json_text v)) (manifest_held s)) (hy_scene_digest s) (manifest_scene s)
           (json_text (get_or status ''gap_lane'' (JStr [])))
           (map fst (filter (\<lambda>(u, d). is_a env d ''OBJECT'' \<or> is_a env d ''COLLECTION'') capable)))"

definition send_delta :: "'z host_files_scheme \<Rightarrow> 't transport \<Rightarrow> delta_plan \<Rightarrow> (unit, 't host_sync) sx" where
  "send_delta env tr plan = sx_read (\<lambda>s0. let held = manifest_held s0 in
     sx_seq (sx_each (\<lambda>u. sx_void (send_tombstone tr u)) (dp_tombs plan))
       (sx_mod (\<lambda>s.
          let scenes = map fst (filter (\<lambda>(u, d). is_a env d ''SCENE'' \<and> he_alive env d) (hy_db s))
          in s\<lparr>hy_delta_queue := map (\<lambda>u. (u, get_or held u JNull)) (dp_resend plan @ dp_verify plan),
               hy_delta_tail := (if dp_scene_t1 plan then scenes else [])
                                @ filter (\<lambda>u. u \<notin> set scenes) (dp_at_state plan),
               hy_delta_end_pending := True, hy_manifest := None,
               hy_delta_resyncs := hy_delta_resyncs s + 1\<rparr>)))"

definition resend_t2 :: "'z host_files_scheme \<Rightarrow> 't transport \<Rightarrow> uuid \<Rightarrow> json \<Rightarrow> (bool, 't host_sync) sx" where
  "resend_t2 env tr u expect = sx_read (\<lambda>s.
     case dget (hy_db s) u of
       None \<Rightarrow> send_tombstone tr u
     | Some d \<Rightarrow>
         if \<not> he_alive env d then send_tombstone tr u
         else sx_unless_dead (he_serialize env (blend_compress tr) d) (send_tombstone tr u) (\<lambda>r. case r of
             None \<Rightarrow> sx_return True
           | Some data \<Rightarrow>
               let digest = blob_digest env d data None in
               sx_seq (sx_mod (\<lambda>s. s\<lparr>hy_blob_hash := dset u digest (hy_blob_hash s)\<rparr>))
                 (if expect = JStr digest \<and> digest \<noteq> [] then sx_return True
                  else sx_seq (sx_mod (\<lambda>s. s\<lparr>hy_t2_outbox := dset u (t2_chunks u (hy_seq s + 1) data
                                                    (t2_meta env u d digest)) (hy_t2_outbox s),
                                             hy_sent_t2 := hy_sent_t2 s + 1, hy_delta_t2 := hy_delta_t2 s + 1\<rparr>))
                         (sx_seq (sx_void (drain_t2_outbox tr (Some u))) (sx_return True)))))"

fun delta_blobs :: "'z host_files_scheme \<Rightarrow> 't transport \<Rightarrow> nat \<Rightarrow> (uuid \<times> json) list \<Rightarrow> (nat option, 't host_sync) sx" where
  "delta_blobs env tr 0 es = sx_return (Some 0)"
| "delta_blobs env tr (Suc n) [] = sx_return (Some (Suc n))"
| "delta_blobs env tr (Suc n) ((u, expect) # es) = sx_bind (resend_t2 env tr u expect) (\<lambda>sent.
     if \<not> sent then sx_return None
     else sx_seq (sx_mod (\<lambda>s. s\<lparr>hy_delta_queue := drop 1 (hy_delta_queue s)\<rparr>)) (delta_blobs env tr n es))"

fun delta_asserts :: "'z host_files_scheme \<Rightarrow> 't transport \<Rightarrow> nat \<Rightarrow> uuid list \<Rightarrow> (bool, 't host_sync) sx" where
  "delta_asserts env tr 0 us = sx_return True"
| "delta_asserts env tr (Suc n) [] = sx_return True"
| "delta_asserts env tr (Suc n) (u # us) = sx_bind (send_t1_full env tr u) (\<lambda>sent.
     if \<not> sent then sx_return False
     else sx_seq (sx_mod (\<lambda>s. s\<lparr>hy_delta_tail := drop 1 (hy_delta_tail s)\<rparr>)) (delta_asserts env tr n us))"

definition delta_end :: "'t transport \<Rightarrow> (unit, 't host_sync) sx" where
  "delta_end tr = sx_read (\<lambda>s. sx_when (hy_delta_end_pending s)
     (sx_bind (cold_next tr [(''kind'', JStr ''resync_end'')] [])
        (\<lambda>taken. sx_when taken (sx_mod (\<lambda>s. s\<lparr>hy_delta_end_pending := False\<rparr>)))))"

text \<open>The number a bounded loop returns is what is left of the tick's allowance.\<close>

definition drain_delta :: "'z host_files_scheme \<Rightarrow> 't transport \<Rightarrow> (unit, 't host_sync) sx" where
  "drain_delta env tr = sx_bind (drain_t2_outbox tr None) (\<lambda>clear.
     sx_when clear (sx_bind (sx_read (\<lambda>s. delta_blobs env tr DELTA_PER_TICK (hy_delta_queue s))) (\<lambda>r. case r of
         None \<Rightarrow> sx_return ()
       | Some room \<Rightarrow> sx_read (\<lambda>s. sx_when (hy_delta_queue s = [])
           (sx_bind (delta_asserts env tr room (hy_delta_tail s)) (\<lambda>went.
              sx_when went (sx_read (\<lambda>s. sx_when (hy_delta_tail s = []) (delta_end tr)))))))))"

subsection \<open>The bootstrap\<close>

definition lib_usage :: "'z host_files_scheme \<Rightarrow> (string, string list \<times> string list) dict" where
  "lib_usage env = fold (\<lambda>(path, os, cs). dset path (sort os, sort cs)) (he_libs env) []"

definition boot_meta :: "'z host_files_scheme \<Rightarrow> string \<Rightarrow> header" where
  "boot_meta env scene_digest =
     [(''uuid'', JStr ''__mainfile__''),
      (''name'', JStr (if he_filename env = [] then ''untitled'' else he_filename env)),
      (''project_dir'', JStr (he_project_dir env)), (''scene_digest'', JStr scene_digest)]"

definition boot_chunks :: "nat \<Rightarrow> int \<Rightarrow> byte list \<Rightarrow> header \<Rightarrow> blob_chunks" where
  "boot_chunks sent seq data meta =
     chunk_blob ''boot'' (blob_name (''boot.'' @ nat_text sent) (seq + 1)) data meta DEFAULT_CHUNK_SIZE"

definition queue_boot :: "'z host_files_scheme \<Rightarrow> byte list \<Rightarrow> string \<Rightarrow> 't host_sync \<Rightarrow> 't host_sync" where
  "queue_boot env data scene_digest s =
     s\<lparr>hy_boot_gen := int (hy_sent_boot s), hy_manifest_pending := [], hy_manifest := None,
       hy_delta_queue := [], hy_delta_tail := [], hy_delta_end_pending := False,
       hy_boot_outbox := hy_boot_outbox s @ boot_chunks (hy_sent_boot s) (hy_seq s) data (boot_meta env scene_digest),
       hy_shipped := set (map fst (filter (\<lambda>(u, d). file_held env d) (hy_db s))),
       hy_blob_hash := [], hy_lib_state := lib_usage env,
       hy_prime_queue := map fst (filter (\<lambda>(u, d). blob_capable env d) (hy_db s)),
       hy_sent_boot := hy_sent_boot s + 1, hy_suppress_marks := False\<rparr>"

definition send_bootstrap :: "'z host_files_scheme \<Rightarrow> 't transport \<Rightarrow> (unit, 't host_sync) sx" where
  "send_bootstrap env tr =
     sx_seq (sx_mod (\<lambda>s. s\<lparr>hy_boot_outbox := [], hy_boot_queued_at := he_now env\<rparr>))
       (sx_bind (sx_lift (he_mainfile env (blend_compress tr))) (\<lambda>data.
          sx_seq (sx_mod (\<lambda>s. s\<lparr>hy_last_bootstrap_bytes := length data\<rparr>))
            (sx_bind (scene_digest_now env) (\<lambda>digest. sx_mod (queue_boot env data digest)))))"

definition boot_sent :: "'z host_files_scheme \<Rightarrow> 't host_sync \<Rightarrow> 't host_sync" where
  "boot_sent env s = s\<lparr>hy_boot_last_seq := hy_seq s, hy_boot_sent_at := he_now env, hy_uuid_cold_seq := [],
     hy_bake_note := [], hy_t2_unsupported := 0\<rparr>"

text \<open>The first loop of a tick: \<open>True\<close> when the outbox is empty.\<close>

fun drain_boot :: "'z host_files_scheme \<Rightarrow> 't transport \<Rightarrow> blob_chunks \<Rightarrow> (bool, 't host_sync) sx" where
  "drain_boot env tr [] = sx_return True"
| "drain_boot env tr ((h, p) # chunks) = sx_bind (cold_next tr h p) (\<lambda>taken.
     if \<not> taken then sx_return False
     else sx_seq (sx_mod (\<lambda>s. s\<lparr>hy_boot_outbox := chunks\<rparr>))
            (sx_seq (sx_when (chunks = []) (sx_mod (boot_sent env))) (drain_boot env tr chunks)))"

definition boot_in_flight :: "time \<Rightarrow> time \<Rightarrow> 't host_sync \<Rightarrow> bool" where
  "boot_in_flight now grace_s s \<longleftrightarrow>
     hy_boot_outbox s \<noteq> [] \<or> (0 < hy_boot_sent_at s \<and> now - hy_boot_sent_at s < grace_s)"

definition caught_up :: "header option \<Rightarrow> 't host_sync \<Rightarrow> py_error + bool" where
  "caught_up peer_status s =
     (let ps = (case peer_status of None \<Rightarrow> [] | Some h \<Rightarrow> h) in
      case as_int (get_or ps ''seq'' (JInt (-1))) of Inl e \<Rightarrow> Inl e
      | Inr n \<Rightarrow> if n < hy_seq s then Inr False
          else (case as_int (get_or ps ''seq_fast'' (JInt (hy_seq_fast s))) of Inl e \<Rightarrow> Inl e
                | Inr m \<Rightarrow> Inr (m \<ge> hy_seq_fast s)))"

subsection \<open>Idle work\<close>

text \<open>The loop pops from the end of the queue; \<open>n\<close> more datablocks may be hashed.\<close>

fun prime_loop :: "'z host_files_scheme \<Rightarrow> 't transport \<Rightarrow> nat \<Rightarrow> uuid list \<Rightarrow> (unit, 't host_sync) sx" where
  "prime_loop env tr n [] = sx_return ()"
| "prime_loop env tr 0 (u # us) = sx_return ()"
| "prime_loop env tr (Suc n) (u # us) = sx_seq (sx_mod (\<lambda>s. s\<lparr>hy_prime_queue := butlast (hy_prime_queue s)\<rparr>))
     (sx_read (\<lambda>s.
        if dget (hy_blob_hash s) u \<noteq> None then prime_loop env tr (Suc n) us
        else case dget (hy_db s) u of
          None \<Rightarrow> prime_loop env tr (Suc n) us
        | Some d \<Rightarrow>
            if \<not> he_alive env d then prime_loop env tr (Suc n) us
            else (case he_serialize env (blend_compress tr) d of
                Inr (Some data) \<Rightarrow>
                  let digest = blob_digest env d data None in
                  sx_seq (sx_mod (\<lambda>s. s\<lparr>hy_blob_hash := dset u digest (hy_blob_hash s),
                                       hy_manifest_pending := dset u digest (hy_manifest_pending s),
                                       hy_primed := hy_primed s + 1\<rparr>))
                         (prime_loop env tr n us)
              | _ \<Rightarrow> prime_loop env tr (Suc n) us)))"

definition prime_hashes :: "'z host_files_scheme \<Rightarrow> 't transport \<Rightarrow> (unit, 't host_sync) sx" where
  "prime_hashes env tr = sx_read (\<lambda>s. prime_loop env tr T2_PER_TICK (rev (hy_prime_queue s)))"

subsection \<open>Libraries\<close>

definition link_msg :: "string \<Rightarrow> string list \<times> string list \<Rightarrow> header" where
  "link_msg path use = [(''kind'', JStr ''link''), (''lib'', JStr path),
     (''objects'', JList (map JStr (fst use))), (''collections'', JList (map JStr (snd use)))]"

definition sweep_libraries :: "'z host_files_scheme \<Rightarrow> 't transport \<Rightarrow> (unit, 't host_sync) sx" where
  "sweep_libraries env tr =
     (let current = fold (\<lambda>(path, os, cs). if os \<noteq> [] \<or> cs \<noteq> [] then dset path (sort os, sort cs) else id)
                         (he_libs env) []
      in sx_seq
        (sx_each (\<lambda>(path, use). sx_read (\<lambda>s. sx_when (dget (hy_lib_state s) path \<noteq> Some use)
           (sx_bind (send_cold_msg tr (link_msg path use)) (\<lambda>taken. sx_when taken
              (sx_mod (\<lambda>s. s\<lparr>hy_lib_state := dset path use (hy_lib_state s), hy_links_sent := hy_links_sent s + 1\<rparr>)))))) current)
        (sx_read (\<lambda>s. sx_each (\<lambda>path. sx_when (dget current path = None)
           (sx_bind (send_cold_msg tr [(''kind'', JStr ''unlink''), (''lib'', JStr path)]) (\<lambda>taken. sx_when taken
              (sx_mod (\<lambda>s. s\<lparr>hy_lib_state := dpop path (hy_lib_state s)\<rparr>))))) (dkeys (hy_lib_state s)))))"

definition lib_missing :: "'t transport \<Rightarrow> string \<Rightarrow> string \<Rightarrow> (unit, 't host_sync) sx" where
  "lib_missing tr path why =
     sx_bind (send_cold_msg tr [(''kind'', JStr ''lib_missing''), (''lib'', JStr path), (''why'', JStr why)])
       (\<lambda>taken. sx_when taken (sx_mod (\<lambda>s. s\<lparr>hy_libs_served := dset path ''missing'' (hy_libs_served s)\<rparr>)))"

definition serve_lib :: "'z host_files_scheme \<Rightarrow> 't transport \<Rightarrow> string \<Rightarrow> (unit, 't host_sync) sx" where
  "serve_lib env tr path = sx_read (\<lambda>s.
     if path = [] \<or> dget (hy_libs_served s) path \<noteq> None then sx_return ()
     else let sz = he_lib_size env path in
       if sz < 0 \<or> sz > LIB_FILE_MAX
       then lib_missing tr path (if sz < 0 then ''not on the host''
                                 else ''too big ('' @ int_text (sz div (1024 * 1024)) @ '' MB)'')
       else case he_lib_read env path of
           Inl exc \<Rightarrow> lib_missing tr path (''unreadable: '' @ exc)
         | Inr data \<Rightarrow> sx_mod (\<lambda>s. s\<lparr>hy_lib_outbox := hy_lib_outbox s
               @ chunk_blob ''libfile'' (blob_name (''lib.'' @ nat_text (hy_libs_shipped s)) (hy_seq s + 1)) data
                   [(''lib'', JStr path), (''sha1'', JStr (he_sha1 env data)), (''name'', JStr (he_basename env path))]
                   DEFAULT_CHUNK_SIZE,
             hy_libs_served := dset path ''shipped'' (hy_libs_served s),
             hy_libs_shipped := hy_libs_shipped s + 1\<rparr>))"

definition serve_lib_requests :: "'z host_files_scheme \<Rightarrow> 't transport \<Rightarrow> string list \<Rightarrow> (unit, 't host_sync) sx" where
  "serve_lib_requests env tr paths = sx_each (serve_lib env tr) paths"

fun drain_libs :: "'t transport \<Rightarrow> blob_chunks \<Rightarrow> (bool, 't host_sync) sx" where
  "drain_libs tr [] = sx_return True"
| "drain_libs tr ((h, p) # chunks) = sx_bind (cold_next tr h p) (\<lambda>taken.
     if \<not> taken then sx_return False
     else sx_seq (sx_mod (\<lambda>s. s\<lparr>hy_lib_outbox := chunks\<rparr>)) (drain_libs tr chunks))"

subsection \<open>The sweeps\<close>

definition touch :: "uuid \<Rightarrow> time \<Rightarrow> (unit, 't host_sync) sx" where
  "touch u now = sx_mod (\<lambda>s. s\<lparr>hy_debounce := db_touch u now (hy_debounce s)\<rparr>)"

definition with_uuid :: "db_ref \<Rightarrow> (uuid \<Rightarrow> (unit, 't host_sync) sx) \<Rightarrow> (unit, 't host_sync) sx" where
  "with_uuid d f = sx_read (\<lambda>s. case rg_uuid_for d (sw_registry (hy_stamps s)) of
     None \<Rightarrow> sx_return () | Some u \<Rightarrow> f u)"

definition set_vector :: "uuid \<Rightarrow> json \<Rightarrow> (unit, 't host_sync) sx" where
  "set_vector u vec = sx_mod (\<lambda>s. s\<lparr>hy_vis_state := dset u vec (hy_vis_state s)\<rparr>)"

text \<open>The caches that are baked, out of column 3 of an object's sweep vector.\<close>

definition baked_rows :: "json \<Rightarrow> json list option" where
  "baked_rows vec = (case vec of
     JList (_ # _ # _ # JList rows # _) \<Rightarrow>
       Some (List.map_filter (\<lambda>row. case row of JList (tag # on # _) \<Rightarrow> if json_true on then Some tag else None | _ \<Rightarrow> None) rows)
   | _ \<Rightarrow> None)"

definition bake_changed :: "json option \<Rightarrow> json \<Rightarrow> bool" where
  "bake_changed old vec = (case old of None \<Rightarrow> False
     | Some v \<Rightarrow> (case baked_rows v of None \<Rightarrow> False
        | Some rows \<Rightarrow> set rows \<noteq> set (case baked_rows vec of None \<Rightarrow> [] | Some rs \<Rightarrow> rs)))"

definition sweep_object :: "'z host_files_scheme \<Rightarrow> db_ref \<Rightarrow> (unit, 't host_sync) sx" where
  "sweep_object env d = with_uuid d (\<lambda>u. sx_read (\<lambda>s.
     let vec = he_object_vector env d; old = dget (hy_vis_state s) u in
     sx_when (old \<noteq> Some vec)
       (sx_do [sx_when (bake_changed old vec)
                 (sx_mod (\<lambda>s. s\<lparr>hy_bake_note := ''sim bake changed ('' @ he_name env d @ '')''\<rparr>)),
               set_vector u vec, hy_mark u T1, touch_ready u (he_now env)])))"

definition collection_vector :: "'z host_files_scheme \<Rightarrow> db_ref \<Rightarrow> json" where
  "collection_vector env d =
     (let lc = he_layer env d in
      JList [(case lc of None \<Rightarrow> JNull | Some (excl, hid) \<Rightarrow> JBool excl),
             (case lc of None \<Rightarrow> JNull | Some (excl, hid) \<Rightarrow> JBool hid),
             JBool (fst (he_hide env d)), JBool (snd (he_hide env d)), JStr (he_idprops env d)])"

definition snapshot_text :: "json snapshot \<Rightarrow> byte list" where
  "snapshot_text sn = utf8_encode (dumps_sp (JObj (map (\<lambda>k. (k, the (dget sn k))) (sort (dkeys sn)))))"

definition datablock_vector :: "'z host_files_scheme \<Rightarrow> db_ref \<Rightarrow> py_error + json" where
  "datablock_vector env d =
     (if is_a env d ''SCENE''
      then (case he_snapshot env d of Inl e \<Rightarrow> Inl e
            | Inr sn \<Rightarrow> Inr (JList [JStr (he_idprops env d), JStr (he_name env d), JStr (he_md5 env (snapshot_text sn))]))
      else Inr (JList [JStr (he_idprops env d), JStr (he_name env d)]))"

definition sweep_t1 :: "'z host_files_scheme \<Rightarrow> db_ref \<Rightarrow> py_error + json \<Rightarrow> (unit, 't host_sync) sx" where
  "sweep_t1 env d r = with_uuid d (\<lambda>u. sx_bind (sx_lift r) (\<lambda>vec. sx_read (\<lambda>s.
     sx_when (dget (hy_vis_state s) u \<noteq> Some vec)
       (sx_do [set_vector u vec, hy_mark u T1, touch_ready u (he_now env)]))))"

definition sweep_mesh :: "'z host_files_scheme \<Rightarrow> db_ref \<Rightarrow> (unit, 't host_sync) sx" where
  "sweep_mesh env d = with_uuid d (\<lambda>u. sx_read (\<lambda>s.
     let vec = JStr (he_idprops env d); old = dget (hy_vis_state s) u in
     sx_when (old \<noteq> Some vec)
       (sx_do [sx_when (old \<noteq> None) (sx_do [hy_mark u T2, touch_ready u (he_now env)]), set_vector u vec])))"

definition view_signature :: "view_sample \<Rightarrow> 't host_sync \<Rightarrow> vis_sig" where
  "view_signature v s =
     (let named = List.map_filter (\<lambda>d. case rg_uuid_for d (sw_registry (hy_stamps s)) of
                    Some u \<Rightarrow> if u \<noteq> [] then Some u else None | None \<Rightarrow> None)
      in vis_make (case vw_local v of None \<Rightarrow> [] | Some ds \<Rightarrow> named ds) (vw_local_colls v)
                  (if vw_local_colls v then named (vw_hidden v) else []))"

definition hy_hot_keyed :: "(byte list \<Rightarrow> byte list \<Rightarrow> 't \<Rightarrow> (py_error + unit) \<times> 't) \<Rightarrow> byte list \<Rightarrow> byte list
    \<Rightarrow> (unit, 't host_sync) sx" where
  "hy_hot_keyed f k v s = (case f k v (hy_wire s) of (r, t) \<Rightarrow> (r, s\<lparr>hy_wire := t\<rparr>))"

definition sample_view :: "'z host_files_scheme \<Rightarrow> 't transport \<Rightarrow> (unit, 't host_sync) sx" where
  "sample_view env tr = (case (tp_hot_keyed tr, he_view env) of
     (Some f, Some v) \<Rightarrow> sx_read (\<lambda>s.
        let sg = view_signature v s in
        sx_when (hy_vis_sig s \<noteq> Some sg \<or> he_now env - hy_vis_sent_at s \<ge> 1)
          (sx_seq (sx_mod (\<lambda>s. s\<lparr>hy_vis_sig := Some sg, hy_vis_sent_at := he_now env\<rparr>))
                  (hy_hot_keyed f VIS_KEY (vis_encode sg))))
   | _ \<Rightarrow> sx_return ())"

definition sweep_visibility :: "'z host_files_scheme \<Rightarrow> 't transport \<Rightarrow> (unit, 't host_sync) sx" where
  "sweep_visibility env tr = sx_do
     [sx_each (sweep_object env) (he_data env ''objects''),
      sx_each (\<lambda>d. sweep_t1 env d (Inr (collection_vector env d))) (he_data env ''collections''),
      sx_each (\<lambda>c. sx_each (\<lambda>d. sweep_t1 env d (datablock_vector env d)) (he_data env c)) SWEPT_T1_TYPES,
      sx_each (sweep_mesh env) (he_data env ''meshes''),
      sample_view env tr]"

definition all_data :: "'z host_files_scheme \<Rightarrow> db_ref list" where
  "all_data env = concat (map (he_data env) SWEPT_COLLECTIONS)"

text \<open>A stamped datablock the registry does not know: an undo brought it back.\<close>

definition readopt :: "'z host_files_scheme \<Rightarrow> db_ref \<Rightarrow> (unit, 't host_sync) sx" where
  "readopt env d = sx_read (\<lambda>s.
     sx_when (he_stampable env d \<and> read_uuid d (hy_stamps s) \<noteq> None
              \<and> rg_uuid_for d (sw_registry (hy_stamps s)) = None)
       (sx_bind (hy_adopt env d) (\<lambda>u. sx_seq (hy_mark u T2) (touch u (he_now env)))))"

definition bury :: "uuid \<Rightarrow> 't host_sync \<Rightarrow> 't host_sync" where
  "bury u s = s\<lparr>hy_dirty := ds_mark_deleted u (hy_dirty s), hy_debounce := db_drop u (hy_debounce s),
     hy_shadow := sh_forget u (hy_shadow s),
     hy_stamps := (hy_stamps s)\<lparr>sw_registry := rg_forget_uuid u (sw_registry (hy_stamps s))\<rparr>,
     hy_db := dpop u (hy_db s)\<rparr>"

definition dead_uuids :: "'z host_files_scheme \<Rightarrow> 't host_sync \<Rightarrow> uuid list" where
  "dead_uuids env s = filter (\<lambda>u. case rg_session_uid_for u (sw_registry (hy_stamps s)) of
     None \<Rightarrow> True | Some d \<Rightarrow> d \<notin> set (all_data env)) (dkeys (hy_db s))"

definition sweep_deletions :: "'z host_files_scheme \<Rightarrow> 't transport \<Rightarrow> (unit, 't host_sync) sx" where
  "sweep_deletions env tr = sx_do
     [sweep_visibility env tr, sx_each (readopt env) (all_data env),
      sx_read (\<lambda>s. sx_each (\<lambda>u. sx_mod (bury u)) (dead_uuids env s))]"

subsection \<open>One tick of the flush timer\<close>

text \<open>
  \<open>_flush_tick_inner\<close> in the order of the source: each part returns whether the tick goes on.
\<close>

definition tick_auto_boot :: "'z host_files_scheme \<Rightarrow> 't transport \<Rightarrow> (bool, 't host_sync) sx" where
  "tick_auto_boot env tr = sx_read (\<lambda>s.
     if hy_auto_boot_at s \<noteq> 0 \<and> he_now env \<ge> hy_auto_boot_at s
     then if he_now env - hy_boot_queued_at s < AUTO_BOOT_COVERED_S
          then sx_seq (sx_mod (\<lambda>s. s\<lparr>hy_auto_boot_at := 0\<rparr>)) (sx_return True)
          else if elapsed_ge (he_now env) (hy_last_auto_boot s) AUTO_BOOT_MIN_INTERVAL
          then sx_seq (sx_mod (\<lambda>s. s\<lparr>hy_auto_boot_at := 0, hy_last_auto_boot := Some (he_now env),
                                     hy_auto_boots := hy_auto_boots s + 1\<rparr>))
                      (sx_seq (send_bootstrap env tr) (sx_return False))
          else sx_return True
     else sx_return True)"

definition tick_sweep :: "'z host_files_scheme \<Rightarrow> 't transport \<Rightarrow> (unit, 't host_sync) sx" where
  "tick_sweep env tr = sx_read (\<lambda>s. sx_when (he_now env - hy_last_sweep s \<ge> SWEEP_INTERVAL)
     (sx_do [sweep_deletions env tr, sweep_libraries env tr, sx_mod (\<lambda>s. s\<lparr>hy_last_sweep := he_now env\<rparr>)]))"

text \<open>The loop over the dirty datablocks; \<open>budget\<close> is what is left of the tick's blobs.\<close>

fun flush_dirty :: "'z host_files_scheme \<Rightarrow> 't transport \<Rightarrow> uuid list \<Rightarrow> nat \<Rightarrow> (uuid \<times> tier) list
    \<Rightarrow> (unit, 't host_sync) sx" where
  "flush_dirty env tr ready budget [] = sx_return ()"
| "flush_dirty env tr ready budget ((u, t) # dirty) =
     (if u \<notin> set ready then sx_seq (hy_requeue u t) (flush_dirty env tr ready budget dirty)
      else if t = T2
      then if budget = 0
           then sx_do [hy_requeue u t, touch_ready u (he_now env), flush_dirty env tr ready budget dirty]
           else sx_seq (flush_t2 env tr (sx_return ()) u None) (flush_dirty env tr ready (budget - 1) dirty)
      else sx_seq (flush_t1 env tr u) (flush_dirty env tr ready budget dirty))"

definition hy_drain :: "(uuid list \<times> (uuid \<times> tier) list, 't host_sync) sx" where
  "hy_drain s = (case ds_drain (hy_dirty s) of Inl e \<Rightarrow> (Inl e, s)
     | Inr (tombs, dirty, ds) \<Rightarrow> (Inr (tombs, dirty), s\<lparr>hy_dirty := ds\<rparr>))"

definition hy_ready :: "time \<Rightarrow> (uuid list, 't host_sync) sx" where
  "hy_ready now s = (let (ready, d) = db_ready now (hy_debounce s) in (Inr ready, s\<lparr>hy_debounce := d\<rparr>))"

definition tick_dirty :: "'z host_files_scheme \<Rightarrow> 't transport \<Rightarrow> (unit, 't host_sync) sx" where
  "tick_dirty env tr = sx_read (\<lambda>s.
     if he_paused env \<or> ds_len (hy_dirty s) = 0 then prime_hashes env tr
     else sx_bind (hy_ready (he_now env)) (\<lambda>ready. sx_bind hy_drain (\<lambda>(tombs, dirty).
       sx_do [sx_mod (\<lambda>s. s\<lparr>hy_burst := T2_PER_TICK < length (filter (\<lambda>(u, t). t = T2 \<and> u \<in> set ready) dirty)\<rparr>),
              sx_each (\<lambda>u. sx_void (send_tombstone tr u)) tombs,
              flush_dirty env tr ready T2_PER_TICK dirty])))"

definition sx_and_then :: "(bool, 's) sx \<Rightarrow> (unit, 's) sx \<Rightarrow> (unit, 's) sx" where
  "sx_and_then m n = sx_bind m (\<lambda>go. sx_when go n)"

definition flush_tick_inner :: "'z host_files_scheme \<Rightarrow> 't transport \<Rightarrow> (unit, 't host_sync) sx" where
  "flush_tick_inner env tr =
     sx_and_then (sx_read (\<lambda>s. drain_boot env tr (hy_boot_outbox s)))
      (sx_read (\<lambda>s. sx_when (\<not> hy_suppress_marks s)
        (sx_and_then (sx_read (\<lambda>s. drain_libs tr (hy_lib_outbox s)))
          (sx_and_then (drain_t2_outbox tr None)
            (sx_seq (sx_read (\<lambda>s. sx_when (hy_fast_resend_queue s \<noteq> [] \<or> hy_fast_resend_end s) (drain_fast_resend env tr)))
              (sx_read (\<lambda>s.
                 if hy_delta_queue s \<noteq> [] \<or> hy_delta_tail s \<noteq> [] \<or> hy_delta_end_pending s then drain_delta env tr
                 else sx_seq (send_manifest_batch env tr)
                   (sx_and_then (tick_auto_boot env tr) (sx_seq (tick_sweep env tr) (tick_dirty env tr))))))))))"

text \<open>\<open>flush_tick\<close>: an exception costs the tick and is counted.\<close>

definition flush_tick :: "'z host_files_scheme \<Rightarrow> 't transport \<Rightarrow> 't host_sync \<Rightarrow> time \<times> 't host_sync" where
  "flush_tick env tr s =
     (case flush_tick_inner env tr s of
        (Inr _, s') \<Rightarrow> (FLUSH_TICK, s')
      | (Inl e, s') \<Rightarrow> (FLUSH_TICK, s'\<lparr>hy_sync_errors := hy_sync_errors s' + 1, hy_last_sync_error := Some e\<rparr>))"

subsection \<open>Edits and files\<close>

definition update_tier :: "'z host_files_scheme \<Rightarrow> depsgraph_update \<Rightarrow> tier" where
  "update_tier env up =
     (let tier = classify_update (he_type_key env (du_id up)) (du_geometry up)
      in if tier = T1 \<and> du_geometry up \<and> \<not> du_transform up \<and> is_a env (du_id up) ''OBJECT''
            \<and> he_bake_nodes env (du_id up)
         then T2 else tier)"

definition take_update :: "'z host_files_scheme \<Rightarrow> depsgraph_update \<Rightarrow> (unit, 't host_sync) sx" where
  "take_update env up =
     (let d = du_id up in
      if \<not> he_stampable env d then sx_return ()
      else if he_type_key env d = None \<and> \<not> he_syncable env d then sx_return ()
      else if he_shading_pinged env d \<and> du_shading up \<and> \<not> du_geometry up \<and> \<not> du_transform up then sx_return ()
      else sx_bind (hy_adopt env d) (\<lambda>u. sx_seq (hy_mark u (update_tier env up)) (touch u (he_now env))))"

definition on_depsgraph :: "'z host_files_scheme \<Rightarrow> depsgraph_update list \<Rightarrow> (unit, 't host_sync) sx" where
  "on_depsgraph env updates = sx_read (\<lambda>s.
     if hy_in_handler s then sx_return ()
     else if hy_drop_next_batch s then sx_mod (\<lambda>s. s\<lparr>hy_drop_next_batch := False\<rparr>)
     else if hy_suppress_marks s then sx_return ()
     else sx_seq (sx_mod (\<lambda>s. s\<lparr>hy_in_handler := True\<rparr>))
            (sx_finally (sx_each (take_update env) updates) (\<lambda>s. s\<lparr>hy_in_handler := False\<rparr>)))"

definition scan_one :: "'z host_files_scheme \<Rightarrow> db_ref \<Rightarrow> (unit, 't host_sync) sx" where
  "scan_one env d =
     sx_when (he_stampable env d)
       (sx_bind (hy_adopt env d) (\<lambda>u.
          sx_seq (sx_mod (\<lambda>s. s\<lparr>hy_dirty := ds_assume_known u (hy_dirty s)\<rparr>))
            (sx_when (he_kept env d \<and> he_type_key env d \<noteq> None)
               (sx_bind (sx_lift (he_snapshot env d)) (\<lambda>sn.
                  sx_seq (sx_void (hy_diff u sn))
                    (sx_when (is_a env d ''OBJECT'') (set_vector u (he_object_vector env d))))))))"

definition initial_scan :: "'z host_files_scheme \<Rightarrow> (unit, 't host_sync) sx" where
  "initial_scan env = sx_each (scan_one env) (all_data env)"

definition reset_for_new_file :: "'z host_files_scheme \<Rightarrow> 't transport \<Rightarrow> (unit, 't host_sync) sx" where
  "reset_for_new_file env tr = sx_do
     [sx_mod (\<lambda>s. s\<lparr>hy_stamps := (hy_stamps s)\<lparr>sw_registry := rg_init\<rparr>, hy_shadow := sh_init,
                    hy_debounce := db_init DEBOUNCE_S, hy_dirty := ds_init, hy_db := [], hy_boot_outbox := []\<rparr>),
      initial_scan env, send_bootstrap env tr, sx_mod (\<lambda>s. s\<lparr>hy_drop_next_batch := True\<rparr>)]"

definition host_empty :: "'t \<Rightarrow> stamp_world \<Rightarrow> 't host_sync" where
  "host_empty wire stamps =
     \<lparr>hy_wire = wire, hy_seq = 0, hy_seq_fast = 0, hy_uuid_cold_seq = [], hy_boot_last_seq = 0,
      hy_link_seq = 0, hy_boot_outbox = [], hy_lib_outbox = [], hy_t2_outbox = [], hy_stamps = stamps,
      hy_shadow = sh_init, hy_debounce = db_init DEBOUNCE_S, hy_dirty = ds_init,
      hy_fastlog = fl_init FASTLOG_CAPACITY, hy_db = [], hy_shipped = {}, hy_blob_hash = [], hy_scene_digest = [],
      hy_fast_resend_queue = [], hy_fast_resend_end = False, hy_manifest_pending = [], hy_manifest_reqs = [],
      hy_manifest = None, hy_manifest_req = None, hy_manifest_req_at = 0, hy_delta_queue = [],
      hy_delta_tail = [], hy_delta_end_pending = False, hy_boot_gen = -1, hy_burst = False, hy_prime_queue = [],
      hy_lib_state = [], hy_libs_served = [], hy_suppress_marks = True, hy_in_handler = False,
      hy_drop_next_batch = False, hy_boot_queued_at = 0, hy_boot_sent_at = 0, hy_auto_boot_at = 0,
      hy_last_auto_boot = None, hy_last_sweep = 0, hy_vis_state = [], hy_vis_sig = None, hy_vis_sent_at = 0,
      hy_bake_note = [], hy_libs_shipped = 0, hy_sent_boot = 0, hy_fast_resyncs = 0, hy_delta_resyncs = 0,
      hy_delta_t2 = 0, hy_manifests_sent = 0, hy_sent_t1 = 0, hy_sent_t2 = 0, hy_t2_unsupported = 0,
      hy_t2_skipped = 0, hy_primed = 0, hy_links_sent = 0, hy_auto_boots = 0, hy_sync_errors = 0,
      hy_last_sync_error = None, hy_last_bootstrap_bytes = 0\<rparr>"

definition host_start :: "'z host_files_scheme \<Rightarrow> 't \<Rightarrow> stamp_world \<Rightarrow> (py_error + unit) \<times> 't host_sync" where
  "host_start env wire stamps = initial_scan env (host_empty wire (stamps\<lparr>sw_registry := rg_init\<rparr>))"

end
