(* ===== verification/Session_Common.thy ===== *)
theory Session_Common
  imports Stream_Params Host_Flush
begin

text \<open>
  What the two roles of \<open>ring0/session.py\<close> share: the preferences, what the session reads of its
  transport and agent, the secrets, the shared folder, the mapping rows that move between addon and
  agent, and the addresses and URLs of the stream. Everything outside is in \<open>session_env\<close>: the add-on
  preferences, the transport's attributes as they are now, \<open>repr\<close>, \<open>float()\<close>, sha256 and the
  platform. A secret the agent reports that is no text raises TypeError here; on the host it would only
  make the hello one that every replica refuses.
\<close>

record session_prefs =
  pf_token :: string
  pf_replica_address :: string
  pf_bind_address :: string
  pf_srt_url :: string
  pf_srt_port :: int
  pf_srt_latency_ms :: int
  pf_viewer_port :: int
  pf_viewer_push :: bool
  pf_enable_stream :: bool
  pf_pixel_source :: string
  pf_path_mappings :: "path_mapping list"
  pf_cache_root :: string

record session_env =
  se_prefs :: session_prefs
  se_agent_mode :: bool
  se_agent_config :: header
  se_peer_addr :: string
  se_repr :: "json \<Rightarrow> string"
  se_float :: "json \<Rightarrow> py_error + real"
  se_num :: "real \<Rightarrow> json"
  se_sha256 :: "byte list \<Rightarrow> string"
  se_platform :: string
  se_addon :: string
  se_blender :: string

definition HANDSHAKE_TIMEOUT :: time where "HANDSHAKE_TIMEOUT = 8"
definition HANDSHAKE_RETRY :: time where "HANDSHAKE_RETRY = 2"
definition SESSION_OFF_GRACE :: time where "SESSION_OFF_GRACE = 2"

subsection \<open>Secrets\<close>

definition as_text :: "json \<Rightarrow> py_error + string" where
  "as_text v = (case v of JStr s \<Rightarrow> Inr s | _ \<Rightarrow> Inl TypeError)"

definition derive_secrets :: "(byte list \<Rightarrow> string) \<Rightarrow> string \<Rightarrow> string \<times> string" where
  "derive_secrets sha token = (hello_secret sha token, srt_passphrase sha token)"

definition agent_secrets :: "session_env \<Rightarrow> py_error + (string \<times> string) option" where
  "agent_secrets env = (let cfg = se_agent_config env in
     if get_or cfg ''hello_secret'' JNull \<noteq> JNull \<and> get_or cfg ''srt_passphrase'' JNull \<noteq> JNull
     then err_bind (as_text (get_or cfg ''hello_secret'' JNull)) (\<lambda>h.
          err_bind (as_text (get_or cfg ''srt_passphrase'' JNull)) (\<lambda>p. Inr (Some (h, p))))
     else if truthy cfg ''token''
     then Inr (Some (derive_secrets (se_sha256 env) (py_str (se_repr env) (get_or cfg ''token'' JNull))))
     else Inr None)"

definition secrets :: "session_env \<Rightarrow> string \<Rightarrow> py_error + (string \<times> string)" where
  "secrets env token = err_bind (agent_secrets env) (\<lambda>from_agent. case from_agent of
       Some hp \<Rightarrow> Inr hp
     | None \<Rightarrow> if se_agent_mode env then Inr ([], []) else Inr (token, srt_passphrase (se_sha256 env) token))"

subsection \<open>The shared folder and the mapping rows\<close>

definition shared_root_card :: "session_env \<Rightarrow> header" where
  "shared_root_card env = (let r = py_str (se_repr env) (or_empty (get_or (se_agent_config env) ''shared_root'' JNull)) in
     if r = [] then [] else [(''path'', JStr r), (''os'', JStr (current_os_tag (se_platform env)))])"

definition config_rows_in :: "session_env \<Rightarrow> json \<Rightarrow> py_error + path_mapping list" where
  "config_rows_in env v = (if \<not> json_true v then Inr []
     else err_bind (as_list v) (\<lambda>rows. Inr (rows_from_wire (se_repr env) rows)))"

definition side_of :: "string \<Rightarrow> header \<Rightarrow> header \<Rightarrow> py_error + json" where
  "side_of os ours theirs = err_bind (item ours ''os'') (\<lambda>v. item (if v = JStr os then ours else theirs) ''path'')"

definition row_text :: "json \<Rightarrow> py_error + string" where
  "row_text v = (case v of JStr s \<Rightarrow> Inr s | _ \<Rightarrow> Inl AttributeError)"

text \<open>\<open>_adopt_pair_row\<close>: the settings it writes into the agent, if any.\<close>

definition adopt_pair_row :: "session_env \<Rightarrow> header \<Rightarrow> json \<Rightarrow> py_error + header option" where
  "adopt_pair_row env ours theirs0 =
     (if ours = [] \<or> \<not> json_true theirs0 then Inr None
      else err_bind (obj_of theirs0) (\<lambda>theirs.
        if get_or ours ''os'' JNull = get_or theirs ''os'' JNull \<or> \<not> se_agent_mode env then Inr None
        else err_bind (side_of ''win'' ours theirs) (\<lambda>win. err_bind (side_of ''mac'' ours theirs) (\<lambda>mac.
          if \<not> json_true win \<or> \<not> json_true mac then Inr None
          else err_bind (config_rows_in env (get_or (se_agent_config env) ''path_mappings'' JNull)) (\<lambda>rows.
            err_bind (row_text win) (\<lambda>w. err_bind (row_text mac) (\<lambda>m.
              let merged = merge_tables rows [\<lparr>pm_win = w, pm_mac = m, pm_enabled = True, pm_label = ''shared''\<rparr>]
              in Inr (if length merged \<noteq> length rows
                      then Some [(''path_mappings'', JList (rows_to_wire merged))] else None))))))))"

definition effective_mappings :: "session_env \<Rightarrow> py_error + path_mapping list" where
  "effective_mappings env =
     (if se_agent_mode env \<and> truthy (se_agent_config env) ''path_mappings''
      then config_rows_in env (get_or (se_agent_config env) ''path_mappings'' JNull)
      else Inr (pf_path_mappings (se_prefs env)))"

definition effective_cache_root :: "session_env \<Rightarrow> string" where
  "effective_cache_root env =
     (if se_agent_mode env \<and> truthy (se_agent_config env) ''cache_root''
      then py_str (se_repr env) (get_or (se_agent_config env) ''cache_root'' JNull)
      else pf_cache_root (se_prefs env))"

text \<open>\<open>_push_paths_to_agent\<close>: what a first session moves into an agent that holds none.\<close>

definition push_paths :: "session_env \<Rightarrow> header option" where
  "push_paths env = (let cfg = se_agent_config env; p = se_prefs env;
       fields = (if \<not> truthy cfg ''path_mappings'' \<and> pf_path_mappings p \<noteq> []
                 then [(''path_mappings'', JList (rows_to_wire (pf_path_mappings p)))] else [])
              @ (if \<not> truthy cfg ''cache_root'' \<and> pf_cache_root p \<noteq> [] then [(''cache_root'', JStr (pf_cache_root p))] else [])
     in if \<not> se_agent_mode env \<or> cfg = [] \<or> fields = [] then None else Some fields)"

subsection \<open>Where the stream is\<close>

definition py_space :: "char list" where
  "py_space = map char_of ([9, 10, 11, 12, 13, 28, 29, 30, 31, 32, 133, 160] :: nat list)"

definition py_strip :: "string \<Rightarrow> string" where
  "py_strip s = lstrip py_space (rstrip py_space s)"

definition colon :: char where "colon = CHR '':''"

definition host_of :: "string \<Rightarrow> string" where
  "host_of addr0 = (let addr = py_strip addr0 in
     if addr = [] then []
     else if startswith addr ''['' then (if CHR '']'' \<in> set addr then takeWhile (\<lambda>c. c \<noteq> CHR '']'') (drop 1 addr) else addr)
     else if count_list addr colon = 1 then takeWhile (\<lambda>c. c \<noteq> colon) addr else addr)"

text \<open>\<open>s.rsplit(":", 1)[0]\<close>\<close>

definition before_last_colon :: "string \<Rightarrow> string" where
  "before_last_colon s = (if colon \<in> set s then rev (drop 1 (dropWhile (\<lambda>c. c \<noteq> colon) (rev s))) else s)"

definition effective_peer_host :: "session_env \<Rightarrow> py_error + string" where
  "effective_peer_host env =
     (if se_agent_mode env
      then err_bind (row_text (or_empty (get_or (se_agent_config env) ''peer'' JNull))) (\<lambda>p.
        Inr (if before_last_colon p \<noteq> [] then before_last_colon p else pf_replica_address (se_prefs env)))
      else Inr (pf_replica_address (se_prefs env)))"

definition nonzero_or :: "int \<Rightarrow> int \<Rightarrow> int" where
  "nonzero_or n d = (if n \<noteq> 0 then n else d)"

definition viewer_block :: "session_prefs \<Rightarrow> header" where
  "viewer_block p = [(''enabled'', JBool (pf_viewer_push p \<and> pf_enable_stream p)),
     (''port'', JInt (nonzero_or (pf_viewer_port p) 9998)),
     (''latency_ms'', JInt (nonzero_or (pf_srt_latency_ms p) 120))]"

definition push_block :: "header \<Rightarrow> string \<Rightarrow> py_error + header" where
  "push_block viewer addr =
     (if \<not> truthy viewer ''enabled'' \<or> addr = [] then Inr []
      else err_bind (py_int (get_true viewer ''port'' (JInt 9998))) (\<lambda>port.
           err_bind (py_int (get_true viewer ''latency_ms'' (JInt 120))) (\<lambda>latency.
             Inr [(''addr'', JStr addr), (''port'', JInt port), (''latency_ms'', JInt latency)])))"

definition caller_url :: "string \<Rightarrow> int \<Rightarrow> int \<Rightarrow> string" where
  "caller_url addr port latency_ms =
     ''srt://'' @ addr @ '':'' @ int_text port @ ''?mode=caller&latency='' @ int_text (latency_ms * 1000)"

definition listener_url :: "session_prefs \<Rightarrow> string" where
  "listener_url p = ''srt://'' @ (if pf_bind_address p = [] then ''0.0.0.0'' else pf_bind_address p) @ '':''
     @ int_text (pf_srt_port p) @ ''?mode=listener&latency='' @ int_text (pf_srt_latency_ms p * 1000)
     @ ''&listen_timeout=30000000''"

definition replica_srt_url :: "session_prefs \<Rightarrow> header \<Rightarrow> string \<Rightarrow> py_error + string" where
  "replica_srt_url p viewer addr =
     (if pf_srt_url p \<noteq> [] then Inr (pf_srt_url p)
      else err_bind (push_block viewer addr) (\<lambda>push.
        if push = [] then Inr (listener_url p)
        else err_bind (int_item push ''port'') (\<lambda>port. err_bind (int_item push ''latency_ms'') (\<lambda>latency.
          Inr (caller_url addr port latency)))))"

definition pixel_source :: "session_prefs \<Rightarrow> string" where
  "pixel_source p = (if pf_pixel_source p = ''screen'' then ''screen'' else ''readback'')"

text \<open>\<open>_stream_descriptor\<close> of the replica.\<close>

definition session_stream :: "session_env \<Rightarrow> header \<Rightarrow> string \<Rightarrow> stream_params \<Rightarrow> py_error + header" where
  "session_stream env viewer addr sp = (let p = se_prefs env in
     err_bind (push_block viewer addr) (\<lambda>push.
       Inr ([(''enabled'', JBool (pf_enable_stream p)), (''port'', JInt (pf_srt_port p)),
             (''latency_ms'', JInt (pf_srt_latency_ms p)), (''source'', JStr (pixel_source p)),
             (''push'', JObj push)] @ stream_descriptor (se_num env) sp)))"

lemma takeWhile_until: "c \<notin> set a \<Longrightarrow> takeWhile (\<lambda>x. x \<noteq> c) (a @ c # p) = a"
  by (induction a) auto

lemma host_of_port:
  assumes "py_strip (a @ colon # p) = a @ colon # p" "colon \<notin> set a" "colon \<notin> set p"
    "\<not> startswith (a @ colon # p) ''[''"
  shows "host_of (a @ colon # p) = a"
  using assms by (simp add: host_of_def Let_def takeWhile_until)

end
