(* ===== verification/Session_Host.thy ===== *)
theory Session_Host
  imports Session_Common
begin

text \<open>
  The host's session (\<open>ring0/session.py\<close>) once \<open>_start_host\<close> has set it up: the handshake timer, the
  watch timer, the peer callback of the IO thread, the viewer card, the operators, and \<open>stop\<close>. The
  session holds the \<open>HostSync\<close> and with it the state of the transport. Blender drops a timer whose
  function returns None or raises; \<open>sh_timers\<close> counts the registered handshake timers. What
  \<open>colour_state.summary_rows\<close> formats for the card is a parameter; the notes, whose wording uses
  characters outside the model, are a datatype.
\<close>

subsection \<open>The card of the viewer\<close>

definition CARD_VERSION :: int where "CARD_VERSION = 1"

definition card_url :: "int \<Rightarrow> int \<Rightarrow> string \<Rightarrow> string" where
  "card_url port latency_ms passphrase =
     ''srt://0.0.0.0:'' @ int_text port @ ''?mode=listener&latency='' @ int_text (latency_ms * 1000)
     @ (if passphrase = [] then [] else ''&passphrase='' @ passphrase @ ''&pbkeylen=16'')"

definition build_card :: "string \<Rightarrow> int \<Rightarrow> int \<Rightarrow> string \<Rightarrow> header \<Rightarrow> json list \<Rightarrow> json list \<Rightarrow> header \<Rightarrow> string
    \<Rightarrow> string \<Rightarrow> json \<Rightarrow> header" where
  "build_card name port latency_ms passphrase colour rows mism stream note host_name ts =
     [(''v'', JInt CARD_VERSION), (''kind'', JStr ''blender''), (''name'', JStr name), (''host'', JStr host_name),
      (''url'', JStr (card_url port latency_ms passphrase)), (''port'', JInt port), (''latency_ms'', JInt latency_ms),
      (''status'', JStr note), (''colour'', JObj colour), (''rows'', JList rows), (''mismatches'', JList mism),
      (''stream'', JObj stream), (''ts'', ts)]"

definition card_digest :: "(byte list \<Rightarrow> string) \<Rightarrow> header \<Rightarrow> string" where
  "card_digest sha1 c = take 16 (sha1 (utf8_encode (dumps_sp (sort_keys (JObj (filter (\<lambda>(k, v). k \<noteq> ''ts'') c))))))"

subsection \<open>The state\<close>

datatype host_note = Note_Off | Note_Connecting | Note_Address string | Note_Connected | Note_Denied string
  | Note_Unreachable | Note_Lost | Note_Reconnected | Note_Restarted

record host_view =
  hv_session :: session_env
  hv_files :: host_files
  hv_status :: header
  hv_link_up :: bool
  hv_cm :: "header option"
  hv_new_epoch :: string
  hv_card_write :: "header \<Rightarrow> string + string"
  hv_colour_rows :: "json \<Rightarrow> json \<Rightarrow> json list"
  hv_row_json :: "cm_row \<Rightarrow> json"
  hv_note_text :: "host_note \<Rightarrow> string"
  hv_formats :: formats
  hv_host_name :: string

record 't session_core =
  sh_on :: bool
  sh_sync :: "'t host_sync"
  sh_epoch :: string
  sh_peer_epoch :: json
  sh_note :: host_note
  sh_req :: "int option"
  sh_sent_at :: time
  sh_armed :: bool
  sh_timers :: nat
  sh_watching :: bool
  sh_lost :: bool
  sh_reconnect :: bool

record 't session_host = "'t session_core" +
  sh_peer_addon :: json
  sh_peer_caps :: "json list"
  sh_peer_cm :: json
  sh_peer_stream :: json
  sh_cm :: header
  sh_mismatches :: "cm_row list"
  sh_shot :: bool
  sh_policy :: resync_policy
  sh_cm_at :: time
  sh_mappings :: "path_mapping list"
  sh_address_error :: string
  sh_fast_resyncs :: nat
  sh_auto_resyncs :: nat
  sh_delta_resyncs :: nat
  sh_card_path :: string
  sh_card_digest :: string
  sh_card_error :: string
  sh_agent_out :: "header list"

type_synonym ('a, 't) shx = "('a, 't session_host) sx"

definition on_sync :: "('a, 't host_sync) sx \<Rightarrow> ('a, 't) shx" where
  "on_sync m s = (case m (sh_sync s) of (r, y) \<Rightarrow> (r, s\<lparr>sh_sync := y\<rparr>))"

definition sh_request :: "'t transport \<Rightarrow> header \<Rightarrow> (int, 't) shx" where
  "sh_request tr msg = on_sync (hy_request tr msg)"

definition sh_now :: "host_view \<Rightarrow> time" where "sh_now hv = he_now (hv_files hv)"

text \<open>\<open>state["note"] = address_error or ...\<close>\<close>

definition note_or :: "host_note \<Rightarrow> string \<Rightarrow> host_note" where
  "note_or n address_error = (if address_error = [] then n else Note_Address address_error)"

subsection \<open>Colour state and the card\<close>

definition sh_refresh_cm :: "host_view \<Rightarrow> (bool, 't) shx" where
  "sh_refresh_cm hv s = (case hv_cm hv of None \<Rightarrow> (Inr False, s)
     | Some cm \<Rightarrow> (Inr (get_or cm ''digest'' JNull \<noteq> get_or (sh_cm s) ''digest'' JNull), s\<lparr>sh_cm := cm\<rparr>))"

definition sh_recompute :: "host_view \<Rightarrow> (unit, 't) shx" where
  "sh_recompute hv = sx_read (\<lambda>s. sx_bind
     (sx_lift (mismatches (se_float (hv_session hv)) (JObj (sh_cm s)) (sh_peer_cm s)))
     (\<lambda>rows. sx_mod (\<lambda>s. s\<lparr>sh_mismatches := rows\<rparr>)))"

definition card_now :: "host_view \<Rightarrow> 't session_host \<Rightarrow> py_error + header" where
  "card_now hv s = (let env = hv_session hv; p = se_prefs env in
     err_bind (obj_of (or_obj (sh_peer_stream s))) (\<lambda>stream.
     err_bind (deep_link_params (se_repr env) (se_float env) (hv_formats hv) (JObj (sh_cm s)) (sh_peer_cm s)
                 (get_true stream ''format'' (JObj []))) (\<lambda>colour.
     err_bind (secrets env (pf_token p)) (\<lambda>(_, passphrase).
       Inr (build_card (''Live '' @ [CHR 0xB7, CHR '' ''] @ (if he_filename (hv_files hv) = [] then ''Blender''
                                                         else he_filename (hv_files hv)))
              (nonzero_or (pf_viewer_port p) 9998) (nonzero_or (pf_srt_latency_ms p) 120) passphrase colour
              (hv_colour_rows hv (JObj (sh_cm s)) (sh_peer_cm s)) (map (hv_row_json hv) (sh_mismatches s)) stream
              (hv_note_text hv (sh_note s)) (hv_host_name hv) (se_num env (sh_now hv)))))))"

definition viewer_card_refresh :: "host_view \<Rightarrow> bool \<Rightarrow> (string, 't) shx" where
  "viewer_card_refresh hv force = sx_read (\<lambda>s.
     if \<not> sh_on s \<or> \<not> pf_viewer_push (se_prefs (hv_session hv)) \<or> \<not> pf_enable_stream (se_prefs (hv_session hv))
     then sx_return []
     else sx_bind (sx_lift (card_now hv s)) (\<lambda>c.
       let digest = card_digest (he_sha1 (hv_files hv)) c in
       if \<not> force \<and> digest = sh_card_digest s \<and> sh_card_path s \<noteq> [] then sx_return (sh_card_path s)
       else case hv_card_write hv c of
           Inl exc \<Rightarrow> sx_seq (sx_mod (\<lambda>s. s\<lparr>sh_card_error := exc\<rparr>)) (sx_return [])
         | Inr path \<Rightarrow> sx_seq (sx_mod (\<lambda>s. s\<lparr>sh_card_error := [], sh_card_digest := digest, sh_card_path := path\<rparr>))
                        (sx_return path)))"

subsection \<open>The handshake timer\<close>

definition hello_now :: "host_view \<Rightarrow> string \<Rightarrow> 't session_host \<Rightarrow> header" where
  "hello_now hv secret s = (let env = hv_session hv in
     make_hello secret (sh_epoch s) (se_blender env) (se_addon env) (hy_seq (sh_sync s)) (hy_seq_fast (sh_sync s))
       (rows_to_wire (sh_mappings s)) (shared_root_card env) (sh_cm s) (viewer_block (se_prefs env)))"

definition handshake_send :: "host_view \<Rightarrow> 't transport \<Rightarrow> (time option, 't) shx" where
  "handshake_send hv tr =
     sx_bind (sx_lift (secrets (hv_session hv) (pf_token (se_prefs (hv_session hv))))) (\<lambda>(secret, _).
     sx_bind (sh_refresh_cm hv) (\<lambda>_.
     sx_bind (sx_read (\<lambda>s. sh_request tr (hello_now hv secret s))) (\<lambda>k.
     sx_seq (sx_mod (\<lambda>s. s\<lparr>sh_req := Some k, sh_sent_at := sh_now hv\<rparr>)) (sx_return (Some (1 / 4))))))"

definition adopt_row :: "host_view \<Rightarrow> json \<Rightarrow> (unit, 't) shx" where
  "adopt_row hv theirs =
     sx_bind (sx_lift (adopt_pair_row (hv_session hv) (shared_root_card (hv_session hv)) theirs)) (\<lambda>fields. case fields of
       None \<Rightarrow> sx_return () | Some f \<Rightarrow> sx_mod (\<lambda>s. s\<lparr>sh_agent_out := sh_agent_out s @ [f]\<rparr>))"

definition policy_reset :: "header \<Rightarrow> 't session_host \<Rightarrow> 't session_host" where
  "policy_reset status s = s\<lparr>sh_policy := rp_reset (if status = [] then None else Some (rp_state status)) (sh_policy s)\<rparr>"

text \<open>An accepted handshake up to the statements that end it.\<close>

definition handshake_body :: "host_view \<Rightarrow> 't transport \<Rightarrow> header \<Rightarrow> (unit, 't) shx" where
  "handshake_body hv tr reply =
     sx_seq (sx_mod (\<lambda>s. s\<lparr>sh_peer_epoch := get_or reply ''epoch'' JNull,
                          sh_peer_stream := get_true reply ''stream'' (JObj [])\<rparr>))
    (sx_seq (adopt_row hv (get_true reply ''shared_root'' (JObj [])))
    (sx_seq (sx_mod (\<lambda>s. s\<lparr>sh_peer_addon := get_or reply ''addon'' (JStr [])\<rparr>))
    (sx_bind (sx_lift (as_list (get_true reply ''caps'' (JList [])))) (\<lambda>caps.
     sx_seq (sx_mod (\<lambda>s. s\<lparr>sh_peer_caps := caps, sh_peer_cm := get_true reply ''cm'' (JObj [])\<rparr>))
    (sx_seq (sh_recompute hv)
    (sx_seq (sx_mod (\<lambda>s. s\<lparr>sh_note := Note_Connected\<rparr>))
    (sx_seq (sx_read (\<lambda>s. sx_bind (sx_lift (obj_of (or_obj (sh_peer_stream s)))) (\<lambda>_. sx_return ())))
    (sx_seq (sx_mod (policy_reset (hv_status hv)))
    (sx_seq (on_sync (send_bootstrap (hv_files hv) tr))
    (sx_bind (viewer_card_refresh hv False) (\<lambda>_.
     sx_bind (sx_read (\<lambda>s. sh_request tr [(''kind'', JStr ''shot''), (''on'', JBool (sh_shot s))])) (\<lambda>_.
     sx_return ()))))))))))))"

definition handshake_accept :: "host_view \<Rightarrow> 't transport \<Rightarrow> header \<Rightarrow> (time option, 't) shx" where
  "handshake_accept hv tr reply = sx_seq (handshake_body hv tr reply)
     (sx_seq (sx_mod (\<lambda>s. s\<lparr>sh_req := None, sh_armed := False\<rparr>)) (sx_return None))"

definition handshake_deny :: "host_view \<Rightarrow> header \<Rightarrow> (time option, 't) shx" where
  "handshake_deny hv reply =
     sx_seq (sx_mod (\<lambda>s. s\<lparr>sh_note := Note_Denied (py_str (se_repr (hv_session hv)) (get_or reply ''reason'' (JStr []))),
                          sh_req := None\<rparr>)) (sx_return (Some HANDSHAKE_RETRY))"

definition handshake :: "host_view \<Rightarrow> 't transport \<Rightarrow> (time option, 't) shx" where
  "handshake hv tr = sx_read (\<lambda>s.
     if \<not> sh_on s then sx_return None
     else case sh_req s of
         None \<Rightarrow> handshake_send hv tr
       | Some k \<Rightarrow> sx_bind (on_sync (hy_poll_reply tr k)) (\<lambda>reply. case reply of
             Some r \<Rightarrow> if truthy r ''ok'' then handshake_accept hv tr r else handshake_deny hv r
           | None \<Rightarrow> if sh_now hv - sh_sent_at s > HANDSHAKE_TIMEOUT
               then sx_seq (on_sync (hy_cancel tr k))
                      (sx_seq (sx_mod (\<lambda>s. s\<lparr>sh_req := None, sh_note := note_or Note_Unreachable (sh_address_error s)\<rparr>))
                         (sx_return (Some HANDSHAKE_RETRY)))
               else sx_return (Some (1 / 4))))"

text \<open>\<open>_arm_handshake\<close>; registering the timer counts it.\<close>

definition arm_handshake :: "host_view \<Rightarrow> host_note \<Rightarrow> bool \<Rightarrow> 't session_host \<Rightarrow> 't session_host" where
  "arm_handshake hv note new_epoch s =
     (if sh_armed s then s
      else s\<lparr>sh_epoch := (if new_epoch then hv_new_epoch hv else sh_epoch s), sh_armed := True, sh_req := None,
             sh_note := note, sh_timers := sh_timers s + 1\<rparr>)"

subsection \<open>The watch timer\<close>

text \<open>The fast log's test on what the pong reports: an integer or null.\<close>

definition covers_json :: "fast_log \<Rightarrow> json \<Rightarrow> bool" where
  "covers_json l v = fl_covers (case v of JInt n \<Rightarrow> Some n | _ \<Rightarrow> None) l"

definition cap_names :: "json list \<Rightarrow> string list" where
  "cap_names caps = List.map_filter (\<lambda>v. case v of JStr c \<Rightarrow> Some c | _ \<Rightarrow> None) caps"

definition watch_colour :: "host_view \<Rightarrow> 't transport \<Rightarrow> (unit, 't) shx" where
  "watch_colour hv tr = sx_read (\<lambda>s. sx_when (sh_now hv - sh_cm_at s \<ge> 1)
     (sx_seq (sx_mod (\<lambda>s. s\<lparr>sh_cm_at := sh_now hv\<rparr>))
     (sx_seq (sx_bind (sh_refresh_cm hv) (\<lambda>moved. sx_when moved
        (sx_seq (sh_recompute hv)
           (sx_read (\<lambda>s. sx_when (\<not> sh_armed s \<and> ''cm'' \<in> set (cap_names (sh_peer_caps s)))
              (sx_bind (sh_request tr [(''kind'', JStr ''cm''), (''cm'', JObj (sh_cm s))]) (\<lambda>_. sx_return ())))))))
      (sx_when (\<not> sh_armed s) (sx_bind (viewer_card_refresh hv False) (\<lambda>_. sx_return ()))))))"

definition watch_peer_cm :: "host_view \<Rightarrow> (unit, 't) shx" where
  "watch_peer_cm hv = (case get_or (hv_status hv) ''cm'' JNull of
     JObj cm \<Rightarrow> sx_when (truthy cm ''digest'')
       (sx_read (\<lambda>s. sx_bind (sx_lift (obj_of (or_obj (sh_peer_cm s)))) (\<lambda>old.
          sx_when (get_or cm ''digest'' JNull \<noteq> get_or old ''digest'' JNull)
            (sx_seq (sx_mod (\<lambda>s. s\<lparr>sh_peer_cm := JObj cm\<rparr>)) (sh_recompute hv)))))
   | _ \<Rightarrow> sx_return ())"

text \<open>The trace mark reads the stream's format and its working space.\<close>

definition watch_stream :: "host_view \<Rightarrow> (unit, 't) shx" where
  "watch_stream hv = (case get_or (hv_status hv) ''stream'' JNull of
     JObj st \<Rightarrow> sx_read (\<lambda>s. sx_when (st \<noteq> [] \<and> JObj st \<noteq> sh_peer_stream s)
       (sx_seq (sx_mod (\<lambda>s. s\<lparr>sh_peer_stream := JObj st\<rparr>))
          (sx_bind (sx_lift (err_bind (obj_of (get_true st ''format'' (JObj []))) (\<lambda>f. obj_of (get_or f ''working'' (JObj [])))))
             (\<lambda>_. sx_return ()))))
   | _ \<Rightarrow> sx_return ())"

definition watch_libs :: "host_view \<Rightarrow> 't transport \<Rightarrow> (unit, 't) shx" where
  "watch_libs hv tr = sx_read (\<lambda>s. sx_when (\<not> sh_armed s \<and> truthy (hv_status hv) ''need_libs'')
     (sx_bind (sx_lift (as_list (get_or (hv_status hv) ''need_libs'' JNull))) (\<lambda>paths.
        on_sync (serve_lib_requests (hv_files hv) tr (map (py_str (se_repr (hv_session hv))) paths)))))"

definition auto_bootstrap :: "host_view \<Rightarrow> 't transport \<Rightarrow> (unit, 't) shx" where
  "auto_bootstrap hv tr = sx_seq (on_sync (send_bootstrap (hv_files hv) tr))
     (sx_mod (\<lambda>s. s\<lparr>sh_auto_resyncs := sh_auto_resyncs s + 1\<rparr>))"

definition repair_delta :: "host_view \<Rightarrow> 't transport \<Rightarrow> (unit, 't) shx" where
  "repair_delta hv tr = sx_read (\<lambda>s. case plan_from_manifest (hv_files hv) (hv_status hv) (sh_sync s) of
     None \<Rightarrow> (case rp_allow_full (sh_now hv) (sh_policy s) of (ok, p) \<Rightarrow>
       sx_seq (sx_mod (\<lambda>s. s\<lparr>sh_policy := p\<rparr>)) (sx_when ok (auto_bootstrap hv tr)))
   | Some plan \<Rightarrow> sx_seq (on_sync (send_delta (hv_files hv) tr plan))
       (sx_mod (\<lambda>s. s\<lparr>sh_delta_resyncs := sh_delta_resyncs s + 1\<rparr>)))"

definition act_on :: "host_view \<Rightarrow> 't transport \<Rightarrow> verdict \<Rightarrow> (unit, 't) shx" where
  "act_on hv tr v = (case v of
     VNone \<Rightarrow> sx_return ()
   | VFast \<Rightarrow> sx_bind (sx_lift (as_int (get_true (hv_status hv) ''fast_gap_at'' (JInt 0)))) (\<lambda>g.
       sx_bind (on_sync (resend_fast_window (Some g))) (\<lambda>_. sx_mod (\<lambda>s. s\<lparr>sh_fast_resyncs := sh_fast_resyncs s + 1\<rparr>)))
   | VDelta \<Rightarrow> repair_delta hv tr
   | VFull \<Rightarrow> auto_bootstrap hv tr)"

definition wants_delta :: "header \<Rightarrow> string list \<Rightarrow> bool" where
  "wants_delta status caps \<longleftrightarrow> truthy status ''want_resync'' \<and> CAP_DELTA \<in> set caps
     \<and> get_or status ''gap_lane'' JNull \<in> {JStr ''cold'', JStr ''both'', JStr ''unknown''}"

definition watch_repair :: "host_view \<Rightarrow> 't transport \<Rightarrow> (unit, 't) shx" where
  "watch_repair hv tr = sx_read (\<lambda>s. sx_when (\<not> sh_armed s)
     (let status = hv_status hv; caps = cap_names (sh_peer_caps s) in
      sx_bind (if wants_delta status caps
               then sx_bind (on_sync (delta_state (hv_files hv) tr status)) (\<lambda>d. sx_return (Some d))
               else sx_return None) (\<lambda>delta.
      sx_read (\<lambda>s. case rp_decide status (sh_now hv) (Some caps) (Some (covers_json (hy_fastlog (sh_sync s)))) delta
                        (sh_policy s) of
         (v, p) \<Rightarrow> sx_seq (sx_mod (\<lambda>s. s\<lparr>sh_policy := p\<rparr>)) (act_on hv tr v)))))"

definition watch_pong :: "host_view \<Rightarrow> 't transport \<Rightarrow> (unit, 't) shx" where
  "watch_pong hv tr = sx_do
     [watch_colour hv tr, watch_peer_cm hv, watch_stream hv,
      sx_bind (sx_lift (obj_of (get_true (hv_status hv) ''readback'' (JObj [])))) (\<lambda>_. sx_return ()),
      watch_libs hv tr, watch_repair hv tr]"

text \<open>One call of \<open>_watch\<close>; the panel's mirror of the agent's table is left out.\<close>

definition watch :: "host_view \<Rightarrow> 't transport \<Rightarrow> (time option, 't) shx" where
  "watch hv tr = sx_read (\<lambda>s.
     if \<not> sh_on s then sx_return None
     else sx_seq (sx_when (sh_lost s \<and> \<not> sh_reconnect s \<and> \<not> sh_armed s) (sx_mod (\<lambda>s. s\<lparr>sh_note := Note_Lost\<rparr>)))
       (if sh_reconnect s
        then sx_seq (sx_mod (\<lambda>s. arm_handshake hv Note_Reconnected True (s\<lparr>sh_reconnect := False, sh_lost := False\<rparr>)))
               (sx_return (Some (1 / 4)))
        else if \<not> sh_armed s \<and> replica_restarted (hv_status hv) (sh_peer_epoch s)
        then sx_seq (sx_mod (arm_handshake hv Note_Restarted True)) (sx_return (Some (1 / 4)))
        else sx_seq (watch_pong hv tr) (sx_return (Some (1 / 4)))))"

subsection \<open>The other entries\<close>

text \<open>The IO thread's callback: only flags.\<close>

definition on_peer :: "host_view \<Rightarrow> bool \<Rightarrow> 't session_host \<Rightarrow> 't session_host" where
  "on_peer hv alive s =
     (if \<not> alive
      then if hv_link_up hv \<and> boot_in_flight (sh_now hv) 30 (sh_sync s) then s else s\<lparr>sh_lost := True\<rparr>
      else if sh_lost s then s\<lparr>sh_reconnect := True\<rparr> else s)"

definition shot_mode_toggle :: "'t transport \<Rightarrow> (string, 't) shx" where
  "shot_mode_toggle tr = sx_read (\<lambda>s.
     if \<not> sh_on s then sx_return ''not a running host session''
     else sx_seq (sx_mod (\<lambda>s. s\<lparr>sh_shot := \<not> sh_shot s\<rparr>))
       (sx_bind (sx_read (\<lambda>s. sh_request tr [(''kind'', JStr ''shot''), (''on'', JBool (sh_shot s))]))
          (\<lambda>_. sx_return ''ok'')))"

definition replica_zoom :: "'t transport \<Rightarrow> json \<Rightarrow> bool \<Rightarrow> (string, 't) shx" where
  "replica_zoom tr delta back = sx_read (\<lambda>s.
     if \<not> sh_on s then sx_return ''not a running host session''
     else sx_bind (sh_request tr [(''kind'', JStr ''zoom''), (''delta'', delta), (''reset'', JBool back)])
            (\<lambda>_. sx_return ''ok''))"

definition force_resync :: "host_view \<Rightarrow> 't transport \<Rightarrow> (string, 't) shx" where
  "force_resync hv tr = sx_read (\<lambda>s.
     if \<not> sh_on s then sx_return ''not a running host session''
     else sx_seq (on_sync (send_bootstrap (hv_files hv) tr)) (sx_return ''ok''))"

definition viewer_url :: "session_env \<Rightarrow> 't session_host \<Rightarrow> py_error + string" where
  "viewer_url env s =
     (if \<not> sh_on s then Inr []
      else err_bind (obj_of (or_obj (sh_peer_stream s))) (\<lambda>stream.
        if \<not> truthy stream ''enabled'' then Inr []
        else err_bind (effective_peer_host env) (\<lambda>addr.
          if addr = [] then Inr []
          else err_bind (py_int (get_or stream ''latency_ms'' (JInt 120))) (\<lambda>latency.
            err_bind (secrets env (pf_token (se_prefs env))) (\<lambda>(_, passphrase).
              Inr (''srt://'' @ addr @ '':'' @ py_str (se_repr env) (get_or stream ''port'' (JInt 9998))
                   @ ''?mode=caller&latency='' @ int_text (latency * 1000)
                   @ (if passphrase = [] then [] else ''&passphrase='' @ passphrase @ ''&pbkeylen=16'')))))))"

text \<open>\<open>_start_host\<close> after the transport is attached: the rows are read once, the timers registered.\<close>

definition start_host :: "host_view \<Rightarrow> string \<Rightarrow> string \<Rightarrow> 't host_sync \<Rightarrow> 't session_host \<Rightarrow> (py_error + unit) \<times> 't session_host" where
  "start_host hv epoch address_error sync s =
     (case effective_mappings (hv_session hv) of Inl e \<Rightarrow> (Inl e, s)
      | Inr rows \<Rightarrow> (Inr (), arm_handshake hv (note_or Note_Connecting address_error) False
          (s\<lparr>sh_on := True, sh_sync := sync, sh_epoch := epoch, sh_peer_epoch := JNull, sh_req := None, sh_sent_at := 0,
             sh_armed := False, sh_timers := 0, sh_watching := True, sh_lost := False, sh_reconnect := False,
             sh_cm_at := 0, sh_mappings := rows, sh_address_error := address_error,
             sh_policy := rp_init 10 1,
             sh_agent_out := sh_agent_out s @ (case push_paths (hv_session hv) of None \<Rightarrow> [] | Some f \<Rightarrow> [f])\<rparr>)))"

text \<open>\<open>stop\<close>: the goodbye, then the state as it was before; the timers of the session find another
  transport and end.\<close>

definition stop_host :: "'t transport \<Rightarrow> (unit, 't) shx" where
  "stop_host tr = sx_bind (sx_read (\<lambda>s. if sh_on s then sx_bind (sh_request tr [(''kind'', JStr ''goodbye'')]) (\<lambda>_. sx_return ())
                                       else sx_return ()))
     (\<lambda>_. sx_mod (\<lambda>s. s\<lparr>sh_on := False, sh_peer_epoch := JNull, sh_peer_stream := JObj [], sh_shot := False, sh_note := Note_Off,
        sh_peer_addon := JNull, sh_cm := [], sh_peer_cm := JObj [], sh_mismatches := [],
        sh_card_path := [], sh_card_digest := [], sh_card_error := []\<rparr>))"

end
