(* ===== verification/Replica_State.thy ===== *)
theory Replica_State
  imports State_Exc Merge Resync Pathmap Visview
begin

text \<open>
  The module state of \<open>ring0/replica_apply.py\<close> and what its apply loop reads and writes outside:
  Blender is a state \<open>'w\<close> changed through the operations of \<open>world_ops\<close>, the transport's receiving
  side a state \<open>'r\<close> with the operations of \<open>receiver\<close>. The clock is read once per tick; how many
  messages and blobs fit into the time budgets is given by \<open>re_room\<close> and \<open>re_over\<close>, so
  every statement holds for any speed. Log marks and the text of \<open>last_error\<close> are left out.
\<close>

text \<open>What opening a file answers: the errors, what could not be placed, the local project directory.\<close>

record load_result =
  ld_errors :: nat
  ld_unmapped :: nat
  ld_unmapped_entries :: "string list"
  ld_project_dir :: string

record 'w world_ops =
  wo_stamped :: "'w \<Rightarrow> (uuid, int) dict"
  wo_alive :: "int \<Rightarrow> 'w \<Rightarrow> bool"
  wo_write :: "int \<Rightarrow> string \<Rightarrow> json \<Rightarrow> 'w \<Rightarrow> (py_error + unit) \<times> 'w"
  wo_remove :: "int \<Rightarrow> 'w \<Rightarrow> (py_error + unit) \<times> 'w"
  wo_apply_blob :: "byte list \<Rightarrow> string \<Rightarrow> path_mapping list \<Rightarrow> string \<Rightarrow> (uuid, int) dict \<Rightarrow> 'w
     \<Rightarrow> (py_error + nat) \<times> (uuid, int) dict \<times> 'w"
  wo_mainfile :: "byte list \<Rightarrow> string \<Rightarrow> json \<Rightarrow> path_mapping list \<Rightarrow> 'w \<Rightarrow> (py_error + load_result) \<times> 'w"
  wo_libs :: "'w \<Rightarrow> (int \<times> string) list"
  wo_drop_lib :: "int \<Rightarrow> 'w \<Rightarrow> 'w"
  wo_link :: "string \<Rightarrow> string list \<Rightarrow> string list \<Rightarrow> 'w \<Rightarrow> (py_error + unit) \<times> 'w"
  wo_linked :: "string \<Rightarrow> 'w \<Rightarrow> string list \<times> string list"
  wo_relink :: "int \<Rightarrow> string \<Rightarrow> 'w \<Rightarrow> (py_error + unit) \<times> 'w"
  wo_exists :: "string \<Rightarrow> 'w \<Rightarrow> bool"
  wo_cache :: "string \<Rightarrow> byte list \<Rightarrow> 'w \<Rightarrow> (py_error + string) \<times> 'w"
  wo_frozen_caches :: "'w \<Rightarrow> nat"
  wo_view :: "'w \<Rightarrow> bool"
  wo_project_loaded :: "'w \<Rightarrow> (py_error + unit) \<times> 'w"
  wo_probe :: "hot_state \<Rightarrow> 'w \<Rightarrow> 'w"
  wo_hot :: "byte list \<Rightarrow> bool \<Rightarrow> bool \<Rightarrow> real \<Rightarrow> 'w \<Rightarrow> (py_error + unit) \<times> 'w"
  wo_vis :: "vis_sig \<Rightarrow> 'w \<Rightarrow> ((py_error + unit) \<times> bool) \<times> 'w"
  wo_goodbye :: "'w \<Rightarrow> 'w"

record 'r receiver =
  rc_poll_hot :: "'r \<Rightarrow> byte list option"
  rc_hot_keyed :: "('r \<Rightarrow> (byte list, byte list) dict) option"
  rc_poll_fast :: "(nat \<Rightarrow> 'r \<Rightarrow> (header \<times> byte list) list \<times> 'r) option"
  rc_poll_cold :: "nat \<Rightarrow> 'r \<Rightarrow> (header \<times> byte list) list \<times> 'r"

record replica_env =
  re_now :: time
  re_room :: nat
  re_over :: "nat \<Rightarrow> bool"
  re_digest :: "byte list \<Rightarrow> string"
  re_sha1 :: "byte list \<Rightarrow> string"
  re_home :: string
  re_os :: string

definition REPLICA_TICK :: time where "REPLICA_TICK = 15 / 1000"
definition REASSERT_S :: time where "REASSERT_S = 1"
definition TOUCH_GRACE :: time where "TOUCH_GRACE = 3 / 2"
definition BLOB_GRACE :: time where "BLOB_GRACE = 3"
definition FRAME_GRACE :: time where "FRAME_GRACE = 1 / 2"
definition BATCH_MAX :: nat where "BATCH_MAX = 16"
definition BURST_WAIT_S :: time where "BURST_WAIT_S = 1 / 10"
definition MANIFESTS_AHEAD_MAX :: nat where "MANIFESTS_AHEAD_MAX = 256"
definition BOOT_SETTLE_S :: time where "BOOT_SETTLE_S = 2"

subsection \<open>The state\<close>

record replica_stats =
  rt_seq :: int
  rt_seq_fast :: int
  rt_gaps :: nat
  rt_applied_t1 :: nat
  rt_applied_t2 :: nat
  rt_apply_errors :: nat
  rt_unknown_uuid :: nat
  rt_bootstraps :: nat
  rt_unmapped_paths :: nat
  rt_unmapped_names :: "string list"
  rt_need_libs :: "string list"
  rt_libs_cached :: nat
  rt_libs_missing :: "string list"
  rt_host_ended :: bool
  rt_applying :: json
  rt_want_resync :: bool
  rt_parked :: nat
  rt_cold_applied :: int
  rt_fast_applied :: int
  rt_fast_gap_at :: "int option"
  rt_gap_lane :: string
  rt_resyncs :: nat
  rt_held_n :: nat
  rt_held_digest :: string
  rt_scene_digest :: json
  rt_local_edits :: nat
  rt_batches :: nat
  rt_evaluations :: nat
  rt_frozen_caches :: nat

type_synonym pending_blob = "header \<times> byte list \<times> int option"

record ('w, 'r) replica_core =
  ry_world :: 'w
  ry_rx :: 'r
  ry_stats :: replica_stats
  ry_merger :: merger
  ry_uuid_map :: "(uuid, int) dict"
  ry_reassembler :: reassembler
  ry_inbox :: "(header \<times> byte list) list"
  ry_inbox_fast :: "(header \<times> byte list) list"
  ry_blob_by_uuid :: "(json, json) dict"
  ry_at_state :: "(uuid, (string, json) dict) dict"
  ry_pending :: "pending_blob list"
  ry_pending_last_at :: time
  ry_pending_more :: bool
  ry_unknown_gap :: bool
  ry_held :: "(uuid, string) dict"
  ry_held_version :: nat
  ry_held_digest_cache :: "nat option \<times> string"
  ry_boot_gen :: "int option"
  ry_manifests :: "header list"

record ('w, 'r) replica = "('w, 'r) replica_core" +
  ry_touched :: "(json, time) dict"
  ry_quiet_until :: time
  ry_last_hot :: "byte list option"
  ry_last_hot_applied :: time
  ry_last_vis_raw :: "byte list option"
  ry_last_vis_applied :: time
  ry_last_boot_applied :: time
  ry_mappings :: "path_mapping list"
  ry_project_dir :: string
  ry_goodbye :: bool
  ry_new_session :: bool
  ry_new_session_seqs :: "int \<times> int"
  ry_zoom_offset :: real
  ry_shot_on :: bool
  ry_fit_pending :: bool
  ry_fit_zoom :: "real option"
  ry_measure_at :: time
  ry_shot_restore :: bool
  ry_running :: bool

type_synonym ('a, 'w, 'r) rx = "('a, ('w, 'r) replica) sx"

definition on_stats :: "(replica_stats \<Rightarrow> replica_stats) \<Rightarrow> (unit, 'w, 'r) rx" where
  "on_stats f = sx_mod (\<lambda>s. s\<lparr>ry_stats := f (ry_stats s)\<rparr>)"

definition count_error :: "(unit, 'w, 'r) rx" where
  "count_error = on_stats (\<lambda>t. t\<lparr>rt_apply_errors := rt_apply_errors t + 1\<rparr>)"

text \<open>A world operation, whose error is the caller's business.\<close>

definition on_world :: "('w \<Rightarrow> (py_error + 'a) \<times> 'w) \<Rightarrow> (py_error + 'a, 'w, 'r) rx" where
  "on_world f s = (case f (ry_world s) of (r, w) \<Rightarrow> (Inr r, s\<lparr>ry_world := w\<rparr>))"

definition on_merger :: "(merger \<Rightarrow> merger) \<Rightarrow> (unit, 'w, 'r) rx" where
  "on_merger f = sx_mod (\<lambda>s. s\<lparr>ry_merger := f (ry_merger s)\<rparr>)"

text \<open>A merger operation that answers or raises, and one of the reassembler.\<close>

definition ask_merger :: "(merger \<Rightarrow> (py_error + 'a) \<times> merger) \<Rightarrow> ('a, 'w, 'r) rx" where
  "ask_merger f s = (case f (ry_merger s) of (r, m) \<Rightarrow> (r, s\<lparr>ry_merger := m\<rparr>))"

definition ask_reassembler :: "(reassembler \<Rightarrow> (py_error + 'a) \<times> reassembler) \<Rightarrow> ('a, 'w, 'r) rx" where
  "ask_reassembler f s = (case f (ry_reassembler s) of (r, q) \<Rightarrow> (r, s\<lparr>ry_reassembler := q\<rparr>))"

end
