(* ===== verification/Replica_Apply.thy ===== *)
theory Replica_Apply
  imports Replica_State Transport_Agent
begin

text \<open>
  The apply loop of \<open>ring0/replica_apply.py\<close>: deltas, tombstones, libraries and completed blobs, the
  batch they apply in, the order the merger gives them, the inventory, sessions, and one tick.
\<close>

subsection \<open>Gaps and the inventory\<close>

definition refresh_gap_stats :: "(unit, 'w, 'r) rx" where
  "refresh_gap_stats = sx_mod (\<lambda>s. let m = ry_merger s; lane = mg_gap_lane m in
     s\<lparr>ry_stats := (ry_stats s)\<lparr>rt_cold_applied := mg_cold_applied m, rt_fast_applied := mg_fast_applied m,
         rt_fast_gap_at := sq_first_missing (mg_fast m),
         rt_gap_lane := (if ry_unknown_gap s \<and> lane = [] then ''unknown'' else lane)\<rparr>\<rparr>)"

definition end_resync :: "header \<Rightarrow> (unit, 'w, 'r) rx" where
  "end_resync h = sx_do
     [if is_fast h then on_merger mg_clear_fast_gap
      else sx_seq (on_merger mg_clear_cold_gap) (sx_mod (\<lambda>s. s\<lparr>ry_unknown_gap := False\<rparr>)),
      on_stats (\<lambda>t. t\<lparr>rt_resyncs := rt_resyncs t + 1\<rparr>), refresh_gap_stats,
      on_stats (\<lambda>t. t\<lparr>rt_want_resync := rt_gap_lane t \<noteq> []\<rparr>)]"

definition held_set :: "uuid \<Rightarrow> string option \<Rightarrow> (unit, 'w, 'r) rx" where
  "held_set u digest = sx_mod (\<lambda>s. s\<lparr>ry_held := (case digest of
       Some d \<Rightarrow> if d \<noteq> [] then dset u d (ry_held s) else dpop u (ry_held s)
     | None \<Rightarrow> dpop u (ry_held s)), ry_held_version := ry_held_version s + 1\<rparr>)"

definition held_clear :: "(unit, 'w, 'r) rx" where
  "held_clear = sx_mod (\<lambda>s. s\<lparr>ry_held := [], ry_held_version := ry_held_version s + 1\<rparr>)"

definition refresh_held_stats :: "replica_env \<Rightarrow> (unit, 'w, 'r) rx" where
  "refresh_held_stats env = sx_mod (\<lambda>s.
     let cache = (if fst (ry_held_digest_cache s) \<noteq> Some (ry_held_version s)
                  then (Some (ry_held_version s), manifest_digest (re_digest env) (ry_held s))
                  else ry_held_digest_cache s)
     in s\<lparr>ry_held_digest_cache := cache,
          ry_stats := (ry_stats s)\<lparr>rt_held_n := length (ry_held s), rt_held_digest := snd cache\<rparr>\<rparr>)"

definition held_snapshot :: "('w, 'r) replica \<Rightarrow> header" where
  "held_snapshot s = [(''kind'', JStr ''manifest''), (''held'', JObj (map (\<lambda>(u, d). (u, JStr d)) (ry_held s))),
     (''scene_digest'', rt_scene_digest (ry_stats s)),
     (''boot'', case ry_boot_gen s of None \<Rightarrow> JNull | Some n \<Rightarrow> JInt n)]"

definition notify_manifest :: "header \<Rightarrow> ('w, 'r) replica \<Rightarrow> ('w, 'r) replica" where
  "notify_manifest msg s = s\<lparr>ry_manifests := ry_manifests s @ [msg]\<rparr>"

text \<open>\<open>isinstance(boot, int) and boot > _boot_gen\<close>, and \<open>boot != _boot_gen\<close>.\<close>

definition boot_ahead :: "int option \<Rightarrow> header \<Rightarrow> bool" where
  "boot_ahead gen m = (case gen of None \<Rightarrow> True
     | Some g \<Rightarrow> (case get_or m ''boot'' JNull of JInt b \<Rightarrow> g < b | JBool b \<Rightarrow> g < of_bool b | _ \<Rightarrow> False))"

definition boot_same :: "int option \<Rightarrow> header \<Rightarrow> bool" where
  "boot_same gen m = (case gen of None \<Rightarrow> False | Some g \<Rightarrow> json_eq_int (get_or m ''boot'' JNull) g)"

definition adopt_digest :: "(json \<Rightarrow> string) \<Rightarrow> string \<times> json \<Rightarrow> (uuid, string) dict \<Rightarrow> (uuid, string) dict" where
  "adopt_digest py_repr e held = (case e of (u, d) \<Rightarrow>
     if dget held u = None \<and> json_true d then dset u (py_str py_repr d) held else held)"

fun manifest_loop :: "(json \<Rightarrow> string) \<Rightarrow> int option \<Rightarrow> header list \<Rightarrow> header list \<Rightarrow> (uuid, string) dict \<times> nat
    \<Rightarrow> header list \<times> (uuid, string) dict \<times> nat" where
  "manifest_loop py_repr gen [] keep (held, version) = (keep, held, version)"
| "manifest_loop py_repr gen (m # ms) keep (held, version) =
     (if boot_ahead gen m
      then manifest_loop py_repr gen ms (if length keep < MANIFESTS_AHEAD_MAX then keep @ [m] else keep) (held, version)
      else if \<not> boot_same gen m then manifest_loop py_repr gen ms keep (held, version)
      else case get_true m ''held'' (JObj []) of
        JObj es \<Rightarrow> manifest_loop py_repr gen ms keep (fold (adopt_digest py_repr) es held, version + 1)
      | _ \<Rightarrow> manifest_loop py_repr gen ms keep (held, version))"

definition merge_manifests :: "(json \<Rightarrow> string) \<Rightarrow> (unit, 'w, 'r) rx" where
  "merge_manifests py_repr = sx_mod (\<lambda>s.
     case manifest_loop py_repr (ry_boot_gen s) (ry_manifests s) [] (ry_held s, ry_held_version s) of
       (keep, held, version) \<Rightarrow> s\<lparr>ry_manifests := keep, ry_held := held, ry_held_version := version\<rparr>)"

subsection \<open>Datablocks\<close>

definition rebuild_uuid_map :: "'w world_ops \<Rightarrow> (unit, 'w, 'r) rx" where
  "rebuild_uuid_map ops = sx_mod (\<lambda>s. s\<lparr>ry_uuid_map := wo_stamped ops (ry_world s)\<rparr>)"

text \<open>A uuid is any JSON value a header carries; only a string names a datablock.\<close>

definition map_get :: "json \<Rightarrow> (uuid, int) dict \<Rightarrow> int option" where
  "map_get u d = (case u of JStr t \<Rightarrow> dget d t | _ \<Rightarrow> None)"

definition resolve :: "'w world_ops \<Rightarrow> json \<Rightarrow> (int option, 'w, 'r) rx" where
  "resolve ops u = (if \<not> hashable u then sx_raise TypeError
     else sx_read (\<lambda>s. case map_get u (ry_uuid_map s) of
       Some d \<Rightarrow> if wo_alive ops d (ry_world s) then sx_return (Some d)
                 else sx_seq (rebuild_uuid_map ops) (sx_read (\<lambda>s. sx_return (map_get u (ry_uuid_map s))))
     | None \<Rightarrow> sx_seq (rebuild_uuid_map ops) (sx_read (\<lambda>s. sx_return (map_get u (ry_uuid_map s))))))"

definition note_touched :: "replica_env \<Rightarrow> json \<Rightarrow> (unit, 'w, 'r) rx" where
  "note_touched env u = (if hashable u then sx_mod (\<lambda>s. s\<lparr>ry_touched := dset u (re_now env) (ry_touched s)\<rparr>)
     else sx_raise TypeError)"

definition quiet :: "replica_env \<Rightarrow> time \<Rightarrow> (unit, 'w, 'r) rx" where
  "quiet env secs = sx_mod (\<lambda>s. if re_now env + secs > ry_quiet_until s
     then s\<lparr>ry_quiet_until := re_now env + secs\<rparr> else s)"

definition keep_at_state :: "json \<Rightarrow> string \<Rightarrow> json \<Rightarrow> (unit, 'w, 'r) rx" where
  "keep_at_state u path v = (case u of
     JStr t \<Rightarrow> sx_mod (\<lambda>s. s\<lparr>ry_at_state := dset t
        (dset path v (case dget (ry_at_state s) t of None \<Rightarrow> [] | Some d \<Rightarrow> d)) (ry_at_state s)\<rparr>)
   | _ \<Rightarrow> sx_return ())"

text \<open>What \<open>for path, value in changes\<close> takes out of a decoded payload.\<close>

definition iter_items :: "json \<Rightarrow> py_error + json list" where
  "iter_items v = (case v of JList xs \<Rightarrow> Inr xs | JStr t \<Rightarrow> Inr (map (\<lambda>c. JStr [c]) t)
     | JObj kvs \<Rightarrow> Inr (map (JStr \<circ> fst) kvs) | _ \<Rightarrow> Inl TypeError)"

definition pair_of :: "json \<Rightarrow> py_error + json \<times> json" where
  "pair_of v = (case iter_items v of Inr [a, b] \<Rightarrow> Inr (a, b) | Inr _ \<Rightarrow> Inl ValueError | Inl e \<Rightarrow> Inl e)"

definition write_change :: "'w world_ops \<Rightarrow> json \<Rightarrow> int \<Rightarrow> json \<Rightarrow> json \<Rightarrow> (unit, 'w, 'r) rx" where
  "write_change ops u d path v = (case path of
     JStr p \<Rightarrow> sx_bind (on_world (wo_write ops d p v)) (\<lambda>r. case r of
         Inl _ \<Rightarrow> count_error
       | Inr _ \<Rightarrow> sx_seq (on_stats (\<lambda>t. t\<lparr>rt_applied_t1 := rt_applied_t1 t + 1\<rparr>))
           (sx_when (take 1 p = ''@'') (keep_at_state u p v)))
   | _ \<Rightarrow> count_error)"

definition changes_of :: "byte list \<Rightarrow> py_error + json list" where
  "changes_of payload = (case utf8_decode payload of None \<Rightarrow> Inl ValueError
     | Some t \<Rightarrow> (case loads t of None \<Rightarrow> Inl ValueError | Some v \<Rightarrow> iter_items v))"

definition unknown_datablock :: "(unit, 'w, 'r) rx" where
  "unknown_datablock = sx_do
     [on_stats (\<lambda>t. t\<lparr>rt_unknown_uuid := rt_unknown_uuid t + 1, rt_want_resync := True\<rparr>),
      sx_mod (\<lambda>s. s\<lparr>ry_unknown_gap := True\<rparr>), refresh_gap_stats]"

definition apply_t1 :: "'w world_ops \<Rightarrow> replica_env \<Rightarrow> header \<Rightarrow> byte list \<Rightarrow> (unit, 'w, 'r) rx" where
  "apply_t1 ops env h payload = sx_bind (sx_lift (item h ''uuid'')) (\<lambda>u.
     sx_bind (resolve ops u) (\<lambda>db. sx_do [note_touched env u, quiet env FRAME_GRACE,
       case db of
         None \<Rightarrow> unknown_datablock
       | Some d \<Rightarrow> sx_do
           [sx_when (truthy h ''sd'') (on_stats (\<lambda>t. t\<lparr>rt_scene_digest := get_or h ''sd'' JNull\<rparr>)),
            sx_bind (sx_lift (changes_of payload)) (sx_each (\<lambda>c.
              sx_bind (sx_lift (pair_of c)) (\<lambda>(path, v). write_change ops u d path v)))]]))"

definition forget_datablock :: "json \<Rightarrow> (unit, 'w, 'r) rx" where
  "forget_datablock u = (case u of
     JStr t \<Rightarrow> sx_seq (sx_mod (\<lambda>s. s\<lparr>ry_uuid_map := dpop t (ry_uuid_map s)\<rparr>)) (held_set t None)
   | _ \<Rightarrow> sx_return ())"

definition apply_tombstone :: "'w world_ops \<Rightarrow> replica_env \<Rightarrow> header \<Rightarrow> (unit, 'w, 'r) rx" where
  "apply_tombstone ops env h = sx_bind (sx_lift (item h ''uuid'')) (\<lambda>u. sx_do
     [note_touched env u, quiet env FRAME_GRACE,
      sx_bind (resolve ops u) (\<lambda>db. case db of
         None \<Rightarrow> sx_return ()
       | Some d \<Rightarrow> sx_do
           [sx_bind (on_world (wo_remove ops d)) (\<lambda>r. case r of Inl _ \<Rightarrow> count_error | Inr _ \<Rightarrow> sx_return ()),
            forget_datablock u, sx_mod (\<lambda>s. s\<lparr>ry_last_hot := None\<rparr>)])])"

subsection \<open>Libraries\<close>

definition base_name :: "string \<Rightarrow> string" where
  "base_name path = rev (takeWhile (\<lambda>c. c \<noteq> slash) (rev (to_slashes path)))"

definition lib_name :: "string \<Rightarrow> string" where
  "lib_name host_path = (if base_name host_path = [] then host_path else base_name host_path)"

definition request_lib :: "string \<Rightarrow> (unit, 'w, 'r) rx" where
  "request_lib host_path = on_stats (\<lambda>t.
     if host_path = [] \<or> host_path \<in> set (rt_need_libs t) \<or> lib_name host_path \<in> set (rt_libs_missing t) then t
     else t\<lparr>rt_need_libs := rt_need_libs t @ [host_path]\<rparr>)"

definition lib_missing_on_host :: "string \<Rightarrow> (unit, 'w, 'r) rx" where
  "lib_missing_on_host host_path = on_stats (\<lambda>t.
     t\<lparr>rt_need_libs := remove1 host_path (rt_need_libs t),
       rt_libs_missing := (if lib_name host_path \<in> set (rt_libs_missing t) then rt_libs_missing t
                           else rt_libs_missing t @ [lib_name host_path])\<rparr>)"

definition text_field :: "header \<Rightarrow> string \<Rightarrow> py_error + string" where
  "text_field h k = (case get_true h k (JStr []) of JStr t \<Rightarrow> Inr t | _ \<Rightarrow> Inl AttributeError)"

definition names_field :: "header \<Rightarrow> string \<Rightarrow> string list" where
  "names_field h k = (case get_true h k (JList []) of
     JList xs \<Rightarrow> List.map_filter (\<lambda>v. case v of JStr t \<Rightarrow> Some t | _ \<Rightarrow> None) xs | _ \<Rightarrow> [])"

definition localized :: "replica_env \<Rightarrow> string \<Rightarrow> ('w, 'r) replica \<Rightarrow> string" where
  "localized env path s = localize_any (re_os env) (re_home env) path (ry_mappings s)"

text \<open>\<open>os.path.basename\<close> on this machine; a library the file names and it cannot find: counted, named, asked for.\<close>

definition os_base_name :: "string \<Rightarrow> string \<Rightarrow> string" where
  "os_base_name os path = (if current_os_tag os = ''win'' then base_name path
     else rev (takeWhile (\<lambda>c. c \<noteq> slash) (rev path)))"

definition link_missing :: "string \<Rightarrow> string \<Rightarrow> string \<Rightarrow> (unit, 'w, 'r) rx" where
  "link_missing os host_path local = sx_seq
     (on_stats (\<lambda>t. t\<lparr>rt_unmapped_paths := rt_unmapped_paths t + 1,
        rt_unmapped_names := (if local \<notin> set (rt_unmapped_names t) \<and> length (rt_unmapped_names t) < 6
           then rt_unmapped_names t @ [if os_base_name os local = [] then local else os_base_name os local] else rt_unmapped_names t)\<rparr>))
     (request_lib host_path)"

definition apply_link :: "'w world_ops \<Rightarrow> replica_env \<Rightarrow> header \<Rightarrow> (unit, 'w, 'r) rx" where
  "apply_link ops env h = sx_seq (quiet env BLOB_GRACE) (sx_bind (sx_lift (text_field h ''lib'')) (\<lambda>host_path.
     sx_read (\<lambda>s. let local = localized env host_path s in
       if dget h ''kind'' = Some (JStr ''unlink'')
       then sx_mod (\<lambda>s. s\<lparr>ry_world := fold (\<lambda>(lib, p) w. if p = local \<or> p = host_path then wo_drop_lib ops lib w else w)
                                          (wo_libs ops (ry_world s)) (ry_world s)\<rparr>)
       else if \<not> wo_exists ops local (ry_world s) then link_missing (re_os env) host_path local
       else let (have, have_c) = wo_linked ops local (ry_world s) in
         sx_seq (sx_bind (on_world (wo_link ops local (filter (\<lambda>n. n \<notin> set have) (names_field h ''objects''))
                                       (filter (\<lambda>n. n \<notin> set have_c) (names_field h ''collections''))))
           (\<lambda>r. case r of Inl _ \<Rightarrow> count_error | Inr _ \<Rightarrow> on_stats (\<lambda>t. t\<lparr>rt_applied_t2 := rt_applied_t2 t + 1\<rparr>)))
           (rebuild_uuid_map ops))))"

definition libfile_name :: "(json \<Rightarrow> string) \<Rightarrow> header \<Rightarrow> string \<Rightarrow> string" where
  "libfile_name py_repr h host_path =
     (if truthy h ''name'' then py_str py_repr (get_or h ''name'' JNull)
      else if base_name host_path = [] then ''library.blend'' else base_name host_path)"

fun relink_all :: "'w world_ops \<Rightarrow> string set \<Rightarrow> string \<Rightarrow> string \<Rightarrow> (int \<times> string) list \<Rightarrow> nat \<Rightarrow> (nat, 'w, 'r) rx" where
  "relink_all ops wanted name cached [] n = sx_return n"
| "relink_all ops wanted name cached ((lib, p) # libs) n = sx_read (\<lambda>s.
     if p \<in> wanted \<or> (base_name p = name \<and> \<not> wo_exists ops p (ry_world s))
     then sx_bind (on_world (wo_relink ops lib cached)) (\<lambda>r. case r of
         Inl _ \<Rightarrow> sx_seq count_error (relink_all ops wanted name cached libs n)
       | Inr _ \<Rightarrow> relink_all ops wanted name cached libs (n + 1))
     else relink_all ops wanted name cached libs n)"

definition apply_libfile :: "(json \<Rightarrow> string) \<Rightarrow> 'w world_ops \<Rightarrow> replica_env \<Rightarrow> header \<Rightarrow> byte list \<Rightarrow> (unit, 'w, 'r) rx" where
  "apply_libfile py_repr ops env h data =
     (let host_path = py_str py_repr (get_true h ''lib'' (JStr []));
          name = libfile_name py_repr h host_path; sha1 = re_sha1 env data
      in if truthy h ''sha1'' \<and> get_or h ''sha1'' JNull \<noteq> JStr sha1 then count_error
      else sx_bind (on_world (wo_cache ops (take 16 sha1 @ ''-'' @ name) data)) (\<lambda>r. case r of
          Inl _ \<Rightarrow> count_error
        | Inr cached \<Rightarrow> sx_bind (sx_read (\<lambda>s. relink_all ops
              {host_path, if host_path = [] then [] else localized env host_path s, name} name cached
              (wo_libs ops (ry_world s)) 0)) (\<lambda>relinked.
            on_stats (\<lambda>t. let t1 = t\<lparr>rt_need_libs := remove1 host_path (rt_need_libs t), rt_libs_cached := rt_libs_cached t + 1\<rparr>
              in if rt_unmapped_paths t \<noteq> 0 \<and> relinked \<noteq> 0
                 then t1\<lparr>rt_unmapped_paths := rt_unmapped_paths t - relinked,
                         rt_unmapped_names := filter (\<lambda>n. n \<noteq> name) (rt_unmapped_names t)\<rparr>
                 else t1))))"

end
