(* ===== verification/Replica_Loop.thy ===== *)
theory Replica_Loop
  imports Replica_Apply
begin

text \<open>
  The order in which \<open>ring0/replica_apply.py\<close> applies: \<open>_dispatch\<close>, \<open>_apply_pending_batch\<close>,
  \<open>_process_cold\<close> and the tick around them. Only fast messages are ever parked, so releasing one
  goes through the fast half of \<open>_dispatch\<close>. The message-dropping test hooks are left out.
\<close>

subsection \<open>A message\<close>

definition kind_is :: "string \<Rightarrow> header \<Rightarrow> bool" where
  "kind_is k h \<longleftrightarrow> dget h ''kind'' = Some (JStr k)"

definition note_done_fast :: "header \<Rightarrow> (unit, 'w, 'r) rx" where
  "note_done_fast h = sx_bind (sx_lift (seq_of h)) (\<lambda>seq. on_merger (mg_fast_done_op seq))"

definition dispatch_fast :: "'w world_ops \<Rightarrow> replica_env \<Rightarrow> header \<Rightarrow> byte list \<Rightarrow> (unit, 'w, 'r) rx" where
  "dispatch_fast ops env h payload = sx_do
     [if kind_is ''t1'' h then apply_t1 ops env h payload
      else if kind_is ''tomb'' h then sx_seq (apply_tombstone ops env h) (refresh_held_stats env)
      else if kind_is ''resync_end'' h then end_resync h
      else sx_return (),
      note_done_fast h, refresh_gap_stats]"

definition note_parked :: "(unit, 'w, 'r) rx" where
  "note_parked = sx_mod (\<lambda>s. s\<lparr>ry_stats := (ry_stats s)\<lparr>rt_parked := mg_parked_count (ry_merger s)\<rparr>\<rparr>)"

definition release :: "'w world_ops \<Rightarrow> replica_env \<Rightarrow> (header \<times> byte list) list \<Rightarrow> (unit, 'w, 'r) rx" where
  "release ops env items = sx_seq (sx_each (\<lambda>(h, p). dispatch_fast ops env h p) items) note_parked"

definition cold_done :: "int option \<Rightarrow> ((header \<times> byte list) list, 'w, 'r) rx" where
  "cold_done seq = ask_merger (\<lambda>m. case mg_cold_done seq m of (due, m') \<Rightarrow> (Inr due, m'))"

definition release_cold :: "'w world_ops \<Rightarrow> replica_env \<Rightarrow> int option \<Rightarrow> (unit, 'w, 'r) rx" where
  "release_cold ops env seq = sx_bind (cold_done seq) (release ops env)"

text \<open>\<open>header["blob"]["id"]\<close>\<close>

definition blob_id :: "header \<Rightarrow> py_error + json" where
  "blob_id h = (case item h ''blob'' of Inl e \<Rightarrow> Inl e
     | Inr b \<Rightarrow> (case json_object b of None \<Rightarrow> Inl TypeError | Some d \<Rightarrow> item d ''id''))"

definition pending_boot :: "('w, 'r) replica \<Rightarrow> bool" where
  "pending_boot s \<longleftrightarrow> (\<exists>x \<in> set (ry_pending s). kind_is ''boot'' (fst x))"

definition pending_label :: "(json \<Rightarrow> string) \<Rightarrow> pending_blob list \<Rightarrow> json" where
  "pending_label py_repr ps = (case ps of [] \<Rightarrow> JStr []
     | (h, b, q) # rest \<Rightarrow> if rest = [] then get_or h ''name'' (JStr ''?'')
         else JStr (py_str py_repr (get_or h ''name'' (JStr ''?'')) @ '' +'' @ nat_text (length rest)))"

definition note_applying :: "(json \<Rightarrow> string) \<Rightarrow> (unit, 'w, 'r) rx" where
  "note_applying py_repr = sx_mod (\<lambda>s. s\<lparr>ry_stats := (ry_stats s)\<lparr>rt_applying := pending_label py_repr (ry_pending s)\<rparr>\<rparr>)"

definition blob_begins :: "json \<Rightarrow> json \<Rightarrow> (unit, 'w, 'r) rx" where
  "blob_begins u bid = (if \<not> hashable u then sx_raise TypeError else sx_mod (\<lambda>s.
     let r = (case dget (ry_blob_by_uuid s) u of
                Some stale \<Rightarrow> if json_true stale \<and> stale \<noteq> bid then rs_drop stale (ry_reassembler s) else ry_reassembler s
              | None \<Rightarrow> ry_reassembler s)
     in s\<lparr>ry_reassembler := r, ry_blob_by_uuid := dset u bid (ry_blob_by_uuid s)\<rparr>))"

definition blob_complete :: "(json \<Rightarrow> string) \<Rightarrow> replica_env \<Rightarrow> header \<Rightarrow> header \<times> byte list \<Rightarrow> int option \<Rightarrow> (unit, 'w, 'r) rx" where
  "blob_complete py_repr env h done seq = sx_do
     [sx_mod (\<lambda>s. s\<lparr>ry_blob_by_uuid := dpop (get_or h ''uuid'' (JStr [])) (ry_blob_by_uuid s)\<rparr>),
      sx_when (kind_is ''boot'' h) (sx_mod (\<lambda>s. s\<lparr>ry_pending := []\<rparr>)),
      sx_mod (\<lambda>s. s\<lparr>ry_pending_last_at := re_now env,
        ry_pending_more := truthy (fst done) ''more'' \<and> \<not> kind_is ''boot'' h,
        ry_pending := ry_pending s @ [(fst done, snd done, seq)]\<rparr>),
      note_applying py_repr]"

definition dispatch_cold :: "(json \<Rightarrow> string) \<Rightarrow> 'w world_ops \<Rightarrow> replica_env \<Rightarrow> header \<Rightarrow> byte list \<Rightarrow> (unit, 'w, 'r) rx" where
  "dispatch_cold py_repr ops env h payload = sx_bind (sx_lift (seq_of h)) (\<lambda>seq.
     if kind_is ''resync_end'' h then sx_seq (end_resync h) (release_cold ops env seq)
     else if kind_is ''t1'' h then sx_seq (apply_t1 ops env h payload) (release_cold ops env seq)
     else if kind_is ''tomb'' h then sx_seq (apply_tombstone ops env h) (release_cold ops env seq)
     else if kind_is ''link'' h \<or> kind_is ''unlink'' h then sx_seq (apply_link ops env h) (release_cold ops env seq)
     else if kind_is ''lib_missing'' h
       then (case get_true h ''lib'' (JStr []) of
               JStr lib \<Rightarrow> sx_seq (lib_missing_on_host lib) (release_cold ops env seq)
             | _ \<Rightarrow> sx_raise AttributeError)
     else if kind_is ''libfile'' h
       then sx_seq (sx_bind (sx_lift (blob_id h)) (\<lambda>_. sx_return ()))
         (sx_bind (ask_reassembler (rs_feed h payload)) (\<lambda>r. case r of
            None \<Rightarrow> sx_return ()
          | Some done \<Rightarrow> sx_seq (apply_libfile py_repr ops env (fst done) (snd done)) (release_cold ops env seq)))
     else if kind_is ''t2'' h \<or> kind_is ''boot'' h
       then sx_bind (sx_lift (blob_id h)) (\<lambda>bid.
         sx_seq (blob_begins (get_or h ''uuid'' (JStr [])) bid)
           (sx_bind (ask_reassembler (rs_feed h payload)) (\<lambda>r. case r of
              Some done \<Rightarrow> blob_complete py_repr env h done seq
            | None \<Rightarrow> release_cold ops env seq)))
     else sx_return ())"

definition dispatch :: "(json \<Rightarrow> string) \<Rightarrow> 'w world_ops \<Rightarrow> replica_env \<Rightarrow> header \<Rightarrow> byte list \<Rightarrow> (unit, 'w, 'r) rx" where
  "dispatch py_repr ops env h payload =
     (if is_fast h then dispatch_fast ops env h payload else dispatch_cold py_repr ops env h payload)"

subsection \<open>Applying a blob\<close>

fun split_at :: "char \<Rightarrow> nat \<Rightarrow> string \<Rightarrow> string list" where
  "split_at c 0 t = [t]"
| "split_at c (Suc n) t =
     (if c \<in> set t then takeWhile (\<lambda>x. x \<noteq> c) t # split_at c n (drop 1 (dropWhile (\<lambda>x. x \<noteq> c) t)) else [t])"

text \<open>\<open>int(header["blob"]["id"].split(".")[1])\<close>, None where it raises one of the three errors caught.\<close>

definition boot_gen_of :: "string \<Rightarrow> int option" where
  "boot_gen_of bid = (case split_at (CHR ''.'') 2 bid of (_ # g # _) \<Rightarrow> str_int g | _ \<Rightarrow> None)"

definition unmapped_name :: "string \<Rightarrow> string option" where
  "unmapped_name entry = (case split_at (CHR '':'') 2 entry of [_, name, _] \<Rightarrow> Some name | _ \<Rightarrow> None)"

definition unmapped_lib :: "string \<Rightarrow> string option" where
  "unmapped_lib entry = (case split_at (CHR '':'') 2 entry of
     [t, name, path] \<Rightarrow> if t = ''Library'' then Some path else None | _ \<Rightarrow> None)"

text \<open>The full file answers every hole known when it is applied.\<close>

definition boot_answers :: "(unit, 'w, 'r) rx" where
  "boot_answers = sx_do
     [on_stats (\<lambda>t. t\<lparr>rt_host_ended := False, rt_want_resync := False\<rparr>),
      sx_mod (\<lambda>s. s\<lparr>ry_unknown_gap := False\<rparr>),
      on_merger mg_clear_cold_gap, on_merger mg_clear_fast_gap, refresh_gap_stats]"

definition boot_loaded :: "'w world_ops \<Rightarrow> replica_env \<Rightarrow> header \<Rightarrow> string \<Rightarrow> load_result \<Rightarrow> (unit, 'w, 'r) rx" where
  "boot_loaded ops env h bid r = sx_do
     [sx_mod (\<lambda>s. s\<lparr>ry_project_dir := ld_project_dir r\<rparr>),
      on_stats (\<lambda>t. t\<lparr>rt_bootstraps := rt_bootstraps t + 1, rt_apply_errors := rt_apply_errors t + ld_errors r,
        rt_unmapped_paths := ld_unmapped r,
        rt_unmapped_names := List.map_filter unmapped_name (take 6 (ld_unmapped_entries r))\<rparr>),
      sx_each request_lib (List.map_filter unmapped_lib (ld_unmapped_entries r)),
      boot_answers,
      sx_mod (\<lambda>s. s\<lparr>ry_at_state := []\<rparr>), rebuild_uuid_map ops,
      sx_mod (\<lambda>s. s\<lparr>ry_last_boot_applied := re_now env\<rparr>), held_clear,
      on_stats (\<lambda>t. t\<lparr>rt_scene_digest := get_true h ''scene_digest'' (JStr [])\<rparr>),
      sx_mod (\<lambda>s. s\<lparr>ry_boot_gen := boot_gen_of bid\<rparr>),
      sx_bind (on_world (wo_project_loaded ops)) (\<lambda>r. sx_lift r)]"

definition blob_written :: "(json \<Rightarrow> string) \<Rightarrow> header \<Rightarrow> nat \<Rightarrow> (unit, 'w, 'r) rx" where
  "blob_written py_repr h errors = sx_seq
     (on_stats (\<lambda>t. t\<lparr>rt_applied_t2 := rt_applied_t2 t + 1, rt_apply_errors := rt_apply_errors t + errors\<rparr>))
     (sx_when (truthy h ''digest'') (case get_or h ''uuid'' (JStr []) of
        JStr u \<Rightarrow> held_set u (Some (py_str py_repr (get_or h ''digest'' JNull))) | _ \<Rightarrow> sx_return ()))"

definition apply_blob :: "'w world_ops \<Rightarrow> byte list \<Rightarrow> string \<Rightarrow> (nat, 'w, 'r) rx" where
  "apply_blob ops data tag s =
     (case wo_apply_blob ops data tag (ry_mappings s) (ry_project_dir s) (ry_uuid_map s) (ry_world s) of
        (r, umap, w) \<Rightarrow> (r, s\<lparr>ry_uuid_map := umap, ry_world := w\<rparr>))"

text \<open>The answer is the uuid whose state is put back, None after a bootstrap.\<close>

definition apply_one :: "(json \<Rightarrow> string) \<Rightarrow> 'w world_ops \<Rightarrow> replica_env \<Rightarrow> header \<Rightarrow> byte list \<Rightarrow> (json option, 'w, 'r) rx" where
  "apply_one py_repr ops env h data = sx_bind (sx_lift (blob_id h)) (\<lambda>bid. case bid of
     JStr name \<Rightarrow>
       let tag = replace_char (CHR ''.'') (CHR ''-'') name; u = get_or h ''uuid'' (JStr [])
       in sx_seq (note_touched env u)
         (if kind_is ''boot'' h
          then sx_bind (sx_read (\<lambda>s. on_world (wo_mainfile ops data tag (get_or h ''project_dir'' (JStr [])) (ry_mappings s))))
            (\<lambda>r. sx_bind (sx_lift r) (\<lambda>r. sx_seq (boot_loaded ops env h name r) (sx_return None)))
          else sx_bind (apply_blob ops data tag) (\<lambda>errors.
            sx_seq (blob_written py_repr h errors) (sx_return (Some u))))
   | _ \<Rightarrow> sx_raise AttributeError)"

definition reapply_at_state :: "'w world_ops \<Rightarrow> json \<Rightarrow> (unit, 'w, 'r) rx" where
  "reapply_at_state ops u = sx_read (\<lambda>s.
     case (case u of JStr t \<Rightarrow> dget (ry_at_state s) t | _ \<Rightarrow> None) of
       None \<Rightarrow> sx_return ()
     | Some saved \<Rightarrow> sx_when (saved \<noteq> []) (sx_bind (resolve ops u) (\<lambda>db. case db of
          None \<Rightarrow> sx_return ()
        | Some d \<Rightarrow> sx_each (\<lambda>(path, v). sx_bind (on_world (wo_write ops d path v))
            (\<lambda>r. case r of Inl _ \<Rightarrow> count_error | Inr _ \<Rightarrow> sx_return ())) saved)))"

subsection \<open>The batch\<close>

text \<open>
  One blob of the batch: out of the queue, applied with its error counted, its sequence noted done.
  \<open>batch_loop\<close> has the number of waiting blobs as fuel (applying adds none); its answer is the
  uuids to put state back to and the fast messages that came due.
\<close>

definition batch_blob :: "(json \<Rightarrow> string) \<Rightarrow> 'w world_ops \<Rightarrow> replica_env \<Rightarrow> pending_blob
    \<Rightarrow> (json list \<times> (header \<times> byte list) list, 'w, 'r) rx" where
  "batch_blob py_repr ops env p = (case p of (h, data, seq) \<Rightarrow>
     sx_seq (sx_mod (\<lambda>s. s\<lparr>ry_pending := drop 1 (ry_pending s)\<rparr>))
       (sx_bind (sx_try (\<lambda>_. True) (apply_one py_repr ops env h data) (\<lambda>_. sx_seq count_error (sx_return None)))
         (\<lambda>u. sx_bind (cold_done seq) (\<lambda>due.
            sx_return (case u of Some v \<Rightarrow> if json_true v then [v] else [] | None \<Rightarrow> [], due)))))"

fun batch_loop :: "(json \<Rightarrow> string) \<Rightarrow> 'w world_ops \<Rightarrow> replica_env \<Rightarrow> nat \<Rightarrow> nat
    \<Rightarrow> json list \<times> (header \<times> byte list) list \<Rightarrow> (json list \<times> (header \<times> byte list) list, 'w, 'r) rx" where
  "batch_loop py_repr ops env 0 applied acc = sx_return acc"
| "batch_loop py_repr ops env (Suc n) applied acc = sx_read (\<lambda>s. case ry_pending s of
     [] \<Rightarrow> sx_return acc
   | p # _ \<Rightarrow>
       if applied \<noteq> 0 \<and> (kind_is ''boot'' (fst p) \<or> re_over env applied) then sx_return acc
       else sx_bind (batch_blob py_repr ops env p) (\<lambda>(us, due).
         if kind_is ''boot'' (fst p) then sx_return (fst acc @ us, snd acc @ due)
         else batch_loop py_repr ops env n (Suc applied) (fst acc @ us, snd acc @ due)))"

definition batch_state :: "'w world_ops \<Rightarrow> json list \<Rightarrow> (unit, 'w, 'r) rx" where
  "batch_state ops us = sx_seq
     (sx_when (us \<noteq> []) (sx_seq (rebuild_uuid_map ops) (sx_each (reapply_at_state ops) us)))
     (sx_mod (\<lambda>s. s\<lparr>ry_stats := (ry_stats s)\<lparr>rt_frozen_caches := wo_frozen_caches ops (ry_world s)\<rparr>\<rparr>))"

definition batch_end :: "(json \<Rightarrow> string) \<Rightarrow> 'w world_ops \<Rightarrow> replica_env \<Rightarrow> (header \<times> byte list) list \<Rightarrow> (unit, 'w, 'r) rx" where
  "batch_end py_repr ops env due = sx_do
     [on_stats (\<lambda>t. t\<lparr>rt_batches := rt_batches t + 1\<rparr>), note_applying py_repr, refresh_held_stats env,
      release ops env due,
      sx_mod (\<lambda>s. let s1 = s\<lparr>ry_last_hot := None\<rparr> in
        if ry_shot_on s then s1\<lparr>ry_fit_pending := True, ry_measure_at := re_now env + 3 / 10\<rparr> else s1)]"

definition apply_pending_batch :: "(json \<Rightarrow> string) \<Rightarrow> 'w world_ops \<Rightarrow> replica_env \<Rightarrow> (unit, 'w, 'r) rx" where
  "apply_pending_batch py_repr ops env = sx_seq (quiet env BLOB_GRACE)
     (sx_bind (sx_read (\<lambda>s. batch_loop py_repr ops env (length (ry_pending s)) 0 ([], [])))
       (\<lambda>(us, due). sx_ensure (batch_state ops us) (batch_end py_repr ops env due)))"

subsection \<open>Taking messages\<close>

definition next_fast :: "('w, 'r) replica \<Rightarrow> (header \<times> byte list) option \<times> ('w, 'r) replica" where
  "next_fast s = (case ry_inbox_fast s of [] \<Rightarrow> (None, s) | m # ms \<Rightarrow> (Some m, s\<lparr>ry_inbox_fast := ms\<rparr>))"

definition next_cold :: "'r receiver \<Rightarrow> ('w, 'r) replica \<Rightarrow> (header \<times> byte list) option \<times> ('w, 'r) replica" where
  "next_cold rc s =
     (let s1 = (if ry_inbox s = [] then (case rc_poll_cold rc 8 (ry_rx s) of (ms, r) \<Rightarrow> s\<lparr>ry_inbox := ms, ry_rx := r\<rparr>) else s)
      in case ry_inbox s1 of [] \<Rightarrow> (None, s1) | m # ms \<Rightarrow> (Some m, s1\<lparr>ry_inbox := ms\<rparr>))"

definition poll_fast :: "'r receiver \<Rightarrow> ('w, 'r) replica \<Rightarrow> ('w, 'r) replica" where
  "poll_fast rc s = (case rc_poll_fast rc of
     Some f \<Rightarrow> if ry_inbox_fast s = [] then (case f 64 (ry_rx s) of (ms, r) \<Rightarrow> s\<lparr>ry_inbox_fast := ms, ry_rx := r\<rparr>) else s
   | None \<Rightarrow> s)"

definition next_message :: "'r receiver \<Rightarrow> ((header \<times> byte list) option, 'w, 'r) rx" where
  "next_message rc s =
     (let s1 = poll_fast rc s in
      if ry_inbox_fast s1 \<noteq> [] then (case next_fast s1 of (m, s2) \<Rightarrow> (Inr m, s2))
      else if length (ry_pending s1) < BATCH_MAX \<and> \<not> pending_boot s1 then (case next_cold rc s1 of (m, s2) \<Rightarrow> (Inr m, s2))
      else (Inr None, s1))"

definition note_seen :: "(unit, 'w, 'r) rx" where
  "note_seen = sx_mod (\<lambda>s. let m = ry_merger s; zero = (\<lambda>v. case v of Some i \<Rightarrow> i | None \<Rightarrow> 0) in
     s\<lparr>ry_stats := (ry_stats s)\<lparr>rt_seq := zero (sq_last_seen (mg_cold m)), rt_seq_fast := zero (sq_last_seen (mg_fast m)),
         rt_gaps := mg_gaps m\<rparr>\<rparr>)"

definition take_in :: "(json \<Rightarrow> string) \<Rightarrow> 'w world_ops \<Rightarrow> replica_env \<Rightarrow> header \<Rightarrow> byte list \<Rightarrow> (unit, 'w, 'r) rx" where
  "take_in py_repr ops env h payload = sx_bind (ask_merger (mg_observe h)) (\<lambda>ok. sx_do
     [sx_when (\<not> ok) (sx_seq (on_stats (\<lambda>t. t\<lparr>rt_want_resync := True\<rparr>)) refresh_gap_stats),
      note_seen,
      sx_bind (ask_merger (mg_admit h payload)) (\<lambda>now.
        if now then dispatch py_repr ops env h payload else note_parked)])"

fun process_cold :: "(json \<Rightarrow> string) \<Rightarrow> 'w world_ops \<Rightarrow> 'r receiver \<Rightarrow> replica_env \<Rightarrow> nat \<Rightarrow> (unit, 'w, 'r) rx" where
  "process_cold py_repr ops rc env 0 = sx_return ()"
| "process_cold py_repr ops rc env (Suc n) = sx_bind (next_message rc) (\<lambda>m. case m of
     None \<Rightarrow> sx_return ()
   | Some (h, p) \<Rightarrow> sx_seq (take_in py_repr ops env h p) (process_cold py_repr ops rc env n))"

end
