(* ===== verification/Replica_Tick.thy ===== *)
theory Replica_Tick
  imports Replica_Loop
begin

text \<open>
  The tick of \<open>ring0/replica_apply.py\<close>, what the IO thread may ask of it between ticks, sessions
  beginning and ending, and the detector of edits made on the replica. The viewport writes behind
  \<open>_apply_hot\<close> and \<open>_apply_vis\<close> are the parameters \<open>wo_hot\<close> and \<open>wo_vis\<close>; redraw pokes, the fit
  of the camera frame and the kiosk's service step at the end of a tick are left out.
\<close>

subsection \<open>What the IO thread asks\<close>

definition nudge_zoom :: "real \<Rightarrow> bool \<Rightarrow> ('w, 'r) replica \<Rightarrow> ('w, 'r) replica" where
  "nudge_zoom delta back s = s\<lparr>ry_zoom_offset := (if back then 0 else ry_zoom_offset s + delta), ry_last_hot := None\<rparr>"

definition set_mappings :: "path_mapping list \<Rightarrow> ('w, 'r) replica \<Rightarrow> ('w, 'r) replica" where
  "set_mappings rows s = s\<lparr>ry_mappings := rows\<rparr>"

definition set_shot_mode :: "bool \<Rightarrow> ('w, 'r) replica \<Rightarrow> ('w, 'r) replica" where
  "set_shot_mode on s =
     (if ry_shot_on s = on then s
      else let s1 = s\<lparr>ry_shot_on := on\<rparr>;
               s2 = (if on then s1\<lparr>ry_fit_pending := True, ry_fit_zoom := None\<rparr> else s1\<lparr>ry_shot_restore := True\<rparr>)
           in s2\<lparr>ry_last_hot := None\<rparr>)"

definition notify_host_goodbye :: "('w, 'r) replica \<Rightarrow> ('w, 'r) replica" where
  "notify_host_goodbye s = s\<lparr>ry_goodbye := True\<rparr>"

text \<open>\<open>int(seq_cold or 0), int(seq_fast or 0)\<close> of a hello's values.\<close>

definition int_or_zero :: "json \<Rightarrow> py_error + int" where
  "int_or_zero v = (if json_true v then py_int v else Inr 0)"

definition notify_new_session :: "json \<Rightarrow> json \<Rightarrow> (unit, 'w, 'r) rx" where
  "notify_new_session seq_cold seq_fast =
     sx_bind (sx_lift (int_or_zero seq_cold)) (\<lambda>c. sx_bind (sx_lift (int_or_zero seq_fast)) (\<lambda>f.
       sx_mod (\<lambda>s. s\<lparr>ry_new_session_seqs := (c, f), ry_new_session := True\<rparr>)))"

subsection \<open>Sessions\<close>

definition primed :: "int \<times> int \<Rightarrow> merger \<Rightarrow> merger" where
  "primed seqs m = (let m1 = mg_reset m in
     m1\<lparr>mg_cold := (mg_cold m1)\<lparr>sq_last_seen := Some (fst seqs)\<rparr>,
        mg_fast := (mg_fast m1)\<lparr>sq_last_seen := Some (snd seqs)\<rparr>,
        mg_cold_applied := fst seqs, mg_fast_applied := snd seqs\<rparr>)"

definition handle_new_session :: "(unit, 'w, 'r) rx" where
  "handle_new_session = sx_do
     [sx_mod (\<lambda>s. s\<lparr>ry_new_session := False, ry_merger := primed (ry_new_session_seqs s) (ry_merger s),
        ry_reassembler := rs_init, ry_blob_by_uuid := [], ry_at_state := []\<rparr>),
      on_stats (\<lambda>t. t\<lparr>rt_seq := 0, rt_seq_fast := 0, rt_parked := 0, rt_gaps := 0, rt_want_resync := False\<rparr>),
      sx_mod (\<lambda>s. s\<lparr>ry_unknown_gap := False\<rparr>), refresh_gap_stats]"

definition handle_goodbye :: "'w world_ops \<Rightarrow> (unit, 'w, 'r) rx" where
  "handle_goodbye ops = sx_mod (\<lambda>s. s\<lparr>ry_goodbye := False, ry_last_hot := None,
     ry_world := wo_goodbye ops (ry_world s), ry_stats := (ry_stats s)\<lparr>rt_host_ended := True\<rparr>\<rparr>)"

subsection \<open>The tick\<close>

definition applying :: "replica_env \<Rightarrow> ('w, 'r) replica \<Rightarrow> bool" where
  "applying env s \<longleftrightarrow> ry_pending s \<noteq> [] \<or> re_now env - ry_last_boot_applied s < BOOT_SETTLE_S"

definition apply_hot :: "'w world_ops \<Rightarrow> replica_env \<Rightarrow> byte list \<Rightarrow> bool \<Rightarrow> (unit, 'w, 'r) rx" where
  "apply_hot ops env packed reassert = sx_seq (quiet env FRAME_GRACE)
     (if unpack_hot packed = None then sx_return ()
      else sx_bind (sx_read (\<lambda>s. on_world (wo_hot ops packed reassert (ry_shot_on s) (ry_zoom_offset s)))) sx_lift)"

definition follow_hot :: "'w world_ops \<Rightarrow> replica_env \<Rightarrow> byte list option \<Rightarrow> (unit, 'w, 'r) rx" where
  "follow_hot ops env packed = sx_read (\<lambda>s.
     let again = sx_when (ry_last_hot s \<noteq> None \<and> re_now env - ry_last_hot_applied s \<ge> REASSERT_S)
           (sx_seq (apply_hot ops env (the (ry_last_hot s)) True)
              (sx_mod (\<lambda>s. s\<lparr>ry_last_hot_applied := re_now env\<rparr>)))
     in case packed of
       Some p \<Rightarrow> if Some p \<noteq> ry_last_hot s
         then sx_seq (apply_hot ops env p False)
           (sx_mod (\<lambda>s. s\<lparr>ry_last_hot := Some p, ry_last_hot_applied := re_now env\<rparr>))
         else again
     | None \<Rightarrow> again)"

definition show_probe :: "'w world_ops \<Rightarrow> byte list \<Rightarrow> (unit, 'w, 'r) rx" where
  "show_probe ops packed = (case unpack_hot packed of
     Some h \<Rightarrow> if f64_true (hs_t_host h) then sx_mod (\<lambda>s. s\<lparr>ry_world := wo_probe ops h (ry_world s)\<rparr>) else sx_return ()
   | None \<Rightarrow> sx_return ())"

definition tick_hot :: "'w world_ops \<Rightarrow> 'r receiver \<Rightarrow> replica_env \<Rightarrow> (unit, 'w, 'r) rx" where
  "tick_hot ops rc env = sx_read (\<lambda>s. case rc_poll_hot rc (ry_rx s) of
     None \<Rightarrow> follow_hot ops env None
   | Some packed \<Rightarrow> sx_seq (show_probe ops packed) (follow_hot ops env (Some (hot_core packed))))"

definition service_vis :: "'w world_ops \<Rightarrow> 'r receiver \<Rightarrow> replica_env \<Rightarrow> (unit, 'w, 'r) rx" where
  "service_vis ops rc env = sx_read (\<lambda>s. case rc_hot_keyed rc of
     None \<Rightarrow> sx_return ()
   | Some keyed \<Rightarrow>
       if ry_pending s \<noteq> [] then sx_return ()
       else case dget (keyed (ry_rx s)) VIS_KEY of
         None \<Rightarrow> sx_return ()
       | Some raw \<Rightarrow>
           if Some raw = ry_last_vis_raw s \<and> re_now env - ry_last_vis_applied s < REASSERT_S then sx_return ()
           else case vis_decode (Some raw) of
             None \<Rightarrow> sx_return ()
           | Some want \<Rightarrow> sx_when (wo_view ops (ry_world s)) (sx_seq
               (sx_mod (\<lambda>s. case wo_vis ops want (ry_world s) of ((r, moved), w) \<Rightarrow>
                  s\<lparr>ry_world := w, ry_last_hot := (if moved then None else ry_last_hot s),
                    ry_stats := (case r of Inl _ \<Rightarrow> (ry_stats s)\<lparr>rt_apply_errors := rt_apply_errors (ry_stats s) + 1\<rparr>
                                 | Inr _ \<Rightarrow> ry_stats s)\<rparr>))
               (sx_mod (\<lambda>s. s\<lparr>ry_last_vis_raw := Some raw, ry_last_vis_applied := re_now env\<rparr>))))"

definition batch_due :: "replica_env \<Rightarrow> ('w, 'r) replica \<Rightarrow> bool" where
  "batch_due env s \<longleftrightarrow> ry_pending s \<noteq> [] \<and>
     (re_now env - ry_pending_last_at s \<ge> (if ry_pending_more s then BURST_WAIT_S else 0) \<or> length (ry_pending s) \<ge> BATCH_MAX)"

definition tick_inner :: "(json \<Rightarrow> string) \<Rightarrow> 'w world_ops \<Rightarrow> 'r receiver \<Rightarrow> replica_env \<Rightarrow> (unit, 'w, 'r) rx" where
  "tick_inner py_repr ops rc env = sx_do
     [sx_read (\<lambda>s. sx_when (ry_goodbye s) (handle_goodbye ops)),
      sx_read (\<lambda>s. sx_when (ry_new_session s) handle_new_session),
      sx_read (\<lambda>s. sx_when (ry_manifests s \<noteq> [] \<and> (ry_boot_gen s \<noteq> None \<or> ry_pending s = []))
        (sx_seq (merge_manifests py_repr) (refresh_held_stats env))),
      tick_hot ops rc env,
      service_vis ops rc env,
      sx_read (\<lambda>s. sx_when (batch_due env s) (apply_pending_batch py_repr ops env)),
      process_cold py_repr ops rc env (re_room env)]"

text \<open>None: the timer is not called again.\<close>

definition replica_tick :: "(json \<Rightarrow> string) \<Rightarrow> 'w world_ops \<Rightarrow> 'r receiver \<Rightarrow> replica_env \<Rightarrow> (time option, 'w, 'r) rx" where
  "replica_tick py_repr ops rc env = sx_read (\<lambda>s.
     if \<not> ry_running s then sx_return None
     else sx_seq (sx_try (\<lambda>_. True) (tick_inner py_repr ops rc env) (\<lambda>_. count_error))
       (sx_return (Some REPLICA_TICK)))"

subsection \<open>Edits made on the replica\<close>

text \<open>An update the depsgraph reports: the datablock's class (a scene, window manager or screen;
  an object or geometry; anything else), its stamp, and what was updated.\<close>

datatype update_class = Screen_Or_Scene | Object_Or_Geometry | Other_Id

record replica_update =
  ru_class :: update_class
  ru_uuid :: "uuid option"
  ru_shading :: bool
  ru_geometry :: bool
  ru_transform :: bool

definition local_edit :: "time \<Rightarrow> (json, time) dict \<Rightarrow> replica_update \<Rightarrow> bool" where
  "local_edit now touched u \<longleftrightarrow> ru_class u \<noteq> Screen_Or_Scene \<and>
     (case ru_uuid u of None \<Rightarrow> False | Some d \<Rightarrow> d \<noteq> [] \<and>
       \<not> (case dget touched (JStr d) of None \<Rightarrow> False | Some t \<Rightarrow> now - t < TOUCH_GRACE) \<and>
       \<not> (ru_shading u \<and> \<not> ru_geometry u \<and> \<not> ru_transform u \<and> ru_class u = Object_Or_Geometry))"

fun count_local :: "time \<Rightarrow> (json, time) dict \<Rightarrow> replica_update list \<Rightarrow> nat \<Rightarrow> nat" where
  "count_local now touched [] n = n"
| "count_local now touched (u # us) n = (if local_edit now touched u then n + 1 else count_local now touched us n)"

definition on_depsgraph_replica :: "time \<Rightarrow> replica_update list \<Rightarrow> ('w, 'r) replica \<Rightarrow> ('w, 'r) replica" where
  "on_depsgraph_replica now us s =
     (if \<not> ry_running s then s
      else let t = (ry_stats s)\<lparr>rt_evaluations := rt_evaluations (ry_stats s) + 1\<rparr>
           in s\<lparr>ry_stats := (if now < ry_quiet_until s then t
                            else t\<lparr>rt_local_edits := count_local now (ry_touched s) us (rt_local_edits t)\<rparr>)\<rparr>)"

subsection \<open>Start and stop\<close>

definition replica_start :: "'w world_ops \<Rightarrow> replica_env \<Rightarrow> path_mapping list \<Rightarrow> (unit, 'w, 'r) rx" where
  "replica_start ops env mappings = sx_do
     [sx_mod (\<lambda>s. s\<lparr>ry_running := True, ry_last_hot := None, ry_last_hot_applied := 0,
        ry_merger := mg_reset (ry_merger s), ry_reassembler := rs_init, ry_inbox := [], ry_inbox_fast := [],
        ry_blob_by_uuid := [], ry_at_state := [], ry_pending := [], ry_mappings := mappings\<rparr>),
      on_stats (\<lambda>t. t\<lparr>rt_seq := 0, rt_gaps := 0, rt_applied_t1 := 0, rt_applied_t2 := 0, rt_apply_errors := 0,
        rt_unknown_uuid := 0, rt_bootstraps := 0, rt_unmapped_paths := 0, rt_applying := JStr [],
        rt_want_resync := False, rt_frozen_caches := 0, rt_seq_fast := 0, rt_parked := 0, rt_batches := 0,
        rt_evaluations := 0, rt_unmapped_names := [], rt_need_libs := [], rt_libs_cached := 0, rt_libs_missing := []\<rparr>),
      rebuild_uuid_map ops,
      sx_mod (\<lambda>s. s\<lparr>ry_touched := []\<rparr>),
      on_stats (\<lambda>t. t\<lparr>rt_local_edits := 0\<rparr>), quiet env BLOB_GRACE]"

definition replica_stop :: "('w, 'r) replica \<Rightarrow> ('w, 'r) replica" where
  "replica_stop s = s\<lparr>ry_running := False\<rparr>"

subsection \<open>A replica's life\<close>

text \<open>The module as imported: its values before the first \<open>start\<close>.\<close>

definition stats_init :: replica_stats where
  "stats_init = \<lparr>rt_seq = 0, rt_seq_fast = 0, rt_gaps = 0, rt_applied_t1 = 0, rt_applied_t2 = 0, rt_apply_errors = 0,
     rt_unknown_uuid = 0, rt_bootstraps = 0, rt_unmapped_paths = 0, rt_unmapped_names = [], rt_need_libs = [],
     rt_libs_cached = 0, rt_libs_missing = [], rt_host_ended = False, rt_applying = JStr [], rt_want_resync = False,
     rt_parked = 0, rt_cold_applied = 0, rt_fast_applied = 0, rt_fast_gap_at = None, rt_gap_lane = [], rt_resyncs = 0,
     rt_held_n = 0, rt_held_digest = [], rt_scene_digest = JStr [], rt_local_edits = 0, rt_batches = 0,
     rt_evaluations = 0, rt_frozen_caches = 0\<rparr>"

definition replica_init :: "'w \<Rightarrow> 'r \<Rightarrow> ('w, 'r) replica" where
  "replica_init w r = \<lparr>ry_world = w, ry_rx = r, ry_stats = stats_init, ry_merger = mg_init, ry_uuid_map = [],
     ry_reassembler = rs_init, ry_inbox = [], ry_inbox_fast = [], ry_blob_by_uuid = [], ry_at_state = [],
     ry_pending = [], ry_pending_last_at = 0, ry_pending_more = False, ry_unknown_gap = False, ry_held = [],
     ry_held_version = 0, ry_held_digest_cache = (None, []), ry_boot_gen = None, ry_manifests = [],
     ry_touched = [], ry_quiet_until = 0, ry_last_hot = None, ry_last_hot_applied = 0, ry_last_vis_raw = None,
     ry_last_vis_applied = 0, ry_last_boot_applied = 0, ry_mappings = [], ry_project_dir = [], ry_goodbye = False,
     ry_new_session = False, ry_new_session_seqs = (0, 0), ry_zoom_offset = 0, ry_shot_on = False,
     ry_fit_pending = False, ry_fit_zoom = None, ry_measure_at = 0, ry_shot_restore = False, ry_running = False\<rparr>"

text \<open>
  The states reached after one \<open>start\<close>: ticks at any time and with any room, whatever the IO thread
  asks between them, messages arriving in the transport, the user editing the file.
\<close>

inductive replica_reach :: "(json \<Rightarrow> string) \<Rightarrow> 'w world_ops \<Rightarrow> 'r receiver \<Rightarrow> ('w, 'r) replica \<Rightarrow> bool"
  for py_repr :: "json \<Rightarrow> string" and ops :: "'w world_ops" and rc :: "'r receiver" where
  reach_start: "replica_reach py_repr ops rc (snd (replica_start ops env rows (replica_init w r)))"
| reach_tick: "replica_reach py_repr ops rc s \<Longrightarrow> replica_reach py_repr ops rc (snd (replica_tick py_repr ops rc env s))"
| reach_nudge: "replica_reach py_repr ops rc s \<Longrightarrow> replica_reach py_repr ops rc (nudge_zoom d back s)"
| reach_mappings: "replica_reach py_repr ops rc s \<Longrightarrow> replica_reach py_repr ops rc (set_mappings rows s)"
| reach_shot: "replica_reach py_repr ops rc s \<Longrightarrow> replica_reach py_repr ops rc (set_shot_mode on s)"
| reach_goodbye: "replica_reach py_repr ops rc s \<Longrightarrow> replica_reach py_repr ops rc (notify_host_goodbye s)"
| reach_session: "replica_reach py_repr ops rc s \<Longrightarrow> replica_reach py_repr ops rc (snd (notify_new_session c f s))"
| reach_manifest: "replica_reach py_repr ops rc s \<Longrightarrow> replica_reach py_repr ops rc (notify_manifest m s)"
| reach_depsgraph: "replica_reach py_repr ops rc s \<Longrightarrow> replica_reach py_repr ops rc (on_depsgraph_replica now us s)"
| reach_arrives: "replica_reach py_repr ops rc s \<Longrightarrow> replica_reach py_repr ops rc (s\<lparr>ry_rx := r\<rparr>)"
| reach_edited: "replica_reach py_repr ops rc s \<Longrightarrow> replica_reach py_repr ops rc (s\<lparr>ry_world := w\<rparr>)"
| reach_stop: "replica_reach py_repr ops rc s \<Longrightarrow> replica_reach py_repr ops rc (replica_stop s)"

end
