(* ===== verification/Replica_Keeps.thy ===== *)
theory Replica_Keeps
  imports Replica_Tick
begin

text \<open>
  What the operations of the apply loop leave alone. A property of the merger, the two gap flags and
  the queue of waiting blobs that survives the five operations touching them survives everything a
  delta, a tombstone, a library, a blob or a release does, even where it raises.
\<close>

named_theorems rk_intros \<open>operations of the apply loop that keep the property\<close>

locale replica_keeps =
  fixes P :: "('w, 'r) replica \<Rightarrow> bool"
  assumes same: "\<lbrakk>ry_merger s' = ry_merger s; ry_unknown_gap s' = ry_unknown_gap s;
      rt_want_resync (ry_stats s') = rt_want_resync (ry_stats s); ry_pending s' = ry_pending s; P s\<rbrakk> \<Longrightarrow> P s'"
    and unknown [rk_intros]: "sx_always P unknown_datablock"
    and ends [rk_intros]: "sx_always P (end_resync h)"
    and boots [rk_intros]: "sx_always P boot_answers"
    and fast_done [rk_intros]: "sx_always P (on_merger (mg_fast_done_op seq))"
begin

lemma rk_mod:
  "(\<And>s. ry_merger (f s) = ry_merger s \<and> ry_unknown_gap (f s) = ry_unknown_gap s
      \<and> rt_want_resync (ry_stats (f s)) = rt_want_resync (ry_stats s) \<and> ry_pending (f s) = ry_pending s)
   \<Longrightarrow> sx_always P (sx_mod f)"
  by (rule sx_always_mod, rule same) auto

lemma rk_stats: "(\<And>t. rt_want_resync (f t) = rt_want_resync t) \<Longrightarrow> sx_always P (on_stats f)"
  unfolding on_stats_def by (rule rk_mod) simp

lemma rk_world [rk_intros]: "sx_always P (on_world f)"
  unfolding sx_always_def on_world_def by (auto split: prod.split elim!: same [rotated 4])

lemma rk_reassembler [rk_intros]: "sx_always P (ask_reassembler f)"
  unfolding sx_always_def ask_reassembler_def by (auto split: prod.split elim!: same [rotated 4])

lemma rk_count_error [rk_intros]: "sx_always P count_error"
  by (simp add: count_error_def rk_stats)

lemma rk_refresh [rk_intros]: "sx_always P refresh_gap_stats"
  unfolding refresh_gap_stats_def by (rule rk_mod) (simp add: Let_def)

lemma rk_held_stats [rk_intros]: "sx_always P (refresh_held_stats env)"
  unfolding refresh_held_stats_def by (rule rk_mod) (simp add: Let_def)

lemma rk_held_set [rk_intros]: "sx_always P (held_set u d)"
  unfolding held_set_def by (rule rk_mod) simp

lemma rk_held_clear [rk_intros]: "sx_always P held_clear"
  unfolding held_clear_def by (rule rk_mod) simp

lemma rk_rebuild [rk_intros]: "sx_always P (rebuild_uuid_map ops)"
  unfolding rebuild_uuid_map_def by (rule rk_mod) simp

lemma rk_quiet [rk_intros]: "sx_always P (quiet env d)"
  unfolding quiet_def by (rule rk_mod) simp

lemma rk_touched [rk_intros]: "sx_always P (note_touched env u)"
  unfolding note_touched_def by (intro always_intros rk_mod) simp

lemma rk_resolve [rk_intros]: "sx_always P (resolve ops u)"
  unfolding resolve_def by (intro always_intros rk_intros)

lemma rk_at_state [rk_intros]: "sx_always P (keep_at_state u path v)"
  unfolding keep_at_state_def by (cases u) (simp_all add: always_intros rk_mod)

lemma rk_write [rk_intros]: "sx_always P (write_change ops u d path v)"
  unfolding write_change_def
  by (cases path) (simp_all, (intro always_intros rk_intros rk_stats | simp)+)

lemma rk_t1 [rk_intros]: "sx_always P (apply_t1 ops env h payload)"
  unfolding apply_t1_def by (intro always_intros rk_intros rk_stats) simp

lemma rk_forget [rk_intros]: "sx_always P (forget_datablock u)"
  unfolding forget_datablock_def
  by (cases u) (simp_all, (intro always_intros rk_intros rk_mod | simp)+)

lemma rk_tombstone [rk_intros]: "sx_always P (apply_tombstone ops env h)"
  unfolding apply_tombstone_def by (intro always_intros rk_intros rk_mod) simp

lemma rk_dispatch_fast [rk_intros]: "sx_always P (dispatch_fast ops env h payload)"
  unfolding dispatch_fast_def note_done_fast_def by (intro always_intros rk_intros)

lemma rk_note_parked [rk_intros]: "sx_always P note_parked"
  unfolding note_parked_def by (rule rk_mod) simp

lemma rk_release [rk_intros]: "sx_always P (release ops env items)"
  unfolding release_def by (intro always_intros rk_intros)

lemma rk_relink [rk_intros]: "sx_always P (relink_all ops wanted name cached libs n)"
  by (induction libs arbitrary: n) (auto simp: split_beta intro!: always_intros rk_intros)

lemma rk_libfile [rk_intros]: "sx_always P (apply_libfile py_repr ops env h data)"
  unfolding apply_libfile_def Let_def by (intro always_intros rk_intros rk_stats) simp

lemma rk_lib_missing [rk_intros]: "sx_always P (lib_missing_on_host p)"
  unfolding lib_missing_on_host_def by (intro rk_stats) simp

lemma rk_request_lib [rk_intros]: "sx_always P (request_lib p)"
  unfolding request_lib_def by (intro rk_stats) simp

lemma rk_link_missing [rk_intros]: "sx_always P (link_missing os p l)"
  unfolding link_missing_def by (intro always_intros rk_intros rk_stats) simp

lemma rk_link [rk_intros]: "sx_always P (apply_link ops env h)"
  unfolding apply_link_def Let_def by (intro always_intros rk_intros rk_stats rk_mod) simp_all

lemma rk_applying [rk_intros]: "sx_always P (note_applying py_repr)"
  unfolding note_applying_def by (rule rk_mod) simp

lemma rk_blob_begins [rk_intros]: "sx_always P (blob_begins u bid)"
  unfolding blob_begins_def by (intro always_intros rk_mod) (simp add: Let_def)

lemma rk_boot_loaded [rk_intros]: "sx_always P (boot_loaded ops env h bid r)"
  unfolding boot_loaded_def by (intro always_intros rk_intros rk_stats rk_mod) simp_all

lemma rk_apply_blob [rk_intros]: "sx_always P (apply_blob ops data tag)"
  unfolding sx_always_def apply_blob_def by (auto split: prod.split elim!: same [rotated 4])

lemma rk_blob_written [rk_intros]: "sx_always P (blob_written py_repr h n)"
  unfolding blob_written_def
  by (intro always_intros rk_intros rk_stats) (auto split: json.split intro!: always_intros rk_intros)

lemma rk_apply_one [rk_intros]: "sx_always P (apply_one py_repr ops env h data)"
  unfolding apply_one_def Let_def
  by (intro always_intros) (auto split: json.split intro!: always_intros rk_intros)

lemma rk_reapply [rk_intros]: "sx_always P (reapply_at_state ops u)"
  unfolding reapply_at_state_def by (intro always_intros rk_intros)

lemma rk_batch_state [rk_intros]: "sx_always P (batch_state ops us)"
  unfolding batch_state_def by (intro always_intros rk_intros rk_mod) simp

lemma rk_batch_end [rk_intros]: "sx_always P (batch_end py_repr ops env due)"
  unfolding batch_end_def by (intro always_intros rk_intros rk_stats rk_mod) (simp_all add: Let_def)

lemma rk_note_seen [rk_intros]: "sx_always P note_seen"
  unfolding note_seen_def by (rule rk_mod) (simp add: Let_def)

lemma rk_goodbye [rk_intros]: "sx_always P (handle_goodbye ops)"
  unfolding handle_goodbye_def by (rule rk_mod) simp

lemma rk_manifests [rk_intros]: "sx_always P (merge_manifests py_repr)"
  unfolding merge_manifests_def by (rule rk_mod) (simp split: prod.split)

lemma rk_hot [rk_intros]: "sx_always P (tick_hot ops rc env)"
  unfolding tick_hot_def show_probe_def follow_hot_def apply_hot_def Let_def
  by (intro always_intros rk_intros rk_mod) simp_all

lemma rk_vis [rk_intros]: "sx_always P (service_vis ops rc env)"
  unfolding service_vis_def by (intro always_intros rk_intros rk_mod) (simp_all split: prod.split sum.split)

lemma rk_next_message [rk_intros]: "sx_always P (next_message rc)"
  unfolding sx_always_def next_message_def Let_def poll_fast_def next_fast_def next_cold_def
  by (auto split: option.split prod.split list.split elim!: same [rotated 4])

end

end
