(* ===== verification/Replica_Claims.thy ===== *)
theory Replica_Claims
  imports Replica_Keeps
begin

text \<open>
  What the apply loop of \<open>ring0/replica_apply.py\<close> guarantees, and where it does not do what it means
  to: a hole is never forgotten without an answer, batches drain, the inventory takes the first digest
  sent, and the two ways a message comes before the blob it waits for.
\<close>

subsection \<open>A hole stays asked for\<close>

definition hole :: "('w, 'r) replica \<Rightarrow> bool" where
  "hole s \<longleftrightarrow> mg_gap_lane (ry_merger s) \<noteq> [] \<or> ry_unknown_gap s"

definition hole_asked :: "('w, 'r) replica \<Rightarrow> bool" where
  "hole_asked s \<longleftrightarrow> (hole s \<longrightarrow> rt_want_resync (ry_stats s))"

lemma gap_lane_empty: "mg_gap_lane m = [] \<longleftrightarrow> sq_first_missing (mg_cold m) = None \<and> sq_first_missing (mg_fast m) = None"
  by (auto simp: mg_gap_lane_def Let_def)

lemma hole_iff: "hole s \<longleftrightarrow> sq_first_missing (mg_cold (ry_merger s)) \<noteq> None \<or> sq_first_missing (mg_fast (ry_merger s)) \<noteq> None
    \<or> ry_unknown_gap s"
  by (auto simp: hole_def gap_lane_empty)

lemma clear_fast_trackers: "mg_cold (mg_clear_fast_gap m) = mg_cold m \<and> mg_fast (mg_clear_fast_gap m) = sq_clear_gap (mg_fast m)"
  by (simp add: mg_clear_fast_gap_def Let_def split: option.split)

lemma cold_done_trackers: "mg_cold (snd (mg_cold_done seq m)) = mg_cold m \<and> mg_fast (snd (mg_cold_done seq m)) = mg_fast m"
  by (simp add: mg_cold_done_eq Let_def)

lemma fast_done_trackers: "mg_cold (mg_fast_done_op seq m) = mg_cold m \<and> mg_fast (mg_fast_done_op seq m) = mg_fast m"
  by (simp add: mg_fast_done_op_def split_beta Let_def split: option.split)

lemma admit_trackers: "mg_cold (snd (mg_admit h p m)) = mg_cold m \<and> mg_fast (snd (mg_admit h p m)) = mg_fast m"
  by (simp add: mg_admit_def split: sum.split)

interpretation holes: replica_keeps "hole_asked :: ('w, 'r) replica \<Rightarrow> bool"
proof
  show "hole_asked s'" if "ry_merger s' = ry_merger s" "ry_unknown_gap s' = ry_unknown_gap s"
    "rt_want_resync (ry_stats s') = rt_want_resync (ry_stats s)" "ry_pending s' = ry_pending s" "hole_asked s"
    for s s' :: "('w, 'r) replica"
    using that by (simp add: hole_asked_def hole_def)
  show "sx_always hole_asked (unknown_datablock :: (unit, 'w, 'r) rx)"
    by (simp add: sx_always_def unknown_datablock_def on_stats_def refresh_gap_stats_def sx_defs hole_asked_def Let_def)
  show "sx_always hole_asked (end_resync h :: (unit, 'w, 'r) rx)" for h
    by (auto simp: sx_always_def end_resync_def on_stats_def on_merger_def refresh_gap_stats_def sx_defs
        hole_asked_def hole_def Let_def)
  show "sx_always hole_asked (boot_answers :: (unit, 'w, 'r) rx)"
    by (simp add: sx_always_def boot_answers_def on_stats_def on_merger_def refresh_gap_stats_def sx_defs
        hole_asked_def hole_iff Let_def clear_fast_trackers mg_clear_cold_gap_def sq_clear_gap_def)
  show "sx_always hole_asked (on_merger (mg_fast_done_op seq) :: (unit, 'w, 'r) rx)" for seq
    by (simp add: on_merger_def sx_always_def sx_mod_def hole_asked_def hole_iff fast_done_trackers)
qed

named_theorems asks \<open>operations that keep every hole asked for\<close>

lemma asks_mod:
  "(\<And>s. mg_cold (ry_merger (f s)) = mg_cold (ry_merger s) \<and> mg_fast (ry_merger (f s)) = mg_fast (ry_merger s)
      \<and> ry_unknown_gap (f s) = ry_unknown_gap s \<and> rt_want_resync (ry_stats (f s)) = rt_want_resync (ry_stats s))
   \<Longrightarrow> sx_always hole_asked (sx_mod f)"
  by (rule sx_always_mod) (simp add: hole_asked_def hole_iff)

lemma asks_ask_merger:
  "(\<And>m. mg_cold (snd (f m)) = mg_cold m \<and> mg_fast (snd (f m)) = mg_fast m) \<Longrightarrow> sx_always hole_asked (ask_merger f)"
  by (simp add: sx_always_def ask_merger_def hole_asked_def hole_iff split_beta)

lemma asks_cold_done [asks]: "sx_always hole_asked (cold_done seq)"
  unfolding cold_done_def by (rule asks_ask_merger) (simp add: split_beta cold_done_trackers)

lemma asks_release_cold [asks]: "sx_always hole_asked (release_cold ops env seq)"
  unfolding release_cold_def by (intro always_intros asks rk_intros)

lemma asks_blob_complete [asks]: "sx_always hole_asked (blob_complete py_repr env h d seq)"
  unfolding blob_complete_def by (intro always_intros rk_intros asks_mod) simp_all

lemma asks_dispatch [asks]: "sx_always hole_asked (dispatch py_repr ops env h payload)"
  unfolding dispatch_def dispatch_cold_def
  by (intro always_intros asks rk_intros) (auto split: json.split intro!: always_intros asks rk_intros)

lemma asks_batch_loop [asks]: "sx_always hole_asked (batch_loop py_repr ops env n k acc)"
proof (induction n arbitrary: k acc)
  case (Suc n)
  show ?case unfolding batch_loop.simps batch_blob_def by (intro always_intros asks rk_intros asks_mod Suc) simp
qed (simp add: always_intros)

lemma asks_batch [asks]: "sx_always hole_asked (apply_pending_batch py_repr ops env)"
  unfolding apply_pending_batch_def by (intro always_intros asks rk_intros)

lemma sq_observe_first_missing: "fst (sq_observe seq t) \<Longrightarrow> sq_first_missing (snd (sq_observe seq t)) = sq_first_missing t"
  by (auto simp: sq_observe_def Let_def split: option.splits if_splits)

lemma observe_hole:
  "mg_observe h m = (Inr True, m') \<or> mg_observe h m = (Inl e, m') \<Longrightarrow> mg_gap_lane m' = mg_gap_lane m"
  using sq_observe_first_missing
  by (auto simp: mg_observe_def mg_gap_lane_def Let_def split_beta split: sum.splits option.splits if_splits)

definition taken_in :: "(json \<Rightarrow> string) \<Rightarrow> 'w world_ops \<Rightarrow> replica_env \<Rightarrow> header \<Rightarrow> byte list \<Rightarrow> (unit, 'w, 'r) rx" where
  "taken_in py_repr ops env h payload = sx_do
     [note_seen, sx_bind (ask_merger (mg_admit h payload)) (\<lambda>now.
        if now then dispatch py_repr ops env h payload else note_parked)]"

lemma asks_taken_in [asks]: "sx_always hole_asked (taken_in py_repr ops env h payload)"
  unfolding taken_in_def by (intro always_intros asks rk_intros asks_ask_merger admit_trackers)

lemma take_in_gap:
  "mg_observe h (ry_merger s) = (Inr False, m) \<Longrightarrow>
     take_in py_repr ops env h payload s = sx_seq refresh_gap_stats (taken_in py_repr ops env h payload)
       (s\<lparr>ry_merger := m, ry_stats := (ry_stats s)\<lparr>rt_want_resync := True\<rparr>\<rparr>)"
  by (simp add: take_in_def taken_in_def ask_merger_def on_stats_def sx_defs)

lemma take_in_ok:
  "mg_observe h (ry_merger s) = (Inr True, m) \<Longrightarrow>
     take_in py_repr ops env h payload s = taken_in py_repr ops env h payload (s\<lparr>ry_merger := m\<rparr>)"
  by (simp add: take_in_def taken_in_def ask_merger_def sx_defs)

lemma take_in_refused:
  "mg_observe h (ry_merger s) = (Inl e, m) \<Longrightarrow> take_in py_repr ops env h payload s = (Inl e, s\<lparr>ry_merger := m\<rparr>)"
  by (simp add: take_in_def ask_merger_def sx_defs)

lemma asks_take_in [asks]:
  fixes ops :: "'w world_ops"
  shows "sx_always hole_asked (take_in py_repr ops env h payload :: (unit, 'w, 'r) rx)"
  unfolding sx_always_def
proof (intro allI impI)
  fix s :: "('w, 'r) replica"
  assume a: "hole_asked s"
  obtain r m where o: "mg_observe h (ry_merger s) = (r, m)" by fastforce
  show "hole_asked (snd (take_in py_repr ops env h payload s))"
  proof (cases "r = Inr False")
    case True
    let ?m = "sx_seq refresh_gap_stats (taken_in py_repr ops env h payload) :: (unit, 'w, 'r) rx"
    have "hole_asked (s\<lparr>ry_merger := m, ry_stats := (ry_stats s)\<lparr>rt_want_resync := True\<rparr>\<rparr>)" by (simp add: hole_asked_def)
    moreover have "sx_always hole_asked ?m" by (intro always_intros asks rk_intros)
    ultimately show ?thesis
      using o True by (simp add: take_in_gap sx_always_def)
  next
    case False
    then have "(\<exists>e. r = Inl e) \<or> r = Inr True" by (cases r) auto
    then have "mg_gap_lane m = mg_gap_lane (ry_merger s)" using observe_hole o by blast
    then have "hole_asked (s\<lparr>ry_merger := m\<rparr>)" using a by (simp add: hole_asked_def hole_def)
    moreover have "sx_always hole_asked (taken_in py_repr ops env h payload :: (unit, 'w, 'r) rx)" by (rule asks)
    ultimately show ?thesis
      using o \<open>(\<exists>e. r = Inl e) \<or> r = Inr True\<close> by (auto simp: take_in_ok take_in_refused sx_always_def)
  qed
qed

lemma asks_process_cold [asks]: "sx_always hole_asked (process_cold py_repr ops rc env n)"
proof (induction n)
  case (Suc n)
  show ?case unfolding process_cold.simps by (intro always_intros asks rk_intros Suc)
qed (simp add: always_intros)

lemma primed_no_hole: "mg_gap_lane (primed seqs m) = []"
  by (simp add: primed_def mg_reset_def gap_lane_empty Let_def sq_init_def)

lemma asks_new_session [asks]: "sx_always hole_asked handle_new_session"
  by (simp add: sx_always_def handle_new_session_def on_stats_def refresh_gap_stats_def sx_defs Let_def
      hole_asked_def hole_def primed_no_hole)

lemma asks_tick: "sx_always hole_asked (replica_tick py_repr ops rc env)"
  unfolding replica_tick_def tick_inner_def by (intro always_intros asks rk_intros)

lemma asks_start: "hole_asked (snd (replica_start ops env rows (replica_init w r)))"
proof -
  have "mg_gap_lane (mg_reset mg_init) = []" by (simp add: mg_reset_def gap_lane_empty sq_init_def)
  then show ?thesis
    by (simp add: replica_start_def on_stats_def rebuild_uuid_map_def quiet_def sx_defs hole_asked_def hole_def replica_init_def)
qed


subsection \<open>Batches\<close>

text \<open>The queue of waiting blobs, the parked messages and the cold mark.\<close>

definition queue_is :: "pending_blob list \<Rightarrow> (int \<times> header \<times> byte list) list \<Rightarrow> int \<Rightarrow> ('w, 'r) replica \<Rightarrow> bool" where
  "queue_is ps pk c s \<longleftrightarrow> ry_pending s = ps \<and> mg_parked (ry_merger s) = pk \<and> mg_cold_applied (ry_merger s) = c"

lemma clear_fast_queue: "mg_parked (mg_clear_fast_gap m) = mg_parked m \<and> mg_cold_applied (mg_clear_fast_gap m) = mg_cold_applied m"
  by (simp add: mg_clear_fast_gap_def Let_def split: option.split)

lemma clear_cold_queue: "mg_parked (mg_clear_cold_gap m) = mg_parked m \<and> mg_cold_applied (mg_clear_cold_gap m) = mg_cold_applied m"
  by (simp add: mg_clear_cold_gap_def)

lemma fast_done_queue: "mg_parked (mg_fast_done_op seq m) = mg_parked m \<and> mg_cold_applied (mg_fast_done_op seq m) = mg_cold_applied m"
  by (simp add: mg_fast_done_op_def split_beta Let_def split: option.split)

interpretation queue: replica_keeps "queue_is ps pk c :: ('w, 'r) replica \<Rightarrow> bool" for ps pk c
proof
  show "queue_is ps pk c s'" if "ry_merger s' = ry_merger s" "ry_unknown_gap s' = ry_unknown_gap s"
    "rt_want_resync (ry_stats s') = rt_want_resync (ry_stats s)" "ry_pending s' = ry_pending s" "queue_is ps pk c s"
    for s s' :: "('w, 'r) replica"
    using that by (simp add: queue_is_def)
  show "sx_always (queue_is ps pk c) (unknown_datablock :: (unit, 'w, 'r) rx)"
    by (simp add: sx_always_def unknown_datablock_def on_stats_def refresh_gap_stats_def sx_defs queue_is_def Let_def)
  show "sx_always (queue_is ps pk c) (end_resync h :: (unit, 'w, 'r) rx)" for h
    by (simp add: sx_always_def end_resync_def on_stats_def on_merger_def refresh_gap_stats_def sx_defs
        queue_is_def Let_def clear_fast_queue clear_cold_queue)
  show "sx_always (queue_is ps pk c) (boot_answers :: (unit, 'w, 'r) rx)"
    by (simp add: sx_always_def boot_answers_def on_stats_def on_merger_def refresh_gap_stats_def sx_defs
        queue_is_def Let_def clear_fast_queue clear_cold_queue)
  show "sx_always (queue_is ps pk c) (on_merger (mg_fast_done_op seq) :: (unit, 'w, 'r) rx)" for seq
    by (simp add: on_merger_def sx_always_def sx_mod_def queue_is_def fast_done_queue)
qed

lemma queue_isD: "queue_is ps pk c s \<Longrightarrow> ry_pending s = ps"
  by (simp add: queue_is_def)

lemma queue_same: "sx_always (queue_is (ry_pending s) (mg_parked (ry_merger s)) (mg_cold_applied (ry_merger s))) m
    \<Longrightarrow> ry_pending (snd (m s)) = ry_pending s \<and> mg_parked (ry_merger (snd (m s))) = mg_parked (ry_merger s)
      \<and> mg_cold_applied (ry_merger (snd (m s))) = mg_cold_applied (ry_merger s)"
  unfolding sx_always_def by (drule spec [of _ s]) (simp add: queue_is_def)

definition seq_done :: "int option \<Rightarrow> int \<Rightarrow> int" where
  "seq_done seq c = (case seq of Some q \<Rightarrow> max q c | None \<Rightarrow> c)"

lemma counted_returns: "\<exists>x s'. sx_try (\<lambda>_. True) m (\<lambda>_. sx_seq count_error (sx_return y)) s = (Inr x, s')"
proof (cases "m s")
  case (Pair r s1)
  then show ?thesis
    by (cases r) (auto simp: sx_try_def sx_seq_def sx_bind_def count_error_def on_stats_def sx_mod_def sx_return_def)
qed

lemma batch_blob_run:
  fixes s :: "('w, 'r) replica"
  shows "\<exists>acc s'. batch_blob py_repr ops env (h, data, seq) s = (Inr acc, s') \<and> ry_pending s' = drop 1 (ry_pending s)
    \<and> mg_cold_applied (ry_merger s') = seq_done seq (mg_cold_applied (ry_merger s))"
proof -
  let ?s = "s\<lparr>ry_pending := drop 1 (ry_pending s)\<rparr>"
  let ?m = "sx_try (\<lambda>_. True) (apply_one py_repr ops env h data) (\<lambda>_. sx_seq count_error (sx_return None)) :: (json option, 'w, 'r) rx"
  obtain u s1 where m: "?m ?s = (Inr u, s1)"
    using counted_returns [of "apply_one py_repr ops env h data" None ?s] by blast
  have "ry_pending s1 = drop 1 (ry_pending s) \<and> mg_cold_applied (ry_merger s1) = mg_cold_applied (ry_merger s)"
    using queue_same [of ?s ?m] m by (simp add: always_intros rk_intros)
  with m show ?thesis
    by (simp add: batch_blob_def sx_seq_def sx_bind_def sx_mod_def cold_done_def ask_merger_def sx_return_def
        split_beta mg_cold_done_eq Let_def seq_done_def split: option.split)
qed

lemma batch_loop_run:
  "ry_pending s = ps \<Longrightarrow> length ps \<le> n \<Longrightarrow> \<exists>acc' s' j. batch_loop py_repr ops env n k acc s = (Inr acc', s')
     \<and> j \<le> length ps \<and> ry_pending s' = drop j ps \<and> (k = 0 \<and> ps \<noteq> [] \<longrightarrow> 0 < j)
     \<and> (list_all (\<lambda>x. \<not> kind_is ''boot'' (fst x)) (take j ps) \<or> k = 0 \<and> j = 1)
     \<and> mg_cold_applied (ry_merger s') = fold (\<lambda>x. seq_done (snd (snd x))) (take j ps) (mg_cold_applied (ry_merger s))"
proof (induction n arbitrary: s ps k acc)
  case 0
  then show ?case by (auto simp: sx_return_def intro!: exI [of _ 0])
next
  case (Suc n)
  show ?case
  proof (cases ps)
    case Nil
    with Suc.prems show ?thesis by (auto simp: sx_return_def sx_read_def intro!: exI [of _ 0])
  next
    case (Cons p qs)
    obtain h data seq where p: "p = (h, data, seq)" by (cases p)
    show ?thesis
    proof (cases "k \<noteq> 0 \<and> (kind_is ''boot'' h \<or> re_over env k)")
      case True
      with Suc.prems Cons p show ?thesis by (auto simp: sx_return_def sx_read_def intro!: exI [of _ 0])
    next
      case False
      obtain us due s1 where b: "batch_blob py_repr ops env p s = (Inr (us, due), s1)" "ry_pending s1 = qs"
        "mg_cold_applied (ry_merger s1) = seq_done seq (mg_cold_applied (ry_merger s))"
        using batch_blob_run [of py_repr ops env h data seq s] Suc.prems(1) Cons p by auto
      show ?thesis
      proof (cases "kind_is ''boot'' h")
        case True
        then show ?thesis
          using False b Suc.prems Cons p by (auto simp: sx_read_def sx_bind_def sx_return_def intro!: exI [of _ 1])
      next
        case nb: False
        from Suc.IH [OF b(2), of "Suc k" "(fst acc @ us, snd acc @ due)"] Suc.prems(2) Cons
        obtain acc' s' j where r: "batch_loop py_repr ops env n (Suc k) (fst acc @ us, snd acc @ due) s1 = (Inr acc', s')"
          "j \<le> length qs" "ry_pending s' = drop j qs" "list_all (\<lambda>x. \<not> kind_is ''boot'' (fst x)) (take j qs)"
          "mg_cold_applied (ry_merger s') = fold (\<lambda>x. seq_done (snd (snd x))) (take j qs) (mg_cold_applied (ry_merger s1))"
          by auto
        then show ?thesis
          using False nb b Suc.prems Cons p by (auto simp: sx_read_def sx_bind_def intro!: exI [of _ "Suc j"])
      qed
    qed
  qed
qed

text \<open>A batch takes a front part of the queue, a bootstrap only by itself.\<close>

lemma batch_run:
  fixes s :: "('w, 'r) replica"
  shows "\<exists>j \<le> length (ry_pending s). let s' = snd (apply_pending_batch py_repr ops env s); taken = take j (ry_pending s) in
      ry_pending s' = drop j (ry_pending s) \<and> (ry_pending s \<noteq> [] \<longrightarrow> taken \<noteq> [])
      \<and> (length taken = 1 \<or> list_all (\<lambda>x. \<not> kind_is ''boot'' (fst x)) taken)
      \<and> mg_cold_applied (ry_merger s') = fold (\<lambda>x. seq_done (snd (snd x))) taken (mg_cold_applied (ry_merger s))"
proof -
  define s0 where "s0 = snd (quiet env BLOB_GRACE s)"
  have q: "quiet env BLOB_GRACE s = (Inr (), s0)" by (simp add: s0_def quiet_def sx_mod_def)
  have s0: "ry_pending s0 = ry_pending s \<and> mg_cold_applied (ry_merger s0) = mg_cold_applied (ry_merger s)"
    by (simp add: s0_def quiet_def sx_mod_def)
  obtain us due s1 j where l: "batch_loop py_repr ops env (length (ry_pending s0)) 0 ([], []) s0 = (Inr (us, due), s1)"
    "j \<le> length (ry_pending s)" "ry_pending s1 = drop j (ry_pending s)" "ry_pending s \<noteq> [] \<longrightarrow> 0 < j"
    "list_all (\<lambda>x. \<not> kind_is ''boot'' (fst x)) (take j (ry_pending s)) \<or> j = 1"
    "mg_cold_applied (ry_merger s1) = fold (\<lambda>x. seq_done (snd (snd x))) (take j (ry_pending s)) (mg_cold_applied (ry_merger s))"
    using batch_loop_run [of s0 "ry_pending s" "length (ry_pending s0)" py_repr ops env 0 "([], [])"] s0 by auto
  let ?e = "sx_ensure (batch_state ops us) (batch_end py_repr ops env due) :: (unit, 'w, 'r) rx"
  have "snd (apply_pending_batch py_repr ops env s) = snd (?e s1)"
    by (simp add: apply_pending_batch_def sx_seq_def sx_bind_def sx_read_def q l(1))
  moreover have "ry_pending (snd (?e s1)) = ry_pending s1 \<and> mg_cold_applied (ry_merger (snd (?e s1))) = mg_cold_applied (ry_merger s1)"
    using queue_same [of s1 ?e] by (simp add: always_intros rk_intros)
  ultimately show ?thesis using l s0 by (auto simp: Let_def intro!: exI [of _ j])
qed

text \<open>C18: However slow the machine, each batch applies at least one waiting blob: as many batches as
  there are waiting blobs leave none, whatever the blobs raise.\<close>

theorem batches_drain:
  "length (ry_pending (fold (\<lambda>env s. snd (apply_pending_batch py_repr ops env s)) envs s)) \<le> length (ry_pending s) - length envs"
proof (induction envs arbitrary: s)
  case (Cons env envs)
  obtain j where "ry_pending (snd (apply_pending_batch py_repr ops env s)) = drop j (ry_pending s)"
    "ry_pending s \<noteq> [] \<longrightarrow> 0 < j"
    using batch_run [of s py_repr ops env] by (auto simp: Let_def)
  then have "length (ry_pending (snd (apply_pending_batch py_repr ops env s))) \<le> length (ry_pending s) - 1"
    by (cases "ry_pending s = []") auto
  with Cons.IH [of "snd (apply_pending_batch py_repr ops env s)"] show ?case by simp
qed simp

subsection \<open>The inventory\<close>

definition current_batch :: "int option \<Rightarrow> header \<Rightarrow> bool" where
  "current_batch gen m \<longleftrightarrow> \<not> boot_ahead gen m \<and> boot_same gen m"

definition batch_entries :: "header \<Rightarrow> (string \<times> json) list" where
  "batch_entries m = (case get_true m ''held'' (JObj []) of JObj es \<Rightarrow> es | _ \<Rightarrow> [])"

definition sent_digest :: "(json \<Rightarrow> string) \<Rightarrow> (string \<times> json) list \<Rightarrow> uuid \<Rightarrow> string option" where
  "sent_digest py_repr es u = map_option (\<lambda>e. py_str py_repr (snd e)) (find (\<lambda>e. fst e = u \<and> json_true (snd e)) es)"

lemma sent_digest_append:
  "sent_digest py_repr (es @ fs) u = (case sent_digest py_repr es u of Some d \<Rightarrow> Some d | None \<Rightarrow> sent_digest py_repr fs u)"
  by (induction es) (auto simp: sent_digest_def)

lemma adopt_fold:
  "dget (fold (adopt_digest py_repr) es held) u = (case dget held u of Some d \<Rightarrow> Some d | None \<Rightarrow> sent_digest py_repr es u)"
  by (induction es arbitrary: held) (auto simp: sent_digest_def adopt_digest_def split: option.split prod.split)

lemma manifest_loop_keep:
  "length keep \<le> MANIFESTS_AHEAD_MAX \<Longrightarrow>
     fst (manifest_loop py_repr gen ms keep hv) = take MANIFESTS_AHEAD_MAX (keep @ filter (boot_ahead gen) ms)"
proof (induction ms arbitrary: keep hv)
  case (Cons m ms)
  then show ?case
    by (cases hv) (auto simp: not_less Suc_le_eq take_Cons' Suc_diff_Suc diff_Suc_less split: json.split)
next
  case (Nil keep hv)
  then show ?case by (cases hv) simp
qed

lemma manifest_loop_held:
  "dget (fst (snd (manifest_loop py_repr gen ms keep (held, version)))) u =
     (case dget held u of Some d \<Rightarrow> Some d
      | None \<Rightarrow> sent_digest py_repr (concat (map batch_entries (filter (current_batch gen) ms))) u)"
proof (induction ms arbitrary: keep held version)
  case Nil
  then show ?case by (simp add: sent_digest_def split: option.split)
next
  case (Cons m ms)
  show ?case
  proof (cases "current_batch gen m")
    case True
    then have f: "\<not> boot_ahead gen m" "boot_same gen m" by (simp_all add: current_batch_def)
    show ?thesis
    proof (cases "get_true m ''held'' (JObj [])")
      case (JObj es)
      with True f show ?thesis
        by (simp add: Cons.IH adopt_fold sent_digest_append batch_entries_def [of m] split: option.split)
    qed (use True f in \<open>simp_all add: Cons.IH batch_entries_def [of m] split: option.split\<close>)
  next
    case False
    then show ?thesis by (auto simp: current_batch_def Cons.IH split: option.split)
  qed
qed

text \<open>Merging what the host says it has sent: a digest already held stays, a uuid not held gets the
  first digest some batch for the running file gives it, batches of older files count for nothing, and the
  batches for a file still to come wait, in order, the oldest 256 of them.\<close>

theorem manifests_merge_first_wins:
  "let s' = snd (merge_manifests py_repr s); gen = ry_boot_gen s in
     ry_manifests s' = take 256 (filter (boot_ahead gen) (ry_manifests s))
     \<and> dget (ry_held s') u = (case dget (ry_held s) u of Some d \<Rightarrow> Some d
         | None \<Rightarrow> sent_digest py_repr (concat (map batch_entries (filter (current_batch gen) (ry_manifests s)))) u)"
proof -
  obtain keep held version where l:
    "manifest_loop py_repr (ry_boot_gen s) (ry_manifests s) [] (ry_held s, ry_held_version s) = (keep, held, version)"
    by (metis prod_cases3)
  have "keep = take 256 (filter (boot_ahead (ry_boot_gen s)) (ry_manifests s))"
    using manifest_loop_keep [of "[]" py_repr "ry_boot_gen s" "ry_manifests s" "(ry_held s, ry_held_version s)"]
    by (simp add: l MANIFESTS_AHEAD_MAX_def)
  then show ?thesis
    using manifest_loop_held [of py_repr "ry_boot_gen s" "ry_manifests s" "[]" "ry_held s" "ry_held_version s" u]
    by (simp add: l merge_manifests_def sx_mod_def)
qed

subsection \<open>Where order is lost\<close>

lemma blob_begins_run: "hashable u \<Longrightarrow> \<exists>s1. blob_begins u bid s = (Inr (), s1) \<and> ry_pending s1 = ry_pending s
    \<and> ry_merger s1 = ry_merger s"
  by (simp add: blob_begins_def sx_mod_def)

text \<open>C15: A chunk that is not the last of its blob marks its own cold sequence applied. So with completed
  blobs waiting for their batch, the messages parked behind those blobs are released - applied - while the
  blobs still wait: after the chunk, every message naming a sequence up to the chunk's is gone from the
  parked ones, and the queue of blobs is what it was.\<close>

theorem middle_chunk_overtakes_blobs:
  fixes s :: "('w, 'r) replica"
  assumes "\<not> is_fast h" "kind_is ''t2'' h" "seq_of h = Inr (Some c)" "blob_id h = Inr bid"
    "hashable (get_or h ''uuid'' (JStr []))"
    "fst (rs_feed h payload (ry_reassembler (snd (blob_begins (get_or h ''uuid'' (JStr [])) bid s)))) = Inr None"
  shows "let s' = snd (dispatch py_repr ops env h payload s) in
     ry_pending s' = ry_pending s
     \<and> mg_parked (ry_merger s') = filter (\<lambda>x. max c (mg_cold_applied (ry_merger s)) < fst x) (mg_parked (ry_merger s))
     \<and> mg_cold_applied (ry_merger s') = max c (mg_cold_applied (ry_merger s))"
proof -
  let ?u = "get_or h ''uuid'' (JStr [])"
  obtain s1 where b: "blob_begins ?u bid s = (Inr (), s1)" "ry_pending s1 = ry_pending s" "ry_merger s1 = ry_merger s"
    using blob_begins_run [OF assms(5)] by blast
  obtain q where r: "rs_feed h payload (ry_reassembler s1) = (Inr None, q)"
    using assms(6) b(1) by (metis prod.collapse snd_conv)
  let ?s2 = "s1\<lparr>ry_reassembler := q\<rparr>"
  obtain due s3 where d: "cold_done (Some c) ?s2 = (Inr due, s3)" "ry_pending s3 = ry_pending s"
    "mg_parked (ry_merger s3) = filter (\<lambda>x. max c (mg_cold_applied (ry_merger s)) < fst x) (mg_parked (ry_merger s))"
    "mg_cold_applied (ry_merger s3) = max c (mg_cold_applied (ry_merger s))"
    by (simp add: cold_done_def ask_merger_def mg_cold_done_eq Let_def b(2,3) not_le)
  have k: "\<not> kind_is k h" if "k \<noteq> ''t2''" for k using assms(2) that by (auto simp: kind_is_def)
  have "dispatch py_repr ops env h payload s = release ops env due s3"
    using assms(1-4) b(1) r d(1)
    by (simp add: dispatch_def dispatch_cold_def k sx_bind_def sx_seq_def sx_lift_def ask_reassembler_def release_cold_def)
  then show ?thesis
    using queue_same [of s3 "release ops env due"] d by (simp add: rk_intros)
qed

lemma cleared_no_gap: "mg_gap_lane (mg_clear_fast_gap (mg_clear_cold_gap m)) = []"
  by (simp add: gap_lane_empty clear_fast_trackers mg_clear_cold_gap_def sq_clear_gap_def)

lemma cleared_caught_up: "sq_last_seen (mg_fast m) = Some q \<Longrightarrow> q \<le> mg_fast_applied (mg_clear_fast_gap (mg_clear_cold_gap m))"
  by (simp add: mg_clear_fast_gap_def mg_clear_cold_gap_def sq_clear_gap_def Let_def)

text \<open>Applying a bootstrap clears whatever hole is known by then. While the file waited for its batch
  the fast lane kept being read, so the hole may be of an edit made after the file was written: the mark
  passes it all the same, and nothing asks for it again.\<close>

theorem bootstrap_forgives_every_hole:
  "let s' = snd (boot_loaded ops env h bid r s) in
     mg_gap_lane (ry_merger s') = [] \<and> \<not> rt_want_resync (ry_stats s') \<and> rt_gap_lane (ry_stats s') = []
     \<and> (case sq_last_seen (mg_fast (ry_merger s)) of None \<Rightarrow> True | Some q \<Rightarrow> q \<le> mg_fast_applied (ry_merger s'))"
proof -
  have "\<exists>t. sx_each request_lib ls s = (Inr (), s\<lparr>ry_stats := t\<rparr>)" for ls and s :: "('a, 'b) replica"
  proof (induction ls arbitrary: s)
    case (Cons p ls)
    obtain t where "request_lib p s = (Inr (), s\<lparr>ry_stats := t\<rparr>)"
      by (simp add: request_lib_def on_stats_def sx_mod_def)
    moreover obtain t2 where "sx_each request_lib ls (s\<lparr>ry_stats := t\<rparr>) = (Inr (), s\<lparr>ry_stats := t\<rparr>\<lparr>ry_stats := t2\<rparr>)"
      using Cons.IH by blast
    ultimately show ?case by (auto simp: sx_seq_def sx_bind_def)
  next
    case (Nil s)
    show ?case by (rule exI [of _ "ry_stats s"]) (simp add: sx_return_def)
  qed
  then obtain g where lib: "sx_each request_lib ls s = (Inr (), s\<lparr>ry_stats := g ls s\<rparr>)" for ls and s :: "('a, 'b) replica"
    by metis
  show ?thesis
    by (simp add: boot_loaded_def boot_answers_def lib sx_seq_def sx_bind_def on_stats_def sx_mod_def on_merger_def
        refresh_gap_stats_def rebuild_uuid_map_def held_clear_def on_world_def sx_lift_def sx_return_def Let_def
        cleared_no_gap cleared_caught_up split: prod.split sum.split option.split)
qed

text \<open>A new session resets the merger to the numbers the hello reports but keeps the blobs of the old
  session waiting. When such a blob applies, its old number becomes the cold mark of the new session, and
  every edit of the new session naming a number up to it goes through without its blob.\<close>

theorem new_session_keeps_old_blobs:
  fixes s :: "('w, 'r) replica"
  assumes "ry_pending s = [(h, data, Some q)]" "ry_new_session_seqs s = (c, f)" "c < q"
    and "is_fast m" "after_of m = Inr a" "a \<le> q"
  defines "s1 \<equiv> snd (handle_new_session s)"
  shows "mg_cold_applied (ry_merger s1) = c
    \<and> fst (mg_admit m p (ry_merger (snd (apply_pending_batch py_repr ops env s1)))) = Inr True"
proof -
  have s1: "ry_pending s1 = ry_pending s" "mg_cold_applied (ry_merger s1) = c"
    using assms(2) by (simp_all add: s1_def handle_new_session_def on_stats_def refresh_gap_stats_def sx_defs Let_def primed_def)
  let ?s2 = "snd (apply_pending_batch py_repr ops env s1)"
  obtain j where "j \<le> 1" "take j [(h, data, Some q)] \<noteq> []"
    "mg_cold_applied (ry_merger ?s2) = fold (\<lambda>x. seq_done (snd (snd x))) (take j [(h, data, Some q)]) c"
    using batch_run [of s1 py_repr ops env] s1 assms(1) by (auto simp: Let_def)
  then have "mg_cold_applied (ry_merger ?s2) = q"
    using assms(3) by (cases j) (auto simp: seq_done_def)
  then show ?thesis using s1 assms(4-6) by (simp add: mg_admit_def)
qed

subsection \<open>A small file, for the witnesses\<close>

text \<open>Datablocks are numbers with a stamp; a blob adds the one its tag names.\<close>

definition demo_ops :: "(int \<times> uuid) list world_ops" where
  "demo_ops = \<lparr>wo_stamped = map (\<lambda>(d, u). (u, d)), wo_alive = (\<lambda>d w. d \<in> fst ` set w),
     wo_write = (\<lambda>_ _ _ w. (Inr (), w)), wo_remove = (\<lambda>d w. (Inr (), filter (\<lambda>x. fst x \<noteq> d) w)),
     wo_apply_blob = (\<lambda>_ tag _ _ umap w. (Inr 0, dset tag (int (length w)) umap, w @ [(int (length w), tag)])),
     wo_mainfile = (\<lambda>_ tag _ _ w. (Inr \<lparr>ld_errors = 0, ld_unmapped = 0, ld_unmapped_entries = [], ld_project_dir = []\<rparr>, [(0, tag)])),
     wo_libs = (\<lambda>_. []), wo_drop_lib = (\<lambda>_ w. w), wo_link = (\<lambda>_ _ _ w. (Inr (), w)), wo_linked = (\<lambda>_ _. ([], [])),
     wo_relink = (\<lambda>_ _ w. (Inr (), w)), wo_exists = (\<lambda>_ _. False), wo_cache = (\<lambda>n _ w. (Inr n, w)),
     wo_frozen_caches = (\<lambda>_. 0), wo_view = (\<lambda>_. False), wo_project_loaded = (\<lambda>w. (Inr (), w)), wo_probe = (\<lambda>_ w. w),
     wo_hot = (\<lambda>_ _ _ _ w. (Inr (), w)), wo_vis = (\<lambda>_ w. ((Inr (), False), w)), wo_goodbye = (\<lambda>w. w)\<rparr>"

definition demo_receiver :: "unit receiver" where
  "demo_receiver = \<lparr>rc_poll_hot = (\<lambda>_. None), rc_hot_keyed = None, rc_poll_fast = None, rc_poll_cold = (\<lambda>_ r. ([], r))\<rparr>"

definition demo_env :: replica_env where
  "demo_env = \<lparr>re_now = 100, re_room = 4, re_over = (\<lambda>_. False), re_digest = (\<lambda>_. []), re_sha1 = (\<lambda>_. []), re_home = [], re_os = []\<rparr>"

definition demo_fast :: header where
  "demo_fast = [(''kind'', JStr ''t1''), (''lane'', JStr ''f''), (''seq'', JInt 1), (''after'', JInt 1), (''uuid'', JStr ''a'')]"

definition demo_chunk :: header where
  "demo_chunk = chunk_header ''t2'' (JStr ''b.2'') 0 2 8 4 [(''uuid'', JStr ''b''), (''seq'', JInt 2)]"

text \<open>Blob 1 has completed and waits; the delta that must follow it is parked.\<close>

definition demo_waiting :: "((int \<times> uuid) list, unit) replica" where
  "demo_waiting = (replica_init [] ())\<lparr>ry_pending := [([(''kind'', JStr ''t2'')], [7], Some 1)],
     ry_merger := mg_init\<lparr>mg_parked := [(1, demo_fast, [])]\<rparr>\<rparr>"

text \<open>A delta for a datablock this replica never got, taken in by a tick.\<close>

definition demo_inbox :: "(header \<times> byte list) list receiver" where
  "demo_inbox = \<lparr>rc_poll_hot = (\<lambda>_. None), rc_hot_keyed = None, rc_poll_fast = None,
     rc_poll_cold = (\<lambda>n r. (take n r, drop n r))\<rparr>"

definition demo_t1 :: header where
  "demo_t1 = [(''kind'', JStr ''t1''), (''seq'', JInt 1), (''uuid'', JStr ''a'')]"

definition demo_arrived :: "((int \<times> uuid) list, (header \<times> byte list) list) replica" where
  "demo_arrived = (snd (replica_start demo_ops demo_env [] (replica_init [] [])))\<lparr>ry_rx := [(demo_t1, [])]\<rparr>"

lemma demo_arrived_eq:
  "demo_arrived = (replica_init [] [(demo_t1, [])])\<lparr>ry_running := True, ry_quiet_until := 103\<rparr>"
  by (simp add: demo_arrived_def replica_start_def on_stats_def rebuild_uuid_map_def quiet_def sx_defs replica_init_def
      stats_init_def demo_ops_def demo_env_def BLOB_GRACE_def mg_reset_def mg_init_def)

lemma demo_hole: "ry_unknown_gap (snd (replica_tick (\<lambda>_. []) demo_ops demo_inbox demo_env demo_arrived))"
  by (simp add: demo_arrived_eq replica_init_def replica_tick_def tick_inner_def tick_hot_def follow_hot_def service_vis_def
      batch_due_def demo_inbox_def demo_env_def numeral_eq_Suc next_message_def poll_fast_def next_cold_def next_fast_def
      pending_boot_def BATCH_MAX_def take_in_def demo_t1_def ask_merger_def mg_observe_def mg_admit_def seq_of_def is_fast_def
      lane_of_def LANE_COLD_def LANE_FAST_def as_int_def sq_observe_def mg_init_def sq_init_def note_seen_def dispatch_def
      dispatch_cold_def kind_is_def apply_t1_def item_def resolve_def hashable_def map_get_def rebuild_uuid_map_def demo_ops_def
      note_touched_def quiet_def unknown_datablock_def on_stats_def refresh_gap_stats_def release_cold_def cold_done_def
      mg_cold_done_def release_def note_parked_def sx_defs Let_def)


theorem middle_chunk_overtakes_blobs_witness:
  "let s' = snd (dispatch (\<lambda>_. []) demo_ops demo_env demo_chunk [1, 2, 3, 4] demo_waiting) in
     ry_pending s' = ry_pending demo_waiting \<and> mg_parked (ry_merger s') = []"
proof -
  have "seq_of demo_chunk = Inr (Some 2)" "\<not> is_fast demo_chunk" "kind_is ''t2'' demo_chunk" "blob_id demo_chunk = Inr (JStr ''b.2'')"
    "get_or demo_chunk ''uuid'' (JStr []) = JStr ''b''"
    by (simp_all add: demo_chunk_def chunk_header_def seq_of_def is_fast_def lane_of_def LANE_FAST_def LANE_COLD_def as_int_def
        kind_is_def blob_id_def item_def json_object_def get_or_def)
  moreover have "fst (rs_feed demo_chunk [1, 2, 3, 4] rs_init) = Inr None"
    by (simp add: demo_chunk_def chunk_header_def rs_feed_def rs_init_def item_def int_item_def as_int_def json_object_def
        json_true_def hashable_def new_partial_def rs_place_def Let_def)
  ultimately show ?thesis
    using middle_chunk_overtakes_blobs [of demo_chunk 2 "JStr ''b.2''" "[1, 2, 3, 4]" demo_waiting "\<lambda>_. []" demo_ops demo_env]
    by (simp add: hashable_def blob_begins_def sx_mod_def demo_waiting_def replica_init_def mg_init_def Let_def)
qed

theorem new_session_keeps_old_blobs_witness:
  "fst (mg_admit demo_fast [] (ry_merger (snd (apply_pending_batch (\<lambda>_. []) demo_ops demo_env
     (snd (handle_new_session demo_waiting)))))) = Inr True"
proof -
  have "is_fast demo_fast" "after_of demo_fast = Inr 1"
    by (simp_all add: demo_fast_def is_fast_def lane_of_def LANE_FAST_def json_true_def after_of_def as_int_def)
  then show ?thesis
    using new_session_keeps_old_blobs [of demo_waiting "[(''kind'', JStr ''t2'')]" "[7]" 1 0 0 demo_fast 1 "[]" "\<lambda>_. []" demo_ops demo_env]
    by (simp add: demo_waiting_def replica_init_def)
qed


end
