(* ===== verification/Session_Replica.thy ===== *)
theory Session_Replica
  imports Session_Common Replica_Claims
begin

text \<open>
  The replica's session (\<open>ring0/session.py\<close>): the handler of control messages and the status provider, which
  run on the IO thread, and the main thread's timers for colour, viewer and session end. The apply loop is part
  of the state. A thread that resolves ffmpeg and starts the pixel path is a \<open>pixel_job\<close>; the kiosk and the
  encoder are answers of the environment. The transport's \<open>control_reply\<close> wraps the handler.
\<close>

record pixel_job =
  pj_url :: string
  pj_passphrase :: string
  pj_params :: stream_params
  pj_source :: string
  pj_restart :: bool

datatype replica_note = Rnote_Listening | Rnote_Connected | Rnote_Host_Ended | Rnote_Session_Ended

record replica_view =
  rv_session :: session_env
  rv_now :: time
  rv_cm :: "header option"
  rv_pref :: "string \<Rightarrow> json option"
  rv_session_on :: bool
  rv_kiosk_active :: bool
  rv_replica :: replica_env
  rv_pixel_status :: string
  rv_readback :: header
  rv_last_error :: string
  rv_last_local_edit :: string
  rv_ffmpeg_note :: string

record ('w, 'r) session_replica =
  sr_on :: bool
  sr_epoch :: string
  sr_replica :: "('w, 'r) replica"
  sr_own_rows :: "path_mapping list"
  sr_peer_epoch :: json
  sr_peer_addon :: json
  sr_peer_cm :: json
  sr_note :: replica_note
  sr_cm :: header
  sr_mismatches :: "cm_row list"
  sr_host_mappings :: nat
  sr_viewer :: header
  sr_viewer_addr :: string
  sr_viewer_pending :: bool
  sr_stream_info :: header
  sr_params :: stream_params
  sr_resolving :: bool
  sr_jobs :: "pixel_job list"
  sr_off_since :: "time option"
  sr_kiosk_exits :: nat
  sr_agent_out :: "header list"

type_synonym ('a, 'w, 'r) srx = "('a, ('w, 'r) session_replica) sx"

definition on_replica :: "('a, 'w, 'r) rx \<Rightarrow> ('a, 'w, 'r) srx" where
  "on_replica m s = (case m (sr_replica s) of (r, y) \<Rightarrow> (r, s\<lparr>sr_replica := y\<rparr>))"

definition sr_recompute :: "session_env \<Rightarrow> (unit, 'w, 'r) srx" where
  "sr_recompute env = sx_read (\<lambda>s. sx_bind
     (sx_lift (mismatches (se_float env) (sr_peer_cm s) (JObj (sr_cm s))))
     (\<lambda>rows. sx_mod (\<lambda>s. s\<lparr>sr_mismatches := rows\<rparr>)))"

subsection \<open>The handler\<close>

definition sr_adopt_row :: "session_env \<Rightarrow> json \<Rightarrow> (unit, 'w, 'r) srx" where
  "sr_adopt_row env theirs = sx_bind (sx_lift (adopt_pair_row env (shared_root_card env) theirs)) (\<lambda>fields. case fields of
     None \<Rightarrow> sx_return () | Some f \<Rightarrow> sx_mod (\<lambda>s. s\<lparr>sr_agent_out := sr_agent_out s @ [f]\<rparr>))"

definition hello_mappings :: "session_env \<Rightarrow> header \<Rightarrow> (unit, 'w, 'r) srx" where
  "hello_mappings env msg =
     sx_bind (sx_lift (config_rows_in env (get_or msg ''mappings'' JNull))) (\<lambda>received.
     sx_seq (sx_read (\<lambda>s. on_replica (sx_mod (set_mappings (merge_tables (sr_own_rows s) received)))))
    (sx_seq (sr_adopt_row env (get_true msg ''shared_root'' (JObj [])))
       (sx_mod (\<lambda>s. s\<lparr>sr_host_mappings := length received\<rparr>))))"

definition hello_session :: "header \<Rightarrow> (unit, 'w, 'r) srx" where
  "hello_session msg = sx_read (\<lambda>s.
     sx_seq (sx_when (sr_peer_epoch s \<noteq> get_or msg ''epoch'' JNull)
               (on_replica (notify_new_session (get_or msg ''seq'' (JInt 0)) (get_or msg ''seq_fast'' (JInt 0)))))
       (sx_mod (\<lambda>s. s\<lparr>sr_peer_epoch := get_or msg ''epoch'' JNull, sr_peer_addon := get_or msg ''addon'' (JStr []),
                      sr_peer_cm := get_true msg ''cm'' (JObj [])\<rparr>)))"

definition hello_viewer :: "session_env \<Rightarrow> header \<Rightarrow> (unit, 'w, 'r) srx" where
  "hello_viewer env msg = sx_bind (sx_lift (as_dict (get_true msg ''viewer'' (JObj [])))) (\<lambda>viewer.
     let addr = host_of (se_peer_addr env) in
     sx_mod (\<lambda>s. if viewer \<noteq> sr_viewer s \<or> addr \<noteq> sr_viewer_addr s
                 then s\<lparr>sr_viewer := viewer, sr_viewer_addr := addr, sr_viewer_pending := True\<rparr> else s))"

definition hello_accept :: "session_env \<Rightarrow> header \<Rightarrow> (unit, 'w, 'r) srx" where
  "hello_accept env msg = sx_do [hello_mappings env msg, hello_session msg, hello_viewer env msg, sr_recompute env,
     sx_mod (\<lambda>s. s\<lparr>sr_note := Rnote_Connected\<rparr>)]"

definition hello_reply :: "session_env \<Rightarrow> bool \<Rightarrow> string \<Rightarrow> ('w, 'r) session_replica \<Rightarrow> header" where
  "hello_reply env ok reason s =
     [(''kind'', JStr ''hello_reply''), (''ok'', JBool ok), (''reason'', JStr reason), (''epoch'', JStr (sr_epoch s)),
      (''stream'', JObj (sr_stream_info s)), (''shared_root'', JObj (shared_root_card env)),
      (''addon'', JStr (se_addon env)), (''caps'', JList (map JStr REPLICA_CAPS)), (''cm'', JObj (sr_cm s))]"

definition handle_hello :: "session_env \<Rightarrow> string \<Rightarrow> header \<Rightarrow> (header, 'w, 'r) srx" where
  "handle_hello env fallback_token msg =
     sx_bind (sx_lift (secrets env fallback_token)) (\<lambda>(secret, _).
     sx_bind (sx_lift (check_hello (se_repr env) msg secret)) (\<lambda>(ok, reason).
     sx_seq (sx_when ok (hello_accept env msg)) (sx_read (\<lambda>s. sx_return (hello_reply env ok reason s)))))"

definition handle_zoom :: "session_env \<Rightarrow> header \<Rightarrow> (header, 'w, 'r) srx" where
  "handle_zoom env msg = sx_bind (sx_lift (se_float env (get_or msg ''delta'' (JFloat ''0.0'')))) (\<lambda>delta.
     sx_seq (on_replica (sx_mod (nudge_zoom delta (truthy msg ''reset'')))) (sx_return [(''kind'', JStr ''zoom_ack'')]))"

definition session_handler :: "session_env \<Rightarrow> string \<Rightarrow> header \<Rightarrow> (header, 'w, 'r) srx" where
  "session_handler env fallback_token msg =
     (let kind = get_or msg ''kind'' JNull in
      if kind = JStr ''hello'' then handle_hello env fallback_token msg
      else if kind = JStr ''cm'' then
        sx_seq (sx_mod (\<lambda>s. s\<lparr>sr_peer_cm := get_true msg ''cm'' (JObj [])\<rparr>))
          (sx_seq (sr_recompute env) (sx_read (\<lambda>s. sx_return [(''kind'', JStr ''cm_ack''), (''cm'', JObj (sr_cm s))])))
      else if kind = JStr ''goodbye'' then
        sx_seq (on_replica (sx_mod notify_host_goodbye))
          (sx_seq (sx_mod (\<lambda>s. s\<lparr>sr_note := Rnote_Host_Ended\<rparr>)) (sx_return [(''kind'', JStr ''goodbye_ack'')]))
      else if kind = JStr ''shot'' then
        sx_seq (on_replica (sx_mod (set_shot_mode (truthy msg ''on'')))) (sx_return [(''kind'', JStr ''shot_ack'')])
      else if kind = JStr ''zoom'' then handle_zoom env msg
      else if kind = JStr ''manifest_req'' then sx_read (\<lambda>s. sx_return (held_snapshot (sr_replica s)))
      else if kind = JStr ''manifest'' then
        sx_seq (on_replica (sx_mod (notify_manifest msg))) (sx_return [(''kind'', JStr ''manifest_ack'')])
      else sx_return [(''kind'', JStr ''error''), (''error'', JStr (''unknown kind '' @ se_repr env kind))])"

subsection \<open>The status in every pong\<close>

definition json_nat :: "nat \<Rightarrow> json" where "json_nat n = JInt (int n)"
definition json_texts :: "string list \<Rightarrow> json" where "json_texts ts = JList (map JStr ts)"
definition json_opt :: "int option \<Rightarrow> json" where "json_opt v = (case v of None \<Rightarrow> JNull | Some n \<Rightarrow> JInt n)"

definition session_status :: "replica_view \<Rightarrow> ('w, 'r) session_replica \<Rightarrow> header" where
  "session_status rv s = (let t = ry_stats (sr_replica s) in
     [(''stream'', JObj (sr_stream_info s)), (''seq'', JInt (rt_seq t)), (''gaps'', json_nat (rt_gaps t)),
      (''errors'', json_nat (rt_apply_errors t)), (''unknown'', json_nat (rt_unknown_uuid t)),
      (''epoch'', JStr (sr_epoch s)), (''want_resync'', JBool (rt_want_resync t)),
      (''seq_fast'', JInt (rt_seq_fast t)), (''parked'', json_nat (rt_parked t)),
      (''cold_applied'', JInt (rt_cold_applied t)), (''fast_applied'', JInt (rt_fast_applied t)),
      (''fast_gap_at'', json_opt (rt_fast_gap_at t)), (''gap_lane'', JStr (rt_gap_lane t)),
      (''resyncs'', json_nat (rt_resyncs t)), (''batches'', json_nat (rt_batches t)),
      (''evaluations'', json_nat (rt_evaluations t)), (''held_n'', json_nat (rt_held_n t)),
      (''held_digest'', JStr (rt_held_digest t)), (''scene_digest'', rt_scene_digest t),
      (''applied_t2'', json_nat (rt_applied_t2 t)), (''applied_t1'', json_nat (rt_applied_t1 t)),
      (''bootstraps'', json_nat (rt_bootstraps t)), (''unmapped'', json_nat (rt_unmapped_paths t)),
      (''unmapped_names'', json_texts (take 6 (rt_unmapped_names t))),
      (''need_libs'', json_texts (take 8 (rt_need_libs t))), (''libs_cached'', json_nat (rt_libs_cached t)),
      (''libs_missing_on_host'', json_texts (take 6 (rt_libs_missing t))),
      (''frozen'', json_nat (rt_frozen_caches t)), (''last_error'', JStr (take 120 (rv_last_error rv))),
      (''local_edits'', json_nat (rt_local_edits t)), (''last_local_edit'', JStr (take 60 (rv_last_local_edit rv))),
      (''pixel'', JStr (rv_pixel_status rv)), (''ffmpeg'', JStr (rv_ffmpeg_note rv)),
      (''readback'', JObj (rv_readback rv)), (''cm'', JObj (sr_cm s))])"

subsection \<open>The pixel path and the working space\<close>

definition sr_refresh_cm :: "replica_view \<Rightarrow> (bool, 'w, 'r) srx" where
  "sr_refresh_cm rv s = (case rv_cm rv of None \<Rightarrow> (Inr False, s)
     | Some cm \<Rightarrow> (Inr (get_or cm ''digest'' JNull \<noteq> get_or (sr_cm s) ''digest'' JNull), s\<lparr>sr_cm := cm\<rparr>))"

text \<open>\<open>_start_pixel_path\<close>: the guard is taken before the arguments are read; the thread's end frees it.\<close>

definition start_pixel_path :: "replica_view \<Rightarrow> bool \<Rightarrow> (unit, 'w, 'r) srx" where
  "start_pixel_path rv restart = (let env = rv_session rv; p = se_prefs env in
     sx_read (\<lambda>s. if \<not> pf_enable_stream p \<or> sr_resolving s then sx_return ()
       else sx_seq (sx_mod (\<lambda>s. s\<lparr>sr_resolving := True\<rparr>))
         (sx_bind (sx_lift (replica_srt_url p (sr_viewer s) (sr_viewer_addr s))) (\<lambda>url.
          sx_bind (sx_lift (secrets env (pf_token p))) (\<lambda>(_, passphrase).
            sx_mod (\<lambda>s. s\<lparr>sr_jobs := sr_jobs s @ [\<lparr>pj_url = url, pj_passphrase = passphrase, pj_params = sr_params s,
                                                    pj_source = pixel_source p, pj_restart = restart\<rparr>]\<rparr>))))))"

definition pixel_resolved :: "('w, 'r) session_replica \<Rightarrow> ('w, 'r) session_replica" where
  "pixel_resolved s = s\<lparr>sr_resolving := False\<rparr>"

definition vec3_close :: "real \<Rightarrow> vec3 \<Rightarrow> vec3 \<Rightarrow> bool" where
  "vec3_close tol a b = (case (a, b) of ((x, y, z), (u, v, w)) \<Rightarrow> \<bar>x - u\<bar> \<le> tol \<and> \<bar>y - v\<bar> \<le> tol \<and> \<bar>z - w\<bar> \<le> tol)"

definition mat3_close :: "real \<Rightarrow> mat3 \<Rightarrow> mat3 \<Rightarrow> bool" where
  "mat3_close tol a b = (case (a, b) of ((p, q, r), (x, y, z)) \<Rightarrow> vec3_close tol p x \<and> vec3_close tol q y \<and> vec3_close tol r z)"

definition same_matrix :: "stream_params \<Rightarrow> stream_params \<Rightarrow> bool" where
  "same_matrix p q = (case (sp_matrix p, sp_matrix q) of (Some a, Some b) \<Rightarrow> mat3_close (1 / 1000) a b
       \<and> sp_working_space p = sp_working_space q | _ \<Rightarrow> False)"

definition params_now :: "replica_view \<Rightarrow> json \<Rightarrow> py_error + stream_params" where
  "params_now rv working = err_bind (from_prefs (rv_pref rv)) (with_working (se_float (rv_session rv)) working)"

definition follow_working :: "replica_view \<Rightarrow> (bool, 'w, 'r) srx" where
  "follow_working rv = sx_read (\<lambda>s.
     if \<not> sr_on s then sx_return False
     else sx_bind (sx_lift (obj_of (get_true (sr_cm s) ''working'' (JObj [])))) (\<lambda>working.
       if \<not> truthy working ''name'' then sx_return False
       else sx_bind (sx_lift (params_now rv (JObj working))) (\<lambda>new.
         if same_matrix (sr_params s) new then sx_return False
         else sx_seq (sx_mod (\<lambda>s. s\<lparr>sr_params := new\<rparr>))
           (sx_bind (sx_lift (session_stream (rv_session rv) (sr_viewer s) (sr_viewer_addr s) new)) (\<lambda>info.
             sx_seq (sx_mod (\<lambda>s. s\<lparr>sr_stream_info := info\<rparr>))
               (sx_seq (start_pixel_path rv True) (sx_return True)))))))"

definition follow_colour :: "replica_view \<Rightarrow> (bool, 'w, 'r) srx" where
  "follow_colour rv = sx_bind (sr_refresh_cm rv) (\<lambda>moved. sx_seq (sx_when moved (sr_recompute (rv_session rv))) (sx_return moved))"

definition on_project_loaded :: "replica_view \<Rightarrow> (unit, 'w, 'r) srx" where
  "on_project_loaded rv = sx_read (\<lambda>s. sx_when (sr_on s)
     (sx_bind (follow_colour rv) (\<lambda>_. sx_bind (follow_working rv) (\<lambda>restarted.
        sx_when (\<not> restarted) (start_pixel_path rv False)))))"

subsection \<open>The timers\<close>

definition cm_watch :: "replica_view \<Rightarrow> (time option, 'w, 'r) srx" where
  "cm_watch rv = sx_read (\<lambda>s. if \<not> sr_on s then sx_return None
     else sx_seq (sx_when (\<not> applying (rv_replica rv) (sr_replica s))
                   (sx_bind (follow_colour rv) (\<lambda>moved. sx_when moved (sx_bind (follow_working rv) (\<lambda>_. sx_return ())))))
            (sx_return (Some 2)))"

definition viewer_address :: "replica_view \<Rightarrow> ('w, 'r) session_replica \<Rightarrow> ('w, 'r) session_replica" where
  "viewer_address rv s = (let addr = host_of (se_peer_addr (rv_session rv)) in
     if truthy (sr_viewer s) ''enabled'' \<and> addr \<noteq> [] \<and> addr \<noteq> sr_viewer_addr s
     then s\<lparr>sr_viewer_addr := addr, sr_viewer_pending := True\<rparr> else s)"

definition aim_viewer :: "replica_view \<Rightarrow> (unit, 'w, 'r) srx" where
  "aim_viewer rv = (let p = se_prefs (rv_session rv) in
     sx_seq (sx_mod (\<lambda>s. s\<lparr>sr_viewer_pending := False\<rparr>))
       (sx_read (\<lambda>s. sx_bind (sx_lift (replica_srt_url p (sr_viewer s) (sr_viewer_addr s))) (\<lambda>_.
          sx_bind (sx_lift (push_block (sr_viewer s) (sr_viewer_addr s))) (\<lambda>push.
          sx_seq (sx_mod (\<lambda>s. s\<lparr>sr_stream_info := dset ''push'' (JObj push) (sr_stream_info s)\<rparr>))
            (sx_when (rv_pixel_status rv \<noteq> ''off'' \<or> pf_enable_stream p) (start_pixel_path rv True)))))))"

definition viewer_watch :: "replica_view \<Rightarrow> (time option, 'w, 'r) srx" where
  "viewer_watch rv = sx_read (\<lambda>s. if \<not> sr_on s then sx_return None
     else sx_seq (sx_mod (viewer_address rv))
       (sx_seq (sx_read (\<lambda>s. sx_when (sr_viewer_pending s) (aim_viewer rv))) (sx_return (Some (1 / 2)))))"

definition session_watch :: "replica_view \<Rightarrow> (time option, 'w, 'r) srx" where
  "session_watch rv = sx_read (\<lambda>s. if \<not> sr_on s then sx_return None
     else sx_seq (sx_mod (\<lambda>s. if rv_session_on rv then s\<lparr>sr_off_since := None\<rparr>
         else case sr_off_since s of
             None \<Rightarrow> s\<lparr>sr_off_since := Some (rv_now rv)\<rparr>
           | Some t \<Rightarrow> if rv_now rv - t \<ge> SESSION_OFF_GRACE \<and> rv_kiosk_active rv \<and> \<not> applying (rv_replica rv) (sr_replica s)
               then s\<lparr>sr_kiosk_exits := sr_kiosk_exits s + 1, sr_note := Rnote_Session_Ended\<rparr> else s))
       (sx_return (Some (1 / 2))))"

subsection \<open>Start and stop\<close>

text \<open>
  \<open>_start_replica\<close> in its two halves: from \<open>transport.start()\<close> on, between them, the IO thread may
  already call the handler.
\<close>

definition start_replica_open :: "replica_view \<Rightarrow> string \<Rightarrow> (unit, 'w, 'r) srx" where
  "start_replica_open rv epoch =
     sx_seq (sx_mod (\<lambda>s. s\<lparr>sr_epoch := epoch, sr_peer_epoch := JNull, sr_own_rows := []\<rparr>))
     (sx_bind (sr_refresh_cm rv) (\<lambda>_. sx_read (\<lambda>s.
      sx_bind (sx_lift (params_now rv (get_or (sr_cm s) ''working'' JNull))) (\<lambda>params.
      sx_bind (sx_lift (session_stream (rv_session rv) (sr_viewer s) (sr_viewer_addr s) params)) (\<lambda>info.
        sx_mod (\<lambda>s. s\<lparr>sr_params := params, sr_stream_info := info\<rparr>))))))"

definition start_replica_rest :: "'w world_ops \<Rightarrow> replica_view \<Rightarrow> (unit, 'w, 'r) srx" where
  "start_replica_rest ops rv =
     sx_seq (sx_mod (\<lambda>s. s\<lparr>sr_on := True, sr_note := Rnote_Listening, sr_off_since := None,
        sr_agent_out := sr_agent_out s @ (case push_paths (rv_session rv) of None \<Rightarrow> [] | Some f \<Rightarrow> [f])\<rparr>))
     (sx_bind (sx_lift (effective_mappings (rv_session rv))) (\<lambda>rows.
      sx_seq (sx_mod (\<lambda>s. s\<lparr>sr_own_rows := rows\<rparr>))
     (sx_seq (on_replica (replica_start ops (rv_replica rv) rows)) (start_pixel_path rv False))))"

definition stop_replica :: "('w, 'r) session_replica \<Rightarrow> ('w, 'r) session_replica" where
  "stop_replica s = s\<lparr>sr_on := False, sr_replica := replica_stop (sr_replica s), sr_viewer := [], sr_viewer_addr := [],
     sr_viewer_pending := False, sr_stream_info := [], sr_peer_epoch := JNull, sr_peer_addon := JNull, sr_cm := [],
     sr_peer_cm := JObj [], sr_mismatches := [], sr_resolving := False\<rparr>"

end
