(* ===== verification/Host_Lanes.thy ===== *)
theory Host_Lanes
  imports Host_Flush
begin

text \<open>
  What the host puts on the lanes, as the list of what the transport took: \<open>logged tr\<close> is \<open>tr\<close>
  with that list beside its state, so every statement holds for any transport.
\<close>

type_synonym sent = "bool \<times> header \<times> byte list"

definition logging :: "bool \<Rightarrow> (header \<Rightarrow> byte list \<Rightarrow> 't \<Rightarrow> (py_error + bool) \<times> 't)
    \<Rightarrow> header \<Rightarrow> byte list \<Rightarrow> 't \<times> sent list \<Rightarrow> (py_error + bool) \<times> 't \<times> sent list" where
  "logging fast send h p w =
     (case send h p (fst w) of (r, t) \<Rightarrow> (r, t, if r = Inr True then snd w @ [(fast, h, p)] else snd w))"

definition beside :: "('t \<Rightarrow> 'r \<times> 't) \<Rightarrow> 't \<times> sent list \<Rightarrow> 'r \<times> 't \<times> sent list" where
  "beside f w = (case f (fst w) of (r, t) \<Rightarrow> (r, t, snd w))"

definition logged :: "'t transport \<Rightarrow> ('t \<times> sent list) transport" where
  "logged tr = \<lparr>tp_send_cold = logging False (tp_send_cold tr), tp_send_fast = logging True (tp_send_fast tr),
     tp_request_nowait = map_option (\<lambda>f m. beside (f m)) (tp_request_nowait tr),
     tp_poll_reply = (\<lambda>k. beside (tp_poll_reply tr k)),
     tp_cancel_request = (\<lambda>k w. (tp_cancel_request tr k (fst w), snd w)),
     tp_hot_keyed = map_option (\<lambda>f k v. beside (f k v)) (tp_hot_keyed tr),
     tp_wire_compresses = tp_wire_compresses tr\<rparr>"

definition of_lane :: "bool \<Rightarrow> sent list \<Rightarrow> (header \<times> byte list) list" where
  "of_lane fast lg = map snd (filter (\<lambda>m. fst m = fast) lg)"

text \<open>The messages carry 1, 2, 3, ... and \<open>n\<close> is the last number.\<close>

definition numbered :: "(header \<times> byte list) list \<Rightarrow> int \<Rightarrow> bool" where
  "numbered ms n \<longleftrightarrow> n = int (length ms) \<and> (\<forall>i < length ms. dget (fst (ms ! i)) ''seq'' = Some (JInt (int i + 1)))"

definition of_kind :: "string \<Rightarrow> header \<Rightarrow> bool" where
  "of_kind k h \<longleftrightarrow> dget h ''kind'' = Some (JStr k)"

definition last_chunk :: "header \<Rightarrow> bool" where
  "last_chunk h \<longleftrightarrow> (case dget h ''blob'' of Some (JObj b) \<Rightarrow>
     (case (dget b ''i'', dget b ''n'') of (Some (JInt i), Some (JInt n)) \<Rightarrow> i + 1 = n | _ \<Rightarrow> False) | _ \<Rightarrow> False)"

text \<open>The cold messages a later fast message about \<open>u\<close> has to wait for.\<close>

definition holds_back :: "header \<Rightarrow> uuid \<Rightarrow> bool" where
  "holds_back h u \<longleftrightarrow> of_kind ''t2'' h \<and> dget h ''uuid'' = Some (JStr u)
     \<or> of_kind ''link'' h \<or> of_kind ''unlink'' h \<or> of_kind ''lib_missing'' h
     \<or> of_kind ''boot'' h \<and> last_chunk h"

definition header_seq :: "header \<Rightarrow> int" where
  "header_seq h = (case dget h ''seq'' of Some (JInt n) \<Rightarrow> n | _ \<Rightarrow> 0)"

definition follows :: "header \<Rightarrow> sent list \<Rightarrow> bool" where
  "follows h before \<longleftrightarrow> (\<forall>u hc p. dget h ''uuid'' = Some (JStr u) \<and> \<not> of_kind ''resync_end'' h
     \<and> (False, hc, p) \<in> set before \<and> holds_back hc u \<longrightarrow> (\<exists>a. after_of h = Inr a \<and> header_seq hc \<le> a))"

definition ordered :: "sent list \<Rightarrow> bool" where
  "ordered lg \<longleftrightarrow> (\<forall>k < length lg. fst (lg ! k) \<longrightarrow> follows (fst (snd (lg ! k))) (take k lg))"

lemma ordered_Nil [simp]: "ordered []"
  by (simp add: ordered_def)

lemma ordered_snoc [simp]: "ordered (lg @ [m]) \<longleftrightarrow> ordered lg \<and> (fst m \<longrightarrow> follows (fst (snd m)) lg)"
  by (auto simp: ordered_def nth_append less_Suc_eq)

lemma of_lane_snoc [simp]: "of_lane b (lg @ [m]) = of_lane b lg @ (if fst m = b then [snd m] else [])"
  by (simp add: of_lane_def)

lemma of_lane_Nil [simp]: "of_lane b [] = []"
  by (simp add: of_lane_def)

lemma numbered_Nil [simp]: "numbered [] n \<longleftrightarrow> n = 0"
  by (auto simp: numbered_def)

lemma numbered_snoc: "numbered ms n \<Longrightarrow> dget (fst m) ''seq'' = Some (JInt (n + 1)) \<Longrightarrow> numbered (ms @ [m]) (n + 1)"
  by (auto simp: numbered_def nth_append less_Suc_eq)

lemma in_of_lane: "(h, p) \<in> set (of_lane b lg) \<longleftrightarrow> (b, h, p) \<in> set lg"
  by (force simp: of_lane_def)

lemma numbered_seq: "numbered (of_lane b lg) n \<Longrightarrow> (b, h, p) \<in> set lg \<Longrightarrow> 1 \<le> header_seq h \<and> header_seq h \<le> n"
  unfolding in_of_lane [symmetric] numbered_def by (auto simp: in_set_conv_nth header_seq_def)

subsection \<open>The invariant\<close>

record lane_view =
  lv_log :: "sent list"
  lv_seq :: int
  lv_seq_fast :: int
  lv_cold_seq :: "(uuid, int) dict"
  lv_boot_last :: int
  lv_link :: int
  lv_boot :: blob_chunks
  lv_lib :: blob_chunks
  lv_t2 :: "(uuid, blob_chunks) dict"

definition lanes_of :: "('t \<times> sent list) host_sync \<Rightarrow> lane_view" where
  "lanes_of s = \<lparr>lv_log = snd (hy_wire s), lv_seq = hy_seq s, lv_seq_fast = hy_seq_fast s,
     lv_cold_seq = hy_uuid_cold_seq s, lv_boot_last = hy_boot_last_seq s, lv_link = hy_link_seq s,
     lv_boot = hy_boot_outbox s, lv_lib = hy_lib_outbox s, lv_t2 = hy_t2_outbox s\<rparr>"

definition lv_after :: "uuid \<Rightarrow> lane_view \<Rightarrow> int" where
  "lv_after u v = max (max (case dget (lv_cold_seq v) u of Some n \<Rightarrow> n | None \<Rightarrow> 0) (lv_boot_last v)) (lv_link v)"

text \<open>A cold header has no lane, a fast one names its own.\<close>

definition cold_header :: "header \<Rightarrow> bool" where
  "cold_header h \<longleftrightarrow> dget h ''lane'' = None"

definition t2_header :: "uuid \<Rightarrow> header \<Rightarrow> bool" where
  "t2_header u h \<longleftrightarrow> cold_header h \<and> of_kind ''t2'' h \<and> dget h ''uuid'' = Some (JStr u)"

definition queues_ok :: "lane_view \<Rightarrow> bool" where
  "queues_ok v \<longleftrightarrow> (\<forall>u chunks. dget (lv_t2 v) u = Some chunks \<longrightarrow> (\<forall>m \<in> set chunks. t2_header u (fst m)))
     \<and> (\<forall>m \<in> set (lv_boot v). cold_header (fst m) \<and> of_kind ''boot'' (fst m))
     \<and> (\<forall>m \<in> set (butlast (lv_boot v)). \<not> last_chunk (fst m))
     \<and> (\<forall>m \<in> set (lv_lib v). cold_header (fst m) \<and> of_kind ''libfile'' (fst m))"

definition log_ok :: "lane_view \<Rightarrow> bool" where
  "log_ok v \<longleftrightarrow> numbered (of_lane False (lv_log v)) (lv_seq v) \<and> numbered (of_lane True (lv_log v)) (lv_seq_fast v)
     \<and> ordered (lv_log v) \<and> (\<forall>b h p. (b, h, p) \<in> set (lv_log v) \<longrightarrow> (if b then is_fast h else cold_header h))"

definition waits_ok :: "lane_view \<Rightarrow> bool" where
  "waits_ok v \<longleftrightarrow> (\<forall>u h p. (False, h, p) \<in> set (lv_log v) \<and> holds_back h u \<longrightarrow> header_seq h \<le> lv_after u v)"

definition lane_inv :: "('t \<times> sent list) host_sync \<Rightarrow> bool" where
  "lane_inv s \<longleftrightarrow> log_ok (lanes_of s) \<and> waits_ok (lanes_of s) \<and> queues_ok (lanes_of s)"

lemma lane_inv_same: "lanes_of s' = lanes_of s \<Longrightarrow> lane_inv s \<Longrightarrow> lane_inv s'"
  by (simp add: lane_inv_def)

text \<open>Steps that leave the lanes alone.\<close>

lemma keeps_mod_same: "(\<And>s. lanes_of (f s) = lanes_of s) \<Longrightarrow> sx_keeps lane_inv (sx_mod f)"
  by (intro sx_keeps_mod) (metis lane_inv_same)

lemma keeps_same:
  assumes "\<And>s. lanes_of (snd (m s)) = lanes_of s"
  shows "sx_keeps lane_inv m"
  by (intro sx_keepsI) (metis assms lane_inv_same snd_conv)

lemmas same_lanes = lanes_of_def sx_defs

subsection \<open>The primitive sends\<close>

definition took :: "bool \<Rightarrow> header \<Rightarrow> byte list \<Rightarrow> 't \<Rightarrow> ('t \<times> sent list) host_sync \<Rightarrow> ('t \<times> sent list) host_sync" where
  "took fast h p t s =
     (if fast then s\<lparr>hy_seq_fast := hy_seq_fast s + 1, hy_wire := (t, snd (hy_wire s) @ [(True, h, p)])\<rparr>
      else s\<lparr>hy_seq := hy_seq s + 1, hy_wire := (t, snd (hy_wire s) @ [(False, h, p)])\<rparr>)"

definition stamped :: "header \<Rightarrow> ('t \<times> sent list) host_sync \<Rightarrow> header" where
  "stamped h s = dset ''seq'' (JInt (hy_seq s + 1)) h"

lemma cold_next_ok:
  assumes "\<And>t. Q True (took False (stamped h s) p t s)" and "\<And>t. Q False (s\<lparr>hy_wire := (t, snd (hy_wire s))\<rparr>)"
  shows "sx_ok Q (cold_next (logged tr) h p) s"
proof -
  obtain r t where e: "tp_send_cold tr (stamped h s) p (fst (hy_wire s)) = (r, t)"
    by (cases "tp_send_cold tr (stamped h s) p (fst (hy_wire s))")
  have "hy_tp_cold (logged tr) (stamped h s) p (s\<lparr>hy_seq := hy_seq s + 1\<rparr>)
    = (r, s\<lparr>hy_seq := hy_seq s + 1, hy_wire := (t, if r = Inr True then snd (hy_wire s) @ [(False, stamped h s, p)]
                                                     else snd (hy_wire s))\<rparr>)"
    using e by (simp add: hy_tp_cold_def logged_def logging_def)
  then show ?thesis
    using assms(1) [of t] assms(2) [of t]
    by (cases r) (auto simp: cold_next_def sx_ok_def [of _ "hy_tp_cold _ _ _"] stamped_def took_def)
qed

lemma fast_next_ok:
  assumes "\<And>t. sx_ok (\<lambda>_. Q True) taken (took True (hdr (hy_seq_fast s + 1)) p t s)"
    and "\<And>t. sx_ok (\<lambda>_. Q False) refused (s\<lparr>hy_wire := (t, snd (hy_wire s))\<rparr>)"
  shows "sx_ok Q (fast_next (logged tr) hdr p taken refused) s"
proof -
  let ?h = "hdr (hy_seq_fast s + 1)"
  obtain r t where e: "tp_send_fast tr ?h p (fst (hy_wire s)) = (r, t)"
    by (cases "tp_send_fast tr ?h p (fst (hy_wire s))")
  have "hy_tp_fast (logged tr) ?h p (s\<lparr>hy_seq_fast := hy_seq_fast s + 1\<rparr>)
    = (r, s\<lparr>hy_seq_fast := hy_seq_fast s + 1, hy_wire := (t, if r = Inr True then snd (hy_wire s) @ [(True, ?h, p)]
                                                     else snd (hy_wire s))\<rparr>)"
    using e by (simp add: hy_tp_fast_def logged_def logging_def)
  then show ?thesis
    using assms(1) [of t] assms(2) [of t]
    by (cases r) (auto simp: fast_next_def sx_ok_def [of _ "hy_tp_fast _ _ _"] took_def)
qed

lemma lane_inv_wire: "lane_inv (s\<lparr>hy_wire := (t, snd (hy_wire s))\<rparr>) = lane_inv s"
  by (simp add: lane_inv_def lanes_of_def)

lemma dget_stamped: "dget (stamped h s) k = (if k = ''seq'' then Some (JInt (hy_seq s + 1)) else dget h k)"
  by (simp add: stamped_def)

lemma stamped_keeps [simp]:
  "of_kind k (stamped h s) = of_kind k h" "last_chunk (stamped h s) = last_chunk h"
  "holds_back (stamped h s) u = holds_back h u" "cold_header (stamped h s) = cold_header h"
  "header_seq (stamped h s) = hy_seq s + 1"
  by (simp_all add: of_kind_def last_chunk_def holds_back_def cold_header_def header_seq_def dget_stamped)

text \<open>The state right after a cold message was taken: only what waits for it is not recorded yet.\<close>

definition after_cold :: "header \<Rightarrow> ('t \<times> sent list) host_sync \<Rightarrow> bool" where
  "after_cold h s \<longleftrightarrow> log_ok (lanes_of s) \<and> queues_ok (lanes_of s)
     \<and> (\<forall>u g p. (False, g, p) \<in> set (snd (hy_wire s)) \<and> holds_back g u
          \<longrightarrow> header_seq g \<le> after_for u s \<or> (holds_back h u \<and> header_seq g \<le> hy_seq s))"

lemma lv_after_of: "lv_after u (lanes_of s) = after_for u s"
  by (simp add: lv_after_def after_for_def cold_seq_of_def lanes_of_def)

lemma after_cold_took:
  assumes "lane_inv s" "cold_header h"
  shows "after_cold h (took False (stamped h s) p t s)"
proof -
  let ?s = "took False (stamped h s) p t s"
  have i: "log_ok (lanes_of s)" "waits_ok (lanes_of s)" "queues_ok (lanes_of s)"
    using assms(1) by (simp_all add: lane_inv_def)
  have "after_for u ?s = after_for u s" for u
    by (simp add: after_for_def cold_seq_of_def took_def)
  moreover have "log_ok (lanes_of ?s)"
    using i(1) assms(2) by (auto simp: log_ok_def lanes_of_def took_def dget_stamped intro: numbered_snoc)
  moreover have "queues_ok (lanes_of ?s)" using i(3) by (simp add: queues_ok_def lanes_of_def took_def)
  ultimately show ?thesis
    using i(2) by (auto simp: after_cold_def waits_ok_def lv_after_of) (auto simp: took_def lanes_of_def)
qed

lemma lane_inv_after_cold:
  assumes "after_cold h s"
    and same: "snd (hy_wire s') = snd (hy_wire s)" "hy_seq s' = hy_seq s" "hy_seq_fast s' = hy_seq_fast s"
    and queues: "queues_ok (lanes_of s')"
    and after: "\<And>u. after_for u s \<le> after_for u s' \<or> hy_seq s \<le> after_for u s'"
      "\<And>u. holds_back h u \<Longrightarrow> hy_seq s \<le> after_for u s'"
  shows "lane_inv s'"
proof -
  have "log_ok (lanes_of s)" using assms(1) by (simp add: after_cold_def)
  then have ok: "log_ok (lanes_of s')" by (simp add: log_ok_def lanes_of_def same)
  have "header_seq g \<le> after_for u s'" if g: "(False, g, p) \<in> set (snd (hy_wire s))" "holds_back g u" for u g p
  proof -
    have n: "header_seq g \<le> hy_seq s"
      using g(1) \<open>log_ok (lanes_of s)\<close> numbered_seq [of False "snd (hy_wire s)" "hy_seq s" g p]
      by (simp add: log_ok_def lanes_of_def)
    have "header_seq g \<le> after_for u s \<or> holds_back h u"
      using assms(1) g by (auto simp: after_cold_def)
    then show ?thesis using n after [of u] by linarith
  qed
  then have "waits_ok (lanes_of s')" by (auto simp: waits_ok_def lv_after_of) (simp add: lanes_of_def same)
  then show ?thesis using ok queues by (simp add: lane_inv_def)
qed

lemma cold_step:
  fixes tr :: "'t transport"
  assumes "cold_header h"
    and "\<And>s. after_cold h s \<Longrightarrow> sx_ok (\<lambda>_. lane_inv) (f True) s" "sx_keeps lane_inv (f False)"
  shows "sx_keeps lane_inv (sx_bind (cold_next (logged tr) h p) f)"
  unfolding sx_keeps_iff sx_ok_bind
proof (intro allI impI cold_next_ok)
  fix s :: "('t \<times> sent list) host_sync" and t
  assume "lane_inv s"
  then show "sx_ok (\<lambda>_. lane_inv) (f True) (took False (stamped h s) p t s)"
    by (intro assms(2) after_cold_took assms(1))
  show "sx_ok (\<lambda>_. lane_inv) (f False) (s\<lparr>hy_wire := (t, snd (hy_wire s))\<rparr>)"
    using \<open>lane_inv s\<close> assms(3) by (simp add: sx_keeps_iff lane_inv_wire)
qed

lemma after_cold_queues: "after_cold h s \<Longrightarrow> queues_ok (lanes_of s)"
  by (simp add: after_cold_def)

lemmas after_defs = after_for_def cold_seq_of_def

lemma keeps_send_cold_msg [keeps_intros]:
  assumes "cold_header h"
  shows "sx_keeps lane_inv (send_cold_msg (logged tr) h)"
  unfolding send_cold_msg_def
proof (rule cold_step [OF assms])
  fix s :: "('a \<times> sent list) host_sync"
  assume a: "after_cold h s"
  show "sx_ok (\<lambda>_. lane_inv) (if True then sx_seq (sx_mod (\<lambda>s. s\<lparr>hy_link_seq := hy_seq s\<rparr>)) (sx_return True)
              else sx_return False) s"
    using after_cold_queues [OF a]
    by (simp, intro lane_inv_after_cold [OF a]) (auto simp: queues_ok_def lanes_of_def after_defs)
qed (simp add: sx_keeps_return)

lemma queues_ok_dset_t2:
  assumes "queues_ok (lanes_of s)" "\<forall>m \<in> set chunks. t2_header u (fst m)"
  shows "queues_ok (lanes_of (s\<lparr>hy_t2_outbox := dset u chunks (hy_t2_outbox s)\<rparr>))"
  using assms by (auto simp: queues_ok_def lanes_of_def)

lemma t2_holds: "t2_header u h \<Longrightarrow> holds_back h v \<Longrightarrow> v = u"
  by (auto simp: t2_header_def holds_back_def of_kind_def)

lemma keeps_send_chunks:
  "\<forall>m \<in> set chunks. t2_header u (fst m) \<Longrightarrow> sx_keeps lane_inv (send_chunks (logged tr) u chunks)"
proof (induction chunks)
  case Nil
  then show ?case by (simp add: sx_keeps_return)
next
  case (Cons m chunks)
  obtain h p where m: "m = (h, p)" by (cases m)
  have th: "t2_header u h" and tc: "\<forall>m \<in> set chunks. t2_header u (fst m)" using Cons.prems by (auto simp: m)
  show ?case
    unfolding m send_chunks.simps
  proof (rule cold_step)
    show "cold_header h" using th by (simp add: t2_header_def)
    fix s :: "('a \<times> sent list) host_sync"
    assume a: "after_cold h s"
    let ?s = "s\<lparr>hy_t2_outbox := dset u chunks (hy_t2_outbox s),
                hy_uuid_cold_seq := dset u (hy_seq s) (hy_uuid_cold_seq s)\<rparr>"
    have "lane_inv ?s"
      using queues_ok_dset_t2 [OF after_cold_queues [OF a] tc]
      by (intro lane_inv_after_cold [OF a]) (auto simp: queues_ok_def lanes_of_def after_defs dest: t2_holds [OF th])
    then show "sx_ok (\<lambda>_. lane_inv) (if True
        then sx_seq (sx_mod (\<lambda>s. s\<lparr>hy_t2_outbox := dset u chunks (hy_t2_outbox s),
                                    hy_uuid_cold_seq := dset u (hy_seq s) (hy_uuid_cold_seq s)\<rparr>))
                    (send_chunks (logged tr) u chunks)
        else sx_return False) s"
      using Cons.IH [OF tc] by (simp add: sx_keeps_iff)
  qed (simp add: sx_keeps_return)
qed

lemma keeps_drain_t2_loop: "sx_keeps lane_inv (drain_t2_loop (logged tr) only us)"
proof (induction us)
  case Nil
  then show ?case by (simp add: sx_keeps_return)
next
  case (Cons u us)
  have "sx_ok (\<lambda>_. lane_inv) (sx_bind (send_chunks (logged tr) u chunks) (\<lambda>done.
               if done then sx_seq (sx_mod (\<lambda>s. s\<lparr>hy_t2_outbox := dpop u (hy_t2_outbox s),
                                                   hy_shipped := insert u (hy_shipped s)\<rparr>))
                                   (drain_t2_loop (logged tr) only us)
               else sx_return False)) s" if s: "lane_inv s" "dget (hy_t2_outbox s) u = Some chunks" for s chunks
  proof -
    have "\<forall>m \<in> set chunks. t2_header u (fst m)"
      using s by (auto simp: lane_inv_def queues_ok_def lanes_of_def)
    then have chunk: "sx_keeps lane_inv (send_chunks (logged tr) u chunks)" by (rule keeps_send_chunks)
    have out: "sx_keeps lane_inv (sx_mod (\<lambda>s. s\<lparr>hy_t2_outbox := dpop u (hy_t2_outbox s),
        hy_shipped := insert u (hy_shipped s)\<rparr>))"
      by (rule sx_keeps_mod) (auto simp: lane_inv_def log_ok_def waits_ok_def queues_ok_def lanes_of_def lv_after_def)
    have "sx_keeps lane_inv (sx_bind (send_chunks (logged tr) u chunks) (\<lambda>done.
               if done then sx_seq (sx_mod (\<lambda>s. s\<lparr>hy_t2_outbox := dpop u (hy_t2_outbox s),
                                                   hy_shipped := insert u (hy_shipped s)\<rparr>))
                                   (drain_t2_loop (logged tr) only us)
               else sx_return False))"
      by (intro sx_keeps_bind sx_keeps_if sx_keeps_seq sx_keeps_return Cons.IH chunk out)
    then show ?thesis using s(1) by (rule sx_keeps_okD)
  qed
  then have "sx_keeps lane_inv (sx_read (\<lambda>s. case dget (hy_t2_outbox s) u of
             None \<Rightarrow> sx_raise KeyError
           | Some chunks \<Rightarrow> sx_bind (send_chunks (logged tr) u chunks) (\<lambda>done.
               if done then sx_seq (sx_mod (\<lambda>s. s\<lparr>hy_t2_outbox := dpop u (hy_t2_outbox s),
                                                   hy_shipped := insert u (hy_shipped s)\<rparr>))
                                   (drain_t2_loop (logged tr) only us)
               else sx_return False)))"
    by (intro sx_keeps_read_ok) (simp split: option.split)
  then show ?case using Cons.IH by simp
qed

lemma keeps_drain_t2 [keeps_intros]: "sx_keeps lane_inv (drain_t2_outbox (logged tr) only)"
  by (simp add: drain_t2_outbox_def sx_keeps_read keeps_drain_t2_loop)

subsection \<open>What a fast message has to follow stays below a bound\<close>

definition below :: "uuid \<Rightarrow> uuid \<Rightarrow> int \<Rightarrow> 't host_sync \<Rightarrow> bool" where
  "below v tu a s \<longleftrightarrow> hy_boot_last_seq s \<le> a \<and> hy_link_seq s \<le> a \<and> (v \<noteq> tu \<longrightarrow> cold_seq_of v s \<le> a)"

definition waits_of :: "'t host_sync \<Rightarrow> (uuid, int) dict \<times> int \<times> int" where
  "waits_of s = (hy_uuid_cold_seq s, hy_boot_last_seq s, hy_link_seq s)"

lemma below_same: "waits_of s' = waits_of s \<Longrightarrow> below v tu a s' = below v tu a s"
  by (simp add: below_def waits_of_def cold_seq_of_def)

lemma keeps_mod_below: "(\<And>s. waits_of (f s) = waits_of s) \<Longrightarrow> sx_keeps (below v tu a) (sx_mod f)"
  by (intro sx_keeps_mod) (metis below_same)

lemma keeps_below_same:
  assumes "\<And>s. waits_of (snd (m s)) = waits_of s"
  shows "sx_keeps (below v tu a) m"
  by (intro sx_keepsI) (metis assms below_same snd_conv)

lemma keeps_cold_next_below [keeps_intros]:
  "sx_keeps (below v tu a) (cold_next (logged tr) h p)"
  unfolding sx_keeps_iff
  by (intro allI impI cold_next_ok) (simp_all add: took_def below_def cold_seq_of_def)

lemma keeps_send_chunks_below [keeps_intros]: "sx_keeps (below v tu a) (send_chunks (logged tr) tu chunks)"
proof (induction chunks)
  case (Cons m chunks)
  have "sx_keeps (below v tu a) (sx_mod (\<lambda>s. s\<lparr>hy_t2_outbox := dset tu chunks (hy_t2_outbox s),
                                    hy_uuid_cold_seq := dset tu (hy_seq s) (hy_uuid_cold_seq s)\<rparr>))"
    by (rule sx_keeps_mod) (simp add: below_def cold_seq_of_def)
  then show ?case using Cons by (cases m) (simp, intro sx_keeps_bind keeps_cold_next_below sx_keeps_if sx_keeps_seq sx_keeps_return, simp_all)
qed (simp add: sx_keeps_return)

lemma keeps_drain_one_below [keeps_intros]: "sx_keeps (below v tu a) (drain_t2_outbox (logged tr) (Some tu))"
proof -
  have "sx_keeps (below v tu a) (drain_t2_loop (logged tr) (Some tu) us)" for us
    by (induction us)
       (simp_all, (intro conjI impI keeps_intros keeps_mod_below; simp add: waits_of_def)+)
  then show ?thesis by (simp add: drain_t2_outbox_def sx_keeps_read)
qed

subsection \<open>Tier-2 blobs\<close>

lemma t2_chunks_headers:
  assumes "m \<in> set (t2_chunks u n data (t2_meta env u d digest @ ms))" "ms \<in> {[], [(''more'', JBool True)]}"
  shows "t2_header u (fst m)"
  using assms
  by (auto simp: t2_chunks_def chunk_blob_def Let_def chunk_header_def t2_meta_def t2_header_def cold_header_def
      of_kind_def simp del: upt_Suc)

lemma keeps_hy_diff [keeps_intros]: "sx_keeps lane_inv (hy_diff u sn)"
  by (rule keeps_same) (simp add: hy_diff_def lanes_of_def case_prod_unfold Let_def)

lemma keeps_hy_diff_below [keeps_intros]: "sx_keeps (below v tu a) (hy_diff u sn)"
  by (rule keeps_below_same) (simp add: hy_diff_def waits_of_def case_prod_unfold Let_def)

lemma keeps_adopt [keeps_intros]: "sx_keeps lane_inv (hy_adopt env d)"
  by (rule keeps_same) (simp add: hy_adopt_def lanes_of_def case_prod_unfold Let_def)

lemma keeps_adopt_below [keeps_intros]: "sx_keeps (below v tu a) (hy_adopt env d)"
  by (rule keeps_below_same) (simp add: hy_adopt_def waits_of_def case_prod_unfold Let_def)

lemma keeps_given_or [keeps_intros]: "sx_keeps P (given_or snap r)"
  by (simp add: given_or_def sx_keeps_lift sx_keeps_return split: option.split)

lemma keeps_queue_t2 [keeps_intros]: "sx_keeps lane_inv (queue_t2 env (logged tr) u d sn data)"
proof -
  have put: "sx_keeps lane_inv (sx_mod (\<lambda>s. s\<lparr>hy_blob_hash := dset u digest (hy_blob_hash s),
       hy_manifest_pending := dpop u (hy_manifest_pending s),
       hy_t2_outbox := dset u (t2_chunks u (hy_seq s + 1) data (t2_meta env u d digest @ ms)) (hy_t2_outbox s),
       hy_sent_t2 := hy_sent_t2 s + 1\<rparr>))" if "ms \<in> {[], [(''more'', JBool True)]}" for digest ms
    using t2_chunks_headers [OF _ that]
    by (intro sx_keeps_mod) (auto simp: lane_inv_def log_ok_def waits_ok_def queues_ok_def lanes_of_def lv_after_def)
  have skip: "sx_keeps lane_inv (sx_mod (\<lambda>s. s\<lparr>hy_t2_skipped := hy_t2_skipped s + 1\<rparr>))"
    by (rule keeps_mod_same) (simp add: lanes_of_def)
  show ?thesis
    unfolding queue_t2_def Let_def
    by (intro sx_keeps_read sx_keeps_if sx_keeps_seq sx_keeps_void keeps_drain_t2 skip put) simp
qed

lemma keeps_queue_t2_below [keeps_intros]: "sx_keeps (below v u a) (queue_t2 env (logged tr) u d sn data)"
  unfolding queue_t2_def Let_def
  by (intro keeps_intros keeps_mod_below) (simp_all add: waits_of_def)

lemma keeps_flush_t2_data [keeps_intros]:
  "sx_keeps lane_inv fb \<Longrightarrow> sx_keeps lane_inv (flush_t2_data env (logged tr) fb u d snap)"
  unfolding flush_t2_data_def
  by (intro keeps_intros keeps_mod_same) (simp_all add: lanes_of_def)

lemma keeps_flush_t2_data_below [keeps_intros]:
  "sx_keeps (below v u a) (flush_t2_data env (logged tr) (sx_return ()) u d snap)"
  unfolding flush_t2_data_def
  by (intro keeps_intros keeps_mod_below) (simp_all add: waits_of_def)

lemma keeps_flush_t2 [keeps_intros]:
  "sx_keeps lane_inv fb \<Longrightarrow> sx_keeps lane_inv (flush_t2 env (logged tr) fb u snap)"
  unfolding flush_t2_def
  by (intro keeps_intros)

subsection \<open>The fast lane\<close>

lemma keeps_defer [keeps_intros]: "sx_keeps lane_inv (defer_t1 u old)"
  by (rule keeps_same) (simp add: defer_t1_def hy_requeue_def hy_restore_def sx_defs lanes_of_def split: option.split)

lemma keeps_log_fast [keeps_intros]: "sx_keeps lane_inv (log_fast u kind)"
  by (rule keeps_same) (simp add: log_fast_def sx_defs lanes_of_def)

text \<open>A fast header as the host builds them.\<close>

definition fast_ok :: "uuid \<Rightarrow> int \<Rightarrow> int \<Rightarrow> header \<Rightarrow> bool" where
  "fast_ok u a n h \<longleftrightarrow> is_fast h \<and> dget h ''seq'' = Some (JInt n) \<and> dget h ''uuid'' = Some (JStr u)
     \<and> (of_kind ''resync_end'' h \<or> after_of h = Inr a)"

lemma fast_header_ok: "fast_ok u a n (fast_header kind u a n)"
  by (auto simp: fast_ok_def fast_header_def is_fast_def lane_of_def LANE_FAST_def of_kind_def after_of_def json_true_def as_int_def)

lemma fast_header_extra_ok: "fast_ok u a n (fast_header kind u a n @ t1_extra full sc dg)"
  by (auto simp: fast_ok_def fast_header_def t1_extra_def is_fast_def lane_of_def LANE_FAST_def of_kind_def
      after_of_def json_true_def as_int_def)

lemma lane_inv_fast:
  assumes i: "lane_inv s" and h: "fast_ok u a (hy_seq_fast s + 1) h"
    and a: "of_kind ''resync_end'' h \<or> after_for u s \<le> a"
  shows "lane_inv (took True h p t s)"
proof -
  have ok: "log_ok (lanes_of s)" "waits_ok (lanes_of s)" "queues_ok (lanes_of s)"
    using i by (simp_all add: lane_inv_def)
  have "follows h (snd (hy_wire s))"
    unfolding follows_def
  proof (intro allI impI)
    fix v hc p
    assume v: "dget h ''uuid'' = Some (JStr v) \<and> \<not> of_kind ''resync_end'' h
        \<and> (False, hc, p) \<in> set (snd (hy_wire s)) \<and> holds_back hc v"
    have "v = u" "after_of h = Inr a" using h v by (auto simp: fast_ok_def)
    moreover have "header_seq hc \<le> after_for v s"
      using ok(2) v unfolding waits_ok_def by (metis lv_after_of lane_view.select_convs(1) lanes_of_def)
    ultimately show "\<exists>b. after_of h = Inr b \<and> header_seq hc \<le> b" using a v by auto
  qed
  then have "log_ok (lanes_of (took True h p t s))"
    using ok(1) h by (auto simp: log_ok_def lanes_of_def took_def fast_ok_def intro: numbered_snoc)
  moreover have "waits_ok (lanes_of (took True h p t s))"
    using ok(2) by (auto simp: waits_ok_def lanes_of_def took_def lv_after_def)
  moreover have "queues_ok (lanes_of (took True h p t s))"
    using ok(3) by (simp add: queues_ok_def lanes_of_def took_def)
  ultimately show ?thesis by (simp add: lane_inv_def)
qed

lemma fast_next_inv:
  assumes "lane_inv s" "\<And>n. fast_ok u a n (hdr n)" "(\<forall>n. of_kind ''resync_end'' (hdr n)) \<or> after_for u s \<le> a"
    and "sx_keeps lane_inv taken" "sx_keeps lane_inv refused"
  shows "sx_ok (\<lambda>_. lane_inv) (fast_next (logged tr) hdr p taken refused) s"
proof (rule fast_next_ok)
  fix t
  have "lane_inv (took True (hdr (hy_seq_fast s + 1)) p t s)"
    using assms(1-3) by (intro lane_inv_fast) auto
  then show "sx_ok (\<lambda>_. lane_inv) taken (took True (hdr (hy_seq_fast s + 1)) p t s)"
    using assms(4) by (simp add: sx_keeps_iff)
  show "sx_ok (\<lambda>_. lane_inv) refused (s\<lparr>hy_wire := (t, snd (hy_wire s))\<rparr>)"
    using assms(1,5) by (simp add: sx_keeps_iff lane_inv_wire)
qed

lemma keeps_tombstone [keeps_intros]: "sx_keeps lane_inv (send_tombstone (logged tr) u)"
  unfolding send_tombstone_def
  by (intro sx_keeps_read_ok fast_next_inv [where u = u] fast_header_ok keeps_intros keeps_mod_same disjI2)
     (auto simp: lanes_of_def fast_header_ok)

text \<open>No pointer of a delta names a shape key: \<open>bpy.data\<close>'s worlds, objects and collections hold none.\<close>

definition pointers_ok :: "'z host_files_scheme \<Rightarrow> bool" where
  "pointers_ok env \<longleftrightarrow> (\<forall>coll v d. he_lookup env coll v = Some d \<longrightarrow> \<not> is_a env d ''KEY'')"

lemma below_after: "below u tu a s \<Longrightarrow> after_for u s \<le> max a (cold_seq_of tu s)"
  by (auto simp: below_def after_for_def)

lemma after_below: "after_for u s \<le> a \<Longrightarrow> below u tu a s"
  by (simp add: below_def after_for_def)

lemma ship_one:
  assumes "lane_inv s" "after_for u s \<le> a" "\<not> is_a env d ''KEY''"
  shows "sx_ok (\<lambda>tu. sx_ok (\<lambda>_ s'. lane_inv s' \<and> below u tu a s')
      (sx_read (\<lambda>s. sx_when (tu \<notin> hy_shipped s) (flush_t2 env (logged tr) (sx_return ()) tu None)))) (hy_adopt env d) s"
proof -
  obtain tu w where e: "ensure_uuid (he_mint env) d (hy_stamps s) = (tu, w)"
    by (cases "ensure_uuid (he_mint env) d (hy_stamps s)")
  let ?s = "s\<lparr>hy_stamps := w, hy_db := dset tu d (hy_db s)\<rparr>"
  have i: "lane_inv ?s" using assms(1) by (rule lane_inv_same [rotated]) (simp add: lanes_of_def)
  have b: "below u tu a ?s" using after_below [OF assms(2), of tu] below_same [of ?s s] by (simp add: waits_of_def)
  have f: "flush_t2 env (logged tr) (sx_return ()) tu None ?s = flush_t2_data env (logged tr) (sx_return ()) tu d None ?s"
    using assms(3) by (simp add: flush_t2_def sx_read_def)
  have "sx_ok (\<lambda>_ s'. lane_inv s' \<and> below u tu a s') (flush_t2 env (logged tr) (sx_return ()) tu None) ?s"
    unfolding sx_ok_def f
    using sx_ok_conj [OF sx_keeps_okD [OF keeps_flush_t2_data [OF sx_keeps_return] i]
        sx_keeps_okD [OF keeps_flush_t2_data_below b]]
    by (simp add: sx_ok_def)
  then show ?thesis
    using i b e by (simp add: sx_ok_def [of _ "hy_adopt env d"] hy_adopt_def)
qed

lemma ship_targets_ok:
  fixes tr :: "'t transport"
  assumes "pointers_ok env"
  shows "lane_inv s \<Longrightarrow> after_for u s \<le> a \<Longrightarrow>
    sx_ok (\<lambda>r s'. lane_inv s' \<and> (\<forall>b. r = Some b \<longrightarrow> after_for u s' \<le> b))
      (ship_targets env (logged tr) u old changes a) s"
proof (induction changes arbitrary: s a)
  case (Cons c changes)
  obtain path v where c: "c = (path, v)" by (cases c)
  note skip = Cons.IH [OF Cons.prems]
  have key: "\<not> is_a env d ''KEY''" if "he_lookup env coll v = Some d" for coll d
    using that assms unfolding pointers_ok_def by blast
  have go: "sx_ok (\<lambda>r s'. lane_inv s' \<and> (\<forall>b. r = Some b \<longrightarrow> after_for u s' \<le> b))
      (sx_bind (hy_adopt env target) (\<lambda>tu.
         sx_seq (sx_read (\<lambda>s. sx_when (tu \<notin> hy_shipped s) (flush_t2 env (logged tr) (sx_return ()) tu None)))
                  (sx_read (\<lambda>s. if dget (hy_t2_outbox s) tu \<noteq> None
                     then sx_seq (defer_t1 u old) (sx_return None)
                     else ship_targets env (logged tr) u old changes (max a (cold_seq_of tu s)))))) s"
    if k: "\<not> is_a env target ''KEY''" for target
    unfolding sx_ok_bind sx_ok_seq
  proof (rule sx_ok_mono [OF ship_one [OF Cons.prems k]], rule sx_ok_mono, assumption)
    fix tu x and s' :: "('t \<times> sent list) host_sync"
    assume i: "lane_inv s' \<and> below u tu a s'"
    have "sx_ok (\<lambda>_. lane_inv) (defer_t1 u old) s'" using i by (intro sx_keeps_okD [OF keeps_defer]) simp
    moreover have "after_for u s' \<le> max a (cold_seq_of tu s')" using i below_after by blast
    ultimately show "sx_ok (\<lambda>r s'. lane_inv s' \<and> (\<forall>b. r = Some b \<longrightarrow> after_for u s' \<le> b))
        (sx_read (\<lambda>s. if dget (hy_t2_outbox s) tu \<noteq> None
                     then sx_seq (defer_t1 u old) (sx_return None)
                     else ship_targets env (logged tr) u old changes (max a (cold_seq_of tu s)))) s'"
      using Cons.IH [of s' "max a (cold_seq_of tu s')"] i by simp
  qed
  show ?case
    using skip go key by (auto simp: c split: option.split)
qed simp

lemma keeps_send_t1 [keeps_intros]:
  assumes "pointers_ok env"
  shows "sx_keeps lane_inv (send_t1 env (logged tr) u d changes old full)"
proof -
  have sent: "sx_keeps lane_inv (sx_seq (sx_mod (\<lambda>s. s\<lparr>hy_sent_t1 := hy_sent_t1 s + n\<rparr>)) (log_fast u ''t1''))" for n
    by (intro sx_keeps_seq keeps_log_fast keeps_mod_same) (simp add: lanes_of_def)
  have "sx_ok (\<lambda>_. lane_inv) (fast_next (logged tr)
      (\<lambda>n. fast_header ''t1'' u after n @ t1_extra full (is_a env d ''SCENE'') (hy_scene_digest s'))
      (t1_payload ordered) (sx_seq (sx_mod (\<lambda>s. s\<lparr>hy_sent_t1 := hy_sent_t1 s + length changes\<rparr>)) (log_fast u ''t1''))
      (defer_t1 u old)) s'"
    if "lane_inv s'" "after_for u s' \<le> after" for s' after ordered
    using that by (intro fast_next_inv [where u = u and a = after] fast_header_extra_ok sent keeps_defer) auto
  then show ?thesis
    unfolding send_t1_def Let_def
    by (auto simp: sx_keeps_return sx_keeps_iff split: option.split
        intro!: sx_ok_mono [OF ship_targets_ok [OF assms]])
qed

lemma keeps_flush_t1 [keeps_intros]:
  "pointers_ok env \<Longrightarrow> sx_keeps lane_inv (flush_t1 env (logged tr) u)"
  unfolding flush_t1_def
  by (intro keeps_intros keeps_mod_same) (simp_all add: lanes_of_def)

lemma keeps_send_t1_full [keeps_intros]:
  "pointers_ok env \<Longrightarrow> sx_keeps lane_inv (send_t1_full env (logged tr) u)"
  unfolding send_t1_full_def Let_def
  by (intro keeps_intros)

subsection \<open>The queues\<close>

lemma keeps_resend_fast_window [keeps_intros]: "sx_keeps lane_inv (resend_fast_window gap_at)"
  by (rule keeps_same) (simp add: resend_fast_window_def lanes_of_def Let_def)

lemma keeps_resend_loop [keeps_intros]:
  "pointers_ok env \<Longrightarrow> sx_keeps lane_inv (resend_loop env (logged tr) es)"
proof (induction es)
  case (Cons e es)
  have pop: "sx_keeps lane_inv (sx_mod (\<lambda>s. s\<lparr>hy_fast_resend_queue := drop 1 (hy_fast_resend_queue s)\<rparr>))"
    by (rule keeps_mod_same) (simp add: lanes_of_def)
  show ?case
    by (cases e) (simp only: resend_loop.simps, intro keeps_intros pop Cons)
qed (simp add: sx_keeps_return)

lemma keeps_resync_end [keeps_intros]:
  "sx_keeps lane_inv (fast_next (logged tr) (fast_header ''resync_end'' [] 0) []
     (sx_mod (\<lambda>s. s\<lparr>hy_fast_resend_end := False\<rparr>)) (sx_return ()))"
  unfolding sx_keeps_iff
  by (intro allI impI fast_next_inv [where u = "[]" and a = 0] fast_header_ok keeps_mod_same sx_keeps_return disjI1)
     (auto simp: lanes_of_def of_kind_def fast_header_def)

lemma keeps_drain_fast_resend [keeps_intros]:
  "pointers_ok env \<Longrightarrow> sx_keeps lane_inv (drain_fast_resend env (logged tr))"
  unfolding drain_fast_resend_def by (intro keeps_intros)

lemma keeps_scene_digest_now [keeps_intros]: "sx_keeps lane_inv (scene_digest_now env)"
  by (rule keeps_same)
     (simp add: scene_digest_now_def sx_defs lanes_of_def split: option.split sum.split)

lemma keeps_poll [keeps_intros]: "sx_keeps lane_inv (hy_poll_reply (logged tr) k)"
  by (rule keeps_same)
     (simp add: hy_poll_reply_def logged_def beside_def lanes_of_def case_prod_unfold)

lemma keeps_cancel [keeps_intros]: "sx_keeps lane_inv (hy_cancel (logged tr) k)"
  by (rule keeps_same) (simp add: hy_cancel_def sx_mod_def logged_def lanes_of_def)

lemma keeps_request [keeps_intros]: "sx_keeps lane_inv (hy_request (logged tr) msg)"
  by (rule keeps_same)
     (simp add: hy_request_def logged_def beside_def lanes_of_def case_prod_unfold split: option.split)

lemma keeps_reap [keeps_intros]: "sx_keeps lane_inv (reap_manifest_reqs (logged tr) now reqs)"
proof (induction reqs)
  case (Cons r reqs)
  have out: "sx_keeps lane_inv (sx_mod (\<lambda>s. s\<lparr>hy_manifest_reqs := remove1 kt (hy_manifest_reqs s)\<rparr>))" for kt
    by (rule keeps_mod_same) (simp add: lanes_of_def)
  show ?case using Cons by (cases r) (simp, intro keeps_intros out, simp_all)
qed (simp add: sx_keeps_return)

lemma keeps_manifest_batch [keeps_intros]: "sx_keeps lane_inv (send_manifest_batch env (logged tr))"
  unfolding send_manifest_batch_def Let_def
  by (intro keeps_intros keeps_mod_same) (simp_all add: lanes_of_def)

lemma keeps_delta_state [keeps_intros]: "sx_keeps lane_inv (delta_state env (logged tr) status)"
  unfolding delta_state_def delta_reply_def delta_ask_def Let_def
  by (intro keeps_intros keeps_mod_same) (simp_all add: lanes_of_def)

lemma keeps_send_delta [keeps_intros]: "sx_keeps lane_inv (send_delta env (logged tr) plan)"
  unfolding send_delta_def Let_def
  by (intro keeps_intros keeps_mod_same) (simp_all add: lanes_of_def)

lemma keeps_put_t2:
  "sx_keeps lane_inv (sx_mod (\<lambda>s. s\<lparr>hy_t2_outbox := dset u (t2_chunks u (hy_seq s + 1) data (t2_meta env u d digest))
       (hy_t2_outbox s), hy_sent_t2 := hy_sent_t2 s + 1, hy_delta_t2 := hy_delta_t2 s + 1\<rparr>))"
  using t2_chunks_headers [where ms = "[]"]
  by (intro sx_keeps_mod) (auto simp: lane_inv_def log_ok_def waits_ok_def queues_ok_def lanes_of_def lv_after_def)

lemma keeps_resend_t2 [keeps_intros]: "sx_keeps lane_inv (resend_t2 env (logged tr) u expect)"
proof -
  have hash: "sx_keeps lane_inv (sx_mod (\<lambda>s. s\<lparr>hy_blob_hash := dset u digest (hy_blob_hash s)\<rparr>))" for digest
    by (rule keeps_mod_same) (simp add: lanes_of_def)
  show ?thesis
    unfolding resend_t2_def Let_def by (intro keeps_intros keeps_put_t2 hash)
qed

lemma keeps_delta_blobs [keeps_intros]: "sx_keeps lane_inv (delta_blobs env (logged tr) n es)"
proof (induction n arbitrary: es)
  case (Suc n)
  have pop: "sx_keeps lane_inv (sx_mod (\<lambda>s. s\<lparr>hy_delta_queue := drop 1 (hy_delta_queue s)\<rparr>))"
    by (rule keeps_mod_same) (simp add: lanes_of_def)
  show ?case
  proof (cases es)
    case (Cons e es')
    then show ?thesis using Suc by (cases e) (simp, intro keeps_intros pop, simp_all)
  qed (simp add: sx_keeps_return)
qed (simp add: sx_keeps_return)

lemma keeps_delta_asserts [keeps_intros]:
  "pointers_ok env \<Longrightarrow> sx_keeps lane_inv (delta_asserts env (logged tr) n us)"
proof (induction n arbitrary: us)
  case (Suc n)
  have pop: "sx_keeps lane_inv (sx_mod (\<lambda>s. s\<lparr>hy_delta_tail := drop 1 (hy_delta_tail s)\<rparr>))"
    by (rule keeps_mod_same) (simp add: lanes_of_def)
  show ?case using Suc by (cases us) (simp_all add: sx_keeps_return, intro keeps_intros pop, simp_all)
qed (simp add: sx_keeps_return)

text \<open>A cold message that holds nothing back.\<close>

lemma keeps_cold_plain [keeps_intros]:
  fixes tr :: "'t transport"
  assumes "cold_header h" "\<And>u. \<not> holds_back h u" "sx_keeps lane_inv (f True)" "sx_keeps lane_inv (f False)"
  shows "sx_keeps lane_inv (sx_bind (cold_next (logged tr) h p) f)"
proof (rule cold_step)
  show "cold_header h" "sx_keeps lane_inv (f False)" by (rule assms)+
  fix s :: "('t \<times> sent list) host_sync"
  assume a: "after_cold h s"
  have "lane_inv s"
    using after_cold_queues [OF a] assms(2) by (intro lane_inv_after_cold [OF a]) auto
  then show "sx_ok (\<lambda>_. lane_inv) (f True) s" using assms(3) by (rule sx_keeps_okD [rotated])
qed

lemma keeps_delta_end [keeps_intros]: "sx_keeps lane_inv (delta_end (logged tr))"
  unfolding delta_end_def
  by (intro sx_keeps_read sx_keeps_when keeps_cold_plain keeps_mod_same)
     (auto simp: lanes_of_def cold_header_def holds_back_def of_kind_def)

lemma keeps_drain_delta [keeps_intros]:
  "pointers_ok env \<Longrightarrow> sx_keeps lane_inv (drain_delta env (logged tr))"
  unfolding drain_delta_def by (intro keeps_intros)

subsection \<open>Bootstraps and libraries\<close>

lemma boot_chunk_header:
  "cold_header (chunk_header ''boot'' bid i n sz c (boot_meta env d)) \<and> of_kind ''boot'' (chunk_header ''boot'' bid i n sz c (boot_meta env d))
   \<and> (last_chunk (chunk_header ''boot'' bid i n sz c (boot_meta env d)) \<longleftrightarrow> Suc i = n)"
  by (auto simp: chunk_header_def boot_meta_def cold_header_def of_kind_def last_chunk_def)

lemma boot_chunks_ok:
  "(\<forall>m \<in> set (boot_chunks n q data (boot_meta env d)). cold_header (fst m) \<and> of_kind ''boot'' (fst m))
   \<and> (\<forall>m \<in> set (butlast (boot_chunks n q data (boot_meta env d))). \<not> last_chunk (fst m))"
proof -
  have "butlast [0..<k] = [0..<k - 1]" for k by (cases k) auto
  then show ?thesis
    by (auto simp: boot_chunks_def chunk_blob_def Let_def map_butlast [symmetric] boot_chunk_header)
qed

lemma keeps_queue_boot: "lane_inv s \<Longrightarrow> hy_boot_outbox s = [] \<Longrightarrow> lane_inv (queue_boot env data d s)"
  using boot_chunks_ok [of "hy_sent_boot s" "hy_seq s" data env d]
  by (auto simp: lane_inv_def log_ok_def waits_ok_def queues_ok_def lanes_of_def lv_after_def queue_boot_def)

lemma keeps_bootstrap [keeps_intros]: "sx_keeps lane_inv (send_bootstrap env (logged tr))"
proof -
  let ?P = "\<lambda>s. lane_inv s \<and> hy_boot_outbox s = []"
  have clear: "lane_inv (s\<lparr>hy_boot_outbox := [], hy_boot_queued_at := t\<rparr>)" if "lane_inv s" for s :: "('a \<times> sent list) host_sync" and t
    using that by (auto simp: lane_inv_def log_ok_def waits_ok_def queues_ok_def lanes_of_def lv_after_def)
  have size: "sx_keeps ?P (sx_mod (\<lambda>s. s\<lparr>hy_last_bootstrap_bytes := n\<rparr>))" for n
    by (rule sx_keeps_mod) (auto simp: lane_inv_def lanes_of_def)
  have digest: "sx_keeps ?P (scene_digest_now env)"
    unfolding scene_digest_now_def by (intro keeps_intros sx_keeps_mod) (auto simp: lane_inv_def lanes_of_def split: sum.split intro!: keeps_intros sx_keeps_mod)
  have "sx_ok (\<lambda>_. lane_inv) (sx_bind (sx_lift (he_mainfile env c)) (\<lambda>data.
          sx_seq (sx_mod (\<lambda>s. s\<lparr>hy_last_bootstrap_bytes := length data\<rparr>))
            (sx_bind (scene_digest_now env) (\<lambda>digest. sx_mod (queue_boot env data digest))))) s"
    if "?P s" for s :: "('a \<times> sent list) host_sync" and c
    using sx_keeps_okD [OF size that]
    by (auto split: sum.split simp: keeps_queue_boot intro!: sx_ok_mono [OF sx_keeps_okD [OF digest]])
  then show ?thesis
    by (simp add: send_bootstrap_def sx_keeps_iff clear)
qed

lemma keeps_drain_boot:
  assumes "\<forall>m \<in> set chunks. cold_header (fst m) \<and> of_kind ''boot'' (fst m)"
    and "\<forall>m \<in> set (butlast chunks). \<not> last_chunk (fst m)"
  shows "sx_keeps lane_inv (drain_boot env (logged tr) chunks)"
  using assms
proof (induction chunks)
  case Nil
  then show ?case by (simp add: sx_keeps_return)
next
  case (Cons m chunks)
  obtain h p where m: "m = (h, p)" by (cases m)
  have ih: "sx_keeps lane_inv (drain_boot env (logged tr) chunks)"
    using Cons by (auto split: if_splits)
  have last: "chunks \<noteq> [] \<longrightarrow> (\<forall>u. \<not> holds_back h u)" and ch: "cold_header h"
    using Cons.prems by (auto simp: m holds_back_def of_kind_def)
  have "sx_ok (\<lambda>_. lane_inv) (sx_seq (sx_mod (\<lambda>s. s\<lparr>hy_boot_outbox := chunks\<rparr>))
            (sx_seq (sx_when (chunks = []) (sx_mod (boot_sent env))) (drain_boot env (logged tr) chunks))) s"
    if a: "after_cold h s" for s
  proof -
    have "queues_ok (lanes_of (s\<lparr>hy_boot_outbox := chunks\<rparr>))"
      using after_cold_queues [OF a] Cons.prems by (auto simp: queues_ok_def lanes_of_def split: if_splits)
    then have "lane_inv (if chunks = [] then boot_sent env (s\<lparr>hy_boot_outbox := chunks\<rparr>) else s\<lparr>hy_boot_outbox := chunks\<rparr>)"
      using last by (intro lane_inv_after_cold [OF a]) (auto simp: boot_sent_def after_defs queues_ok_def lanes_of_def)
    then show ?thesis using ih by (auto simp: sx_keeps_iff split: if_splits)
  qed
  then show ?case
    unfolding m drain_boot.simps by (intro cold_step ch) (simp_all add: sx_keeps_return)
qed

lemma keeps_drain_boot_outbox [keeps_intros]:
  "sx_keeps lane_inv (sx_read (\<lambda>s. drain_boot env (logged tr) (hy_boot_outbox s)))"
  by (rule sx_keeps_read_ok) (auto intro!: sx_keeps_okD [OF keeps_drain_boot] simp: lane_inv_def queues_ok_def lanes_of_def)

lemma keeps_drain_libs:
  "\<forall>m \<in> set chunks. cold_header (fst m) \<and> of_kind ''libfile'' (fst m) \<Longrightarrow> sx_keeps lane_inv (drain_libs (logged tr) chunks)"
proof (induction chunks)
  case Nil
  then show ?case by (simp add: sx_keeps_return)
next
  case (Cons m chunks)
  obtain h p where m: "m = (h, p)" by (cases m)
  have pop: "sx_keeps lane_inv (sx_mod (\<lambda>s. s\<lparr>hy_lib_outbox := chunks\<rparr>))"
    using Cons.prems
    by (intro sx_keeps_mod) (auto simp: lane_inv_def log_ok_def waits_ok_def queues_ok_def lanes_of_def lv_after_def)
  have h: "cold_header h" "of_kind ''libfile'' h" using Cons.prems by (auto simp: m)
  then have "\<not> holds_back h u" for u by (auto simp: holds_back_def of_kind_def)
  then show ?case
    using Cons.prems unfolding m drain_libs.simps
    by (intro keeps_cold_plain h) (simp_all, intro sx_keeps_seq sx_keeps_return pop Cons.IH, auto simp: sx_keeps_return)
qed

lemma keeps_drain_lib_outbox [keeps_intros]:
  "sx_keeps lane_inv (sx_read (\<lambda>s. drain_libs (logged tr) (hy_lib_outbox s)))"
  by (rule sx_keeps_read_ok) (auto intro!: sx_keeps_okD [OF keeps_drain_libs] simp: lane_inv_def queues_ok_def lanes_of_def)

lemma lib_chunk_header:
  assumes "m \<in> set (chunk_blob ''libfile'' bid data [(''lib'', a), (''sha1'', b), (''name'', c)] sz)"
  shows "cold_header (fst m) \<and> of_kind ''libfile'' (fst m)"
  using assms by (auto simp: chunk_blob_def Let_def chunk_header_def cold_header_def of_kind_def)

lemma keeps_serve_lib [keeps_intros]: "sx_keeps lane_inv (serve_lib env (logged tr) path)"
proof -
  have ship: "sx_keeps lane_inv (sx_mod (\<lambda>s. s\<lparr>hy_lib_outbox := hy_lib_outbox s
               @ chunk_blob ''libfile'' (blob_name (''lib.'' @ nat_text (hy_libs_shipped s)) (hy_seq s + 1)) data
                   [(''lib'', JStr path), (''sha1'', JStr (he_sha1 env data)), (''name'', JStr (he_basename env path))]
                   DEFAULT_CHUNK_SIZE,
             hy_libs_served := dset path ''shipped'' (hy_libs_served s),
             hy_libs_shipped := hy_libs_shipped s + 1\<rparr>))" for data
    by (rule sx_keeps_mod)
       (auto simp: lane_inv_def log_ok_def waits_ok_def queues_ok_def lanes_of_def lv_after_def
         dest: lib_chunk_header)
  have miss: "sx_keeps lane_inv (lib_missing (logged tr) path why)" for why
    unfolding lib_missing_def by (intro keeps_intros keeps_mod_same) (simp_all add: lanes_of_def cold_header_def)
  show ?thesis
    unfolding serve_lib_def Let_def
    by (intro sx_keeps_read sx_keeps_if sx_keeps_return sx_keeps_sum miss ship)
qed

lemma keeps_sweep_libraries [keeps_intros]: "sx_keeps lane_inv (sweep_libraries env (logged tr))"
  unfolding sweep_libraries_def Let_def
  by (intro keeps_intros keeps_mod_same) (simp_all add: lanes_of_def cold_header_def link_msg_def)

subsection \<open>Idle work, sweeps and ticks\<close>

lemma keeps_prime_loop [keeps_intros]: "sx_keeps lane_inv (prime_loop env tr n us)"
proof (induction us arbitrary: n)
  case (Cons u us)
  have pop: "sx_keeps lane_inv (sx_mod (\<lambda>s. s\<lparr>hy_prime_queue := butlast (hy_prime_queue s)\<rparr>))"
    by (rule keeps_mod_same) (simp add: lanes_of_def)
  have put: "sx_keeps lane_inv (sx_mod (\<lambda>s. s\<lparr>hy_blob_hash := dset u digest (hy_blob_hash s),
     hy_manifest_pending := dset u digest (hy_manifest_pending s), hy_primed := hy_primed s + 1\<rparr>))" for digest
    by (rule keeps_mod_same) (simp add: lanes_of_def)
  show ?case
  proof (cases n)
    case (Suc k)
    show ?thesis
      unfolding Suc prime_loop.simps Let_def
      by (intro pop put sx_keeps_seq sx_keeps_read sx_keeps_if sx_keeps_option sx_keeps_sum Cons)
  qed (simp add: sx_keeps_return)
qed (simp add: sx_keeps_return)

lemma keeps_prime_hashes [keeps_intros]: "sx_keeps lane_inv (prime_hashes env tr)"
  by (simp add: prime_hashes_def sx_keeps_read keeps_prime_loop)

lemma keeps_marks [keeps_intros]:
  "sx_keeps lane_inv (hy_mark u t)" "sx_keeps lane_inv (hy_requeue u t)" "sx_keeps lane_inv (touch_ready u now)"
  "sx_keeps lane_inv (touch u now)" "sx_keeps lane_inv (set_vector u vec)"
  by (rule keeps_same, simp add: hy_mark_def hy_requeue_def touch_ready_def touch_def set_vector_def sx_mod_def lanes_of_def)+

lemma keeps_with_uuid [keeps_intros]: "(\<And>u. sx_keeps lane_inv (f u)) \<Longrightarrow> sx_keeps lane_inv (with_uuid d f)"
  by (auto simp: with_uuid_def intro!: sx_keeps_read sx_keeps_option sx_keeps_return)

lemma keeps_hot_keyed:
  assumes "tp_hot_keyed (logged tr) = Some f"
  shows "sx_keeps lane_inv (hy_hot_keyed f k v)"
  using assms by (intro keeps_same) (auto simp: hy_hot_keyed_def logged_def beside_def lanes_of_def case_prod_unfold)

lemma keeps_sample_view [keeps_intros]: "sx_keeps lane_inv (sample_view env (logged tr))"
proof -
  have "sx_keeps lane_inv (sx_mod (\<lambda>s. s\<lparr>hy_vis_sig := a, hy_vis_sent_at := b\<rparr>))" for a b
    by (rule keeps_mod_same) (simp add: lanes_of_def)
  then show ?thesis
    unfolding sample_view_def Let_def
    by (auto split: option.split intro!: sx_keeps_return sx_keeps_read sx_keeps_when sx_keeps_seq keeps_hot_keyed)
qed

lemma keeps_sweep_visibility [keeps_intros]: "sx_keeps lane_inv (sweep_visibility env (logged tr))"
  unfolding sweep_visibility_def sweep_object_def sweep_t1_def sweep_mesh_def Let_def
  by (intro keeps_intros keeps_mod_same) (simp_all add: lanes_of_def)

lemma keeps_sweep_deletions [keeps_intros]: "sx_keeps lane_inv (sweep_deletions env (logged tr))"
  unfolding sweep_deletions_def readopt_def
  by (intro keeps_intros keeps_mod_same) (simp_all add: lanes_of_def bury_def)

lemma keeps_drain_ready [keeps_intros]: "sx_keeps lane_inv hy_drain" "sx_keeps lane_inv (hy_ready now)"
  by (rule keeps_same, simp add: hy_drain_def hy_ready_def lanes_of_def Let_def case_prod_unfold split: sum.split)+

lemma keeps_flush_dirty [keeps_intros]:
  "pointers_ok env \<Longrightarrow> sx_keeps lane_inv (flush_dirty env (logged tr) ready budget dirty)"
  by (induction env "logged tr" ready budget dirty rule: flush_dirty.induct)
     (auto intro!: sx_keeps_return sx_keeps_seq keeps_marks keeps_flush_t1 keeps_flush_t2)

lemma keeps_and_then [keeps_intros]: "sx_keeps P m \<Longrightarrow> sx_keeps P n \<Longrightarrow> sx_keeps P (sx_and_then m n)"
  by (simp add: sx_and_then_def sx_keeps_bind sx_keeps_when)

lemma keeps_tick [keeps_intros]:
  "pointers_ok env \<Longrightarrow> sx_keeps lane_inv (flush_tick_inner env (logged tr))"
  unfolding flush_tick_inner_def tick_auto_boot_def tick_sweep_def tick_dirty_def
  by (intro keeps_intros keeps_mod_same) (simp_all add: lanes_of_def)

lemma keeps_depsgraph [keeps_intros]: "sx_keeps lane_inv (on_depsgraph env updates)"
  unfolding on_depsgraph_def take_update_def Let_def
  by (intro keeps_intros keeps_mod_same) (auto simp: lanes_of_def lane_inv_def)

lemma keeps_initial_scan [keeps_intros]: "sx_keeps lane_inv (initial_scan env)"
  unfolding initial_scan_def scan_one_def
  by (intro keeps_intros keeps_mod_same) (simp_all add: lanes_of_def)

lemma keeps_reset [keeps_intros]: "sx_keeps lane_inv (reset_for_new_file env (logged tr))"
proof -
  have "sx_keeps lane_inv (sx_mod (\<lambda>s. s\<lparr>hy_stamps := (hy_stamps s)\<lparr>sw_registry := rg_init\<rparr>, hy_shadow := sh_init,
                    hy_debounce := db_init DEBOUNCE_S, hy_dirty := ds_init, hy_db := [], hy_boot_outbox := []\<rparr>))"
    by (rule sx_keeps_mod) (auto simp: lane_inv_def log_ok_def waits_ok_def queues_ok_def lanes_of_def lv_after_def)
  moreover have "sx_keeps lane_inv (sx_mod (\<lambda>s. s\<lparr>hy_drop_next_batch := True\<rparr>))"
    by (rule keeps_mod_same) (simp add: lanes_of_def)
  ultimately show ?thesis
    unfolding reset_for_new_file_def sx_do.simps
    by (intro sx_keeps_seq keeps_initial_scan keeps_bootstrap sx_keeps_return)
qed

end
