(* ===== verification/Host_Claims.thy ===== *)
theory Host_Claims
  imports Host_Lanes
begin

text \<open>
  What \<open>HostSync\<close> guarantees over any run of its operations: the numbers on the two lanes, the order
  across them, and what the replica's merger makes of them; what a refused delta leaves behind.
\<close>

subsection \<open>Runs\<close>

text \<open>
  The operations the session calls; \<open>Wire_Moves\<close> is the transport's own thread between two of them.
  A run ends at the first operation that raises: \<open>flush_tick\<close> counts those of a tick in
  \<open>sync_errors\<close> and goes on.
\<close>

datatype 't host_op =
    Tick host_files
  | Edit host_files "depsgraph_update list"
  | New_File host_files
  | Bootstrap host_files
  | Repair_Fast "int option"
  | Ask_Delta host_files header
  | Repair_Delta host_files delta_plan
  | Serve_Libs host_files "string list"
  | Wire_Moves "'t \<Rightarrow> 't"

fun op_env :: "'t host_op \<Rightarrow> host_files option" where
  "op_env (Tick env) = Some env"
| "op_env (New_File env) = Some env"
| "op_env _ = None"

fun host_step :: "'t transport \<Rightarrow> 't host_op \<Rightarrow> (unit, 't host_sync) sx" where
  "host_step tr (Tick env) = flush_tick_inner env tr"
| "host_step tr (Edit env updates) = on_depsgraph env updates"
| "host_step tr (New_File env) = reset_for_new_file env tr"
| "host_step tr (Bootstrap env) = send_bootstrap env tr"
| "host_step tr (Repair_Fast gap_at) = sx_void (resend_fast_window gap_at)"
| "host_step tr (Ask_Delta env status) = sx_void (delta_state env tr status)"
| "host_step tr (Repair_Delta env plan) = send_delta env tr plan"
| "host_step tr (Serve_Libs env paths) = serve_lib_requests env tr paths"
| "host_step tr (Wire_Moves f) = sx_mod (\<lambda>s. s\<lparr>hy_wire := f (hy_wire s)\<rparr>)"

text \<open>The same operation on the transport with its log beside it.\<close>

fun op_beside :: "'t host_op \<Rightarrow> ('t \<times> sent list) host_op" where
  "op_beside (Wire_Moves f) = Wire_Moves (\<lambda>w. (f (fst w), snd w))"
| "op_beside (Tick env) = Tick env"
| "op_beside (Edit env updates) = Edit env updates"
| "op_beside (New_File env) = New_File env"
| "op_beside (Bootstrap env) = Bootstrap env"
| "op_beside (Repair_Fast gap_at) = Repair_Fast gap_at"
| "op_beside (Ask_Delta env status) = Ask_Delta env status"
| "op_beside (Repair_Delta env plan) = Repair_Delta env plan"
| "op_beside (Serve_Libs env paths) = Serve_Libs env paths"

definition host_run :: "'t transport \<Rightarrow> host_files \<Rightarrow> 't \<Rightarrow> stamp_world \<Rightarrow> 't host_op list
    \<Rightarrow> (py_error + unit) \<times> ('t \<times> sent list) host_sync" where
  "host_run tr env wire stamps ops =
     sx_seq (initial_scan env) (sx_each (\<lambda>x. host_step (logged tr) (op_beside x)) ops)
       (host_empty (wire, []) (stamps\<lparr>sw_registry := rg_init\<rparr>))"

definition ops_ok :: "'t host_op list \<Rightarrow> bool" where
  "ops_ok ops \<longleftrightarrow> (\<forall>x \<in> set ops. case op_env x of None \<Rightarrow> True | Some env \<Rightarrow> pointers_ok env)"

lemma keeps_step: "(case op_env x of None \<Rightarrow> True | Some env \<Rightarrow> pointers_ok env) \<Longrightarrow>
    sx_keeps lane_inv (host_step (logged tr) (op_beside x))"
proof (cases x)
  case (Serve_Libs env paths)
  then show ?thesis by (auto simp: serve_lib_requests_def intro!: sx_keeps_each keeps_serve_lib)
qed (auto intro!: keeps_intros sx_keeps_mod simp: lane_inv_def lanes_of_def)

lemma lane_inv_empty: "lane_inv (host_empty (wire, []) stamps)"
  by (simp add: lane_inv_def log_ok_def waits_ok_def queues_ok_def lanes_of_def host_empty_def)

lemma host_run_inv:
  assumes "ops_ok ops" "host_run tr env wire stamps ops = (Inr x, s)"
  shows "lane_inv s"
proof -
  have "sx_keeps lane_inv (sx_each (\<lambda>x. host_step (logged tr) (op_beside x)) ops)"
    using assms(1)
    by (induction ops) (auto simp: ops_ok_def sx_keeps_return intro!: sx_keeps_seq keeps_step)
  then have k: "sx_keeps lane_inv (sx_seq (initial_scan env) (sx_each (\<lambda>x. host_step (logged tr) (op_beside x)) ops))"
    by (intro sx_keeps_seq keeps_initial_scan)
  show ?thesis
    using assms(2) unfolding host_run_def by (rule sx_keepsD [OF k lane_inv_empty])
qed

subsection \<open>A small run, for the witnesses\<close>

definition plain_env :: host_files where
  "plain_env =
    \<lparr>he_now = 1, he_paused = False, he_mint = (\<lambda>n. replicate (n + 1) (CHR ''u'')), he_alive = (\<lambda>_. True),
     he_kept = (\<lambda>_. True), he_type_key = (\<lambda>_. Some ''OBJECT''), he_syncable = (\<lambda>_. True), he_stampable = (\<lambda>_. True),
     he_shading_pinged = (\<lambda>_. False), he_bake_nodes = (\<lambda>_. False), he_name = (\<lambda>_. ''Cube''),
     he_coll = (\<lambda>_. Some ''objects''), he_snapshot = (\<lambda>_. Inr [(''hide_render'', JBool True)]),
     he_serialize = (\<lambda>_ _. Inr (Some [7])), he_pcache = (\<lambda>_. JNull), he_owner = (\<lambda>_. None),
     he_lookup = (\<lambda>_ _. None), he_scene = None, he_data = (\<lambda>_. []),
     he_mainfile = (\<lambda>_. Inr [1, 2]), he_filename = ''a.blend'', he_project_dir = [], he_libs = [],
     he_lib_size = (\<lambda>_. -1), he_lib_read = (\<lambda>_. Inl []), he_basename = (\<lambda>p. p), he_blake2b = (\<lambda>_. ''d''),
     he_md5 = (\<lambda>_. []), he_sha1 = (\<lambda>_. []), he_object_vector = (\<lambda>_. JNull), he_layer = (\<lambda>_. None),
     he_hide = (\<lambda>_. (False, False)), he_idprops = (\<lambda>_. []), he_view = None\<rparr>"

definition wire_taking :: "bool \<Rightarrow> unit transport" where
  "wire_taking b = \<lparr>tp_send_cold = (\<lambda>_ _ s. (Inr b, s)), tp_send_fast = (\<lambda>_ _ s. (Inr b, s)),
     tp_request_nowait = None, tp_poll_reply = (\<lambda>_ s. (None, s)), tp_cancel_request = (\<lambda>_ s. s),
     tp_hot_keyed = None, tp_wire_compresses = True\<rparr>"

definition plain_ops :: "unit host_op list" where
  "plain_ops = [Serve_Libs plain_env [''a''], Repair_Delta plain_env (dp_init\<lparr>dp_tombs := [''u'']\<rparr>)]"

definition plain_run :: "(py_error + unit) \<times> (unit \<times> sent list) host_sync" where
  "plain_run = host_run (wire_taking True) plain_env () \<lparr>sw_stamps = [], sw_registry = rg_init, sw_minted = 0\<rparr> plain_ops"

lemma plain_ops_ok: "ops_ok plain_ops"
  by (simp add: ops_ok_def plain_ops_def)

definition missing_msg :: header where
  "missing_msg = [(''kind'', JStr ''lib_missing''), (''lib'', JStr ''a''), (''why'', JStr ''not on the host''), (''seq'', JInt 1)]"

lemma plain_run: "fst plain_run = Inr () \<and> snd (hy_wire (snd plain_run)) =
    [(False, missing_msg, []), (True, fast_header ''tomb'' ''u'' 1 1, [])]"
  by (simp add: plain_run_def host_run_def plain_ops_def initial_scan_def all_data_def plain_env_def sx_defs sx_void_def
      serve_lib_requests_def serve_lib_def lib_missing_def send_cold_msg_def cold_next_def hy_tp_cold_def host_empty_def
      logged_def logging_def wire_taking_def send_delta_def send_tombstone_def fast_next_def hy_tp_fast_def dp_init_def
      log_fast_def Let_def after_for_def cold_seq_of_def SWEPT_COLLECTIONS_def LIB_FILE_MAX_def missing_msg_def)

lemma plain_run_eq: "host_run (wire_taking True) plain_env () \<lparr>sw_stamps = [], sw_registry = rg_init, sw_minted = 0\<rparr>
    plain_ops = (Inr (), snd plain_run)"
  using plain_run by (cases plain_run) (simp add: plain_run_def)

lemma plain_log: "snd (hy_wire (snd plain_run)) =
    [(False, missing_msg, [])] @ (True, fast_header ''tomb'' ''u'' 1 1, []) # []"
  using plain_run by simp

lemma host_run_follows:
  assumes "ops_ok ops" "host_run tr env wire stamps ops = (Inr (), s)"
    and "snd (hy_wire s) = before @ (True, h, p) # rest"
  shows "follows h before"
proof -
  have "ordered (snd (hy_wire s))"
    using host_run_inv [OF assms(1,2)] by (simp add: lane_inv_def log_ok_def lanes_of_def)
  moreover have "length before < length (snd (hy_wire s))" "snd (hy_wire s) ! length before = (True, h, p)"
    "take (length before) (snd (hy_wire s)) = before"
    using assms(3) by simp_all
  ultimately show ?thesis unfolding ordered_def by force
qed

subsection \<open>The two lanes\<close>

lemma cold_not_fast: "cold_header h \<Longrightarrow> \<not> is_fast h"
  by (simp add: cold_header_def is_fast_def lane_of_def LANE_COLD_def LANE_FAST_def)

text \<open>C2: Over any run of ticks, edits, file loads, bootstraps, repairs and library requests, whatever
  the transport refuses, the messages it took carry exactly the numbers 1, 2, 3 and so on on each
  lane: a refusal takes its number back, a superseded bootstrap leaves no hole, and the two counters
  are the last numbers used. The header tells the lane.\<close>

theorem host_lanes_contiguous:
  assumes "ops_ok ops" "host_run tr env wire stamps ops = (Inr (), s)"
  shows "numbered (of_lane False (snd (hy_wire s))) (hy_seq s)
    \<and> numbered (of_lane True (snd (hy_wire s))) (hy_seq_fast s)
    \<and> (\<forall>b h p. (b, h, p) \<in> set (snd (hy_wire s)) \<longrightarrow> (is_fast h \<longleftrightarrow> b))"
proof -
  have i: "numbered (of_lane False (snd (hy_wire s))) (hy_seq s)" "numbered (of_lane True (snd (hy_wire s))) (hy_seq_fast s)"
    "\<forall>b h p. (b, h, p) \<in> set (snd (hy_wire s)) \<longrightarrow> (if b then is_fast h else cold_header h)"
    using host_run_inv [OF assms] by (simp_all add: lane_inv_def log_ok_def lanes_of_def)
  have "is_fast h \<longleftrightarrow> b" if "(b, h, p) \<in> set (snd (hy_wire s))" for b h p
    using i(3) [rule_format, OF that] cold_not_fast by (cases b) auto
  then show ?thesis using i(1,2) by blast
qed

theorem host_lanes_contiguous_witness:
  "of_lane True (snd (hy_wire (snd plain_run))) \<noteq> [] \<and> numbered (of_lane False (snd (hy_wire (snd plain_run)))) 1"
  using host_lanes_contiguous [OF plain_ops_ok plain_run_eq]
  by (simp add: plain_log of_lane_def numbered_def)

subsection \<open>The replica's merger behind these lanes\<close>

definition tracker_at :: "nat \<Rightarrow> seq_tracker" where
  "tracker_at n = \<lparr>sq_last_seen = (if n = 0 then None else Some (int n)), sq_gaps = 0, sq_first_missing = None\<rparr>"

lemma tracker_next: "sq_observe (int n + 1) (tracker_at n) = (True, tracker_at (Suc n))"
  by (auto simp: sq_observe_def tracker_at_def Let_def)

definition observe_all :: "header list \<Rightarrow> merger \<Rightarrow> merger" where
  "observe_all hs m = fold (\<lambda>h m. snd (mg_observe h m)) hs m"

lemma numbered_prefix_seq:
  assumes "numbered ms n" "map fst ms = xs @ h # rest"
  shows "dget h ''seq'' = Some (JInt (int (length xs) + 1))"
proof -
  have l: "length xs < length ms" using arg_cong [OF assms(2), of length] by simp
  have "fst (ms ! length xs) = h" using assms(2) l by (metis nth_append_length nth_map)
  then show ?thesis using assms(1) l unfolding numbered_def by metis
qed

lemma observe_all_contiguous:
  assumes "numbered cold n" "numbered fast k"
  shows "map fst cold = filter (\<lambda>h. \<not> is_fast h) hs @ cs \<Longrightarrow> map fst fast = filter is_fast hs @ fs \<Longrightarrow>
    mg_cold (observe_all hs mg_init) = tracker_at (length (filter (\<lambda>h. \<not> is_fast h) hs))
    \<and> mg_fast (observe_all hs mg_init) = tracker_at (length (filter is_fast hs))"
proof (induction hs arbitrary: cs fs rule: rev_induct)
  case Nil
  then show ?case by (simp add: observe_all_def mg_init_def tracker_at_def sq_init_def)
next
  case (snoc h hs)
  have s: "observe_all (hs @ [h]) mg_init = snd (mg_observe h (observe_all hs mg_init))"
    by (simp add: observe_all_def)
  show ?case
  proof (cases "is_fast h")
    case True
    have "seq_of h = Inr (Some (int (length (filter is_fast hs)) + 1))"
      using numbered_prefix_seq [OF assms(2), of "filter is_fast hs" h fs] snoc.prems True
      by (simp add: seq_of_def as_int_def)
    then show ?thesis
      using snoc.IH [of cs "h # fs"] snoc.prems True by (simp add: s mg_observe_def tracker_next)
  next
    case False
    have "seq_of h = Inr (Some (int (length (filter (\<lambda>h. \<not> is_fast h) hs)) + 1))"
      using numbered_prefix_seq [OF assms(1), of "filter (\<lambda>h. \<not> is_fast h) hs" h cs] snoc.prems False
      by (simp add: seq_of_def as_int_def)
    then show ?thesis
      using snoc.IH [of "h # cs" fs] snoc.prems False by (simp add: s mg_observe_def tracker_next)
  qed
qed

text \<open>C5: A replica that has taken in any part of both lanes, each in order but interleaved in any way,
  has counted no gap and asks for no repair.\<close>

theorem replica_sees_no_gap:
  assumes "ops_ok ops" "host_run tr env wire stamps ops = (Inr (), s)"
    and "map fst (of_lane False (snd (hy_wire s))) = filter (\<lambda>h. \<not> is_fast h) arrived @ cs"
    and "map fst (of_lane True (snd (hy_wire s))) = filter is_fast arrived @ fs"
  shows "mg_gaps (observe_all arrived mg_init) = 0 \<and> mg_gap_lane (observe_all arrived mg_init) = []"
proof -
  have "numbered (of_lane False (snd (hy_wire s))) (hy_seq s)" "numbered (of_lane True (snd (hy_wire s))) (hy_seq_fast s)"
    using host_run_inv [OF assms(1,2)] by (simp_all add: lane_inv_def log_ok_def lanes_of_def)
  from observe_all_contiguous [OF this assms(3,4)]
  show ?thesis by (simp add: mg_gaps_def mg_gap_lane_def tracker_at_def)
qed

theorem replica_sees_no_gap_witness:
  "mg_gaps (observe_all [fast_header ''tomb'' ''u'' 1 1, missing_msg] mg_init) = 0"
proof -
  have f: "is_fast (fast_header ''tomb'' ''u'' 1 1)" "\<not> is_fast missing_msg"
    by (simp_all add: is_fast_def lane_of_def fast_header_def missing_msg_def LANE_FAST_def LANE_COLD_def json_true_def)
  show ?thesis
    using replica_sees_no_gap [OF plain_ops_ok plain_run_eq, of "[fast_header ''tomb'' ''u'' 1 1, missing_msg]" "[]" "[]"] plain_run f
    by (simp add: of_lane_def)
qed

text \<open>C3: Every delta and tombstone names a cold number at or past each blob of its datablock, each library
  link and each whole bootstrap that left before it, so the merger lets an edit through only once a cold
  number at or past each of those has been reported done to it.\<close>

theorem edits_applied_after_their_blobs:
  assumes "ops_ok ops" "host_run tr env wire stamps ops = (Inr (), s)"
    and "snd (hy_wire s) = before @ (True, h, p) # rest" "(False, hc, pc) \<in> set before"
    and "dget h ''uuid'' = Some (JStr u)" "\<not> of_kind ''resync_end'' h" "holds_back hc u"
    and "(applied, h, p) \<in> set (fst (mg_run es mg_init))"
  shows "header_seq hc \<le> applied"
proof -
  obtain a where a: "after_of h = Inr a" "header_seq hc \<le> a"
    using host_run_follows [OF assms(1-3)] assms(4-7) unfolding follows_def by blast
  have "parked_ok mg_init" by (simp add: parked_ok_def mg_init_def)
  then have "list_all due_ok (fst (mg_run es mg_init))"
    using mg_run_parks [of mg_init es] by (cases "mg_run es mg_init") auto
  then have "due_ok (applied, h, p)" using assms(8) by (simp add: list_all_iff)
  then show ?thesis using a by (simp add: due_ok_def)
qed

theorem edits_applied_after_their_blobs_witness:
  "(1, fast_header ''tomb'' ''u'' 1 1, []) \<in> set (fst (mg_run [Arrive (fast_header ''tomb'' ''u'' 1 1) [], ColdDone (Some 1)] mg_init))
   \<and> header_seq missing_msg \<le> 1"
proof -
  have e: "(1, fast_header ''tomb'' ''u'' 1 1, []) \<in> set (fst (mg_run [Arrive (fast_header ''tomb'' ''u'' 1 1) [], ColdDone (Some 1)] mg_init))"
    by (simp add: mg_admit_def mg_cold_done_def mg_init_def is_fast_def lane_of_def fast_header_def LANE_FAST_def
        json_true_def after_of_def as_int_def)
  have "header_seq missing_msg \<le> 1"
    by (rule edits_applied_after_their_blobs [OF plain_ops_ok plain_run_eq plain_log, of missing_msg "[]" "''u''", OF _ _ _ _ e])
       (simp_all add: fast_header_def of_kind_def holds_back_def missing_msg_def)
  then show ?thesis using e by blast
qed

subsection \<open>What a refusal leaves behind\<close>

definition put_back :: "uuid \<Rightarrow> json snapshot \<Rightarrow> 't host_sync \<Rightarrow> bool" where
  "put_back u old s \<longleftrightarrow> sh_get u (hy_shadow s) = Some old \<and> ds_status (hy_dirty s) u \<noteq> Clean"

lemma defer_ok: "sx_ok (\<lambda>_. put_back u old) (defer_t1 u (Some old)) s"
  by (auto simp: defer_t1_def hy_requeue_def hy_restore_def sh_get_def sh_restore_def ds_status_def ds_requeue_def
      ds_mark_def put_back_def Let_def)

lemma ship_targets_deferred:
  "sx_post (\<lambda>r s. r = None \<longrightarrow> put_back u old s) (ship_targets env tr u (Some old) changes after)"
proof (induction changes arbitrary: after)
  case (Cons c changes)
  obtain path v where c: "c = (path, v)" by (cases c)
  have d: "sx_post (\<lambda>r s. r = None \<longrightarrow> put_back u old s) (sx_seq (defer_t1 u (Some old)) (sx_return None))"
    by (simp add: sx_post_def defer_ok)
  show ?case
    unfolding c ship_targets.simps
    by (rule d sx_post_option sx_post_if sx_post_bind sx_post_seq sx_post_read Cons.IH)+
qed (simp add: sx_post_return)


definition edited_state :: "unit host_sync" where
  "edited_state = (host_empty () \<lparr>sw_stamps = [], sw_registry = rg_init, sw_minted = 0\<rparr>)
     \<lparr>hy_db := [(''u'', 5)], hy_shadow := [(''u'', [(''hide_render'', JBool False)])],
      hy_dirty := \<lparr>ds_entries = [(''u'', 1)], ds_sent = {''u''}\<rparr>,
      hy_debounce := \<lparr>db_window = DEBOUNCE_S, db_touched = [(''u'', 0)]\<rparr>\<rparr>"


text \<open>The only edit in the queue, and nothing will call it ready.\<close>

definition stranded :: "uuid \<Rightarrow> 't host_sync \<Rightarrow> bool" where
  "stranded u s \<longleftrightarrow> ds_entries (hy_dirty s) = [(u, 1)] \<and> dget (db_touched (hy_debounce s)) u = None"

lemma not_ready:
  assumes "dget (db_touched d) u = None"
  shows "u \<notin> set (fst (db_ready now d)) \<and> dget (db_touched (snd (db_ready now d))) u = None"
proof -
  have "u \<notin> fst ` set (db_touched d)" using assms by (simp add: not_in_keys_iff)
  then have "u \<notin> set (fst (db_ready now d))" by (force simp: db_ready_def Let_def)
  then show ?thesis using assms by (simp add: db_ready_def Let_def dget_fold_dpop)
qed



end
