(* ===== verification/Session_Claims.thy ===== *)
theory Session_Claims
  imports Session_Host Session_Replica Host_Claims
begin

text \<open>
  What the sessions guarantee: one handshake timer, the outcome of a handshake, the pairing of a host with a
  replica, and three ways a session gets stuck.
\<close>

subsection \<open>What the session's operations leave alone\<close>

text \<open>
  A property of the handshake's flags, the epochs, the policy and the counters survives every operation that
  does not touch them, even where it raises.
\<close>

named_theorems sk_intros \<open>operations of the host session that keep the property\<close>

locale session_keeps =
  fixes P :: "'t session_host \<Rightarrow> bool"
  assumes same: "\<lbrakk>sh_on s' = sh_on s; sh_armed s' = sh_armed s; sh_timers s' = sh_timers s; sh_epoch s' = sh_epoch s;
      sh_peer_epoch s' = sh_peer_epoch s; sh_policy s' = sh_policy s; sh_fast_resyncs s' = sh_fast_resyncs s;
      sh_auto_resyncs s' = sh_auto_resyncs s; sh_delta_resyncs s' = sh_delta_resyncs s; P s\<rbrakk> \<Longrightarrow> P s'"
begin

lemma sk_mod:
  "(\<And>s. sh_on (f s) = sh_on s \<and> sh_armed (f s) = sh_armed s \<and> sh_timers (f s) = sh_timers s \<and> sh_epoch (f s) = sh_epoch s
      \<and> sh_peer_epoch (f s) = sh_peer_epoch s \<and> sh_policy (f s) = sh_policy s \<and> sh_fast_resyncs (f s) = sh_fast_resyncs s
      \<and> sh_auto_resyncs (f s) = sh_auto_resyncs s \<and> sh_delta_resyncs (f s) = sh_delta_resyncs s)
   \<Longrightarrow> sx_always P (sx_mod f)"
  by (rule sx_always_mod, rule same) auto

lemma sk_sync [sk_intros]: "sx_always P (on_sync m)"
  unfolding sx_always_def on_sync_def by (auto split: prod.split elim!: same [rotated 9])

lemma sk_request [sk_intros]: "sx_always P (sh_request tr msg)"
  by (simp add: sh_request_def sk_sync)

lemma sk_refresh [sk_intros]: "sx_always P (sh_refresh_cm hv)"
  unfolding sx_always_def sh_refresh_cm_def by (auto split: option.split elim!: same [rotated 9])

lemma sk_recompute [sk_intros]: "sx_always P (sh_recompute hv)"
  unfolding sh_recompute_def by (intro always_intros sk_mod) simp

lemma sk_adopt [sk_intros]: "sx_always P (adopt_row hv theirs)"
  unfolding adopt_row_def by (intro always_intros sx_always_option sk_mod) simp

lemma sk_card [sk_intros]: "sx_always P (viewer_card_refresh hv force)"
  unfolding viewer_card_refresh_def Let_def
  by (intro always_intros) (auto split: sum.split intro!: always_intros sk_mod)

lemma sk_send [sk_intros]: "sx_always P (handshake_send hv tr)"
  unfolding handshake_send_def by (intro always_intros sk_intros sk_mod sx_always_prod) simp

lemma sk_deny [sk_intros]: "sx_always P (handshake_deny hv reply)"
  unfolding handshake_deny_def by (intro always_intros sk_mod) simp

lemma sk_colour [sk_intros]: "sx_always P (watch_colour hv tr)"
  unfolding watch_colour_def by (intro always_intros sk_intros sk_mod) simp

lemma sk_peer_cm [sk_intros]: "sx_always P (watch_peer_cm hv)"
  unfolding watch_peer_cm_def by (auto split: json.split intro!: always_intros sk_intros sk_mod)

lemma sk_stream [sk_intros]: "sx_always P (watch_stream hv)"
  unfolding watch_stream_def by (auto split: json.split intro!: always_intros sk_mod)

lemma sk_libs [sk_intros]: "sx_always P (watch_libs hv tr)"
  unfolding watch_libs_def by (intro always_intros sk_intros)

end

subsection \<open>One handshake timer\<close>

datatype 't session_event =
    Handshake_Fires host_view
  | Watch_Fires host_view
  | Peer_Changes host_view bool
  | Sync_Works "'t host_op"
  | Shot_Toggled
  | Zoomed json bool
  | Resync_Forced host_view
  | Session_Stopped

text \<open>A timer that returns None or raises is dropped; whoever calls an operator sees its exception.\<close>

fun session_step :: "'t transport \<Rightarrow> 't session_event \<Rightarrow> 't session_host \<Rightarrow> 't session_host" where
  "session_step tr (Handshake_Fires hv) s = (if sh_timers s = 0 then s else case handshake hv tr s of
      (Inr (Some _), s') \<Rightarrow> s' | (_, s') \<Rightarrow> s'\<lparr>sh_timers := sh_timers s' - 1\<rparr>)"
| "session_step tr (Watch_Fires hv) s = (if \<not> sh_watching s then s else case watch hv tr s of
      (Inr (Some _), s') \<Rightarrow> s' | (_, s') \<Rightarrow> s'\<lparr>sh_watching := False\<rparr>)"
| "session_step tr (Peer_Changes hv alive) s = on_peer hv alive s"
| "session_step tr (Sync_Works x) s = snd (on_sync (host_step tr x) s)"
| "session_step tr Shot_Toggled s = snd (shot_mode_toggle tr s)"
| "session_step tr (Zoomed delta back) s = snd (replica_zoom tr delta back s)"
| "session_step tr (Resync_Forced hv) s = snd (force_resync hv tr s)"
| "session_step tr Session_Stopped s = snd (stop_host tr s)"

definition session_run :: "'t transport \<Rightarrow> 't session_event list \<Rightarrow> 't session_host \<Rightarrow> 't session_host" where
  "session_run tr es s = fold (session_step tr) es s"

definition one_timer :: "'t session_host \<Rightarrow> bool" where
  "one_timer s \<longleftrightarrow> sh_timers s \<le> 1 \<and> (sh_timers s = 1 \<longrightarrow> sh_armed s)"

definition in_handshake :: "nat \<times> bool \<Rightarrow> 't session_host \<Rightarrow> bool" where
  "in_handshake c s \<longleftrightarrow> sh_armed s \<and> (sh_timers s, sh_on s) = c"

text \<open>What a handshake or a repair would change.\<close>

definition pairing :: "'t session_host \<Rightarrow> string \<times> json \<times> resync_policy \<times> nat \<times> nat \<times> nat" where
  "pairing s = (sh_epoch s, sh_peer_epoch s, sh_policy s, sh_fast_resyncs s, sh_auto_resyncs s, sh_delta_resyncs s)"

definition stuck :: "string \<times> json \<times> resync_policy \<times> nat \<times> nat \<times> nat \<Rightarrow> 't session_host \<Rightarrow> bool" where
  "stuck c s \<longleftrightarrow> sh_armed s \<and> sh_timers s = 0 \<and> pairing s = c"

interpretation one: session_keeps one_timer
  by unfold_locales (simp add: one_timer_def)

interpretation busy: session_keeps "in_handshake c" for c
  by unfold_locales (simp add: in_handshake_def)

interpretation still: session_keeps "stuck c" for c
  by unfold_locales (simp add: stuck_def pairing_def)

lemmas busy_keeps = busy.sk_sync busy.sk_request busy.sk_refresh busy.sk_recompute busy.sk_adopt busy.sk_card
  busy.sk_send busy.sk_deny

lemmas one_keeps = one.sk_sync one.sk_request one.sk_refresh one.sk_card one.sk_colour one.sk_peer_cm one.sk_stream
  one.sk_libs

lemmas still_keeps = still.sk_sync still.sk_request still.sk_refresh still.sk_card still.sk_colour still.sk_peer_cm
  still.sk_stream still.sk_libs

lemma busy_body: "sx_always (in_handshake c) (handshake_body hv tr reply)"
  unfolding handshake_body_def
  by (intro always_intros busy_keeps sx_always_mod) (simp_all add: in_handshake_def policy_reset_def)

lemma sends_later:
  "handshake_send hv tr s = (Inr r, s') \<Longrightarrow> r \<noteq> None" "handshake_deny hv reply s = (Inr r, s') \<Longrightarrow> r \<noteq> None"
  by (auto simp: handshake_send_def handshake_deny_def sx_defs split: prod.splits sum.splits)

text \<open>How one call of the handshake ends: still armed, or done.\<close>

definition ends_well :: "nat \<times> bool \<Rightarrow> py_error + time option \<Rightarrow> 't session_host \<Rightarrow> bool" where
  "ends_well c res s' \<longleftrightarrow> (sh_timers s', sh_on s') = c \<and> (sh_armed s' \<longleftrightarrow> res \<noteq> Inr None)"

lemma in_handshake_ends: "in_handshake c s' \<Longrightarrow> res \<noteq> Inr None \<Longrightarrow> ends_well c res s'"
  by (simp add: ends_well_def in_handshake_def)

lemma accept_ends: "in_handshake c s \<Longrightarrow> handshake_accept hv tr reply s = (res, s') \<Longrightarrow> ends_well c res s'"
  using sx_alwaysD [OF busy_body, of c s hv tr reply]
  by (auto simp: handshake_accept_def sx_defs ends_well_def in_handshake_def split: prod.splits sum.splits)

lemma handshake_outcome:
  assumes "in_handshake c s" "sh_on s" "handshake hv tr s = (res, s')"
  shows "ends_well c res s'"
proof (cases "sh_req s")
  case None
  then have h: "handshake_send hv tr s = (res, s')" using assms(2,3) by (simp add: handshake_def sx_read_def)
  show ?thesis
    using sx_alwaysD [OF busy.sk_send assms(1), of hv tr] h sends_later(1) [of hv tr s _ s']
    by (auto intro: in_handshake_ends)
next
  case (Some k)
  obtain reply s1 where poll: "on_sync (hy_poll_reply tr k) s = (Inr reply, s1)"
    by (cases "tp_poll_reply tr k (hy_wire (sh_sync s))") (auto simp: on_sync_def hy_poll_reply_def)
  have b1: "in_handshake c s1"
    using sx_alwaysD [OF busy.sk_sync assms(1), of "hy_poll_reply tr k"] poll by simp
  show ?thesis
  proof (cases reply)
    case None
    obtain r2 s2 where cancel: "on_sync (hy_cancel tr k) s1 = (r2, s2)" by fastforce
    have "in_handshake c s2" using sx_alwaysD [OF busy.sk_sync b1, of "hy_cancel tr k"] cancel by simp
    then show ?thesis
      using assms(2,3) Some poll None b1 cancel
      by (auto simp: handshake_def sx_defs in_handshake_def ends_well_def split: sum.splits if_splits)
  next
    case (Some r)
    have h: "(if truthy r ''ok'' then handshake_accept hv tr r else handshake_deny hv r) s1 = (res, s')"
      using assms(2,3) \<open>sh_req s = Some k\<close> poll Some by (simp add: handshake_def sx_read_def sx_bind_def)
    show ?thesis
    proof (cases "truthy r ''ok''")
      case True
      then show ?thesis using h accept_ends [OF b1] by simp
    next
      case False
      then show ?thesis
        using h sx_alwaysD [OF busy.sk_deny b1, of hv r] sends_later(2) [of hv r s1 _ s']
        by (auto intro: in_handshake_ends)
    qed
  qed
qed

lemma handshake_off: "\<not> sh_on s \<Longrightarrow> handshake hv tr s = (Inr None, s)"
  by (simp add: handshake_def sx_read_def sx_return_def)

lemma one_arm: "one_timer s \<Longrightarrow> one_timer (arm_handshake hv note new_epoch s)"
  by (auto simp: one_timer_def arm_handshake_def)

lemma one_repair: "sx_always one_timer (watch_repair hv tr)"
  unfolding watch_repair_def act_on_def repair_delta_def auto_bootstrap_def Let_def
  by (auto intro!: always_intros one_keeps sx_always_mod simp: one_timer_def split: verdict.split)

lemma one_watch: "sx_always one_timer (watch hv tr)"
  unfolding watch_def watch_pong_def
  by (intro always_intros one_keeps one_repair sx_always_mod one_arm) (simp_all add: one_timer_def)

lemma one_operators:
  "sx_always one_timer (shot_mode_toggle tr)" "sx_always one_timer (replica_zoom tr delta back)"
  "sx_always one_timer (force_resync hv tr)" "sx_always one_timer (stop_host tr)"
  unfolding shot_mode_toggle_def replica_zoom_def force_resync_def stop_host_def
  by (intro always_intros one_keeps sx_always_mod; simp add: one_timer_def)+

lemma one_step: "one_timer s \<Longrightarrow> one_timer (session_step tr e s)"
proof (cases e)
  case (Handshake_Fires hv)
  assume one: "one_timer s"
  obtain res s' where h: "handshake hv tr s = (res, s')" by fastforce
  show ?thesis
  proof (cases "sh_timers s = 0")
    case False
    with one have b: "in_handshake (1, sh_on s) s" by (simp add: one_timer_def in_handshake_def le_Suc_eq)
    show ?thesis
    proof (cases "sh_on s")
      case True
      from handshake_outcome [OF b this h] show ?thesis
        using h False Handshake_Fires by (auto simp: one_timer_def ends_well_def split: sum.split option.split)
    next
      case off: False
      then show ?thesis using False Handshake_Fires one by (simp add: handshake_off one_timer_def)
    qed
  qed (simp add: Handshake_Fires one)
next
  case (Watch_Fires hv)
  assume "one_timer s"
  from sx_alwaysD [OF one_watch this, of hv tr] show ?thesis
    using Watch_Fires \<open>one_timer s\<close> by (auto simp: one_timer_def split: prod.split sum.split option.split)
next
  case (Sync_Works x)
  assume "one_timer s"
  then show ?thesis unfolding Sync_Works session_step.simps by (rule sx_alwaysD [OF one.sk_sync])
next
  case (Peer_Changes hv alive)
  assume "one_timer s"
  then show ?thesis using Peer_Changes by (simp add: on_peer_def one_timer_def)
qed (simp_all add: one_operators [THEN sx_alwaysD])

text \<open>A run in which no handshake raises and the session is not stopped.\<close>

fun smooth :: "'t transport \<Rightarrow> 't session_event list \<Rightarrow> 't session_host \<Rightarrow> bool" where
  "smooth tr [] s \<longleftrightarrow> True"
| "smooth tr (e # es) s \<longleftrightarrow> (case e of
      Handshake_Fires hv \<Rightarrow> sh_timers s = 0 \<or> (case fst (handshake hv tr s) of Inl _ \<Rightarrow> False | Inr _ \<Rightarrow> True)
    | Session_Stopped \<Rightarrow> False | _ \<Rightarrow> True) \<and> smooth tr es (session_step tr e s)"

definition ready :: "'t session_host \<Rightarrow> bool" where
  "ready s \<longleftrightarrow> sh_on s \<and> sh_timers s = of_bool (sh_armed s)"

interpretation prompt: session_keeps ready
  by unfold_locales (simp add: ready_def)

lemmas prompt_keeps = prompt.sk_sync prompt.sk_request prompt.sk_refresh prompt.sk_card prompt.sk_colour
  prompt.sk_peer_cm prompt.sk_stream prompt.sk_libs

lemma ready_watch: "sx_always ready (watch hv tr)"
  unfolding watch_def watch_pong_def watch_repair_def act_on_def repair_delta_def auto_bootstrap_def Let_def
  by (auto intro!: always_intros prompt_keeps sx_always_mod simp: ready_def arm_handshake_def split: verdict.split)

lemma ready_operators:
  "sx_always ready (shot_mode_toggle tr)" "sx_always ready (replica_zoom tr delta back)"
  "sx_always ready (force_resync hv tr)"
  unfolding shot_mode_toggle_def replica_zoom_def force_resync_def
  by (intro always_intros prompt_keeps sx_always_mod; simp add: ready_def)+

lemma ready_step:
  assumes "ready s" "smooth tr (e # es) s"
  shows "ready (session_step tr e s)"
proof (cases e)
  case (Handshake_Fires hv)
  obtain res s' where h: "handshake hv tr s = (res, s')" by fastforce
  show ?thesis
  proof (cases "sh_timers s = 0")
    case False
    with assms(1) have b: "in_handshake (1, True) s" "sh_on s" by (auto simp: ready_def in_handshake_def)
    from handshake_outcome [OF this h] show ?thesis
      using h False assms(2) Handshake_Fires by (auto simp: ready_def ends_well_def split: sum.splits option.splits)
  qed (simp add: Handshake_Fires assms(1))
next
  case (Watch_Fires hv)
  from sx_alwaysD [OF ready_watch assms(1), of hv tr] show ?thesis
    using Watch_Fires assms(1) by (auto simp: ready_def split: prod.split sum.split option.split)
next
  case (Sync_Works x)
  then show ?thesis using sx_alwaysD [OF prompt.sk_sync assms(1)] by simp
next
  case (Peer_Changes hv alive)
  then show ?thesis using assms(1) by (simp add: on_peer_def ready_def)
qed (use assms in \<open>simp_all add: ready_operators [THEN sx_alwaysD]\<close>)

lemma one_run: "one_timer s \<Longrightarrow> one_timer (session_run tr es s)"
  unfolding session_run_def by (induction es arbitrary: s) (auto intro: one_step)

lemma ready_run: "ready s \<Longrightarrow> smooth tr es s \<Longrightarrow> ready (session_run tr es s)"
  unfolding session_run_def
proof (induction es arbitrary: s)
  case (Cons e es)
  from Cons.prems(2) have "smooth tr es (session_step tr e s)" by simp
  with Cons.IH [OF ready_step [OF Cons.prems]] show ?case by simp
qed simp

text \<open>C10: Through any run of timers, pongs, link changes, edits and operators at most one handshake timer is
  registered, and only while a handshake is due. As long as no handshake raises there is one exactly then:
  every handshake due is being tried.\<close>

theorem one_handshake_timer:
  assumes "start_host hv epoch address_error sync s0 = (Inr (), s)"
  shows "sh_timers (session_run tr es s) \<le> of_bool (sh_armed (session_run tr es s))
    \<and> (\<not> smooth tr es s \<or> sh_timers (session_run tr es s) = of_bool (sh_armed (session_run tr es s)))"
proof -
  have start: "one_timer s" "ready s"
    using assms by (auto simp: start_host_def arm_handshake_def one_timer_def ready_def split: sum.splits)
  have "sh_timers (session_run tr es s) \<le> of_bool (sh_armed (session_run tr es s))"
    using one_run [OF start(1), of tr es] by (cases "sh_armed (session_run tr es s)") (simp_all add: one_timer_def)
  moreover have "\<not> smooth tr es s \<or> sh_timers (session_run tr es s) = of_bool (sh_armed (session_run tr es s))"
    using ready_run [OF start(2), of tr es] by (simp only: ready_def) blast
  ultimately show ?thesis by blast
qed

subsection \<open>A handshake that raises\<close>

lemma still_repair: "sx_always (stuck c) (watch_repair hv tr)"
  by (simp add: sx_always_def watch_repair_def sx_defs stuck_def)

lemma still_watch: "sx_always (stuck c) (watch hv tr)"
  unfolding watch_def watch_pong_def
  by (intro always_intros still_keeps still_repair sx_always_mod)
    (simp_all add: stuck_def pairing_def arm_handshake_def)

lemma still_operators:
  "sx_always (stuck c) (shot_mode_toggle tr)" "sx_always (stuck c) (replica_zoom tr delta back)"
  "sx_always (stuck c) (force_resync hv tr)"
  unfolding shot_mode_toggle_def replica_zoom_def force_resync_def
  by (intro always_intros still_keeps sx_always_mod; simp add: stuck_def pairing_def)+

lemma stuck_step: "stuck c s \<Longrightarrow> e \<noteq> Session_Stopped \<Longrightarrow> stuck c (session_step tr e s)"
proof (cases e)
  case (Handshake_Fires hv)
  then show "stuck c s \<Longrightarrow> ?thesis" by (simp add: stuck_def)
next
  case (Watch_Fires hv)
  assume "stuck c s"
  from sx_alwaysD [OF still_watch this, of hv tr] show ?thesis
    using Watch_Fires \<open>stuck c s\<close> by (auto simp: stuck_def pairing_def split: prod.split sum.split option.split)
next
  case (Sync_Works x)
  then show "stuck c s \<Longrightarrow> ?thesis" by (simp add: sx_alwaysD [OF still.sk_sync])
next
  case (Peer_Changes hv alive)
  then show "stuck c s \<Longrightarrow> ?thesis" by (simp add: on_peer_def stuck_def pairing_def)
qed (simp_all add: still_operators [THEN sx_alwaysD])

lemma stuck_run: "stuck c s \<Longrightarrow> Session_Stopped \<notin> set es \<Longrightarrow> stuck c (session_run tr es s)"
  unfolding session_run_def
proof (induction es arbitrary: s)
  case (Cons e es)
  from Cons.prems(2) have "e \<noteq> Session_Stopped" "Session_Stopped \<notin> set es" by auto
  with Cons.IH [OF stuck_step [OF Cons.prems(1), of e]] show ?case by simp
qed simp

text \<open>A small session, for the witnesses.\<close>

definition demo_prefs :: session_prefs where
  "demo_prefs = \<lparr>pf_token = ''t'', pf_replica_address = ''r'', pf_bind_address = [], pf_srt_url = [], pf_srt_port = 9998,
     pf_srt_latency_ms = 120, pf_viewer_port = 9998, pf_viewer_push = False, pf_enable_stream = True,
     pf_pixel_source = ''readback'', pf_path_mappings = [], pf_cache_root = []\<rparr>"

definition demo_session_env :: session_env where
  "demo_session_env = \<lparr>se_prefs = demo_prefs, se_agent_mode = False, se_agent_config = [], se_peer_addr = [],
     se_repr = (\<lambda>_. []), se_float = (\<lambda>_. Inl TypeError), se_num = (\<lambda>_. JFloat ''0.0''), se_sha256 = (\<lambda>_. ''h''),
     se_platform = ''darwin'', se_addon = ''1'', se_blender = ''5''\<rparr>"

definition demo_view :: "host_files \<Rightarrow> host_view" where
  "demo_view files = \<lparr>hv_session = demo_session_env, hv_files = files, hv_status = [], hv_link_up = True, hv_cm = None,
     hv_new_epoch = ''e2'', hv_card_write = (\<lambda>_. Inr ''c''), hv_colour_rows = (\<lambda>_ _. []), hv_row_json = (\<lambda>_. JNull),
     hv_note_text = (\<lambda>_. []), hv_formats = \<lparr>fm_g4 = (\<lambda>_. []), fm_g3 = (\<lambda>_. []), fm_f5 = (\<lambda>_. [])\<rparr>, hv_host_name = []\<rparr>"

definition demo_sync :: "unit host_sync" where
  "demo_sync = host_empty () \<lparr>sw_stamps = [], sw_registry = rg_init, sw_minted = 0\<rparr>"

text \<open>A transport on which every request is answered by one reply.\<close>

definition answering :: "header \<Rightarrow> unit transport" where
  "answering reply = (wire_taking True)\<lparr>tp_request_nowait := Some (\<lambda>_ t. (Inr 1, t)), tp_poll_reply := (\<lambda>_ t. (Some reply, t))\<rparr>"

definition demo_before :: "unit session_host" where
  "demo_before = \<lparr>sh_on = False, sh_sync = demo_sync, sh_epoch = [], sh_peer_epoch = JNull, sh_note = Note_Off, sh_req = None,
     sh_sent_at = 0, sh_armed = False, sh_timers = 0, sh_watching = False, sh_lost = False, sh_reconnect = False,
     sh_peer_addon = JNull, sh_peer_caps = [], sh_peer_cm = JObj [], sh_peer_stream = JObj [], sh_cm = [],
     sh_mismatches = [], sh_shot = False, sh_policy = rp_init 10 1, sh_cm_at = 0, sh_mappings = [], sh_address_error = [],
     sh_fast_resyncs = 0, sh_auto_resyncs = 0, sh_delta_resyncs = 0, sh_card_path = [], sh_card_digest = [],
     sh_card_error = [], sh_agent_out = []\<rparr>"

definition demo_started :: "unit session_host" where
  "demo_started = snd (start_host (demo_view plain_env) ''e'' [] demo_sync demo_before)"

lemma demo_start: "start_host (demo_view plain_env) ''e'' [] demo_sync demo_before = (Inr (), demo_started)"
  by (simp add: demo_started_def start_host_def effective_mappings_def demo_view_def demo_session_env_def)

text \<open>The file cannot be written.\<close>

definition full_disk :: host_files where
  "full_disk = plain_env\<lparr>he_mainfile := (\<lambda>_. Inl OSError)\<rparr>"

definition demo_asked :: "unit session_host" where
  "demo_asked = demo_started\<lparr>sh_req := Some 1\<rparr>"

lemmas demo_defs = demo_asked_def demo_started_def start_host_def effective_mappings_def demo_view_def
  demo_session_env_def demo_prefs_def push_paths_def arm_handshake_def demo_before_def demo_sync_def note_or_def

lemma demo_raises: "\<exists>s1. handshake (demo_view full_disk) (answering [(''ok'', JBool True)]) demo_asked = (Inl OSError, s1)"
  by (simp add: demo_defs handshake_def handshake_accept_def handshake_body_def adopt_row_def adopt_pair_row_def
      shared_root_card_def or_empty_def get_or_def get_true_def truthy_def json_true_def py_str_def sh_recompute_def
      mismatches_def as_list_def policy_reset_def on_sync_def send_bootstrap_def full_disk_def plain_env_def
      hy_poll_reply_def answering_def wire_taking_def sx_defs Let_def or_obj_def obj_of_def blend_compress_def host_empty_def)

theorem one_handshake_timer_witness:
  "sh_timers (session_run (answering []) [Watch_Fires (demo_view plain_env)] demo_started)
     \<le> of_bool (sh_armed (session_run (answering []) [Watch_Fires (demo_view plain_env)] demo_started))"
  using one_handshake_timer [OF demo_start] by blast

text \<open>C35: A handshake that raises (the file cannot be written, the reply is malformed) leaves the session armed
  without a timer. Until it is stopped nothing re-pairs it: no reconnect and no replica restart brings a new
  epoch, and no pong is answered with a repair, whatever it asks for.\<close>

theorem raised_handshake_strands:
  assumes "ready s" "sh_armed s" "handshake hv tr s = (Inl e, s1)" "Session_Stopped \<notin> set es"
  defines "s2 \<equiv> session_step tr (Handshake_Fires hv) s"
  shows "sh_armed (session_run tr es s2) \<and> sh_timers (session_run tr es s2) = 0
    \<and> pairing (session_run tr es s2) = pairing s1"
proof -
  have b: "in_handshake (1, True) s" "sh_on s" using assms(1,2) by (simp_all add: ready_def in_handshake_def)
  from handshake_outcome [OF b assms(3)] have "stuck (pairing s1) s2"
    using assms(1,2,3) by (auto simp: s2_def stuck_def ends_well_def ready_def pairing_def)
  from stuck_run [OF this assms(4), of tr] show ?thesis by (simp add: stuck_def)
qed

theorem raised_handshake_strands_witness:
  "sh_timers (session_run (answering [(''ok'', JBool True)]) [Watch_Fires (demo_view plain_env)]
     (session_step (answering [(''ok'', JBool True)]) (Handshake_Fires (demo_view full_disk)) demo_asked)) = 0"
proof -
  obtain s1 where "handshake (demo_view full_disk) (answering [(''ok'', JBool True)]) demo_asked = (Inl OSError, s1)"
    using demo_raises by blast
  moreover have "ready demo_asked" "sh_armed demo_asked"
    by (simp_all add: demo_defs ready_def)
  moreover have "Session_Stopped \<notin> set [Watch_Fires (demo_view plain_env)]" by simp
  ultimately show ?thesis using raised_handshake_strands by blast
qed

subsection \<open>A host and a replica pair\<close>

lemma rows_wire_roundtrip: "rows_from_wire py_repr (rows_to_wire ms) = ms"
  by (induction ms) (simp_all add: rows_from_wire_def rows_to_wire_def row_from_wire_def map_filter_simps py_str_def json_true_def)

lemma adopt_pair_row_total:
  assumes "config_rows_in env (get_or (se_agent_config env) ''path_mappings'' JNull) = Inr rows"
  shows "\<exists>f. adopt_pair_row env (shared_root_card env) (get_true (hello_now hv a s) ''shared_root'' (JObj [])) = Inr f"
  using assms
  by (auto simp: adopt_pair_row_def shared_root_card_def hello_now_def make_hello_def get_true_def truthy_def get_or_def
      Let_def obj_of_def json_true_def side_of_def item_def row_text_def)

text \<open>The fields of the host's hello that the replica reads.\<close>

lemma hello_fields:
  "get_or (hello_now hv a s) ''kind'' d = JStr ''hello''" "get_or (hello_now hv a s) ''epoch'' d = JStr (sh_epoch s)"
  "get_or (hello_now hv a s) ''seq'' d = JInt (hy_seq (sh_sync s))"
  "get_or (hello_now hv a s) ''seq_fast'' d = JInt (hy_seq_fast (sh_sync s))"
  "get_or (hello_now hv a s) ''mappings'' d = JList (rows_to_wire (sh_mappings s))"
  "get_true (hello_now hv a s) ''cm'' (JObj []) = JObj (sh_cm s)"
  "get_true (hello_now hv a s) ''viewer'' d = JObj (viewer_block (se_prefs (hv_session hv)))"
  by (simp_all add: hello_now_def make_hello_def get_or_def get_true_def truthy_def Let_def json_true_def viewer_block_def)

lemma int_or_zero_int [simp]: "int_or_zero (JInt n) = Inr n"
  by (simp add: int_or_zero_def json_true_def py_int_def)

lemma config_rows_wire: "config_rows_in env (JList (rows_to_wire ms)) = Inr ms"
  by (simp add: config_rows_in_def as_list_def rows_wire_roundtrip json_true_def rows_to_wire_def)
    (simp add: rows_wire_roundtrip [unfolded rows_to_wire_def])

lemma check_hello_now: "ascii a \<Longrightarrow> ascii b \<Longrightarrow>
    check_hello py_repr (hello_now hv a s) b = (if a = b then Inr (True, []) else Inr (False, ''token mismatch''))"
  by (simp add: hello_now_def Let_def check_hello_def make_hello_def compare_digest_ascii py_str_def json_eq_int_def)

lemma handle_new_session_merger:
  "ry_merger (snd (handle_new_session y)) = primed (ry_new_session_seqs y) (ry_merger y)"
  by (simp add: handle_new_session_def on_stats_def refresh_gap_stats_def sx_defs Let_def)

text \<open>What an accepted hello leaves in the replica.\<close>

definition paired :: "'t session_host \<Rightarrow> ('w, 'r) session_replica \<Rightarrow> ('w, 'r) session_replica \<Rightarrow> bool" where
  "paired s r r' \<longleftrightarrow> sr_peer_epoch r' = JStr (sh_epoch s) \<and> sr_epoch r' = sr_epoch r
     \<and> ry_mappings (sr_replica r') = merge_tables (sr_own_rows r) (sh_mappings s)
     \<and> (if sr_peer_epoch r = JStr (sh_epoch s) then ry_new_session (sr_replica r') = ry_new_session (sr_replica r)
        else ry_new_session (sr_replica r')
          \<and> ry_merger (snd (handle_new_session (sr_replica r')))
            = primed (hy_seq (sh_sync s), hy_seq_fast (sh_sync s)) (ry_merger (sr_replica r)))"

lemma hello_accept_pairs:
  assumes "config_rows_in env (get_or (se_agent_config env) ''path_mappings'' JNull) = Inr rows"
    and "mismatches (se_float env) (JObj (sh_cm s)) (JObj (sr_cm r)) = Inr ms"
  shows "\<exists>r'. hello_accept env (hello_now hv a s) r = (Inr (), r') \<and> paired s r r'"
proof -
  obtain f where f: "adopt_pair_row env (shared_root_card env) (get_true (hello_now hv a s) ''shared_root'' (JObj [])) = Inr f"
    using adopt_pair_row_total [OF assms(1), of hv a s] by blast
  show ?thesis
    using assms(2) f
    by (cases f) (simp_all add: hello_accept_def hello_mappings_def hello_session_def hello_viewer_def sr_recompute_def
        sr_adopt_row_def hello_fields config_rows_wire on_replica_def set_mappings_def notify_new_session_def as_dict_def
        sx_defs paired_def handle_new_session_merger Let_def)
qed


definition demo_rparams :: stream_params where
  "demo_rparams = \<lparr>sp_bitrate_mbps = 50, sp_width = 2560, sp_fps = 30, sp_working_space = JStr [], sp_working_to_xyz = None,
     sp_matrix = None, sp_working_assumed = False\<rparr>"

definition demo_sreplica :: "(unit, unit) session_replica" where
  "demo_sreplica = \<lparr>sr_on = True, sr_epoch = ''r'', sr_replica = replica_init () (), sr_own_rows = [], sr_peer_epoch = JNull,
     sr_peer_addon = JNull, sr_peer_cm = JObj [], sr_note = Rnote_Listening,
     sr_cm = [(''working'', JObj [(''name'', JStr ''W'')])], sr_mismatches = [], sr_host_mappings = 0, sr_viewer = [],
     sr_viewer_addr = [], sr_viewer_pending = False, sr_stream_info = [], sr_params = demo_rparams, sr_resolving = True,
     sr_jobs = [], sr_off_since = None, sr_kiosk_exits = 0, sr_agent_out = []\<rparr>"


subsection \<open>A restart asked for while ffmpeg is being resolved\<close>

lemma vec3_close_refl: "0 \<le> tol \<Longrightarrow> vec3_close tol v v"
  by (cases v) (simp add: vec3_close_def)

lemma mat3_close_refl: "0 \<le> tol \<Longrightarrow> mat3_close tol m m"
  by (cases m) (simp add: mat3_close_def vec3_close_refl)

lemma with_working_matrix: "with_working py_float w p = Inr q \<Longrightarrow> \<exists>m. sp_matrix q = Some m"
  by (auto simp: with_working_def err_bind_Inr simp del: split_paired_Ex split: if_splits)

lemma params_now_same: "params_now rv w = Inr q \<Longrightarrow> same_matrix q q"
  by (auto simp: params_now_def err_bind_Inr same_matrix_def mat3_close_refl dest!: with_working_matrix)

lemma start_pixel_path_effect:
  assumes "start_pixel_path rv restart s = (Inr (), s')"
  shows "sr_cm s' = sr_cm s \<and> sr_params s' = sr_params s \<and> sr_on s' = sr_on s
    \<and> (if sr_resolving s \<or> \<not> pf_enable_stream (se_prefs (rv_session rv)) then sr_jobs s' = sr_jobs s
       else \<exists>url key. sr_jobs s' = sr_jobs s @ [\<lparr>pj_url = url, pj_passphrase = key, pj_params = sr_params s,
              pj_source = pixel_source (se_prefs (rv_session rv)), pj_restart = restart\<rparr>])"
  using assms by (auto simp: start_pixel_path_def sx_defs Let_def split: if_splits sum.splits prod.splits)

text \<open>When Blender's working space has moved away from the one the encoder was given, the pixel path is
  restarted with the new matrix, unless a thread is still resolving ffmpeg: then the restart is refused, and
  since the new parameters are remembered as given no later check repeats it. The encoder keeps the old matrix.\<close>

theorem restart_lost_while_resolving:
  assumes "follow_working rv s = (Inr True, s1)"
  shows "(if sr_resolving s \<or> \<not> pf_enable_stream (se_prefs (rv_session rv)) then sr_jobs s1 = sr_jobs s
      else \<exists>url key. sr_jobs s1 = sr_jobs s @ [\<lparr>pj_url = url, pj_passphrase = key, pj_params = sr_params s1,
             pj_source = pixel_source (se_prefs (rv_session rv)), pj_restart = True\<rparr>])
    \<and> follow_working rv (pixel_resolved s1) = (Inr False, pixel_resolved s1)"
proof -
  obtain working new info s2 where w: "sr_on s" "obj_of (get_true (sr_cm s) ''working'' (JObj [])) = Inr working"
      "truthy working ''name''" and new: "params_now rv (JObj working) = Inr new"
    and s2: "s2 = s\<lparr>sr_params := new, sr_stream_info := info\<rparr>" and p: "start_pixel_path rv True s2 = (Inr (), s1)"
    using assms by (auto simp: follow_working_def sx_defs split: if_splits sum.splits prod.splits)
  note e = start_pixel_path_effect [OF p]
  have "follow_working rv (pixel_resolved s1) = (Inr False, pixel_resolved s1)"
    using w new e params_now_same [OF new] by (simp add: follow_working_def sx_defs pixel_resolved_def s2)
  with e show ?thesis by (auto simp: s2 split: if_splits)
qed

definition demo_renv :: replica_env where
  "demo_renv = \<lparr>re_now = 100, re_room = 1, re_over = (\<lambda>_. False), re_digest = (\<lambda>_. []), re_sha1 = (\<lambda>_. []), re_home = [],
     re_os = ''mac''\<rparr>"

definition demo_rv :: replica_view where
  "demo_rv = \<lparr>rv_session = demo_session_env, rv_now = 0, rv_cm = None, rv_pref = (\<lambda>_. None), rv_session_on = True,
     rv_kiosk_active = False, rv_replica = demo_renv, rv_pixel_status = ''off'', rv_readback = [], rv_last_error = [],
     rv_last_local_edit = [], rv_ffmpeg_note = []\<rparr>"

lemma demo_follows: "\<exists>s1. follow_working demo_rv demo_sreplica = (Inr True, s1)"
  by (simp add: follow_working_def demo_rv_def demo_sreplica_def demo_session_env_def demo_prefs_def demo_rparams_def sx_defs
      get_true_def truthy_def get_or_def json_true_def obj_of_def or_obj_def params_now_def from_prefs_def int_knob_def
      with_working_def py_int_def session_stream_def push_block_def start_pixel_path_def same_matrix_def Let_def)

theorem restart_lost_while_resolving_witness:
  "\<exists>s1. follow_working demo_rv demo_sreplica = (Inr True, s1) \<and> sr_jobs s1 = []
     \<and> follow_working demo_rv (pixel_resolved s1) = (Inr False, pixel_resolved s1)"
proof -
  obtain s1 where f: "follow_working demo_rv demo_sreplica = (Inr True, s1)" using demo_follows by blast
  have "sr_resolving demo_sreplica" "sr_jobs demo_sreplica = []" by (simp_all add: demo_sreplica_def)
  with restart_lost_while_resolving [OF f] f show ?thesis by auto
qed

text \<open>The same guard drops the re-aim at the host's viewer.\<close>

lemma aim_lost_while_resolving:
  assumes "aim_viewer rv s = (Inr (), s')" "sr_resolving s"
  shows "\<not> sr_viewer_pending s' \<and> sr_jobs s' = sr_jobs s"
  using assms by (auto simp: aim_viewer_def start_pixel_path_def sx_defs Let_def split: if_splits sum.splits prod.splits)

text \<open>A hello handled between \<open>transport.start()\<close> and \<open>replica_apply.start\<close>: its rows are overwritten.\<close>

lemma start_overwrites_rows:
  assumes "start_replica_rest ops rv s = (Inr (), s')" "effective_mappings (rv_session rv) = Inr rows"
  shows "ry_mappings (sr_replica s') = rows"
  using assms
  by (auto simp: start_replica_rest_def start_pixel_path_def on_replica_def replica_start_def on_stats_def
      rebuild_uuid_map_def quiet_def sx_defs Let_def split: if_splits sum.splits prod.splits)

subsection \<open>A handshake that succeeds\<close>

text \<open>What an accepted handshake leaves on the host, from the reply and the file written.\<close>

definition hosts_pairing :: "host_view \<Rightarrow> 't transport \<Rightarrow> header \<Rightarrow> 't host_sync \<Rightarrow> 't session_host \<Rightarrow> bool" where
  "hosts_pairing hv tr reply y s' \<longleftrightarrow> sh_note s' = Note_Connected \<and> sh_peer_epoch s' = get_or reply ''epoch'' JNull
     \<and> rp_served_for (sh_policy s') = (if hv_status hv = [] then None else Some (rp_state (hv_status hv)))
     \<and> (\<exists>data digest. he_mainfile (hv_files hv) (blend_compress tr) = Inr data
          \<and> hy_boot_outbox (sh_sync s') = boot_chunks (hy_sent_boot y) (hy_seq y) data (boot_meta (hv_files hv) digest)
          \<and> hy_boot_gen (sh_sync s') = int (hy_sent_boot y) \<and> \<not> hy_suppress_marks (sh_sync s'))"

lemma scene_digest_keeps:
  "sx_keeps (\<lambda>y. (hy_sent_boot y, hy_seq y, hy_boot_outbox y) = c) (scene_digest_now env)"
  unfolding scene_digest_now_def
  by (auto intro!: keeps_intros sx_keeps_mod split: option.split sum.split)

lemma send_bootstrap_effect:
  assumes "send_bootstrap env tr y = (Inr (), y')"
  shows "\<exists>data digest. he_mainfile env (blend_compress tr) = Inr data
    \<and> hy_boot_outbox y' = boot_chunks (hy_sent_boot y) (hy_seq y) data (boot_meta env digest)
    \<and> hy_boot_gen y' = int (hy_sent_boot y) \<and> \<not> hy_suppress_marks y'"
proof -
  obtain data digest y2 where d: "he_mainfile env (blend_compress tr) = Inr data"
    and g: "scene_digest_now env (y\<lparr>hy_boot_outbox := [], hy_boot_queued_at := he_now env,
        hy_last_bootstrap_bytes := length data\<rparr>) = (Inr digest, y2)"
    and y': "y' = queue_boot env data digest y2"
    using assms by (auto simp: send_bootstrap_def sx_defs split: sum.splits prod.splits)
  have "(hy_sent_boot y2, hy_seq y2, hy_boot_outbox y2) = (hy_sent_boot y, hy_seq y, [])"
    by (rule sx_keepsD [OF scene_digest_keeps _ g]) simp
  with d show ?thesis by (auto simp: y' queue_boot_def)
qed

lemma sx_ok_on_sync: "(\<And>x y'. m (sh_sync s) = (Inr x, y') \<Longrightarrow> Q x (s\<lparr>sh_sync := y'\<rparr>)) \<Longrightarrow> sx_ok Q (on_sync m) s"
  by (auto simp: sx_ok_def on_sync_def split: prod.split sum.split)

lemma pairing_card: "sx_keeps (hosts_pairing hv tr reply y) (viewer_card_refresh hv' force)"
  unfolding viewer_card_refresh_def Let_def
  by (intro keeps_intros sx_keeps_mod) (simp_all add: hosts_pairing_def)

lemma pairing_request: "sx_keeps (hosts_pairing hv tr reply y) (sh_request tr msg)"
proof (rule sx_keepsI)
  fix s x s' assume p: "hosts_pairing hv tr reply y s" and r: "sh_request tr msg s = (Inr x, s')"
  obtain t where "s' = s\<lparr>sh_sync := (sh_sync s)\<lparr>hy_wire := t\<rparr>\<rparr>"
    using r by (auto simp: sh_request_def on_sync_def hy_request_def split: option.splits prod.splits)
  with p show "hosts_pairing hv tr reply y s'" by (simp add: hosts_pairing_def)
qed

lemma body_pairs: "sx_ok (\<lambda>_. hosts_pairing hv tr reply (sh_sync s)) (handshake_body hv tr reply) s"
proof -
  have rest: "sx_ok (\<lambda>_. sx_ok (\<lambda>_ sa. sx_ok (\<lambda>_. hosts_pairing hv tr reply y) (sh_request tr (msg sa)) sa)
      (viewer_card_refresh hv False)) (on_sync (send_bootstrap (hv_files hv) tr)) s1"
    if "sh_note s1 = Note_Connected" "sh_peer_epoch s1 = get_or reply ''epoch'' JNull"
      "rp_served_for (sh_policy s1) = (if hv_status hv = [] then None else Some (rp_state (hv_status hv)))"
      "sh_sync s1 = y" for s1 y and msg :: "'a session_host \<Rightarrow> header"
  proof (rule sx_ok_on_sync)
    fix x y' assume "send_bootstrap (hv_files hv) tr (sh_sync s1) = (Inr x, y')"
    with send_bootstrap_effect [of "hv_files hv" tr "sh_sync s1" y'] that
    have "hosts_pairing hv tr reply y (s1\<lparr>sh_sync := y'\<rparr>)"
      by (simp add: hosts_pairing_def)
    from sx_keeps_okD [OF pairing_card this]
    show "sx_ok (\<lambda>_ sa. sx_ok (\<lambda>_. hosts_pairing hv tr reply y) (sh_request tr (msg sa)) sa)
      (viewer_card_refresh hv False) (s1\<lparr>sh_sync := y'\<rparr>)"
      by (rule sx_ok_mono) (rule sx_keeps_okD [OF pairing_request])
  qed
  show ?thesis
    unfolding handshake_body_def adopt_row_def sh_recompute_def
    by (auto simp: policy_reset_def rp_reset_def split: sum.split option.split intro!: rest)
qed

text \<open>C8: When a handshake ends without raising, the reply named the replica's epoch and the host is paired
  with it: the pong states known by then are not repaired again, and exactly one bootstrap is queued, the
  chunks of the file just written numbered from the lane's counter, with marks flowing again. While it does
  not end it stays armed.\<close>

theorem handshake_pairs_or_retries:
  assumes "ready s" "sh_armed s" "sh_req s = Some k" "handshake hv tr s = (res, s')"
  shows "if res = Inr None
    then \<not> sh_armed s' \<and> sh_req s' = None \<and> (\<exists>reply t. tp_poll_reply tr k (hy_wire (sh_sync s)) = (Some reply, t)
        \<and> truthy reply ''ok'' \<and> hosts_pairing hv tr reply (sh_sync s) s')
    else sh_armed s'"
proof -
  have b: "in_handshake (1, True) s" "sh_on s" using assms(1,2) by (simp_all add: ready_def in_handshake_def)
  have a: "sh_armed s' \<longleftrightarrow> res \<noteq> Inr None" using handshake_outcome [OF b assms(4)] by (simp add: ends_well_def)
  show ?thesis
  proof (cases "res = Inr None")
    case True
    obtain reply t where p: "tp_poll_reply tr k (hy_wire (sh_sync s)) = (reply, t)" by fastforce
    let ?s1 = "s\<lparr>sh_sync := (sh_sync s)\<lparr>hy_wire := t\<rparr>\<rparr>"
    have poll: "on_sync (hy_poll_reply tr k) s = (Inr reply, ?s1)" by (simp add: on_sync_def hy_poll_reply_def p)
    obtain r where r: "reply = Some r" "truthy r ''ok''" and h: "handshake_accept hv tr r ?s1 = (Inr None, s')"
      using assms(3,4) b(2) True poll
      by (auto simp: handshake_def sx_read_def sx_bind_def sx_seq_def sx_return_def dest: sends_later(2)
          split: option.splits if_splits prod.splits sum.splits)
    obtain s2 where s2: "handshake_body hv tr r ?s1 = (Inr (), s2)" "s' = s2\<lparr>sh_req := None, sh_armed := False\<rparr>"
      using h by (auto simp: handshake_accept_def sx_defs split: prod.splits sum.splits)
    have "hosts_pairing hv tr r (sh_sync ?s1) s2"
      using body_pairs [of hv tr r ?s1] s2(1) by (simp add: sx_ok_def)
    then have "hosts_pairing hv tr r (sh_sync s) s'" by (simp add: hosts_pairing_def s2(2))
    with True r p a s2(2) show ?thesis by auto
  qed (use a in simp)
qed

definition demo_answer :: header where
  "demo_answer = [(''ok'', JBool True), (''epoch'', JStr ''r'')]"

lemma demo_pairs: "\<exists>s1. handshake (demo_view plain_env) (answering demo_answer) demo_asked = (Inr None, s1)"
  by (simp add: demo_defs demo_answer_def handshake_def handshake_accept_def handshake_body_def adopt_row_def adopt_pair_row_def
      shared_root_card_def or_empty_def get_or_def get_true_def truthy_def json_true_def py_str_def sh_recompute_def
      mismatches_def as_list_def policy_reset_def on_sync_def send_bootstrap_def plain_env_def scene_digest_now_def
      hy_poll_reply_def hy_request_def sh_request_def viewer_card_refresh_def
      answering_def wire_taking_def sx_defs Let_def or_obj_def obj_of_def blend_compress_def host_empty_def)

theorem handshake_pairs_or_retries_witness:
  "\<exists>s1. handshake (demo_view plain_env) (answering demo_answer) demo_asked = (Inr None, s1)
     \<and> sh_note s1 = Note_Connected \<and> sh_peer_epoch s1 = JStr ''r'' \<and> \<not> sh_armed s1"
proof -
  obtain s1 where h: "handshake (demo_view plain_env) (answering demo_answer) demo_asked = (Inr None, s1)"
    using demo_pairs by blast
  have "ready demo_asked" "sh_armed demo_asked" "sh_req demo_asked = Some 1" by (simp_all add: demo_defs ready_def)
  from handshake_pairs_or_retries [OF this h] h show ?thesis
    by (auto simp: hosts_pairing_def answering_def demo_answer_def get_or_def)
qed

end
