(* ===== verification/Pixel_Path.thy ===== *)
theory Pixel_Path
  imports Stream_Params
begin

text \<open>
  \<open>ring0/pixel_path.py\<close>: the command lines of the encode helper, the mux and the capture fallback, where the
  helper is found, and the supervisor of the two children. The file system and the platform are parameters; a
  round of the supervisor is given what the children did (\<open>children\<close>) and answers how long to wait before the
  next one. Logs, the reaper of a stuck ffmpeg and the threads that copy output are left out; the status texts,
  which use characters outside the model, are a datatype.
\<close>

definition RESTART_BACKOFF :: time where "RESTART_BACKOFF = 2"

definition WIRE_BSF :: string where
  "WIRE_BSF = ''hevc_metadata=colour_primaries=9:transfer_characteristics=16'' @
              '':matrix_coefficients=9:video_full_range_flag=0''"

subsection \<open>Finding the helper\<close>

record file_system =
  fs_isfile :: "string \<Rightarrow> bool"
  fs_mtime :: "string \<Rightarrow> real"
  fs_platform :: string
  fs_program_files :: string
  fs_join :: "string list \<Rightarrow> string"

definition helper_exe :: "file_system \<Rightarrow> string" where
  "helper_exe fs = (if fs_platform fs = ''win32'' then ''qcb-encode-win.exe'' else ''qcb-encode-mac'')"

definition installed_helper_paths :: "file_system \<Rightarrow> string list" where
  "installed_helper_paths fs =
     (if fs_platform fs = ''darwin''
      then [''/Applications/QCBridge/QCBridge Agent.app/Contents/MacOS/qcb-encode-mac'']
      else if fs_platform fs = ''win32'' then [fs_join fs [fs_program_files fs, ''QCBridge'', ''qcb-encode-win.exe'']]
      else [])"

text \<open>\<open>max(builds, key=os.path.getmtime)\<close>: the first of the newest.\<close>

fun freshest :: "(string \<Rightarrow> real) \<Rightarrow> string \<Rightarrow> string list \<Rightarrow> string" where
  "freshest mtime best [] = best"
| "freshest mtime best (p # ps) = freshest mtime (if mtime best < mtime p then p else best) ps"

definition newest_build :: "file_system \<Rightarrow> string list \<Rightarrow> string option" where
  "newest_build fs paths = (case filter (fs_isfile fs) paths of [] \<Rightarrow> None | b # bs \<Rightarrow> Some (freshest (fs_mtime fs) b bs))"

definition helper_builds :: "file_system \<Rightarrow> string \<Rightarrow> string list" where
  "helper_builds fs repo =
     map (\<lambda>prof. fs_join fs [repo, ''agent'', ''target'', prof, helper_exe fs]) [''release'', ''debug'']
     @ map (\<lambda>prof. fs_join fs [repo, ''agent'', ''encode-win'', ''target'', prof, helper_exe fs]) [''release'', ''debug'']"

definition find_encode_helper :: "file_system \<Rightarrow> string \<Rightarrow> string \<Rightarrow> string \<Rightarrow> string option" where
  "find_encode_helper fs explicit addon repo =
     (case find (\<lambda>c. c \<noteq> [] \<and> fs_isfile fs c) [explicit, fs_join fs [addon, ''bin'', helper_exe fs]] of
        Some c \<Rightarrow> Some c
      | None \<Rightarrow> (case newest_build fs (helper_builds fs repo) of
            Some b \<Rightarrow> Some b | None \<Rightarrow> find (fs_isfile fs) (installed_helper_paths fs)))"

subsection \<open>Command lines\<close>

definition with_passphrase :: "string \<Rightarrow> string \<Rightarrow> string" where
  "with_passphrase url passphrase =
     (if passphrase \<noteq> [] \<and> \<not> sublist ''passphrase='' url
      then url @ (if CHR ''?'' \<in> set url then ''&'' else ''?'') @ ''passphrase='' @ passphrase @ ''&pbkeylen=16''
      else url)"

definition build_mux :: "string \<Rightarrow> int \<Rightarrow> string \<Rightarrow> string \<Rightarrow> string list" where
  "build_mux ffmpeg fps srt_url passphrase =
     [ffmpeg, ''-hide_banner'', ''-loglevel'', ''warning'',
      ''-fflags'', ''nobuffer'', ''-probesize'', ''32'', ''-analyzeduration'', ''1'', ''-fpsprobesize'', ''0'',
      ''-use_wallclock_as_timestamps'', ''1'',
      ''-f'', ''hevc'', ''-framerate'', int_text fps, ''-i'', ''pipe:0'',
      ''-c'', ''copy'', ''-bsf:v'', WIRE_BSF, ''-fps_mode'', ''passthrough'', ''-flush_packets'', ''1'',
      ''-f'', ''mpegts'', with_passphrase srt_url passphrase]"

definition build_encode_pipeline :: "(real \<Rightarrow> string) \<Rightarrow> string \<Rightarrow> string \<Rightarrow> stream_params \<Rightarrow> string \<Rightarrow> string \<Rightarrow> string
    \<Rightarrow> string list \<times> string list" where
  "build_encode_pipeline show7g helper ffmpeg p ring srt_url passphrase =
     (helper_argv show7g helper ring p, build_mux ffmpeg (sp_fps p) srt_url passphrase)"

text \<open>\<open>None\<close>: there is no capture path for this platform, and \<open>build_command\<close> raises.\<close>

definition build_command :: "string \<Rightarrow> string \<Rightarrow> stream_params \<Rightarrow> string \<Rightarrow> string \<Rightarrow> string list option" where
  "build_command platform ffmpeg p srt_url passphrase =
     (let bitrate = int_text (sp_bitrate_mbps p) @ ''M''; fps = int_text (sp_fps p);
          tail = [''-f'', ''mpegts'', with_passphrase srt_url passphrase];
          front = [ffmpeg, ''-hide_banner'', ''-loglevel'', ''warning''] in
      if platform = ''win32'' then Some (front
        @ [''-filter_complex'', ''ddagrab=output_idx=0:framerate='' @ fps @ '':draw_mouse=0,hwdownload,format=bgra,format=p010le'',
           ''-c:v'', ''hevc_nvenc'', ''-profile:v'', ''main10'',
           ''-preset'', ''p4'', ''-tune'', ''ull'', ''-delay'', ''0'', ''-bf'', ''0'',
           ''-b:v'', bitrate, ''-g'', fps] @ tail)
      else if platform = ''darwin'' then Some (front
        @ [''-f'', ''avfoundation'', ''-capture_cursor'', ''0'', ''-framerate'', fps, ''-i'', ''Capture screen 0'',
           ''-c:v'', ''hevc_videotoolbox'', ''-profile:v'', ''main10'',
           ''-pix_fmt'', ''p010le'', ''-b:v'', bitrate, ''-g'', fps, ''-realtime'', ''1''] @ tail)
      else None)"

definition FATAL_OUTPUT :: "string list" where
  "FATAL_OUTPUT = [''Error muxing a packet'', ''Error writing trailer'', ''Error closing file'']"

definition is_fatal_output_line :: "string \<Rightarrow> bool" where
  "is_fatal_output_line line \<longleftrightarrow> list_ex (\<lambda>marker. sublist marker line) FATAL_OUTPUT"

text \<open>\<open>i = cmd.index("--matrix"); cmd[:i] + cmd[i + 2:]\<close>\<close>

fun strip_matrix :: "string list \<Rightarrow> string list" where
  "strip_matrix [] = []"
| "strip_matrix (a # as) = (if a = ''--matrix'' then drop 1 as else a # strip_matrix as)"

subsection \<open>The supervisor\<close>

datatype pixel_status = Px_Off | Px_Starting | Px_No_Helper | Px_Streaming | Px_Exited "int option" | Px_Spawn_Failed
  | Px_Waiting_Ring | Px_Readback | Px_Viewer_Connected | Px_Encoder_Spawn_Failed | Px_Outdated
  | Px_Ended "int option" "int option"

text \<open>What the thread runs: the capture in ffmpeg, or the helper and the mux.\<close>

datatype pixel_thread = Supervise "string list" | Supervise_Native string stream_params "string list"

record pixel_path =
  px_thread :: "pixel_thread option"
  px_alive :: bool
  px_stop :: bool
  px_status :: pixel_status
  px_source :: string
  px_ring :: "string option"
  px_outdated :: bool
  px_last_argv :: "string list"

definition pixel_init :: pixel_path where
  "pixel_init = \<lparr>px_thread = None, px_alive = False, px_stop = False, px_status = Px_Off, px_source = ''readback'',
     px_ring = None, px_outdated = False, px_last_argv = []\<rparr>"

datatype children = Spawn_Raises
  | Ran "int option" "int option" bool time bool

text \<open>
  \<open>Ran mux encoder mux_first up stopped\<close>: the exit codes, whether the mux left before the encoder, how
  long they ran, and whether \<open>stop\<close> ended the round. The result of a round
  is the time to wait before the next one, \<open>None\<close> when the thread ends.
\<close>

definition cap_cmd :: "(real \<Rightarrow> string) \<Rightarrow> string \<Rightarrow> stream_params \<Rightarrow> pixel_path \<Rightarrow> string list option" where
  "cap_cmd show7g helper p s = (case px_ring s of None \<Rightarrow> None
     | Some ring \<Rightarrow> if ring = [] then None else
         let argv = helper_argv show7g helper ring p
         in Some (if px_outdated s \<and> ''--matrix'' \<in> set argv then strip_matrix argv else argv))"

definition crash_wait :: "int option \<Rightarrow> bool \<Rightarrow> time" where
  "crash_wait encoder mux_first =
     (if encoder \<noteq> None \<and> encoder \<notin> {Some 0, Some 7, Some 8} \<and> \<not> mux_first then RESTART_BACKOFF / 4 else 0)"

definition native_round :: "(real \<Rightarrow> string) \<Rightarrow> string \<Rightarrow> stream_params \<Rightarrow> string list \<Rightarrow> children \<Rightarrow> pixel_path
    \<Rightarrow> time option \<times> pixel_path" where
  "native_round show7g helper p mux_cmd ch s =
     (if px_stop s then (None, s\<lparr>px_alive := False, px_status := Px_Off\<rparr>)
      else case cap_cmd show7g helper p s of
        None \<Rightarrow> (Some (RESTART_BACKOFF / 4), s\<lparr>px_status := Px_Waiting_Ring\<rparr>)
      | Some argv \<Rightarrow>
          let s1 = s\<lparr>px_last_argv := argv\<rparr> in
          (case ch of
             Spawn_Raises \<Rightarrow> (None, s1\<lparr>px_alive := False, px_status := Px_Encoder_Spawn_Failed\<rparr>)
           | Ran mux encoder mux_first up stopped \<Rightarrow>
               if stopped then (None, s1\<lparr>px_stop := True, px_alive := False, px_status := Px_Off\<rparr>)
               else if encoder = Some 2 \<and> up < 1 \<and> ''--matrix'' \<in> set argv \<and> \<not> px_outdated s
               then (Some 0, s1\<lparr>px_outdated := True, px_status := Px_Outdated\<rparr>)
               else (Some (crash_wait encoder mux_first), s1\<lparr>px_status := Px_Ended mux encoder\<rparr>)))"

text \<open>The status while a round runs.\<close>

definition running_status :: "string list \<Rightarrow> time \<Rightarrow> pixel_status" where
  "running_status mux_cmd up =
     (if list_ex (sublist ''mode=caller'') mux_cmd \<and> 5 < up then Px_Viewer_Connected else Px_Readback)"

definition supervise_round :: "children \<Rightarrow> pixel_path \<Rightarrow> time option \<times> pixel_path" where
  "supervise_round ch s =
     (if px_stop s then (None, s\<lparr>px_alive := False, px_status := Px_Off\<rparr>)
      else case ch of
        Spawn_Raises \<Rightarrow> (None, s\<lparr>px_alive := False, px_status := Px_Spawn_Failed\<rparr>)
      | Ran mux encoder mux_first up stopped \<Rightarrow>
          if stopped then (None, s\<lparr>px_stop := True, px_alive := False, px_status := Px_Off\<rparr>)
          else (Some RESTART_BACKOFF, s\<lparr>px_status := Px_Exited mux\<rparr>))"

definition pixel_round :: "(real \<Rightarrow> string) \<Rightarrow> children \<Rightarrow> pixel_path \<Rightarrow> time option \<times> pixel_path" where
  "pixel_round show7g ch s = (case px_thread s of
       Some (Supervise cmd) \<Rightarrow> supervise_round ch s
     | Some (Supervise_Native helper p mux_cmd) \<Rightarrow> native_round show7g helper p mux_cmd ch s
     | None \<Rightarrow> (None, s))"

text \<open>
  \<open>start\<close>: \<open>helper\<close> is what \<open>find_encode_helper\<close> answers. The flag \<open>outdated\<close> is the new thread's own.
  \<open>None\<close> is the exception of \<open>build_command\<close>, after the status has been set.
\<close>

definition pixel_start :: "string \<Rightarrow> string option \<Rightarrow> string \<Rightarrow> string \<Rightarrow> string \<Rightarrow> stream_params \<Rightarrow> string \<Rightarrow> string option
    \<Rightarrow> pixel_path \<Rightarrow> unit option \<times> pixel_path" where
  "pixel_start platform helper ffmpeg srt_url passphrase p source ring s =
     (if px_thread s \<noteq> None then (Some (), s)
      else let s1 = s\<lparr>px_stop := False, px_status := Px_Starting, px_ring := ring\<rparr> in
        if source = ''readback'' \<and> helper \<noteq> None
        then (Some (), s1\<lparr>px_source := source, px_outdated := False, px_alive := True,
               px_thread := Some (Supervise_Native (the helper) p (build_mux ffmpeg (sp_fps p) srt_url passphrase))\<rparr>)
        else let s2 = (if source = ''readback'' then s1\<lparr>px_status := Px_No_Helper, px_source := ''screen''\<rparr>
                       else s1\<lparr>px_source := source\<rparr>)
          in (case build_command platform ffmpeg p srt_url passphrase of
                None \<Rightarrow> (None, s2)
              | Some cmd \<Rightarrow> (Some (), s2\<lparr>px_alive := True, px_thread := Some (Supervise cmd)\<rparr>)))"

text \<open>\<open>stop\<close> joins the thread, whose last act is the status off unless it had already ended.\<close>

definition pixel_stop :: "pixel_path \<Rightarrow> pixel_path" where
  "pixel_stop s = s\<lparr>px_stop := True, px_thread := None, px_alive := False,
     px_status := (if px_alive s then Px_Off else px_status s)\<rparr>"

definition restart_ring :: "string \<Rightarrow> pixel_path \<Rightarrow> pixel_path" where
  "restart_ring ring s = s\<lparr>px_ring := Some ring\<rparr>"

subsection \<open>A life of the supervisor\<close>

text \<open>The rounds of the thread, and the rings the producer replaces between them.\<close>

datatype pixel_event = Px_Round children | Px_Regrow string

definition next_argv :: "(real \<Rightarrow> string) \<Rightarrow> pixel_path \<Rightarrow> string list option" where
  "next_argv g s = (if px_stop s \<or> \<not> px_alive s then None else case px_thread s of
       Some (Supervise_Native helper p mux_cmd) \<Rightarrow> cap_cmd g helper p s | _ \<Rightarrow> None)"

definition px_step :: "(real \<Rightarrow> string) \<Rightarrow> pixel_event \<Rightarrow> pixel_path \<Rightarrow> time \<times> pixel_path" where
  "px_step g e s = (case e of Px_Regrow ring \<Rightarrow> (0, restart_ring ring s)
     | Px_Round ch \<Rightarrow> if px_alive s then (case pixel_round g ch s of (w, s') \<Rightarrow> (case w of None \<Rightarrow> 0 | Some t \<Rightarrow> t, s'))
                      else (0, s))"

fun spawned :: "(real \<Rightarrow> string) \<Rightarrow> pixel_event list \<Rightarrow> pixel_path \<Rightarrow> string list list" where
  "spawned g [] s = []"
| "spawned g (e # es) s = (case e of Px_Regrow ring \<Rightarrow> [] | Px_Round ch \<Rightarrow> (case next_argv g s of None \<Rightarrow> [] | Some a \<Rightarrow> [a]))
     @ spawned g es (snd (px_step g e s))"

fun px_waited :: "(real \<Rightarrow> string) \<Rightarrow> pixel_event list \<Rightarrow> pixel_path \<Rightarrow> time" where
  "px_waited g [] s = 0"
| "px_waited g (e # es) s = fst (px_step g e s) + px_waited g es (snd (px_step g e s))"

text \<open>The helper died of itself: not stopped, not because the mux had left, not with a code that means a retired ring.\<close>

fun helper_crash :: "pixel_event \<Rightarrow> bool" where
  "helper_crash (Px_Round (Ran mux (Some n) False up False)) = (n \<notin> {0, 7, 8})"
| "helper_crash e = False"

fun helper_crashes :: "(real \<Rightarrow> string) \<Rightarrow> pixel_event list \<Rightarrow> pixel_path \<Rightarrow> nat" where
  "helper_crashes g [] s = 0"
| "helper_crashes g (e # es) s = of_bool (helper_crash e \<and> next_argv g s \<noteq> None) + helper_crashes g es (snd (px_step g e s))"

lemma strip_matrix_absent: "''--matrix'' \<notin> set as \<Longrightarrow> strip_matrix as = as"
  by (induction as) auto

lemma strip_matrix_append: "''--matrix'' \<notin> set as \<Longrightarrow> strip_matrix (as @ bs) = as @ strip_matrix bs"
  by (induction as) auto

lemma int_text_not_matrix: "int_text n \<noteq> ''--matrix''"
proof
  assume "int_text n = ''--matrix''"
  then have "scan_number ''--matrix'' = Some (JInt n, [])" using scan_number_int_text [of n] by simp
  then show False by (simp add: scan_number_def scan_sign_def scan_int_def is_digit_def)
qed

definition plain_argv :: "(real \<Rightarrow> string) \<Rightarrow> string \<Rightarrow> string \<Rightarrow> stream_params \<Rightarrow> string list" where
  "plain_argv g helper ring p = helper_argv g helper ring (p\<lparr>sp_matrix := None\<rparr>)"

lemma helper_argv_cases:
  assumes "helper \<noteq> ''--matrix''" "ring \<noteq> ''--matrix''"
  shows "''--matrix'' \<notin> set (plain_argv g helper ring p)"
    and "strip_matrix (helper_argv g helper ring p) = plain_argv g helper ring p"
    and "''--matrix'' \<in> set (helper_argv g helper ring p) \<longleftrightarrow> sp_matrix p \<noteq> None"
    and "sp_matrix p = None \<Longrightarrow> helper_argv g helper ring p = plain_argv g helper ring p"
proof -
  show absent: "''--matrix'' \<notin> set (plain_argv g helper ring p)"
    using assms int_text_not_matrix by (simp add: plain_argv_def helper_argv_def not_sym [OF int_text_not_matrix])
  have split: "helper_argv g helper ring p = plain_argv g helper ring p
      @ (case sp_matrix p of None \<Rightarrow> [] | Some m \<Rightarrow> [''--matrix'', matrix_arg g m])"
    by (simp add: plain_argv_def helper_argv_def)
  show "strip_matrix (helper_argv g helper ring p) = plain_argv g helper ring p"
    using absent unfolding split by (cases "sp_matrix p") (simp_all add: strip_matrix_absent strip_matrix_append)
  show "''--matrix'' \<in> set (helper_argv g helper ring p) \<longleftrightarrow> sp_matrix p \<noteq> None"
    using absent unfolding split by (cases "sp_matrix p") simp_all
  show "sp_matrix p = None \<Longrightarrow> helper_argv g helper ring p = plain_argv g helper ring p"
    unfolding split by simp
qed

lemmas px_step_defs = px_step_def pixel_round_def native_round_def supervise_round_def cap_cmd_def crash_wait_def
  restart_ring_def next_argv_def RESTART_BACKOFF_def

lemma px_step_keeps_thread: "px_thread (snd (px_step g e s)) = px_thread s"
  by (auto simp: px_step_defs Let_def split: pixel_event.splits children.splits option.splits pixel_thread.splits if_splits)

lemma px_step_outdated: "px_outdated s \<Longrightarrow> px_outdated (snd (px_step g e s))"
  by (auto simp: px_step_defs Let_def split: pixel_event.splits children.splits option.splits pixel_thread.splits if_splits)

lemma px_step_ring: "px_ring (snd (px_step g e s)) = (case e of Px_Regrow ring \<Rightarrow> Some ring | Px_Round ch \<Rightarrow> px_ring s)"
  by (auto simp: px_step_defs Let_def split: pixel_event.splits children.splits option.splits pixel_thread.splits if_splits)

lemma px_step_waits: "0 \<le> fst (px_step g e s)"
  by (auto simp: px_step_defs Let_def split: pixel_event.splits children.splits option.splits pixel_thread.splits if_splits)

lemma px_step_crash:
  "of_bool (helper_crash e \<and> next_argv g s \<noteq> None) + of_bool (\<not> px_outdated (snd (px_step g e s)))
     \<le> 2 * fst (px_step g e s) + (of_bool (\<not> px_outdated s) :: real)"
proof (cases "helper_crash e \<and> next_argv g s \<noteq> None")
  case False
  then show ?thesis using px_step_waits [of g e s] px_step_outdated [of s g e] by (auto simp: of_bool_def)
next
  case True
  then obtain mux n up where e: "e = Px_Round (Ran mux (Some n) False up False)" "n \<noteq> 0" "n \<noteq> 7" "n \<noteq> 8"
    by (cases e rule: helper_crash.cases) auto
  show ?thesis using True unfolding e(1)
    by (auto simp: px_step_defs e Let_def split: option.splits pixel_thread.splits if_splits)
qed

text \<open>A crash loop of the encode helper does not spin: however the rounds and the regrown rings follow each
  other, \<open>n\<close> crashes of the helper make the supervisor wait at least \<open>(n - 1) / 2\<close> seconds between spawns; the one
  that may be free is the first quick exit of a helper that does not know \<open>--matrix\<close>.\<close>

theorem helper_crash_loop_is_paced:
  "real (helper_crashes show7g events s) \<le> 2 * px_waited show7g events s + of_bool (\<not> px_outdated s)"
proof (induction events arbitrary: s)
  case Nil
  show ?case by simp
next
  case (Cons e events)
  show ?case using Cons.IH [of "snd (px_step show7g e s)"] px_step_crash [of e show7g s] by simp
qed

definition ring_text_ok :: "pixel_event list \<Rightarrow> pixel_path \<Rightarrow> bool" where
  "ring_text_ok es s \<longleftrightarrow> px_ring s \<noteq> Some ''--matrix'' \<and> Px_Regrow ''--matrix'' \<notin> set es"

lemma ring_text_ok_step: "ring_text_ok (e # es) s \<Longrightarrow> ring_text_ok es (snd (px_step g e s))"
  by (auto simp: ring_text_ok_def px_step_ring split: pixel_event.splits)

lemma next_argv_native:
  assumes "px_thread s = Some (Supervise_Native helper p mux_cmd)" "next_argv g s = Some a"
  shows "\<exists>ring. px_ring s = Some ring
     \<and> a = (if px_outdated s \<and> ''--matrix'' \<in> set (helper_argv g helper ring p)
            then strip_matrix (helper_argv g helper ring p) else helper_argv g helper ring p)"
  using assms by (auto simp: next_argv_def cap_cmd_def Let_def split: option.splits if_splits)

lemma outdated_spawns_plain:
  assumes "px_thread s = Some (Supervise_Native helper p mux_cmd)" "helper \<noteq> ''--matrix''"
    "px_outdated s" "ring_text_ok es s" "a \<in> set (spawned g es s)"
  shows "\<exists>ring. ring \<noteq> ''--matrix'' \<and> a = plain_argv g helper ring p"
  using assms
proof (induction es arbitrary: s)
  case Nil
  then show ?case by simp
next
  case (Cons e es)
  let ?s = "snd (px_step g e s)"
  show ?case
  proof (cases "a \<in> set (spawned g es ?s)")
    case True
    show ?thesis
      by (rule Cons.IH [OF _ Cons.prems(2) px_step_outdated [OF Cons.prems(3)] ring_text_ok_step [OF Cons.prems(4)] True])
        (simp add: px_step_keeps_thread Cons.prems(1))
  next
    case False
    then have "next_argv g s = Some a" using Cons.prems(5) by (auto split: pixel_event.splits option.splits)
    then obtain ring where r: "px_ring s = Some ring" "a = (if px_outdated s \<and> ''--matrix'' \<in> set (helper_argv g helper ring p)
            then strip_matrix (helper_argv g helper ring p) else helper_argv g helper ring p)"
      using next_argv_native [OF Cons.prems(1)] by blast
    have "ring \<noteq> ''--matrix''" using Cons.prems(4) r(1) by (auto simp: ring_text_ok_def)
    then show ?thesis using r(2) Cons.prems(2,3) helper_argv_cases [where helper = helper and ring = ring and p = p and g = g] by (cases "sp_matrix p = None") auto
  qed
qed

text \<open>A helper from before the working-space matrix exits at once with code 2. The supervisor then respawns it
  without waiting, and from there on, whatever happens and however often the ring is replaced, only with the
  command line that leaves \<open>--matrix\<close> and its value out: exactly the one of a stream without a matrix.\<close>

theorem outdated_helper_loses_matrix:
  assumes "px_thread s = Some (Supervise_Native helper p mux_cmd)" "helper \<noteq> ''--matrix''"
    and "next_argv show7g s = Some argv" "''--matrix'' \<in> set argv" "up < 1" "ring_text_ok events s"
  shows "case px_step show7g (Px_Round (Ran mux (Some 2) mux_first up False)) s of (wait, s') \<Rightarrow>
     wait = 0 \<and> px_status s' = Px_Outdated
     \<and> list_all (\<lambda>a. \<exists>ring. a = plain_argv show7g helper ring p) (spawned show7g events s')"
proof -
  let ?e = "Px_Round (Ran mux (Some 2) mux_first up False)"
  let ?s = "snd (px_step show7g ?e s)"
  obtain ring where r: "px_ring s = Some ring" "argv = (if px_outdated s \<and> ''--matrix'' \<in> set (helper_argv show7g helper ring p)
            then strip_matrix (helper_argv show7g helper ring p) else helper_argv show7g helper ring p)"
    using next_argv_native [OF assms(1,3)] by blast
  have "ring \<noteq> ''--matrix''" using assms(6) r(1) by (auto simp: ring_text_ok_def)
  then have "\<not> px_outdated s" using r(2) assms(2,4) helper_argv_cases [where helper = helper and ring = ring and p = p and g = show7g] by auto
  then have now: "fst (px_step show7g ?e s) = 0" "px_status ?s = Px_Outdated" "px_outdated ?s"
    using assms by (auto simp: px_step_defs Let_def split: if_splits option.splits)
  have ok: "ring_text_ok events ?s" by (rule ring_text_ok_step) (use assms(6) in \<open>simp add: ring_text_ok_def\<close>)
  have th: "px_thread ?s = Some (Supervise_Native helper p mux_cmd)" by (simp add: px_step_keeps_thread assms(1))
  have "list_all (\<lambda>a. \<exists>ring. a = plain_argv show7g helper ring p) (spawned show7g events ?s)"
    using outdated_spawns_plain [OF th assms(2) now(3) ok] by (auto simp: list_all_iff)
  with now show ?thesis by (simp add: split_beta)
qed

definition spawns_now :: "(real \<Rightarrow> string) \<Rightarrow> pixel_path \<Rightarrow> bool" where
  "spawns_now g s \<longleftrightarrow> px_alive s \<and> \<not> px_stop s \<and> (case px_thread s of None \<Rightarrow> False | Some (Supervise cmd) \<Rightarrow> True
     | Some (Supervise_Native helper p mux_cmd) \<Rightarrow> cap_cmd g helper p s \<noteq> None)"

definition demo_params :: stream_params where
  "demo_params = \<lparr>sp_bitrate_mbps = 40, sp_width = 1920, sp_fps = 24, sp_working_space = JNull, sp_working_to_xyz = None,
     sp_matrix = Some M_709_TO_2020, sp_working_assumed = False\<rparr>"

definition demo_px :: pixel_path where
  "demo_px = pixel_init\<lparr>px_thread := Some (Supervise_Native ''enc'' demo_params []), px_alive := True,
     px_ring := Some ''r1''\<rparr>"

lemma outdated_helper_loses_matrix_witness:
  "case px_step (\<lambda>x. ''1'') (Px_Round (Ran None (Some 2) False 0 False)) demo_px of (wait, s') \<Rightarrow>
     wait = 0 \<and> px_status s' = Px_Outdated
     \<and> list_all (\<lambda>a. \<exists>ring. a = plain_argv (\<lambda>x. ''1'') ''enc'' ring demo_params)
          (spawned (\<lambda>x. ''1'') [Px_Regrow ''r2'', Px_Round Spawn_Raises] s')"
proof (rule outdated_helper_loses_matrix)
  show "px_thread demo_px = Some (Supervise_Native ''enc'' demo_params [])" by (simp add: demo_px_def)
  show "next_argv (\<lambda>x. ''1'') demo_px = Some (helper_argv (\<lambda>x. ''1'') ''enc'' ''r1'' demo_params)"
    by (simp add: next_argv_def demo_px_def pixel_init_def cap_cmd_def)
  show "''--matrix'' \<in> set (helper_argv (\<lambda>x. ''1'') ''enc'' ''r1'' demo_params)"
    by (simp add: helper_argv_cases(3) demo_params_def)
  show "ring_text_ok [Px_Regrow ''r2'', Px_Round Spawn_Raises] demo_px"
    by (simp add: ring_text_ok_def demo_px_def)
qed simp_all

text \<open>When a child cannot be spawned the supervising thread ends, and the module keeps the ended thread: every
  later \<open>start\<close>, with whatever paths and parameters, does nothing. Only a \<open>stop\<close> in between makes \<open>start\<close> run a
  supervisor again.\<close>

theorem dead_supervisor_blocks_start:
  assumes "spawns_now show7g s" "platform \<in> {''win32'', ''darwin''}"
  shows "case px_step show7g (Px_Round Spawn_Raises) s of (wait, dead) \<Rightarrow>
     \<not> px_alive dead
     \<and> pixel_start platform helper ffmpeg url passphrase p source ring dead = (Some (), dead)
     \<and> px_alive (snd (pixel_start platform helper ffmpeg url passphrase p source ring (pixel_stop dead)))"
proof -
  let ?dead = "snd (px_step show7g (Px_Round Spawn_Raises) s)"
  have th: "px_thread ?dead \<noteq> None"
    using assms(1) by (auto simp: px_step_keeps_thread spawns_now_def split: option.splits)
  moreover have "\<not> px_alive ?dead"
    using assms(1) by (auto simp: spawns_now_def px_step_defs Let_def split: option.splits pixel_thread.splits)
  moreover have "px_alive (snd (pixel_start platform helper ffmpeg url passphrase p source ring (pixel_stop ?dead)))"
    using assms(2) by (auto simp: pixel_start_def pixel_stop_def build_command_def Let_def)
  ultimately show ?thesis by (simp add: split_beta pixel_start_def)
qed

lemma dead_supervisor_blocks_start_witness:
  "case px_step (\<lambda>x. ''1'') (Px_Round Spawn_Raises) demo_px of (wait, dead) \<Rightarrow>
     \<not> px_alive dead
     \<and> pixel_start ''darwin'' None ''ffmpeg'' ''srt'' [] demo_params ''screen'' None dead = (Some (), dead)
     \<and> px_alive (snd (pixel_start ''darwin'' None ''ffmpeg'' ''srt'' [] demo_params ''screen'' None (pixel_stop dead)))"
  by (rule dead_supervisor_blocks_start) (simp_all add: spawns_now_def demo_px_def pixel_init_def cap_cmd_def Let_def)

end
