(* ===== verification/Viewport.thy ===== *)
theory Viewport
  imports Visview Replica_State
begin

text \<open>
  How the replica drives its viewport (\<open>ring0/replica_apply.py\<close>: \<open>_apply_hot\<close>, \<open>_service_shot\<close>, \<open>_apply_vis\<close>).
  A viewport is a record of the fields the code reads and writes, with a log of its writes: every RNA write
  restarts the render. Blender keeps a float as it can (\<open>ve_keep\<close>, a matrix \<open>ve_keep_matrix\<close>), and reads back what it
  kept. The camera's normalized inverse is the matrix the code compares with.
\<close>

datatype persp = V_Persp | V_Ortho | V_Camera

datatype view_write = W_Mode persp | W_Zoom | W_Offset | W_Matrix | W_Lens | W_Clip_Start | W_Clip_End
  | W_Frame int | W_Passepartout | W_Redraw

record viewport =
  v3_mode :: persp
  v3_matrix :: "real list list"
  v3_zoom :: real
  v3_offset :: "real \<times> real"
  v3_lens :: real
  v3_clip_start :: real
  v3_clip_end :: real
  v3_camera :: "real list list option"
  v3_passepartout :: "bool \<times> real"
  v3_frame :: int
  v3_last_frame :: time
  v3_log :: "view_write list"

record view_env =
  ve_now :: time
  ve_real :: "f32 \<Rightarrow> real"
  ve_keep :: "real \<Rightarrow> real"
  ve_keep_matrix :: "real list list \<Rightarrow> real list list"

definition FRAME_MIN_INTERVAL :: time where "FRAME_MIN_INTERVAL = 1 / 10"

definition VIEW_EPS :: real where "VIEW_EPS = 1 / 10 ^ 6"

text \<open>\<open>max(-30.0, min(600.0, z))\<close>\<close>

definition clamp_zoom :: "real \<Rightarrow> real" where
  "clamp_zoom z = max (- 30) (min 600 z)"

text \<open>The flag \<open>changed\<close> and the viewport; a write sets the flag.\<close>

type_synonym view_state = "bool \<times> viewport"

definition put_view :: "view_write \<Rightarrow> (viewport \<Rightarrow> viewport) \<Rightarrow> view_state \<Rightarrow> view_state" where
  "put_view w f s = (True, (f (snd s))\<lparr>v3_log := v3_log (snd s) @ [w]\<rparr>)"

definition put_if :: "(viewport \<Rightarrow> bool) \<Rightarrow> view_write \<Rightarrow> (viewport \<Rightarrow> viewport) \<Rightarrow> view_state \<Rightarrow> view_state" where
  "put_if b w f s = (if b (snd s) then put_view w f s else s)"

definition far :: "real \<Rightarrow> real \<Rightarrow> real \<Rightarrow> bool" where
  "far eps a b \<longleftrightarrow> \<bar>a - b\<bar> > eps"

text \<open>\<open>any(abs(a - b) > eps for ra, rb in zip(m, n) for a, b in zip(ra, rb))\<close>\<close>

definition rows_far :: "real \<Rightarrow> real list list \<Rightarrow> real list list \<Rightarrow> bool" where
  "rows_far eps m n \<longleftrightarrow> list_ex (\<lambda>(ra, rb). list_ex (\<lambda>(a, b). far eps a b) (zip ra rb)) (zip m n)"

definition camera_view_bound :: "real list list \<Rightarrow> viewport \<Rightarrow> bool" where
  "camera_view_bound expect v \<longleftrightarrow> \<not> rows_far (1 / 1000) (v3_matrix v) expect"

definition bind_camera :: "bool \<Rightarrow> view_state \<Rightarrow> view_state" where
  "bind_camera reassert s = (case v3_camera (snd s) of None \<Rightarrow> s
     | Some expect \<Rightarrow>
         if v3_mode (snd s) \<noteq> V_Camera then put_view (W_Mode V_Camera) (\<lambda>v. v\<lparr>v3_mode := V_Camera\<rparr>) s
         else if reassert \<and> \<not> camera_view_bound expect (snd s)
         then put_view (W_Mode V_Camera) (\<lambda>v. v\<lparr>v3_mode := V_Camera\<rparr>) (put_view (W_Mode V_Persp) (\<lambda>v. v\<lparr>v3_mode := V_Persp\<rparr>) s)
         else s)"

definition follow_camera :: "view_env \<Rightarrow> bool \<Rightarrow> real \<Rightarrow> hot_state \<Rightarrow> view_state \<Rightarrow> view_state" where
  "follow_camera env reassert zoom_offset h s =
     (let zoom = clamp_zoom (ve_real env (hs_cam_zoom h) + zoom_offset);
          ox = ve_real env (fst (hs_cam_offset h)); oy = ve_real env (snd (hs_cam_offset h));
          s1 = bind_camera reassert s;
          s2 = put_if (\<lambda>v. far VIEW_EPS (v3_zoom v) zoom) W_Zoom (\<lambda>v. v\<lparr>v3_zoom := ve_keep env zoom\<rparr>) s1
      in put_if (\<lambda>v. far VIEW_EPS (fst (v3_offset v)) ox \<or> far VIEW_EPS (snd (v3_offset v)) oy) W_Offset
           (\<lambda>v. v\<lparr>v3_offset := (ve_keep env ox, ve_keep env oy)\<rparr>) s2)"

text \<open>\<open>[state.view_matrix[i : i + 4] for i in range(0, 16, 4)]\<close>\<close>

definition matrix_rows :: "real list \<Rightarrow> real list list" where
  "matrix_rows xs = map (\<lambda>i. take 4 (drop (4 * i) xs)) [0..<4]"

definition follow_matrix :: "view_env \<Rightarrow> hot_state \<Rightarrow> view_state \<Rightarrow> view_state" where
  "follow_matrix env h s =
     (let m = matrix_rows (map (ve_real env) (hs_view_matrix h));
          mode = (if hs_is_persp h then V_Persp else V_Ortho)
      in put_if (\<lambda>v. v3_mode v \<noteq> mode) (W_Mode mode) (\<lambda>v. v\<lparr>v3_mode := mode\<rparr>)
           (put_if (\<lambda>v. rows_far VIEW_EPS (v3_matrix v) m) W_Matrix (\<lambda>v. v\<lparr>v3_matrix := ve_keep_matrix env m\<rparr>) s))"

definition follow_lens :: "view_env \<Rightarrow> hot_state \<Rightarrow> view_state \<Rightarrow> view_state" where
  "follow_lens env h s =
     (let eps = VIEW_EPS; lens = ve_real env (hs_lens h);
          cs = ve_real env (hs_clip_start h); ce = ve_real env (hs_clip_end h)
      in put_if (\<lambda>v. far eps (v3_clip_end v) ce) W_Clip_End (\<lambda>v. v\<lparr>v3_clip_end := ve_keep env ce\<rparr>)
        (put_if (\<lambda>v. far eps (v3_clip_start v) cs) W_Clip_Start (\<lambda>v. v\<lparr>v3_clip_start := ve_keep env cs\<rparr>)
        (put_if (\<lambda>v. far eps (v3_lens v) lens) W_Lens (\<lambda>v. v\<lparr>v3_lens := ve_keep env lens\<rparr>) s)))"

definition follow_frame :: "view_env \<Rightarrow> hot_state \<Rightarrow> view_state \<Rightarrow> view_state" where
  "follow_frame env h = put_if (\<lambda>v. hs_frame h \<noteq> v3_frame v \<and> ve_now env - v3_last_frame v \<ge> FRAME_MIN_INTERVAL)
     (W_Frame (hs_frame h)) (\<lambda>v. v\<lparr>v3_frame := hs_frame h, v3_last_frame := ve_now env\<rparr>)"

text \<open>\<open>_apply_hot\<close> once the packet is unpacked and a 3D view with a region is found.\<close>

definition follow_view :: "view_env \<Rightarrow> bool \<Rightarrow> bool \<Rightarrow> real \<Rightarrow> hot_state \<Rightarrow> viewport \<Rightarrow> viewport" where
  "follow_view env reassert shot zoom_offset h v =
     (if shot then snd (follow_frame env h (False, v))
      else let s1 = (if hs_camera h then follow_camera env reassert zoom_offset h (False, v) else follow_matrix env h (False, v));
               s3 = follow_frame env h (follow_lens env h s1)
           in if fst s3 then (snd s3)\<lparr>v3_log := v3_log (snd s3) @ [W_Redraw]\<rparr> else snd s3)"

definition hot_on_view :: "view_env \<Rightarrow> byte list \<Rightarrow> bool \<Rightarrow> bool \<Rightarrow> real \<Rightarrow> viewport \<Rightarrow> viewport" where
  "hot_on_view env packed reassert shot zoom_offset v =
     (case unpack_hot packed of None \<Rightarrow> v | Some h \<Rightarrow> follow_view env reassert shot zoom_offset h v)"

subsection \<open>What the re-assert writes\<close>

lemma put_if_idle: "\<not> b (snd s) \<Longrightarrow> put_if b w f s = s"
  by (simp add: put_if_def)

lemma put_if_fields:
  "v3_mode (snd (put_if b w f s)) = (if b (snd s) then v3_mode (f (snd s)) else v3_mode (snd s))"
  "v3_matrix (snd (put_if b w f s)) = (if b (snd s) then v3_matrix (f (snd s)) else v3_matrix (snd s))"
  "v3_zoom (snd (put_if b w f s)) = (if b (snd s) then v3_zoom (f (snd s)) else v3_zoom (snd s))"
  "v3_offset (snd (put_if b w f s)) = (if b (snd s) then v3_offset (f (snd s)) else v3_offset (snd s))"
  "v3_lens (snd (put_if b w f s)) = (if b (snd s) then v3_lens (f (snd s)) else v3_lens (snd s))"
  "v3_clip_start (snd (put_if b w f s)) = (if b (snd s) then v3_clip_start (f (snd s)) else v3_clip_start (snd s))"
  "v3_clip_end (snd (put_if b w f s)) = (if b (snd s) then v3_clip_end (f (snd s)) else v3_clip_end (snd s))"
  "v3_camera (snd (put_if b w f s)) = (if b (snd s) then v3_camera (f (snd s)) else v3_camera (snd s))"
  "v3_frame (snd (put_if b w f s)) = (if b (snd s) then v3_frame (f (snd s)) else v3_frame (snd s))"
  "v3_last_frame (snd (put_if b w f s)) = (if b (snd s) then v3_last_frame (f (snd s)) else v3_last_frame (snd s))"
  by (simp_all add: put_if_def put_view_def)

lemma bind_camera_fields:
  "v3_zoom (snd (bind_camera r s)) = v3_zoom (snd s)" "v3_offset (snd (bind_camera r s)) = v3_offset (snd s)"
  "v3_lens (snd (bind_camera r s)) = v3_lens (snd s)" "v3_clip_start (snd (bind_camera r s)) = v3_clip_start (snd s)"
  "v3_clip_end (snd (bind_camera r s)) = v3_clip_end (snd s)" "v3_camera (snd (bind_camera r s)) = v3_camera (snd s)"
  "v3_frame (snd (bind_camera r s)) = v3_frame (snd s)" "v3_last_frame (snd (bind_camera r s)) = v3_last_frame (snd s)"
  "v3_matrix (snd (bind_camera r s)) = v3_matrix (snd s)"
  "v3_mode (snd (bind_camera r s)) = (if v3_camera (snd s) = None then v3_mode (snd s) else V_Camera)"
  by (auto simp: bind_camera_def put_view_def split: option.splits)

lemmas follow_defs = follow_view_def follow_camera_def follow_matrix_def follow_lens_def follow_frame_def Let_def

text \<open>Every packet value is one that Blender keeps to within the tolerance of the comparison.\<close>

definition keeps_packet :: "view_env \<Rightarrow> real \<Rightarrow> hot_state \<Rightarrow> bool" where
  "keeps_packet env zoom_offset h \<longleftrightarrow>
     list_all (\<lambda>x. \<not> far VIEW_EPS (ve_keep env x) x)
       [clamp_zoom (ve_real env (hs_cam_zoom h) + zoom_offset), ve_real env (fst (hs_cam_offset h)),
        ve_real env (snd (hs_cam_offset h)), ve_real env (hs_lens h), ve_real env (hs_clip_start h), ve_real env (hs_clip_end h)]
     \<and> \<not> rows_far VIEW_EPS (ve_keep_matrix env (matrix_rows (map (ve_real env) (hs_view_matrix h))))
           (matrix_rows (map (ve_real env) (hs_view_matrix h)))"

text \<open>What a viewport that shows the packet satisfies.\<close>

definition shows_packet :: "view_env \<Rightarrow> real \<Rightarrow> hot_state \<Rightarrow> viewport \<Rightarrow> bool" where
  "shows_packet env zoom_offset h v \<longleftrightarrow>
     \<not> far VIEW_EPS (v3_lens v) (ve_real env (hs_lens h))
     \<and> \<not> far VIEW_EPS (v3_clip_start v) (ve_real env (hs_clip_start h))
     \<and> \<not> far VIEW_EPS (v3_clip_end v) (ve_real env (hs_clip_end h))
     \<and> v3_frame v = hs_frame h
     \<and> (if hs_camera h then
          (v3_camera v = None \<or> v3_mode v = V_Camera)
          \<and> \<not> far VIEW_EPS (v3_zoom v) (clamp_zoom (ve_real env (hs_cam_zoom h) + zoom_offset))
          \<and> \<not> far VIEW_EPS (fst (v3_offset v)) (ve_real env (fst (hs_cam_offset h)))
          \<and> \<not> far VIEW_EPS (snd (v3_offset v)) (ve_real env (snd (hs_cam_offset h)))
        else v3_mode v = (if hs_is_persp h then V_Persp else V_Ortho)
          \<and> \<not> rows_far VIEW_EPS (v3_matrix v) (matrix_rows (map (ve_real env) (hs_view_matrix h))))"

text \<open>A redraw binds the region to the camera it looks through.\<close>

definition redrawn :: "viewport \<Rightarrow> viewport" where
  "redrawn v = (case v3_camera v of Some expect \<Rightarrow> if v3_mode v = V_Camera then v\<lparr>v3_matrix := expect\<rparr> else v | None \<Rightarrow> v)"

lemma follow_lens_fields:
  "v3_lens (snd (follow_lens env h s)) = (if far VIEW_EPS (v3_lens (snd s)) (ve_real env (hs_lens h))
     then ve_keep env (ve_real env (hs_lens h)) else v3_lens (snd s))"
  "v3_clip_start (snd (follow_lens env h s)) = (if far VIEW_EPS (v3_clip_start (snd s)) (ve_real env (hs_clip_start h))
     then ve_keep env (ve_real env (hs_clip_start h)) else v3_clip_start (snd s))"
  "v3_clip_end (snd (follow_lens env h s)) = (if far VIEW_EPS (v3_clip_end (snd s)) (ve_real env (hs_clip_end h))
     then ve_keep env (ve_real env (hs_clip_end h)) else v3_clip_end (snd s))"
  "v3_mode (snd (follow_lens env h s)) = v3_mode (snd s)" "v3_matrix (snd (follow_lens env h s)) = v3_matrix (snd s)"
  "v3_zoom (snd (follow_lens env h s)) = v3_zoom (snd s)" "v3_offset (snd (follow_lens env h s)) = v3_offset (snd s)"
  "v3_camera (snd (follow_lens env h s)) = v3_camera (snd s)" "v3_frame (snd (follow_lens env h s)) = v3_frame (snd s)"
  "v3_last_frame (snd (follow_lens env h s)) = v3_last_frame (snd s)"
  by (simp_all add: follow_lens_def Let_def put_if_fields)

lemma follow_frame_fields:
  "v3_frame (snd (follow_frame env h s)) = (if hs_frame h \<noteq> v3_frame (snd s)
     \<and> ve_now env - v3_last_frame (snd s) \<ge> FRAME_MIN_INTERVAL then hs_frame h else v3_frame (snd s))"
  "v3_mode (snd (follow_frame env h s)) = v3_mode (snd s)" "v3_matrix (snd (follow_frame env h s)) = v3_matrix (snd s)"
  "v3_zoom (snd (follow_frame env h s)) = v3_zoom (snd s)" "v3_offset (snd (follow_frame env h s)) = v3_offset (snd s)"
  "v3_camera (snd (follow_frame env h s)) = v3_camera (snd s)" "v3_lens (snd (follow_frame env h s)) = v3_lens (snd s)"
  "v3_clip_start (snd (follow_frame env h s)) = v3_clip_start (snd s)"
  "v3_clip_end (snd (follow_frame env h s)) = v3_clip_end (snd s)"
  by (simp_all add: follow_frame_def put_if_fields)

lemma follow_camera_fields:
  "v3_zoom (snd (follow_camera env r zo h s)) = (let z = clamp_zoom (ve_real env (hs_cam_zoom h) + zo)
     in if far VIEW_EPS (v3_zoom (snd s)) z then ve_keep env z else v3_zoom (snd s))"
  "v3_offset (snd (follow_camera env r zo h s)) =
     (let ox = ve_real env (fst (hs_cam_offset h)); oy = ve_real env (snd (hs_cam_offset h))
      in if far VIEW_EPS (fst (v3_offset (snd s))) ox \<or> far VIEW_EPS (snd (v3_offset (snd s))) oy
         then (ve_keep env ox, ve_keep env oy) else v3_offset (snd s))"
  "v3_mode (snd (follow_camera env r zo h s)) = (if v3_camera (snd s) = None then v3_mode (snd s) else V_Camera)"
  "v3_camera (snd (follow_camera env r zo h s)) = v3_camera (snd s)" "v3_frame (snd (follow_camera env r zo h s)) = v3_frame (snd s)"
  "v3_last_frame (snd (follow_camera env r zo h s)) = v3_last_frame (snd s)"
  "v3_matrix (snd (follow_camera env r zo h s)) = v3_matrix (snd s)"
  by (simp_all add: follow_camera_def Let_def put_if_fields bind_camera_fields)

lemma follow_matrix_fields:
  "v3_mode (snd (follow_matrix env h s)) = (if hs_is_persp h then V_Persp else V_Ortho)"
  "v3_matrix (snd (follow_matrix env h s)) = (let m = matrix_rows (map (ve_real env) (hs_view_matrix h))
     in if rows_far VIEW_EPS (v3_matrix (snd s)) m then ve_keep_matrix env m else v3_matrix (snd s))"
  "v3_camera (snd (follow_matrix env h s)) = v3_camera (snd s)" "v3_frame (snd (follow_matrix env h s)) = v3_frame (snd s)"
  "v3_last_frame (snd (follow_matrix env h s)) = v3_last_frame (snd s)"
  by (simp_all add: follow_matrix_def Let_def put_if_fields)

lemmas follow_fields = follow_lens_fields follow_frame_fields follow_camera_fields follow_matrix_fields

definition followed :: "view_env \<Rightarrow> bool \<Rightarrow> real \<Rightarrow> hot_state \<Rightarrow> viewport \<Rightarrow> view_state" where
  "followed env r zo h v = follow_frame env h (follow_lens env h
     (if hs_camera h then follow_camera env r zo h (False, v) else follow_matrix env h (False, v)))"

lemma follow_view_followed: "follow_view env r False zo h v = (if fst (followed env r zo h v)
     then (snd (followed env r zo h v))\<lparr>v3_log := v3_log (snd (followed env r zo h v)) @ [W_Redraw]\<rparr>
     else snd (followed env r zo h v))"
  by (simp add: follow_view_def followed_def Let_def)

lemma shows_packet_log: "shows_packet env zo h (v\<lparr>v3_log := l\<rparr>) = shows_packet env zo h v"
  by (simp add: shows_packet_def)

lemma followed_shows:
  assumes "keeps_packet env zo h" "v3_frame v = hs_frame h \<or> ve_now env - v3_last_frame v \<ge> FRAME_MIN_INTERVAL"
  shows "shows_packet env zo h (snd (followed env r zo h v))"
  using assms by (cases "hs_camera h")
    (auto simp: shows_packet_def followed_def follow_fields keeps_packet_def Let_def)

lemma follow_view_shows:
  assumes "keeps_packet env zo h" "v3_frame v = hs_frame h \<or> ve_now env - v3_last_frame v \<ge> FRAME_MIN_INTERVAL"
  shows "shows_packet env zo h (follow_view env r False zo h v)"
  using followed_shows [OF assms] by (simp add: follow_view_followed shows_packet_log)

lemma rows_far_refl: "0 \<le> eps \<Longrightarrow> \<not> rows_far eps m m"
  by (auto simp: rows_far_def far_def list_ex_iff in_set_zip)

lemma shows_packet_redrawn: "shows_packet env zo h v \<Longrightarrow> shows_packet env zo h (redrawn v)"
  by (auto simp: shows_packet_def redrawn_def split: option.splits)

lemma redrawn_bound: "v3_camera v = Some e \<Longrightarrow> v3_mode v = V_Camera \<Longrightarrow> camera_view_bound e (redrawn v)"
  by (simp add: redrawn_def camera_view_bound_def rows_far_refl)

lemma bind_camera_idle: "v3_camera v = None \<or> v3_mode v = V_Camera \<Longrightarrow> bind_camera True (False, redrawn v) = (False, redrawn v)"
  using redrawn_bound [of v] by (auto simp: bind_camera_def redrawn_def split: option.splits)

lemma shown_packet_idle:
  assumes "shows_packet env zo h v"
  shows "follow_view env True False zo h (redrawn v) = redrawn v"
proof -
  note r = shows_packet_redrawn [OF assms]
  show ?thesis
  proof (cases "hs_camera h")
    case True
    then have b: "bind_camera True (False, redrawn v) = (False, redrawn v)"
      using assms by (intro bind_camera_idle) (simp add: shows_packet_def)
    show ?thesis using r True by (simp add: follow_defs b put_if_idle shows_packet_def)
  next
    case False
    then show ?thesis using r by (simp add: follow_defs put_if_idle shows_packet_def)
  qed
qed

text \<open>The one-second re-assert of a packet already shown leaves the viewport untouched: no value is written, the
  camera is not re-bound and nothing is redrawn, so a converged render is not restarted. It holds when Blender keeps
  the packet's values to within the tolerance of the comparison and the first time came at least a tenth of a second
  after the last frame change.\<close>

theorem reassert_writes_nothing:
  assumes "keeps_packet env zoom_offset h"
    and "v3_frame v = hs_frame h \<or> ve_now env - v3_last_frame v \<ge> FRAME_MIN_INTERVAL"
    and "ve_real later = ve_real env"
  shows "follow_view later True False zoom_offset h (redrawn (follow_view env again False zoom_offset h v))
         = redrawn (follow_view env again False zoom_offset h v)"
proof (rule shown_packet_idle)
  have "shows_packet env zoom_offset h (follow_view env again False zoom_offset h v)"
    by (rule follow_view_shows [OF assms(1,2)])
  then show "shows_packet later zoom_offset h (follow_view env again False zoom_offset h v)"
    unfolding shows_packet_def assms(3) .
qed

definition demo_hot :: hot_state where
  "demo_hot = \<lparr>hs_frame = 7, hs_view_matrix = replicate 16 0, hs_lens = 0, hs_clip_start = 0, hs_clip_end = 0, hs_is_persp = True,
     hs_hold = False, hs_camera = True, hs_cam_zoom = 0, hs_cam_offset = (0, 0), hs_t_host = 0, hs_probe_seq = 0\<rparr>"

definition demo_viewport :: viewport where
  "demo_viewport = \<lparr>v3_mode = V_Persp, v3_matrix = [], v3_zoom = 0, v3_offset = (0, 0), v3_lens = 35, v3_clip_start = 1,
     v3_clip_end = 100, v3_camera = Some [[1]], v3_passepartout = (True, 1), v3_frame = 1, v3_last_frame = 0, v3_log = []\<rparr>"

text \<open>A zoom between 32 and 64 as a single-precision number: a multiple of \<open>2 ^ -18\<close>.\<close>

definition demo_view_env :: view_env where
  "demo_view_env = \<lparr>ve_now = 5, ve_real = (\<lambda>_. 40), ve_keep = (\<lambda>x. of_int (round (x * 2 ^ 18)) / 2 ^ 18), ve_keep_matrix = (\<lambda>m. m)\<rparr>"

lemma reassert_writes_nothing_witness:
  "follow_view (demo_view_env\<lparr>ve_now := 6\<rparr>) True False 1 demo_hot
     (redrawn (follow_view demo_view_env False False 1 demo_hot demo_viewport))
   = redrawn (follow_view demo_view_env False False 1 demo_hot demo_viewport)"
proof (rule reassert_writes_nothing)
  show "keeps_packet demo_view_env 1 demo_hot"
    by (simp add: keeps_packet_def demo_view_env_def demo_hot_def clamp_zoom_def far_def VIEW_EPS_def rows_far_refl)
qed (simp_all add: demo_view_env_def demo_viewport_def FRAME_MIN_INTERVAL_def)

lemma put_if_log:
  "fst (put_if b w f s) = (b (snd s) \<or> fst s)"
  "count_list (v3_log (snd (put_if b w f s))) x = count_list (v3_log (snd s)) x + of_bool (b (snd s) \<and> w = x)"
  by (simp_all add: put_if_def put_view_def)

lemma bind_camera_log:
  "x = W_Zoom \<or> x = W_Redraw \<Longrightarrow> count_list (v3_log (snd (bind_camera r s))) x = count_list (v3_log (snd s)) x"
  by (auto simp: bind_camera_def put_view_def split: option.splits)

lemma redrawn_keeps: "v3_zoom (redrawn v) = v3_zoom v" "v3_log (redrawn v) = v3_log v"
  by (auto simp: redrawn_def split: option.splits)

lemma followed_zoom_log:
  assumes "hs_camera h" "far VIEW_EPS (v3_zoom v) (clamp_zoom (ve_real env (hs_cam_zoom h) + zo))"
  shows "count_list (v3_log (snd (followed env r zo h v))) W_Zoom = count_list (v3_log v) W_Zoom + 1"
    and "count_list (v3_log (snd (followed env r zo h v))) W_Redraw = count_list (v3_log v) W_Redraw"
    and "fst (followed env r zo h v)"
    and "v3_zoom (snd (followed env r zo h v)) = ve_keep env (clamp_zoom (ve_real env (hs_cam_zoom h) + zo))"
  using assms by (simp_all add: followed_def follow_frame_def follow_lens_def follow_camera_def Let_def put_if_log put_if_fields
      bind_camera_log bind_camera_fields)

lemma follow_view_zoom_log:
  assumes "hs_camera h" "far VIEW_EPS (v3_zoom v) (clamp_zoom (ve_real env (hs_cam_zoom h) + zo))" "x = W_Zoom \<or> x = W_Redraw"
  shows "count_list (v3_log (follow_view env r False zo h (redrawn v))) x = count_list (v3_log v) x + 1"
    and "v3_zoom (follow_view env r False zo h (redrawn v)) = ve_keep env (clamp_zoom (ve_real env (hs_cam_zoom h) + zo))"
  using assms followed_zoom_log [of h "redrawn v" env zo r] by (auto simp: follow_view_followed redrawn_keeps)

text \<open>When the host's camera zoom plus the remote nudge is a number that Blender's single precision only keeps to
  worse than the tolerance, the re-assert never finds the view right: each of any number of re-asserts writes the zoom
  again and redraws, although nothing has changed.\<close>

theorem nudged_zoom_rewritten:
  assumes "hs_camera h" "far VIEW_EPS (v3_zoom v) (clamp_zoom (ve_real env (hs_cam_zoom h) + nudge))"
    and "far VIEW_EPS (ve_keep env (clamp_zoom (ve_real env (hs_cam_zoom h) + nudge))) (clamp_zoom (ve_real env (hs_cam_zoom h) + nudge))"
    and "x \<in> {W_Zoom, W_Redraw}"
  shows "count_list (v3_log (((\<lambda>v. follow_view env True False nudge h (redrawn v)) ^^ n) v)) x = count_list (v3_log v) x + n"
proof -
  let ?z = "clamp_zoom (ve_real env (hs_cam_zoom h) + nudge)"
  let ?v = "\<lambda>n. ((\<lambda>v. follow_view env True False nudge h (redrawn v)) ^^ n) v"
  have "count_list (v3_log (?v n)) x = count_list (v3_log v) x + n \<and> far VIEW_EPS (v3_zoom (?v n)) ?z"
    using assms follow_view_zoom_log [of h _ env nudge] by (induction n) auto
  then show ?thesis ..
qed

lemma nudged_zoom_rewritten_witness:
  "count_list (v3_log (((\<lambda>v. follow_view demo_view_env True False (1 / 3) demo_hot (redrawn v)) ^^ 60) demo_viewport)) W_Zoom
   = count_list (v3_log demo_viewport) W_Zoom + 60"
proof (rule nudged_zoom_rewritten)
  have r: "round ((121 / 3) * 2 ^ 18 :: real) = 10573141"
    by (rule round_unique) simp_all
  show "far VIEW_EPS (ve_keep demo_view_env (clamp_zoom (ve_real demo_view_env (hs_cam_zoom demo_hot) + 1 / 3)))
      (clamp_zoom (ve_real demo_view_env (hs_cam_zoom demo_hot) + 1 / 3))"
    using r by (simp add: demo_view_env_def clamp_zoom_def far_def VIEW_EPS_def)
qed (simp_all add: demo_view_env_def demo_viewport_def demo_hot_def clamp_zoom_def far_def VIEW_EPS_def)

subsection \<open>Shot mode\<close>

definition zoom_to_fac :: "real \<Rightarrow> real" where
  "zoom_to_fac zoom = (sqrt 2 + zoom / 50) ^ 2 / 4"

definition fac_to_zoom :: "real \<Rightarrow> real" where
  "fac_to_zoom fac = (sqrt (4 * fac) - sqrt 2) * 50"

record shot =
  sh_on :: bool
  sh_fit_pending :: bool
  sh_measure_at :: time
  sh_fit_zoom :: "real option"
  sh_saved_pp :: "(bool \<times> real) option"
  sh_restore :: bool
  sh_fit_region :: "(real \<times> real) option"

text \<open>The projected corners of the camera frame; one that does not project makes the measure stale.\<close>

definition span :: "real list \<Rightarrow> real" where
  "span xs = (case xs of [] \<Rightarrow> 0 | x # xs' \<Rightarrow> fold max xs' x - fold min xs' x)"

definition camera_border :: "(real \<times> real) option list \<Rightarrow> real \<times> real \<Rightarrow> (real \<times> real \<times> real \<times> real) option" where
  "camera_border coords region =
     (if None \<in> set coords then None
      else let ps = map the coords in Some (span (map fst ps), span (map snd ps), fst region, snd region))"

definition restore_shot :: "shot \<Rightarrow> viewport \<Rightarrow> shot \<times> viewport" where
  "restore_shot sh v =
     (sh\<lparr>sh_restore := False, sh_saved_pp := None, sh_fit_zoom := None\<rparr>,
      case (v3_camera v, sh_saved_pp sh) of
        (Some _, Some pp) \<Rightarrow> v\<lparr>v3_passepartout := pp, v3_log := v3_log v @ [W_Passepartout]\<rparr>
      | _ \<Rightarrow> v)"

definition hold_passepartout :: "shot \<Rightarrow> viewport \<Rightarrow> shot \<times> viewport" where
  "hold_passepartout sh v =
     (if v3_camera v = None then (sh, v)
      else (sh\<lparr>sh_saved_pp := (if sh_saved_pp sh = None then Some (v3_passepartout v) else sh_saved_pp sh)\<rparr>,
            if \<not> fst (v3_passepartout v) \<or> snd (v3_passepartout v) < 1
            then v\<lparr>v3_passepartout := (True, 1), v3_log := v3_log v @ [W_Passepartout]\<rparr> else v))"

definition note_region :: "view_env \<Rightarrow> (real \<times> real) option \<Rightarrow> shot \<Rightarrow> shot" where
  "note_region env region sh =
     (if region = None \<or> region = sh_fit_region sh then sh
      else let sh1 = (if sh_fit_region sh \<noteq> None \<and> \<not> sh_fit_pending sh
                      then sh\<lparr>sh_fit_pending := True, sh_measure_at := ve_now env + 3 / 10\<rparr> else sh)
           in sh1\<lparr>sh_fit_region := region\<rparr>)"

definition measure_fit :: "view_env \<Rightarrow> real \<Rightarrow> (real \<times> real \<times> real \<times> real) option \<Rightarrow> shot \<times> viewport \<Rightarrow> shot \<times> viewport" where
  "measure_fit env stream_width border = (\<lambda>(sh, v).
     if sh_fit_pending sh \<and> ve_now env \<ge> sh_measure_at sh
     then (case border of Some (bw, bh, rw, rh) \<Rightarrow>
             if bw > 1 \<and> bh > 1
             then let fit = min (min (rw / bw) (rh / bh)) (stream_width / bw)
                  in (sh\<lparr>sh_fit_zoom := Some (clamp_zoom (fac_to_zoom (zoom_to_fac (v3_zoom v) * fit))),
                         sh_fit_pending := False\<rparr>, v)
             else (sh, v\<lparr>v3_log := v3_log v @ [W_Redraw]\<rparr>)
         | None \<Rightarrow> (sh, v\<lparr>v3_log := v3_log v @ [W_Redraw]\<rparr>))
     else (sh, v))"

definition hold_fit :: "view_env \<Rightarrow> real \<Rightarrow> shot \<times> viewport \<Rightarrow> shot \<times> viewport" where
  "hold_fit env zoom_offset = (\<lambda>(sh, v). case sh_fit_zoom sh of None \<Rightarrow> (sh, v)
     | Some fit \<Rightarrow>
         let target = clamp_zoom (fit + zoom_offset);
             v1 = (if \<bar>v3_zoom v - target\<bar> > 1 / 10 ^ 4
                   then v\<lparr>v3_zoom := ve_keep env target, v3_log := v3_log v @ [W_Zoom, W_Redraw]\<rparr> else v)
         in (sh, if v3_offset v1 \<noteq> (0, 0) then v1\<lparr>v3_offset := (0, 0), v3_log := v3_log v1 @ [W_Offset]\<rparr> else v1))"

definition service_shot :: "view_env \<Rightarrow> (real \<times> real) option \<Rightarrow> (real \<times> real \<times> real \<times> real) option \<Rightarrow> real \<Rightarrow> real
    \<Rightarrow> shot \<Rightarrow> viewport \<Rightarrow> shot \<times> viewport" where
  "service_shot env region border stream_width zoom_offset sh v =
     (if sh_restore sh then restore_shot sh v
      else if \<not> sh_on sh then (sh, v)
      else if v3_mode v \<noteq> V_Camera
      then (sh\<lparr>sh_measure_at := ve_now env + 3 / 10\<rparr>,
            v\<lparr>v3_mode := V_Camera, v3_log := v3_log v @ [W_Mode V_Camera, W_Redraw]\<rparr>)
      else (case hold_passepartout sh v of (sh1, v1) \<Rightarrow>
        hold_fit env zoom_offset (measure_fit env stream_width border (note_region env region sh1, v1))))"

lemma zoom_to_fac_inverse: "0 \<le> f \<Longrightarrow> zoom_to_fac (fac_to_zoom f) = f"
proof -
  assume f: "0 \<le> f"
  have "sqrt 2 + fac_to_zoom f / 50 = sqrt (4 * f)" unfolding fac_to_zoom_def by (simp add: field_simps)
  then show ?thesis using f by (simp add: zoom_to_fac_def)
qed

lemma fac_to_zoom_inverse: "- 50 * sqrt 2 \<le> z \<Longrightarrow> fac_to_zoom (zoom_to_fac z) = z"
proof -
  assume "- 50 * sqrt 2 \<le> z"
  then have "0 \<le> sqrt 2 + z / 50" by simp
  then show ?thesis by (simp add: zoom_to_fac_def fac_to_zoom_def)
qed

text \<open>C29: Once the camera frame of a shot can be measured, the fitted zoom makes the frame as large as it can be without
  leaving the region or exceeding the stream's width, so the stream's resolution is the frame's: one of the three limits is
  met exactly. The frame's size grows with the zoom factor, as it does in Blender, and the fitted zoom has to lie within
  Blender's range.\<close>

theorem shot_fits_stream:
  assumes "sh_on sh" "\<not> sh_restore sh" "v3_mode v = V_Camera" "sh_fit_pending sh" "sh_measure_at sh \<le> ve_now env"
    and "kw * zoom_to_fac (v3_zoom v) > 1" "kh * zoom_to_fac (v3_zoom v) > 1" "rw > 0" "rh > 0" "stream_width > 0"
    and "(case service_shot env (sh_fit_region sh)
           (Some (kw * zoom_to_fac (v3_zoom v), kh * zoom_to_fac (v3_zoom v), rw, rh)) stream_width nudge sh v of
         (sh', v') \<Rightarrow> sh_fit_zoom sh' = Some z)" "- 30 < z" "z < 600"
  shows "kw * zoom_to_fac z \<le> rw \<and> kh * zoom_to_fac z \<le> rh \<and> kw * zoom_to_fac z \<le> stream_width
     \<and> (kw * zoom_to_fac z = rw \<or> kh * zoom_to_fac z = rh \<or> kw * zoom_to_fac z = stream_width)"
proof -
  define f where "f = zoom_to_fac (v3_zoom v)"
  define fit where "fit = min (min (rw / (kw * f)) (rh / (kh * f))) (stream_width / (kw * f))"
  have f: "0 \<le> f" "kw * f > 1" "kh * f > 1" using assms(6,7) by (simp_all add: f_def zoom_to_fac_def)
  then have fp: "0 < f" by (cases "f = 0") auto
  have z: "z = clamp_zoom (fac_to_zoom (f * fit))"
    using assms(1-7,11) by (auto simp: service_shot_def hold_passepartout_def note_region_def measure_fit_def hold_fit_def
        f_def fit_def Let_def split: if_splits)
  have "z = fac_to_zoom (f * fit)" using z assms(12,13) by (auto simp: clamp_zoom_def min_def max_def split: if_splits)
  moreover have "0 \<le> f * fit" using f assms(8-10) by (simp add: fit_def)
  ultimately have fac: "zoom_to_fac z = f * fit" by (simp add: zoom_to_fac_inverse)
  have kp: "0 < kw" "0 < kh" using f fp by (auto simp: zero_less_mult_iff dest: less_trans [OF zero_less_one])
  have "kw * (f * (rw / (kw * f))) = rw" "kh * (f * (rh / (kh * f))) = rh" "kw * (f * (stream_width / (kw * f))) = stream_width"
    using kp fp by simp_all
  moreover have "kw * (f * fit) \<le> kw * (f * (rw / (kw * f)))" "kh * (f * fit) \<le> kh * (f * (rh / (kh * f)))"
    "kw * (f * fit) \<le> kw * (f * (stream_width / (kw * f)))"
    using kp fp by (auto intro!: mult_left_mono simp: fit_def simp del: times_divide_eq_right)
  moreover have "fit = rw / (kw * f) \<or> fit = rh / (kh * f) \<or> fit = stream_width / (kw * f)"
    by (auto simp: fit_def min_def)
  ultimately show ?thesis unfolding fac by auto
qed

definition demo_shot :: shot where
  "demo_shot = \<lparr>sh_on = True, sh_fit_pending = True, sh_measure_at = 1, sh_fit_zoom = None, sh_saved_pp = None,
     sh_restore = False, sh_fit_region = None\<rparr>"

lemma shot_fits_stream_witness:
  "2000 * zoom_to_fac ((sqrt 3 - sqrt 2) * 50) \<le> 2000 \<and> 1200 * zoom_to_fac ((sqrt 3 - sqrt 2) * 50) \<le> 1500
     \<and> 2000 * zoom_to_fac ((sqrt 3 - sqrt 2) * 50) \<le> 1500
     \<and> (2000 * zoom_to_fac ((sqrt 3 - sqrt 2) * 50) = 2000 \<or> 1200 * zoom_to_fac ((sqrt 3 - sqrt 2) * 50) = 1500
        \<or> 2000 * zoom_to_fac ((sqrt 3 - sqrt 2) * 50) = 1500)"
proof (rule shot_fits_stream [where sh = demo_shot and v = "demo_viewport\<lparr>v3_mode := V_Camera\<rparr>"
    and env = demo_view_env and kw = 2000 and kh = 1200 and rw = 2000 and rh = 1500 and stream_width = 1500 and nudge = 0])
  have half: "zoom_to_fac 0 = 1 / 2" by (simp add: zoom_to_fac_def)
  have z0: "v3_zoom (demo_viewport\<lparr>v3_mode := V_Camera\<rparr>) = 0" by (simp add: demo_viewport_def)
  show "2000 * zoom_to_fac (v3_zoom (demo_viewport\<lparr>v3_mode := V_Camera\<rparr>)) > 1"
    "1200 * zoom_to_fac (v3_zoom (demo_viewport\<lparr>v3_mode := V_Camera\<rparr>)) > 1" unfolding z0 half by simp_all
  have up: "sqrt 2 \<le> sqrt 3" "sqrt 3 \<le> 2" using real_sqrt_le_mono [of 3 4] by simp_all
  have pos: "0 \<le> sqrt (2::real)" by simp
  show b: "- 30 < (sqrt 3 - sqrt 2) * 50" "(sqrt 3 - sqrt 2) * 50 < 600" using up pos by (simp_all only: left_diff_distrib)
  have fz: "fac_to_zoom (3 / 4) = (sqrt 3 - sqrt 2) * 50" by (simp add: fac_to_zoom_def)
  have "clamp_zoom (fac_to_zoom (3 / 4)) = (sqrt 3 - sqrt 2) * 50" using b unfolding fz clamp_zoom_def by linarith
  then show "case service_shot demo_view_env (sh_fit_region demo_shot)
      (Some (2000 * zoom_to_fac (v3_zoom (demo_viewport\<lparr>v3_mode := V_Camera\<rparr>)),
             1200 * zoom_to_fac (v3_zoom (demo_viewport\<lparr>v3_mode := V_Camera\<rparr>)), 2000, 1500)) 1500 0 demo_shot
      (demo_viewport\<lparr>v3_mode := V_Camera\<rparr>) of (sh', v') \<Rightarrow> sh_fit_zoom sh' = Some ((sqrt 3 - sqrt 2) * 50)"
    unfolding z0 half
    by (simp add: service_shot_def demo_shot_def demo_viewport_def demo_view_env_def hold_passepartout_def note_region_def
        measure_fit_def hold_fit_def half Let_def)
qed (simp_all add: demo_shot_def demo_view_env_def)

subsection \<open>The layer collections\<close>

text \<open>
  A layer collection: its pointer, the collection it shows, excluded, hidden in viewports, hidden in the followed
  viewport by its own bit, its children.
\<close>

datatype layer = Layer (l_id: int) (l_coll: int) (l_exclude: bool) (l_hide: bool) (l_off: bool) (l_children: "layer list")

text \<open>\<open>_layer_collection_for\<close>\<close>

fun layer_for :: "int \<Rightarrow> layer \<Rightarrow> layer option" and layer_for_any :: "int \<Rightarrow> layer list \<Rightarrow> layer option" where
  "layer_for coll (Layer i c ex hi off ch) = (if c = coll then Some (Layer i c ex hi off ch) else layer_for_any coll ch)"
| "layer_for_any coll [] = None"
| "layer_for_any coll (l # ls) = (case layer_for coll l of Some f \<Rightarrow> Some f | None \<Rightarrow> layer_for_any coll ls)"

text \<open>\<open>_lc_flat_index\<close>: the counter is the variable \<open>walk\<close> shares.\<close>

fun flat_walk :: "int \<Rightarrow> nat \<Rightarrow> layer \<Rightarrow> nat option \<times> nat" and flat_walk_any :: "int \<Rightarrow> nat \<Rightarrow> layer list \<Rightarrow> nat option \<times> nat" where
  "flat_walk target i (Layer p c ex hi off ch) = (if p = target then (Some i, i) else flat_walk_any target i ch)"
| "flat_walk_any target i [] = (None, i)"
| "flat_walk_any target i (l # ls) = (case flat_walk target (i + 1) l of
     (Some k, j) \<Rightarrow> (Some k, j) | (None, j) \<Rightarrow> flat_walk_any target j ls)"

definition lc_flat_index :: "int \<Rightarrow> layer \<Rightarrow> nat option" where
  "lc_flat_index target root_layer = fst (flat_walk target 0 root_layer)"

text \<open>\<open>visible_get\<close>: neither the layer nor one above it is excluded or hidden.\<close>

fun visible_ids :: "layer \<Rightarrow> int list" where
  "visible_ids (Layer p c ex hi off ch) = (if ex \<or> hi \<or> off then [] else p # concat (map visible_ids ch))"

text \<open>
  \<open>hide_collection(collection_index=k, toggle=True)\<close> flips the own bit of the layer collection Blender counts to:
  depth first, the master collection being 0. The second component is what is left of the count.
\<close>

fun toggle_walk :: "nat \<Rightarrow> layer \<Rightarrow> layer \<times> nat option" and toggle_any :: "nat \<Rightarrow> layer list \<Rightarrow> layer list \<times> nat option" where
  "toggle_walk k (Layer p c ex hi off ch) = (if k = 0 then (Layer p c ex hi (\<not> off) ch, None)
     else (case toggle_any (k - 1) ch of (ch', left) \<Rightarrow> (Layer p c ex hi off ch', left)))"
| "toggle_any k [] = ([], Some k)"
| "toggle_any k (l # ls) = (case toggle_walk k l of
     (l', None) \<Rightarrow> (l' # ls, None)
   | (l', Some k') \<Rightarrow> (case toggle_any k' ls of (ls', left) \<Rightarrow> (l' # ls', left)))"

fun flip_layer :: "int \<Rightarrow> layer \<Rightarrow> layer" where
  "flip_layer target (Layer p c ex hi off ch) = Layer p c ex hi (off \<noteq> (p = target)) (map (flip_layer target) ch)"

fun layer_ids :: "layer \<Rightarrow> int list" where
  "layer_ids (Layer p c ex hi off ch) = p # concat (map layer_ids ch)"

lemma flip_layer_absent: "target \<notin> set (layer_ids l) \<Longrightarrow> flip_layer target l = l"
  by (induction l rule: layer_ids.induct) (auto intro!: map_idI)

lemma map_flip_absent: "target \<notin> set (concat (map layer_ids ls)) \<Longrightarrow> map (flip_layer target) ls = ls"
  by (intro map_idI flip_layer_absent) auto

text \<open>The walk answers where the target is in the order, and otherwise counts the whole subtree.\<close>

lemma flat_walk_position:
  "flat_walk target i l = (if target \<in> set (layer_ids l)
     then let k = i + length (takeWhile (\<lambda>p. p \<noteq> target) (layer_ids l)) in (Some k, k)
     else (None, i + length (layer_ids l) - 1))"
  "flat_walk_any target i ls = (if target \<in> set (concat (map layer_ids ls))
     then let k = i + 1 + length (takeWhile (\<lambda>p. p \<noteq> target) (concat (map layer_ids ls))) in (Some k, k)
     else (None, i + length (concat (map layer_ids ls))))"
proof (induction target i l and target i ls rule: flat_walk_flat_walk_any.induct)
  case (1 target i p c ex hi off ch)
  then show ?case by (auto simp: Let_def)
next
  case (3 target i l ls)
  have pos: "0 < length (layer_ids l)" by (cases l) simp
  show ?case using 3 pos by (auto simp: Let_def takeWhile_append split: if_splits)
qed simp

lemma toggle_walk_flips:
  "distinct (layer_ids l) \<Longrightarrow> toggle_walk k l = (if k < length (layer_ids l) then (flip_layer (layer_ids l ! k) l, None)
     else (l, Some (k - length (layer_ids l))))"
  "distinct (concat (map layer_ids ls)) \<Longrightarrow> toggle_any k ls = (let ps = concat (map layer_ids ls) in
     if k < length ps then (map (flip_layer (ps ! k)) ls, None) else (ls, Some (k - length ps)))"
proof (induction k l and k ls rule: toggle_walk_toggle_any.induct)
  case (1 k p c ex hi off ch)
  show ?case
  proof (cases k)
    case 0
    then show ?thesis using 1 by (simp add: map_flip_absent)
  next
    case (Suc n)
    have d: "distinct (concat (map layer_ids ch))" "p \<notin> set (concat (map layer_ids ch))" using 1(2) by simp_all
    have "n < length (concat (map layer_ids ch)) \<Longrightarrow> concat (map layer_ids ch) ! n \<noteq> p"
      using d(2) nth_mem by metis
    then show ?thesis using 1(1) d Suc by (auto simp: Let_def)
  qed
next
  case (3 k l ls)
  have d: "distinct (layer_ids l)" "distinct (concat (map layer_ids ls))"
    and apart: "set (layer_ids l) \<inter> set (concat (map layer_ids ls)) = {}" using 3(3) by auto
  show ?case
  proof (cases "k < length (layer_ids l)")
    case True
    then have "layer_ids l ! k \<notin> set (concat (map layer_ids ls))" using apart nth_mem by blast
    then show ?thesis using 3(1) d(1) True by (simp add: Let_def nth_append map_flip_absent)
  next
    case False
    let ?n = "k - length (layer_ids l)"
    have w: "toggle_walk k l = (l, Some ?n)" using 3(1) d(1) False by simp
    have "?n < length (concat (map layer_ids ls)) \<Longrightarrow> concat (map layer_ids ls) ! ?n \<notin> set (layer_ids l)"
      using apart nth_mem [of ?n "concat (map layer_ids ls)"] by blast
    then show ?thesis using 3(2) [OF w [symmetric] refl] d(2) False w
      by (auto simp: Let_def nth_append flip_layer_absent)
  qed
qed simp

lemma flat_index_flips:
  assumes "distinct (layer_ids root_layer)"
  shows "(case lc_flat_index target root_layer of
            Some k \<Rightarrow> target \<in> set (layer_ids root_layer) \<and> toggle_walk k root_layer = (flip_layer target root_layer, None)
          | None \<Rightarrow> target \<notin> set (layer_ids root_layer))"
proof (cases "target \<in> set (layer_ids root_layer)")
  case True
  let ?n = "length (takeWhile (\<lambda>p. p \<noteq> target) (layer_ids root_layer))"
  have l: "?n < length (layer_ids root_layer)" 
  proof (rule ccontr)
    assume "\<not> ?n < length (layer_ids root_layer)"
    then have "takeWhile (\<lambda>p. p \<noteq> target) (layer_ids root_layer) = layer_ids root_layer"
      using takeWhile_eq_take [of "\<lambda>p. p \<noteq> target" "layer_ids root_layer"] by simp
    then show False using True by (metis (full_types) takeWhile_eq_all_conv)
  qed
  then have "layer_ids root_layer ! ?n = target" using nth_length_takeWhile by fastforce
  then show ?thesis using True l toggle_walk_flips(1) [OF assms, of ?n]
    by (simp add: lc_flat_index_def flat_walk_position(1) Let_def)
next
  case False
  then show ?thesis by (simp add: lc_flat_index_def flat_walk_position(1))
qed

text \<open>The index \<open>_lc_flat_index\<close> computes for a layer collection is the one Blender's operator counts to: toggling there
  flips the bit of exactly that layer collection, however the tree is nested; a layer collection that is not in the view
  layer has no index.\<close>

theorem flat_index_toggles_target:
  assumes "distinct (layer_ids root_layer)"
  shows "(case lc_flat_index target root_layer of
            Some k \<Rightarrow> target \<in> set (layer_ids root_layer) \<and> toggle_walk k root_layer = (flip_layer target root_layer, None)
          | None \<Rightarrow> target \<notin> set (layer_ids root_layer))"
  by (rule flat_index_flips [OF assms])

definition demo_layers :: layer where
  "demo_layers = Layer 0 100 False False False
     [Layer 1 101 False False False [Layer 2 102 False False False [], Layer 3 103 True False False []],
      Layer 4 104 False False False [Layer 5 105 False False False []]]"

lemma flat_index_toggles_target_witness:
  "(case lc_flat_index 5 demo_layers of
      Some k \<Rightarrow> 5 \<in> set (layer_ids demo_layers) \<and> toggle_walk k demo_layers = (flip_layer 5 demo_layers, None)
    | None \<Rightarrow> 5 \<notin> set (layer_ids demo_layers)) \<and> lc_flat_index 5 demo_layers = Some 5"
proof
  show "case lc_flat_index 5 demo_layers of
      Some k \<Rightarrow> 5 \<in> set (layer_ids demo_layers) \<and> toggle_walk k demo_layers = (flip_layer 5 demo_layers, None)
    | None \<Rightarrow> 5 \<notin> set (layer_ids demo_layers)"
    by (rule flat_index_toggles_target) (simp add: demo_layers_def)
  show "lc_flat_index 5 demo_layers = Some 5" by (simp add: lc_flat_index_def demo_layers_def)
qed

end
