(* ===== verification/Vis_Apply.thy ===== *)
theory Vis_Apply
  imports Viewport
begin

text \<open>
  \<open>_apply_vis\<close> of \<open>ring0/replica_apply.py\<close>: what the followed viewport shows now, the plan to what the host shows, and
  the operator calls that carry it out. A handle is a datablock; what the operators do to the viewport is written out
  as the source relies on it: \<open>localview\<close> leaves Local View or enters it with the selection, \<open>local_view_set\<close> moves one
  object, \<open>hide_collection\<close> flips one layer collection's bit.
\<close>

datatype id_kind = Id_Object | Id_Collection | Id_Other

record vis_view =
  vz_in_local :: bool
  vz_local :: "int list"
  vz_colls :: bool
  vz_layers :: layer
  vz_objects :: "int list"
  vz_stamp :: "int \<Rightarrow> uuid option"
  vz_map :: "(uuid, int) dict"
  vz_kind :: "int \<Rightarrow> id_kind"

definition lc_visible :: "layer \<Rightarrow> layer \<Rightarrow> bool" where
  "lc_visible root_layer l \<longleftrightarrow> l_id l \<in> set (visible_ids root_layer)"

definition hidden_here :: "layer \<Rightarrow> int \<Rightarrow> bool" where
  "hidden_here root_layer h = (case layer_for h root_layer of None \<Rightarrow> False
     | Some l \<Rightarrow> \<not> l_exclude l \<and> \<not> l_hide l \<and> \<not> lc_visible root_layer l)"

definition vis_have :: "vis_view \<Rightarrow> vis_sig" where
  "vis_have v = vis_make
     (if vz_in_local v then map fst (filter (\<lambda>(u, h). vz_kind v h = Id_Object \<and> h \<in> set (vz_local v)) (vz_map v)) else [])
     (vz_colls v)
     (if vz_colls v then map fst (filter (\<lambda>(u, h). vz_kind v h = Id_Collection \<and> hidden_here (vz_layers v) h) (vz_map v)) else [])"

text \<open>\<open>bpy.ops.view3d.localview()\<close>: with nothing selected it does not enter.\<close>

definition localview :: "int list \<Rightarrow> vis_view \<Rightarrow> vis_view" where
  "localview selected v = (if vz_in_local v then v\<lparr>vz_in_local := False, vz_local := []\<rparr>
     else if selected = [] then v else v\<lparr>vz_in_local := True, vz_local := selected\<rparr>)"

definition stamped_in :: "uuid list \<Rightarrow> vis_view \<Rightarrow> int list" where
  "stamped_in wanted v = filter (\<lambda>h. case vz_stamp v h of Some u \<Rightarrow> u \<in> set wanted | None \<Rightarrow> False) (vz_objects v)"

definition set_local :: "bool \<Rightarrow> uuid \<Rightarrow> vis_view \<Rightarrow> vis_view" where
  "set_local on u v = (case dget (vz_map v) u of None \<Rightarrow> v
     | Some h \<Rightarrow> if vz_kind v h = Id_Object
         then v\<lparr>vz_local := (if on then h # vz_local v else filter (\<lambda>x. x \<noteq> h) (vz_local v))\<rparr> else v)"

definition hide_layer :: "int \<Rightarrow> bool \<Rightarrow> layer \<Rightarrow> layer" where
  "hide_layer h hide root_layer = (case layer_for h root_layer of None \<Rightarrow> root_layer
     | Some l \<Rightarrow> if (\<not> lc_visible root_layer l) = hide then root_layer
         else (case lc_flat_index (l_id l) root_layer of None \<Rightarrow> root_layer
               | Some k \<Rightarrow> fst (toggle_walk k root_layer)))"

definition set_hidden :: "bool \<Rightarrow> uuid \<Rightarrow> vis_view \<Rightarrow> vis_view" where
  "set_hidden hide u v = (case dget (vz_map v) u of None \<Rightarrow> v
     | Some h \<Rightarrow> if vz_kind v h = Id_Collection then v\<lparr>vz_layers := hide_layer h hide (vz_layers v)\<rparr> else v)"

text \<open>The result says whether the view itself moved, so that the host's view is applied again.\<close>

definition carry_out :: "vis_plan \<Rightarrow> vis_view \<Rightarrow> bool \<times> vis_view" where
  "carry_out p v =
     (let leave = vp_exit p \<and> vz_in_local v;
          v1 = (if leave then localview [] v else v);
          v2 = (if vp_enter_with p \<noteq> [] then localview (stamped_in (vp_enter_with p) v1) v1 else v1);
          v3 = fold (set_local True) (vp_add p) v2;
          v4 = fold (set_local False) (vp_remove p) v3;
          v5 = (case vp_set_local_colls p of None \<Rightarrow> v4 | Some b \<Rightarrow> v4\<lparr>vz_colls := b\<rparr>);
          v6 = fold (set_hidden True) (vp_lc_hide p) v5
      in (leave \<or> vp_enter_with p \<noteq> [], fold (set_hidden False) (vp_lc_show p) v6))"

definition apply_vis :: "vis_sig \<Rightarrow> vis_view \<Rightarrow> bool \<times> vis_view" where
  "apply_vis want v = (let p = vis_plan_of (vis_have v) want in if vp_empty p then (False, v) else carry_out p v)"

subsection \<open>Local View\<close>

lemma set_local_fields [simp]:
  "vz_in_local (fold (set_local b) us v) = vz_in_local v" "vz_colls (fold (set_local b) us v) = vz_colls v"
  "vz_layers (fold (set_local b) us v) = vz_layers v" "vz_objects (fold (set_local b) us v) = vz_objects v"
  "vz_stamp (fold (set_local b) us v) = vz_stamp v" "vz_map (fold (set_local b) us v) = vz_map v"
  "vz_kind (fold (set_local b) us v) = vz_kind v"
  by (induction us arbitrary: v) (auto simp: set_local_def split: option.splits)

lemma set_hidden_fields [simp]:
  "vz_in_local (fold (set_hidden b) us v) = vz_in_local v" "vz_colls (fold (set_hidden b) us v) = vz_colls v"
  "vz_local (fold (set_hidden b) us v) = vz_local v" "vz_objects (fold (set_hidden b) us v) = vz_objects v"
  "vz_stamp (fold (set_hidden b) us v) = vz_stamp v" "vz_map (fold (set_hidden b) us v) = vz_map v"
  "vz_kind (fold (set_hidden b) us v) = vz_kind v"
  by (induction us arbitrary: v) (auto simp: set_hidden_def split: option.splits)

lemma localview_fields [simp]:
  "vz_colls (localview sel v) = vz_colls v" "vz_layers (localview sel v) = vz_layers v"
  "vz_objects (localview sel v) = vz_objects v" "vz_stamp (localview sel v) = vz_stamp v"
  "vz_map (localview sel v) = vz_map v" "vz_kind (localview sel v) = vz_kind v"
  by (simp_all add: localview_def)

text \<open>The objects the replica knows under some uuids.\<close>

definition known_objects :: "vis_view \<Rightarrow> uuid set \<Rightarrow> int set" where
  "known_objects v us = {h. \<exists>u\<in>us. dget (vz_map v) u = Some h \<and> vz_kind v h = Id_Object}"

lemma set_local_add: "set (vz_local (fold (set_local True) us v)) = set (vz_local v) \<union> known_objects v (set us)"
  by (induction us arbitrary: v) (auto simp: set_local_def known_objects_def split: option.splits if_splits)

lemma set_local_remove: "set (vz_local (fold (set_local False) us v)) = set (vz_local v) - known_objects v (set us)"
  by (induction us arbitrary: v) (auto simp: set_local_def known_objects_def split: option.splits if_splits)

text \<open>The map is one to one and agrees with the stamps of the objects that can be selected.\<close>

definition map_ok :: "vis_view \<Rightarrow> bool" where
  "map_ok v \<longleftrightarrow> dict_ok (vz_map v) \<and> distinct (map snd (vz_map v))
     \<and> (\<forall>h \<in> set (vz_objects v). \<forall>u. vz_stamp v h = Some u \<longrightarrow> dget (vz_map v) u = Some h)"

definition local_known :: "vis_view \<Rightarrow> uuid list \<Rightarrow> bool" where
  "local_known v us \<longleftrightarrow> (\<forall>u \<in> set us. \<exists>h \<in> set (vz_objects v). vz_stamp v h = Some u \<and> vz_kind v h = Id_Object)"

lemma map_ok_inj:
  assumes "map_ok v" "dget (vz_map v) u = Some h" "dget (vz_map v) w = Some h"
  shows "u = w"
proof -
  have "(u, h) \<in> set (vz_map v)" "(w, h) \<in> set (vz_map v)" using assms(2,3) map_of_SomeD by fast+
  moreover have "inj_on snd (set (vz_map v))" using assms(1) by (simp add: map_ok_def distinct_map)
  ultimately show ?thesis by (metis fst_conv inj_onD snd_conv)
qed

lemma vis_have_local:
  assumes "map_ok v"
  shows "set (vs_local (vis_have v)) = (if vz_in_local v
    then {u. \<exists>h. dget (vz_map v) u = Some h \<and> vz_kind v h = Id_Object \<and> h \<in> set (vz_local v)} else {})"
  using assms by (auto simp: vis_have_def vis_make_def map_ok_def dict_ok_in_set [symmetric] image_iff)

lemma carry_out_fields [simp]:
  "vz_map (snd (carry_out p v)) = vz_map v" "vz_kind (snd (carry_out p v)) = vz_kind v"
  "vz_objects (snd (carry_out p v)) = vz_objects v" "vz_stamp (snd (carry_out p v)) = vz_stamp v"
  "vz_colls (snd (carry_out p v)) = (case vp_set_local_colls p of None \<Rightarrow> vz_colls v | Some b \<Rightarrow> b)"
  by (simp_all add: carry_out_def Let_def split: option.splits)

lemma carry_out_local:
  "vz_in_local (snd (carry_out p v)) =
     (let v1 = (if vp_exit p \<and> vz_in_local v then localview [] v else v)
      in vz_in_local (if vp_enter_with p \<noteq> [] then localview (stamped_in (vp_enter_with p) v1) v1 else v1))"
  "set (vz_local (snd (carry_out p v))) =
     (let v1 = (if vp_exit p \<and> vz_in_local v then localview [] v else v);
          v2 = (if vp_enter_with p \<noteq> [] then localview (stamped_in (vp_enter_with p) v1) v1 else v1)
      in (set (vz_local v2) \<union> known_objects v (set (vp_add p))) - known_objects v (set (vp_remove p)))"
  by (simp_all add: carry_out_def Let_def set_local_add set_local_remove known_objects_def split: option.splits)

lemma plan_local_fields:
  "vp_exit (vis_plan_of shown want) = (vs_local shown \<noteq> [] \<and> vs_local want = [])"
  "vp_enter_with (vis_plan_of shown want) = (if vs_local want \<noteq> [] \<and> vs_local shown = [] then vs_local want else [])"
  "set (vp_add (vis_plan_of shown want)) = (if vs_local want \<noteq> [] \<and> vs_local shown \<noteq> []
     then set (vs_local want) - set (vs_local shown) else {})"
  "set (vp_remove (vis_plan_of shown want)) = (if vs_local want \<noteq> [] \<and> vs_local shown \<noteq> []
     then set (vs_local shown) - set (vs_local want) else {})"
  by (auto simp: vis_plan_of_def Let_def set_minus_def)

lemma carry_out_local_view:
  assumes "map_ok v" "local_known v (vs_local want)" "vz_in_local v \<Longrightarrow> vs_local (vis_have v) \<noteq> []"
  shows "set (vs_local (vis_have (snd (carry_out (vis_plan_of (vis_have v) want) v)))) = set (vs_local want)"
proof -
  let ?v = "snd (carry_out (vis_plan_of (vis_have v) want) v)"
  have ok: "map_ok ?v" using assms(1) by (simp add: map_ok_def)
  note shown = vis_have_local [OF assms(1)] and inj = map_ok_inj [OF assms(1)]
  have known: "u \<in> set (vs_local want) \<Longrightarrow> \<exists>h. h \<in> set (vz_objects v) \<and> dget (vz_map v) u = Some h
      \<and> vz_kind v h = Id_Object \<and> vz_stamp v h = Some u" for u
    using assms(1,2) unfolding map_ok_def local_known_def by blast
  show ?thesis
  proof (cases "vz_in_local v")
    case True
    then have ne: "vs_local (vis_have v) \<noteq> []" by (rule assms(3))
    show ?thesis
    proof (cases "vs_local want = []")
      case True
      then show ?thesis using \<open>vz_in_local v\<close> ne unfolding vis_have_local [OF ok] carry_out_local plan_local_fields
        by (simp add: Let_def localview_def)
    next
      case False
      have "set (vs_local (vis_have ?v)) = {u. \<exists>h. dget (vz_map v) u = Some h \<and> vz_kind v h = Id_Object
          \<and> h \<in> (set (vz_local v) \<union> known_objects v (set (vs_local want) - set (vs_local (vis_have v))))
                - known_objects v (set (vs_local (vis_have v)) - set (vs_local want))}"
        using False True ne unfolding vis_have_local [OF ok] carry_out_local plan_local_fields by (simp add: Let_def)
      also have "\<dots> = set (vs_local want)"
        using known inj unfolding shown known_objects_def by (auto simp: True) blast+
      finally show ?thesis .
    qed
  next
    case False
    then have none: "vs_local (vis_have v) = []" using shown by simp
    show ?thesis
    proof (cases "vs_local want = []")
      case True
      then show ?thesis using False none unfolding vis_have_local [OF ok] carry_out_local plan_local_fields
        by (simp add: Let_def)
    next
      case ne: False
      let ?sel = "stamped_in (vs_local want) v"
      have sel: "h \<in> set ?sel \<longleftrightarrow> (\<exists>u \<in> set (vs_local want). h \<in> set (vz_objects v) \<and> vz_stamp v h = Some u)" for h
        by (auto simp: stamped_in_def split: option.splits)
      have "?sel \<noteq> []" using ne known sel by (metis all_not_in_conv empty_set set_empty)
      then have "set (vs_local (vis_have ?v)) = {u. \<exists>h. dget (vz_map v) u = Some h \<and> vz_kind v h = Id_Object \<and> h \<in> set ?sel}"
        using False none ne unfolding vis_have_local [OF ok] carry_out_local plan_local_fields
        by (simp add: Let_def localview_def known_objects_def)
      also have "\<dots> = set (vs_local want)"
        using known inj assms(1) unfolding sel map_ok_def by blast
      finally show ?thesis .
    qed
  qed
qed

subsection \<open>Isolated collections\<close>

text \<open>A visible master collection whose children hold no others.\<close>

definition flat_ok :: "layer \<Rightarrow> bool" where
  "flat_ok r \<longleftrightarrow> \<not> l_exclude r \<and> \<not> l_hide r \<and> \<not> l_off r \<and> (\<forall>l \<in> set (l_children r). l_children l = [])
     \<and> distinct (l_id r # map l_id (l_children r)) \<and> distinct (l_coll r # map l_coll (l_children r))"

definition can_hide :: "layer \<Rightarrow> int \<Rightarrow> bool" where
  "can_hide r h \<longleftrightarrow> (\<exists>l \<in> set (l_children r). l_coll l = h \<and> \<not> l_exclude l \<and> \<not> l_hide l)"

definition bit_on :: "layer \<Rightarrow> int \<Rightarrow> bool" where
  "bit_on r h \<longleftrightarrow> (\<exists>l \<in> set (l_children r). l_coll l = h \<and> \<not> l_exclude l \<and> \<not> l_hide l \<and> l_off l)"

definition put_off :: "int \<Rightarrow> bool \<Rightarrow> layer \<Rightarrow> layer" where
  "put_off h b r = Layer (l_id r) (l_coll r) (l_exclude r) (l_hide r) (l_off r)
     (map (\<lambda>l. if l_coll l = h then Layer (l_id l) h (l_exclude l) (l_hide l) b [] else l) (l_children r))"

lemma flat_unique:
  assumes "flat_ok r" "l \<in> set (l_children r)"
  shows "l_coll l \<noteq> l_coll r" "l_id l \<noteq> l_id r"
    and "m \<in> set (l_children r) \<Longrightarrow> l_coll m = l_coll l \<longleftrightarrow> m = l"
    and "m \<in> set (l_children r) \<Longrightarrow> l_id m = l_id l \<longleftrightarrow> m = l"
proof -
  have i: "inj_on l_coll (set (l_children r))" "inj_on l_id (set (l_children r))"
    and n: "l_coll r \<notin> l_coll ` set (l_children r)" "l_id r \<notin> l_id ` set (l_children r)"
    using assms(1) by (simp_all add: flat_ok_def distinct_map)
  show "l_coll l \<noteq> l_coll r" by (metis n(1) imageI assms(2))
  show "l_id l \<noteq> l_id r" by (metis n(2) imageI assms(2))
  show "m \<in> set (l_children r) \<Longrightarrow> l_coll m = l_coll l \<longleftrightarrow> m = l" using inj_on_eq_iff [OF i(1)] assms(2) by blast
  show "m \<in> set (l_children r) \<Longrightarrow> l_id m = l_id l \<longleftrightarrow> m = l" using inj_on_eq_iff [OF i(2)] assms(2) by blast
qed

lemma find_distinct: "distinct (map f xs) \<Longrightarrow> x \<in> set xs \<Longrightarrow> find (\<lambda>y. f y = f x) xs = Some x"
  by (induction xs) (auto simp: rev_image_eqI)

lemma layer_ids_leaves: "\<forall>l \<in> set ls. l_children l = [] \<Longrightarrow> concat (map layer_ids ls) = map l_id ls"
proof (induction ls)
  case (Cons l ls)
  then show ?case by (cases l) auto
qed simp

lemma layer_for_any_flat:
  "\<forall>l \<in> set ls. l_children l = [] \<Longrightarrow> layer_for_any h ls = find (\<lambda>l. l_coll l = h) ls"
proof (induction ls)
  case (Cons l ls)
  then show ?case by (cases l) auto
qed simp

lemma layer_for_flat:
  "flat_ok r \<Longrightarrow> layer_for h r = (if l_coll r = h then Some r else find (\<lambda>l. l_coll l = h) (l_children r))"
  by (cases r) (auto simp: flat_ok_def layer_for_any_flat)

lemma layer_for_leaf:
  assumes "flat_ok r" "l \<in> set (l_children r)"
  shows "layer_for (l_coll l) r = Some l"
proof -
  have d: "distinct (map l_coll (l_children r))" "l_coll l \<noteq> l_coll r"
    using assms(1) flat_unique(1) [OF assms] by (simp_all add: flat_ok_def)
  have "find (\<lambda>m. l_coll m = l_coll l) (l_children r) = Some l"
    by (rule find_distinct [OF d(1) assms(2)])
  then show ?thesis using layer_for_flat [OF assms(1)] d(2) by simp
qed

lemma visible_flat:
  assumes "flat_ok r"
  shows "set (visible_ids r) = insert (l_id r) (l_id ` {l \<in> set (l_children r). \<not> l_exclude l \<and> \<not> l_hide l \<and> \<not> l_off l})"
proof -
  have leaf: "visible_ids l = (if l_exclude l \<or> l_hide l \<or> l_off l then [] else [l_id l])" if "l \<in> set (l_children r)" for l
    using assms that by (cases l) (auto simp: flat_ok_def)
  show ?thesis using assms leaf by (cases r) (auto simp: flat_ok_def split: if_splits)
qed

lemma visible_leaf:
  assumes "flat_ok r" "l \<in> set (l_children r)"
  shows "lc_visible r l \<longleftrightarrow> \<not> l_exclude l \<and> \<not> l_hide l \<and> \<not> l_off l"
proof -
  have "l_id l \<in> l_id ` {m \<in> set (l_children r). P m} \<longleftrightarrow> P l" for P
  proof
    assume "l_id l \<in> l_id ` {m \<in> set (l_children r). P m}"
    then obtain m where m: "m \<in> set (l_children r)" "P m" "l_id m = l_id l" by auto
    then have "m = l" using flat_unique(4) [OF assms m(1)] by blast
    with m show "P l" by blast
  next
    assume "P l"
    with assms(2) show "l_id l \<in> l_id ` {m \<in> set (l_children r). P m}" by blast
  qed
  then show ?thesis using flat_unique(2) [OF assms] by (simp add: lc_visible_def visible_flat [OF assms(1)])
qed

lemma hidden_here_flat:
  assumes "flat_ok r"
  shows "hidden_here r h = bit_on r h"
proof (cases "\<exists>l \<in> set (l_children r). l_coll l = h")
  case True
  then obtain l where l: "l \<in> set (l_children r)" "l_coll l = h" by blast
  have only: "m \<in> set (l_children r) \<Longrightarrow> l_coll m = h \<Longrightarrow> m = l" for m
    using flat_unique(3) [OF assms l(1)] l(2) by metis
  have "bit_on r h \<longleftrightarrow> \<not> l_exclude l \<and> \<not> l_hide l \<and> l_off l"
    unfolding bit_on_def using l only by blast
  moreover have "layer_for h r = Some l" using layer_for_leaf [OF assms l(1)] l(2) by simp
  ultimately show ?thesis by (auto simp: hidden_here_def visible_leaf [OF assms l(1)])
next
  case False
  then have "find (\<lambda>l. l_coll l = h) (l_children r) = None" by (auto simp: find_None_iff)
  moreover have "lc_visible r r" using assms by (simp add: lc_visible_def visible_flat)
  ultimately show ?thesis using False by (auto simp: hidden_here_def bit_on_def layer_for_flat [OF assms])
qed

lemma layer_ids_flat: "flat_ok r \<Longrightarrow> layer_ids r = l_id r # map l_id (l_children r)"
  using layer_ids_leaves [of "l_children r"] by (cases r) (auto simp: flat_ok_def)

lemma flip_leaf: "l_children l = [] \<Longrightarrow> flip_layer i l = Layer (l_id l) (l_coll l) (l_exclude l) (l_hide l) (l_off l \<noteq> (l_id l = i)) []"
  by (cases l) auto

lemma hide_layer_flat:
  assumes "flat_ok r" "can_hide r h"
  shows "hide_layer h b r = put_off h b r"
proof -
  obtain l where l: "l \<in> set (l_children r)" "l_coll l = h" "\<not> l_exclude l" "\<not> l_hide l"
    using assms(2) by (auto simp: can_hide_def)
  have only: "m \<in> set (l_children r) \<Longrightarrow> l_coll m = h \<longleftrightarrow> m = l" "m \<in> set (l_children r) \<Longrightarrow> l_id m = l_id l \<longleftrightarrow> m = l" for m
    using flat_unique(3,4) [OF assms(1) l(1)] l(2) by metis+
  have leaf: "m \<in> set (l_children r) \<Longrightarrow> l_children m = []" for m using assms(1) by (simp add: flat_ok_def)
  have found: "layer_for h r = Some l" using layer_for_leaf [OF assms(1) l(1)] l(2) by simp
  show ?thesis
  proof (cases "l_off l = b")
    case True
    have "Layer (l_id l) h (l_exclude l) (l_hide l) b [] = l" using True leaf [OF l(1)] l(2) by (cases l) simp
    then have "put_off h b r = r" using only(1) by (cases r) (auto simp: put_off_def intro!: map_idI)
    then show ?thesis using True found visible_leaf [OF assms(1) l(1)] l by (simp add: hide_layer_def)
  next
    case False
    have d: "distinct (layer_ids r)" using assms(1) by (simp add: layer_ids_flat flat_ok_def)
    have "l_id l \<in> set (layer_ids r)" using l(1) by (simp add: layer_ids_flat [OF assms(1)])
    then obtain k where k: "lc_flat_index (l_id l) r = Some k" "fst (toggle_walk k r) = flip_layer (l_id l) r"
      using flat_index_flips [OF d, of "l_id l"] by (auto split: option.splits)
    have "l_id r \<noteq> l_id l" using flat_unique(2) [OF assms(1) l(1)] by simp
    then have "flip_layer (l_id l) r = put_off h b r" using only leaf False l(2)
      by (cases r) (auto simp: put_off_def flip_leaf intro!: layer.expand)
    then show ?thesis using False found visible_leaf [OF assms(1) l(1)] l k by (simp add: hide_layer_def)
  qed
qed

lemma put_off_facts:
  "flat_ok r \<Longrightarrow> flat_ok (put_off h b r)" "can_hide (put_off h b r) k = can_hide r k"
  "bit_on (put_off h b r) k = (if k = h then b \<and> can_hide r h else bit_on r k)"
proof -
  have m: "map l_id (l_children (put_off h b r)) = map l_id (l_children r)"
    "map l_coll (l_children (put_off h b r)) = map l_coll (l_children r)"
    by (auto simp: put_off_def)
  show "flat_ok r \<Longrightarrow> flat_ok (put_off h b r)" unfolding flat_ok_def m by (auto simp: put_off_def)
  have ch: "set (l_children (put_off h b r)) = (\<lambda>l. if l_coll l = h then Layer (l_id l) h (l_exclude l) (l_hide l) b [] else l)
      ` set (l_children r)" by (simp only: put_off_def layer.sel set_map)
  show "can_hide (put_off h b r) k = can_hide r k"
    unfolding can_hide_def ch bex_simps(7) by (rule bex_cong [OF refl]) auto
  show "bit_on (put_off h b r) k = (if k = h then b \<and> can_hide r h else bit_on r k)"
    unfolding bit_on_def can_hide_def ch bex_simps(7) by (auto split: if_splits)
qed

definition hidden_known :: "vis_view \<Rightarrow> uuid list \<Rightarrow> bool" where
  "hidden_known v us \<longleftrightarrow> (\<forall>u \<in> set us. \<exists>h. dget (vz_map v) u = Some h \<and> vz_kind v h = Id_Collection \<and> can_hide (vz_layers v) h)"

lemma fold_set_hidden:
  assumes "flat_ok (vz_layers v)" "hidden_known v us"
  shows "flat_ok (vz_layers (fold (set_hidden b) us v)) \<and> can_hide (vz_layers (fold (set_hidden b) us v)) = can_hide (vz_layers v)
    \<and> (\<forall>k. bit_on (vz_layers (fold (set_hidden b) us v)) k =
         (if \<exists>u \<in> set us. dget (vz_map v) u = Some k then b else bit_on (vz_layers v) k))"
  using assms
proof (induction us arbitrary: v)
  case (Cons u us)
  then obtain h where h: "dget (vz_map v) u = Some h" "vz_kind v h = Id_Collection" "can_hide (vz_layers v) h"
    by (auto simp: hidden_known_def)
  have step: "set_hidden b u v = v\<lparr>vz_layers := put_off h b (vz_layers v)\<rparr>"
    by (simp add: set_hidden_def h hide_layer_flat [OF Cons.prems(1) h(3)])
  have "flat_ok (vz_layers (set_hidden b u v))" "hidden_known (set_hidden b u v) us"
    using Cons.prems by (auto simp: step put_off_facts hidden_known_def)
  from Cons.IH [OF this] show ?case by (auto simp: step put_off_facts h fun_eq_iff)
qed simp

lemma hidden_known_fold [simp]: "flat_ok (vz_layers v) \<Longrightarrow> hidden_known v us \<Longrightarrow> hidden_known (fold (set_hidden b) us v) ws = hidden_known v ws"
  using fold_set_hidden [of v us b] by (simp add: hidden_known_def)

lemma vis_have_hidden:
  assumes "map_ok v" "flat_ok (vz_layers v)"
  shows "set (vs_hidden_lc (vis_have v)) = (if vz_colls v
    then {u. \<exists>h. dget (vz_map v) u = Some h \<and> vz_kind v h = Id_Collection \<and> bit_on (vz_layers v) h} else {})"
  using assms by (auto simp: vis_have_def vis_make_def map_ok_def dict_ok_in_set [symmetric] image_iff hidden_here_flat)

lemma vis_have_known: "map_ok v \<Longrightarrow> flat_ok (vz_layers v) \<Longrightarrow> hidden_known v (vs_hidden_lc (vis_have v))"
  by (auto simp: hidden_known_def vis_have_hidden bit_on_def can_hide_def split: if_splits)

lemma plan_hidden_fields:
  "set (vp_lc_hide (vis_plan_of shown want)) = (if vs_local_colls want then set (vs_hidden_lc want) - set (vs_hidden_lc shown) else {})"
  "vs_local_colls want \<Longrightarrow> set (vp_lc_show (vis_plan_of shown want)) = set (vs_hidden_lc shown) - set (vs_hidden_lc want)"
  "set (vp_lc_show (vis_plan_of shown want)) \<subseteq> set (vs_hidden_lc shown)"
  "vp_set_local_colls (vis_plan_of shown want) = (if vs_local_colls shown = vs_local_colls want then None else Some (vs_local_colls want))"
  by (auto simp: vis_plan_of_def Let_def set_minus_def)

lemma carry_out_layers:
  "vz_layers (snd (carry_out p v)) = vz_layers (fold (set_hidden False) (vp_lc_show p) (fold (set_hidden True) (vp_lc_hide p)
     (snd (carry_out (p\<lparr>vp_lc_hide := [], vp_lc_show := []\<rparr>) v))))"
  "vz_layers (snd (carry_out (p\<lparr>vp_lc_hide := [], vp_lc_show := []\<rparr>) v)) = vz_layers v"
  by (simp_all add: carry_out_def Let_def split: option.splits)

lemma carry_out_hidden:
  assumes "map_ok v" "flat_ok (vz_layers v)" "hidden_known v (vs_hidden_lc want)" "vs_local_colls want"
    and "vz_colls v \<or> (\<forall>h. \<not> bit_on (vz_layers v) h)"
  shows "set (vs_hidden_lc (vis_have (snd (carry_out (vis_plan_of (vis_have v) want) v)))) = set (vs_hidden_lc want)"
proof -
  let ?p = "vis_plan_of (vis_have v) want"
  let ?v = "snd (carry_out ?p v)"
  define v1 where "v1 = snd (carry_out (?p\<lparr>vp_lc_hide := [], vp_lc_show := []\<rparr>) v)"
  define v2 where "v2 = fold (set_hidden True) (vp_lc_hide ?p) v1"
  define v3 where "v3 = fold (set_hidden False) (vp_lc_show ?p) v2"
  have m: "vz_map v1 = vz_map v" "vz_kind v1 = vz_kind v" "vz_layers v1 = vz_layers v" "vz_map v2 = vz_map v" "vz_kind v2 = vz_kind v"
    by (simp_all add: v1_def v2_def carry_out_layers(2))
  have k1: "hidden_known v1 (vp_lc_hide ?p)" "hidden_known v1 (vp_lc_show ?p)"
    using assms(3,4) vis_have_known [OF assms(1,2)] plan_hidden_fields [of "vis_have v" want] by (auto simp: hidden_known_def m)
  have f1: "flat_ok (vz_layers v1)" by (simp add: m assms(2))
  note s2 = fold_set_hidden [OF f1 k1(1), of True, folded v2_def]
  have k2: "hidden_known v2 (vp_lc_show ?p)" using k1 f1 by (simp add: v2_def)
  note s3 = fold_set_hidden [OF conjunct1 [OF s2] k2, of False, folded v3_def]
  have layers: "vz_layers ?v = vz_layers v3" by (simp add: v3_def v2_def v1_def carry_out_layers(1))
  have bits: "bit_on (vz_layers ?v) k \<longleftrightarrow> (\<exists>u \<in> set (vp_lc_hide ?p). dget (vz_map v) u = Some k)
      \<and> \<not> (\<exists>u \<in> set (vp_lc_show ?p). dget (vz_map v) u = Some k)
      \<or> bit_on (vz_layers v) k \<and> \<not> (\<exists>u \<in> set (vp_lc_show ?p). dget (vz_map v) u = Some k)" for k
    unfolding layers using s2 s3 by (auto simp: m)
  have colls: "vz_colls ?v" using assms(4) by (auto simp: plan_hidden_fields(4) vis_have_def vis_make_def)
  have ok: "map_ok ?v" "flat_ok (vz_layers ?v)" using assms(1) s3 by (simp_all add: map_ok_def layers)
  have now: "set (vs_hidden_lc (vis_have ?v)) = {u. \<exists>h. dget (vz_map v) u = Some h \<and> vz_kind v h = Id_Collection \<and> bit_on (vz_layers ?v) h}"
    unfolding vis_have_hidden [OF ok] by (simp only: colls if_True carry_out_fields(1,2))
  have shown: "set (vs_hidden_lc (vis_have v)) = {u. \<exists>h. dget (vz_map v) u = Some h \<and> vz_kind v h = Id_Collection \<and> bit_on (vz_layers v) h}"
    using assms(5) by (auto simp: vis_have_hidden [OF assms(1,2)])
  have known: "u \<in> set (vs_hidden_lc want) \<Longrightarrow> \<exists>h. dget (vz_map v) u = Some h \<and> vz_kind v h = Id_Collection" for u
    using assms(3) by (auto simp: hidden_known_def)
  show ?thesis unfolding now bits plan_hidden_fields(1) plan_hidden_fields(2) [OF assms(4)] shown
    using known assms(4) map_ok_inj [OF assms(1)] by auto blast+
qed

lemma vis_sig_eqI:
  assumes "vis_normal a" "vis_normal b" "set (vs_local a) = set (vs_local b)" "vs_local_colls a = vs_local_colls b"
    "set (vs_hidden_lc a) = set (vs_hidden_lc b)"
  shows "a = (b :: vis_sig)"
  using assms by (cases a; cases b) (auto simp: vis_normal_def intro: sorted_distinct_set_unique)

lemma carry_out_colls: "vz_colls (snd (carry_out (vis_plan_of (vis_have v) want) v)) = vs_local_colls want"
  by (simp add: plan_hidden_fields(4)) (simp add: vis_have_def vis_make_def)

text \<open>The viewport the replica can bring to what the host shows in one go.\<close>

definition can_follow :: "vis_view \<Rightarrow> vis_sig \<Rightarrow> bool" where
  "can_follow v want \<longleftrightarrow> map_ok v \<and> local_known v (vs_local want) \<and> hidden_known v (vs_hidden_lc want)
     \<and> flat_ok (vz_layers v) \<and> vis_normal want
     \<and> (vz_in_local v \<longrightarrow> vs_local (vis_have v) \<noteq> [])
     \<and> (vs_local_colls want \<or> vs_hidden_lc want = [])
     \<and> (vz_colls v \<or> (\<forall>h. \<not> bit_on (vz_layers v) h))"


definition demo_vis_view :: vis_view where
  "demo_vis_view = \<lparr>vz_in_local = False, vz_local = [], vz_colls = False,
     vz_layers = Layer 0 100 False False False [Layer 1 101 False False False [], Layer 2 102 False False False []],
     vz_objects = [7, 8], vz_stamp = (\<lambda>h. if h = 7 then Some ''a'' else None),
     vz_map = [(''a'', 7), (''c'', 102)], vz_kind = (\<lambda>h. if h < 100 then Id_Object else Id_Collection)\<rparr>"


end
