(* ===== verification/Snapshot.thy ===== *)
theory Snapshot
  imports Shadow Identity
begin

text \<open>
  The digests and signatures of \<open>ring0/host_handlers.py\<close>: what the host reads of a datablock beside its tracked
  properties. Python values read from Blender are \<open>py_val\<close>, RNA structures are trees of properties (\<open>rna\<close>); what
  \<open>repr\<close> prints, tuples and lists apart, is \<open>py_obj\<close>. \<open>repr\<close>, \<open>round\<close> on the text of a float and MD5 are parameters.
\<close>

datatype py_obj = O_Json json | O_List "py_obj list" | O_Tuple "py_obj list" | O_Dict "(string \<times> py_obj) list"

record digest_env =
  de_round :: "nat \<Rightarrow> string \<Rightarrow> string"
  de_repr :: "py_obj \<Rightarrow> string"
  de_md5 :: "string \<Rightarrow> string"

abbreviation O_Str :: "string \<Rightarrow> py_obj" where "O_Str s \<equiv> O_Json (JStr s)"
abbreviation O_Int :: "int \<Rightarrow> py_obj" where "O_Int i \<equiv> O_Json (JInt i)"
abbreviation O_None :: py_obj where "O_None \<equiv> O_Json JNull"

text \<open>
  A scalar or None, a vector, any other iterable, an enum flag, an ID, a texture or particle settings with its own
  settings, a custom-property group with its \<open>to_dict()\<close>, a value that does not iterate. A property of a structure has
  an identifier, a type, is read-only or not, and holds an attribute.
\<close>

datatype rna_type = P_Pointer | P_Scalar | P_Collection

datatype py_val = PV_Json json | PV_Vector "json list" | PV_Seq "py_val list" | PV_Set "string list" | PV_Id int
    | PV_Settings int rna | PV_Group "(string \<times> py_val) list" | PV_Opaque
  and rna = Rna "rna_prop list" "(string \<times> py_val) list option" "gn_item list option"
  and rna_prop = Rna_Prop string rna_type bool rna_attr
  and rna_attr = At_Missing | At_None | At_Id int | At_Struct rna | At_Value py_val
  and gn_item = Gn_Item string bool gn_group
  and gn_group = Gn_Missing | Gn_Raises | Gn_Other | Gn_Dict "(string \<times> py_val) list"

text \<open>\<open>_coerce\<close>; a group or an enum flag iterates over its keys.\<close>

fun coerce :: "py_val \<Rightarrow> json" where
  "coerce (PV_Json v) = v"
| "coerce (PV_Vector xs) = JList xs"
| "coerce (PV_Seq xs) = JList (map coerce xs)"
| "coerce (PV_Set xs) = JList (map JStr xs)"
| "coerce (PV_Group d) = JList (map (JStr \<circ> fst) d)"
| "coerce v = JNull"

fun contains_none :: "json \<Rightarrow> bool" where
  "contains_none (JList xs) = list_ex (\<lambda>v. v = JNull \<or> contains_none v) xs"
| "contains_none v = False"

fun round5 :: "digest_env \<Rightarrow> json \<Rightarrow> json" where
  "round5 e (JFloat t) = JFloat (de_round e 5 t)"
| "round5 e (JList xs) = JList (map (round5 e) xs)"
| "round5 e v = v"

definition SETTINGS_SKIP :: "string list" where
  "SETTINGS_SKIP = [''rna_type'', ''name'', ''type'', ''show_expanded'', ''is_active'', ''point_cache'']"

definition md5_16 :: "digest_env \<Rightarrow> py_obj list \<Rightarrow> string" where
  "md5_16 e parts = take 16 (de_md5 e (de_repr e (O_List parts)))"

text \<open>A value that does not iterate over its own structures: the cases of \<open>_digest_value\<close> without a settings datablock.\<close>

definition plain_digest :: "digest_env \<Rightarrow> py_val \<Rightarrow> py_obj" where
  "plain_digest e v = (case v of PV_Id u \<Rightarrow> O_Tuple [O_Str ''id'', O_Int u]
     | PV_Set xs \<Rightarrow> O_Tuple (map O_Str (sort xs))
     | _ \<Rightarrow> O_Json (round5 e (coerce v)))"

text \<open>
  \<open>_settings_digest\<close> with \<open>_digest_value\<close> and \<open>_gn_input_values\<close>: at depth 0 the custom properties and the inputs of a
  Geometry Nodes modifier count too; a nested structure counts above depth 2.
\<close>

fun settings_digest :: "digest_env \<Rightarrow> nat \<Rightarrow> rna \<Rightarrow> string"
  and prop_part :: "digest_env \<Rightarrow> nat \<Rightarrow> rna_prop \<Rightarrow> py_obj list"
  and digest_value :: "digest_env \<Rightarrow> py_val \<Rightarrow> py_obj"
  and gn_values :: "digest_env \<Rightarrow> gn_item list \<Rightarrow> py_obj list" where
  "settings_digest e depth (Rna props idprops gn) = md5_16 e
     (concat (map (prop_part e depth) props)
      @ (if depth = 0
         then (case idprops of None \<Rightarrow> []
               | Some kvs \<Rightarrow> [O_Tuple [O_Str ''_idprops'', O_List (map (\<lambda>(k, v). O_Tuple [O_Str k, digest_value e v]) kvs)]])
            @ (case gn of None \<Rightarrow> [] | Some items \<Rightarrow> [O_Tuple [O_Str ''_gn_inputs'', O_List (gn_values e items)]])
         else []))"
| "prop_part e depth (Rna_Prop ident ty readonly att) =
     (if ident \<in> set SETTINGS_SKIP then []
      else case ty of
        P_Pointer \<Rightarrow> (case att of
            At_None \<Rightarrow> [O_Tuple [O_Str ident, O_None]]
          | At_Id u \<Rightarrow> [O_Tuple [O_Str ident, O_Int u]]
          | At_Struct s \<Rightarrow> if depth < 2 then [O_Tuple [O_Str ident, O_Str (settings_digest e (depth + 1) s)]] else []
          | _ \<Rightarrow> [])
      | P_Scalar \<Rightarrow> if readonly then [] else (case att of
            At_Value v \<Rightarrow> [O_Tuple [O_Str ident, digest_value e v]]
          | _ \<Rightarrow> [])
      | P_Collection \<Rightarrow> [])"
| "digest_value e (PV_Settings u s) = O_Tuple [O_Str ''id'', O_Int u, O_Str (settings_digest e 1 s)]"
| "digest_value e v = plain_digest e v"
| "gn_values e [] = []"
| "gn_values e (Gn_Item ident is_input grp # items) =
     (if \<not> is_input \<or> ident = [] then gn_values e items
      else case grp of
        Gn_Missing \<Rightarrow> gn_values e items
      | Gn_Raises \<Rightarrow> []
      | Gn_Other \<Rightarrow> gn_values e items
      | Gn_Dict kvs \<Rightarrow> O_Tuple [O_Str ident, O_List (map (\<lambda>(k, d). O_Tuple [O_Str k, d])
            (sort_key fst (map (\<lambda>(k, v). (k, digest_value e v)) kvs)))] # gn_values e items)"

subsection \<open>Poses and custom properties\<close>

definition rnd :: "digest_env \<Rightarrow> nat \<Rightarrow> json \<Rightarrow> json" where
  "rnd e n v = (case v of JFloat t \<Rightarrow> JFloat (de_round e n t) | _ \<Rightarrow> v)"

text \<open>An action: \<open>act.fcurves\<close> or the curves of its layers, by data path; \<open>None\<close> where the attribute is absent.\<close>

record action =
  ac_uid :: int
  ac_fcurves :: "string list option"
  ac_layered :: "string list option"

definition action_fcurves :: "action \<Rightarrow> string list" where
  "action_fcurves a = (case ac_fcurves a of
     Some (p # ps) \<Rightarrow> p # ps
   | _ \<Rightarrow> (case ac_layered a of Some ps \<Rightarrow> ps | None \<Rightarrow> []))"

record nla_strip =
  ns_name :: string
  ns_frame_start :: json
  ns_frame_end :: json
  ns_mute :: bool
  ns_action :: "action option"
  ns_blend :: string
  ns_influence :: json
  ns_scale :: json
  ns_repeat :: json
  ns_action_start :: json
  ns_action_end :: json

record nla_track =
  nt_name :: string
  nt_mute :: bool
  nt_solo :: bool
  nt_strips :: "nla_strip list"

record anim_driver =
  dv_path :: string
  dv_index :: int
  dv_type :: string
  dv_expression :: string
  dv_variables :: "(string \<times> string \<times> (int option \<times> string) list) list"

record animation =
  an_action :: "action option"
  an_tracks :: "nla_track list"
  an_drivers :: "anim_driver list"

text \<open>\<open>p[12:p.index('"]', 12)]\<close>: without the closing characters \<open>index\<close> raises.\<close>

fun before_close :: "string \<Rightarrow> string option" where
  "before_close [] = None"
| "before_close (c # cs) = (if c = CHR 0x22 \<and> take 1 cs = '']'' then Some [] else map_option (\<lambda>r. c # r) (before_close cs))"

definition POSE_BONES :: string where
  "POSE_BONES = ''pose.bones['' @ [CHR 0x22]"

fun bone_names :: "string list \<Rightarrow> py_error + string list" where
  "bone_names [] = Inr []"
| "bone_names (p # ps) =
     (if take 12 p = POSE_BONES
      then (case before_close (drop 12 p) of None \<Rightarrow> Inl ValueError
            | Some n \<Rightarrow> (case bone_names ps of Inl err \<Rightarrow> Inl err | Inr ns \<Rightarrow> Inr (n # ns)))
      else bone_names ps)"

definition option_list :: "'a option \<Rightarrow> 'a list" where
  "option_list v = (case v of None \<Rightarrow> [] | Some x \<Rightarrow> [x])"

definition anim_actions :: "animation \<Rightarrow> action list" where
  "anim_actions an = option_list (an_action an)
     @ concat (map (\<lambda>t. concat (map (\<lambda>st. option_list (ns_action st)) (nt_strips t))) (an_tracks an))"

definition animated_bones :: "animation option \<Rightarrow> py_error + string list" where
  "animated_bones an = (case an of None \<Rightarrow> Inr []
     | Some a \<Rightarrow> bone_names (concat (map action_fcurves (anim_actions a))))"

record constraint =
  cs_name :: string
  cs_type :: string
  cs_rna :: rna

record pose_bone =
  pb_name :: string
  pb_matrix :: "json list list"
  pb_items :: "(string \<times> py_val) list"
  pb_rotation_mode :: string
  pb_bbone :: "string \<Rightarrow> py_val option"
  pb_constraints :: "constraint list"

definition BBONE_PROPS :: "string list" where
  "BBONE_PROPS = [''bbone_curveinx'', ''bbone_curveinz'', ''bbone_curveoutx'', ''bbone_curveoutz'',
     ''bbone_easein'', ''bbone_easeout'', ''bbone_rollin'', ''bbone_rollout'', ''bbone_scalein'', ''bbone_scaleout'']"

definition constraint_rows :: "digest_env \<Rightarrow> constraint list \<Rightarrow> py_obj" where
  "constraint_rows e cs = O_List (map (\<lambda>c. O_List [O_Str (cs_name c), O_Str (cs_type c), O_Str (settings_digest e 0 (cs_rna c))]) cs)"

definition bone_entry :: "digest_env \<Rightarrow> bool \<Rightarrow> string list \<Rightarrow> pose_bone \<Rightarrow> py_obj" where
  "bone_entry e full animated pb = O_List (
     [O_Str (pb_name pb),
      if pb_name pb \<in> set animated then O_None else O_Json (JList (map (rnd e 5) (concat (pb_matrix pb)))),
      O_List (map (\<lambda>(k, v). O_Tuple [O_Str k, digest_value e v]) (sort_key fst (pb_items pb)))]
     @ (if full
        then [O_Str (pb_rotation_mode pb),
              O_List (map (\<lambda>n. O_Json (case pb_bbone pb n of None \<Rightarrow> JNull | Some v \<Rightarrow> coerce v)) BBONE_PROPS),
              constraint_rows e (pb_constraints pb)]
        else []))"

definition pose_digest :: "digest_env \<Rightarrow> bool \<Rightarrow> string list \<Rightarrow> pose_bone list \<Rightarrow> string" where
  "pose_digest e full animated bones = md5_16 e (map (bone_entry e full animated) bones)"

text \<open>\<open>_idprop_value\<close>: a group by the \<open>repr\<close> of its \<open>to_dict()\<close>.\<close>

fun group_obj :: "py_val \<Rightarrow> py_obj" where
  "group_obj (PV_Group kvs) = O_Dict (map (\<lambda>(k, v). (k, group_obj v)) kvs)"
| "group_obj v = O_Json (coerce v)"

definition idprop_value :: "digest_env \<Rightarrow> py_val \<Rightarrow> py_obj" where
  "idprop_value e v = (case v of PV_Group kvs \<Rightarrow> O_Tuple [O_Str ''group'', O_Str (de_repr e (group_obj v))]
     | _ \<Rightarrow> digest_value e v)"

definition private_prop :: "string \<Rightarrow> bool" where
  "private_prop k \<longleftrightarrow> take 1 k = ''_''"

definition idprops_digest :: "digest_env \<Rightarrow> (string \<times> py_val) list \<Rightarrow> string" where
  "idprops_digest e kvs = md5_16 e (map (\<lambda>(k, v). O_Tuple [O_Str k, idprop_value e v])
     (filter (\<lambda>(k, _). k \<noteq> UUID_PROP \<and> \<not> private_prop k) (sort_key fst kvs)))"

definition is_group :: "py_val \<Rightarrow> bool" where
  "is_group v = (case v of PV_Group kvs \<Rightarrow> True | _ \<Rightarrow> False)"

definition idprop_groups_signature :: "digest_env \<Rightarrow> (string \<times> py_val) list \<Rightarrow> json" where
  "idprop_groups_signature e kvs = JList (map (\<lambda>(k, t). JList [JStr k, JStr t])
     (sort_key fst (map (\<lambda>(k, v). (k, de_repr e (group_obj v))) (filter (\<lambda>(k, v). is_group v \<and> \<not> private_prop k) kvs))))"

lemma scrub_keeps_pose_digest:
  assumes "list_all2 (\<lambda>a b. pb_name a = pb_name b \<and> pb_items a = pb_items b \<and> pb_rotation_mode a = pb_rotation_mode b
      \<and> pb_bbone a = pb_bbone b \<and> pb_constraints a = pb_constraints b
      \<and> (pb_name a \<in> set animated \<or> pb_matrix a = pb_matrix b)) bones bones'"
  shows "pose_digest e full animated bones' = pose_digest e full animated bones"
proof -
  have "map (bone_entry e full animated) bones' = map (bone_entry e full animated) bones"
    using assms by (induction rule: list_all2_induct) (auto simp: bone_entry_def)
  then show ?thesis by (simp add: pose_digest_def)
qed

subsection \<open>Animation, caches and nodes\<close>

definition opt_int :: "int option \<Rightarrow> py_obj" where
  "opt_int v = (case v of None \<Rightarrow> O_None | Some u \<Rightarrow> O_Int u)"

definition opt_uid :: "int option \<Rightarrow> json" where
  "opt_uid v = (case v of None \<Rightarrow> JNull | Some u \<Rightarrow> JInt u)"

definition strip_row :: "digest_env \<Rightarrow> nla_strip \<Rightarrow> json" where
  "strip_row e st = JList [JStr (ns_name st), rnd e 3 (ns_frame_start st), rnd e 3 (ns_frame_end st), JBool (ns_mute st),
     opt_uid (map_option ac_uid (ns_action st)), JStr (ns_blend st), rnd e 4 (ns_influence st), rnd e 4 (ns_scale st),
     rnd e 4 (ns_repeat st), rnd e 3 (ns_action_start st), rnd e 3 (ns_action_end st)]"

text \<open>Python compares a tuple with a tuple; both sides come from here, so a list stands for it.\<close>

definition driver_row :: "anim_driver \<Rightarrow> json" where
  "driver_row d = JList [JStr (dv_path d), JInt (dv_index d), JStr (dv_type d), JStr (dv_expression d),
     JList (map (\<lambda>(n, t, targets). JList [JStr n, JStr t,
        JList (map (\<lambda>(u, p). JList [opt_uid u, JStr p]) targets)]) (dv_variables d))]"

definition anim_signature :: "digest_env \<Rightarrow> animation option \<Rightarrow> json" where
  "anim_signature e an = (case an of None \<Rightarrow> JNull
     | Some a \<Rightarrow> JList [opt_uid (map_option ac_uid (an_action a)),
         JList (map (\<lambda>t. JList [JStr (nt_name t), JBool (nt_mute t), JBool (nt_solo t),
            JList (map (strip_row e) (nt_strips t))]) (an_tracks a)),
         JList (map driver_row (an_drivers a))])"

record point_cache =
  pc_baked :: bool
  pc_disk :: bool
  pc_start :: int
  pc_end :: int
  pc_external :: bool
  pc_path :: string

record color_ramp =
  cr_interpolation :: string
  cr_mode :: string
  cr_elements :: "(json \<times> json list) list"

text \<open>A socket: linked from a node's socket, and the path of its default value below the node.\<close>

record node_socket =
  sk_link :: "(string \<times> string) option"

datatype node_tree = Node_Tree (tree_nodes: "node list")
  and node = Node (nd_name: string) (nd_idname: string) (nd_mute: bool) (nd_path: string) (nd_rna: rna)
    (nd_ramp: "color_ramp option") (nd_curves: "(json \<times> json \<times> string) list list option")
    (nd_inputs: "node_socket list") (nd_tree: "node_tree option")

record modifier =
  md_name :: string
  md_type :: string
  md_show :: bool
  md_rna :: rna
  md_cache :: "point_cache option"
  md_canvas :: "(string \<times> point_cache option) list option"
  md_group :: "node_tree option"

text \<open>\<open>_iter_point_caches\<close>; \<open>psys\<close> are the particle systems.\<close>

definition surface_tag :: "string \<Rightarrow> string \<Rightarrow> string" where
  "surface_tag m surf = m @ ''/'' @ surf"

definition modifier_caches :: "modifier \<Rightarrow> (string \<times> point_cache) list" where
  "modifier_caches m = map (Pair (md_name m)) (option_list (md_cache m))
     @ concat (map (\<lambda>(surf, pc). map (Pair (surface_tag (md_name m) surf)) (option_list pc))
         (case md_canvas m of None \<Rightarrow> [] | Some cs \<Rightarrow> cs))"

definition iter_point_caches :: "modifier list \<Rightarrow> (string \<times> point_cache) list \<Rightarrow> (string \<times> point_cache) list" where
  "iter_point_caches ms psys = concat (map modifier_caches ms) @ map (\<lambda>(n, pc). (''psys/'' @ n, pc)) psys"

definition BAKE_NODE_IDS :: "string list" where
  "BAKE_NODE_IDS = [''GeometryNodeSimulationOutput'', ''GeometryNodeBake'']"

definition bakes :: "node \<Rightarrow> bool" where
  "bakes n \<longleftrightarrow> nd_idname n \<in> set BAKE_NODE_IDS"

definition has_bake_nodes :: "modifier list \<Rightarrow> bool" where
  "has_bake_nodes ms = list_ex (\<lambda>m. case md_group m of None \<Rightarrow> False
     | Some t \<Rightarrow> list_ex (\<lambda>n. bakes n \<or> (case nd_tree n of None \<Rightarrow> False | Some inner \<Rightarrow> list_ex bakes (tree_nodes inner)))
         (tree_nodes t)) ms"

definition cache_row :: "string \<times> point_cache \<Rightarrow> json" where
  "cache_row tp = (case tp of (tag, pc) \<Rightarrow> JList [JStr tag, JBool (pc_baked pc), JBool (pc_disk pc), JInt (pc_start pc),
     JInt (pc_end pc), JBool (pc_external pc), JStr (pc_path pc)])"

text \<open>\<open>_pcache_signature\<close>: the same caches in the same order as \<open>_iter_point_caches\<close>.\<close>

definition pcache_signature :: "modifier list \<Rightarrow> (string \<times> point_cache) list \<Rightarrow> json" where
  "pcache_signature ms psys = JList (map cache_row (iter_point_caches ms psys))"

definition ramp_row :: "digest_env \<Rightarrow> color_ramp \<Rightarrow> json" where
  "ramp_row e r = JList [JStr (cr_interpolation r), JStr (cr_mode r),
     JList (map (\<lambda>(p, c). JList [rnd e 5 p, JList (map (rnd e 5) c)]) (cr_elements r))]"

definition node_row :: "digest_env \<Rightarrow> node \<Rightarrow> json" where
  "node_row e n = JList ([JStr (nd_name n), JStr (nd_idname n), JBool (nd_mute n), JStr (settings_digest e 1 (nd_rna n))]
     @ map (ramp_row e) (option_list (nd_ramp n))
     @ map (\<lambda>cs. JList (map (\<lambda>c. JList (map (\<lambda>(x, y, h). JList [rnd e 5 x, rnd e 5 y, JStr h]) c)) cs)) (option_list (nd_curves n)))"

definition nodes_signature :: "digest_env \<Rightarrow> node_tree \<Rightarrow> json" where
  "nodes_signature e t = JList (map (node_row e) (tree_nodes t))"

end
