(* ===== verification/Snapshot_Build.thy ===== *)
theory Snapshot_Build
  imports Snapshot Protocol
begin

text \<open>
  \<open>build_snapshot\<close> of \<open>ring0/host_handlers.py\<close> and its counterpart on the replica, \<open>_write_rna\<close> of
  \<open>ring0/replica_apply.py\<close>. A datablock is what the two read and write: its RNA values by path (the sockets of its
  nodes and the values of its shape keys included, as \<open>path_resolve\<close> reaches them), its custom properties, and the
  state that is no RNA property. A pointer to another datablock that rides by name is that name.
\<close>

datatype db_class = Cl_Object | Cl_Light | Cl_Camera | Cl_Scene | Cl_Material | Cl_World | Cl_Collection | Cl_Key | Cl_Other

definition type_key :: "db_class \<Rightarrow> string option" where
  "type_key c = (case c of Cl_Object \<Rightarrow> Some ''OBJECT'' | Cl_Light \<Rightarrow> Some ''LIGHT'' | Cl_Camera \<Rightarrow> Some ''CAMERA''
     | Cl_Scene \<Rightarrow> Some ''SCENE'' | Cl_Material \<Rightarrow> Some ''MATERIAL'' | Cl_World \<Rightarrow> Some ''WORLD''
     | Cl_Collection \<Rightarrow> Some ''COLLECTION'' | Cl_Key \<Rightarrow> Some ''KEY'' | Cl_Other \<Rightarrow> None)"

record datablock =
  db_class :: db_class
  db_anim :: "animation option option"
  db_rna :: "(string, py_val) dict"
  db_idprops :: "(string, py_val) dict"
  db_nodes :: "node_tree option"
  ob_modifiers :: "modifier list"
  ob_psys :: "(string \<times> point_cache) list"
  ob_constraints :: "constraint list"
  ob_parent :: "(int \<times> string \<times> string \<times> int list \<times> json list list) option"
  ob_data :: "(string \<times> int) option"
  ob_slots :: "(string \<times> int option) list"
  ob_pose :: "pose_bone list option"
  ob_hide :: "bool option"
  ob_instance :: "string option"
  ob_receiver :: "string option"
  ob_blocker :: "string option"
  ca_focus :: "string option"
  ca_images :: "(string \<times> int option \<times> json \<times> string \<times> string \<times> json \<times> json list \<times> json) list"
  sc_camera :: "string option"
  sc_world :: "string option"
  sc_rbw :: bool
  sc_objects :: "string list"
  sc_children :: "string list"
  sc_markers :: "(string \<times> int \<times> string option) list"
  sc_layers :: "(string \<times> rna) list"
  sc_compositor :: "node_tree option"
  co_objects :: "string list"
  co_children :: "string list"
  co_layer :: "(bool \<times> bool) option"
  ke_blocks :: "string list"

type_synonym entries = "(string \<times> json) list"

definition name_of :: "string option \<Rightarrow> json" where
  "name_of p = JStr (case p of None \<Rightarrow> [] | Some n \<Rightarrow> n)"

subsection \<open>The snapshot\<close>

definition tracked_entries :: "datablock \<Rightarrow> entries" where
  "tracked_entries db = concat (map (\<lambda>path. case dget (db_rna db) path of None \<Rightarrow> []
       | Some v \<Rightarrow> if coerce v = JNull then [] else [(path, coerce v)])
     (case type_key (db_class db) of None \<Rightarrow> [] | Some k \<Rightarrow> (case dget TRACKED k of None \<Rightarrow> [] | Some ps \<Rightarrow> ps)))"

definition idprop_path :: "string \<Rightarrow> string" where
  "idprop_path k = ''['' @ dumps (JStr k) @ '']''"

definition idprop_entries :: "datablock \<Rightarrow> entries" where
  "idprop_entries db = concat (map (\<lambda>(k, v).
     if k = UUID_PROP \<or> private_prop k \<or> is_group v \<or> coerce v = JNull \<or> contains_none (coerce v) then []
     else [(idprop_path k, coerce v)]) (db_idprops db))"

definition parent_row :: "digest_env \<Rightarrow> datablock \<Rightarrow> json" where
  "parent_row e db = (case ob_parent db of None \<Rightarrow> JNull
     | Some (u, ty, bone, verts, inv_rows) \<Rightarrow> JList [JInt u, JStr ty, JStr bone, JList (map JInt verts),
         JList (map (rnd e 6) (concat inv_rows))])"

definition object_entries :: "digest_env \<Rightarrow> string list \<Rightarrow> datablock \<Rightarrow> entries" where
  "object_entries e animated db =
     [(''~modifiers'', JList (map (\<lambda>m. JList [JStr (md_name m), JStr (md_type m), JBool (md_show m),
         JStr (settings_digest e 0 (md_rna m))]) (ob_modifiers db))),
      (''~parent'', parent_row e db),
      (''~constraints'', JList (map (\<lambda>c. JList [JStr (cs_name c), JStr (cs_type c), JStr (settings_digest e 0 (cs_rna c))])
         (ob_constraints db))),
      (''~pcache'', pcache_signature (ob_modifiers db) (ob_psys db)),
      (''~data'', case ob_data db of None \<Rightarrow> JNull | Some (ty, u) \<Rightarrow> JList [JStr ty, JInt u]),
      (''~materials'', JList (map (\<lambda>(l, u). JList [JStr l, opt_uid u]) (ob_slots db))),
      (''@instance_collection'', name_of (ob_instance db)),
      (''@ll_receiver'', name_of (ob_receiver db)),
      (''@ll_blocker'', name_of (ob_blocker db))]
     @ idprop_entries db
     @ (case ob_pose db of None \<Rightarrow> [] | Some bones \<Rightarrow> [(''~pose'', JStr (pose_digest e True animated bones))])
     @ (case ob_hide db of None \<Rightarrow> [] | Some h \<Rightarrow> [(''@hide'', JBool h)])"

definition key_path :: "string \<Rightarrow> string \<Rightarrow> string" where
  "key_path n attr = ''key_blocks['' @ dumps (JStr n) @ ''].'' @ attr"

definition rna_entry :: "datablock \<Rightarrow> string \<Rightarrow> entries" where
  "rna_entry db path = (case dget (db_rna db) path of None \<Rightarrow> [] | Some v \<Rightarrow> [(path, coerce v)])"

definition key_entries :: "datablock \<Rightarrow> entries" where
  "key_entries db = concat (map (\<lambda>n. rna_entry db (key_path n ''value'') @ rna_entry db (key_path n ''mute'')) (ke_blocks db))"

definition camera_entries :: "digest_env \<Rightarrow> datablock \<Rightarrow> entries" where
  "camera_entries e db =
     [(''@dof_focus_object'', name_of (ca_focus db)),
      (''~bg_images'', JList (map (\<lambda>(src, img, alpha, depth, frm, scl, off, rot).
         JList [JStr src, opt_uid img, alpha, JStr depth, JStr frm, rnd e 4 scl, JList (map (rnd e 4) off), rnd e 4 rot])
         (ca_images db)))]"

definition scene_entries :: "digest_env \<Rightarrow> datablock \<Rightarrow> entries" where
  "scene_entries e db =
     [(''@scene_camera'', name_of (sc_camera db)),
      (''@scene_world'', name_of (sc_world db)),
      (''@rbw'', JBool (sc_rbw db)),
      (''@master_members'', JList [JList (map JStr (sort (sc_objects db))), JList (map JStr (sort (sc_children db)))]),
      (''~scene_struct'', JList
        [JList (map (\<lambda>(n, f, c). JList [JStr n, JInt f, case c of None \<Rightarrow> JNull | Some x \<Rightarrow> JStr x]) (sc_markers db)),
         JList (map (\<lambda>(n, r). JList [JStr n, JStr (settings_digest e 1 r)]) (sc_layers db)),
         case sc_compositor db of None \<Rightarrow> JNull | Some t \<Rightarrow> nodes_signature e t])]"

definition collection_entries :: "datablock \<Rightarrow> entries" where
  "collection_entries db =
     (''~members'', JList (map JStr (sort (co_objects db @ co_children db))))
     # (case co_layer db of None \<Rightarrow> [] | Some (ex, hi) \<Rightarrow> [(''@lc_exclude'', JBool ex), (''@lc_hide'', JBool hi)])"

text \<open>\<open>_walk_sockets\<close>: a socket's default value is reached by its path; one without has none.\<close>

definition socket_path :: "node \<Rightarrow> nat \<Rightarrow> string" where
  "socket_path n i = ''node_tree.'' @ nd_path n @ ''.inputs['' @ nat_text i @ '']''"

definition socket_entries :: "datablock \<Rightarrow> node \<Rightarrow> nat \<times> node_socket \<Rightarrow> entries" where
  "socket_entries db n isk = (case isk of (i, sk) \<Rightarrow>
     (case sk_link sk of None \<Rightarrow> [] | Some (from_node, from_socket) \<Rightarrow>
        [(''~link.'' @ socket_path n i, JStr (from_node @ ''.'' @ from_socket))])
     @ (case dget (db_rna db) (socket_path n i @ ''.default_value'') of None \<Rightarrow> []
        | Some v \<Rightarrow> if coerce v = JNull then [] else [(socket_path n i @ ''.default_value'', coerce v)]))"

definition walk_sockets :: "datablock \<Rightarrow> node_tree \<Rightarrow> entries" where
  "walk_sockets db t = concat (map (\<lambda>n. concat (map (socket_entries db n) (enumerate 0 (nd_inputs n)))) (tree_nodes t))"

definition snapshot_entries :: "digest_env \<Rightarrow> string list \<Rightarrow> datablock \<Rightarrow> entries" where
  "snapshot_entries e animated db =
     (case db_anim db of None \<Rightarrow> [] | Some an \<Rightarrow> [(''~anim'', anim_signature e an)])
     @ tracked_entries db
     @ (if db_class db = Cl_Object then object_entries e animated db else [])
     @ (if db_class db = Cl_Key then key_entries db else [])
     @ (if db_class db = Cl_Camera then camera_entries e db else [])
     @ (if db_class db = Cl_Scene then scene_entries e db else [])
     @ (if db_class db = Cl_Collection then collection_entries db else [])
     @ (case db_nodes db of None \<Rightarrow> [] | Some t \<Rightarrow> walk_sockets db t @ [(''~nodes'', nodes_signature e t)])
     @ (if type_key (db_class db) \<noteq> None \<and> db_class db \<noteq> Cl_Object then idprop_entries db else [])
     @ (if type_key (db_class db) \<noteq> None \<and> db_class db \<noteq> Cl_Scene
        then [(''~idprop_groups'', idprop_groups_signature e (db_idprops db))] else [])"

definition put_all :: "entries \<Rightarrow> json snapshot \<Rightarrow> json snapshot" where
  "put_all = fold (\<lambda>(path, v). dset path v)"

text \<open>The bones of the pose are compared by name with those the object's actions move.\<close>

definition build_snapshot :: "digest_env \<Rightarrow> datablock \<Rightarrow> py_error + json snapshot" where
  "build_snapshot e db =
     (case (if db_class db = Cl_Object \<and> ob_pose db \<noteq> None
            then animated_bones (case db_anim db of None \<Rightarrow> None | Some an \<Rightarrow> an) else Inr []) of
        Inl err \<Rightarrow> Inl err
      | Inr animated \<Rightarrow> Inr (put_all (snapshot_entries e animated db) []))"

text \<open>\<open>_object_sweep_vector\<close>; \<open>field\<close> and \<open>instance_collection\<close> read as empty text when there is none.\<close>

definition rna_value :: "datablock \<Rightarrow> string \<Rightarrow> json" where
  "rna_value db path = (case dget (db_rna db) path of None \<Rightarrow> JNull | Some v \<Rightarrow> coerce v)"

definition object_sweep_vector :: "digest_env \<Rightarrow> datablock \<Rightarrow> py_error + json list" where
  "object_sweep_vector e db =
     (case (if ob_pose db \<noteq> None then animated_bones (case db_anim db of None \<Rightarrow> None | Some an \<Rightarrow> an) else Inr []) of
        Inl err \<Rightarrow> Inl err
      | Inr animated \<Rightarrow> Inr
          [case ob_hide db of None \<Rightarrow> JNull | Some h \<Rightarrow> JBool h,
           rna_value db ''hide_viewport'', rna_value db ''hide_render'',
           pcache_signature (ob_modifiers db) (ob_psys db),
           JStr (idprops_digest e (db_idprops db)),
           case ob_pose db of None \<Rightarrow> JNull | Some bones \<Rightarrow> JStr (pose_digest e False animated bones),
           rna_value db ''name'',
           rna_value db ''display_type'', rna_value db ''show_in_front'', rna_value db ''instance_type'',
           name_of (ob_instance db),
           rna_value db ''visible_camera'', rna_value db ''is_holdout'', rna_value db ''is_shadow_catcher'',
           case dget (db_rna db) ''field.type'' of None \<Rightarrow> JStr [] | Some v \<Rightarrow> coerce v])"

subsection \<open>Writing a change\<close>

text \<open>
  What a write needs of the replica's Blender: whether a name exists among the objects, collections and worlds, the
  engine that stands for the host's, and whether a property takes a value. Where Blender raises, the kind of error is
  immaterial: the caller catches every one.
\<close>

record write_env =
  we_objects :: "string \<Rightarrow> bool"
  we_collections :: "string \<Rightarrow> bool"
  we_worlds :: "string \<Rightarrow> bool"
  we_engine :: "string \<Rightarrow> string"
  we_accepts :: "string \<Rightarrow> json \<Rightarrow> bool"

definition as_pv :: "json \<Rightarrow> py_val" where
  "as_pv v = (case v of JList xs \<Rightarrow> PV_Vector xs | _ \<Rightarrow> PV_Json v)"

text \<open>\<open>names.get(value) if value else None\<close>\<close>

definition look_up :: "(string \<Rightarrow> bool) \<Rightarrow> json \<Rightarrow> py_error + string option" where
  "look_up names v = (if \<not> json_true v then Inr None
     else case v of JStr n \<Rightarrow> Inr (if names n then Some n else None) | _ \<Rightarrow> Inl TypeError)"

definition str_list :: "json \<Rightarrow> string list option" where
  "str_list v = (case v of JList xs \<Rightarrow> if list_all (\<lambda>x. case x of JStr s \<Rightarrow> True | _ \<Rightarrow> False) xs
       then Some (map (\<lambda>x. case x of JStr s \<Rightarrow> s | _ \<Rightarrow> []) xs) else None
     | _ \<Rightarrow> None)"

text \<open>Unlink what is not wanted, link what is wanted, exists and is not a member.\<close>

definition relink :: "(string \<Rightarrow> bool) \<Rightarrow> string list \<Rightarrow> string list \<Rightarrow> string list" where
  "relink names want have = (let kept = filter (\<lambda>n. n \<in> set want) have
     in kept @ filter (\<lambda>n. names n \<and> n \<notin> set kept) (remdups want))"

definition write_members :: "write_env \<Rightarrow> json \<Rightarrow> datablock \<Rightarrow> py_error + datablock" where
  "write_members w v db = (case v of
     JList (os # cs # rest) \<Rightarrow> (case (str_list os, str_list cs) of
         (Some want_objs, Some want_colls) \<Rightarrow> Inr (db\<lparr>sc_objects := relink (we_objects w) want_objs (sc_objects db),
            sc_children := relink (we_collections w) want_colls (sc_children db)\<rparr>)
       | _ \<Rightarrow> Inl TypeError)
   | _ \<Rightarrow> Inl TypeError)"

definition write_pointer :: "(string \<Rightarrow> bool) \<Rightarrow> json \<Rightarrow> (string option \<Rightarrow> datablock) \<Rightarrow> py_error + datablock" where
  "write_pointer names v put = (case look_up names v of Inl err \<Rightarrow> Inl err | Inr p \<Rightarrow> Inr (put p))"

definition write_layer :: "bool \<Rightarrow> json \<Rightarrow> datablock \<Rightarrow> py_error + datablock" where
  "write_layer exclude v db = (case co_layer db of None \<Rightarrow> Inl ValueError
     | Some (ex, hi) \<Rightarrow> Inr (db\<lparr>co_layer := Some (if exclude then (json_true v, hi) else (ex, json_true v))\<rparr>))"

definition write_idprop :: "string \<Rightarrow> json \<Rightarrow> datablock \<Rightarrow> py_error + datablock" where
  "write_idprop path v db = (case loads (butlast (tl path)) of
     Some (JStr k) \<Rightarrow> Inr (db\<lparr>db_idprops := dset k (as_pv v) (db_idprops db)\<rparr>)
   | Some _ \<Rightarrow> Inl TypeError | None \<Rightarrow> Inl ValueError)"

definition write_value :: "write_env \<Rightarrow> string \<Rightarrow> json \<Rightarrow> datablock \<Rightarrow> py_error + datablock" where
  "write_value w path v db =
     (if dget (db_rna db) path = None then Inl AttributeError
      else if we_accepts w path v then Inr (db\<lparr>db_rna := dset path (as_pv v) (db_rna db)\<rparr>) else Inl TypeError)"

definition map_engine_value :: "write_env \<Rightarrow> json \<Rightarrow> json" where
  "map_engine_value w v = (case v of JStr n \<Rightarrow> JStr (we_engine w n) | _ \<Rightarrow> v)"

definition bracketed :: "string \<Rightarrow> bool" where
  "bracketed p \<longleftrightarrow> take 1 p = ''[''"

definition write_rna :: "write_env \<Rightarrow> string \<Rightarrow> json \<Rightarrow> datablock \<Rightarrow> py_error + datablock" where
  "write_rna w path v db =
     (if path = ''@hide'' then (if ob_hide db = None then Inl ValueError else Inr (db\<lparr>ob_hide := Some (json_true v)\<rparr>))
      else if path = ''@scene_camera'' then write_pointer (we_objects w) v (\<lambda>p. db\<lparr>sc_camera := p\<rparr>)
      else if path = ''@scene_world'' then write_pointer (we_worlds w) v (\<lambda>p. db\<lparr>sc_world := p\<rparr>)
      else if path = ''@instance_collection'' then write_pointer (we_collections w) v (\<lambda>p. db\<lparr>ob_instance := p\<rparr>)
      else if path = ''@ll_receiver'' then write_pointer (we_collections w) v (\<lambda>p. db\<lparr>ob_receiver := p\<rparr>)
      else if path = ''@ll_blocker'' then write_pointer (we_collections w) v (\<lambda>p. db\<lparr>ob_blocker := p\<rparr>)
      else if path = ''@dof_focus_object'' then write_pointer (we_objects w) v (\<lambda>p. db\<lparr>ca_focus := p\<rparr>)
      else if path = ''@rbw'' then Inr (db\<lparr>sc_rbw := json_true v\<rparr>)
      else if path = ''@master_members'' then write_members w v db
      else if path = ''@lc_exclude'' then write_layer True v db
      else if path = ''@lc_hide'' then write_layer False v db
      else if bracketed path then write_idprop path v db
      else write_value w path (if path = ''render.engine'' then map_engine_value w v else v) db)"

subsection \<open>What a snapshot reads\<close>

text \<open>A path that travels as a tier-1 change, and the cell of the datablock it names.\<close>

definition idprop_cell :: "(string, py_val) dict \<Rightarrow> string \<Rightarrow> json option" where
  "idprop_cell kvs p = (case loads (butlast (tl p)) of Some (JStr k) \<Rightarrow> map_option coerce (dget kvs k) | _ \<Rightarrow> None)"

definition cell :: "string \<Rightarrow> datablock \<Rightarrow> json option" where
  "cell p db =
     (if p = ''@hide'' then map_option JBool (ob_hide db)
      else if p = ''@scene_camera'' then Some (name_of (sc_camera db))
      else if p = ''@scene_world'' then Some (name_of (sc_world db))
      else if p = ''@instance_collection'' then Some (name_of (ob_instance db))
      else if p = ''@ll_receiver'' then Some (name_of (ob_receiver db))
      else if p = ''@ll_blocker'' then Some (name_of (ob_blocker db))
      else if p = ''@dof_focus_object'' then Some (name_of (ca_focus db))
      else if p = ''@rbw'' then Some (JBool (sc_rbw db))
      else if p = ''@master_members''
      then Some (JList [JList (map JStr (sort (sc_objects db))), JList (map JStr (sort (sc_children db)))])
      else if p = ''@lc_exclude'' then map_option (\<lambda>l. JBool (fst l)) (co_layer db)
      else if p = ''@lc_hide'' then map_option (\<lambda>l. JBool (snd l)) (co_layer db)
      else if bracketed p then idprop_cell (db_idprops db) p
      else if take 1 p = ''@'' then None
      else map_option coerce (dget (db_rna db) p))"

lemma loads_idprop_path: "loads (butlast (tl (idprop_path k))) = Some (JStr k)"
  using loads_dumps [of "JStr k"] by (simp add: idprop_path_def)

lemma idprop_path_inj: "idprop_path k = idprop_path j \<longleftrightarrow> k = j"
  by (metis loads_idprop_path json.inject(4) option.inject)

lemma idprop_path_neq [simp]: "idprop_path k \<noteq> CHR ''@'' # r" "CHR ''@'' # r \<noteq> idprop_path k" "bracketed (idprop_path k)"
  "\<not> tilde (idprop_path k)"
  by (simp_all add: idprop_path_def tilde_def bracketed_def)

lemma cell_at [simp]:
  "cell ''@hide'' db = map_option JBool (ob_hide db)" "cell ''@scene_camera'' db = Some (name_of (sc_camera db))"
  "cell ''@scene_world'' db = Some (name_of (sc_world db))" "cell ''@instance_collection'' db = Some (name_of (ob_instance db))"
  "cell ''@ll_receiver'' db = Some (name_of (ob_receiver db))" "cell ''@ll_blocker'' db = Some (name_of (ob_blocker db))"
  "cell ''@dof_focus_object'' db = Some (name_of (ca_focus db))" "cell ''@rbw'' db = Some (JBool (sc_rbw db))"
  "cell ''@master_members'' db
     = Some (JList [JList (map JStr (sort (sc_objects db))), JList (map JStr (sort (sc_children db)))])"
  "cell ''@lc_exclude'' db = map_option (\<lambda>l. JBool (fst l)) (co_layer db)"
  "cell ''@lc_hide'' db = map_option (\<lambda>l. JBool (snd l)) (co_layer db)"
  by (simp_all add: cell_def)

lemma cell_idprop [simp]: "cell (idprop_path k) db = map_option coerce (dget (db_idprops db) k)"
  by (simp add: cell_def idprop_cell_def loads_idprop_path)

definition plain_path :: "string \<Rightarrow> bool" where
  "plain_path p \<longleftrightarrow> take 1 p \<noteq> ''@'' \<and> \<not> bracketed p \<and> \<not> tilde p"

lemma cell_plain: "plain_path p \<Longrightarrow> cell p db = map_option coerce (dget (db_rna db) p)"
proof -
  assume a: "plain_path p"
  then have "p \<noteq> CHR ''@'' # r" for r by (auto simp: plain_path_def)
  then show ?thesis using a by (simp add: cell_def plain_path_def)
qed

lemma tracked_plain:
  assumes "dget TRACKED k = Some ps" "p \<in> set ps"
  shows "plain_path p"
proof -
  have "list_all (\<lambda>(_, ps). list_all plain_path ps) TRACKED"
    unfolding plain_path_def [abs_def] bracketed_def tilde_def by code_simp
  then show ?thesis using map_of_SomeD [OF assms(1)] assms(2) by (auto simp: list_all_iff)
qed

lemma path_shapes [simp]: "plain_path (key_path n a)" "plain_path (socket_path nd i @ r)" "tilde (''~link.'' @ r)"
  by (simp_all add: key_path_def socket_path_def plain_path_def tilde_def bracketed_def)

lemma in_tracked_entries:
  "(p, v) \<in> set (tracked_entries db) \<longleftrightarrow> v \<noteq> JNull \<and> (\<exists>k ps w. type_key (db_class db) = Some k \<and> dget TRACKED k = Some ps
     \<and> p \<in> set ps \<and> dget (db_rna db) p = Some w \<and> v = coerce w)"
proof (cases "type_key (db_class db)")
  case None
  then show ?thesis by (simp add: tracked_entries_def)
next
  case (Some k)
  show ?thesis
  proof (cases "dget TRACKED k")
    case None
    then show ?thesis using Some by (simp add: tracked_entries_def)
  next
    case (Some ps)
    have "tracked_entries db = concat (map (\<lambda>path. case dget (db_rna db) path of None \<Rightarrow> []
        | Some v \<Rightarrow> if coerce v = JNull then [] else [(path, coerce v)]) ps)"
      using Some \<open>type_key (db_class db) = Some k\<close> by (simp add: tracked_entries_def)
    then show ?thesis using Some \<open>type_key (db_class db) = Some k\<close> by (force split: option.splits if_splits)
  qed
qed

lemma tracked_entries_cell:
  assumes "(p, v) \<in> set (tracked_entries db)"
  shows "plain_path p" "cell p db = Some v" "v \<noteq> JNull"
proof -
  obtain k ps w where e: "v \<noteq> JNull" "dget TRACKED k = Some ps" "p \<in> set ps" "dget (db_rna db) p = Some w" "v = coerce w"
    using assms in_tracked_entries by auto
  show p: "plain_path p" by (rule tracked_plain [OF e(2,3)])
  show "cell p db = Some v" using e by (simp add: cell_plain [OF p])
  show "v \<noteq> JNull" by (rule e(1))
qed

lemma in_idprop_entries:
  "(p, v) \<in> set (idprop_entries db) \<longleftrightarrow> (\<exists>k w. (k, w) \<in> set (db_idprops db) \<and> p = idprop_path k \<and> v = coerce w
     \<and> k \<noteq> UUID_PROP \<and> \<not> private_prop k \<and> \<not> is_group w \<and> v \<noteq> JNull \<and> \<not> contains_none v)"
  by (auto simp: idprop_entries_def split: if_splits)

lemma idprop_entries_cell: "dict_ok (db_idprops db) \<Longrightarrow> (p, v) \<in> set (idprop_entries db) \<Longrightarrow> cell p db = Some v"
  by (auto simp: in_idprop_entries dict_ok_in_set)

lemma in_rna_entry: "(p, v) \<in> set (rna_entry db path) \<longleftrightarrow> p = path \<and> (\<exists>w. dget (db_rna db) path = Some w \<and> v = coerce w)"
  by (cases "dget (db_rna db) path") (auto simp: rna_entry_def)

lemma in_socket_entries:
  assumes "(p, v) \<in> set (socket_entries db n (i, sk))" "\<not> tilde p"
  shows "p = socket_path n i @ ''.default_value'' \<and> v \<noteq> JNull \<and> (\<exists>w. dget (db_rna db) p = Some w \<and> v = coerce w)"
proof -
  have "(p, v) \<notin> set (case sk_link sk of None \<Rightarrow> [] | Some (from_node, from_socket) \<Rightarrow>
        [(''~link.'' @ socket_path n i, JStr (from_node @ ''.'' @ from_socket))])"
    using assms(2) path_shapes(3) [of "socket_path n i"] by (cases "sk_link sk") auto
  then show ?thesis using assms(1)
    by (cases "dget (db_rna db) (socket_path n i @ ''.default_value'')") (auto simp: socket_entries_def split: if_splits)
qed

lemma snapshot_entries_cell:
  assumes "dict_ok (db_idprops db)" "(p, v) \<in> set (snapshot_entries e animated db)" "\<not> tilde p"
  shows "cell p db = Some v"
proof -
  have obj: "cell p db = Some v" if "(p, v) \<in> set (object_entries e animated db)"
    using that assms(3) idprop_entries_cell [OF assms(1), of p v]
    by (auto simp: object_entries_def tilde_def split: option.splits)
  have ke: "cell p db = Some v" if "(p, v) \<in> set (key_entries db)"
    using that by (auto simp: key_entries_def in_rna_entry cell_plain)
  have ca: "cell p db = Some v" if "(p, v) \<in> set (camera_entries e db)"
    using that assms(3) by (auto simp: camera_entries_def tilde_def)
  have sc: "cell p db = Some v" if "(p, v) \<in> set (scene_entries e db)"
    using that assms(3) by (auto simp: scene_entries_def tilde_def)
  have co: "cell p db = Some v" if "(p, v) \<in> set (collection_entries db)"
    using that assms(3) by (cases "co_layer db") (auto simp: collection_entries_def tilde_def)
  have wa: "cell p db = Some v" if "(p, v) \<in> set (walk_sockets db t)" for t
    using that assms(3) by (auto simp: walk_sockets_def cell_plain dest!: in_socket_entries)
  have an: "(p, v) \<notin> set (case db_anim db of None \<Rightarrow> [] | Some an \<Rightarrow> [(''~anim'', anim_signature e an)])"
    using assms(3) by (auto simp: tilde_def split: option.splits)
  have no: "p \<noteq> ''~nodes''" "p \<noteq> ''~idprop_groups''" using assms(3) by (auto simp: tilde_def)
  have nodes: "cell p db = Some v" if "(p, v) \<in> set (case db_nodes db of None \<Rightarrow> []
      | Some t \<Rightarrow> walk_sockets db t @ [(''~nodes'', nodes_signature e t)])"
    using that wa no(1) by (auto split: option.splits)
  show ?thesis
    using assms(2) an obj ke ca sc co nodes no(2) tracked_entries_cell(2) [of p v db] idprop_entries_cell [OF assms(1), of p v]
    unfolding snapshot_entries_def by (auto split: if_splits)
qed

lemma put_all_dget: "dget (put_all es d) p = (if p \<in> fst ` set es then map_of (rev es) p else dget d p)"
  unfolding put_all_def by (induction es rule: rev_induct) (auto simp: image_iff, fastforce)

lemma put_all_cell:
  assumes "dict_ok (db_idprops db)" "\<not> tilde p"
  shows "dget (put_all (snapshot_entries e animated db) []) p =
    (if p \<in> fst ` set (snapshot_entries e animated db) then cell p db else None)"
proof (cases "p \<in> fst ` set (snapshot_entries e animated db)")
  case False
  then show ?thesis by (simp add: put_all_dget)
next
  case True
  then obtain v where v: "map_of (rev (snapshot_entries e animated db)) p = Some v"
    by (metis map_of_eq_None_iff not_None_eq set_map set_rev)
  then have "(p, v) \<in> set (snapshot_entries e animated db)" using map_of_SomeD [OF v] by simp
  then show ?thesis using True v snapshot_entries_cell [OF assms(1) _ assms(2)] by (simp add: put_all_dget)
qed

subsection \<open>Which paths a snapshot has\<close>

definition readable :: "datablock \<Rightarrow> string \<Rightarrow> bool" where
  "readable db p \<longleftrightarrow> (\<exists>w. dget (db_rna db) p = Some w \<and> coerce w \<noteq> JNull)"

definition sendable_idprop :: "datablock \<Rightarrow> string \<Rightarrow> bool" where
  "sendable_idprop db k \<longleftrightarrow> k \<noteq> UUID_PROP \<and> \<not> private_prop k \<and> (\<exists>w. (k, w) \<in> set (db_idprops db) \<and> \<not> is_group w
     \<and> coerce w \<noteq> JNull \<and> \<not> contains_none (coerce w))"

definition emitted :: "datablock \<Rightarrow> string \<Rightarrow> bool" where
  "emitted db p \<longleftrightarrow>
     (\<exists>k ps. type_key (db_class db) = Some k \<and> dget TRACKED k = Some ps \<and> p \<in> set ps \<and> readable db p)
     \<or> (db_class db = Cl_Object \<and> (p \<in> {''@instance_collection'', ''@ll_receiver'', ''@ll_blocker''} \<or> p = ''@hide'' \<and> ob_hide db \<noteq> None))
     \<or> (db_class db = Cl_Key \<and> (\<exists>n \<in> set (ke_blocks db). p \<in> {key_path n ''value'', key_path n ''mute''} \<and> dget (db_rna db) p \<noteq> None))
     \<or> (db_class db = Cl_Camera \<and> p = ''@dof_focus_object'')
     \<or> (db_class db = Cl_Scene \<and> p \<in> {''@scene_camera'', ''@scene_world'', ''@rbw'', ''@master_members''})
     \<or> (db_class db = Cl_Collection \<and> co_layer db \<noteq> None \<and> p \<in> {''@lc_exclude'', ''@lc_hide''})
     \<or> (\<exists>t n i. db_nodes db = Some t \<and> n \<in> set (tree_nodes t) \<and> i < length (nd_inputs n)
          \<and> p = socket_path n i @ ''.default_value'' \<and> readable db p)
     \<or> (type_key (db_class db) \<noteq> None \<and> (\<exists>k. p = idprop_path k \<and> sendable_idprop db k))"

definition has :: "string \<Rightarrow> entries \<Rightarrow> bool" where
  "has p es \<longleftrightarrow> (\<exists>v. (p, v) \<in> set es)"

lemma has_simps [simp]: "\<not> has p []" "has p ((q, v) # es) \<longleftrightarrow> p = q \<or> has p es" "has p (es @ fs) \<longleftrightarrow> has p es \<or> has p fs"
  "has p (concat (map f xs)) \<longleftrightarrow> (\<exists>x \<in> set xs. has p (f x))"
  by (auto simp: has_def)

lemma has_keys: "p \<in> fst ` set es \<longleftrightarrow> has p es"
  by (force simp: has_def)

lemma has_option [simp]: "has p (case x of None \<Rightarrow> [] | Some y \<Rightarrow> f y) \<longleftrightarrow> (\<exists>y. x = Some y \<and> has p (f y))"
  by (cases x) auto

lemma has_if [simp]: "has p (if b then es else []) \<longleftrightarrow> b \<and> has p es" "has p (if b then [] else es) \<longleftrightarrow> \<not> b \<and> has p es"
  by auto

lemma tracked_paths: "has p (tracked_entries db) \<longleftrightarrow>
    (\<exists>k ps. type_key (db_class db) = Some k \<and> dget TRACKED k = Some ps \<and> p \<in> set ps \<and> readable db p)"
  unfolding has_def in_tracked_entries readable_def by blast

lemma idprop_paths: "has p (idprop_entries db) \<longleftrightarrow> (\<exists>k. p = idprop_path k \<and> sendable_idprop db k)"
  unfolding has_def in_idprop_entries sendable_idprop_def by blast

lemma not_tilde: "\<not> tilde p \<Longrightarrow> p \<noteq> CHR ''~'' # r"
  by (auto simp: tilde_def)

lemma object_paths:
  assumes "\<not> tilde p"
  shows "has p (object_entries e animated db) \<longleftrightarrow> p \<in> {''@instance_collection'', ''@ll_receiver'', ''@ll_blocker''}
     \<or> p = ''@hide'' \<and> ob_hide db \<noteq> None \<or> has p (idprop_entries db)"
  by (simp add: object_entries_def not_tilde [OF assms]) blast

lemma rna_entry_path: "has p (rna_entry db q) \<longleftrightarrow> p = q \<and> dget (db_rna db) q \<noteq> None"
  unfolding has_def in_rna_entry by auto

lemma key_paths: "has p (key_entries db) \<longleftrightarrow>
    (\<exists>n \<in> set (ke_blocks db). p \<in> {key_path n ''value'', key_path n ''mute''} \<and> dget (db_rna db) p \<noteq> None)"
  by (auto simp: key_entries_def rna_entry_path)

lemma collection_paths:
  assumes "\<not> tilde p"
  shows "has p (collection_entries db) \<longleftrightarrow> co_layer db \<noteq> None \<and> p \<in> {''@lc_exclude'', ''@lc_hide''}"
  by (cases "co_layer db") (auto simp: collection_entries_def not_tilde [OF assms])

lemma socket_entry_path:
  assumes "\<not> tilde p"
  shows "has p (socket_entries db n (i, sk)) \<longleftrightarrow> p = socket_path n i @ ''.default_value'' \<and> readable db p"
proof
  assume "has p (socket_entries db n (i, sk))"
  then show "p = socket_path n i @ ''.default_value'' \<and> readable db p"
    using in_socket_entries [OF _ assms] unfolding has_def readable_def by blast
next
  assume "p = socket_path n i @ ''.default_value'' \<and> readable db p"
  then show "has p (socket_entries db n (i, sk))" by (auto simp: socket_entries_def readable_def)
qed

lemma socket_paths:
  assumes "\<not> tilde p"
  shows "has p (walk_sockets db t) \<longleftrightarrow> (\<exists>n i. n \<in> set (tree_nodes t) \<and> i < length (nd_inputs n)
     \<and> p = socket_path n i @ ''.default_value'' \<and> readable db p)"
proof -
  have "(i, sk) \<in> set (enumerate 0 xs) \<longleftrightarrow> i < length xs \<and> sk = xs ! i" for i and sk :: node_socket and xs
    by (auto simp: in_set_enumerate_eq)
  then show ?thesis by (auto simp: walk_sockets_def Bex_def socket_entry_path [OF assms])
qed

lemma snapshot_paths:
  assumes "\<not> tilde p"
  shows "has p (snapshot_entries e animated db) \<longleftrightarrow> emitted db p"
proof -
  note n = not_tilde [OF assms]
  have cam: "has p (camera_entries e db) \<longleftrightarrow> p = ''@dof_focus_object''" by (auto simp: camera_entries_def n)
  have sc: "has p (scene_entries e db) \<longleftrightarrow> p \<in> {''@scene_camera'', ''@scene_world'', ''@rbw'', ''@master_members''}"
    by (auto simp: scene_entries_def n)
  have nodes: "(\<exists>t. db_nodes db = Some t \<and> (has p (walk_sockets db t) \<or> has p [(''~nodes'', nodes_signature e t)])) \<longleftrightarrow>
      (\<exists>t n i. db_nodes db = Some t \<and> n \<in> set (tree_nodes t)
        \<and> i < length (nd_inputs n) \<and> p = socket_path n i @ ''.default_value'' \<and> readable db p)"
    by (simp add: n socket_paths [OF assms])
  show ?thesis
    unfolding snapshot_entries_def emitted_def has_simps(3) has_option has_if nodes tracked_paths object_paths [OF assms]
      collection_paths [OF assms] key_paths cam sc idprop_paths
    by (cases "db_class db") (simp_all add: type_key_def n disj_ac)
qed

subsection \<open>What a write changes\<close>

lemma path_not_at [simp]: "key_path n a \<noteq> CHR ''@'' # r" "CHR ''@'' # r \<noteq> key_path n a" "socket_path nd i @ s \<noteq> CHR ''@'' # r"
  "CHR ''@'' # r \<noteq> socket_path nd i @ s" "\<not> bracketed (CHR ''@'' # r)" "\<not> plain_path (CHR ''@'' # r)"
  by (simp_all add: key_path_def socket_path_def bracketed_def plain_path_def)

lemma idprop_not_plain [simp]: "\<not> plain_path (idprop_path k)"
  by (simp only: plain_path_def idprop_path_neq simp_thms)

lemma tracked_not_at: "dget TRACKED k = Some ps \<Longrightarrow> CHR ''@'' # r \<notin> set ps"
  using tracked_plain by fastforce

lemma emitted_plain: "emitted b p \<Longrightarrow> plain_path p \<Longrightarrow> dget (db_rna b) p \<noteq> None"
  unfolding emitted_def by (elim disjE exE conjE bexE) (auto simp: readable_def)

lemma plain_not_bracketed: "plain_path p \<Longrightarrow> \<not> bracketed p"
  by (simp add: plain_path_def)

lemma emitted_bracketed:
  assumes "emitted b p" "bracketed p"
  shows "\<exists>k. p = idprop_path k \<and> sendable_idprop b k"
  using assms unfolding emitted_def
  by (elim disjE exE conjE bexE) (auto dest: tracked_plain plain_not_bracketed simp: plain_not_bracketed)

lemma emitted_at: "emitted b ''@hide'' \<Longrightarrow> ob_hide b \<noteq> None" "emitted b ''@lc_exclude'' \<Longrightarrow> co_layer b \<noteq> None"
  "emitted b ''@lc_hide'' \<Longrightarrow> co_layer b \<noteq> None"
  unfolding emitted_def by (elim disjE exE conjE bexE; simp add: tracked_not_at)+

lemma cell_other_rna: "\<not> plain_path q \<Longrightarrow> \<not> tilde q \<Longrightarrow> cell q (b\<lparr>db_rna := x\<rparr>) = cell q b"
  by (auto simp: cell_def plain_path_def)

lemma cell_other_idprops: "\<not> bracketed q \<Longrightarrow> cell q (b\<lparr>db_idprops := x\<rparr>) = cell q b"
  by (simp add: cell_def)

lemma emitted_mono:
  assumes "db_class b' = db_class b" "ke_blocks b' = ke_blocks b" "db_nodes b' = db_nodes b"
    and "\<And>q. readable b q \<Longrightarrow> readable b' q" "\<And>q. dget (db_rna b) q \<noteq> None \<Longrightarrow> dget (db_rna b') q \<noteq> None"
    and "\<And>k. sendable_idprop b k \<Longrightarrow> sendable_idprop b' k"
    and "ob_hide b \<noteq> None \<Longrightarrow> ob_hide b' \<noteq> None" "co_layer b \<noteq> None \<Longrightarrow> co_layer b' \<noteq> None"
    and "emitted b q"
  shows "emitted b' q"
proof -
  have "emitted b q \<longrightarrow> emitted b' q"
    unfolding emitted_def assms(1-3) Bex_def
    by (intro disj_mono conj_mono ex_mono imp_refl) (simp_all add: assms(4-6) assms(5) [simplified] assms(7-8) [simplified])
  then show ?thesis using assms(9) ..
qed

text \<open>The value a path reads back as once the change is written: the host's Cycles becomes the replica's engine.\<close>

definition arrives_as :: "write_env \<Rightarrow> string \<Rightarrow> json \<Rightarrow> json" where
  "arrives_as w p v = (if p = ''render.engine'' then map_engine_value w v else v)"

text \<open>A value the host sends for the path, with names the replica has and values its properties take.\<close>

definition named :: "(string \<Rightarrow> bool) \<Rightarrow> json \<Rightarrow> bool" where
  "named names v \<longleftrightarrow> (\<exists>n. v = JStr n \<and> (n = [] \<or> names n))"

definition member_lists :: "write_env \<Rightarrow> json \<Rightarrow> bool" where
  "member_lists w v \<longleftrightarrow> (\<exists>os cs. v = JList [JList (map JStr os), JList (map JStr cs)] \<and> sorted os \<and> distinct os \<and> sorted cs
     \<and> distinct cs \<and> list_all (we_objects w) os \<and> list_all (we_collections w) cs)"

definition fits :: "write_env \<Rightarrow> string \<Rightarrow> json \<Rightarrow> bool" where
  "fits w p v \<longleftrightarrow>
     (if p \<in> {''@hide'', ''@rbw'', ''@lc_exclude'', ''@lc_hide''} then \<exists>x. v = JBool x
      else if p \<in> {''@scene_camera'', ''@dof_focus_object''} then named (we_objects w) v
      else if p = ''@scene_world'' then named (we_worlds w) v
      else if p \<in> {''@instance_collection'', ''@ll_receiver'', ''@ll_blocker''} then named (we_collections w) v
      else if p = ''@master_members'' then member_lists w v
      else v \<noteq> JNull \<and> (if bracketed p then \<not> contains_none v else we_accepts w p (arrives_as w p v)))"

lemma coerce_as_pv [simp]: "coerce (as_pv v) = v" "\<not> is_group (as_pv v)"
  by (cases v; simp add: as_pv_def is_group_def)+

lemma arrives_not_null: "v \<noteq> JNull \<Longrightarrow> arrives_as w p v \<noteq> JNull"
  by (cases v) (auto simp: arrives_as_def map_engine_value_def)

definition members_ok :: "datablock \<Rightarrow> bool" where
  "members_ok b \<longleftrightarrow> distinct (sc_objects b) \<and> distinct (sc_children b) \<and> dict_ok (db_idprops b)"

lemma relink_wanted:
  assumes "sorted want" "distinct want" "list_all names want" "distinct have"
  shows "sort (relink names want have) = want" "distinct (relink names want have)"
proof -
  have s: "set (relink names want have) = set want" using assms(3) by (auto simp: relink_def Let_def list_all_iff)
  show d: "distinct (relink names want have)" using assms(4) by (auto simp: relink_def Let_def)
  show "sort (relink names want have) = want"
    by (rule sorted_distinct_set_unique) (use s d assms in auto)
qed

lemma str_list_map [simp]: "str_list (JList (map JStr xs)) = Some xs"
  by (simp add: str_list_def list_all_iff comp_def)

text \<open>The effect of one write: only the cell of its path changes, and no path of the snapshot is lost.\<close>

definition effect :: "write_env \<Rightarrow> string \<Rightarrow> json \<Rightarrow> datablock \<Rightarrow> datablock \<Rightarrow> bool" where
  "effect w p v b b' \<longleftrightarrow> members_ok b' \<and> (\<forall>q. emitted b q \<longrightarrow> \<not> tilde q \<longrightarrow>
     emitted b' q \<and> cell q b' = (if q = p then Some (arrives_as w p v) else cell q b))"

lemma effect_value:
  assumes "plain_path p" "dget (db_rna b) p \<noteq> None" "fits w p v" "members_ok b"
  shows "\<exists>b'. write_rna w p v b = Inr b' \<and> effect w p v b b'"
proof -
  let ?v = "arrives_as w p v"
  let ?b = "b\<lparr>db_rna := dset p (as_pv ?v) (db_rna b)\<rparr>"
  have n: "p \<noteq> CHR ''@'' # r" for r using assms(1) by (auto simp: plain_path_def)
  have nb: "\<not> bracketed p" using assms(1) by (simp add: plain_path_def)
  have ok: "we_accepts w p ?v" "v \<noteq> JNull" using assms(3) nb by (simp_all add: fits_def n)
  have "write_rna w p v b = Inr ?b"
    using assms(2) ok(1) nb by (simp add: write_rna_def n write_value_def arrives_as_def)
  moreover have "emitted ?b q" if "emitted b q" for q
    by (rule emitted_mono [OF _ _ _ _ _ _ _ _ that])
      (use arrives_not_null [OF ok(2)] in \<open>auto simp: readable_def sendable_idprop_def\<close>)
  moreover have "cell q ?b = (if q = p then Some ?v else cell q b)" if "\<not> tilde q" for q
    using cell_other_rna [OF _ that] assms(1) by (cases "plain_path q") (auto simp: cell_plain)
  ultimately show ?thesis using assms(4) by (auto simp: effect_def members_ok_def)
qed

lemma effect_idprop:
  assumes "sendable_idprop b k" "fits w (idprop_path k) v" "members_ok b"
  shows "\<exists>b'. write_rna w (idprop_path k) v b = Inr b' \<and> effect w (idprop_path k) v b b'"
proof -
  let ?b = "b\<lparr>db_idprops := dset k (as_pv v) (db_idprops b)\<rparr>"
  have ok: "v \<noteq> JNull" "\<not> contains_none v" using assms(2) by (simp_all add: fits_def)
  have e: "idprop_path k \<noteq> ''render.engine''" by (simp add: idprop_path_def)
  have d: "dict_ok (db_idprops b)" using assms(3) by (simp add: members_ok_def)
  have "write_rna w (idprop_path k) v b = Inr ?b" by (simp add: write_rna_def write_idprop_def loads_idprop_path)
  moreover have "emitted ?b q" if "emitted b q" for q
  proof -
    have s: "sendable_idprop b j \<Longrightarrow> sendable_idprop ?b j" for j
    proof (cases "j = k")
      case True
      have "(k, as_pv v) \<in> set (dset k (as_pv v) (db_idprops b))" by (simp add: set_dset [OF d])
      then show ?thesis using True assms(1) ok by (auto simp: sendable_idprop_def)
    next
      case False
      assume "sendable_idprop b j"
      then show ?thesis using False by (auto simp: sendable_idprop_def set_dset [OF d])
    qed
    show ?thesis by (rule emitted_mono [OF _ _ _ _ _ s _ _ that]) (simp_all add: readable_def)
  qed
  moreover have "cell q ?b = (if q = idprop_path k then Some v else cell q b)" if "emitted b q" for q
    using emitted_bracketed [OF that] cell_other_idprops [where q = q and b = b and x = "dset k (as_pv v) (db_idprops b)"]
    by (cases "bracketed q") (auto simp: idprop_path_inj)
  ultimately show ?thesis using assms(3) e by (auto simp: effect_def members_ok_def arrives_as_def)
qed

text \<open>A write of one field that is no RNA value and no custom property.\<close>

lemma effect_field:
  assumes "write_rna w p v b = Inr b'" "members_ok b'" "\<And>q. cell q b' = (if q = p then Some v else cell q b)"
    and "db_class b' = db_class b" "ke_blocks b' = ke_blocks b" "db_nodes b' = db_nodes b"
    and "db_rna b' = db_rna b" "db_idprops b' = db_idprops b"
    and "ob_hide b \<noteq> None \<Longrightarrow> ob_hide b' \<noteq> None" "co_layer b \<noteq> None \<Longrightarrow> co_layer b' \<noteq> None" "p \<noteq> ''render.engine''"
  shows "\<exists>b'. write_rna w p v b = Inr b' \<and> effect w p v b b'"
proof -
  have "emitted b' q" if "emitted b q" for q
    by (rule emitted_mono [OF assms(4-6) _ _ _ assms(9,10) that])
      (simp_all add: readable_def sendable_idprop_def assms(7,8))
  then show ?thesis using assms(1,2,3,11) by (auto simp: effect_def arrives_as_def)
qed

lemma cell_fields:
  "cell q (b\<lparr>ob_hide := Some h\<rparr>) = (if q = ''@hide'' then Some (JBool h) else cell q b)"
  "cell q (b\<lparr>sc_camera := x\<rparr>) = (if q = ''@scene_camera'' then Some (name_of x) else cell q b)"
  "cell q (b\<lparr>sc_world := x\<rparr>) = (if q = ''@scene_world'' then Some (name_of x) else cell q b)"
  "cell q (b\<lparr>ob_instance := x\<rparr>) = (if q = ''@instance_collection'' then Some (name_of x) else cell q b)"
  "cell q (b\<lparr>ob_receiver := x\<rparr>) = (if q = ''@ll_receiver'' then Some (name_of x) else cell q b)"
  "cell q (b\<lparr>ob_blocker := x\<rparr>) = (if q = ''@ll_blocker'' then Some (name_of x) else cell q b)"
  "cell q (b\<lparr>ca_focus := x\<rparr>) = (if q = ''@dof_focus_object'' then Some (name_of x) else cell q b)"
  "cell q (b\<lparr>sc_rbw := r\<rparr>) = (if q = ''@rbw'' then Some (JBool r) else cell q b)"
  "cell q (b\<lparr>sc_objects := os, sc_children := cs\<rparr>) = (if q = ''@master_members''
     then Some (JList [JList (map JStr (sort os)), JList (map JStr (sort cs))]) else cell q b)"
  by (simp_all add: cell_def)

lemma cell_layer:
  assumes "co_layer b = Some (ex, hi)"
  shows "cell q (b\<lparr>co_layer := Some (ex', hi)\<rparr>) = (if q = ''@lc_exclude'' then Some (JBool ex') else cell q b)"
    and "cell q (b\<lparr>co_layer := Some (ex, hi')\<rparr>) = (if q = ''@lc_hide'' then Some (JBool hi') else cell q b)"
  by (simp_all add: cell_def assms)

lemma look_up_named: "named names v \<Longrightarrow> \<exists>x. look_up names v = Inr x \<and> name_of x = v"
  by (auto simp: named_def look_up_def json_true_def name_of_def)

lemma members_ok_fields:
  "members_ok (b\<lparr>ob_hide := h\<rparr>) = members_ok b" "members_ok (b\<lparr>sc_camera := x\<rparr>) = members_ok b"
  "members_ok (b\<lparr>sc_world := x\<rparr>) = members_ok b" "members_ok (b\<lparr>ob_instance := x\<rparr>) = members_ok b"
  "members_ok (b\<lparr>ob_receiver := x\<rparr>) = members_ok b" "members_ok (b\<lparr>ob_blocker := x\<rparr>) = members_ok b"
  "members_ok (b\<lparr>ca_focus := x\<rparr>) = members_ok b" "members_ok (b\<lparr>sc_rbw := r\<rparr>) = members_ok b"
  "members_ok (b\<lparr>co_layer := l\<rparr>) = members_ok b"
  by (simp_all add: members_ok_def)

lemma effect_hide:
  assumes "emitted b ''@hide''" "fits w ''@hide'' v" "members_ok b"
  shows "\<exists>b'. write_rna w ''@hide'' v b = Inr b' \<and> effect w ''@hide'' v b b'"
proof -
  obtain x where v: "v = JBool x" using assms(2) by (auto simp: fits_def)
  show ?thesis
    by (rule effect_field [where b' = "b\<lparr>ob_hide := Some x\<rparr>"])
      (use emitted_at(1) [OF assms(1)] assms(3) in \<open>simp_all add: v write_rna_def cell_fields members_ok_fields json_true_def\<close>)
qed

lemma effect_rbw:
  assumes "fits w ''@rbw'' v" "members_ok b"
  shows "\<exists>b'. write_rna w ''@rbw'' v b = Inr b' \<and> effect w ''@rbw'' v b b'"
proof -
  obtain x where v: "v = JBool x" using assms(1) by (auto simp: fits_def)
  show ?thesis
    by (rule effect_field [where b' = "b\<lparr>sc_rbw := x\<rparr>"])
      (use assms(2) in \<open>simp_all add: v write_rna_def cell_fields members_ok_fields json_true_def\<close>)
qed

lemma effect_layer:
  assumes "p = ''@lc_exclude'' \<or> p = ''@lc_hide''" "emitted b p" "fits w p v" "members_ok b"
  shows "\<exists>b'. write_rna w p v b = Inr b' \<and> effect w p v b b'"
proof -
  obtain ex hi where l: "co_layer b = Some (ex, hi)" using assms(1,2) emitted_at(2,3) [of b] by fastforce
  obtain x where v: "v = JBool x" using assms(1,3) by (auto simp: fits_def)
  show ?thesis using assms(1)
  proof
    assume p: "p = ''@lc_exclude''"
    show ?thesis
      by (rule effect_field [where b' = "b\<lparr>co_layer := Some (x, hi)\<rparr>"])
        (use assms(4) in \<open>simp_all add: p v l write_rna_def write_layer_def cell_layer [OF l] members_ok_fields json_true_def\<close>)
  next
    assume p: "p = ''@lc_hide''"
    show ?thesis
      by (rule effect_field [where b' = "b\<lparr>co_layer := Some (ex, x)\<rparr>"])
        (use assms(4) in \<open>simp_all add: p v l write_rna_def write_layer_def cell_layer [OF l] members_ok_fields json_true_def\<close>)
  qed
qed

lemma effect_pointer:
  assumes "p = ''@scene_camera'' \<or> p = ''@dof_focus_object'' \<or> p = ''@scene_world'' \<or> p = ''@instance_collection''
      \<or> p = ''@ll_receiver'' \<or> p = ''@ll_blocker''"
    "fits w p v" "members_ok b"
  shows "\<exists>b'. write_rna w p v b = Inr b' \<and> effect w p v b b'"
proof -
  show ?thesis using assms(1)
  proof (elim disjE)
    assume cam: "p = ''@scene_camera''"
    then obtain x where x: "look_up (we_objects w) v = Inr x" "name_of x = v" using assms(2) look_up_named by (force simp: fits_def)
    show ?thesis by (rule effect_field [where b' = "b\<lparr>sc_camera := x\<rparr>"])
        (use assms(3) in \<open>simp_all add: cam x write_rna_def write_pointer_def cell_fields members_ok_fields\<close>)
  next
    assume focus: "p = ''@dof_focus_object''"
    then obtain x where x: "look_up (we_objects w) v = Inr x" "name_of x = v" using assms(2) look_up_named by (force simp: fits_def)
    show ?thesis by (rule effect_field [where b' = "b\<lparr>ca_focus := x\<rparr>"])
        (use assms(3) in \<open>simp_all add: focus x write_rna_def write_pointer_def cell_fields members_ok_fields\<close>)
  next
    assume world: "p = ''@scene_world''"
    then obtain x where x: "look_up (we_worlds w) v = Inr x" "name_of x = v" using assms(2) look_up_named by (force simp: fits_def)
    show ?thesis by (rule effect_field [where b' = "b\<lparr>sc_world := x\<rparr>"])
        (use assms(3) in \<open>simp_all add: world x write_rna_def write_pointer_def cell_fields members_ok_fields\<close>)
  next
    assume inst: "p = ''@instance_collection''"
    then obtain x where x: "look_up (we_collections w) v = Inr x" "name_of x = v" using assms(2) look_up_named by (force simp: fits_def)
    show ?thesis by (rule effect_field [where b' = "b\<lparr>ob_instance := x\<rparr>"])
        (use assms(3) in \<open>simp_all add: inst x write_rna_def write_pointer_def cell_fields members_ok_fields\<close>)
  next
    assume recv: "p = ''@ll_receiver''"
    then obtain x where x: "look_up (we_collections w) v = Inr x" "name_of x = v" using assms(2) look_up_named by (force simp: fits_def)
    show ?thesis by (rule effect_field [where b' = "b\<lparr>ob_receiver := x\<rparr>"])
        (use assms(3) in \<open>simp_all add: recv x write_rna_def write_pointer_def cell_fields members_ok_fields\<close>)
  next
    assume block: "p = ''@ll_blocker''"
    then obtain x where x: "look_up (we_collections w) v = Inr x" "name_of x = v" using assms(2) look_up_named by (force simp: fits_def)
    show ?thesis by (rule effect_field [where b' = "b\<lparr>ob_blocker := x\<rparr>"])
        (use assms(3) in \<open>simp_all add: block x write_rna_def write_pointer_def cell_fields members_ok_fields\<close>)
  qed
qed

lemma effect_members:
  assumes "fits w ''@master_members'' v" "members_ok b"
  shows "\<exists>b'. write_rna w ''@master_members'' v b = Inr b' \<and> effect w ''@master_members'' v b b'"
proof -
  obtain os cs where v: "v = JList [JList (map JStr os), JList (map JStr cs)]" and
    o: "sorted os" "distinct os" "list_all (we_objects w) os" and c: "sorted cs" "distinct cs" "list_all (we_collections w) cs"
    using assms(1) unfolding fits_def member_lists_def by simp blast
  have d: "distinct (sc_objects b)" "distinct (sc_children b)" using assms(2) by (auto simp: members_ok_def)
  note r = relink_wanted [OF o d(1)] relink_wanted [OF c d(2)]
  let ?b = "b\<lparr>sc_objects := relink (we_objects w) os (sc_objects b), sc_children := relink (we_collections w) cs (sc_children b)\<rparr>"
  show ?thesis
  proof (rule effect_field)
    show "write_rna w ''@master_members'' v b = Inr ?b" by (simp add: v write_rna_def write_members_def)
    show "members_ok ?b" using r(2,4) assms(2) by (simp add: members_ok_def)
    show "cell q ?b = (if q = ''@master_members'' then Some v else cell q b)" for q
      by (simp only: cell_fields r(1,3) v)
  qed simp_all
qed

lemma emitted_at_paths:
  assumes "emitted b p" "take 1 p = ''@''"
  shows "p = ''@hide'' \<or> p = ''@rbw'' \<or> (p = ''@lc_exclude'' \<or> p = ''@lc_hide'')
    \<or> (p = ''@scene_camera'' \<or> p = ''@dof_focus_object'' \<or> p = ''@scene_world'' \<or> p = ''@instance_collection''
        \<or> p = ''@ll_receiver'' \<or> p = ''@ll_blocker'')
    \<or> p = ''@master_members''"
proof -
  have "\<not> plain_path p" "\<not> bracketed p" using assms(2) by (simp_all add: plain_path_def bracketed_def)
  then show ?thesis using assms(1) unfolding emitted_def insert_iff empty_iff
    by (elim disjE exE conjE bexE) (simp_all, auto dest: tracked_plain)
qed

lemma write_effect:
  assumes "emitted b p" "\<not> tilde p" "fits w p v" "members_ok b"
  shows "\<exists>b'. write_rna w p v b = Inr b' \<and> effect w p v b b'"
proof (cases "plain_path p")
  case True
  then show ?thesis using effect_value emitted_plain [OF assms(1)] assms(3,4) by blast
next
  case False
  show ?thesis
  proof (cases "bracketed p")
    case True
    then show ?thesis using emitted_bracketed [OF assms(1)] effect_idprop assms(3,4) by blast
  next
    case False
    then have "take 1 p = ''@''" using \<open>\<not> plain_path p\<close> assms(2) by (simp add: plain_path_def)
    from emitted_at_paths [OF assms(1) this] show ?thesis
    proof (elim disjE)
      assume "p = ''@hide''"
      then show ?thesis using effect_hide assms by blast
    next
      assume "p = ''@rbw''"
      then show ?thesis using effect_rbw assms by blast
    next
      assume "p = ''@master_members''"
      then show ?thesis using effect_members assms by blast
    qed (use effect_layer [OF _ assms(1,3,4)] effect_pointer [OF _ assms(3,4)] in simp_all)
  qed
qed

text \<open>A change the replica cannot write is counted there and the next one goes on.\<close>

definition write_all :: "write_env \<Rightarrow> entries \<Rightarrow> datablock \<Rightarrow> datablock" where
  "write_all w changes b = fold (\<lambda>(p, v) b. case write_rna w p v b of Inl err \<Rightarrow> b | Inr b' \<Rightarrow> b') changes b"

lemma write_keeps:
  assumes "write_rna w p v b = Inr b'"
  shows "db_class b' = db_class b \<and> db_anim b' = db_anim b \<and> ob_pose b' = ob_pose b"
  using assms by (auto simp: write_rna_def write_pointer_def write_members_def write_layer_def write_idprop_def write_value_def
      split: if_splits sum.splits option.splits json.splits list.splits prod.splits)

lemma write_all_keeps:
  "db_class (write_all w cs b) = db_class b \<and> db_anim (write_all w cs b) = db_anim b \<and> ob_pose (write_all w cs b) = ob_pose b"
proof (induction cs arbitrary: b)
  case (Cons c cs)
  obtain p v where c: "c = (p, v)" by fastforce
  show ?case
  proof (cases "write_rna w p v b")
    case (Inl err)
    then show ?thesis using Cons.IH [of b] by (simp add: write_all_def c)
  next
    case (Inr b')
    then show ?thesis using Cons.IH [of b'] write_keeps [OF Inr] by (simp add: write_all_def c)
  qed
qed (simp add: write_all_def)

lemma write_all_effect:
  assumes "members_ok b" "dict_ok cs" "\<forall>(p, v) \<in> set cs. \<not> tilde p \<and> fits w p v \<and> emitted b p"
  shows "members_ok (write_all w cs b) \<and> (\<forall>q. emitted b q \<longrightarrow> \<not> tilde q \<longrightarrow> emitted (write_all w cs b) q
    \<and> cell q (write_all w cs b) = (case dget cs q of None \<Rightarrow> cell q b | Some v \<Rightarrow> Some (arrives_as w q v)))"
  using assms
proof (induction cs arbitrary: b)
  case Nil
  then show ?case by (simp add: write_all_def)
next
  case (Cons c cs)
  obtain p v where c: "c = (p, v)" by fastforce
  have p: "\<not> tilde p" "fits w p v" "emitted b p" using Cons.prems(3) by (auto simp: c)
  obtain b' where w: "write_rna w p v b = Inr b'" and e: "effect w p v b b'"
    using write_effect [OF p(3,1,2) Cons.prems(1)] by blast
  have all: "write_all w (c # cs) b = write_all w cs b'" by (simp add: write_all_def c w)
  have d: "p \<notin> fst ` set cs" "dict_ok cs" using Cons.prems(2) by (simp_all add: c)
  have ih: "members_ok (write_all w cs b') \<and> (\<forall>q. emitted b' q \<longrightarrow> \<not> tilde q \<longrightarrow> emitted (write_all w cs b') q
    \<and> cell q (write_all w cs b') = (case dget cs q of None \<Rightarrow> cell q b' | Some v \<Rightarrow> Some (arrives_as w q v)))"
  proof (rule Cons.IH [OF _ d(2)])
    show "members_ok b'" using e by (simp add: effect_def)
    show "\<forall>(p, v) \<in> set cs. \<not> tilde p \<and> fits w p v \<and> emitted b' p" using Cons.prems(3) e by (fastforce simp: effect_def)
  qed
  have "dget cs p = None" using d(1) by (simp add: map_of_eq_None_iff)
  then show ?case using ih e unfolding all effect_def by (auto simp: c split: option.splits)
qed


definition demo_digest_env :: digest_env where
  "demo_digest_env = \<lparr>de_round = (\<lambda>_ t. t), de_repr = (\<lambda>_. []), de_md5 = (\<lambda>_. [])\<rparr>"

definition demo_world :: "py_val \<Rightarrow> datablock" where
  "demo_world dust = \<lparr>db_class = Cl_World, db_anim = None, db_rna = [(''name'', PV_Json (JStr ''Sky''))],
     db_idprops = [(''dust'', dust)], db_nodes = None, ob_modifiers = [], ob_psys = [], ob_constraints = [], ob_parent = None,
     ob_data = None, ob_slots = [], ob_pose = None, ob_hide = None, ob_instance = None, ob_receiver = None, ob_blocker = None,
     ca_focus = None, ca_images = [], sc_camera = None, sc_world = None, sc_rbw = False, sc_objects = [], sc_children = [],
     sc_markers = [], sc_layers = [], sc_compositor = None, co_objects = [], co_children = [], co_layer = None, ke_blocks = []\<rparr>"

definition demo_write_env :: write_env where
  "demo_write_env = \<lparr>we_objects = (\<lambda>_. False), we_collections = (\<lambda>_. False), we_worlds = (\<lambda>_. False), we_engine = (\<lambda>n. n),
     we_accepts = (\<lambda>_ _. True)\<rparr>"

definition demo_world_snapshot :: "json \<Rightarrow> json snapshot" where
  "demo_world_snapshot dust = [(''name'', JStr ''Sky''), (idprop_path ''dust'', dust), (''~idprop_groups'', JList [])]"

lemma demo_world_built:
  "build_snapshot demo_digest_env (demo_world (PV_Json (JInt n))) = Inr (demo_world_snapshot (JInt n))"
proof -
  have "''name'' \<noteq> idprop_path ''dust''" "''~idprop_groups'' \<noteq> idprop_path ''dust''" by (simp_all add: idprop_path_def)
  then show ?thesis
    by (simp add: build_snapshot_def demo_world_def snapshot_entries_def tracked_entries_def type_key_def TRACKED_def
      TRACKED_WORLD_def idprop_entries_def UUID_PROP_def private_prop_def is_group_def put_all_def demo_world_snapshot_def
      idprop_groups_signature_def)
qed


end
