(* ===== verification/Localize.thy ===== *)
theory Localize
  imports Pathmap
begin

text \<open>
  The path rewriting of \<open>ring0/bootstrap.py\<close>: datablocks with a file path, and the cache and bake directories on an
  object's modifiers, are pointed at this machine. The platform, the home directory and the file system are the
  environment; \<open>os.path\<close> is written out for POSIX, and for Windows joining and normalising is a parameter.
\<close>

record path_env =
  pe_os :: string
  pe_home :: string
  pe_nt_abs :: "string \<Rightarrow> string list \<Rightarrow> string"
  pe_exists :: "string \<Rightarrow> bool"
  pe_dir :: "string \<Rightarrow> string list option"
  pe_reloads :: "string \<Rightarrow> bool"

text \<open>A datablock with the attributes read here; a linked one cannot be edited, an image or library is reloaded.\<close>

record path_db =
  pd_type :: string
  pd_name :: string
  pd_path :: "string option"
  pd_packed :: bool
  pd_reloads :: bool
  pd_editable :: bool

subsection \<open>\<open>posixpath\<close>\<close>

fun posix_join :: "string \<Rightarrow> string list \<Rightarrow> string" where
  "posix_join path [] = path"
| "posix_join path (b # bs) = posix_join
     (if startswith b [slash] then b
      else if path = [] \<or> last path = slash then path @ b else path @ slash # b) bs"

fun norm_parts :: "bool \<Rightarrow> string list \<Rightarrow> string list \<Rightarrow> string list" where
  "norm_parts rooted new [] = rev new"
| "norm_parts rooted new (c # cs) =
     (if c = [] \<or> c = ''.'' then norm_parts rooted new cs
      else if c \<noteq> ''..'' \<or> (\<not> rooted \<and> new = []) \<or> (new \<noteq> [] \<and> hd new = ''..'') then norm_parts rooted (c # new) cs
      else norm_parts rooted (tl new) cs)"

definition posix_normpath :: "string \<Rightarrow> string" where
  "posix_normpath path =
     (if path = [] then ''.''
      else let lead = (if startswith path [slash]
                       then if startswith path [slash, slash] \<and> \<not> startswith path [slash, slash, slash]
                            then [slash, slash] else [slash]
                       else []);
               res = lead @ join_slash (norm_parts (lead \<noteq> []) [] (components path))
           in if res = [] then ''.'' else res)"

subsection \<open>One path\<close>

definition is_foreign_form :: "string \<Rightarrow> string \<Rightarrow> bool" where
  "is_foreign_form os path \<longleftrightarrow> (if os = ''win'' then startswith path [slash]
     else bslash \<in> set path \<or> (2 \<le> length path \<and> path ! 1 = CHR '':'' \<and> is_alpha (path ! 0)))"

definition absolutize :: "path_env \<Rightarrow> string \<Rightarrow> string \<Rightarrow> string" where
  "absolutize env local_dir path =
     (let parts = components (to_slashes (drop 2 path))
      in if pe_os env = ''win'' then pe_nt_abs env local_dir parts else posix_normpath (posix_join local_dir parts))"

text \<open>The new path, if there is one, and whether the path could not be placed.\<close>

definition place :: "path_env \<Rightarrow> (string \<Rightarrow> bool) \<Rightarrow> string \<Rightarrow> path_mapping list \<Rightarrow> string \<Rightarrow> string option \<times> bool" where
  "place env here local_dir maps path =
     (if startswith path [slash, slash]
      then if local_dir \<noteq> [] then (Some (absolutize env local_dir path), False) else (None, True)
      else let local = localize_any (pe_os env) (pe_home env) path maps
           in if local \<noteq> path then (Some local, False)
              else (None, is_foreign_form (pe_os env) path \<or> \<not> here path))"

definition moved :: "string \<Rightarrow> string option \<Rightarrow> bool" where
  "moved path new = (case new of None \<Rightarrow> False | Some n \<Rightarrow> n \<noteq> [] \<and> n \<noteq> path)"

text \<open>The counts are those of \<open>(fixed, unmapped, errors)\<close>.\<close>

type_synonym tally = "nat \<times> nat \<times> nat"

definition tally_add :: "tally \<Rightarrow> tally \<Rightarrow> tally" where
  "tally_add a b = (case (a, b) of ((f, u, e), (f', u', e')) \<Rightarrow> (f + f', u + u', e + e'))"

subsection \<open>\<open>localize_paths\<close>\<close>

definition db_path :: "'a path_db_scheme \<Rightarrow> string option" where
  "db_path b = (case pd_path b of None \<Rightarrow> None
     | Some p \<Rightarrow> if p = [] \<or> pd_packed b \<or> startswith p ''<'' then None else Some p)"

definition unmapped_entry :: "'a path_db_scheme \<Rightarrow> string \<Rightarrow> string" where
  "unmapped_entry b path = pd_type b @ '':'' @ pd_name b @ '':'' @ path"

definition localize_db :: "path_env \<Rightarrow> string \<Rightarrow> path_mapping list \<Rightarrow> 'a path_db_scheme
    \<Rightarrow> (tally \<times> string list) \<times> 'a path_db_scheme" where
  "localize_db env local_dir maps b =
     (case db_path b of None \<Rightarrow> (((0, 0, 0), []), b)
      | Some path \<Rightarrow> (case place env (pe_exists env) local_dir maps path of (new, miss) \<Rightarrow>
          let left = (if miss then [unmapped_entry b path] else []); m = (if miss then 1 else 0)
          in if moved path new
             then (if \<not> pd_editable b then (((0, m, 1), left), b)
                   else if pd_reloads b \<and> \<not> pe_reloads env (the new)
                   then (((0, m, 1), left), b\<lparr>pd_path := new\<rparr>)
                   else (((1, m, 0), left), b\<lparr>pd_path := new\<rparr>))
             else (((0, m, 0), left), b)))"

subsection \<open>\<open>localize_object_paths\<close>\<close>

text \<open>A path on a modifier: a point cache with its \<open>use_external\<close>, or a directory.\<close>

datatype path_slot = Cache_Slot (slot_external: bool) (slot_path: string) | Dir_Slot (slot_path: string)

record sim_modifier =
  sm_type :: string
  sm_cache :: "path_slot option"
  sm_surfaces :: "path_slot option list"
  sm_bake_dir :: string
  sm_bakes :: "(bool \<times> string) list"
  sm_fluid :: "string option"

record sim_object =
  so_alive :: bool
  so_editable :: bool
  so_mods :: "sim_modifier list"
  so_psys :: "path_slot list"

text \<open>
  A point cache stays external only where frames are: \<open>use_external\<close> is cleared without frames, and with frames it is
  set and the path assigned, which makes Blender scan the directory again.
\<close>

definition has_frames :: "path_env \<Rightarrow> string \<Rightarrow> bool" where
  "has_frames env path = (case pe_dir env path of None \<Rightarrow> False
     | Some names \<Rightarrow> list_ex (\<lambda>f. 6 \<le> length f \<and> drop (length f - 6) f = ''.bphys'') names)"

definition localize_cache :: "path_env \<Rightarrow> bool \<Rightarrow> tally \<Rightarrow> string option \<Rightarrow> bool \<Rightarrow> string \<Rightarrow> tally \<times> path_slot" where
  "localize_cache env editable base new ext path =
     (let target = (case new of None \<Rightarrow> path | Some n \<Rightarrow> if n = [] then path else n)
      in if \<not> editable then (tally_add base (0, 0, 1), Cache_Slot ext path)
         else if \<not> has_frames env target then (base, Cache_Slot False path)
         else (tally_add base (if moved path new then (1, 0, 0) else (0, 0, 0)), Cache_Slot True target))"

definition localize_slot :: "path_env \<Rightarrow> string \<Rightarrow> path_mapping list \<Rightarrow> bool \<Rightarrow> path_slot \<Rightarrow> tally \<times> path_slot" where
  "localize_slot env local_dir maps editable s =
     (if slot_path s = [] then ((0, 0, 0), s)
      else case place env (\<lambda>p. pe_dir env p \<noteq> None) local_dir maps (slot_path s) of (new, miss) \<Rightarrow>
        let base = (0, if miss then 1 else 0, 0)
        in case s of
             Cache_Slot ext path \<Rightarrow> localize_cache env editable base new ext path
           | Dir_Slot path \<Rightarrow>
               if \<not> moved path new then (base, s)
               else if editable then (tally_add base (1, 0, 0), Dir_Slot (the new)) else (tally_add base (0, 0, 1), s))"

text \<open>What a walk over several paths counts and leaves.\<close>

fun localize_each :: "('a \<Rightarrow> tally \<times> 'a) \<Rightarrow> 'a list \<Rightarrow> tally \<times> 'a list" where
  "localize_each f [] = ((0, 0, 0), [])"
| "localize_each f (x # xs) = (case (f x, localize_each f xs) of ((n, y), (m, ys)) \<Rightarrow> (tally_add n m, y # ys))"

text \<open>\<open>_iter_object_paths\<close>: a point cache is visited when it is external or has a path.\<close>

definition visit_cache :: "(path_slot \<Rightarrow> tally \<times> path_slot) \<Rightarrow> path_slot option \<Rightarrow> tally \<times> path_slot option" where
  "visit_cache f s = (case s of None \<Rightarrow> ((0, 0, 0), None) | Some x \<Rightarrow> (case f x of (n, y) \<Rightarrow> (n, Some y)))"

definition visit_dir :: "(path_slot \<Rightarrow> tally \<times> path_slot) \<Rightarrow> string \<Rightarrow> tally \<times> string" where
  "visit_dir f path = (case f (Dir_Slot path) of (n, s) \<Rightarrow> (n, slot_path s))"

definition visit_modifier :: "(path_slot \<Rightarrow> tally \<times> path_slot) \<Rightarrow> sim_modifier \<Rightarrow> tally \<times> sim_modifier" where
  "visit_modifier f m =
     (case visit_cache f (sm_cache m) of (n1, c) \<Rightarrow>
      case localize_each (visit_cache f) (sm_surfaces m) of (n2, ss) \<Rightarrow>
      case (if sm_type m = ''NODES'' then visit_dir f (sm_bake_dir m) else ((0, 0, 0), sm_bake_dir m)) of (n3, d) \<Rightarrow>
      case (if sm_type m = ''NODES''
            then localize_each (\<lambda>(own, path). if own then (case visit_dir f path of (n, p) \<Rightarrow> (n, (own, p))) else ((0, 0, 0), (own, path)))
              (sm_bakes m)
            else ((0, 0, 0), sm_bakes m)) of (n4, bs) \<Rightarrow>
      case (case sm_fluid m of Some path \<Rightarrow> if sm_type m = ''FLUID''
              then (case visit_dir f path of (n, p) \<Rightarrow> (n, Some p)) else ((0, 0, 0), Some path)
            | None \<Rightarrow> ((0, 0, 0), None)) of (n5, fl) \<Rightarrow>
      (tally_add n1 (tally_add n2 (tally_add n3 (tally_add n4 n5))),
       m\<lparr>sm_cache := c, sm_surfaces := ss, sm_bake_dir := d, sm_bakes := bs, sm_fluid := fl\<rparr>))"

definition localize_object :: "path_env \<Rightarrow> string \<Rightarrow> path_mapping list \<Rightarrow> sim_object \<Rightarrow> tally \<times> sim_object" where
  "localize_object env local_dir maps ob =
     (if \<not> so_alive ob then ((0, 0, 0), ob)
      else let f = localize_slot env local_dir maps (so_editable ob)
           in case localize_each (visit_modifier f) (so_mods ob) of (n, ms) \<Rightarrow>
              case localize_each f (so_psys ob) of (k, ps) \<Rightarrow>
                (tally_add n k, ob\<lparr>so_mods := ms, so_psys := ps\<rparr>))"

definition localize_objects :: "path_env \<Rightarrow> string \<Rightarrow> path_mapping list \<Rightarrow> sim_object list \<Rightarrow> tally \<times> sim_object list" where
  "localize_objects env local_dir maps obs = localize_each (localize_object env local_dir maps) obs"

subsection \<open>What is left external\<close>

definition slot_ok :: "path_env \<Rightarrow> path_slot \<Rightarrow> bool" where
  "slot_ok env s = (case s of Cache_Slot ext path \<Rightarrow> ext \<longrightarrow> path = [] \<or> has_frames env path | Dir_Slot path \<Rightarrow> True)"

definition object_caches :: "sim_object \<Rightarrow> path_slot list" where
  "object_caches ob = concat (map (\<lambda>m. (case sm_cache m of None \<Rightarrow> [] | Some s \<Rightarrow> [s])
      @ List.map_filter id (sm_surfaces m)) (so_mods ob)) @ so_psys ob"

lemma localize_each_all:
  assumes "\<And>x. x \<in> set xs \<Longrightarrow> P (snd (f x))"
  shows "list_all P (snd (localize_each f xs))"
  using assms by (induction xs) (force split: prod.splits)+

lemma slot_path_Cache: "slot_path s = [] \<Longrightarrow> slot_ok env s"
  by (auto simp: slot_ok_def split: path_slot.splits)

lemma localize_slot_ok: "slot_ok env (snd (localize_slot env local_dir maps True s))"
proof (cases "slot_path s = []")
  case True
  then show ?thesis by (simp add: localize_slot_def slot_path_Cache)
next
  case False
  show ?thesis
    using False by (cases s) (auto simp: localize_slot_def Let_def slot_ok_def localize_cache_def split: prod.splits option.splits if_splits)
qed

lemma visit_cache_ok:
  assumes "\<And>s. slot_ok env (snd (f s))"
  shows "case snd (visit_cache f c) of None \<Rightarrow> True | Some s \<Rightarrow> slot_ok env s"
  using assms by (auto simp: visit_cache_def split: option.splits prod.splits) (metis snd_conv)

lemma visit_modifier_ok:
  assumes "\<And>s. slot_ok env (snd (f s))"
  shows "list_all (slot_ok env) ((case sm_cache (snd (visit_modifier f m)) of None \<Rightarrow> [] | Some s \<Rightarrow> [s])
    @ List.map_filter id (sm_surfaces (snd (visit_modifier f m))))"
proof -
  have "list_all (\<lambda>c. case c of None \<Rightarrow> True | Some s \<Rightarrow> slot_ok env s) (snd (localize_each (visit_cache f) (sm_surfaces m)))"
    by (rule localize_each_all) (rule visit_cache_ok [OF assms])
  then have "list_all (slot_ok env) (List.map_filter id (snd (localize_each (visit_cache f) (sm_surfaces m))))"
    by (auto simp: list_all_iff List.map_filter_def split: option.splits)
  moreover have "case snd (visit_cache f (sm_cache m)) of None \<Rightarrow> True | Some s \<Rightarrow> slot_ok env s"
    by (rule visit_cache_ok [OF assms])
  ultimately show ?thesis
    by (auto simp: visit_modifier_def split: prod.splits option.splits)
qed


end
