(* ===== verification/Blob_Apply.thy ===== *)
theory Blob_Apply
  imports Localize Identity
begin

text \<open>
  \<open>apply_blob\<close> of \<open>ring0/tier2_io.py\<close>: the datablocks of a blob are appended, take over the users of their stale
  predecessors, which are deleted, and get their names back. Blender's data is a dictionary of datablocks in its
  iteration order, each with its collection, name, stamp, the datablocks it uses and its shape keys. Loading the blob
  is an argument; whether Blender carries an operation out, and the name it gives when one is taken, is the environment.
\<close>

record block = path_db +
  bk_coll :: string
  bk_stamp :: uuid
  bk_refs :: "int list"
  bk_key :: "int option"
  bk_sim :: sim_object

record main_db =
  mb_blocks :: "(int, block) dict"
  mb_scene :: int

record blob_env =
  be_paths :: path_env
  be_remaps :: "int \<Rightarrow> int \<Rightarrow> bool"
  be_removes :: "int list \<Rightarrow> bool"
  be_renames :: "int \<Rightarrow> string \<Rightarrow> bool"
  be_unique :: "string \<Rightarrow> string list \<Rightarrow> string"
  be_key_ok :: "int \<Rightarrow> int \<Rightarrow> bool"

definition BLOB_COLLECTIONS :: "string list" where
  "BLOB_COLLECTIONS = [''objects'', ''meshes'', ''curves'', ''lights'', ''cameras'', ''materials'', ''worlds'', ''images'',
     ''node_groups'', ''collections'', ''actions'', ''lattices'', ''armatures'', ''metaballs'', ''volumes'',
     ''hair_curves'', ''pointclouds'', ''lightprobes'', ''grease_pencils'', ''textures'', ''particles'', ''cache_files'']"

definition SHAPE_KEYS :: string where "SHAPE_KEYS = ''shape_keys''"

definition block_at :: "main_db \<Rightarrow> int \<Rightarrow> block option" where
  "block_at m p = dget (mb_blocks m) p"

definition members :: "string \<Rightarrow> main_db \<Rightarrow> (int \<times> block) list" where
  "members coll m = filter (\<lambda>(_, b). bk_coll b = coll) (mb_blocks m)"

definition stamp_of :: "main_db \<Rightarrow> int \<Rightarrow> uuid" where
  "stamp_of m p = (case block_at m p of None \<Rightarrow> [] | Some b \<Rightarrow> bk_stamp b)"

definition coll_of :: "main_db \<Rightarrow> int \<Rightarrow> string" where
  "coll_of m p = (case block_at m p of None \<Rightarrow> [] | Some b \<Rightarrow> bk_coll b)"

definition name_at :: "main_db \<Rightarrow> int \<Rightarrow> string" where
  "name_at m p = (case block_at m p of None \<Rightarrow> [] | Some b \<Rightarrow> pd_name b)"

subsection \<open>Blender's operations\<close>

definition map_refs :: "(int \<Rightarrow> int) \<Rightarrow> main_db \<Rightarrow> main_db" where
  "map_refs f m = m\<lparr>mb_blocks := map (\<lambda>(p, b). (p, b\<lparr>bk_refs := map f (bk_refs b), bk_key := map_option f (bk_key b)\<rparr>)) (mb_blocks m)\<rparr>"

definition user_remap :: "int \<Rightarrow> int \<Rightarrow> main_db \<Rightarrow> main_db" where
  "user_remap old new = map_refs (\<lambda>r. if r = old then new else r)"

definition batch_remove :: "int list \<Rightarrow> main_db \<Rightarrow> main_db" where
  "batch_remove ps m = m\<lparr>mb_blocks := map (\<lambda>(p, b). (p, b\<lparr>bk_refs := filter (\<lambda>r. r \<notin> set ps) (bk_refs b),
       bk_key := (case bk_key b of None \<Rightarrow> None | Some k \<Rightarrow> if k \<in> set ps then None else Some k)\<rparr>))
     (filter (\<lambda>(p, _). p \<notin> set ps) (mb_blocks m))\<rparr>"

definition set_block :: "int \<Rightarrow> block \<Rightarrow> main_db \<Rightarrow> main_db" where
  "set_block p b m = m\<lparr>mb_blocks := dset p b (mb_blocks m)\<rparr>"

definition set_name :: "blob_env \<Rightarrow> int \<Rightarrow> string \<Rightarrow> main_db \<Rightarrow> main_db" where
  "set_name env p n m = (case block_at m p of None \<Rightarrow> m
     | Some b \<Rightarrow> set_block p (b\<lparr>pd_name := be_unique env n
         (map (pd_name \<circ> snd) (filter (\<lambda>(q, _). q \<noteq> p) (members (bk_coll b) m)))\<rparr>) m)"

definition users_collection :: "main_db \<Rightarrow> int \<Rightarrow> bool" where
  "users_collection m p = list_ex (\<lambda>(_, b). bk_coll b \<in> {''collections'', ''scenes''} \<and> p \<in> set (bk_refs b)) (mb_blocks m)"

subsection \<open>Pairing\<close>

type_synonym contents = "string \<Rightarrow> (string \<times> int option) list"

type_synonym blob_pair = "int \<times> int option \<times> string"

definition loaded_of :: "contents \<Rightarrow> (int \<times> string) list" where
  "loaded_of contents = concat (map (\<lambda>coll. List.map_filter (\<lambda>(n, p). map_option (\<lambda>x. (x, n)) p) (contents coll)) BLOB_COLLECTIONS)"

definition find_by_uuid :: "main_db \<Rightarrow> uuid \<Rightarrow> int \<Rightarrow> int option" where
  "find_by_uuid m u exclude = map_option fst (find (\<lambda>(p, b). p \<noteq> exclude \<and> bk_stamp b = u)
     (concat (map (\<lambda>coll. members coll m) BLOB_COLLECTIONS)))"

definition find_in_map :: "main_db \<Rightarrow> (uuid, int) dict option \<Rightarrow> uuid \<Rightarrow> int \<Rightarrow> int option" where
  "find_in_map m umap u new = (case umap of None \<Rightarrow> None | Some d \<Rightarrow> (case dget d u of None \<Rightarrow> None
     | Some old \<Rightarrow> (case block_at m old of None \<Rightarrow> None
         | Some b \<Rightarrow> if old = new \<or> bk_stamp b \<noteq> u then None else Some old)))"

definition find_by_name :: "main_db \<Rightarrow> int list \<Rightarrow> string \<Rightarrow> string \<Rightarrow> int option" where
  "find_by_name m arrivals coll n = map_option fst (find (\<lambda>(p, b). pd_name b = n \<and> p \<notin> set arrivals) (members coll m))"

definition predecessor :: "main_db \<Rightarrow> (uuid, int) dict option \<Rightarrow> int list \<Rightarrow> int \<times> string \<Rightarrow> int option" where
  "predecessor m umap arrivals pn = (case pn of (new, n) \<Rightarrow>
     let u = stamp_of m new;
         o1 = (if u \<noteq> [] then find_in_map m umap u new else None);
         o2 = (if o1 = None \<and> u \<noteq> [] then find_by_uuid m u new else o1)
     in if o2 = None then find_by_name m arrivals (coll_of m new) n else o2)"

definition pair_up :: "main_db \<Rightarrow> (uuid, int) dict option \<Rightarrow> (int \<times> string) list \<Rightarrow> blob_pair list" where
  "pair_up m umap loaded = map (\<lambda>(new, n). (new, predecessor m umap (map fst loaded) (new, n), n)) loaded"

subsection \<open>Remapping, removing, naming\<close>

definition remap_pair :: "blob_env \<Rightarrow> blob_pair \<Rightarrow> nat \<times> main_db \<Rightarrow> nat \<times> main_db" where
  "remap_pair env pr st = (case (pr, st) of ((new, old, n), (e, m)) \<Rightarrow> (case old of None \<Rightarrow> (e, m)
     | Some x \<Rightarrow> if be_remaps env x new then (e, user_remap x new m) else (e + 1, m)))"

definition remove_stale :: "blob_env \<Rightarrow> blob_pair list \<Rightarrow> nat \<times> main_db \<Rightarrow> nat \<times> main_db" where
  "remove_stale env ps st = (case st of (e, m) \<Rightarrow>
     let stale = List.map_filter (fst \<circ> snd) ps
     in if stale = [] then (e, m) else if be_removes env stale then (e, batch_remove stale m) else (e + 1, m))"

text \<open>An arrival deleted as another's predecessor is gone by now: reading its name raises.\<close>

fun name_arrivals :: "blob_env \<Rightarrow> blob_pair list \<Rightarrow> string \<Rightarrow> nat \<Rightarrow> (uuid, int) dict option \<Rightarrow> main_db
    \<Rightarrow> (py_error + string \<times> nat) \<times> (uuid, int) dict option \<times> main_db" where
  "name_arrivals env [] primary e umap m = (Inr (primary, e), umap, m)"
| "name_arrivals env ((new, old, n) # ps) primary e umap m =
     (case block_at m new of None \<Rightarrow> (Inl ReferenceError, umap, m)
      | Some b \<Rightarrow>
          let wrong = pd_name b \<noteq> n;
              m1 = (if wrong \<and> be_renames env new n then set_name env new n m else m)
          in name_arrivals env ps (if primary = [] then name_at m1 new else primary)
               (if wrong \<and> \<not> be_renames env new n then e + 1 else e)
               (if bk_stamp b = [] then umap else map_option (dset (bk_stamp b) new) umap) m1)"

subsection \<open>Shape keys\<close>

definition key_owned :: "main_db \<Rightarrow> int \<Rightarrow> bool" where
  "key_owned m k = list_ex (\<lambda>(_, b). bk_key b = Some k) (mb_blocks m)"

definition old_key :: "main_db \<Rightarrow> int \<Rightarrow> int option" where
  "old_key m new_key =
     (if stamp_of m new_key = [] then None
      else case find (\<lambda>(p, b). p \<noteq> new_key \<and> bk_stamp b = stamp_of m new_key) (members SHAPE_KEYS m) of
             None \<Rightarrow> None | Some (k, _) \<Rightarrow> if key_owned m k then None else Some k)"

definition adopt_key :: "blob_env \<Rightarrow> blob_pair \<Rightarrow> nat \<times> main_db \<Rightarrow> nat \<times> main_db" where
  "adopt_key env pr st = (case (pr, st) of ((new, old, n), (e, m)) \<Rightarrow>
     (case block_at m new of None \<Rightarrow> (e, m) | Some b \<Rightarrow> (case bk_key b of None \<Rightarrow> (e, m) | Some nk \<Rightarrow>
        (case old_key m nk of None \<Rightarrow> (e, m) | Some ok \<Rightarrow>
           if be_key_ok env ok nk
           then (e, set_name env nk (name_at m ok) (batch_remove [ok] (user_remap ok nk m)))
           else (e + 1, m)))))"

subsection \<open>Paths, orphans and the whole\<close>

definition localize_block :: "(block \<Rightarrow> nat \<times> block) \<Rightarrow> int \<Rightarrow> nat \<times> main_db \<Rightarrow> nat \<times> main_db" where
  "localize_block f p st = (case st of (e, m) \<Rightarrow> (case block_at m p of None \<Rightarrow> (e, m)
     | Some b \<Rightarrow> (case f b of (k, b') \<Rightarrow> (e + k, set_block p b' m))))"

definition db_paths :: "blob_env \<Rightarrow> string \<Rightarrow> path_mapping list \<Rightarrow> block \<Rightarrow> nat \<times> block" where
  "db_paths env dir maps b = (case localize_db (be_paths env) dir maps b of (((f, u, e), left), b') \<Rightarrow> (e, b'))"

definition sim_paths :: "blob_env \<Rightarrow> string \<Rightarrow> path_mapping list \<Rightarrow> block \<Rightarrow> nat \<times> block" where
  "sim_paths env dir maps b = (if bk_coll b \<noteq> ''objects'' then (0, b)
     else case localize_object (be_paths env) dir maps (bk_sim b) of ((f, u, e), s) \<Rightarrow> (e, b\<lparr>bk_sim := s\<rparr>))"

definition localize_arrivals :: "blob_env \<Rightarrow> string \<Rightarrow> path_mapping list \<Rightarrow> blob_pair list \<Rightarrow> nat \<times> main_db \<Rightarrow> nat \<times> main_db" where
  "localize_arrivals env dir maps ps st =
     (let st1 = fold (localize_block (db_paths env dir maps)) (map fst ps) st;
          st2 = fold (localize_block (db_paths env dir maps)) (map fst (members ''libraries'' (snd st1))) st1
      in fold (localize_block (sim_paths env dir maps)) (map fst ps) st2)"

definition link_orphan :: "blob_pair \<Rightarrow> main_db \<Rightarrow> main_db" where
  "link_orphan pr m = (case pr of (new, old, n) \<Rightarrow>
     if coll_of m new = ''objects'' \<and> \<not> users_collection m new
     then (case block_at m (mb_scene m) of None \<Rightarrow> m
           | Some s \<Rightarrow> set_block (mb_scene m) (s\<lparr>bk_refs := bk_refs s @ [new]\<rparr>) m)
     else m)"

definition t2_apply_blob :: "blob_env \<Rightarrow> string \<Rightarrow> path_mapping list \<Rightarrow> (uuid, int) dict option
    \<Rightarrow> (main_db \<Rightarrow> py_error + contents \<times> main_db) \<Rightarrow> main_db
    \<Rightarrow> (py_error + string \<times> nat) \<times> (uuid, int) dict option \<times> main_db" where
  "t2_apply_blob env dir maps umap load m =
     (case load m of Inl err \<Rightarrow> (Inl err, umap, m)
      | Inr (contents, m0) \<Rightarrow>
          let ps = pair_up m0 umap (loaded_of contents);
              (e1, m1) = remove_stale env ps (fold (remap_pair env) ps (0, m0))
          in (case name_arrivals env ps [] e1 umap m1 of
                (Inl err, umap', m2) \<Rightarrow> (Inl err, umap', m2)
              | (Inr (primary, e2), umap', m2) \<Rightarrow>
                  let (e3, m3) = localize_arrivals env dir maps ps (fold (adopt_key env) ps (e2, m2))
                  in (Inr (primary, e3), umap', fold link_orphan ps m3)))"

subsection \<open>What the operations leave\<close>

lemma block_at_map_refs: "block_at (map_refs f m) p
    = map_option (\<lambda>b. b\<lparr>bk_refs := map f (bk_refs b), bk_key := map_option f (bk_key b)\<rparr>) (block_at m p)"
  by (simp add: block_at_def map_refs_def map_of_map)

lemma map_of_filter_key: "map_of (filter (\<lambda>(p, _). P p) d) q = (if P q then map_of d q else None)"
  by (induction d) auto

lemma block_at_batch_remove: "block_at (batch_remove ps m) p = (if p \<in> set ps then None else map_option (\<lambda>b.
    b\<lparr>bk_refs := filter (\<lambda>r. r \<notin> set ps) (bk_refs b),
      bk_key := (case bk_key b of None \<Rightarrow> None | Some k \<Rightarrow> if k \<in> set ps then None else Some k)\<rparr>) (block_at m p))"
  by (simp add: block_at_def batch_remove_def map_of_map map_of_filter_key)

lemma block_at_set_block: "block_at (set_block p b m) q = (if q = p then Some b else block_at m q)"
  by (simp add: block_at_def set_block_def)

lemma block_at_set_name: "block_at (set_name env p n m) q = (if q = p
    then map_option (\<lambda>b. b\<lparr>pd_name := be_unique env n (map (pd_name \<circ> snd) (filter (\<lambda>(q, _). q \<noteq> p) (members (bk_coll b) m)))\<rparr>) (block_at m p)
    else block_at m q)"
  by (simp add: set_name_def block_at_set_block split: option.splits)

lemmas block_at_ops = block_at_map_refs block_at_batch_remove block_at_set_block block_at_set_name

definition swap_ref :: "blob_pair list \<Rightarrow> int \<Rightarrow> int" where
  "swap_ref ps r = fold (\<lambda>(new, old, _) r. if old = Some r then new else r) ps r"

lemma map_refs_comp: "map_refs f (map_refs g m) = map_refs (f \<circ> g) m"
  by (simp add: map_refs_def comp_def option.map_comp split_beta)

lemma map_refs_id [simp]: "map_refs (\<lambda>r. r) m = m"
  by (simp add: map_refs_def split_beta option.map_ident)

lemma remap_all:
  assumes "\<And>a b. be_remaps env a b"
  shows "fold (remap_pair env) ps (e, m) = (e, map_refs (swap_ref ps) m)"
proof (induction ps arbitrary: m)
  case Nil
  then show ?case by (simp add: swap_ref_def [abs_def])
next
  case (Cons pr ps)
  obtain new old n where pr: "pr = (new, old, n)" by (cases pr) auto
  have "swap_ref (pr # ps) = swap_ref ps \<circ> (\<lambda>r. if old = Some r then new else r)"
    by (simp add: swap_ref_def pr fun_eq_iff)
  moreover have "remap_pair env pr (e, m) = (e, map_refs (\<lambda>r. if old = Some r then new else r) m)"
    using assms by (cases old) (simp_all add: remap_pair_def pr user_remap_def eq_commute)
  ultimately show ?case using Cons.IH by (simp add: map_refs_comp comp_def)
qed

definition olds :: "blob_pair list \<Rightarrow> int list" where "olds ps = List.map_filter (fst \<circ> snd) ps"

lemma in_olds: "x \<in> set (olds ps) \<longleftrightarrow> (\<exists>p n. (p, Some x, n) \<in> set ps)"
  by (force simp: olds_def List.map_filter_def)

lemma swap_ref_find:
  assumes "fst ` set ps \<inter> set (olds ps) = {}"
  shows "swap_ref ps r = (case find (\<lambda>(_, old, _). old = Some r) ps of None \<Rightarrow> r | Some (p, _) \<Rightarrow> p)"
  using assms
proof (induction ps arbitrary: r)
  case (Cons pr ps)
  obtain new old n where pr: "pr = (new, old, n)" by (cases pr) auto
  have "set (olds ps) \<subseteq> set (olds (pr # ps))" unfolding subset_iff in_olds by (metis list.set_intros(2))
  then have d: "fst ` set ps \<inter> set (olds ps) = {}" "new \<notin> set (olds ps)"
    using Cons.prems by (auto simp: pr)
  have none: "find (\<lambda>(_, old, _). old = Some new) ps = None"
    using d(2) by (auto simp: find_None_iff in_olds)
  show ?case using Cons.IH [OF d(1)] none by (simp add: swap_ref_def pr)
qed (simp add: swap_ref_def)

lemma swap_ref_old:
  assumes "fst ` set ps \<inter> set (olds ps) = {}"
  shows "swap_ref ps r \<notin> set (olds ps)"
    and "r \<notin> set (olds ps) \<Longrightarrow> swap_ref ps r = r"
    and "r \<in> set (olds ps) \<Longrightarrow> swap_ref ps r \<in> fst ` set ps"
proof -
  have f: "swap_ref ps r \<in> fst ` set ps" if old: "r \<in> set (olds ps)"
  proof -
    obtain p n where "(p, Some r, n) \<in> set ps" using old unfolding in_olds by blast
    then have "find (\<lambda>(_, old, _). old = Some r) ps \<noteq> None" unfolding find_None_iff by auto
    then obtain q where q: "find (\<lambda>(_, old, _). old = Some r) ps = Some q" by blast
    then have "q \<in> set ps" by (metis find_Some_iff nth_mem)
    then show ?thesis by (auto simp: swap_ref_find [OF assms] q split: prod.splits intro: rev_image_eqI)
  qed
  have g: "swap_ref ps r = r" if "r \<notin> set (olds ps)"
  proof -
    have "find (\<lambda>(_, old, _). old = Some r) ps = None" using that by (auto simp: find_None_iff in_olds)
    then show ?thesis by (simp add: swap_ref_find [OF assms])
  qed
  show "swap_ref ps r \<notin> set (olds ps)" using f g assms by (cases "r \<in> set (olds ps)") auto
  show "r \<notin> set (olds ps) \<Longrightarrow> swap_ref ps r = r" "r \<in> set (olds ps) \<Longrightarrow> swap_ref ps r \<in> fst ` set ps"
    using f g by auto
qed

text \<open>After remapping and removing: the predecessors are gone, and who used one uses the arrival.\<close>

definition taken_over :: "blob_pair list \<Rightarrow> main_db \<Rightarrow> main_db" where
  "taken_over ps m = (if olds ps = [] then map_refs (swap_ref ps) m else batch_remove (olds ps) (map_refs (swap_ref ps) m))"

lemma remap_and_remove:
  assumes "\<And>a b. be_remaps env a b" "\<And>xs. be_removes env xs"
  shows "remove_stale env ps (fold (remap_pair env) ps (e, m)) = (e, taken_over ps m)"
  by (simp add: remap_all [OF assms(1)] remove_stale_def taken_over_def olds_def assms(2) Let_def)

lemma block_at_taken_over:
  assumes "fst ` set ps \<inter> set (olds ps) = {}"
  shows "block_at (taken_over ps m) x = (if x \<in> set (olds ps) then None else map_option (\<lambda>b.
    b\<lparr>bk_refs := map (swap_ref ps) (bk_refs b), bk_key := map_option (swap_ref ps) (bk_key b)\<rparr>) (block_at m x))"
proof -
  have "filter (\<lambda>r. r \<notin> set (olds ps)) (map (swap_ref ps) rs) = map (swap_ref ps) rs" for rs
    using swap_ref_old(1) [OF assms] by (simp add: filter_id_conv)
  moreover have "(case map_option (swap_ref ps) k of None \<Rightarrow> None | Some k \<Rightarrow> if k \<in> set (olds ps) then None else Some k)
      = map_option (swap_ref ps) k" for k
    using swap_ref_old(1) [OF assms] by (cases k) auto
  ultimately show ?thesis
    by (auto simp: taken_over_def block_at_map_refs block_at_batch_remove option.map_comp comp_def)
qed

subsection \<open>Names\<close>

text \<open>Blender carries out what it is asked to, and leaves a free name as it is.\<close>

definition blender_ok :: "blob_env \<Rightarrow> bool" where
  "blender_ok env \<longleftrightarrow> (\<forall>a b. be_remaps env a b) \<and> (\<forall>xs. be_removes env xs) \<and> (\<forall>p n. be_renames env p n)
     \<and> (\<forall>a b. be_key_ok env a b) \<and> (\<forall>n taken. n \<notin> set taken \<longrightarrow> be_unique env n taken = n)"

definition blocks_ok :: "main_db \<Rightarrow> bool" where
  "blocks_ok m \<longleftrightarrow> dict_ok (mb_blocks m)"

lemma blocks_ok_in_set: "blocks_ok m \<Longrightarrow> (p, b) \<in> set (mb_blocks m) \<longleftrightarrow> block_at m p = Some b"
  by (simp add: blocks_ok_def block_at_def dict_ok_in_set)

lemma blocks_ok_set_block [simp]: "blocks_ok m \<Longrightarrow> blocks_ok (set_block p b m)"
  by (simp add: blocks_ok_def set_block_def)

lemma blocks_ok_set_name [simp]: "blocks_ok m \<Longrightarrow> blocks_ok (set_name env p n m)"
  by (simp add: set_name_def split: option.splits)

lemma blocks_ok_map_refs [simp]: "blocks_ok m \<Longrightarrow> blocks_ok (map_refs f m)"
  by (simp add: blocks_ok_def map_refs_def dict_ok_def comp_def split_beta)

lemma blocks_ok_batch_remove [simp]: "blocks_ok m \<Longrightarrow> blocks_ok (batch_remove ps m)"
  by (auto simp: blocks_ok_def batch_remove_def dict_ok_def comp_def split_beta distinct_map inj_on_def)

lemma blocks_ok_taken_over: "blocks_ok m \<Longrightarrow> blocks_ok (taken_over ps m)"
  by (simp add: taken_over_def)

definition renamed :: "main_db \<Rightarrow> main_db \<Rightarrow> bool" where
  "renamed a b \<longleftrightarrow> mb_scene b = mb_scene a \<and> (\<forall>x. block_at b x = map_option (\<lambda>y. y\<lparr>pd_name := name_at b x\<rparr>) (block_at a x))"

lemma renamed_refl: "renamed m m"
  by (auto simp: renamed_def name_at_def split: option.splits)

lemma renamed_trans: "renamed a b \<Longrightarrow> renamed b c \<Longrightarrow> renamed a c"
  by (simp add: renamed_def option.map_comp comp_def)

lemma renamed_set_name: "renamed m (set_name env p n m)"
proof -
  have "block_at (set_name env p n m) x = map_option (\<lambda>y. y\<lparr>pd_name := name_at (set_name env p n m) x\<rparr>) (block_at m x)" for x
    by (cases "x = p"; cases "block_at m x") (auto simp: name_at_def block_at_set_name)
  moreover have "mb_scene (set_name env p n m) = mb_scene m"
    by (simp add: set_name_def set_block_def split: option.splits)
  ultimately show ?thesis by (simp add: renamed_def)
qed

lemma renamed_keeps:
  assumes "renamed a b"
  shows "coll_of b x = coll_of a x" "stamp_of b x = stamp_of a x" "(block_at b x = None) = (block_at a x = None)"
proof -
  have "block_at b x = map_option (\<lambda>y. y\<lparr>pd_name := name_at b x\<rparr>) (block_at a x)" using assms by (simp add: renamed_def)
  then show "coll_of b x = coll_of a x" "stamp_of b x = stamp_of a x" "(block_at b x = None) = (block_at a x = None)"
    by (simp_all add: coll_of_def stamp_of_def split: option.splits)
qed

lemma set_name_free:
  assumes "blender_ok env" "blocks_ok m" "block_at m p \<noteq> None"
    and "\<And>q. q \<noteq> p \<Longrightarrow> block_at m q \<noteq> None \<Longrightarrow> coll_of m q = coll_of m p \<Longrightarrow> name_at m q \<noteq> n"
  shows "name_at (set_name env p n m) p = n"
proof -
  obtain b where b: "block_at m p = Some b" using assms(3) by blast
  have "n \<notin> set (map (pd_name \<circ> snd) (filter (\<lambda>(q, _). q \<noteq> p) (members (bk_coll b) m)))"
  proof
    assume "n \<in> set (map (pd_name \<circ> snd) (filter (\<lambda>(q, _). q \<noteq> p) (members (bk_coll b) m)))"
    then obtain q c where c: "(q, c) \<in> set (mb_blocks m)" "q \<noteq> p" "bk_coll c = bk_coll b" "pd_name c = n"
      by (auto simp: members_def)
    then have "block_at m q = Some c" using blocks_ok_in_set [OF assms(2)] by simp
    then show False using assms(4) [of q] c by (simp add: coll_of_def name_at_def b)
  qed
  then show ?thesis using assms(1) by (simp add: name_at_def block_at_set_name b blender_ok_def)
qed

lemma name_at_set_name: "q \<noteq> p \<Longrightarrow> name_at (set_name env p n m) q = name_at m q"
  by (simp add: name_at_def block_at_set_name)

definition map_arrivals :: "main_db \<Rightarrow> blob_pair list \<Rightarrow> (uuid, int) dict \<Rightarrow> (uuid, int) dict" where
  "map_arrivals m ps d = fold (\<lambda>(p, _, _) d. if stamp_of m p = [] then d else dset (stamp_of m p) p d) ps d"

lemma name_all:
  assumes "blender_ok env" "blocks_ok m" "\<forall>(p, old, n) \<in> set ps. block_at m p \<noteq> None"
    and "distinct (map (\<lambda>(p, old, n). (coll_of m p, n)) ps)" "distinct (map fst ps)"
    and "\<forall>(p, old, n) \<in> set ps. \<forall>q. q \<noteq> p \<longrightarrow> block_at m q \<noteq> None \<longrightarrow> coll_of m q = coll_of m p \<longrightarrow> name_at m q \<noteq> n"
  shows "\<exists>first m'. name_arrivals env ps primary e (Some d) m = (Inr (first, e), Some (map_arrivals m ps d), m')
    \<and> renamed m m' \<and> blocks_ok m' \<and> (\<forall>x. x \<notin> fst ` set ps \<longrightarrow> name_at m' x = name_at m x)
    \<and> (\<forall>(p, old, n) \<in> set ps. name_at m' p = n)"
  using assms
proof (induction ps arbitrary: primary d m)
  case Nil
  then show ?case by (simp add: renamed_refl map_arrivals_def)
next
  case (Cons pr ps)
  obtain new old n where pr: "pr = (new, old, n)" by (cases pr) auto
  obtain b where b: "block_at m new = Some b" using Cons.prems(3) by (auto simp: pr)
  define m1 where "m1 = (if pd_name b \<noteq> n then set_name env new n m else m)"
  have ren: "renamed m m1" by (simp add: m1_def renamed_refl renamed_set_name)
  have ok1: "blocks_ok m1" using Cons.prems(2) by (simp add: m1_def)
  have new_n: "name_at m1 new = n"
    using set_name_free [OF Cons.prems(1,2), of new n] Cons.prems(6) b by (auto simp: m1_def pr name_at_def)
  have other: "name_at m1 q = name_at m q" if "q \<noteq> new" for q
    using that by (simp add: m1_def name_at_set_name)
  note same = renamed_keeps [OF ren]
  have step: "name_arrivals env (pr # ps) primary e (Some d) m
      = name_arrivals env ps (if primary = [] then name_at m1 new else primary) e
          (Some (if bk_stamp b = [] then d else dset (bk_stamp b) new d)) m1"
    using Cons.prems(1) by (simp add: pr b m1_def Let_def blender_ok_def)
  have p3: "\<forall>(p, old, n) \<in> set ps. block_at m1 p \<noteq> None" using Cons.prems(3) same(3) by auto
  have p4: "distinct (map (\<lambda>(p, old, n). (coll_of m1 p, n)) ps)" using Cons.prems(4) same(1) by (simp add: pr)
  have p5: "distinct (map fst ps)" using Cons.prems(5) by simp
  have p6: "\<forall>(p, old, n) \<in> set ps. \<forall>q. q \<noteq> p \<longrightarrow> block_at m1 q \<noteq> None \<longrightarrow> coll_of m1 q = coll_of m1 p \<longrightarrow> name_at m1 q \<noteq> n"
  proof -
    have "name_at m1 q \<noteq> n'" if h: "(p, old', n') \<in> set ps" "q \<noteq> p" "block_at m1 q \<noteq> None" "coll_of m1 q = coll_of m1 p"
      for p old' n' q
    proof (cases "q = new")
      case True
      then have "(coll_of m new, n') \<in> set (map (\<lambda>(p, old, n). (coll_of m p, n)) ps)"
        using h same(1) by force
      moreover have "(coll_of m new, n) \<notin> set (map (\<lambda>(p, old, n). (coll_of m p, n)) ps)"
        using Cons.prems(4) by (simp add: pr)
      ultimately have "n' \<noteq> n" by metis
      then show ?thesis using True new_n by simp
    next
      case False
      have "(p, old', n') \<in> set (pr # ps)" using h(1) by simp
      then have "name_at m q \<noteq> n'" using Cons.prems(6) h(2-4) same(1) same(3) [of q] by fastforce
      then show ?thesis using other [OF False] by simp
    qed
    then show ?thesis unfolding Ball_def split_paired_All by simp
  qed
  obtain first m' where ih: "name_arrivals env ps (if primary = [] then name_at m1 new else primary) e
        (Some (if bk_stamp b = [] then d else dset (bk_stamp b) new d)) m1
      = (Inr (first, e), Some (map_arrivals m1 ps (if bk_stamp b = [] then d else dset (bk_stamp b) new d)), m')"
    "renamed m1 m'" "blocks_ok m'" "\<forall>x. x \<notin> fst ` set ps \<longrightarrow> name_at m' x = name_at m1 x"
    "\<forall>(p, old, n) \<in> set ps. name_at m' p = n"
    using Cons.IH [OF Cons.prems(1) ok1 p3 p4 p5 p6] by blast
  have "map_arrivals m1 ps (if bk_stamp b = [] then d else dset (bk_stamp b) new d) = map_arrivals m (pr # ps) d"
  proof -
    have st: "stamp_of m1 = stamp_of m" using same(2) by blast
    have "stamp_of m new = bk_stamp b" by (simp add: stamp_of_def b)
    then show ?thesis unfolding map_arrivals_def st by (simp add: pr)
  qed
  moreover have "name_at m' new = n" using ih(4) Cons.prems(5) new_n by (auto simp: pr)
  ultimately show ?case
    using ih step renamed_trans [OF ren ih(2)] other by (auto simp: pr)
qed

subsection \<open>After the names\<close>

text \<open>Every reference leads somewhere, and the shape keys of a datablock are shape keys.\<close>

definition refs_closed :: "main_db \<Rightarrow> bool" where
  "refs_closed m \<longleftrightarrow> (\<forall>x y. block_at m x = Some y \<longrightarrow> (\<forall>r \<in> set (bk_refs y). block_at m r \<noteq> None)
     \<and> (\<forall>k. bk_key y = Some k \<longrightarrow> coll_of m k = SHAPE_KEYS))"

text \<open>The rest of the work keeps every datablock but replaced shape keys, its users, and its name.\<close>

definition keeps_blocks :: "main_db \<Rightarrow> main_db \<Rightarrow> bool" where
  "keeps_blocks a b \<longleftrightarrow> (\<forall>x y. block_at b x = Some y \<longrightarrow> (\<exists>z. block_at a x = Some z \<and> bk_coll y = bk_coll z \<and> bk_stamp y = bk_stamp z))
     \<and> (\<forall>x z. block_at a x = Some z \<longrightarrow> bk_coll z \<noteq> SHAPE_KEYS \<longrightarrow> (\<exists>y. block_at b x = Some y \<and> pd_name y = pd_name z
          \<and> (\<forall>r \<in> set (bk_refs z). coll_of a r \<noteq> SHAPE_KEYS \<longrightarrow> r \<in> set (bk_refs y))))
     \<and> (refs_closed a \<longrightarrow> refs_closed b)"

lemma keeps_refl: "keeps_blocks m m"
  by (simp add: keeps_blocks_def)

lemma coll_of_Some: "block_at m x = Some y \<Longrightarrow> coll_of m x = bk_coll y"
  by (simp add: coll_of_def)

lemma keeps_coll:
  assumes "keeps_blocks a b" "coll_of a r \<noteq> SHAPE_KEYS"
  shows "coll_of b r \<noteq> SHAPE_KEYS"
proof (cases "block_at b r")
  case None
  then show ?thesis by (simp add: coll_of_def SHAPE_KEYS_def)
next
  case (Some y)
  then obtain z where "block_at a r = Some z" "bk_coll y = bk_coll z" using assms(1) unfolding keeps_blocks_def by blast
  then show ?thesis using assms(2) Some by (simp add: coll_of_def)
qed

lemma keeps_trans:
  assumes "keeps_blocks a b" "keeps_blocks b c"
  shows "keeps_blocks a c"
proof -
  have "\<exists>z. block_at a x = Some z \<and> bk_coll y = bk_coll z \<and> bk_stamp y = bk_stamp z" if "block_at c x = Some y" for x y
    using that assms unfolding keeps_blocks_def by metis
  moreover have "\<exists>y. block_at c x = Some y \<and> pd_name y = pd_name z \<and> (\<forall>r \<in> set (bk_refs z). coll_of a r \<noteq> SHAPE_KEYS \<longrightarrow> r \<in> set (bk_refs y))"
    if x: "block_at a x = Some z" "bk_coll z \<noteq> SHAPE_KEYS" for x z
  proof -
    obtain w where w: "block_at b x = Some w" "pd_name w = pd_name z"
      "\<forall>r \<in> set (bk_refs z). coll_of a r \<noteq> SHAPE_KEYS \<longrightarrow> r \<in> set (bk_refs w)"
      using assms(1) x unfolding keeps_blocks_def by blast
    have "bk_coll w \<noteq> SHAPE_KEYS"
      using keeps_coll [OF assms(1), of x] x w(1) by (simp add: coll_of_def)
    then obtain y where "block_at c x = Some y" "pd_name y = pd_name w"
      "\<forall>r \<in> set (bk_refs w). coll_of b r \<noteq> SHAPE_KEYS \<longrightarrow> r \<in> set (bk_refs y)"
      using assms(2) w(1) unfolding keeps_blocks_def by blast
    then show ?thesis using w keeps_coll [OF assms(1)] by auto
  qed
  moreover have "refs_closed a \<longrightarrow> refs_closed c" using assms unfolding keeps_blocks_def by blast
  ultimately show ?thesis unfolding keeps_blocks_def by blast
qed

lemma keeps_set_block:
  assumes "block_at m p = Some z" "bk_coll y = bk_coll z" "bk_stamp y = bk_stamp z" "bk_key y = bk_key z"
    and "pd_name y = pd_name z \<or> bk_coll z = SHAPE_KEYS"
    and "set (bk_refs z) \<subseteq> set (bk_refs y)" "\<forall>r \<in> set (bk_refs y) - set (bk_refs z). block_at m r \<noteq> None"
  shows "keeps_blocks m (set_block p y m)"
proof -
  have coll: "coll_of (set_block p y m) x = coll_of m x" for x
    using assms(1,2) by (simp add: coll_of_def block_at_set_block)
  have dom: "(block_at (set_block p y m) x = None) = (block_at m x = None)" for x
    using assms(1) by (simp add: block_at_set_block)
  have "refs_closed (set_block p y m)" if "refs_closed m"
    unfolding refs_closed_def
  proof (intro allI impI)
    fix x w
    assume w: "block_at (set_block p y m) x = Some w"
    show "(\<forall>r\<in>set (bk_refs w). block_at (set_block p y m) r \<noteq> None) \<and> (\<forall>k. bk_key w = Some k \<longrightarrow> coll_of (set_block p y m) k = SHAPE_KEYS)"
    proof (cases "x = p")
      case True
      then have w: "w = y" using w by (simp add: block_at_set_block)
      have "block_at m r \<noteq> None" if "r \<in> set (bk_refs y)" for r
        using that assms(1,7) \<open>refs_closed m\<close> by (cases "r \<in> set (bk_refs z)") (auto simp: refs_closed_def)
      moreover have "coll_of m k = SHAPE_KEYS" if "bk_key y = Some k" for k
        using that assms(1,4) \<open>refs_closed m\<close> by (simp add: refs_closed_def)
      ultimately show ?thesis by (simp only: w dom coll) blast
    next
      case False
      then have "block_at m x = Some w" using w by (simp add: block_at_set_block)
      then show ?thesis using that dom coll unfolding refs_closed_def by metis
    qed
  qed
  then show ?thesis
    using assms unfolding keeps_blocks_def by (auto simp: block_at_set_block)
qed

lemma fold_keeps:
  assumes "\<And>p st. blocks_ok (db st) \<Longrightarrow> refs_closed (db st) \<Longrightarrow> keeps_blocks (db st) (db (f p st)) \<and> blocks_ok (db (f p st))"
    and "blocks_ok (db st)" "refs_closed (db st)"
  shows "keeps_blocks (db st) (db (fold f ps st)) \<and> blocks_ok (db (fold f ps st)) \<and> refs_closed (db (fold f ps st))"
  using assms(2,3)
proof (induction ps arbitrary: st)
  case (Cons p ps)
  have s: "keeps_blocks (db st) (db (f p st))" "blocks_ok (db (f p st))" using assms(1) Cons.prems by blast+
  then have "refs_closed (db (f p st))" using Cons.prems(2) by (simp add: keeps_blocks_def)
  then show ?case using Cons.IH [OF s(2)] keeps_trans [OF s(1)] by simp
qed (simp add: keeps_refl)

lemma replace_key_keeps:
  assumes "refs_closed m" "coll_of m old = SHAPE_KEYS" "coll_of m new = SHAPE_KEYS" "old \<noteq> new"
  shows "keeps_blocks m (batch_remove [old] (user_remap old new m))"
proof -
  let ?m = "batch_remove [old] (user_remap old new m)"
  let ?f = "\<lambda>r. if r = old then new else r"
  have at: "block_at ?m x = (if x = old then None
      else map_option (\<lambda>b. b\<lparr>bk_refs := map ?f (bk_refs b), bk_key := map_option ?f (bk_key b)\<rparr>) (block_at m x))" for x
  proof -
    have "filter (\<lambda>r. r \<notin> set [old]) (map ?f rs) = map ?f rs" for rs using assms(4) by (auto simp: filter_id_conv)
    moreover have "(case map_option ?f k of None \<Rightarrow> None | Some k \<Rightarrow> if k \<in> set [old] then None else Some k) = map_option ?f k" for k
      using assms(4) by (cases k) auto
    ultimately show ?thesis
      by (simp only: user_remap_def block_at_batch_remove block_at_map_refs option.map_comp comp_def) (simp add: option.map_comp comp_def)
  qed
  have new: "block_at m new \<noteq> None" using assms(3) by (auto simp: coll_of_def SHAPE_KEYS_def split: option.splits)
  have coll: "coll_of ?m x = (if x = old then [] else coll_of m x)" for x
    by (simp add: coll_of_def at split: option.splits)
  have f: "?f r \<noteq> old" for r using assms(4) by simp
  have closed: "refs_closed ?m"
    unfolding refs_closed_def
  proof (intro allI impI)
    fix x y
    assume y: "block_at ?m x = Some y"
    then obtain z where z: "block_at m x = Some z" "bk_refs y = map ?f (bk_refs z)" "bk_key y = map_option ?f (bk_key z)"
      by (auto simp: at split: if_splits)
    have "block_at ?m r \<noteq> None" if r: "r \<in> set (bk_refs y)" for r
    proof -
      obtain q where q: "q \<in> set (bk_refs z)" "r = ?f q" using r z(2) by auto
      have "block_at m r \<noteq> None" using q z(1) new assms(1) by (auto simp: refs_closed_def)
      then show ?thesis using q(2) f by (simp add: at)
    qed
    moreover have "coll_of ?m k = SHAPE_KEYS" if k: "bk_key y = Some k" for k
    proof -
      obtain q where q: "bk_key z = Some q" "k = ?f q" using k z(3) by auto
      have "coll_of m k = SHAPE_KEYS" using q z(1) assms(1,3) by (auto simp: refs_closed_def)
      then show ?thesis using q(2) f by (simp add: coll)
    qed
    ultimately show "(\<forall>r\<in>set (bk_refs y). block_at ?m r \<noteq> None) \<and> (\<forall>k. bk_key y = Some k \<longrightarrow> coll_of ?m k = SHAPE_KEYS)" by blast
  qed
  have stays: "\<exists>y. block_at ?m x = Some y \<and> pd_name y = pd_name z \<and> (\<forall>r\<in>set (bk_refs z). coll_of m r \<noteq> SHAPE_KEYS \<longrightarrow> r \<in> set (bk_refs y))"
    if "block_at m x = Some z" "bk_coll z \<noteq> SHAPE_KEYS" for x z
  proof -
    have "x \<noteq> old" using that assms(2) by (auto simp: coll_of_def)
    moreover have "r \<in> ?f ` set (bk_refs z)" if "r \<in> set (bk_refs z)" "coll_of m r \<noteq> SHAPE_KEYS" for r
      using that assms(2) by force
    ultimately show ?thesis using that by (simp add: at)
  qed
  show ?thesis unfolding keeps_blocks_def using closed stays by (auto simp: at split: if_splits)
qed

lemma adopt_key_keeps:
  assumes "blocks_ok (snd st)" "refs_closed (snd st)"
  shows "keeps_blocks (snd st) (snd (adopt_key env pr st)) \<and> blocks_ok (snd (adopt_key env pr st))"
proof -
  obtain e m where st: "st = (e, m)" by fastforce
  obtain new old n where pr: "pr = (new, old, n)" by (cases pr) auto
  show ?thesis
  proof (cases "\<exists>b nk ok. block_at m new = Some b \<and> bk_key b = Some nk \<and> old_key m nk = Some ok \<and> be_key_ok env ok nk")
    case False
    then have "snd (adopt_key env pr st) = m" by (auto simp: adopt_key_def st pr split: option.splits)
    then show ?thesis using assms by (simp add: st keeps_refl)
  next
    case True
    then obtain b nk ok where k: "block_at m new = Some b" "bk_key b = Some nk" "old_key m nk = Some ok" "be_key_ok env ok nk" by blast
    let ?m = "batch_remove [ok] (user_remap ok nk m)"
    have nk: "coll_of m nk = SHAPE_KEYS" using assms(2) k(1,2) by (simp add: st refs_closed_def)
    obtain c where c: "(ok, c) \<in> set (members SHAPE_KEYS m)" "ok \<noteq> nk"
      using k(3) by (auto simp: old_key_def find_Some_iff split: if_splits option.splits) (metis nth_mem)
    then have ok: "coll_of m ok = SHAPE_KEYS"
      using blocks_ok_in_set assms(1) by (auto simp: members_def st coll_of_def)
    have k1: "keeps_blocks m ?m" by (rule replace_key_keeps) (use assms(2) ok nk c(2) in \<open>simp_all add: st\<close>)
    have b1: "blocks_ok ?m" using assms(1) by (simp add: st user_remap_def)
    obtain z where z: "block_at ?m nk = Some z" "bk_coll z = SHAPE_KEYS"
      using nk c(2) by (auto simp: coll_of_def block_at_batch_remove block_at_map_refs user_remap_def SHAPE_KEYS_def split: option.splits)
    have "keeps_blocks ?m (set_name env nk (name_at m ok) ?m)"
      unfolding set_name_def z(1) option.case
      by (rule keeps_set_block [OF z(1)]) (simp_all add: z(2))
    then show ?thesis
      using keeps_trans [OF k1] b1 by (simp add: adopt_key_def st pr k)
  qed
qed

lemma localize_block_keeps:
  assumes "\<And>b. bk_coll (snd (f b)) = bk_coll b \<and> bk_stamp (snd (f b)) = bk_stamp b \<and> bk_key (snd (f b)) = bk_key b
      \<and> bk_refs (snd (f b)) = bk_refs b \<and> pd_name (snd (f b)) = pd_name b" and "blocks_ok (snd st)"
  shows "keeps_blocks (snd st) (snd (localize_block f p st)) \<and> blocks_ok (snd (localize_block f p st))"
proof -
  obtain e m where st: "st = (e, m)" by fastforce
  show ?thesis
  proof (cases "block_at m p")
    case None
    then show ?thesis using assms(2) by (simp add: localize_block_def st keeps_refl)
  next
    case (Some b)
    obtain k b' where f: "f b = (k, b')" by fastforce
    have "keeps_blocks m (set_block p b' m)"
      by (rule keeps_set_block [OF Some]) (use assms(1) [of b] f in auto)
    then show ?thesis using assms(2) by (simp add: localize_block_def st Some f)
  qed
qed

lemma db_paths_fields:
  "bk_coll (snd (db_paths env dir maps b)) = bk_coll b \<and> bk_stamp (snd (db_paths env dir maps b)) = bk_stamp b
    \<and> bk_key (snd (db_paths env dir maps b)) = bk_key b \<and> bk_refs (snd (db_paths env dir maps b)) = bk_refs b
    \<and> pd_name (snd (db_paths env dir maps b)) = pd_name b"
  by (auto simp: db_paths_def localize_db_def Let_def split: option.splits prod.splits if_splits)

lemma sim_paths_fields:
  "bk_coll (snd (sim_paths env dir maps b)) = bk_coll b \<and> bk_stamp (snd (sim_paths env dir maps b)) = bk_stamp b
    \<and> bk_key (snd (sim_paths env dir maps b)) = bk_key b \<and> bk_refs (snd (sim_paths env dir maps b)) = bk_refs b
    \<and> pd_name (snd (sim_paths env dir maps b)) = pd_name b"
  by (auto simp: sim_paths_def split: prod.splits)

lemma link_orphan_keeps:
  assumes "blocks_ok m"
  shows "keeps_blocks m (link_orphan pr m) \<and> blocks_ok (link_orphan pr m)"
proof -
  obtain new old n where pr: "pr = (new, old, n)" by (cases pr) auto
  show ?thesis
  proof (cases "coll_of m new = ''objects'' \<and> \<not> users_collection m new \<and> block_at m (mb_scene m) \<noteq> None")
    case True
    then obtain s where s: "block_at m (mb_scene m) = Some s" by blast
    have "block_at m new \<noteq> None" using True by (auto simp: coll_of_def split: option.splits)
    then have "keeps_blocks m (set_block (mb_scene m) (s\<lparr>bk_refs := bk_refs s @ [new]\<rparr>) m)"
      by (intro keeps_set_block [OF s]) auto
    then show ?thesis using True assms by (simp add: link_orphan_def pr s)
  next
    case False
    then show ?thesis using assms by (auto simp: link_orphan_def pr keeps_refl split: option.splits)
  qed
qed

subsection \<open>A blob replaces what it names\<close>

text \<open>
  What a blob finds on a replica in step with its host: every arrival is stamped and of a kind blobs carry; a stamp is on
  one datablock before the blob, and on one arrival; a predecessor is of the arrival's kind; and a datablock that has an
  arrival's name is its predecessor.
\<close>

definition arrivals_ok :: "main_db \<Rightarrow> (int \<times> string) list \<Rightarrow> bool" where
  "arrivals_ok m loaded \<longleftrightarrow> blocks_ok m \<and> distinct (map fst loaded)
     \<and> distinct (map (\<lambda>(p, n). (coll_of m p, n)) loaded)
     \<and> (\<forall>(p, n) \<in> set loaded. coll_of m p \<in> set BLOB_COLLECTIONS \<and> stamp_of m p \<noteq> [])
     \<and> (\<forall>(x, b) \<in> set (mb_blocks m). \<forall>(y, c) \<in> set (mb_blocks m). x \<noteq> y \<and> bk_stamp b = bk_stamp c \<and> bk_stamp b \<noteq> []
          \<longrightarrow> (x \<in> fst ` set loaded) \<noteq> (y \<in> fst ` set loaded) \<and> bk_coll b = bk_coll c)
     \<and> (\<forall>(p, n) \<in> set loaded. \<forall>(x, b) \<in> set (mb_blocks m). x \<noteq> p \<and> bk_coll b = coll_of m p \<and> pd_name b = n
          \<longrightarrow> bk_stamp b = stamp_of m p)
     \<and> (\<forall>(x, b) \<in> set (mb_blocks m). (\<forall>r \<in> set (bk_refs b). block_at m r \<noteq> None)
          \<and> (case bk_key b of None \<Rightarrow> True | Some k \<Rightarrow> coll_of m k = SHAPE_KEYS))"

definition swapped_in :: "(int \<times> string) list \<Rightarrow> main_db \<Rightarrow> (uuid, int) dict \<Rightarrow> main_db \<Rightarrow> bool" where
  "swapped_in loaded a d b \<longleftrightarrow> refs_closed b
     \<and> (\<forall>(p, n) \<in> set loaded. block_at b p \<noteq> None \<and> name_at b p = n \<and> stamp_of b p = stamp_of a p \<and> dget d (stamp_of a p) = Some p
          \<and> (\<forall>x. x \<noteq> p \<and> stamp_of a x = stamp_of a p \<longrightarrow> block_at b x = None
               \<and> (\<forall>y v w. block_at a y = Some v \<and> bk_coll v \<noteq> SHAPE_KEYS \<and> block_at b y = Some w \<and> x \<in> set (bk_refs v)
                    \<longrightarrow> p \<in> set (bk_refs w))))
     \<and> (\<forall>x v. block_at a x = Some v \<and> bk_coll v \<noteq> SHAPE_KEYS \<and> bk_stamp v \<notin> stamp_of a ` fst ` set loaded
          \<longrightarrow> (\<exists>w. block_at b x = Some w \<and> pd_name w = pd_name v \<and> bk_coll w = bk_coll v \<and> bk_stamp w = bk_stamp v))"

lemma find_Some_in: "find P xs = Some x \<Longrightarrow> x \<in> set xs \<and> P x"
  by (metis find_Some_iff nth_mem)

lemma arrivals_unique:
  assumes "arrivals_ok m loaded" "block_at m x = Some b" "block_at m y = Some c" "x \<noteq> y" "bk_stamp b = bk_stamp c" "bk_stamp b \<noteq> []"
  shows "(x \<in> fst ` set loaded) \<noteq> (y \<in> fst ` set loaded) \<and> bk_coll b = bk_coll c"
proof -
  have bo: "blocks_ok m" using assms(1) by (simp add: arrivals_ok_def)
  have "\<forall>(x, b) \<in> set (mb_blocks m). \<forall>(y, c) \<in> set (mb_blocks m). x \<noteq> y \<and> bk_stamp b = bk_stamp c \<and> bk_stamp b \<noteq> []
          \<longrightarrow> (x \<in> fst ` set loaded) \<noteq> (y \<in> fst ` set loaded) \<and> bk_coll b = bk_coll c"
    using assms(1) unfolding arrivals_ok_def by (elim conjE)
  moreover have "(x, b) \<in> set (mb_blocks m)" "(y, c) \<in> set (mb_blocks m)"
    using assms(2,3) blocks_ok_in_set [OF bo] by simp_all
  ultimately show ?thesis using assms(4-6) by blast
qed

lemma predecessor_spec:
  assumes ok: "arrivals_ok m loaded" and p: "(p, n) \<in> set loaded"
  shows "case predecessor m umap (map fst loaded) (p, n) of
      None \<Rightarrow> (\<forall>x. x \<noteq> p \<longrightarrow> stamp_of m x \<noteq> stamp_of m p)
    | Some x \<Rightarrow> x \<noteq> p \<and> stamp_of m x = stamp_of m p \<and> block_at m x \<noteq> None"
proof -
  have bo: "blocks_ok m" and u: "stamp_of m p \<noteq> []" and pc: "coll_of m p \<in> set BLOB_COLLECTIONS"
    using ok p by (auto simp: arrivals_ok_def)
  note in_blocks = blocks_ok_in_set [OF bo]
  obtain pb where pb: "block_at m p = Some pb" using u by (auto simp: stamp_of_def split: option.splits)
  show ?thesis
  proof (cases "predecessor m umap (map fst loaded) (p, n)")
    case None
    then have no: "find_by_uuid m (stamp_of m p) p = None"
      using u by (auto simp: predecessor_def Let_def split: if_splits)
    have "stamp_of m x \<noteq> stamp_of m p" if x: "x \<noteq> p" for x
    proof
      assume st: "stamp_of m x = stamp_of m p"
      then obtain b where b: "block_at m x = Some b" "bk_stamp b = stamp_of m p"
        using u by (auto simp: stamp_of_def split: option.splits)
      have "bk_coll b = bk_coll pb"
        using arrivals_unique [OF ok, of x b p pb] x b pb u by (simp add: stamp_of_def)
      then have "(x, b) \<in> set (concat (map (\<lambda>coll. members coll m) BLOB_COLLECTIONS))"
        using pc b pb by (auto simp: members_def in_blocks coll_of_def)
      then show False using no x b(2) unfolding find_by_uuid_def by (auto simp: find_None_iff)
    qed
    then show ?thesis using None by simp
  next
    case (Some x)
    have "x \<noteq> p \<and> stamp_of m x = stamp_of m p \<and> block_at m x \<noteq> None"
    proof (cases "find_in_map m umap (stamp_of m p) p")
      case (Some y)
      then show ?thesis using \<open>predecessor m umap (map fst loaded) (p, n) = Some x\<close> u
        by (auto simp: predecessor_def Let_def find_in_map_def stamp_of_def split: option.splits if_splits)
    next
      case none: None
      show ?thesis
      proof (cases "find_by_uuid m (stamp_of m p) p")
        case f: (Some y)
        then have "y = x" using Some none u by (simp add: predecessor_def Let_def)
        with f have "find_by_uuid m (stamp_of m p) p = Some x" by simp
        then obtain b where "(x, b) \<in> set (concat (map (\<lambda>coll. members coll m) BLOB_COLLECTIONS))" "x \<noteq> p" "bk_stamp b = stamp_of m p"
          unfolding find_by_uuid_def using find_Some_in by fastforce
        then show ?thesis by (auto simp: members_def in_blocks stamp_of_def)
      next
        case f: None
        then have "find_by_name m (map fst loaded) (coll_of m p) n = Some x"
          using Some none u by (simp add: predecessor_def Let_def)
        then obtain b where b: "(x, b) \<in> set (members (coll_of m p) m)" "pd_name b = n" "x \<notin> fst ` set loaded"
          unfolding find_by_name_def using find_Some_in by fastforce
        then have "(x, b) \<in> set (mb_blocks m)" "bk_coll b = coll_of m p" "x \<noteq> p"
          using p by (auto simp: members_def intro: rev_image_eqI)
        then have "bk_stamp b = stamp_of m p" using ok p b(2) unfolding arrivals_ok_def by blast
        then show ?thesis using \<open>(x, b) \<in> set (mb_blocks m)\<close> \<open>x \<noteq> p\<close> by (simp add: in_blocks stamp_of_def)
      qed
    qed
    then show ?thesis using Some by simp
  qed
qed

lemma map_arrivals_keeps:
  assumes "dget d u = Some p" "\<And>q. q \<in> fst ` set ps \<Longrightarrow> stamp_of m q = u \<Longrightarrow> q = p"
  shows "dget (map_arrivals m ps d) u = Some p"
  using assms
proof (induction ps arbitrary: d)
  case (Cons pr ps)
  obtain q old n where pr: "pr = (q, old, n)" by (cases pr) auto
  have "dget (if stamp_of m q = [] then d else dset (stamp_of m q) q d) u = Some p"
    using Cons.prems by (auto simp: pr)
  then show ?case using Cons.IH Cons.prems(2) by (simp add: map_arrivals_def pr)
qed (simp add: map_arrivals_def)

lemma map_arrivals_get:
  assumes "p \<in> fst ` set ps" "stamp_of m p \<noteq> []" "\<And>q. q \<in> fst ` set ps \<Longrightarrow> stamp_of m q = stamp_of m p \<Longrightarrow> q = p"
  shows "dget (map_arrivals m ps d) (stamp_of m p) = Some p"
  using assms
proof (induction ps arbitrary: d)
  case (Cons pr ps)
  obtain q old n where pr: "pr = (q, old, n)" by (cases pr) auto
  have step: "map_arrivals m (pr # ps) d = map_arrivals m ps (if stamp_of m q = [] then d else dset (stamp_of m q) q d)"
    by (simp add: map_arrivals_def pr)
  show ?case
  proof (cases "q = p")
    case True
    show ?thesis unfolding step
      by (rule map_arrivals_keeps) (use True Cons.prems in auto)
  next
    case False
    then show ?thesis unfolding step using Cons by (auto simp: pr)
  qed
qed simp

lemma pair_up_facts:
  fixes m umap loaded
  defines "ps \<equiv> pair_up m umap loaded"
  assumes ok: "arrivals_ok m loaded"
  shows "map fst ps = map fst loaded" and "map (\<lambda>(p, old, n). (coll_of m p, n)) ps = map (\<lambda>(p, n). (coll_of m p, n)) loaded"
    and "(p, old, n) \<in> set ps \<Longrightarrow> (p, n) \<in> set loaded"
    and "fst ` set ps \<inter> set (olds ps) = {}"
    and "\<And>p n x. (p, n) \<in> set loaded \<Longrightarrow> x \<noteq> p \<Longrightarrow> stamp_of m x = stamp_of m p \<Longrightarrow> (p, Some x, n) \<in> set ps"
    and "\<And>p n x. (p, Some x, n) \<in> set ps \<Longrightarrow> x \<noteq> p \<and> stamp_of m x = stamp_of m p \<and> block_at m x \<noteq> None \<and> coll_of m x = coll_of m p"
    and "\<And>p q n. (p, n) \<in> set loaded \<Longrightarrow> q \<in> fst ` set loaded \<Longrightarrow> stamp_of m q = stamp_of m p \<Longrightarrow> q = p"
proof -
  show fst_eq: "map fst ps = map fst loaded" "map (\<lambda>(p, old, n). (coll_of m p, n)) ps = map (\<lambda>(p, n). (coll_of m p, n)) loaded"
    by (auto simp: ps_def pair_up_def)
  show in_loaded: "(p, old, n) \<in> set ps \<Longrightarrow> (p, n) \<in> set loaded" for p old n
    by (auto simp: ps_def pair_up_def)
  have old: "old = predecessor m umap (map fst loaded) (p, n)" if "(p, old, n) \<in> set ps" for p old n
    using that by (auto simp: ps_def pair_up_def)
  have stamped: "stamp_of m p \<noteq> []" if "(p, n) \<in> set loaded" for p n
    using ok that by (auto simp: arrivals_ok_def)
  have uniq: "(x \<in> fst ` set loaded) \<noteq> (y \<in> fst ` set loaded) \<and> coll_of m x = coll_of m y"
    if h: "x \<noteq> y" "stamp_of m x = stamp_of m y" "stamp_of m x \<noteq> []" for x y
  proof -
    obtain b where b: "block_at m x = Some b" using h by (auto simp: stamp_of_def split: option.splits)
    obtain c where c: "block_at m y = Some c" using h by (auto simp: stamp_of_def split: option.splits)
    show ?thesis using arrivals_unique [OF ok b c h(1)] h(2,3) b c by (simp add: stamp_of_def coll_of_def)
  qed
  show spec: "x \<noteq> p \<and> stamp_of m x = stamp_of m p \<and> block_at m x \<noteq> None \<and> coll_of m x = coll_of m p"
    if h: "(p, Some x, n) \<in> set ps" for p n x
    using predecessor_spec [OF ok in_loaded [OF h], of umap] old [OF h] uniq [of x p] stamped [OF in_loaded [OF h]]
    by (simp split: option.splits)
  show "q = p" if "(p, n) \<in> set loaded" "q \<in> fst ` set loaded" "stamp_of m q = stamp_of m p" for p q n
    using uniq [of q p] that stamped by force
  show "fst ` set ps \<inter> set (olds ps) = {}"
  proof (rule ccontr)
    assume "\<not> ?thesis"
    then obtain x where "x \<in> fst ` set ps" "x \<in> set (olds ps)" by blast
    then obtain p n where x: "x \<in> fst ` set ps" "(p, Some x, n) \<in> set ps" unfolding in_olds by blast
    have "fst ` set ps = fst ` set loaded" using fst_eq(1) by (metis set_map)
    then show False using uniq [of x p] spec [OF x(2)] x stamped [OF in_loaded [OF x(2)]] by force
  qed
  show "(p, Some x, n) \<in> set ps" if h: "(p, n) \<in> set loaded" "x \<noteq> p" "stamp_of m x = stamp_of m p" for p n x
  proof -
    have in_ps: "(p, predecessor m umap (map fst loaded) (p, n), n) \<in> set ps"
      using h(1) by (auto simp: ps_def pair_up_def intro: rev_image_eqI)
    show ?thesis
    proof (cases "predecessor m umap (map fst loaded) (p, n)")
      case None
      then show ?thesis using predecessor_spec [OF ok h(1), of umap] h by auto
    next
      case (Some y)
      then have y: "y \<noteq> p" "stamp_of m y = stamp_of m p" using spec in_ps by auto
      have "y = x" using uniq [of x y] uniq [of x p] uniq [of y p] y h stamped [OF h(1)] by (metis)
      then show ?thesis using in_ps Some by simp
    qed
  qed
qed

lemma renamed_at:
  "renamed a b \<Longrightarrow> block_at a x = Some y \<Longrightarrow> block_at b x = Some (y\<lparr>pd_name := name_at b x\<rparr>)"
  "renamed a b \<Longrightarrow> block_at a x = None \<Longrightarrow> block_at b x = None"
  unfolding renamed_def by (metis option.simps(9), metis option.simps(8))

lemma renamed_closed:
  assumes "renamed a b" "refs_closed a"
  shows "refs_closed b"
  unfolding refs_closed_def
proof (intro allI impI)
  fix x y
  assume y: "block_at b x = Some y"
  then obtain z where z: "block_at a x = Some z" "y = z\<lparr>pd_name := name_at b x\<rparr>"
    using renamed_at [OF assms(1)] by (cases "block_at a x") auto
  then have "\<forall>r \<in> set (bk_refs y). block_at a r \<noteq> None" "\<forall>k. bk_key y = Some k \<longrightarrow> coll_of a k = SHAPE_KEYS"
    using assms(2) by (auto simp: refs_closed_def)
  then show "(\<forall>r\<in>set (bk_refs y). block_at b r \<noteq> None) \<and> (\<forall>k. bk_key y = Some k \<longrightarrow> coll_of b k = SHAPE_KEYS)"
    by (simp add: renamed_keeps(1) [OF assms(1)]) (metis renamed_keeps(3) [OF assms(1)] not_Some_eq)
qed

lemma localize_arrivals_keeps:
  assumes "blocks_ok (snd st)" "refs_closed (snd st)"
  shows "keeps_blocks (snd st) (snd (localize_arrivals env dir maps ps st)) \<and> blocks_ok (snd (localize_arrivals env dir maps ps st))
    \<and> refs_closed (snd (localize_arrivals env dir maps ps st))"
proof -
  have paths: "keeps_blocks (snd st) (snd (fold (localize_block (db_paths env dir maps)) qs st))
      \<and> blocks_ok (snd (fold (localize_block (db_paths env dir maps)) qs st))
      \<and> refs_closed (snd (fold (localize_block (db_paths env dir maps)) qs st))"
    if "blocks_ok (snd st)" "refs_closed (snd st)" for qs st
    by (rule fold_keeps [where db = snd, OF localize_block_keeps that]) (use db_paths_fields in blast)+
  have sims: "keeps_blocks (snd st) (snd (fold (localize_block (sim_paths env dir maps)) qs st))
      \<and> blocks_ok (snd (fold (localize_block (sim_paths env dir maps)) qs st))
      \<and> refs_closed (snd (fold (localize_block (sim_paths env dir maps)) qs st))"
    if "blocks_ok (snd st)" "refs_closed (snd st)" for qs st
    by (rule fold_keeps [where db = snd, OF localize_block_keeps that]) (use sim_paths_fields in blast)+
  show ?thesis unfolding localize_arrivals_def Let_def
    using paths sims assms keeps_trans by meson
qed

text \<open>The work after the names, from the state the names left.\<close>

lemma rest_keeps:
  assumes "blocks_ok m" "refs_closed m" "localize_arrivals env dir maps ps (fold (adopt_key env) ps (e, m)) = (e', m')"
  shows "keeps_blocks m (fold link_orphan ps m') \<and> refs_closed (fold link_orphan ps m')"
proof -
  have k: "keeps_blocks m (snd (fold (adopt_key env) ps (e, m))) \<and> blocks_ok (snd (fold (adopt_key env) ps (e, m)))
      \<and> refs_closed (snd (fold (adopt_key env) ps (e, m)))"
    using fold_keeps [where db = snd and f = "adopt_key env" and st = "(e, m)", OF adopt_key_keeps] assms(1,2) by simp
  have l: "keeps_blocks (snd (fold (adopt_key env) ps (e, m))) m' \<and> blocks_ok m' \<and> refs_closed m'"
    using localize_arrivals_keeps [of "fold (adopt_key env) ps (e, m)" env dir maps ps] k assms(3) by simp
  have "keeps_blocks m' (fold link_orphan ps m') \<and> blocks_ok (fold link_orphan ps m') \<and> refs_closed (fold link_orphan ps m')"
    by (rule fold_keeps [where db = "\<lambda>m. m", OF link_orphan_keeps]) (use l in simp_all)
  then show ?thesis using k l keeps_trans by blast
qed

lemma taken_over_closed:
  assumes ok: "arrivals_ok m loaded" and ps: "ps = pair_up m umap loaded"
  shows "refs_closed (taken_over ps m)"
  unfolding refs_closed_def
proof (intro allI impI)
  have d: "fst ` set ps \<inter> set (olds ps) = {}" using pair_up_facts(4) [OF ok, of umap] ps by simp
  have bo: "blocks_ok m" using ok by (simp add: arrivals_ok_def)
  fix x y
  assume y: "block_at (taken_over ps m) x = Some y"
  then obtain z where z: "block_at m x = Some z" "bk_refs y = map (swap_ref ps) (bk_refs z)" "bk_key y = map_option (swap_ref ps) (bk_key z)"
    by (auto simp: block_at_taken_over [OF d] split: if_splits)
  have "\<forall>(x, b) \<in> set (mb_blocks m). (\<forall>r \<in> set (bk_refs b). block_at m r \<noteq> None)
      \<and> (case bk_key b of None \<Rightarrow> True | Some k \<Rightarrow> coll_of m k = SHAPE_KEYS)"
    using ok unfolding arrivals_ok_def by (elim conjE)
  moreover have "(x, z) \<in> set (mb_blocks m)" using z(1) blocks_ok_in_set [OF bo] by simp
  ultimately have c: "\<forall>r \<in> set (bk_refs z). block_at m r \<noteq> None" "case bk_key z of None \<Rightarrow> True | Some k \<Rightarrow> coll_of m k = SHAPE_KEYS"
    by auto
  have arr: "block_at m p \<noteq> None \<and> coll_of m p \<in> set BLOB_COLLECTIONS" if p: "p \<in> fst ` set ps" for p
  proof -
    have "fst ` set ps = fst ` set loaded" using pair_up_facts(1) [OF ok, of umap] ps by (metis set_map)
    then obtain n where "(p, n) \<in> set loaded" using p by auto
    then have "stamp_of m p \<noteq> []" "coll_of m p \<in> set BLOB_COLLECTIONS" using ok by (auto simp: arrivals_ok_def)
    then show ?thesis by (auto simp: stamp_of_def split: option.splits)
  qed
  have old: "coll_of m p \<in> set BLOB_COLLECTIONS" if p: "p \<in> set (olds ps)" for p
  proof -
    obtain q n where q: "(q, Some p, n) \<in> set ps" using p unfolding in_olds by blast
    then have "coll_of m p = coll_of m q" using pair_up_facts(6) [OF ok, of q p n umap] ps by simp
    then show ?thesis using arr [of q] q by (metis fst_conv image_eqI)
  qed
  have "block_at (taken_over ps m) r \<noteq> None" if r: "r \<in> set (bk_refs y)" for r
  proof -
    obtain q where q: "q \<in> set (bk_refs z)" "r = swap_ref ps q" using r z(2) by auto
    have "block_at m r \<noteq> None"
      using q c(1) arr swap_ref_old(2,3) [OF d] by (cases "q \<in> set (olds ps)") auto
    then show ?thesis using swap_ref_old(1) [OF d] q(2) by (simp add: block_at_taken_over [OF d])
  qed
  moreover have "coll_of (taken_over ps m) k = SHAPE_KEYS" if k: "bk_key y = Some k" for k
  proof -
    obtain q where q: "bk_key z = Some q" "k = swap_ref ps q" using k z(3) by auto
    have "SHAPE_KEYS \<notin> set BLOB_COLLECTIONS" by (simp add: SHAPE_KEYS_def BLOB_COLLECTIONS_def)
    moreover have kq: "coll_of m q = SHAPE_KEYS" using q c(2) by simp
    ultimately have "q \<notin> set (olds ps)" using old [of q] by metis
    then show ?thesis using q c(2) swap_ref_old(2) [OF d] by (simp add: coll_of_def block_at_taken_over [OF d] split: option.splits)
  qed
  ultimately show "(\<forall>r\<in>set (bk_refs y). block_at (taken_over ps m) r \<noteq> None)
      \<and> (\<forall>k. bk_key y = Some k \<longrightarrow> coll_of (taken_over ps m) k = SHAPE_KEYS)" by blast
qed

lemma arrival_facts:
  assumes ok: "arrivals_ok m loaded" and p: "(p, old, n) \<in> set (pair_up m umap loaded)"
  shows "(p, n) \<in> set loaded" "coll_of m p \<in> set BLOB_COLLECTIONS" "stamp_of m p \<noteq> []" "coll_of m p \<noteq> SHAPE_KEYS"
    "p \<notin> set (olds (pair_up m umap loaded))" "block_at m p \<noteq> None"
proof -
  show l: "(p, n) \<in> set loaded" by (rule pair_up_facts(3) [OF ok p])
  show c: "coll_of m p \<in> set BLOB_COLLECTIONS" and s: "stamp_of m p \<noteq> []" using ok l by (auto simp: arrivals_ok_def)
  have "SHAPE_KEYS \<notin> set BLOB_COLLECTIONS" by (simp add: SHAPE_KEYS_def BLOB_COLLECTIONS_def)
  then show "coll_of m p \<noteq> SHAPE_KEYS" using c by metis
  show "p \<notin> set (olds (pair_up m umap loaded))"
    using pair_up_facts(4) [OF ok, of umap] p by (metis disjoint_iff fst_conv image_eqI)
  show "block_at m p \<noteq> None" using s by (auto simp: stamp_of_def split: option.splits)
qed

lemma taken_over_fields:
  assumes "arrivals_ok m loaded" "ps = pair_up m umap loaded"
  shows "coll_of (taken_over ps m) x = (if x \<in> set (olds ps) then [] else coll_of m x)"
    and "stamp_of (taken_over ps m) x = (if x \<in> set (olds ps) then [] else stamp_of m x)"
    and "name_at (taken_over ps m) x = (if x \<in> set (olds ps) then [] else name_at m x)"
    and "block_at (taken_over ps m) x = None \<longleftrightarrow> x \<in> set (olds ps) \<or> block_at m x = None"
  using block_at_taken_over [OF pair_up_facts(4) [OF assms(1)], of umap m, folded assms(2)]
  by (simp_all add: coll_of_def stamp_of_def name_at_def split: option.splits)

text \<open>A name an arrival wants is free once its predecessor is gone.\<close>

lemma wanted_names_free:
  assumes ok: "arrivals_ok m loaded" and ps: "ps = pair_up m umap loaded"
    and h: "(p, old, n) \<in> set ps" "q \<noteq> p" "block_at (taken_over ps m) q \<noteq> None"
      "coll_of (taken_over ps m) q = coll_of (taken_over ps m) p"
  shows "name_at (taken_over ps m) q \<noteq> n"
proof
  assume nm: "name_at (taken_over ps m) q = n"
  note f = taken_over_fields [OF ok ps]
  note a = arrival_facts [OF ok h(1) [unfolded ps], folded ps]
  have q: "q \<notin> set (olds ps)" "block_at m q \<noteq> None" using h(3) by (auto simp: f(4))
  then obtain b where b: "block_at m q = Some b" by blast
  have bo: "blocks_ok m" using ok by (simp add: arrivals_ok_def)
  have "name_at m q = n" using nm q(1) by (simp add: f(3))
  then have "pd_name b = n" by (simp add: name_at_def b)
  moreover have "bk_coll b = coll_of m p" using h(4) q(1) a(5) coll_of_Some [OF b] by (simp add: f(1))
  moreover have "(q, b) \<in> set (mb_blocks m)" using b blocks_ok_in_set [OF bo] by simp
  moreover have "\<forall>(p, n) \<in> set loaded. \<forall>(x, b) \<in> set (mb_blocks m). x \<noteq> p \<and> bk_coll b = coll_of m p \<and> pd_name b = n
      \<longrightarrow> bk_stamp b = stamp_of m p"
    using ok unfolding arrivals_ok_def by (elim conjE)
  ultimately have "bk_stamp b = stamp_of m p" using a(1) h(2) by blast
  then have "(p, Some q, n) \<in> set ps"
    using pair_up_facts(5) [OF ok a(1) h(2), of umap] b ps by (simp add: stamp_of_def)
  then show False using q(1) unfolding in_olds by blast
qed

lemma blob_names:
  assumes ok: "arrivals_ok m loaded" and ps: "ps = pair_up m umap loaded" and env: "blender_ok env"
  shows "\<exists>first m2. name_arrivals env ps [] 0 (Some d) (taken_over ps m) = (Inr (first, 0), Some (map_arrivals (taken_over ps m) ps d), m2)
    \<and> renamed (taken_over ps m) m2 \<and> blocks_ok m2
    \<and> (\<forall>x. x \<notin> fst ` set ps \<longrightarrow> name_at m2 x = name_at (taken_over ps m) x) \<and> (\<forall>(p, old, n) \<in> set ps. name_at m2 p = n)"
proof (rule name_all [OF env])
  note f = taken_over_fields [OF ok ps]
  note a = arrival_facts [OF ok, of _ _ _ umap, folded ps]
  show "blocks_ok (taken_over ps m)" using ok by (simp add: arrivals_ok_def blocks_ok_taken_over)
  show "\<forall>(p, old, n) \<in> set ps. block_at (taken_over ps m) p \<noteq> None" using a(5,6) by (auto simp: f(4))
  have "map (\<lambda>(p, old, n). (coll_of (taken_over ps m) p, n)) ps = map (\<lambda>(p, old, n). (coll_of m p, n)) ps"
    by (rule map_cong) (use a(5) in \<open>auto simp: f(1)\<close>)
  then show "distinct (map (\<lambda>(p, old, n). (coll_of (taken_over ps m) p, n)) ps)"
    using ok pair_up_facts(2) [OF ok, of umap] ps by (simp add: arrivals_ok_def)
  show "distinct (map fst ps)" using ok pair_up_facts(1) [OF ok, of umap] ps by (simp add: arrivals_ok_def)
  show "\<forall>(p, old, n) \<in> set ps. \<forall>q. q \<noteq> p \<longrightarrow> block_at (taken_over ps m) q \<noteq> None
      \<longrightarrow> coll_of (taken_over ps m) q = coll_of (taken_over ps m) p \<longrightarrow> name_at (taken_over ps m) q \<noteq> n"
  proof (intro ballI)
    fix x
    assume x: "x \<in> set ps"
    obtain p old n where "x = (p, old, n)" by (rule prod_cases3)
    then show "case x of (p, old, n) \<Rightarrow> \<forall>q. q \<noteq> p \<longrightarrow> block_at (taken_over ps m) q \<noteq> None
      \<longrightarrow> coll_of (taken_over ps m) q = coll_of (taken_over ps m) p \<longrightarrow> name_at (taken_over ps m) q \<noteq> n"
      using wanted_names_free [OF ok ps] x by blast
  qed
qed

text \<open>What the whole of \<open>apply_blob\<close> leaves of each datablock.\<close>

lemma apply_blob_run:
  assumes load: "load m = Inr (contents, m0)" and ok: "arrivals_ok m0 (loaded_of contents)" and env: "blender_ok env"
    and ps: "ps = pair_up m0 (Some d) (loaded_of contents)"
  obtains first e m' m2 where
    "t2_apply_blob env dir maps (Some d) load m = (Inr (first, e), Some (map_arrivals (taken_over ps m0) ps d), m')"
    "refs_closed m'" "renamed (taken_over ps m0) m2" "keeps_blocks m2 m'"
    "\<forall>x. x \<notin> fst ` set ps \<longrightarrow> name_at m2 x = name_at (taken_over ps m0) x" "\<forall>(p, old, n) \<in> set ps. name_at m2 p = n"
proof -
  have can: "\<And>a b. be_remaps env a b" "\<And>xs. be_removes env xs" using env by (simp_all add: blender_ok_def)
  obtain first m2 where m2: "name_arrivals env ps [] 0 (Some d) (taken_over ps m0)
      = (Inr (first, 0), Some (map_arrivals (taken_over ps m0) ps d), m2)
    \<and> renamed (taken_over ps m0) m2 \<and> blocks_ok m2
    \<and> (\<forall>x. x \<notin> fst ` set ps \<longrightarrow> name_at m2 x = name_at (taken_over ps m0) x) \<and> (\<forall>(p, old, n) \<in> set ps. name_at m2 p = n)"
    using blob_names [OF ok ps env, of d] by (elim exE)
  have c2: "refs_closed m2" using renamed_closed taken_over_closed [OF ok ps] m2 by blast
  obtain e3 m3 where m3: "localize_arrivals env dir maps ps (fold (adopt_key env) ps (0, m2)) = (e3, m3)" by fastforce
  have "t2_apply_blob env dir maps (Some d) load m
      = (Inr (first, e3), Some (map_arrivals (taken_over ps m0) ps d), fold link_orphan ps m3)"
    using m2 by (simp add: t2_apply_blob_def load ps [symmetric] remap_and_remove [OF can] m3)
  moreover have "keeps_blocks m2 (fold link_orphan ps m3)" "refs_closed (fold link_orphan ps m3)"
    using rest_keeps [OF _ c2 m3] m2 by blast+
  ultimately show thesis using that m2 by blast
qed

lemma kept_block:
  assumes d: "fst ` set ps \<inter> set (olds ps) = {}" and r: "renamed (taken_over ps m) m2" and k: "keeps_blocks m2 m'"
    and x: "block_at m x = Some v" "bk_coll v \<noteq> SHAPE_KEYS" "x \<notin> set (olds ps)"
  shows "\<exists>w. block_at m' x = Some w \<and> bk_coll w = bk_coll v \<and> bk_stamp w = bk_stamp v \<and> pd_name w = name_at m2 x
      \<and> (\<forall>r \<in> set (bk_refs v). coll_of (taken_over ps m) (swap_ref ps r) \<noteq> SHAPE_KEYS \<longrightarrow> swap_ref ps r \<in> set (bk_refs w))"
proof -
  have "block_at (taken_over ps m) x = Some (v\<lparr>bk_refs := map (swap_ref ps) (bk_refs v), bk_key := map_option (swap_ref ps) (bk_key v)\<rparr>)"
    using x by (simp add: block_at_taken_over [OF d])
  note b2 = renamed_at(1) [OF r this]
  then obtain w where w: "block_at m' x = Some w" "pd_name w = name_at m2 x"
    "\<forall>r \<in> swap_ref ps ` set (bk_refs v). coll_of m2 r \<noteq> SHAPE_KEYS \<longrightarrow> r \<in> set (bk_refs w)"
    using k x(2) unfolding keeps_blocks_def by fastforce
  moreover have "bk_coll w = bk_coll v \<and> bk_stamp w = bk_stamp v"
    using k w(1) b2 unfolding keeps_blocks_def by fastforce
  ultimately show ?thesis using renamed_keeps(1) [OF r] by auto
qed

lemma removed_block:
  assumes "fst ` set ps \<inter> set (olds ps) = {}" "renamed (taken_over ps m) m2" "keeps_blocks m2 m'" "x \<in> set (olds ps)"
  shows "block_at m' x = None"
proof -
  have "block_at m2 x = None" using renamed_at(2) [OF assms(2)] assms(4) by (simp add: block_at_taken_over [OF assms(1)])
  then show ?thesis using assms(3) unfolding keeps_blocks_def by (metis not_Some_eq)
qed

lemma swap_to_arrival:
  assumes ok: "arrivals_ok m loaded" and ps: "ps = pair_up m umap loaded"
    and p: "(p, n) \<in> set loaded" "x \<noteq> p" "stamp_of m x = stamp_of m p"
  shows "swap_ref ps x = p" "x \<in> set (olds ps)"
proof -
  have px: "(p, Some x, n) \<in> set ps" using pair_up_facts(5) [OF ok p, of umap] ps by simp
  then show xo: "x \<in> set (olds ps)" unfolding in_olds by blast
  have "find (\<lambda>(_, old, _). old = Some x) ps \<noteq> None" using px unfolding find_None_iff by auto
  then obtain q where q: "find (\<lambda>(_, old, _). old = Some x) ps = Some q" by blast
  obtain z c where qz: "q = (z, Some x, c)" "q \<in> set ps" using find_Some_in [OF q] by auto
  have "stamp_of m z = stamp_of m p" using pair_up_facts(6) [OF ok, of z x c umap] qz ps p(3) by simp
  moreover have "z \<in> fst ` set loaded"
    using pair_up_facts(3) [OF ok, of z "Some x" c umap] qz ps by (metis fst_conv image_eqI)
  ultimately have "z = p" using pair_up_facts(7) [OF ok p(1)] by blast
  then show "swap_ref ps x = p"
    using swap_ref_find [OF pair_up_facts(4) [OF ok, of umap], folded ps] by (simp add: q qz(1))
qed

text \<open>C13: A blob replaces what it names. When the blob of a replica in step with its host has loaded, \<open>apply_blob\<close> leaves
  each arrival under its own name, in the uuid map and alone with its stamp: its predecessor is deleted and every
  datablock that used it uses the arrival. Whatever carries another stamp or none stays with its name, and no reference
  anywhere is left to a deleted datablock, shape keys included.\<close>

theorem apply_blob_swaps_in:
  assumes "load m = Inr (contents, m0)" "arrivals_ok m0 (loaded_of contents)" "blender_ok env"
  shows "case t2_apply_blob env dir maps (Some d) load m of
     (Inr (primary, e), Some d', m') \<Rightarrow> swapped_in (loaded_of contents) m0 d' m' | _ \<Rightarrow> False"
proof -
  let ?L = "loaded_of contents"
  define ps where ps: "ps = pair_up m0 (Some d) ?L"
  note ok = assms(2) and f = taken_over_fields [OF assms(2) ps]
  have d: "fst ` set ps \<inter> set (olds ps) = {}" using pair_up_facts(4) [OF ok, of "Some d"] ps by simp
  have news: "fst ` set ps = fst ` set ?L" using pair_up_facts(1) [OF ok, of "Some d"] ps by (metis set_map)
  obtain first e m' m2 where run: "t2_apply_blob env dir maps (Some d) load m = (Inr (first, e), Some (map_arrivals (taken_over ps m0) ps d), m')"
    and closed: "refs_closed m'" and r: "renamed (taken_over ps m0) m2" and k: "keeps_blocks m2 m'"
    and names: "\<forall>x. x \<notin> fst ` set ps \<longrightarrow> name_at m2 x = name_at (taken_over ps m0) x" "\<forall>(p, old, n) \<in> set ps. name_at m2 p = n"
    by (rule apply_blob_run [where load = load and m = m and d = d and dir = dir and maps = maps, OF assms ps])
  note kept = kept_block [OF d r k] and gone = removed_block [OF d r k]
  have "block_at m' p \<noteq> None \<and> name_at m' p = n \<and> stamp_of m' p = stamp_of m0 p
      \<and> dget (map_arrivals (taken_over ps m0) ps d) (stamp_of m0 p) = Some p
      \<and> (\<forall>x. x \<noteq> p \<and> stamp_of m0 x = stamp_of m0 p \<longrightarrow> block_at m' x = None
          \<and> (\<forall>y v w. block_at m0 y = Some v \<and> bk_coll v \<noteq> SHAPE_KEYS \<and> block_at m' y = Some w \<and> x \<in> set (bk_refs v) \<longrightarrow> p \<in> set (bk_refs w)))"
    if p: "(p, n) \<in> set ?L" for p n
  proof -
    have po: "(p, predecessor m0 (Some d) (map fst ?L) (p, n), n) \<in> set ps"
      using p by (auto simp: ps pair_up_def intro: rev_image_eqI)
    note a = arrival_facts [OF ok po [unfolded ps], folded ps]
    obtain v where v: "block_at m0 p = Some v" using a(6) by blast
    have "bk_coll v \<noteq> SHAPE_KEYS" using a(4) coll_of_Some [OF v] by simp
    then obtain w where w: "block_at m' p = Some w" "bk_stamp w = bk_stamp v" "pd_name w = name_at m2 p"
      using kept [OF v _ a(5)] by blast
    have "dget (map_arrivals (taken_over ps m0) ps d) (stamp_of (taken_over ps m0) p) = Some p"
    proof (rule map_arrivals_get)
      show "p \<in> fst ` set ps" using po by (auto intro: rev_image_eqI)
      show "stamp_of (taken_over ps m0) p \<noteq> []" using a by (simp add: f(2))
      show "q = p" if q: "q \<in> fst ` set ps" "stamp_of (taken_over ps m0) q = stamp_of (taken_over ps m0) p" for q
        using pair_up_facts(7) [OF ok p, of q] q a(3,5) news by (auto simp: f(2) split: if_splits)
    qed
    then have "dget (map_arrivals (taken_over ps m0) ps d) (stamp_of m0 p) = Some p" using a(5) by (simp add: f(2))
    moreover have "block_at m' x = None" if x: "x \<noteq> p" "stamp_of m0 x = stamp_of m0 p" for x
      by (rule gone) (rule swap_to_arrival(2) [OF ok ps p x])
    moreover have "p \<in> set (bk_refs u)" if x: "x \<noteq> p" "stamp_of m0 x = stamp_of m0 p"
      and y: "block_at m0 y = Some t" "bk_coll t \<noteq> SHAPE_KEYS" "block_at m' y = Some u" "x \<in> set (bk_refs t)" for x y t u
    proof -
      have "y \<notin> set (olds ps)" using gone y(3) by force
      moreover have "coll_of (taken_over ps m0) p \<noteq> SHAPE_KEYS" using a(4,5) by (simp add: f(1))
      ultimately show ?thesis using kept [OF y(1,2)] y(3,4) swap_to_arrival(1) [OF ok ps p x] by fastforce
    qed
    moreover have "name_at m2 p = n" using names(2) po by auto
    ultimately show ?thesis using w v by (simp add: name_at_def stamp_of_def) blast
  qed
  moreover have "\<exists>w. block_at m' x = Some w \<and> pd_name w = pd_name v \<and> bk_coll w = bk_coll v \<and> bk_stamp w = bk_stamp v"
    if x: "block_at m0 x = Some v" "bk_coll v \<noteq> SHAPE_KEYS" "bk_stamp v \<notin> stamp_of m0 ` fst ` set ?L" for x v
  proof -
    have sx: "stamp_of m0 x = bk_stamp v" using x(1) by (simp add: stamp_of_def)
    have xo: "x \<notin> set (olds ps)"
    proof
      assume "x \<in> set (olds ps)"
      then obtain p n where p: "(p, Some x, n) \<in> set ps" unfolding in_olds by blast
      then have "stamp_of m0 x = stamp_of m0 p" using pair_up_facts(6) [OF ok, of p x n "Some d"] ps by simp
      moreover have "p \<in> fst ` set ?L" using p news by (metis fst_conv image_eqI)
      ultimately show False using x(3) sx by (metis image_eqI)
    qed
    have "x \<notin> fst ` set ps" using x(3) sx news by (metis image_eqI)
    then have "name_at m2 x = name_at m0 x" using names(1) xo by (simp add: f(3))
    then show ?thesis using kept [OF x(1,2) xo] x(1) by (auto simp: name_at_def [of m0])
  qed
  ultimately have "swapped_in ?L m0 (map_arrivals (taken_over ps m0) ps d) m'"
    unfolding swapped_in_def using closed by blast
  then show ?thesis by (simp add: run)
qed

text \<open>A small replica: an object using a mesh, and the blob with the new mesh and the new object.\<close>

definition demo_block :: "string \<Rightarrow> string \<Rightarrow> uuid \<Rightarrow> int list \<Rightarrow> block" where
  "demo_block coll n u refs = \<lparr>pd_type = ''ID'', pd_name = n, pd_path = None, pd_packed = False, pd_reloads = False, pd_editable = True,
     bk_coll = coll, bk_stamp = u, bk_refs = refs, bk_key = None,
     bk_sim = \<lparr>so_alive = True, so_editable = True, so_mods = [], so_psys = []\<rparr>\<rparr>"

definition demo_path_env :: path_env where
  "demo_path_env = \<lparr>pe_os = ''lin'', pe_home = ''/home'', pe_nt_abs = (\<lambda>d ps. d), pe_exists = (\<lambda>p. True),
     pe_dir = (\<lambda>p. None), pe_reloads = (\<lambda>p. True)\<rparr>"

definition demo_blob_env :: blob_env where
  "demo_blob_env = \<lparr>be_paths = demo_path_env, be_remaps = (\<lambda>a b. True), be_removes = (\<lambda>xs. True), be_renames = (\<lambda>p n. True),
     be_unique = (\<lambda>n taken. if n \<in> set taken then n @ ''.001'' else n), be_key_ok = (\<lambda>a b. True)\<rparr>"

definition demo_loaded :: main_db where
  "demo_loaded = \<lparr>mb_blocks = [(1, demo_block ''scenes'' ''Scene'' ''s'' [2]),
     (2, demo_block ''objects'' ''Cube'' ''u'' [3]), (3, demo_block ''meshes'' ''Mesh'' ''v'' []),
     (4, demo_block ''objects'' ''Cube.001'' ''u'' [5]), (5, demo_block ''meshes'' ''Mesh.001'' ''v'' [])], mb_scene = 1\<rparr>"

definition demo_contents :: contents where
  "demo_contents coll = (if coll = ''objects'' then [(''Cube'', Some 4)] else if coll = ''meshes'' then [(''Mesh'', Some 5)] else [])"

lemma demo_loaded_of: "loaded_of demo_contents = [(4, ''Cube''), (5, ''Mesh'')]"
  by (simp add: loaded_of_def BLOB_COLLECTIONS_def demo_contents_def List.map_filter_def)

lemma apply_blob_swaps_in_witness:
  "case t2_apply_blob demo_blob_env [] [] (Some []) (\<lambda>m. Inr (demo_contents, demo_loaded)) demo_loaded of
     (Inr (primary, e), Some d', m') \<Rightarrow> swapped_in [(4, ''Cube''), (5, ''Mesh'')] demo_loaded d' m' | _ \<Rightarrow> False"
proof (rule apply_blob_swaps_in [where contents = demo_contents, unfolded demo_loaded_of])
  show "arrivals_ok demo_loaded [(4, ''Cube''), (5, ''Mesh'')]"
    by (simp add: arrivals_ok_def demo_loaded_def demo_block_def blocks_ok_def coll_of_def stamp_of_def block_at_def BLOB_COLLECTIONS_def)
  show "blender_ok demo_blob_env" by (simp add: blender_ok_def demo_blob_env_def)
qed simp

subsection \<open>A name used again\<close>

text \<open>
  On the host a datablock was renamed from \<open>n\<close> to \<open>k\<close> and a new one took the name \<open>n\<close>; both ride in one blob, the new
  one \<open>a\<close> and the renamed one \<open>b\<close>. The replica still has the old copy \<open>x\<close> of the renamed one under the name \<open>n\<close>, and
  \<open>y\<close> uses it.
\<close>

definition name_reused :: "main_db \<Rightarrow> int \<Rightarrow> int \<Rightarrow> int \<Rightarrow> int \<Rightarrow> string \<Rightarrow> string \<Rightarrow> bool" where
  "name_reused m a b x y n k \<longleftrightarrow> blocks_ok m \<and> distinct [a, b, x, y] \<and> n \<noteq> k
     \<and> coll_of m b = coll_of m a \<and> coll_of m x = coll_of m a \<and> coll_of m a \<in> set BLOB_COLLECTIONS - {''objects''}
     \<and> stamp_of m a \<noteq> [] \<and> stamp_of m b \<noteq> [] \<and> stamp_of m a \<noteq> stamp_of m b \<and> stamp_of m x = stamp_of m b \<and> name_at m x = n
     \<and> (\<forall>(q, c) \<in> set (mb_blocks m).
          (bk_stamp c = stamp_of m a \<longrightarrow> q = a) \<and> (bk_stamp c = stamp_of m b \<longrightarrow> q \<in> {b, x})
          \<and> (bk_coll c = coll_of m a \<longrightarrow> (pd_name c = n \<longrightarrow> q = x) \<and> (pd_name c = k \<longrightarrow> q = b))
          \<and> (q = a \<or> q = b \<longrightarrow> bk_key c = None))
     \<and> block_at m y \<noteq> None"

lemma name_reusedD:
  assumes "name_reused m a b x y n k"
  shows "blocks_ok m" "n \<noteq> k" "distinct [a, b, x, y]" "block_at m y \<noteq> None" "name_at m x = n"
    and "coll_of m a \<in> set BLOB_COLLECTIONS" "coll_of m a \<noteq> ''objects''" "coll_of m b = coll_of m a" "coll_of m x = coll_of m a"
    and "stamp_of m a \<noteq> []" "stamp_of m b \<noteq> []" "stamp_of m a \<noteq> stamp_of m b" "stamp_of m x = stamp_of m b"
  using assms unfolding name_reused_def by simp_all

lemma name_reused_block:
  assumes "name_reused m a b x y n k" "block_at m q = Some c"
  shows "bk_stamp c = stamp_of m a \<Longrightarrow> q = a" "bk_stamp c = stamp_of m b \<Longrightarrow> q = b \<or> q = x"
    and "bk_coll c = coll_of m a \<Longrightarrow> pd_name c = n \<Longrightarrow> q = x" "bk_coll c = coll_of m a \<Longrightarrow> pd_name c = k \<Longrightarrow> q = b"
    and "q = a \<or> q = b \<Longrightarrow> bk_key c = None"
proof -
  have every: "\<forall>(q, c) \<in> set (mb_blocks m). (bk_stamp c = stamp_of m a \<longrightarrow> q = a) \<and> (bk_stamp c = stamp_of m b \<longrightarrow> q \<in> {b, x})
          \<and> (bk_coll c = coll_of m a \<longrightarrow> (pd_name c = n \<longrightarrow> q = x) \<and> (pd_name c = k \<longrightarrow> q = b))
          \<and> (q = a \<or> q = b \<longrightarrow> bk_key c = None)"
    using assms(1) unfolding name_reused_def by (elim conjE)
  have "(q, c) \<in> set (mb_blocks m)" using assms(2) blocks_ok_in_set name_reusedD(1) [OF assms(1)] by blast
  note b = bspec [OF every this]
  show "bk_stamp c = stamp_of m a \<Longrightarrow> q = a" "bk_stamp c = stamp_of m b \<Longrightarrow> q = b \<or> q = x"
    "bk_coll c = coll_of m a \<Longrightarrow> pd_name c = n \<Longrightarrow> q = x" "bk_coll c = coll_of m a \<Longrightarrow> pd_name c = k \<Longrightarrow> q = b"
    "q = a \<or> q = b \<Longrightarrow> bk_key c = None"
    using b by auto
qed

lemma reused_old:
  assumes "name_reused m a b x y n k"
  shows "predecessor m (Some d) [a, b] (a, n) = Some x" "predecessor m (Some d) [a, b] (b, k) = Some x"
proof -
  note r = name_reusedD [OF assms] and bo = name_reusedD(1) [OF assms]
  have ne: "x \<noteq> a" "x \<noteq> b" "a \<noteq> b" using r(3) by simp_all
  note colls = r(6,9,8) and st = r(10,11,13,12,5)
  have all: "(bk_stamp c = stamp_of m a \<longrightarrow> q = a) \<and> (bk_stamp c = stamp_of m b \<longrightarrow> q \<in> {b, x})
          \<and> (bk_coll c = coll_of m a \<longrightarrow> (pd_name c = n \<longrightarrow> q = x) \<and> (pd_name c = k \<longrightarrow> q = b))"
    if "(q, c) \<in> set (mb_blocks m)" for q c
    using name_reused_block [OF assms, of q c] that blocks_ok_in_set [OF bo] by auto
  note in_blocks = blocks_ok_in_set [OF bo]
  obtain c where c: "block_at m x = Some c" using st(2,3) by (auto simp: stamp_of_def split: option.splits)
  have in_x: "(x, c) \<in> set (members (coll_of m a) m)" using c colls(2) by (simp add: members_def in_blocks coll_of_def)
  have cx: "pd_name c = n" "bk_stamp c = stamp_of m b" using st(3,5) c by (simp_all add: name_at_def stamp_of_def)
  have "find_in_map m (Some d) (stamp_of m a) a = None"
    using all by (auto simp: find_in_map_def in_blocks split: option.splits)
  moreover have "find_by_uuid m (stamp_of m a) a = None"
    using all by (auto simp: find_by_uuid_def find_None_iff members_def)
  moreover have "find_by_name m [a, b] (coll_of m a) n = Some x"
  proof -
    have "find (\<lambda>(p, b'). pd_name b' = n \<and> p \<notin> set [a, b]) (members (coll_of m a) m) \<noteq> None"
      using in_x cx(1) ne unfolding find_None_iff by auto
    then obtain q where q: "find (\<lambda>(p, b'). pd_name b' = n \<and> p \<notin> set [a, b]) (members (coll_of m a) m) = Some q" by blast
    have "fst q = x" using find_Some_in [OF q] all by (auto simp: members_def)
    then show ?thesis unfolding find_by_name_def q by simp
  qed
  ultimately show "predecessor m (Some d) [a, b] (a, n) = Some x" using st(1) by (simp add: predecessor_def)
  have u: "find_by_uuid m (stamp_of m b) b = Some x"
  proof -
    have "(x, c) \<in> set (concat (map (\<lambda>coll. members coll m) BLOB_COLLECTIONS))" using in_x colls(1) by auto
    then have "find (\<lambda>(p, c). p \<noteq> b \<and> bk_stamp c = stamp_of m b) (concat (map (\<lambda>coll. members coll m) BLOB_COLLECTIONS)) \<noteq> None"
      using cx(2) ne unfolding find_None_iff by auto
    then obtain q where q: "find (\<lambda>(p, c). p \<noteq> b \<and> bk_stamp c = stamp_of m b) (concat (map (\<lambda>coll. members coll m) BLOB_COLLECTIONS)) = Some q" by blast
    have "fst q = x" using find_Some_in [OF q] all by (fastforce simp: members_def)
    then show ?thesis unfolding find_by_uuid_def q by simp
  qed
  have "find_in_map m (Some d) (stamp_of m b) b \<in> {None, Some x}"
    using all by (auto simp: find_in_map_def in_blocks split: option.splits)
  then show "predecessor m (Some d) [a, b] (b, k) = Some x" using u st(2) by (auto simp: predecessor_def)
qed

lemma localize_refs:
  assumes "\<And>b. bk_refs (snd (f b)) = bk_refs b"
  shows "map_option bk_refs (block_at (snd (fold (localize_block f) ps st)) x) = map_option bk_refs (block_at (snd st) x)"
proof (induction ps arbitrary: st)
  case (Cons p ps)
  have "map_option bk_refs (block_at (snd (localize_block f p st)) x) = map_option bk_refs (block_at (snd st) x)"
    using assms by (auto simp: localize_block_def block_at_set_block split: prod.splits option.splits) (metis snd_conv)
  then show ?case using Cons.IH by simp
qed simp

lemma localize_coll:
  assumes "\<And>b. bk_coll (snd (f b)) = bk_coll b"
  shows "coll_of (snd (fold (localize_block f) ps st)) x = coll_of (snd st) x"
proof (induction ps arbitrary: st)
  case (Cons p ps)
  have "coll_of (snd (localize_block f p st)) x = coll_of (snd st) x"
    using assms by (auto simp: coll_of_def localize_block_def block_at_set_block split: prod.splits option.splits) (metis snd_conv)
  then show ?case using Cons.IH by simp
qed simp

lemma localize_arrivals_coll: "coll_of (snd (localize_arrivals env dir maps ps st)) x = coll_of (snd st) x"
  unfolding localize_arrivals_def Let_def
  by (simp add: localize_coll db_paths_fields sim_paths_fields)

lemma localize_arrivals_refs:
  "map_option bk_refs (block_at (snd (localize_arrivals env dir maps ps st)) x) = map_option bk_refs (block_at (snd st) x)"
  unfolding localize_arrivals_def Let_def
  by (simp add: localize_refs db_paths_fields sim_paths_fields)

lemma two_arrivals:
  assumes r: "name_reused m a b x y n k" and ps: "ps = [(a, Some x, n), (b, Some x, k)]"
  shows "fst ` set ps \<inter> set (olds ps) = {}" "set (olds ps) = {x}" "swap_ref ps = (\<lambda>r. if r = x then a else r)"
    "block_at m a \<noteq> None" "block_at m b \<noteq> None" "\<And>c. block_at m a = Some c \<or> block_at m b = Some c \<Longrightarrow> bk_key c = None"
proof -
  note d = name_reusedD [OF r]
  show "fst ` set ps \<inter> set (olds ps) = {}" "set (olds ps) = {x}" "swap_ref ps = (\<lambda>r. if r = x then a else r)"
    using d(3) by (auto simp: ps olds_def List.map_filter_def swap_ref_def fun_eq_iff)
  show "block_at m a \<noteq> None" "block_at m b \<noteq> None" using d(10,11) by (auto simp: stamp_of_def split: option.splits)
  show "bk_key c = None" if "block_at m a = Some c \<or> block_at m b = Some c" for c
    using that name_reused_block(5) [OF r] by blast
qed

lemma reused_names:
  assumes r: "name_reused m a b x y n k" and ps: "ps = [(a, Some x, n), (b, Some x, k)]" and env: "blender_ok env"
  shows "\<exists>first m2. name_arrivals env ps [] 0 (Some d) (taken_over ps m) = (Inr (first, 0), Some (map_arrivals (taken_over ps m) ps d), m2)
    \<and> renamed (taken_over ps m) m2 \<and> blocks_ok m2
    \<and> (\<forall>z. z \<notin> fst ` set ps \<longrightarrow> name_at m2 z = name_at (taken_over ps m) z) \<and> (\<forall>(p, old, n) \<in> set ps. name_at m2 p = n)"
proof (rule name_all [OF env])
  note bo = name_reusedD(1) [OF r] and nk = name_reusedD(2) [OF r] and ne = name_reusedD(3) [OF r] and bc = name_reusedD(8) [OF r]
  note f = two_arrivals [OF r ps]
  have at1: "block_at (taken_over ps m) z = None \<longleftrightarrow> z = x \<or> block_at m z = None" for z
    by (simp add: block_at_taken_over [OF f(1)] f(2))
  have fields: "coll_of (taken_over ps m) z = (if z = x then [] else coll_of m z)" "name_at (taken_over ps m) z = (if z = x then [] else name_at m z)" for z
    by (simp_all add: coll_of_def name_at_def block_at_taken_over [OF f(1)] f(2) split: option.splits)
  show "blocks_ok (taken_over ps m)" by (rule blocks_ok_taken_over [OF bo])
  have "block_at (taken_over ps m) a \<noteq> None" "block_at (taken_over ps m) b \<noteq> None" using f(4,5) ne by (simp_all only: at1) auto
  then show "\<forall>(p, old, n) \<in> set ps. block_at (taken_over ps m) p \<noteq> None" by (simp add: ps)
  show "distinct (map (\<lambda>(p, old, n). (coll_of (taken_over ps m) p, n)) ps)" "distinct (map fst ps)"
    using nk ne by (simp_all add: ps)
  have "name_at m q \<noteq> n \<and> (q \<noteq> b \<longrightarrow> name_at m q \<noteq> k)" if q: "q \<noteq> x" "block_at m q \<noteq> None" "coll_of m q = coll_of m a" for q
  proof -
    obtain c where c: "block_at m q = Some c" using q(2) by blast
    then show ?thesis using name_reused_block(3,4) [OF r c] q by (auto simp: coll_of_def name_at_def)
  qed
  then have "name_at (taken_over ps m) q \<noteq> n \<and> (q \<noteq> b \<longrightarrow> name_at (taken_over ps m) q \<noteq> k)"
    if "block_at (taken_over ps m) q \<noteq> None" "coll_of (taken_over ps m) q = coll_of (taken_over ps m) a" for q
    using that ne unfolding at1 fields by auto
  moreover have "coll_of (taken_over ps m) b = coll_of (taken_over ps m) a" using ne bc by (simp add: fields)
  ultimately show "\<forall>(p, old, n) \<in> set ps. \<forall>q. q \<noteq> p \<longrightarrow> block_at (taken_over ps m) q \<noteq> None
      \<longrightarrow> coll_of (taken_over ps m) q = coll_of (taken_over ps m) p \<longrightarrow> name_at (taken_over ps m) q \<noteq> n"
    by (simp add: ps)
qed

lemma no_keys_to_adopt:
  assumes "\<And>c. block_at m (fst pr) = Some c \<Longrightarrow> bk_key c = None"
  shows "adopt_key env pr (e, m) = (e, m)"
  using assms by (cases pr) (auto simp: adopt_key_def split: option.splits)

lemma nothing_to_link: "coll_of m (fst pr) \<noteq> ''objects'' \<Longrightarrow> link_orphan pr m = m"
  by (cases pr) (simp add: link_orphan_def)


definition demo_reused :: main_db where
  "demo_reused = \<lparr>mb_blocks = [(1, demo_block ''scenes'' ''Scene'' ''s'' [2]), (2, demo_block ''objects'' ''Wall'' ''o'' [3]),
     (3, demo_block ''materials'' ''Paint'' ''old'' []),
     (4, demo_block ''materials'' ''Paint.001'' ''new'' []), (5, demo_block ''materials'' ''Paint old'' ''old'' [])], mb_scene = 1\<rparr>"

definition demo_reused_contents :: contents where
  "demo_reused_contents coll = (if coll = ''materials'' then [(''Paint'', Some 4), (''Paint old'', Some 5)] else [])"


end
