(* ===== verification/Readback.thy ===== *)
theory Readback
  imports Ring_Layout
begin

text \<open>
  \<open>ring0/engine_qcb.py\<close>: what the replica's render engine reads back and publishes into the frame ring. The module's
  \<open>_st\<close> is the record \<open>readback\<close>; a frame is what the code looks at of its pixels, whether the sampled centre is black
  and its hash. The framebuffer, the camera's projection, shared memory and the ring's own \<open>publish\<close> are the environment
  of a draw. \<open>rb_log\<close> and \<open>rb_restarts\<close> record what was published and the rings the pixel path was told of.
\<close>

definition F_CAMERA_RECT :: int where "F_CAMERA_RECT = 1"
definition F_OFFSCREEN_ENGINE :: int where "F_OFFSCREEN_ENGINE = 4"
definition F_FIRST_AFTER_LOAD :: int where "F_FIRST_AFTER_LOAD = 8"
definition F_WARMUP :: int where "F_WARMUP = 16"
definition ENGINE_ID :: string where "ENGINE_ID = ''QCB_CYCLES''"
definition BACKOFF_AFTER :: nat where "BACKOFF_AFTER = 8"
definition BACKOFF_EVERY :: nat where "BACKOFF_EVERY = 4"
definition OFFSCREEN_MIN_INTERVAL :: time where "OFFSCREEN_MIN_INTERVAL = 1 / 15"

record picture =
  fm_w :: nat
  fm_h :: nat
  fm_black :: bool
  fm_hash :: string

record frame_out =
  fo_ring :: nat
  fo_frame :: picture
  fo_flags :: int
  fo_number :: nat
  fo_probe :: "(real \<times> int) option"

record readback =
  rb_ring :: "(nat \<times> layout) option"
  rb_gen :: nat
  rb_width :: nat
  rb_shot :: bool
  rb_registered :: bool
  rb_dirty :: bool
  rb_unchanged :: nat
  rb_draw_i :: nat
  rb_last_hash :: "string option"
  rb_seen :: bool
  rb_probe :: "(real \<times> int) option"
  rb_frame_number :: nat
  rb_off_size :: "nat \<times> nat"
  rb_off_last :: time
  rb_warmup_last :: time
  rb_black_frames :: nat
  rb_warmups :: nat
  rb_published :: nat
  rb_skipped :: nat
  rb_errors :: nat
  rb_engine :: string
  rb_size :: "nat \<times> nat"
  rb_log :: "frame_out list"
  rb_restarts :: "nat list"

text \<open>The clock, which ring widths can be allocated, and what the ring's \<open>publish\<close> answers.\<close>

record draw_env =
  de_now :: time
  de_alloc :: "nat \<Rightarrow> bool"
  de_publish :: "py_error + bool"

subsection \<open>The engine's name\<close>

record scene_render =
  sr_engine :: string
  sr_pixel_size :: string

definition map_engine :: "readback \<Rightarrow> string \<Rightarrow> string" where
  "map_engine rb v = (if v = ''CYCLES'' \<and> rb_registered rb then ENGINE_ID else v)"

definition unmap_engine :: "string \<Rightarrow> string" where
  "unmap_engine v = (if v = ENGINE_ID then ''CYCLES'' else v)"

definition stream_width :: "readback \<Rightarrow> nat" where
  "stream_width rb = rb_width rb"

definition adopt_scene :: "scene_render \<Rightarrow> readback \<Rightarrow> scene_render \<times> readback" where
  "adopt_scene sc rb = (if rb_ring rb = None then (sc, rb)
     else (sc\<lparr>sr_engine := map_engine rb (sr_engine sc), sr_pixel_size := ''1''\<rparr>,
           rb\<lparr>rb_seen := False, rb_last_hash := None, rb_dirty := True\<rparr>))"

definition unadopt_all :: "scene_render list \<Rightarrow> scene_render list" where
  "unadopt_all scs = map (\<lambda>sc. if sr_engine sc = ENGINE_ID then sc\<lparr>sr_engine := ''CYCLES''\<rparr> else sc) scs"

subsection \<open>Geometry\<close>

text \<open>\<open>n & ~1\<close>.\<close>

definition even_down :: "int \<Rightarrow> int" where
  "even_down n = 2 * (n div 2)"

text \<open>The corners of a camera frame are four; adopting a scene is taken to succeed.\<close>

type_synonym rect = "int \<times> int \<times> int \<times> int"

definition camera_rect :: "(real \<times> real) option list option \<Rightarrow> rect option" where
  "camera_rect coords = (case coords of None \<Rightarrow> None
     | Some cs \<Rightarrow> if None \<in> set cs \<or> cs = [] then None
         else let xs = map (fst \<circ> the) cs; ys = map (snd \<circ> the) cs;
                  lo = (\<lambda>vs. fold min (tl vs) (hd vs)); hi = (\<lambda>vs. fold max (tl vs) (hd vs))
              in Some (py_round (lo xs), py_round (lo ys), py_round (hi xs - lo xs), py_round (hi ys - lo ys)))"

definition clamp_rect :: "rect \<Rightarrow> rect \<Rightarrow> rect option" where
  "clamp_rect r view = (case (r, view) of ((x0, y0, w, h), (vx, vy, vw, vh)) \<Rightarrow>
     let rx0 = max x0 0; ry0 = max y0 0;
         rw = even_down (min (w - (rx0 - x0)) (vw - rx0)); rh = even_down (min (h - (ry0 - y0)) (vh - ry0))
     in if rw < 16 \<or> rh < 16 then None else Some (vx + rx0, vy + ry0, rw, rh))"

text \<open>What a draw reads: the camera rectangle in shot mode, else the region, with the flags it is published under.\<close>

definition read_plan :: "bool \<Rightarrow> rect option \<Rightarrow> rect \<Rightarrow> (rect \<times> int) option" where
  "read_plan shot cam view = (case view of (vx, vy, vw, vh) \<Rightarrow>
     let (rect, flags) = (if shot then (case cam of Some c \<Rightarrow> (clamp_rect c view, F_CAMERA_RECT) | None \<Rightarrow> (None, 0)) else (None, 0));
         r = (case rect of Some r \<Rightarrow> r | None \<Rightarrow> (vx, vy, even_down vw, even_down vh))
     in case r of (x, y, w, h) \<Rightarrow> if w < 16 \<or> h < 16 then None else Some (r, flags))"

subsection \<open>Publishing\<close>

text \<open>\<open>_regrow\<close>: a ring that cannot be created is counted and the old one stays.\<close>

definition new_ring :: "nat \<Rightarrow> readback \<Rightarrow> readback" where
  "new_ring width rb = rb\<lparr>rb_gen := rb_gen rb + 1, rb_ring := Some (rb_gen rb + 1, layout_for width None DEFAULT_SLOTS)\<rparr>"

definition regrow_width :: "nat \<Rightarrow> nat \<Rightarrow> nat" where
  "regrow_width w h = max w (h * 4 div 3 + 2)"

definition ring_error :: "readback \<Rightarrow> readback" where
  "ring_error rb = rb\<lparr>rb_errors := rb_errors rb + 1\<rparr>"

definition tell_restart :: "readback \<Rightarrow> readback" where
  "tell_restart rb = rb\<lparr>rb_restarts := rb_restarts rb @ [rb_gen rb]\<rparr>"

definition regrow :: "draw_env \<Rightarrow> nat \<Rightarrow> nat \<Rightarrow> readback \<Rightarrow> readback" where
  "regrow env w h rb =
     (let width = max (rb_width rb) w
      in if \<not> de_alloc env width then ring_error (rb\<lparr>rb_gen := rb_gen rb + 1\<rparr>)
         else if ly_fits (layout_for width None DEFAULT_SLOTS) w h 16 then tell_restart (new_ring width rb)
         else let rb1 = rb\<lparr>rb_gen := rb_gen rb + 1\<rparr>
              in if \<not> de_alloc env (regrow_width w h) then ring_error (rb1\<lparr>rb_gen := rb_gen rb1 + 1\<rparr>)
                 else tell_restart (new_ring (regrow_width w h) rb1))"

definition ring_fits :: "readback \<Rightarrow> picture \<Rightarrow> bool" where
  "ring_fits rb fm = (case rb_ring rb of None \<Rightarrow> False | Some (_, l) \<Rightarrow> ly_fits l (fm_w fm) (fm_h fm) 16)"

text \<open>
  The first part of \<open>_publish\<close>: start-up black at two frames a second, then the hash. \<open>None\<close> is an early return; the
  flags are those to publish with.
\<close>

definition admit_frame :: "draw_env \<Rightarrow> picture \<Rightarrow> int \<Rightarrow> readback \<Rightarrow> int option \<times> readback" where
  "admit_frame env fm flags rb =
     (if \<not> rb_seen rb \<and> fm_black fm
      then if de_now env - rb_warmup_last rb < 1 / 2 then (None, rb)
           else (Some (flags OR F_WARMUP), rb\<lparr>rb_warmup_last := de_now env, rb_black_frames := rb_black_frames rb + 1,
                   rb_warmups := rb_warmups rb + 1\<rparr>)
      else let first = \<not> rb_seen rb;
               rb1 = (if first then rb\<lparr>rb_seen := True, rb_black_frames := 0\<rparr> else rb);
               flags1 = (if first then flags OR F_FIRST_AFTER_LOAD else flags)
           in if rb_last_hash rb1 = Some (fm_hash fm)
              then (None, rb1\<lparr>rb_unchanged := rb_unchanged rb1 + 1, rb_skipped := rb_skipped rb1 + 1\<rparr>)
              else (Some flags1, rb1\<lparr>rb_last_hash := Some (fm_hash fm), rb_unchanged := 0\<rparr>))"

definition send_frame :: "draw_env \<Rightarrow> picture \<Rightarrow> int \<Rightarrow> readback \<Rightarrow> (py_error + unit) \<times> readback" where
  "send_frame env fm flags rb =
     (let rb1 = rb\<lparr>rb_frame_number := rb_frame_number rb + 1\<rparr>
      in case de_publish env of
           Inl err \<Rightarrow> (Inl err, rb1)
         | Inr False \<Rightarrow> (Inr (), rb1)
         | Inr True \<Rightarrow> (Inr (), rb1\<lparr>rb_published := rb_published rb1 + 1, rb_size := (fm_w fm, fm_h fm),
             rb_log := rb_log rb1 @ [\<lparr>fo_ring = (case rb_ring rb1 of Some (g, _) \<Rightarrow> g | None \<Rightarrow> 0), fo_frame = fm, fo_flags = flags,
               fo_number = rb_frame_number rb1, fo_probe = rb_probe rb1\<rparr>]\<rparr>))"

definition publish_frame :: "draw_env \<Rightarrow> picture \<Rightarrow> int \<Rightarrow> readback \<Rightarrow> (py_error + unit) \<times> readback" where
  "publish_frame env fm flags rb = (case admit_frame env fm flags rb of
       (None, rb1) \<Rightarrow> (Inr (), rb1)
     | (Some flags1, rb1) \<Rightarrow>
         let rb2 = (if ring_fits rb1 fm then rb1 else regrow env (fm_w fm) (fm_h fm) rb1)
         in if ring_fits rb2 fm then send_frame env fm flags1 rb2 else (Inr (), rb2))"

subsection \<open>The draws\<close>

text \<open>A draw of the Cycles subclass: what it finds, and the centre's blackness and hash of any rectangle read.\<close>

record draw =
  dr_cam :: "rect option"
  dr_view :: rect
  dr_read :: "rect \<Rightarrow> bool \<times> string"

definition frame_of :: "draw \<Rightarrow> rect \<Rightarrow> picture" where
  "frame_of d r = (case r of (x, y, w, h) \<Rightarrow> \<lparr>fm_w = nat w, fm_h = nat h, fm_black = fst (dr_read d r), fm_hash = snd (dr_read d r)\<rparr>)"

definition backs_off :: "readback \<Rightarrow> bool" where
  "backs_off rb \<longleftrightarrow> \<not> rb_dirty rb \<and> BACKOFF_AFTER \<le> rb_unchanged rb \<and> rb_draw_i rb mod BACKOFF_EVERY \<noteq> 0"

definition count_draw :: "readback \<Rightarrow> readback" where
  "count_draw rb = rb\<lparr>rb_engine := ENGINE_ID, rb_draw_i := rb_draw_i rb + 1\<rparr>"

definition publish_from_framebuffer :: "draw_env \<Rightarrow> draw \<Rightarrow> readback \<Rightarrow> (py_error + unit) \<times> readback" where
  "publish_from_framebuffer env d rb =
     (if rb_ring rb = None then (Inr (), rb)
      else let rb1 = count_draw rb
           in if backs_off rb1 then (Inr (), rb1)
              else case read_plan (rb_shot rb1) (dr_cam d) (dr_view d) of
                     None \<Rightarrow> (Inr (), rb1)
                   | Some (r, flags) \<Rightarrow> publish_frame env (frame_of d r) flags (rb1\<lparr>rb_dirty := False\<rparr>))"

text \<open>\<open>except Exception\<close>: counted, and what was done before it stays.\<close>

definition caught :: "(py_error + unit) \<times> readback \<Rightarrow> readback" where
  "caught res = (case res of (Inr _, rb) \<Rightarrow> rb | (Inl _, rb) \<Rightarrow> ring_error rb)"

definition view_draw :: "draw_env \<Rightarrow> draw \<Rightarrow> readback \<Rightarrow> readback" where
  "view_draw env d rb = caught (publish_from_framebuffer env d rb)"

definition view_update :: "readback \<Rightarrow> readback" where
  "view_update rb = rb\<lparr>rb_dirty := True\<rparr>"

definition set_probe :: "real \<Rightarrow> int \<Rightarrow> readback \<Rightarrow> readback" where
  "set_probe t seq rb = rb\<lparr>rb_probe := Some (t, seq), rb_dirty := True\<rparr>"

subsection \<open>The built-in engines: an offscreen draw\<close>

text \<open>A POST_PIXEL draw: the engine, the region it is in, whether there is a camera, the camera frame's height over width.\<close>

record off_draw =
  od_engine :: string
  od_region :: "(nat \<times> nat) option"
  od_cam :: bool
  od_res_x :: real
  od_res_y :: real
  od_gpu :: bool
  od_read :: "nat \<Rightarrow> nat \<Rightarrow> bool \<times> string"

text \<open>\<open>od_res_x\<close> and \<open>od_res_y\<close> are the resolution times the pixel aspect.\<close>

definition frame_aspect :: "off_draw \<Rightarrow> real" where
  "frame_aspect od = od_res_y od / max (1 / 10 ^ 6) (od_res_x od)"

definition shot_size :: "nat \<Rightarrow> nat \<times> nat \<Rightarrow> real \<Rightarrow> int \<times> int" where
  "shot_size width region aspect = (case region of (rw, rh) \<Rightarrow>
     let w = even_down (int (min width rw)); h = even_down (py_round (of_int w * aspect))
     in if h > int rh
        then let h2 = even_down (int rh) in (even_down (py_round (of_int h2 / max (1 / 10 ^ 6) aspect)), h2)
        else (w, h))"

definition region_size :: "nat \<Rightarrow> nat \<times> nat \<Rightarrow> int \<times> int" where
  "region_size width region = (case region of (rw, rh) \<Rightarrow>
     let scl = min 1 (real width / real (max 1 rw))
     in (even_down \<lfloor>real rw * scl\<rfloor>, even_down \<lfloor>real rh * scl\<rfloor>))"

definition offscreen_size :: "nat \<Rightarrow> bool \<Rightarrow> off_draw \<Rightarrow> nat \<times> nat \<Rightarrow> int \<times> int" where
  "offscreen_size width shot od region =
     (if shot \<and> od_cam od then shot_size width region (frame_aspect od) else region_size width region)"

definition offscreen_draw :: "draw_env \<Rightarrow> off_draw \<Rightarrow> readback \<Rightarrow> readback" where
  "offscreen_draw env od rb =
     (if rb_ring rb = None \<or> od_engine od = ENGINE_ID \<or> de_now env - rb_off_last rb < OFFSCREEN_MIN_INTERVAL then rb
      else case od_region od of None \<Rightarrow> rb
        | Some (rw, rh) \<Rightarrow> if rw < 16 \<or> rh < 16 then rb
          else let rb1 = rb\<lparr>rb_engine := od_engine od\<rparr>;
                   flags = (if rb_shot rb \<and> od_cam od then F_OFFSCREEN_ENGINE OR F_CAMERA_RECT else F_OFFSCREEN_ENGINE)
               in case offscreen_size (rb_width rb) (rb_shot rb) od (rw, rh) of (w, h) \<Rightarrow>
                  if w < 16 \<or> h < 16 then rb1
                  else if \<not> od_gpu od then ring_error (rb1\<lparr>rb_off_size := (nat w, nat h)\<rparr>)
                  else let rb2 = rb1\<lparr>rb_off_size := (nat w, nat h), rb_off_last := de_now env\<rparr>;
                           (black, hash) = od_read od (nat w) (nat h)
                       in caught (publish_frame env \<lparr>fm_w = nat w, fm_h = nat h, fm_black = black, fm_hash = hash\<rparr> flags rb2))"

subsection \<open>Start and stop\<close>

definition readback_start :: "draw_env \<Rightarrow> bool \<Rightarrow> nat \<Rightarrow> scene_render list \<Rightarrow> readback
    \<Rightarrow> nat option \<times> scene_render list \<times> readback" where
  "readback_start env registers width scs rb =
     (let rb0 = rb\<lparr>rb_width := width\<rparr>
      in if rb_ring rb0 = None \<and> \<not> de_alloc env width then (None, scs, ring_error (rb0\<lparr>rb_gen := rb_gen rb0 + 1\<rparr>))
         else let rb1 = (if rb_ring rb0 = None then new_ring width rb0 else rb0);
                  rb2 = (if rb_registered rb1 then rb1
                         else if registers then rb1\<lparr>rb_registered := True\<rparr> else ring_error rb1);
                  scs' = map (\<lambda>sc. fst (adopt_scene sc rb2)) scs;
                  rb3 = fold (\<lambda>sc r. snd (adopt_scene sc r)) scs rb2
              in (map_option fst (rb_ring rb3), scs', rb3))"

definition readback_idle :: "readback \<Rightarrow> readback" where
  "readback_idle rb = rb\<lparr>rb_off_size := (0, 0), rb_seen := False, rb_last_hash := None\<rparr>"

definition readback_stop :: "scene_render list \<Rightarrow> readback \<Rightarrow> scene_render list \<times> readback" where
  "readback_stop scs rb = (unadopt_all scs, rb\<lparr>rb_off_size := (0, 0), rb_registered := False, rb_ring := None, rb_probe := None\<rparr>)"

lemma engine_roundtrip:
  assumes "\<forall>sc \<in> set scs. sr_engine sc \<noteq> ENGINE_ID"
  shows "map sr_engine (fst (readback_stop (fst (snd (readback_start env registers width scs rb))) rb')) = map sr_engine scs"
  using assms by (auto simp: readback_stop_def readback_start_def unadopt_all_def adopt_scene_def map_engine_def Let_def ENGINE_ID_def)

subsection \<open>Sizes\<close>

lemma even_down_le: "even_down n \<le> n" "even (even_down n)" "n - 1 \<le> even_down n"
  by (simp_all add: even_down_def)

lemma even_down_mono: "m \<le> n \<Longrightarrow> even_down m \<le> even_down n"
  by (simp add: even_down_def zdiv_mono1)

lemma even_down_of_even: "even n \<Longrightarrow> even_down n = n"
  by (simp add: even_down_def)

lemma shot_size_fits:
  "case shot_size width (rw, rh) a of (w, h) \<Rightarrow> even w \<and> even h \<and> w \<le> int (min width rw) \<and> h \<le> int rh"
proof -
  let ?w = "even_down (int (min width rw))"
  let ?h = "even_down (py_round (of_int ?w * a))"
  let ?h2 = "even_down (int rh)"
  let ?m = "max (1 / 10 ^ 6) a"
  have w0: "0 \<le> ?w" by (simp add: even_down_def)
  have "even_down (py_round (of_int ?h2 / ?m)) \<le> ?w" if tall: "?h > int rh"
  proof -
    have "?h2 + 2 \<le> ?h" using tall even_down_le [of "int rh"] even_down_le(2) [of "py_round (of_int ?w * a)"] by presburger
    then have "?h2 + 2 \<le> py_round (of_int ?w * a)" using even_down_le(1) order_trans by blast
    then have "of_int ?h2 + 2 \<le> (of_int (py_round (of_int ?w * a)) :: real)" by linarith
    then have "of_int ?h2 \<le> of_int ?w * a" using py_round_ge [of "of_int ?w * a"] by linarith
    also have "\<dots> \<le> of_int ?w * ?m" using w0 by (intro mult_left_mono) simp_all
    finally have "of_int ?h2 / ?m \<le> of_int ?w" by (simp add: pos_divide_le_eq less_max_iff_disj)
    then have "py_round (of_int ?h2 / ?m) \<le> ?w" by (rule py_round_le)
    then show ?thesis using even_down_le(1) order_trans by blast
  qed
  then show ?thesis
    using even_down_le(1) [of "int (min width rw)"] even_down_le(1) [of "int rh"]
    by (auto simp: shot_size_def Let_def even_down_le(2) intro: order_trans)
qed

lemma region_size_fits:
  "case region_size width (rw, rh) of (w, h) \<Rightarrow> even w \<and> even h \<and> w \<le> int (min width rw) \<and> h \<le> int rh"
proof -
  let ?s = "min 1 (real width / real (max 1 rw))"
  have s: "0 \<le> ?s" "?s \<le> 1" by simp_all
  have "real rw * ?s \<le> real rw * (real width / real (max 1 rw))" by (intro mult_left_mono) simp_all
  also have "\<dots> \<le> real width" by (cases "rw = 0") (simp_all add: max_def)
  finally have w: "real rw * ?s \<le> real width" .
  have n: "real n * ?s \<le> real n" for n using s by (simp only: mult_left_le of_nat_0_le_iff)
  have fl: "\<lfloor>r\<rfloor> \<le> int k" if "r \<le> real k" for r k using that by linarith
  have "real rw * ?s \<le> real (min width rw)" using w n [of rw] by (simp only: of_nat_min min_less_iff_conj min.bounded_iff)
  then have "\<lfloor>real rw * ?s\<rfloor> \<le> int (min width rw)" by (rule fl)
  moreover have "\<lfloor>real rh * ?s\<rfloor> \<le> int rh" by (rule fl) (rule n)
  ultimately show ?thesis
    using even_down_le(1) [of "\<lfloor>real rw * ?s\<rfloor>"] even_down_le(1) [of "\<lfloor>real rh * ?s\<rfloor>"]
    unfolding region_size_def Let_def prod.case by (intro conjI even_down_le(2)) linarith+
qed

lemma clamp_rect_inside:
  "case clamp_rect (x0, y0, w, h) (vx, vy, vw, vh) of None \<Rightarrow> True
   | Some (x, y, rw, rh) \<Rightarrow> even rw \<and> even rh \<and> 16 \<le> rw \<and> 16 \<le> rh \<and> vx \<le> x \<and> vy \<le> y \<and> x + rw \<le> vx + vw \<and> y + rh \<le> vy + vh
       \<and> vx + x0 \<le> x \<and> vy + y0 \<le> y \<and> x + rw \<le> vx + x0 + w \<and> y + rh \<le> vy + y0 + h"
proof -
  define X where "X = max x0 0"
  define Y where "Y = max y0 0"
  define W where "W = even_down (min (w - (X - x0)) (vw - X))"
  define H where "H = even_down (min (h - (Y - y0)) (vh - Y))"
  have xy: "0 \<le> X" "x0 \<le> X" "0 \<le> Y" "y0 \<le> Y" by (simp_all add: X_def Y_def)
  have wh: "W \<le> w - (X - x0)" "W \<le> vw - X" "H \<le> h - (Y - y0)" "H \<le> vh - Y"
    using even_down_le(1) [of "min (w - (X - x0)) (vw - X)"] even_down_le(1) [of "min (h - (Y - y0)) (vh - Y)"]
    unfolding W_def H_def by linarith+
  have "even W" "even H" by (simp_all add: W_def H_def even_down_le(2))
  moreover have "clamp_rect (x0, y0, w, h) (vx, vy, vw, vh) = (if W < 16 \<or> H < 16 then None else Some (vx + X, vy + Y, W, H))"
    by (simp add: clamp_rect_def Let_def X_def [symmetric] Y_def [symmetric] W_def [symmetric] H_def [symmetric])
  ultimately show ?thesis using xy wh by simp
qed

text \<open>C30: Whatever is read fits where it goes: the rectangle a Cycles draw reads lies inside the framebuffer's viewport, is
  of even size and at least 16 pixels each way, for any camera frame however far outside the view; and an offscreen
  picture is of even size, no larger than the region and no wider than the stream, whatever the camera's aspect.\<close>

theorem pictures_read_fit:
  "(case read_plan shot cam (vx, vy, vw, vh) of None \<Rightarrow> True
    | Some ((x, y, w, h), flags) \<Rightarrow> even w \<and> even h \<and> 16 \<le> w \<and> 16 \<le> h \<and> vx \<le> x \<and> vy \<le> y \<and> x + w \<le> vx + vw \<and> y + h \<le> vy + vh)
   \<and> (case offscreen_size width shot od (rw, rh) of (w, h) \<Rightarrow> even w \<and> even h \<and> w \<le> int (min width rw) \<and> h \<le> int rh)"
proof
  have whole: "even_down vw \<le> vw" "even_down vh \<le> vh" "even (even_down vw)" "even (even_down vh)" by (rule even_down_le)+
  show "case read_plan shot cam (vx, vy, vw, vh) of None \<Rightarrow> True
    | Some ((x, y, w, h), flags) \<Rightarrow> even w \<and> even h \<and> 16 \<le> w \<and> 16 \<le> h \<and> vx \<le> x \<and> vy \<le> y \<and> x + w \<le> vx + vw \<and> y + h \<le> vy + vh"
  proof (cases "if shot then (case cam of Some c \<Rightarrow> clamp_rect c (vx, vy, vw, vh) | None \<Rightarrow> None) else None")
    case None
    then show ?thesis using whole by (auto simp: read_plan_def Let_def split: if_splits option.splits prod.splits)
  next
    case (Some r)
    then obtain x0 y0 w h where c: "shot" "cam = Some (x0, y0, w, h)" "clamp_rect (x0, y0, w, h) (vx, vy, vw, vh) = Some r"
      by (auto split: if_splits option.splits)
    then show ?thesis using clamp_rect_inside [where ?x0.0 = x0 and ?y0.0 = y0 and w = w and h = h and vx = vx and vy = vy and vw = vw and vh = vh]
      by (auto simp: read_plan_def Let_def split: prod.splits)
  qed
  show "case offscreen_size width shot od (rw, rh) of (w, h) \<Rightarrow> even w \<and> even h \<and> w \<le> int (min width rw) \<and> h \<le> int rh"
    using shot_size_fits region_size_fits by (simp add: offscreen_size_def)
qed

text \<open>In shot mode a camera frame that is out of the view, or smaller than 16 pixels in it, is not read; the whole
  region is, and it is published as the camera rectangle.\<close>

theorem region_flagged_as_camera_rect:
  assumes "clamp_rect c (vx, vy, vw, vh) = None" "16 \<le> even_down vw" "16 \<le> even_down vh"
  shows "read_plan True (Some c) (vx, vy, vw, vh) = Some ((vx, vy, even_down vw, even_down vh), F_CAMERA_RECT)"
  using assms by (simp add: read_plan_def)

lemma region_flagged_as_camera_rect_witness:
  "read_plan True (Some (2000, 0, 640, 360)) (0, 0, 1920, 1081) = Some ((0, 0, 1920, 1080), F_CAMERA_RECT)"
  using region_flagged_as_camera_rect [of "(2000, 0, 640, 360)" 0 0 1920 1081]
  by (simp add: clamp_rect_def even_down_def)

subsection \<open>The stream follows the picture\<close>

lemma regrown_fits: "ly_fits (layout_for (regrow_width w h) None DEFAULT_SLOTS) w h 16"
proof -
  let ?W = "regrow_width w h"
  have "h * 4 \<le> 3 * (h * 4 div 3) + 2" by presburger
  moreover have "h * 4 div 3 + 2 \<le> ?W" by (simp add: regrow_width_def)
  ultimately have "h * 4 \<le> ?W * 3" by linarith
  then have "h \<le> ?W * 3 div 4" by (simp add: less_eq_div_iff_mult_less_eq)
  also have "\<dots> \<le> height_cap ?W" using round_up_ge [of 2 "?W * 3 div 4"] by (simp add: height_cap_def)
  finally have h: "h \<le> height_cap ?W" .
  have "bytes_per_row w 16 \<le> bytes_per_row ?W 16"
    unfolding bytes_per_row_def by (rule round_up_mono) (simp_all add: ROW_ALIGN_def regrow_width_def)
  then have "bytes_per_row w 16 * h \<le> bytes_per_row ?W 16 * height_cap ?W" using h by (rule mult_le_mono)
  also have "\<dots> \<le> capacity_for ?W (height_cap ?W) 16"
    using round_up_ge [of PAGE] by (simp add: capacity_for_def PAGE_def)
  finally show ?thesis by (simp add: ly_fits_def layout_for_def Let_def)
qed

definition regrow_ok :: "draw_env \<Rightarrow> bool" where
  "regrow_ok env \<longleftrightarrow> (\<forall>w. de_alloc env w) \<and> de_publish env = Inr True"

lemma regrow_fits: "regrow_ok env \<Longrightarrow> ring_fits (regrow env (fm_w fm) (fm_h fm) rb) fm"
  by (simp add: regrow_ok_def regrow_def Let_def ring_fits_def new_ring_def tell_restart_def regrown_fits)

text \<open>The hash remembered is that of the picture published last; before a first picture there is none.\<close>

definition in_step :: "readback \<Rightarrow> bool" where
  "in_step rb \<longleftrightarrow> (case rb_last_hash rb of None \<Rightarrow> True
     | Some h \<Rightarrow> rb_seen rb \<and> rb_log rb \<noteq> [] \<and> fm_hash (fo_frame (last (rb_log rb))) = h)"

text \<open>A draw shows a picture when what it would read is that picture.\<close>

definition displays :: "bool \<Rightarrow> picture \<Rightarrow> draw \<Rightarrow> bool" where
  "displays shot fm d \<longleftrightarrow> (case read_plan shot (dr_cam d) (dr_view d) of None \<Rightarrow> False | Some (r, flags) \<Rightarrow> frame_of d r = fm)"

definition holds_picture :: "picture \<Rightarrow> readback \<Rightarrow> bool" where
  "holds_picture fm rb \<longleftrightarrow> rb_last_hash rb = Some (fm_hash fm) \<and> rb_seen rb"

lemma regrow_fields [simp]:
  "rb_last_hash (regrow env w h rb) = rb_last_hash rb" "rb_log (regrow env w h rb) = rb_log rb" "rb_seen (regrow env w h rb) = rb_seen rb"
  "rb_shot (regrow env w h rb) = rb_shot rb" "rb_draw_i (regrow env w h rb) = rb_draw_i rb" "rb_unchanged (regrow env w h rb) = rb_unchanged rb"
  "rb_ring rb \<noteq> None \<Longrightarrow> rb_ring (regrow env w h rb) \<noteq> None"
  by (simp_all add: regrow_def Let_def ring_error_def tell_restart_def new_ring_def)

lemma admit_fields:
  "rb_shot (snd (admit_frame env fm flags rb)) = rb_shot rb" "rb_draw_i (snd (admit_frame env fm flags rb)) = rb_draw_i rb"
  "rb_ring (snd (admit_frame env fm flags rb)) = rb_ring rb" "rb_log (snd (admit_frame env fm flags rb)) = rb_log rb"
  by (simp_all add: admit_frame_def Let_def)

lemma publish_fields:
  "rb_shot (snd (publish_frame env fm flags rb)) = rb_shot rb" "rb_draw_i (snd (publish_frame env fm flags rb)) = rb_draw_i rb"
  "rb_ring rb \<noteq> None \<Longrightarrow> rb_ring (snd (publish_frame env fm flags rb)) \<noteq> None"
proof -
  obtain out rb1 where a: "admit_frame env fm flags rb = (out, rb1)" by fastforce
  have f: "rb_shot rb1 = rb_shot rb" "rb_draw_i rb1 = rb_draw_i rb" "rb_ring rb1 = rb_ring rb"
    using admit_fields [of env fm flags rb] a by simp_all
  show "rb_shot (snd (publish_frame env fm flags rb)) = rb_shot rb" "rb_draw_i (snd (publish_frame env fm flags rb)) = rb_draw_i rb"
    by (cases out; simp add: publish_frame_def a f send_frame_def Let_def split: sum.splits bool.splits)+
  show "rb_ring (snd (publish_frame env fm flags rb)) \<noteq> None" if "rb_ring rb \<noteq> None"
    using regrow_fields(7) [of rb1 env "fm_w fm" "fm_h fm"] that
    by (cases out) (simp_all add: publish_frame_def a f send_frame_def Let_def del: not_None_eq split: sum.splits bool.splits)
qed

lemma view_draw_eq: "view_draw env d rb = (if rb_ring rb = None then rb
    else if backs_off (count_draw rb) then count_draw rb
    else case read_plan (rb_shot rb) (dr_cam d) (dr_view d) of None \<Rightarrow> count_draw rb
      | Some (r, flags) \<Rightarrow> caught (publish_frame env (frame_of d r) flags ((count_draw rb)\<lparr>rb_dirty := False\<rparr>)))"
  by (simp add: view_draw_def publish_from_framebuffer_def caught_def Let_def count_draw_def split: option.splits)

lemma caught_fields [simp]:
  "rb_shot (caught res) = rb_shot (snd res)" "rb_ring (caught res) = rb_ring (snd res)" "rb_draw_i (caught res) = rb_draw_i (snd res)"
  "rb_log (caught res) = rb_log (snd res)" "rb_last_hash (caught res) = rb_last_hash (snd res)" "rb_seen (caught res) = rb_seen (snd res)"
  by (simp_all add: caught_def ring_error_def split: prod.splits sum.splits)

lemma count_draw_fields [simp]:
  "rb_shot (count_draw rb) = rb_shot rb" "rb_ring (count_draw rb) = rb_ring rb" "rb_draw_i (count_draw rb) = rb_draw_i rb + 1"
  "rb_log (count_draw rb) = rb_log rb" "rb_last_hash (count_draw rb) = rb_last_hash rb" "rb_seen (count_draw rb) = rb_seen rb"
  "rb_dirty (count_draw rb) = rb_dirty rb"
  by (simp_all add: count_draw_def)

lemma draw_fields:
  "rb_shot (view_draw env d rb) = rb_shot rb"
  "rb_ring rb \<noteq> None \<Longrightarrow> rb_ring (view_draw env d rb) \<noteq> None"
  "rb_ring rb \<noteq> None \<Longrightarrow> rb_draw_i (view_draw env d rb) = rb_draw_i rb + 1"
  by (simp_all add: view_draw_eq publish_fields del: not_None_eq split: option.splits)

lemma publish_sends:
  assumes "regrow_ok env" "admit_frame env fm flags rb = (Some flags1, rb1)"
  shows "rb_last_hash (snd (publish_frame env fm flags rb)) = rb_last_hash rb1"
    "rb_seen (snd (publish_frame env fm flags rb)) = rb_seen rb1"
    "\<exists>fo. rb_log (snd (publish_frame env fm flags rb)) = rb_log rb1 @ [fo] \<and> fo_frame fo = fm"
proof -
  define rb2 where "rb2 = (if ring_fits rb1 fm then rb1 else regrow env (fm_w fm) (fm_h fm) rb1)"
  have "ring_fits rb2 fm" using regrow_fits [OF assms(1)] by (simp add: rb2_def)
  then have p: "publish_frame env fm flags rb = send_frame env fm flags1 rb2"
    by (simp add: publish_frame_def assms(2) rb2_def [symmetric] Let_def)
  have "rb_last_hash rb2 = rb_last_hash rb1" "rb_seen rb2 = rb_seen rb1" "rb_log rb2 = rb_log rb1" by (simp_all add: rb2_def)
  then show "rb_last_hash (snd (publish_frame env fm flags rb)) = rb_last_hash rb1"
    "rb_seen (snd (publish_frame env fm flags rb)) = rb_seen rb1"
    "\<exists>fo. rb_log (snd (publish_frame env fm flags rb)) = rb_log rb1 @ [fo] \<and> fo_frame fo = fm"
    using assms(1) unfolding p by (simp_all add: send_frame_def regrow_ok_def Let_def)
qed

lemma publish_in_step:
  assumes "regrow_ok env" "in_step rb"
  shows "in_step (snd (publish_frame env fm flags rb))"
    and "\<not> fm_black fm \<or> rb_seen rb \<Longrightarrow> holds_picture fm (snd (publish_frame env fm flags rb))"
proof -
  obtain out rb1 where a: "admit_frame env fm flags rb = (out, rb1)" by fastforce
  have early: "publish_frame env fm flags rb = (Inr (), rb1)" if "out = None" using that by (simp add: publish_frame_def a)
  have none: "rb_last_hash rb = None" if "\<not> rb_seen rb" using assms(2) that by (auto simp: in_step_def split: option.splits)
  show "in_step (snd (publish_frame env fm flags rb))"
  proof (cases out)
    case None
    then show ?thesis using assms(2) none a early [OF None]
      by (auto simp: admit_frame_def Let_def in_step_def split: if_splits)
  next
    case (Some flags1)
    note s = publish_sends [OF assms(1) a [unfolded Some]]
    then show ?thesis using a none Some by (auto simp: admit_frame_def Let_def in_step_def split: if_splits)
  qed
  assume seen: "\<not> fm_black fm \<or> rb_seen rb"
  show "holds_picture fm (snd (publish_frame env fm flags rb))"
  proof (cases out)
    case None
    then show ?thesis using seen a early [OF None]
      by (auto simp: admit_frame_def Let_def holds_picture_def split: if_splits)
  next
    case (Some flags1)
    note s = publish_sends [OF assms(1) a [unfolded Some]]
    then show ?thesis using seen a Some by (auto simp: admit_frame_def Let_def holds_picture_def split: if_splits)
  qed
qed

lemma in_step_cong:
  "rb_last_hash a = rb_last_hash b \<Longrightarrow> rb_seen a = rb_seen b \<Longrightarrow> rb_log a = rb_log b \<Longrightarrow> in_step a = in_step b"
  by (auto simp: in_step_def split: option.splits)

lemma in_step_simps [simp]:
  "in_step (count_draw rb) = in_step rb" "in_step (rb\<lparr>rb_dirty := b\<rparr>) = in_step rb" "in_step (caught res) = in_step (snd res)"
  by (rule in_step_cong; simp)+

lemma draw_in_step:
  assumes "regrow_ok env" "in_step rb"
  shows "in_step (view_draw env d rb)"
proof -
  have "in_step ((count_draw rb)\<lparr>rb_dirty := False\<rparr>)" using assms(2) by simp
  note publish_in_step(1) [OF assms(1) this]
  then show ?thesis using assms(2) by (simp add: view_draw_eq split: option.splits prod.splits)
qed

lemma draw_shows:
  assumes "regrow_ok env" "in_step rb" "rb_ring rb \<noteq> None" "displays (rb_shot rb) fm d" "\<not> fm_black fm"
  shows "\<not> backs_off (count_draw rb) \<Longrightarrow> holds_picture fm (view_draw env d rb)"
    and "holds_picture fm rb \<Longrightarrow> holds_picture fm (view_draw env d rb)"
proof -
  let ?rb1 = "(count_draw rb)\<lparr>rb_dirty := False\<rparr>"
  obtain r flags where p: "read_plan (rb_shot rb) (dr_cam d) (dr_view d) = Some (r, flags)" "frame_of d r = fm"
    using assms(4) by (auto simp: displays_def split: option.splits)
  have "in_step ?rb1" using assms(2) by simp
  then have h: "holds_picture fm (snd (publish_frame env fm flags ?rb1))" using publish_in_step(2) [OF assms(1)] assms(5) by blast
  then show now: "holds_picture fm (view_draw env d rb)" if "\<not> backs_off (count_draw rb)"
    using that assms(3) by (simp add: view_draw_eq p holds_picture_def del: not_None_eq)
  show "holds_picture fm (view_draw env d rb)" if "holds_picture fm rb"
    using that now assms(3) by (cases "backs_off (count_draw rb)") (simp_all add: view_draw_eq holds_picture_def del: not_None_eq)
qed

definition draws :: "(draw_env \<times> draw) list \<Rightarrow> readback \<Rightarrow> readback" where
  "draws = fold (\<lambda>(env, d). view_draw env d)"

lemma draws_hold:
  assumes "in_step rb" "rb_ring rb \<noteq> None" "\<not> fm_black fm" "\<forall>(env, d) \<in> set ds. regrow_ok env \<and> displays (rb_shot rb) fm d"
    and "holds_picture fm rb \<or> BACKOFF_EVERY \<le> rb_draw_i rb mod BACKOFF_EVERY + length ds"
  shows "in_step (draws ds rb) \<and> holds_picture fm (draws ds rb)"
  using assms
proof (induction ds arbitrary: rb)
  case Nil
  have "rb_draw_i rb mod BACKOFF_EVERY < BACKOFF_EVERY" by (simp add: BACKOFF_EVERY_def)
  then have "holds_picture fm rb" using Nil.prems(5) by auto
  then show ?case using Nil.prems(1) by (simp add: draws_def)
next
  case (Cons p ds)
  obtain env d where p: "p = (env, d)" by fastforce
  have e: "regrow_ok env" "displays (rb_shot rb) fm d" using Cons.prems(4) by (simp_all add: p)
  note f = draw_fields [where env = env and d = d and rb = rb] and s = draw_shows [OF e(1) Cons.prems(1,2) e(2) Cons.prems(3)]
  have "holds_picture fm (view_draw env d rb) \<or> BACKOFF_EVERY \<le> rb_draw_i (view_draw env d rb) mod BACKOFF_EVERY + length ds"
  proof (cases "holds_picture fm rb \<or> \<not> backs_off (count_draw rb)")
    case True
    then show ?thesis using s by blast
  next
    case False
    then have "BACKOFF_EVERY \<le> rb_draw_i rb mod BACKOFF_EVERY + length (p # ds)" using Cons.prems(5) by simp
    moreover have "(rb_draw_i rb + 1) mod BACKOFF_EVERY \<noteq> 0" using False by (auto simp: backs_off_def)
    ultimately show ?thesis using f(3) Cons.prems(2) by (simp add: BACKOFF_EVERY_def mod_Suc split: if_splits)
  qed
  then have "in_step (draws ds (view_draw env d rb)) \<and> holds_picture fm (draws ds (view_draw env d rb))"
    using Cons.IH [OF draw_in_step [OF e(1) Cons.prems(1)] f(2) [OF Cons.prems(2)] Cons.prems(3)] Cons.prems(4) f(1) by simp
  then show ?case by (simp add: draws_def p)
qed


definition demo_ring :: layout where
  "demo_ring = \<lparr>ly_slot_count = 3, ly_pixels_capacity = 4096 * 16, ly_slot_stride = 4096 * 17\<rparr>"

definition demo_readback :: readback where
  "demo_readback = \<lparr>rb_ring = Some (1, demo_ring), rb_gen = 1, rb_width = 64, rb_shot = False, rb_registered = True, rb_dirty = True,
     rb_unchanged = 0, rb_draw_i = 0, rb_last_hash = None, rb_seen = True, rb_probe = None, rb_frame_number = 0, rb_off_size = (0, 0),
     rb_off_last = 0, rb_warmup_last = 0, rb_black_frames = 0, rb_warmups = 0, rb_published = 0, rb_skipped = 0, rb_errors = 0,
     rb_engine = [], rb_size = (0, 0), rb_log = [], rb_restarts = []\<rparr>"

definition demo_picture :: picture where
  "demo_picture = \<lparr>fm_w = 64, fm_h = 512, fm_black = False, fm_hash = ''h''\<rparr>"

definition demo_draw :: draw where
  "demo_draw = \<lparr>dr_cam = None, dr_view = (0, 0, 64, 512), dr_read = (\<lambda>r. (False, ''h''))\<rparr>"

lemma demo_displays: "displays False demo_picture demo_draw"
  by (simp add: displays_def demo_draw_def read_plan_def even_down_def frame_of_def demo_picture_def)

definition demo_draw_env :: "bool \<Rightarrow> draw_env" where
  "demo_draw_env room = \<lparr>de_now = 10, de_alloc = (\<lambda>w. room), de_publish = Inr True\<rparr>"


lemma held_picture_skipped:
  assumes "rb_ring rb \<noteq> None" "holds_picture fm rb" "displays (rb_shot rb) fm d"
  shows "holds_picture fm (view_draw env d rb) \<and> rb_log (view_draw env d rb) = rb_log rb \<and> rb_errors (view_draw env d rb) = rb_errors rb"
proof -
  obtain r flags where p: "read_plan (rb_shot rb) (dr_cam d) (dr_view d) = Some (r, flags)" "frame_of d r = fm"
    using assms(3) by (auto simp: displays_def split: option.splits)
  show ?thesis
    using assms(1,2)
    by (simp add: view_draw_eq p publish_frame_def admit_frame_def holds_picture_def Let_def caught_def count_draw_def del: not_None_eq)
qed

lemma held_picture_stays:
  assumes "rb_ring rb \<noteq> None" "holds_picture fm rb" "\<forall>(env, d) \<in> set ds. displays (rb_shot rb) fm d"
  shows "rb_log (draws ds rb) = rb_log rb \<and> rb_errors (draws ds rb) = rb_errors rb"
  using assms
proof (induction ds arbitrary: rb)
  case (Cons p ds)
  obtain env d where p: "p = (env, d)" by fastforce
  have "displays (rb_shot rb) fm d" using Cons.prems(3) by (simp add: p)
  note h = held_picture_skipped [OF Cons.prems(1,2) this, of env] and f = draw_fields [where env = env and d = d and rb = rb]
  have "rb_log (draws ds (view_draw env d rb)) = rb_log (view_draw env d rb) \<and> rb_errors (draws ds (view_draw env d rb)) = rb_errors (view_draw env d rb)"
    by (rule Cons.IH) (use h f Cons.prems in \<open>simp_all del: not_None_eq\<close>)
  then show ?case using h by (simp add: draws_def p)
qed (simp add: draws_def)

text \<open>C36: A picture that could not be published once is never published: its hash is remembered before the ring is grown, so
  when no memory could be had for the larger ring the error is counted once, and every later draw of that same picture is
  taken for unchanged and left out, whatever memory there is by then. The viewer keeps the picture before it.\<close>

theorem dropped_picture_never_retried:
  assumes "rb_ring rb \<noteq> None" "rb_seen rb" "rb_dirty rb" "rb_last_hash rb \<noteq> Some (fm_hash fm)" "\<not> ring_fits rb fm"
    and "\<not> de_alloc env (max (rb_width rb) (fm_w fm))" "\<forall>(e, d') \<in> set ((env, d) # ds). displays (rb_shot rb) fm d'"
  shows "rb_log (draws ((env, d) # ds) rb) = rb_log rb \<and> rb_errors (draws ((env, d) # ds) rb) = rb_errors rb + 1"
proof -
  obtain r flags where p: "read_plan (rb_shot rb) (dr_cam d) (dr_view d) = Some (r, flags)" "frame_of d r = fm"
    using assms(7) by (auto simp: displays_def split: option.splits)
  have nf: "\<not> ring_fits r' fm" if "rb_ring r' = rb_ring rb" for r' using assms(5) that by (simp add: ring_fits_def)
  have first: "holds_picture fm (view_draw env d rb) \<and> rb_log (view_draw env d rb) = rb_log rb \<and> rb_errors (view_draw env d rb) = rb_errors rb + 1"
    using assms(1-4,6) nf
    by (simp add: view_draw_eq p publish_frame_def admit_frame_def holds_picture_def Let_def caught_def count_draw_def backs_off_def
        regrow_def ring_error_def del: not_None_eq)
  have "rb_log (draws ds (view_draw env d rb)) = rb_log (view_draw env d rb) \<and> rb_errors (draws ds (view_draw env d rb)) = rb_errors (view_draw env d rb)"
    by (rule held_picture_stays [where fm = fm])
      (use first assms(1,7) draw_fields [where env = env and d = d and rb = rb] in \<open>simp_all del: not_None_eq\<close>)
  then show ?thesis using first by (simp add: draws_def)
qed

lemma dropped_picture_never_retried_witness:
  "rb_log (draws ((demo_draw_env False, demo_draw) # replicate 9 (demo_draw_env True, demo_draw)) demo_readback) = []
    \<and> rb_errors (draws ((demo_draw_env False, demo_draw) # replicate 9 (demo_draw_env True, demo_draw)) demo_readback) = 1"
proof -
  have "\<not> ring_fits demo_readback demo_picture"
    by (simp add: ring_fits_def demo_readback_def demo_picture_def demo_ring_def ly_fits_def bytes_per_row_def round_up_def ROW_ALIGN_def)
  then show ?thesis
    using dropped_picture_never_retried [of demo_readback demo_picture "demo_draw_env False" demo_draw "replicate 9 (demo_draw_env True, demo_draw)"]
      demo_displays by (simp add: demo_readback_def demo_picture_def demo_draw_env_def)
qed

end
