(* ===== verification/Kiosk.thy ===== *)
theory Kiosk
  imports Prelude
begin

text \<open>
  \<open>ring0/kiosk.py\<close>: the state machine that reduces the replica's window to the viewport. Its steps are queued with a
  due time and run by the apply loop's tick. The first 3D view found, its window and screen are the record \<open>kiosk_ui\<close>;
  what Blender's operators do to it, which may be to raise, is the environment.
\<close>

record kiosk_ui =
  ku_view :: bool
  ku_os_full :: bool
  ku_area_full :: bool
  ku_header :: bool
  ku_gizmo :: bool
  ku_panels :: bool
  ku_toolbar :: bool
  ku_overlays :: bool
  ku_shading :: string

record kiosk_env =
  ke_toggle :: "kiosk_ui \<Rightarrow> py_error + kiosk_ui"
  ke_full_area :: "kiosk_ui \<Rightarrow> py_error + kiosk_ui"
  ke_back :: "kiosk_ui \<Rightarrow> py_error + kiosk_ui"

datatype kiosk_step = Os_Fullscreen | Area_Fullscreen | Strip_Chrome | Verify

record kiosk =
  ki_want :: bool
  ki_fullscreen :: bool
  ki_os_done :: bool
  ki_steps :: "(time \<times> kiosk_step) list"
  ki_retries :: nat

definition FIRST_DELAYS :: "time list" where "FIRST_DELAYS = [3, 9 / 2, 6, 17 / 2]"
definition REASSERT_DELAYS :: "time list" where "REASSERT_DELAYS = [1 / 2, 2, 27 / 10, 5]"
definition STEP_ORDER :: "kiosk_step list" where "STEP_ORDER = [Os_Fullscreen, Area_Fullscreen, Strip_Chrome, Verify]"
definition MAX_RETRIES :: nat where "MAX_RETRIES = 3"

definition kiosk_module :: kiosk where
  "kiosk_module = \<lparr>ki_want = False, ki_fullscreen = False, ki_os_done = False, ki_steps = [], ki_retries = 0\<rparr>"

subsection \<open>Operations\<close>

definition set_fullscreen :: "bool \<Rightarrow> kiosk \<Rightarrow> kiosk" where
  "set_fullscreen on k = k\<lparr>ki_fullscreen := on\<rparr>"

definition prepare_viewport :: "kiosk_ui \<Rightarrow> kiosk_ui" where
  "prepare_viewport ui = (if ku_view ui then ui\<lparr>ku_shading := ''RENDERED'', ku_overlays := False\<rparr> else ui)"

definition queue_steps :: "time \<Rightarrow> time list \<Rightarrow> kiosk \<Rightarrow> kiosk" where
  "queue_steps now delays k = k\<lparr>ki_steps := zip (map (\<lambda>d. now + d) delays) STEP_ORDER\<rparr>"

definition kiosk_enter :: "bool \<Rightarrow> time \<Rightarrow> kiosk \<times> kiosk_ui \<Rightarrow> kiosk \<times> kiosk_ui" where
  "kiosk_enter first now st = (case st of (k, ui) \<Rightarrow>
     (queue_steps now (if first then FIRST_DELAYS else REASSERT_DELAYS) (k\<lparr>ki_want := True, ki_retries := 0\<rparr>), prepare_viewport ui))"

definition kiosk_reassert :: "time \<Rightarrow> kiosk \<Rightarrow> kiosk" where
  "kiosk_reassert now k = (if ki_want k then queue_steps now REASSERT_DELAYS (k\<lparr>ki_retries := 0\<rparr>) else k)"

definition kiosk_cancel :: "kiosk \<Rightarrow> kiosk" where
  "kiosk_cancel k = k\<lparr>ki_want := False, ki_steps := []\<rparr>"

definition kiosk_active :: "kiosk \<Rightarrow> bool" where
  "kiosk_active k = ki_want k"

text \<open>One step. An operator that raises leaves the flag of the OS window as it was.\<close>

definition strip_chrome :: "kiosk_ui \<Rightarrow> kiosk_ui" where
  "strip_chrome ui = (let ui1 = prepare_viewport ui
     in if ku_view ui1 then ui1\<lparr>ku_header := False, ku_gizmo := False, ku_panels := False, ku_toolbar := False\<rparr> else ui1)"

definition settled :: "kiosk_ui \<Rightarrow> bool" where
  "settled ui \<longleftrightarrow> ku_area_full ui \<and> \<not> ku_header ui"

definition verify_step :: "time \<Rightarrow> kiosk_ui \<Rightarrow> kiosk \<Rightarrow> kiosk" where
  "verify_step now ui k = (if \<not> settled ui \<and> ki_retries k < MAX_RETRIES
     then queue_steps now REASSERT_DELAYS (k\<lparr>ki_retries := ki_retries k + 1\<rparr>) else k)"

definition run_step :: "kiosk_env \<Rightarrow> time \<Rightarrow> kiosk_step \<Rightarrow> kiosk \<times> kiosk_ui \<Rightarrow> (py_error + unit) \<times> kiosk \<times> kiosk_ui" where
  "run_step env now s st = (case st of (k, ui) \<Rightarrow>
     if \<not> ku_view ui then (Inr (), k, ui)
     else case s of
         Os_Fullscreen \<Rightarrow> if \<not> ki_os_done k \<and> ki_fullscreen k
           then (case ke_toggle env ui of Inl err \<Rightarrow> (Inl err, k, ui) | Inr ui1 \<Rightarrow> (Inr (), k\<lparr>ki_os_done := True\<rparr>, ui1))
           else (Inr (), k, ui)
       | Area_Fullscreen \<Rightarrow> if \<not> ku_area_full ui
           then (case ke_full_area env ui of Inl err \<Rightarrow> (Inl err, k, ui) | Inr ui1 \<Rightarrow> (Inr (), k, ui1))
           else (Inr (), k, ui)
       | Strip_Chrome \<Rightarrow> (Inr (), k, strip_chrome ui)
       | Verify \<Rightarrow> (Inr (), verify_step now ui k, ui))"

fun run_steps :: "kiosk_env \<Rightarrow> time \<Rightarrow> kiosk_step list \<Rightarrow> kiosk \<times> kiosk_ui \<Rightarrow> (py_error + unit) \<times> kiosk \<times> kiosk_ui" where
  "run_steps env now [] st = (Inr (), st)"
| "run_steps env now (s # ss) st = (case run_step env now s st of
      (Inl err, st1) \<Rightarrow> (Inl err, st1) | (Inr _, st1) \<Rightarrow> run_steps env now ss st1)"

definition enter_now :: "kiosk_env \<Rightarrow> time \<Rightarrow> kiosk \<times> kiosk_ui \<Rightarrow> (py_error + unit) \<times> kiosk \<times> kiosk_ui" where
  "enter_now env now st = (case st of (k, ui) \<Rightarrow>
     run_steps env now STEP_ORDER (k\<lparr>ki_want := True, ki_steps := []\<rparr>, prepare_viewport ui))"

definition show_chrome :: "kiosk_ui \<Rightarrow> kiosk_ui" where
  "show_chrome ui = (if ku_view ui
     then ui\<lparr>ku_header := True, ku_gizmo := True, ku_panels := True, ku_toolbar := True, ku_overlays := True\<rparr> else ui)"

definition leave_os_fullscreen :: "kiosk_env \<Rightarrow> kiosk \<times> kiosk_ui \<Rightarrow> (py_error + unit) \<times> kiosk \<times> kiosk_ui" where
  "leave_os_fullscreen env st = (case st of (k, ui) \<Rightarrow>
     if ki_os_done k \<and> ku_view ui
     then (case ke_toggle env ui of Inl err \<Rightarrow> (Inl err, k, ui) | Inr ui1 \<Rightarrow> (Inr (), k\<lparr>ki_os_done := False\<rparr>, ui1))
     else (Inr (), k, ui))"

definition exit_now :: "kiosk_env \<Rightarrow> kiosk \<times> kiosk_ui \<Rightarrow> (py_error + unit) \<times> kiosk \<times> kiosk_ui" where
  "exit_now env st = (case st of (k, ui) \<Rightarrow>
     let k1 = k\<lparr>ki_want := False, ki_steps := []\<rparr>
     in case (if ku_view ui \<and> ku_area_full ui then ke_back env ui else Inr ui) of
          Inl err \<Rightarrow> (Inl err, k1, ui)
        | Inr ui1 \<Rightarrow> leave_os_fullscreen env (k1, show_chrome ui1))"

definition kiosk_service :: "kiosk_env \<Rightarrow> time \<Rightarrow> kiosk \<times> kiosk_ui \<Rightarrow> (py_error + unit) \<times> kiosk \<times> kiosk_ui" where
  "kiosk_service env now st = (case st of (k, ui) \<Rightarrow>
     if \<not> ki_want k then (Inr (), k, ui)
     else case ki_steps k of [] \<Rightarrow> (Inr (), k, ui)
       | (due, s) # rest \<Rightarrow> if now < due then (Inr (), k, ui) else run_step env now s (k\<lparr>ki_steps := rest\<rparr>, ui))"

subsection \<open>The OS window\<close>

text \<open>What happens to the kiosk: its operations, each with Blender's behaviour then, and whatever else changes the screen.\<close>

datatype kiosk_op = KSet_Fullscreen bool | KEnter bool time | KReassert time | KCancel | KEnter_Now kiosk_env time
  | KExit_Now kiosk_env | KService kiosk_env time | KBlender "kiosk_ui \<Rightarrow> kiosk_ui"

definition kiosk_do :: "kiosk_op \<Rightarrow> kiosk \<times> kiosk_ui \<Rightarrow> kiosk \<times> kiosk_ui" where
  "kiosk_do op st = (case op of
       KSet_Fullscreen on \<Rightarrow> (set_fullscreen on (fst st), snd st)
     | KEnter first now \<Rightarrow> kiosk_enter first now st
     | KReassert now \<Rightarrow> (kiosk_reassert now (fst st), snd st)
     | KCancel \<Rightarrow> (kiosk_cancel (fst st), snd st)
     | KEnter_Now env now \<Rightarrow> snd (enter_now env now st)
     | KExit_Now env \<Rightarrow> snd (exit_now env st)
     | KService env now \<Rightarrow> snd (kiosk_service env now st)
     | KBlender f \<Rightarrow> (fst st, f (snd st)))"

text \<open>The toggle toggles the OS window, nothing else touches it, and an operator that raises has done nothing.\<close>

definition os_faithful :: "kiosk_env \<Rightarrow> bool" where
  "os_faithful env \<longleftrightarrow> (\<forall>ui ui1. (ke_toggle env ui = Inr ui1 \<longrightarrow> ku_os_full ui1 = (\<not> ku_os_full ui))
     \<and> (ke_full_area env ui = Inr ui1 \<longrightarrow> ku_os_full ui1 = ku_os_full ui)
     \<and> (ke_back env ui = Inr ui1 \<longrightarrow> ku_os_full ui1 = ku_os_full ui))"

definition os_op :: "kiosk_op \<Rightarrow> bool" where
  "os_op op \<longleftrightarrow> (case op of KEnter_Now env _ \<Rightarrow> os_faithful env | KExit_Now env \<Rightarrow> os_faithful env
     | KService env _ \<Rightarrow> os_faithful env | KBlender f \<Rightarrow> \<forall>ui. ku_os_full (f ui) = ku_os_full ui | _ \<Rightarrow> True)"

definition os_known :: "kiosk \<times> kiosk_ui \<Rightarrow> bool" where
  "os_known st \<longleftrightarrow> ki_os_done (fst st) = ku_os_full (snd st)"

lemma ui_os [simp]: "ku_os_full (prepare_viewport ui) = ku_os_full ui" "ku_os_full (strip_chrome ui) = ku_os_full ui"
  "ku_os_full (show_chrome ui) = ku_os_full ui"
  by (simp_all add: prepare_viewport_def strip_chrome_def show_chrome_def Let_def)

lemma queue_fields [simp]: "ki_os_done (queue_steps now ds k) = ki_os_done k" "ki_retries (queue_steps now ds k) = ki_retries k"
  "ki_want (queue_steps now ds k) = ki_want k" "ki_fullscreen (queue_steps now ds k) = ki_fullscreen k"
  by (simp_all add: queue_steps_def)

lemma verify_fields [simp]: "ki_os_done (verify_step now ui k) = ki_os_done k" "ki_want (verify_step now ui k) = ki_want k"
  "ki_fullscreen (verify_step now ui k) = ki_fullscreen k"
  by (simp_all add: verify_step_def)

lemma run_step_os: "os_faithful env \<Longrightarrow> os_known st \<Longrightarrow> os_known (snd (run_step env now s st))"
  by (cases st; cases s) (auto simp: run_step_def os_known_def os_faithful_def split: sum.splits)

lemma run_steps_os: "os_faithful env \<Longrightarrow> os_known st \<Longrightarrow> os_known (snd (run_steps env now ss st))"
proof (induction ss arbitrary: st)
  case (Cons s ss)
  have "os_known (snd (run_step env now s st))" using Cons.prems by (rule run_step_os)
  then show ?case using Cons by (cases "run_step env now s st") (auto split: sum.splits)
qed simp

lemma leave_os: "os_faithful env \<Longrightarrow> os_known st \<Longrightarrow> os_known (snd (leave_os_fullscreen env st))"
  by (cases st) (auto simp: leave_os_fullscreen_def os_known_def os_faithful_def split: sum.splits)

lemma kiosk_do_os:
  assumes "os_op op" "os_known st"
  shows "os_known (kiosk_do op st)"
proof (cases op)
  case (KEnter_Now env now)
  obtain k ui where st: "st = (k, ui)" by (cases st)
  have "os_known (k\<lparr>ki_want := True, ki_steps := []\<rparr>, prepare_viewport ui)" using assms(2) by (simp add: st os_known_def)
  then show ?thesis using assms(1) by (simp add: kiosk_do_def enter_now_def os_op_def run_steps_os KEnter_Now st)
next
  case (KExit_Now env)
  have f: "os_faithful env" using assms(1) by (simp add: KExit_Now os_op_def)
  obtain k ui where st: "st = (k, ui)" by (cases st)
  show ?thesis
  proof (cases "if ku_view ui \<and> ku_area_full ui then ke_back env ui else Inr ui")
    case (Inl err)
    then show ?thesis using assms(2) by (simp add: kiosk_do_def KExit_Now exit_now_def st Let_def os_known_def)
  next
    case (Inr ui1)
    have "ku_os_full ui1 = ku_os_full ui" using f Inr by (auto simp: os_faithful_def split: if_splits)
    then show ?thesis
      using leave_os [OF f, of "(k\<lparr>ki_want := False, ki_steps := []\<rparr>, show_chrome ui1)"] assms(2)
      by (simp add: kiosk_do_def KExit_Now exit_now_def st Inr os_known_def)
  qed
next
  case (KService env now)
  then show ?thesis using assms
    by (cases st) (auto simp: kiosk_do_def kiosk_service_def os_op_def os_known_def split: list.splits prod.splits
        intro!: run_step_os [unfolded os_known_def])
qed (use assms in \<open>auto simp: kiosk_do_def os_op_def os_known_def set_fullscreen_def kiosk_enter_def kiosk_reassert_def
    kiosk_cancel_def split: prod.splits\<close>)

text \<open>The OS window is never toggled twice: from the module's start in a windowed Blender, whatever the kiosk is asked to
  do in whatever order, with operators that fail, screens that are rebuilt and sessions that start and stop, the module's
  flag says whether the window is fullscreen, so a step toggles it only from windowed to fullscreen and leaving only back.\<close>

theorem os_flag_is_the_window:
  assumes "list_all os_op ops" "\<not> ku_os_full ui"
  shows "os_known (fold kiosk_do ops (kiosk_module, ui))"
proof -
  have "os_known (fold kiosk_do ops st)" if "list_all os_op ops" "os_known st" for st
    using that by (induction ops arbitrary: st) (simp_all add: kiosk_do_os)
  then show ?thesis using assms by (simp add: os_known_def kiosk_module_def)
qed


definition demo_ui :: kiosk_ui where
  "demo_ui = \<lparr>ku_view = True, ku_os_full = False, ku_area_full = False, ku_header = True, ku_gizmo = True, ku_panels = True,
     ku_toolbar = True, ku_overlays = True, ku_shading = ''SOLID''\<rparr>"

definition demo_kiosk_env :: kiosk_env where
  "demo_kiosk_env = \<lparr>ke_toggle = (\<lambda>ui. Inr (ui\<lparr>ku_os_full := \<not> ku_os_full ui\<rparr>)), ke_full_area = (\<lambda>ui. Inr (ui\<lparr>ku_area_full := True\<rparr>)),
     ke_back = (\<lambda>ui. Inr (ui\<lparr>ku_area_full := False\<rparr>))\<rparr>"

lemma os_flag_is_the_window_witness:
  "os_known (fold kiosk_do [KSet_Fullscreen True, KEnter True 0, KService demo_kiosk_env 4, KCancel, KEnter True 9,
     KBlender (\<lambda>ui. ui\<lparr>ku_area_full := False\<rparr>), KService demo_kiosk_env 13, KExit_Now demo_kiosk_env] (kiosk_module, demo_ui))"
  by (rule os_flag_is_the_window) (auto simp: os_op_def os_faithful_def demo_kiosk_env_def demo_ui_def)

subsection \<open>The steps end\<close>

text \<open>The apply loop's ticks, each followed by what Blender makes of the screen.\<close>

definition serve :: "kiosk_env \<times> time \<times> (kiosk_ui \<Rightarrow> kiosk_ui) \<Rightarrow> kiosk \<times> kiosk_ui \<Rightarrow> kiosk \<times> kiosk_ui" where
  "serve tick st = (case tick of (env, now, f) \<Rightarrow> kiosk_do (KBlender f) (kiosk_do (KService env now) st))"

fun spaced :: "time \<Rightarrow> (kiosk_env \<times> time \<times> (kiosk_ui \<Rightarrow> kiosk_ui)) list \<Rightarrow> bool" where
  "spaced t [] \<longleftrightarrow> True"
| "spaced t ((env, now, f) # es) \<longleftrightarrow> t + 17 / 2 \<le> now \<and> spaced now es"

definition kiosk_budget :: "kiosk \<Rightarrow> nat" where
  "kiosk_budget k = length (ki_steps k) + 4 * (MAX_RETRIES - ki_retries k)"

definition due_by :: "time \<Rightarrow> kiosk \<Rightarrow> bool" where
  "due_by t k \<longleftrightarrow> (\<forall>(due, s) \<in> set (ki_steps k). due \<le> t + 17 / 2)"

lemma due_by_queue:
  assumes "ds = FIRST_DELAYS \<or> ds = REASSERT_DELAYS"
  shows "due_by now (queue_steps now ds k)"
  using assms by (auto simp: due_by_def queue_steps_def STEP_ORDER_def FIRST_DELAYS_def REASSERT_DELAYS_def)

lemma length_queue: "length (ki_steps (queue_steps now REASSERT_DELAYS k)) = 4"
  by (simp add: queue_steps_def STEP_ORDER_def REASSERT_DELAYS_def)

lemma run_step_budget:
  assumes "t \<le> now" "due_by t k"
  shows "kiosk_budget (fst (snd (run_step env now s (k, ui)))) \<le> kiosk_budget k"
    and "due_by now (fst (snd (run_step env now s (k, ui))))"
    and "ki_want (fst (snd (run_step env now s (k, ui)))) = ki_want k"
proof -
  have d: "due_by now k" using assms by (fastforce simp: due_by_def)
  show "due_by now (fst (snd (run_step env now s (k, ui))))"
    using d due_by_queue [of REASSERT_DELAYS now] by (cases s)
      (auto simp: run_step_def verify_step_def due_by_def split: sum.splits)
  show "kiosk_budget (fst (snd (run_step env now s (k, ui)))) \<le> kiosk_budget k"
    using length_queue [of now] by (cases s) (auto simp: run_step_def verify_step_def kiosk_budget_def MAX_RETRIES_def split: sum.splits)
  show "ki_want (fst (snd (run_step env now s (k, ui)))) = ki_want k"
    by (cases s) (auto simp: run_step_def split: sum.splits)
qed

lemma serve_budget:
  assumes "ki_want (fst st)" "due_by t (fst st)" "t + 17 / 2 \<le> now"
  shows "kiosk_budget (fst (serve (env, now, f) st)) \<le> kiosk_budget (fst st) - (if ki_steps (fst st) = [] then 0 else 1)
    \<and> due_by now (fst (serve (env, now, f) st)) \<and> ki_want (fst (serve (env, now, f) st))"
proof -
  obtain k ui where st: "st = (k, ui)" by (cases st)
  have t: "t \<le> now" using assms(3) by simp
  show ?thesis
  proof (cases "ki_steps k")
    case Nil
    then show ?thesis using assms(1) by (simp add: st serve_def kiosk_do_def kiosk_service_def due_by_def)
  next
    case (Cons p rest)
    obtain due s where p: "p = (due, s)" by (cases p)
    have "due \<le> now" using assms(2,3) by (simp add: st due_by_def Cons p)
    then have e: "fst (serve (env, now, f) st) = fst (snd (run_step env now s (k\<lparr>ki_steps := rest\<rparr>, ui)))"
      using assms(1) by (simp add: st serve_def kiosk_do_def kiosk_service_def Cons p)
    have "due_by t (k\<lparr>ki_steps := rest\<rparr>)" using assms(2) by (simp add: st due_by_def Cons)
    note b = run_step_budget [OF t this, of env s ui]
    have "kiosk_budget (k\<lparr>ki_steps := rest\<rparr>) = kiosk_budget k - 1" by (simp add: kiosk_budget_def Cons)
    then show ?thesis using b assms(1) by (simp add: e [unfolded st] st Cons)
  qed
qed

lemma serve_ends:
  assumes "ki_want (fst st)" "due_by t (fst st)" "spaced t es" "kiosk_budget (fst st) \<le> length es"
  shows "ki_steps (fst (fold serve es st)) = [] \<and> ki_want (fst (fold serve es st))"
  using assms
proof (induction es arbitrary: st t)
  case Nil
  then show ?case by (simp add: kiosk_budget_def)
next
  case (Cons e es)
  obtain env now f where e: "e = (env, now, f)" by (cases e)
  have sp: "t + 17 / 2 \<le> now" "spaced now es" using Cons.prems(3) by (simp_all add: e)
  note s = serve_budget [OF Cons.prems(1,2) sp(1), of env f]
  show ?case
  proof (cases "kiosk_budget (fst (serve e st)) \<le> length es")
    case True
    then show ?thesis using Cons.IH [of "serve e st" now] s sp(2) by (simp add: e)
  next
    case False
    then have "ki_steps (fst st) = []" using s Cons.prems(4) by (auto simp: e split: if_splits)
    have idle: "ki_steps (fst (fold serve xs st)) = [] \<and> ki_want (fst (fold serve xs st))" if "ki_steps (fst st) = []" "ki_want (fst st)" for xs st
      using that
    proof (induction xs arbitrary: st)
      case (Cons x xs)
      have "fst (serve x st) = fst st"
        using Cons.prems by (cases x; cases st) (simp add: serve_def kiosk_do_def kiosk_service_def)
      then show ?case using Cons by simp
    qed simp
    show ?thesis by (rule idle [OF \<open>ki_steps (fst st) = []\<close> Cons.prems(1)])
  qed
qed



subsection \<open>In and out\<close>

text \<open>Blender does what it is asked to: the area is maximised and restored, and the rest of the screen stays.\<close>

definition ui_faithful :: "kiosk_env \<Rightarrow> bool" where
  "ui_faithful env \<longleftrightarrow> (\<forall>ui. ke_toggle env ui = Inr (ui\<lparr>ku_os_full := \<not> ku_os_full ui\<rparr>)
     \<and> ke_full_area env ui = Inr (ui\<lparr>ku_area_full := True\<rparr>) \<and> ke_back env ui = Inr (ui\<lparr>ku_area_full := False\<rparr>))"

definition chrome_off :: "kiosk_ui \<Rightarrow> kiosk_ui" where
  "chrome_off ui = ui\<lparr>ku_area_full := True, ku_header := False, ku_gizmo := False, ku_panels := False, ku_toolbar := False,
     ku_overlays := False, ku_shading := ''RENDERED''\<rparr>"

lemma enter_now_shows:
  assumes "ui_faithful env" "ku_view ui" "os_known (k, ui)"
  shows "enter_now env now (k, ui) = (Inr (), k\<lparr>ki_want := True, ki_steps := [], ki_os_done := ki_os_done k \<or> ki_fullscreen k\<rparr>,
    (chrome_off ui)\<lparr>ku_os_full := ku_os_full ui \<or> ki_fullscreen k\<rparr>)"
  using assms by (cases ui; cases k) (auto simp: enter_now_def STEP_ORDER_def run_step_def prepare_viewport_def strip_chrome_def verify_step_def
      settled_def chrome_off_def ui_faithful_def os_known_def Let_def)

text \<open>A retry spent is not given back: once three verifications have failed, \<open>enter_now\<close> does not retry.\<close>

lemma enter_now_never_retries:
  assumes "ki_retries k = MAX_RETRIES"
  shows "ki_steps (fst (snd (enter_now env now (k, ui)))) = []"
proof -
  have step: "ki_steps (fst (snd (run_step env now s (k, ui)))) = ki_steps k \<and> ki_retries (fst (snd (run_step env now s (k, ui)))) = ki_retries k"
    if "ki_retries k = MAX_RETRIES" for s k ui
    using that by (cases s) (auto simp: run_step_def verify_step_def split: sum.splits)
  have "ki_steps (fst (snd (run_steps env now ss (k, ui)))) = ki_steps k" if "ki_retries k = MAX_RETRIES" for ss k ui
    using that
  proof (induction ss arbitrary: k ui)
    case (Cons s ss)
    obtain r k1 ui1 where r: "run_step env now s (k, ui) = (r, k1, ui1)" by (metis prod_cases3)
    have "ki_steps k1 = ki_steps k \<and> ki_retries k1 = ki_retries k" using step [OF Cons.prems, of s ui] by (simp add: r)
    then show ?case using Cons by (auto simp: r split: sum.splits)
  qed simp
  then show ?thesis using assms by (simp add: enter_now_def)
qed

text \<open>In and out of the kiosk is a round trip: the manual toggle leaves nothing but the rendered viewport on the screen, in
  an OS fullscreen window where that was asked for, with no step left; and leaving it brings the header, the gizmos, the
  panels, the toolbar and the overlays back in a windowed Blender with the area as it was, and nothing is wanted any more.\<close>

theorem kiosk_in_and_out:
  assumes "ui_faithful env" "ku_view ui" "\<not> ku_area_full ui" "os_known (k, ui)"
  shows "case enter_now env now (k, ui) of (r, k1, ui1) \<Rightarrow> r = Inr () \<and> settled ui1 \<and> ki_steps k1 = []
      \<and> ku_os_full ui1 = (ku_os_full ui \<or> ki_fullscreen k)
      \<and> exit_now env (k1, ui1) = (Inr (), k1\<lparr>ki_want := False, ki_os_done := False\<rparr>,
          (show_chrome ui)\<lparr>ku_os_full := False, ku_shading := ''RENDERED''\<rparr>)"
  unfolding enter_now_shows [OF assms(1,2,4)]
  using assms by (cases ui; cases k) (auto simp: exit_now_def leave_os_fullscreen_def chrome_off_def show_chrome_def settled_def
      ui_faithful_def os_known_def Let_def)

lemma kiosk_in_and_out_witness:
  "case enter_now demo_kiosk_env 0 (set_fullscreen True kiosk_module, demo_ui) of (r, k1, ui1) \<Rightarrow> r = Inr () \<and> settled ui1
      \<and> ki_steps k1 = [] \<and> ku_os_full ui1
      \<and> exit_now demo_kiosk_env (k1, ui1) = (Inr (), k1\<lparr>ki_want := False, ki_os_done := False\<rparr>, demo_ui\<lparr>ku_shading := ''RENDERED''\<rparr>)"
  using kiosk_in_and_out [of demo_kiosk_env demo_ui "set_fullscreen True kiosk_module" 0]
  by (simp add: ui_faithful_def demo_kiosk_env_def demo_ui_def os_known_def set_fullscreen_def kiosk_module_def show_chrome_def)

end
