(* ===== verification/Agent_Boot.thy ===== *)
theory Agent_Boot
  imports Session_Common Localize
begin

text \<open>
  Finding, starting and choosing the agent, from \<open>ring1/transport_agent.py\<close>. What the code reads of the machine at one
  moment is the record \<open>machine\<close>: the platform, the environment, where the add-on lies, which files exist with their
  times, what \<open>agent.json\<close> parses to or the error of reading it, which local ports answer, and the clock. A loop that
  waits sees one machine after the other. The memos of the module are the record \<open>boot_memo\<close>.
\<close>

record machine =
  mc_platform :: string
  mc_env :: "(string, string) dict"
  mc_user :: string
  mc_addon :: string
  mc_repo :: string
  mc_mtime :: "string \<Rightarrow> time option"
  mc_doc :: "string \<Rightarrow> py_error + json"
  mc_answers :: "int \<Rightarrow> bool"
  mc_starts :: "string \<Rightarrow> bool"
  mc_now :: time

record boot_memo =
  bm_ports :: "(int, time \<times> bool) dict"
  bm_role :: "(time \<times> string option \<times> string) option"

type_synonym agent_info = "string \<times> int \<times> string"

definition env_get :: "machine \<Rightarrow> string \<Rightarrow> string \<Rightarrow> string" where
  "env_get m k d = (case dget (mc_env m) k of None \<Rightarrow> d | Some v \<Rightarrow> v)"

subsection \<open>The binary\<close>

text \<open>\<open>ntpath.join\<close> with relative parts without a drive.\<close>

fun nt_join :: "string \<Rightarrow> string list \<Rightarrow> string" where
  "nt_join p [] = p"
| "nt_join p (b # bs) = nt_join
     (if p = [] \<or> last p = bslash \<or> last p = slash \<or> length p = 2 \<and> p ! 1 = CHR '':'' then p @ b else p @ bslash # b) bs"

definition path_join :: "machine \<Rightarrow> string \<Rightarrow> string list \<Rightarrow> string" where
  "path_join m p bs = (if mc_platform m = ''win32'' then nt_join p bs else posix_join p bs)"

definition installed_agent_paths :: "machine \<Rightarrow> string list" where
  "installed_agent_paths m =
     (if mc_platform m = ''darwin'' then [''/Applications/QCBridge/QCBridge Agent.app/Contents/MacOS/qcbridge-agent'']
      else if mc_platform m = ''win32''
      then [path_join m (env_get m ''ProgramFiles'' (''C:'' @ bslash # ''Program Files'')) [''QCBridge'', ''qcbridge-agent.exe'']]
      else [])"

definition agent_exe :: "machine \<Rightarrow> string" where
  "agent_exe m = (if mc_platform m = ''win32'' then ''qcbridge-agent.exe'' else ''qcbridge-agent'')"

definition is_file :: "machine \<Rightarrow> string \<Rightarrow> bool" where
  "is_file m p \<longleftrightarrow> mc_mtime m p \<noteq> None"

definition agent_builds :: "machine \<Rightarrow> string list" where
  "agent_builds m = filter (is_file m)
     (map (\<lambda>prof. path_join m (mc_repo m) [''agent'', ''target'', prof, agent_exe m]) [''release'', ''debug''])"

definition latest_build :: "machine \<Rightarrow> string list \<Rightarrow> string list" where
  "latest_build m bs = (case bs of [] \<Rightarrow> []
     | b # rest \<Rightarrow> [fold (\<lambda>c best. if the (mc_mtime m best) < the (mc_mtime m c) then c else best) rest b])"

definition agent_candidates :: "string \<Rightarrow> machine \<Rightarrow> string list" where
  "agent_candidates explicit m =
     [explicit, env_get m ''QCB_AGENT_BIN'' [], path_join m (mc_addon m) [''bin'', agent_exe m]]
       @ latest_build m (agent_builds m) @ installed_agent_paths m"

definition find_agent :: "string \<Rightarrow> machine \<Rightarrow> string option" where
  "find_agent explicit m = find (\<lambda>p. p \<noteq> [] \<and> is_file m p) (agent_candidates explicit m)"

subsection \<open>The registered agent\<close>

definition agent_base :: "machine \<Rightarrow> string" where
  "agent_base m = (if mc_platform m = ''win32'' then env_get m ''APPDATA'' []
     else if mc_platform m = ''darwin'' then mc_user m @ ''/Library/Application Support''
     else env_get m ''XDG_CONFIG_HOME'' (mc_user m @ ''/.config''))"

definition agent_info_path :: "machine \<Rightarrow> string" where
  "agent_info_path m = path_join m (agent_base m) [''QCBridge'', ''agent.json'']"

text \<open>\<open>v[key]\<close> of a JSON value.\<close>

definition json_key :: "json \<Rightarrow> string \<Rightarrow> py_error + json" where
  "json_key v k = (case v of JObj d \<Rightarrow> item d k | _ \<Rightarrow> Inl TypeError)"

definition entry_port :: "json \<Rightarrow> py_error + int" where
  "entry_port v = err_bind (json_key v ''port'') py_int"

definition entry_secret :: "(json \<Rightarrow> string) \<Rightarrow> json \<Rightarrow> py_error + string" where
  "entry_secret py_repr v = err_bind (json_key v ''secret'') (\<lambda>s. Inr (py_str py_repr s))"

definition info_entry :: "machine \<Rightarrow> string \<Rightarrow> string \<Rightarrow> py_error + json" where
  "info_entry m path role = err_bind (mc_doc m path) (\<lambda>doc. json_key doc role)"

definition info_caught :: "py_error \<Rightarrow> bool" where
  "info_caught err \<longleftrightarrow> err \<in> {OSError, ValueError, KeyError, TypeError}"

definition port_answers :: "machine \<Rightarrow> int \<Rightarrow> boot_memo \<Rightarrow> bool \<times> boot_memo" where
  "port_answers m port bm =
     (let fresh = (mc_answers m port, bm\<lparr>bm_ports := dset port (mc_now m, mc_answers m port) (bm_ports bm)\<rparr>)
      in case dget (bm_ports bm) port of None \<Rightarrow> fresh
         | Some (t, ok) \<Rightarrow> if mc_now m - t < 1 then (ok, bm) else fresh)"

definition LOCALHOST :: string where "LOCALHOST = ''127.0.0.1''"

text \<open>The port and secret of the launch environment, if both are set and not empty.\<close>

definition launch_env :: "machine \<Rightarrow> (string \<times> string) option" where
  "launch_env m = (let port = env_get m ''QCB_AGENT_PORT'' []; secret = env_get m ''QCB_AGENT_SECRET'' []
     in if port \<noteq> [] \<and> secret \<noteq> [] then Some (port, secret) else None)"

definition registered_info :: "(json \<Rightarrow> string) \<Rightarrow> machine \<Rightarrow> string \<Rightarrow> boot_memo \<Rightarrow> (py_error + agent_info option) \<times> boot_memo" where
  "registered_info py_repr m role bm =
     (let quiet = (\<lambda>err bm. (if info_caught err then Inr None else Inl err, bm))
      in case info_entry m (agent_info_path m) role of Inl err \<Rightarrow> quiet err bm
         | Inr e \<Rightarrow> (case entry_port e of Inl err \<Rightarrow> quiet err bm
             | Inr port \<Rightarrow> (case port_answers m port bm of (ok, bm1) \<Rightarrow>
                 if \<not> ok then (Inr None, bm1)
                 else case entry_secret py_repr e of Inl err \<Rightarrow> quiet err bm1
                   | Inr secret \<Rightarrow> (Inr (Some (LOCALHOST, port, secret)), bm1))))"

definition agent_socket_info :: "(json \<Rightarrow> string) \<Rightarrow> machine \<Rightarrow> string \<Rightarrow> boot_memo \<Rightarrow> (py_error + agent_info option) \<times> boot_memo" where
  "agent_socket_info py_repr m role bm = (case launch_env m of
       Some (port, secret) \<Rightarrow> (case str_int port of None \<Rightarrow> (Inl ValueError, bm) | Some p \<Rightarrow> (Inr (Some (LOCALHOST, p, secret)), bm))
     | None \<Rightarrow> registered_info py_repr m role bm)"

definition spawns_own :: "machine \<Rightarrow> bool" where
  "spawns_own m \<longleftrightarrow> env_get m ''QCB_AGENT'' [] = ''spawn''"

definition use_agent :: "(json \<Rightarrow> string) \<Rightarrow> machine \<Rightarrow> string \<Rightarrow> boot_memo \<Rightarrow> (py_error + bool) \<times> boot_memo" where
  "use_agent py_repr m role bm = (if spawns_own m then (Inr False, bm)
     else case agent_socket_info py_repr m role bm of (Inl err, bm1) \<Rightarrow> (Inl err, bm1) | (Inr i, bm1) \<Rightarrow> (Inr (i \<noteq> None), bm1))"

definition role_cache_key :: "machine \<Rightarrow> string" where
  "role_cache_key m = env_get m ''HOME'' [] @ ''|'' @ env_get m ''APPDATA'' [] @ ''|'' @ env_get m ''XDG_CONFIG_HOME'' []"

fun roles_found :: "(json \<Rightarrow> string) \<Rightarrow> machine \<Rightarrow> string list \<Rightarrow> boot_memo \<Rightarrow> (py_error + string list) \<times> boot_memo" where
  "roles_found py_repr m [] bm = (Inr [], bm)"
| "roles_found py_repr m (r # rs) bm = (case agent_socket_info py_repr m r bm of (Inl err, bm1) \<Rightarrow> (Inl err, bm1)
     | (Inr i, bm1) \<Rightarrow> (case roles_found py_repr m rs bm1 of (Inl err, bm2) \<Rightarrow> (Inl err, bm2)
         | (Inr found, bm2) \<Rightarrow> (Inr (if i \<noteq> None then r # found else found), bm2)))"

definition the_role :: "string list \<Rightarrow> string option" where
  "the_role found = (case found of [r] \<Rightarrow> Some r | _ \<Rightarrow> None)"

definition registered_role :: "(json \<Rightarrow> string) \<Rightarrow> machine \<Rightarrow> boot_memo \<Rightarrow> (py_error + string option) \<times> boot_memo" where
  "registered_role py_repr m bm =
     (if spawns_own m \<or> launch_env m \<noteq> None then (Inr None, bm)
      else let fresh = (case roles_found py_repr m [''host'', ''replica''] bm of (Inl err, bm1) \<Rightarrow> (Inl err, bm1)
             | (Inr found, bm1) \<Rightarrow> (Inr (the_role found), bm1\<lparr>bm_role := Some (mc_now m, the_role found, role_cache_key m)\<rparr>))
      in case bm_role bm of None \<Rightarrow> fresh
         | Some (t, r, key) \<Rightarrow> if mc_now m - t < 1 / 2 \<and> key = role_cache_key m then (Inr r, bm) else fresh)"

subsection \<open>Starting one\<close>

text \<open>What was started is in the result. The machines are those of the loop's turns, 0.1 s apart.\<close>

fun await_agent :: "(machine \<Rightarrow> boot_memo \<Rightarrow> (py_error + 'a option) \<times> boot_memo) \<Rightarrow> time \<Rightarrow> machine list \<Rightarrow> boot_memo
    \<Rightarrow> (py_error + 'a option) \<times> boot_memo" where
  "await_agent ask deadline [] bm = (Inr None, bm)"
| "await_agent ask deadline (m # ms) bm =
     (if deadline \<le> mc_now m then (Inr None, bm)
      else case ask m bm of (Inl err, bm1) \<Rightarrow> (Inl err, bm1)
         | (Inr (Some x), bm1) \<Rightarrow> (Inr (Some x), bm1)
         | (Inr None, bm1) \<Rightarrow> await_agent ask deadline ms bm1)"

definition start_and_wait :: "(machine \<Rightarrow> boot_memo \<Rightarrow> (py_error + 'a option) \<times> boot_memo) \<Rightarrow> time \<Rightarrow> machine \<Rightarrow> machine list
    \<Rightarrow> boot_memo \<Rightarrow> string list \<times> (py_error + 'a option) \<times> boot_memo" where
  "start_and_wait ask timeout m ms bm = (case find_agent [] m of None \<Rightarrow> ([], Inr None, bm)
     | Some binary \<Rightarrow> if \<not> mc_starts m binary then ([], Inr None, bm)
         else ([binary], await_agent ask (mc_now m + timeout) ms bm))"

definition ensure_any_agent :: "(json \<Rightarrow> string) \<Rightarrow> time \<Rightarrow> machine \<Rightarrow> machine list \<Rightarrow> boot_memo
    \<Rightarrow> string list \<times> (py_error + string option) \<times> boot_memo" where
  "ensure_any_agent py_repr timeout m ms bm = (case registered_role py_repr m bm of
       (Inl err, bm1) \<Rightarrow> ([], Inl err, bm1)
     | (Inr (Some r), bm1) \<Rightarrow> ([], Inr (Some r), bm1)
     | (Inr None, bm1) \<Rightarrow> if spawns_own m \<or> launch_env m \<noteq> None then ([], Inr None, bm1)
         else start_and_wait (registered_role py_repr) timeout m ms bm1)"

definition ensure_agent :: "(json \<Rightarrow> string) \<Rightarrow> string \<Rightarrow> time \<Rightarrow> machine \<Rightarrow> machine list \<Rightarrow> boot_memo
    \<Rightarrow> string list \<times> (py_error + bool) \<times> boot_memo" where
  "ensure_agent py_repr role0 timeout m ms bm =
     (if spawns_own m then ([], Inr False, bm)
      else let role = lower role0; ask = (\<lambda>m bm. agent_socket_info py_repr m role bm)
      in case ask m bm of (Inl err, bm1) \<Rightarrow> ([], Inl err, bm1)
         | (Inr (Some i), bm1) \<Rightarrow> ([], Inr True, bm1)
         | (Inr None, bm1) \<Rightarrow> (case start_and_wait ask timeout m ms bm1 of
               (started, Inl err, bm2) \<Rightarrow> (started, Inl err, bm2)
             | (started, Inr found, bm2) \<Rightarrow> (started, Inr (found \<noteq> None), bm2)))"

definition transport_kind :: "(json \<Rightarrow> string) \<Rightarrow> string \<Rightarrow> string \<Rightarrow> machine \<Rightarrow> boot_memo \<Rightarrow> (py_error + string) \<times> boot_memo" where
  "transport_kind py_repr role pref0 m bm =
     (let env = lower (py_strip (env_get m ''QCB_TRANSPORT'' [])); pref = lower (py_strip pref0)
      in if env \<in> {''agent'', ''zmq''} then (Inr env, bm)
         else if pref \<in> {''agent'', ''zmq''} then (Inr pref, bm)
         else case use_agent py_repr m (lower role) bm of (Inl err, bm1) \<Rightarrow> (Inl err, bm1)
           | (Inr True, bm1) \<Rightarrow> (Inr ''agent'', bm1)
           | (Inr False, bm1) \<Rightarrow> (case registered_role py_repr m bm1 of (Inl err, bm2) \<Rightarrow> (Inl err, bm2)
               | (Inr r, bm2) \<Rightarrow> (Inr (if r \<noteq> None then ''agent'' else ''zmq''), bm2)))"

definition effective_kiosk :: "bool \<Rightarrow> header \<Rightarrow> bool \<Rightarrow> bool" where
  "effective_kiosk agent_mode cfg pref = (if agent_mode then (case dget cfg ''kiosk'' of Some v \<Rightarrow> json_true v | None \<Rightarrow> pref) else pref)"


text \<open>\<open>session._use_agent\<close> and \<open>session._start_agent_if_needed\<close>: the role the session then has.\<close>

definition session_uses_agent :: "(json \<Rightarrow> string) \<Rightarrow> string \<Rightarrow> string \<Rightarrow> machine \<Rightarrow> boot_memo \<Rightarrow> (py_error + bool) \<times> boot_memo" where
  "session_uses_agent py_repr role pref m bm =
     (case transport_kind py_repr (if role = [] then ''HOST'' else role) pref m bm of (Inl err, bm1) \<Rightarrow> (Inl err, bm1)
       | (Inr k, bm1) \<Rightarrow> (Inr (k = ''agent''), bm1))"

definition upper_ascii :: "string \<Rightarrow> string" where
  "upper_ascii s = map (\<lambda>c. if 97 \<le> code c \<and> code c \<le> 122 then char_of (code c - 32) else c) s"

definition start_agent_if_needed :: "(json \<Rightarrow> string) \<Rightarrow> string \<Rightarrow> string \<Rightarrow> machine \<Rightarrow> machine list \<Rightarrow> boot_memo
    \<Rightarrow> string list \<times> (py_error + string) \<times> boot_memo" where
  "start_agent_if_needed py_repr role pref m ms bm =
     (if lower (py_strip (env_get m ''QCB_TRANSPORT'' [])) = ''zmq'' \<or> lower (py_strip pref) = ''zmq'' then ([], Inr role, bm)
      else case ensure_any_agent py_repr 6 m ms bm of
          (started, Inl err, bm1) \<Rightarrow> (started, Inl err, bm1)
        | (started, Inr None, bm1) \<Rightarrow> (started, Inr role, bm1)
        | (started, Inr (Some r), bm1) \<Rightarrow> (started, Inr (upper_ascii r), bm1))"

subsection \<open>A private agent\<close>

record spawn_cfg =
  sc_agent_path :: string
  sc_token :: string
  sc_fingerprint :: string
  sc_address :: string
  sc_port_control :: int

datatype spawn_error = No_Binary | Exited_At_Once | No_Registration | Spawn_Raised py_error

definition toml_text :: "string \<Rightarrow> string \<Rightarrow> string" where
  "toml_text k v = k @ '' = '' @ CHR 0x22 # v @ [CHR 0x22]"

definition spawn_toml :: "spawn_cfg \<Rightarrow> string \<Rightarrow> string list" where
  "spawn_toml cfg role =
     (let peer = sc_address cfg @ '':'' @ int_text (sc_port_control cfg)
      in [toml_text ''role'' role, toml_text ''token'' (if sc_token cfg = [] then ''qcbridge'' else sc_token cfg),
          toml_text ''token_store'' ''file'', toml_text (if role = ''replica'' then ''listen'' else ''peer'') peer,
          toml_text ''blender_path'' [], ''tray = false'']
         @ (if sc_fingerprint cfg \<noteq> [] then [toml_text ''fingerprint'' (sc_fingerprint cfg)] else []))"

text \<open>The role's old entry is dropped; a file left without entries is deleted. The result is what the file is then.\<close>

definition drop_entry :: "string \<Rightarrow> py_error + json \<Rightarrow> py_error + (py_error + json)" where
  "drop_entry role doc = (case doc of
       Inl err \<Rightarrow> if err \<in> {OSError, ValueError, AttributeError} then Inr doc else Inl err
     | Inr (JObj d) \<Rightarrow> Inr (if dpop role d = [] then Inl OSError else Inr (JObj (dpop role d)))
     | Inr (JList xs) \<Rightarrow> Inl TypeError
     | Inr v \<Rightarrow> Inr doc)"

text \<open>A turn of the wait: the clock, what the file is, and whether the process has ended.\<close>

type_synonym spawn_turn = "time \<times> (py_error + json) \<times> bool"

definition spawn_entry :: "(json \<Rightarrow> string) \<Rightarrow> string \<Rightarrow> py_error + json \<Rightarrow> py_error + agent_info" where
  "spawn_entry py_repr role doc = err_bind (err_bind doc (\<lambda>v. json_key v role)) (\<lambda>e.
     err_bind (entry_port e) (\<lambda>port. err_bind (entry_secret py_repr e) (\<lambda>secret. Inr (LOCALHOST, port, secret))))"

fun await_spawn :: "(json \<Rightarrow> string) \<Rightarrow> string \<Rightarrow> time \<Rightarrow> spawn_turn list \<Rightarrow> spawn_error + agent_info" where
  "await_spawn py_repr role deadline [] = Inl No_Registration"
| "await_spawn py_repr role deadline ((now, doc, ended) # turns) =
     (if deadline \<le> now then Inl No_Registration
      else case spawn_entry py_repr role doc of
          Inr i \<Rightarrow> Inr i
        | Inl err \<Rightarrow> if \<not> info_caught err then Inl (Spawn_Raised err)
            else if ended then Inl Exited_At_Once else await_spawn py_repr role deadline turns)"

text \<open>The configuration's lines, the command and what comes of it; \<open>base\<close> is the instance's directory.\<close>

definition spawn_agent :: "(json \<Rightarrow> string) \<Rightarrow> spawn_cfg \<Rightarrow> string \<Rightarrow> string \<Rightarrow> machine \<Rightarrow> spawn_turn list
    \<Rightarrow> string list \<times> string list \<times> (spawn_error + agent_info)" where
  "spawn_agent py_repr cfg role base m turns = (case find_agent (sc_agent_path cfg) m of
       None \<Rightarrow> ([], [], Inl No_Binary)
     | Some binary \<Rightarrow> (case drop_entry role (mc_doc m (path_join m base [''agent.json''])) of
           Inl err \<Rightarrow> (spawn_toml cfg role, [], Inl (Spawn_Raised err))
         | Inr _ \<Rightarrow> if \<not> mc_starts m binary then (spawn_toml cfg role, [], Inl (Spawn_Raised OSError))
             else (spawn_toml cfg role, [binary, ''--config'', path_join m base [role @ ''.toml''], ''--exit-with-addon''],
                   await_spawn py_repr role (mc_now m + 10) turns)))"

text \<open>\<open>_make_link\<close>: which agent the link attaches to.\<close>

definition link_info :: "(json \<Rightarrow> string) \<Rightarrow> spawn_cfg \<Rightarrow> string \<Rightarrow> string \<Rightarrow> machine \<Rightarrow> spawn_turn list \<Rightarrow> boot_memo
    \<Rightarrow> (spawn_error + agent_info) \<times> boot_memo" where
  "link_info py_repr cfg role base m turns bm =
     (if spawns_own m then (snd (snd (spawn_agent py_repr cfg role base m turns)), bm)
      else case agent_socket_info py_repr m role bm of
          (Inl err, bm1) \<Rightarrow> (Inl (Spawn_Raised err), bm1)
        | (Inr None, bm1) \<Rightarrow> (Inl (Spawn_Raised OSError), bm1)
        | (Inr (Some i), bm1) \<Rightarrow> (Inr i, bm1))"

text \<open>\<open>_AgentLink.start\<close> dials for twenty seconds: whether each try connects, and the clock after it.\<close>

fun dial_agent :: "time \<Rightarrow> (bool \<times> time) list \<Rightarrow> bool option" where
  "dial_agent deadline [] = None"
| "dial_agent deadline ((ok, now) # tries) = (if ok then Some True else if deadline \<le> now then Some False else dial_agent deadline tries)"

definition stop_proc :: "bool \<Rightarrow> bool \<Rightarrow> string list" where
  "stop_proc ours stops = (if \<not> ours then [] else if stops then [''terminate''] else [''terminate'', ''kill''])"


subsection \<open>Only agents that answer\<close>

definition no_memo :: boot_memo where "no_memo = \<lparr>bm_ports = [], bm_role = None\<rparr>"

definition ask_all :: "(json \<Rightarrow> string) \<Rightarrow> (machine \<times> string) list \<Rightarrow> boot_memo \<Rightarrow> boot_memo" where
  "ask_all py_repr past bm = fold (\<lambda>(m, role) bm. snd (agent_socket_info py_repr m role bm)) past bm"

text \<open>A port in the memo was asked at its time.\<close>

definition memo_true :: "machine set \<Rightarrow> boot_memo \<Rightarrow> bool" where
  "memo_true ms bm \<longleftrightarrow> (\<forall>p t ok. dget (bm_ports bm) p = Some (t, ok) \<longrightarrow> (\<exists>m \<in> ms. mc_now m = t \<and> mc_answers m p = ok))"

lemma memo_true_mono: "memo_true A bm \<Longrightarrow> A \<subseteq> B \<Longrightarrow> memo_true B bm"
  unfolding memo_true_def by (meson subsetD)

lemma port_answers_true:
  assumes "memo_true ms bm"
  shows "memo_true (insert m ms) (snd (port_answers m p bm))"
    and "fst (port_answers m p bm) \<Longrightarrow> \<exists>m' \<in> insert m ms. mc_answers m' p \<and> mc_now m - mc_now m' < 1"
proof -
  have fresh: "memo_true (insert m ms) (bm\<lparr>bm_ports := dset p (mc_now m, mc_answers m p) (bm_ports bm)\<rparr>)"
    using assms unfolding memo_true_def by (auto simp: update_conv)
  note old = memo_true_mono [OF assms subset_insertI]
  show "memo_true (insert m ms) (snd (port_answers m p bm))"
    using fresh old by (auto simp: port_answers_def Let_def split: option.splits)
  show "\<exists>m' \<in> insert m ms. mc_answers m' p \<and> mc_now m - mc_now m' < 1" if "fst (port_answers m p bm)"
  proof (cases "dget (bm_ports bm) p")
    case None
    then show ?thesis using that by (auto simp: port_answers_def Let_def)
  next
    case (Some h)
    obtain t ok where h: "h = (t, ok)" by (cases h)
    obtain m' where "m' \<in> ms" "mc_now m' = t" "mc_answers m' p = ok"
      using assms Some unfolding h memo_true_def by blast
    then show ?thesis using that by (auto simp: port_answers_def Let_def Some h split: if_splits)
  qed
qed

lemma registered_info_memo: "memo_true ms bm \<Longrightarrow> memo_true (insert m ms) (snd (registered_info r m role bm))"
  using port_answers_true(1) [of ms bm m] memo_true_mono [of ms bm "insert m ms"]
  by (auto simp: registered_info_def Let_def split: sum.splits prod.splits) (metis snd_conv)+

lemma ask_memo: "memo_true ms bm \<Longrightarrow> memo_true (insert m ms) (snd (agent_socket_info r m role bm))"
  using registered_info_memo [of ms bm m r role] memo_true_mono [of ms bm "insert m ms"]
  by (auto simp: agent_socket_info_def split: option.splits)

lemma ask_all_memo: "memo_true ms bm \<Longrightarrow> memo_true (ms \<union> fst ` set past) (ask_all r past bm)"
proof (induction past arbitrary: ms bm)
  case (Cons q past)
  obtain m role where q: "q = (m, role)" by (cases q)
  show ?case using Cons.IH [OF ask_memo [OF Cons.prems, of m r role]] by (simp add: ask_all_def q insert_commute)
qed (simp add: ask_all_def)

text \<open>C26: No session attaches to an agent that is gone: however often the machine was asked before, an agent named from
  \<open>agent.json\<close> is the entry the file has now, its port and its secret, and that port answered a connection less than a
  second ago; the file of an agent that has quit names none.\<close>

theorem no_dead_agent:
  assumes "agent_socket_info r m role (ask_all r past no_memo) = (Inr (Some (h, p, s)), bm)" "launch_env m = None"
  shows "h = LOCALHOST \<and> spawn_entry r role (mc_doc m (agent_info_path m)) = Inr (h, p, s)
    \<and> (\<exists>m' \<in> insert m (fst ` set past). mc_answers m' p \<and> mc_now m - mc_now m' < 1)"
proof -
  have mt: "memo_true (fst ` set past) (ask_all r past no_memo)"
    using ask_all_memo [where ms = "{}" and bm = no_memo and r = r and past = past] by (simp add: memo_true_def no_memo_def)
  obtain e where e: "info_entry m (agent_info_path m) role = Inr e" "entry_port e = Inr p" "entry_secret r e = Inr s" "h = LOCALHOST"
    and ok: "fst (port_answers m p (ask_all r past no_memo))"
    using assms by (auto simp: agent_socket_info_def registered_info_def Let_def split: sum.splits prod.splits if_splits)
  then show ?thesis using port_answers_true(2) [OF mt ok] by (simp add: spawn_entry_def info_entry_def)
qed

definition demo_machine :: "time \<Rightarrow> bool \<Rightarrow> machine" where
  "demo_machine now up = \<lparr>mc_platform = ''linux'', mc_env = [], mc_user = ''/u'', mc_addon = ''/a'', mc_repo = ''/r'',
     mc_mtime = (\<lambda>p. if p = ''/a/bin/qcbridge-agent'' then Some 0 else None),
     mc_doc = (\<lambda>p. if p = ''/u/.config/QCBridge/agent.json''
       then Inr (JObj [(''host'', JObj [(''port'', JInt 5000), (''secret'', JStr ''s'')]),
                       (''replica'', JObj [(''port'', JInt 5001), (''secret'', JStr ''t'')])]) else Inl OSError),
     mc_answers = (\<lambda>p. up), mc_starts = (\<lambda>p. True), mc_now = now\<rparr>"

lemma demo_paths: "agent_info_path (demo_machine t up) = ''/u/.config/QCBridge/agent.json''"
  by (simp add: agent_info_path_def agent_base_def path_join_def demo_machine_def env_get_def startswith_def)

lemma demo_launch: "launch_env (demo_machine t up) = None" "\<not> spawns_own (demo_machine t up)"
  by (simp_all add: launch_env_def spawns_own_def demo_machine_def env_get_def)

lemma demo_entry: "info_entry (demo_machine t up) (agent_info_path (demo_machine t up)) ''host'' = Inr (JObj [(''port'', JInt 5000), (''secret'', JStr ''s'')])"
  "info_entry (demo_machine t up) (agent_info_path (demo_machine t up)) ''replica'' = Inr (JObj [(''port'', JInt 5001), (''secret'', JStr ''t'')])"
  unfolding demo_paths by (simp_all add: info_entry_def demo_machine_def json_key_def item_def)

lemma demo_answered: "agent_socket_info r (demo_machine (1 / 2) False) ''host'' (ask_all r [(demo_machine 0 True, ''host'')] no_memo)
    = (Inr (Some (LOCALHOST, 5000, ''s'')), \<lparr>bm_ports = [(5000, 0, True)], bm_role = None\<rparr>)"
  by (simp add: ask_all_def agent_socket_info_def demo_launch registered_info_def demo_entry entry_port_def entry_secret_def json_key_def
      item_def py_int_def py_str_def port_answers_def no_memo_def Let_def)
    (simp add: demo_machine_def)

lemma no_dead_agent_witness:
  "spawn_entry dumps ''host'' (mc_doc (demo_machine (1 / 2) False) (agent_info_path (demo_machine (1 / 2) False))) = Inr (LOCALHOST, 5000, ''s'')
    \<and> (\<exists>m' \<in> {demo_machine (1 / 2) False, demo_machine 0 True}. mc_answers m' 5000 \<and> 1 / 2 - mc_now m' < 1)"
proof -
  have "mc_now (demo_machine t up) = t" for t up by (simp add: demo_machine_def)
  then show ?thesis using no_dead_agent [OF demo_answered demo_launch(1), of dumps] by simp
qed


subsection \<open>Which binary\<close>

lemma latest_build_max:
  assumes "latest_build m bs = [b]" "c \<in> set bs"
  shows "b \<in> set bs \<and> the (mc_mtime m c) \<le> the (mc_mtime m b)"
proof -
  have f: "fold (\<lambda>c best. if the (mc_mtime m best) < the (mc_mtime m c) then c else best) xs a \<in> insert a (set xs)
      \<and> (\<forall>x \<in> insert a (set xs). the (mc_mtime m x) \<le> the (mc_mtime m (fold (\<lambda>c best. if the (mc_mtime m best) < the (mc_mtime m c) then c else best) xs a)))"
    for xs a
  proof (induction xs arbitrary: a)
    case (Cons x xs)
    show ?case using Cons.IH [of "if the (mc_mtime m a) < the (mc_mtime m x) then x else a"] by (auto split: if_splits)
  qed simp
  show ?thesis
  proof (cases bs)
    case (Cons a xs)
    then show ?thesis using assms f [where a = a and xs = xs] by (auto simp: latest_build_def)
  qed (use assms in simp)
qed

text \<open>In a checkout the binary built last is used, before an installed one, unless a binary is named or bundled.\<close>

lemma find_agent_freshest:
  assumes "c \<in> set (agent_builds m)" "\<And>p. p \<in> {explicit, env_get m ''QCB_AGENT_BIN'' [], path_join m (mc_addon m) [''bin'', agent_exe m]}
      \<Longrightarrow> p = [] \<or> \<not> is_file m p" "[] \<notin> set (agent_builds m)"
  shows "\<exists>b \<in> set (agent_builds m). find_agent explicit m = Some b \<and> the (mc_mtime m c) \<le> the (mc_mtime m b)"
proof -
  obtain b where b: "latest_build m (agent_builds m) = [b]" using assms(1) by (cases "agent_builds m") (auto simp: latest_build_def)
  have m: "b \<in> set (agent_builds m)" "the (mc_mtime m c) \<le> the (mc_mtime m b)" using latest_build_max [OF b assms(1)] by auto
  have "is_file m b" using m(1) unfolding agent_builds_def set_filter by blast
  moreover have "b \<noteq> []" using m(1) assms(3) by auto
  ultimately have "find_agent explicit m = Some b"
    using assms(2) by (auto simp: find_agent_def agent_candidates_def b)
  then show ?thesis using m by blast
qed

subsection \<open>A private agent is the one just started\<close>

lemma await_spawn_turn:
  assumes "await_spawn r role deadline turns = Inr i"
  shows "\<exists>(now, doc, ended) \<in> set turns. now < deadline \<and> spawn_entry r role doc = Inr i"
  using assms
proof (induction turns)
  case (Cons t turns)
  obtain now doc ended where t: "t = (now, doc, ended)" by (cases t)
  show ?case
    using Cons by (cases "spawn_entry r role doc") (auto simp: t split: if_splits)
qed simp

lemma dropped_has_no_entry:
  assumes "drop_entry role doc = Inr d"
  shows "spawn_entry r role d \<noteq> Inr i"
proof -
  have "dget (dpop role d) role = None" for d :: "(string, json) dict" by (simp add: delete_conv)
  then show ?thesis
    using assms by (auto simp: drop_entry_def spawn_entry_def json_key_def item_def err_bind_Inr split: sum.splits json.splits if_splits)
qed

text \<open>A private agent that was spawned is the one that is dialled: the entry returned was read within ten seconds, from a file
  that is not what the start left of it, for whatever an earlier agent had written there, its port and its secret, was
  dropped before.\<close>

theorem spawned_agent_is_new:
  assumes "spawn_agent r cfg role base m turns = (toml, cmd, Inr i)"
  shows "\<exists>d. drop_entry role (mc_doc m (path_join m base [''agent.json''])) = Inr d
    \<and> (\<exists>(now, doc, ended) \<in> set turns. now < mc_now m + 10 \<and> doc \<noteq> d \<and> spawn_entry r role doc = Inr i)"
proof -
  obtain d where d: "drop_entry role (mc_doc m (path_join m base [''agent.json''])) = Inr d"
    and w: "await_spawn r role (mc_now m + 10) turns = Inr i"
    using assms by (auto simp: spawn_agent_def split: option.splits sum.splits if_splits)
  show ?thesis using await_spawn_turn [OF w] dropped_has_no_entry [OF d, of r i] d by fast
qed

definition demo_spawn :: spawn_cfg where
  "demo_spawn = \<lparr>sc_agent_path = [], sc_token = [], sc_fingerprint = [], sc_address = ''10.0.0.2'', sc_port_control = 19990\<rparr>"

definition demo_turns :: "spawn_turn list" where
  "demo_turns = [(1, Inr (JObj [(''replica'', JObj [(''port'', JInt 5001), (''secret'', JStr ''t'')])]), False),
     (2, Inr (JObj [(''replica'', JNull), (''host'', JObj [(''port'', JInt 6000), (''secret'', JStr ''new'')])]), False)]"

lemma demo_spawned: "spawn_agent dumps demo_spawn ''host'' ''/u/.config/QCBridge'' (demo_machine 0 False) demo_turns
    = ([toml_text ''role'' ''host'', toml_text ''token'' ''qcbridge'', toml_text ''token_store'' ''file'',
        toml_text ''peer'' (''10.0.0.2:'' @ int_text 19990), toml_text ''blender_path'' [], ''tray = false''],
       [''/a/bin/qcbridge-agent'', ''--config'', ''/u/.config/QCBridge/host.toml'', ''--exit-with-addon''],
       Inr (LOCALHOST, 6000, ''new''))"
  by (simp add: spawn_agent_def find_agent_def agent_candidates_def demo_machine_def demo_spawn_def demo_turns_def path_join_def
      startswith_def env_get_def agent_exe_def is_file_def drop_entry_def spawn_entry_def json_key_def item_def entry_port_def
      entry_secret_def py_int_def py_str_def info_caught_def spawn_toml_def Let_def)

lemma spawned_agent_is_new_witness:
  "\<exists>d. drop_entry ''host'' (mc_doc (demo_machine 0 False) (path_join (demo_machine 0 False) ''/u/.config/QCBridge'' [''agent.json''])) = Inr d
    \<and> (\<exists>(now, doc, ended) \<in> set demo_turns. now < 10 \<and> doc \<noteq> d \<and> spawn_entry dumps ''host'' doc = Inr (LOCALHOST, 6000, ''new''))"
proof -
  have "mc_now (demo_machine 0 False) = 0" by (simp add: demo_machine_def)
  then show ?thesis using spawned_agent_is_new [OF demo_spawned] by simp
qed

text \<open>An \<open>agent.json\<close> that is a list is read as none everywhere else; here its \<open>pop\<close> raises what is not caught.\<close>

lemma list_file_stops_spawn:
  assumes "find_agent (sc_agent_path cfg) m = Some b" "mc_doc m (path_join m base [''agent.json'']) = Inr (JList xs)"
  shows "snd (snd (spawn_agent r cfg role base m turns)) = Inl (Spawn_Raised TypeError)"
  using assms by (simp add: spawn_agent_def drop_entry_def)

text \<open>A launch port that is no number is raised to whoever asks, the panel's draw included.\<close>

lemma bad_launch_port_raises:
  assumes "launch_env m = Some (port, secret)" "str_int port = None"
  shows "agent_socket_info r m role bm = (Inl ValueError, bm)"
  using assms by (simp add: agent_socket_info_def)

subsection \<open>Two agents\<close>

definition both_registered :: "(json \<Rightarrow> string) \<Rightarrow> machine \<Rightarrow> bool" where
  "both_registered r m \<longleftrightarrow> \<not> spawns_own m \<and> launch_env m = None \<and> (\<forall>p. mc_answers m p)
     \<and> (\<forall>role \<in> {''host'', ''replica''}. \<exists>i. spawn_entry r role (mc_doc m (agent_info_path m)) = Inr i)"

definition no_role_known :: "boot_memo \<Rightarrow> bool" where
  "no_role_known bm \<longleftrightarrow> (\<forall>p t ok. dget (bm_ports bm) p = Some (t, ok) \<longrightarrow> ok) \<and> (\<forall>t r key. bm_role bm = Some (t, r, key) \<longrightarrow> r = None)"

lemma both_found:
  assumes "both_registered r m" "no_role_known bm" "role \<in> {''host'', ''replica''}"
  shows "\<exists>i bm1. agent_socket_info r m role bm = (Inr (Some i), bm1) \<and> no_role_known bm1"
proof -
  obtain e p s where e: "info_entry m (agent_info_path m) role = Inr e" "entry_port e = Inr p" "entry_secret r e = Inr s"
    using assms(1,3) by (fastforce simp: both_registered_def spawn_entry_def err_bind_Inr info_entry_def)
  have pa: "fst (port_answers m p bm) \<and> no_role_known (snd (port_answers m p bm))"
    using assms(1,2) by (auto simp: port_answers_def Let_def both_registered_def no_role_known_def update_conv split: option.splits if_splits)
  obtain ok bm1 where b: "port_answers m p bm = (ok, bm1)" by fastforce
  show ?thesis using assms(1) pa by (simp add: agent_socket_info_def registered_info_def e b both_registered_def)
qed

lemma both_no_role:
  assumes "both_registered r m" "no_role_known bm"
  shows "\<exists>bm1. registered_role r m bm = (Inr None, bm1) \<and> no_role_known bm1"
proof -
  obtain i bm1 where 1: "agent_socket_info r m ''host'' bm = (Inr (Some i), bm1)" "no_role_known bm1"
    using both_found [OF assms, of "''host''"] by blast
  obtain j bm2 where 2: "agent_socket_info r m ''replica'' bm1 = (Inr (Some j), bm2)" "no_role_known bm2"
    using both_found [OF assms(1) 1(2), of "''replica''"] by blast
  have free: "\<not> (spawns_own m \<or> launch_env m \<noteq> None)" using assms(1) by (simp add: both_registered_def)
  have rf: "roles_found r m [''host'', ''replica''] bm = (Inr [''host'', ''replica''], bm2)" by (simp add: 1(1) 2(1))
  have none: "the_role [''host'', ''replica''] = None" by (simp add: the_role_def)
  define fresh :: "(py_error + string option) \<times> boot_memo" where "fresh = (Inr None, bm2\<lparr>bm_role := Some (mc_now m, None, role_cache_key m)\<rparr>)"
  have "registered_role r m bm = (case bm_role bm of None \<Rightarrow> fresh
      | Some (t, r, key) \<Rightarrow> if mc_now m - t < 1 / 2 \<and> key = role_cache_key m then (Inr r, bm) else fresh)"
    unfolding registered_role_def fresh_def Let_def rf prod.case sum.case none using free by simp
  moreover have "no_role_known (snd fresh)" using 2(2) unfolding fresh_def no_role_known_def snd_conv by fastforce
  ultimately show ?thesis using assms(2) by (auto simp: fresh_def no_role_known_def split: option.splits)
qed

lemma both_never_named:
  assumes "\<forall>m \<in> set ms. both_registered r m" "no_role_known bm"
  shows "\<exists>bm1. await_agent (registered_role r) deadline ms bm = (Inr None, bm1)"
  using assms
proof (induction ms arbitrary: bm)
  case (Cons m ms)
  obtain bm1 where b: "registered_role r m bm = (Inr None, bm1)" "no_role_known bm1"
    using both_no_role [of r m bm] Cons.prems by auto
  obtain bm2 where "await_agent (registered_role r) deadline ms bm1 = (Inr None, bm2)"
    using Cons.IH [OF _ b(2)] Cons.prems(1) by auto
  then show ?case by (simp add: b(1))
qed simp



end
