(* ===== verification/Settings.thy ===== *)
theory Settings
  imports Colour_State Kiosk
begin

text \<open>
  The preferences of \<open>prefs.py\<close>: the properties the add-on declares with their types and ranges, the settings file that
  survives a reinstall, and the operators that change them. A property's value is the JSON value it is saved as;
  assigning follows Blender's rules for its type. The file is the document it parses to or the error of reading it.
\<close>

datatype prop_kind = PEnum "string list" | PBool | PInt int int | PString

definition PREF_KINDS :: "(string, prop_kind) dict" where
  "PREF_KINDS = [(''role'', PEnum [''HOST'', ''REPLICA'']), (''replica_address'', PString), (''bind_address'', PString),
     (''port_control'', PInt 1024 65535), (''port_hot'', PInt 1024 65535), (''port_cold'', PInt 1024 65535), (''token'', PString),
     (''enable_stream'', PBool), (''srt_port'', PInt 1024 65535), (''viewer_push'', PBool), (''viewer_port'', PInt 1024 65535),
     (''srt_latency_ms'', PInt 20 2000), (''srt_url'', PString), (''pixel_source'', PEnum [''readback'', ''screen'']),
     (''stream_bitrate_mbps'', PInt 5 400), (''stream_width'', PInt 640 7680), (''stream_fps'', PInt 5 120),
     (''ffmpeg_path'', PString), (''replica_kiosk'', PBool), (''cache_root'', PString)]"

definition SETTINGS_FIELDS :: "string list" where
  "SETTINGS_FIELDS = [''role'', ''replica_address'', ''bind_address'', ''port_control'', ''port_hot'', ''port_cold'', ''token'',
     ''enable_stream'', ''srt_port'', ''srt_url'', ''srt_latency_ms'', ''pixel_source'', ''stream_bitrate_mbps'', ''stream_width'',
     ''stream_fps'', ''ffmpeg_path'', ''replica_kiosk'', ''cache_root'']"

record addon_prefs =
  ap_values :: "(string, json) dict"
  ap_mappings :: "path_mapping list"
  ap_active :: int

definition default_prefs :: addon_prefs where
  "default_prefs = \<lparr>ap_values = [(''role'', JStr ''HOST''), (''replica_address'', JStr []), (''bind_address'', JStr ''0.0.0.0''),
     (''port_control'', JInt 9990), (''port_hot'', JInt 9991), (''port_cold'', JInt 9992), (''token'', JStr []),
     (''enable_stream'', JBool True), (''srt_port'', JInt 9998), (''viewer_push'', JBool True), (''viewer_port'', JInt 9998),
     (''srt_latency_ms'', JInt 120), (''srt_url'', JStr []), (''pixel_source'', JStr ''readback''), (''stream_bitrate_mbps'', JInt 50),
     (''stream_width'', JInt 1920), (''stream_fps'', JInt 30), (''ffmpeg_path'', JStr []), (''replica_kiosk'', JBool True),
     (''cache_root'', JStr [])], ap_mappings = [], ap_active = 0\<rparr>"

subsection \<open>Blender's properties\<close>

text \<open>A number outside a property's range is clamped, outside 32 bits refused; an enum refuses what is no item.\<close>

definition prop_value :: "prop_kind \<Rightarrow> json \<Rightarrow> py_error + json" where
  "prop_value k v = (case k of
       PString \<Rightarrow> (case v of JStr s \<Rightarrow> Inr v | _ \<Rightarrow> Inl TypeError)
     | PEnum items \<Rightarrow> (case v of JStr s \<Rightarrow> if s \<in> set items then Inr v else Inl TypeError | _ \<Rightarrow> Inl TypeError)
     | PBool \<Rightarrow> (case v of JBool b \<Rightarrow> Inr v | JInt i \<Rightarrow> if i = 0 \<or> i = 1 then Inr (JBool (i = 1)) else Inl TypeError | _ \<Rightarrow> Inl TypeError)
     | PInt lo hi \<Rightarrow> (case (case v of JInt i \<Rightarrow> Some i | JBool b \<Rightarrow> Some (of_bool b) | _ \<Rightarrow> None) of None \<Rightarrow> Inl TypeError
         | Some i \<Rightarrow> if i < - (2 ^ 31) \<or> 2 ^ 31 \<le> i then Inl ValueError else Inr (JInt (max lo (min hi i)))))"

definition pref_at :: "addon_prefs \<Rightarrow> string \<Rightarrow> json" where
  "pref_at p n = (case dget (ap_values p) n of None \<Rightarrow> JNull | Some v \<Rightarrow> v)"

definition set_pref :: "string \<Rightarrow> json \<Rightarrow> addon_prefs \<Rightarrow> py_error + addon_prefs" where
  "set_pref n v p = (case dget PREF_KINDS n of None \<Rightarrow> Inl AttributeError
     | Some k \<Rightarrow> err_bind (prop_value k v) (\<lambda>x. Inr (p\<lparr>ap_values := dset n x (ap_values p)\<rparr>)))"

subsection \<open>The settings file\<close>

definition saved_settings :: "addon_prefs \<Rightarrow> json" where
  "saved_settings p = JObj (map (\<lambda>n. (n, pref_at p n)) SETTINGS_FIELDS @ [(''path_mappings'', JList (rows_to_wire (ap_mappings p)))])"

text \<open>A field that is missing or does not fit is left as it is.\<close>

fun load_fields :: "string list \<Rightarrow> json \<Rightarrow> addon_prefs \<Rightarrow> (py_error + unit) \<times> addon_prefs" where
  "load_fields [] data p = (Inr (), p)"
| "load_fields (n # ns) data p = (case json_in (JStr n) data of Inl err \<Rightarrow> (Inl err, p)
     | Inr False \<Rightarrow> load_fields ns data p
     | Inr True \<Rightarrow> (case data of
           JObj d \<Rightarrow> (case set_pref n (the (dget d n)) p of
               Inr q \<Rightarrow> load_fields ns data q
             | Inl err \<Rightarrow> if err \<in> {TypeError, ValueError} then load_fields ns data p else (Inl err, p))
         | _ \<Rightarrow> load_fields ns data p))"

text \<open>A row is added before it is filled, so one that does not fit leaves an unfinished row behind.\<close>

definition blank_mapping :: path_mapping where
  "blank_mapping = \<lparr>pm_win = [], pm_mac = [], pm_enabled = True, pm_label = []\<rparr>"

definition fill_row :: "header \<Rightarrow> (py_error + unit) \<times> path_mapping" where
  "fill_row d = (case prop_value PString (get_or d ''win'' (JStr [])) of
       Inr (JStr w) \<Rightarrow> (let m1 = blank_mapping\<lparr>pm_win := w\<rparr> in case prop_value PString (get_or d ''mac'' (JStr [])) of
           Inr (JStr x) \<Rightarrow> (let m2 = m1\<lparr>pm_mac := x\<rparr> in case prop_value PBool (get_or d ''enabled'' (JBool True)) of
               Inr (JBool b) \<Rightarrow> (let m3 = m2\<lparr>pm_enabled := b\<rparr> in case prop_value PString (get_or d ''label'' (JStr [])) of
                   Inr (JStr l) \<Rightarrow> (Inr (), m3\<lparr>pm_label := l\<rparr>)
                 | _ \<Rightarrow> (Inl TypeError, m3))
             | _ \<Rightarrow> (Inl TypeError, m2))
         | _ \<Rightarrow> (Inl TypeError, m1))
     | _ \<Rightarrow> (Inl TypeError, blank_mapping))"

fun load_rows :: "json list \<Rightarrow> addon_prefs \<Rightarrow> (py_error + unit) \<times> addon_prefs" where
  "load_rows [] p = (Inr (), p)"
| "load_rows (r # rs) p = (case (case r of JObj d \<Rightarrow> fill_row d | _ \<Rightarrow> (Inl AttributeError, blank_mapping)) of
      (Inr _, m) \<Rightarrow> load_rows rs (p\<lparr>ap_mappings := ap_mappings p @ [m]\<rparr>)
    | (Inl err, m) \<Rightarrow> (Inl err, p\<lparr>ap_mappings := ap_mappings p @ [m]\<rparr>))"

text \<open>What a \<open>for\<close> loop takes from a JSON value.\<close>

definition json_iter :: "json \<Rightarrow> py_error + json list" where
  "json_iter v = (case v of JList xs \<Rightarrow> Inr xs | JObj d \<Rightarrow> Inr (map JStr (dkeys d)) | JStr s \<Rightarrow> Inr (map (\<lambda>c. JStr [c]) s)
     | _ \<Rightarrow> Inl TypeError)"

definition load_mappings :: "json \<Rightarrow> addon_prefs \<Rightarrow> (py_error + unit) \<times> addon_prefs" where
  "load_mappings data p = (case json_in (JStr ''path_mappings'') data of Inl err \<Rightarrow> (Inl err, p)
     | Inr False \<Rightarrow> (Inr (), p)
     | Inr True \<Rightarrow> (let q = p\<lparr>ap_mappings := []\<rparr> in case data of
           JObj d \<Rightarrow> (case json_iter (the (dget d ''path_mappings'')) of Inl err \<Rightarrow> (Inl err, q) | Inr rows \<Rightarrow> load_rows rows q)
         | _ \<Rightarrow> (Inl TypeError, q)))"

definition load_settings :: "py_error + json \<Rightarrow> addon_prefs \<Rightarrow> (py_error + bool) \<times> addon_prefs" where
  "load_settings file p = (case file of
       Inl err \<Rightarrow> (if err \<in> {OSError, ValueError} then Inr False else Inl err, p)
     | Inr data \<Rightarrow> (case load_fields SETTINGS_FIELDS data p of (Inl err, p1) \<Rightarrow> (Inl err, p1)
         | (Inr _, p1) \<Rightarrow> (case load_mappings data p1 of (Inl err, p2) \<Rightarrow> (Inl err, p2) | (Inr _, p2) \<Rightarrow> (Inr True, p2))))"

definition fresh_install :: "addon_prefs \<Rightarrow> bool" where
  "fresh_install p \<longleftrightarrow> \<not> json_true (pref_at p ''token'') \<and> \<not> json_true (pref_at p ''replica_address'') \<and> ap_mappings p = []"

definition maybe_restore :: "py_error + json \<Rightarrow> addon_prefs \<Rightarrow> (py_error + bool) \<times> addon_prefs" where
  "maybe_restore file p = (if fresh_install p then load_settings file p else (Inr False, p))"

subsection \<open>Operators\<close>

definition mapping_add :: "addon_prefs \<Rightarrow> addon_prefs" where
  "mapping_add p = p\<lparr>ap_mappings := ap_mappings p @ [blank_mapping], ap_active := int (length (ap_mappings p))\<rparr>"

text \<open>Polled on a table that is not empty; Blender's \<open>remove\<close> of an index that is none leaves the rows.\<close>

definition mapping_remove :: "addon_prefs \<Rightarrow> addon_prefs" where
  "mapping_remove p =
     (let i = ap_active p; rows = ap_mappings p;
          left = (if 0 \<le> i \<and> i < int (length rows) then take (nat i) rows @ drop (Suc (nat i)) rows else rows)
      in p\<lparr>ap_mappings := left, ap_active := min i (int (length left) - 1)\<rparr>)"

definition session_operator :: "bool \<Rightarrow> string \<Rightarrow> bool" where
  "session_operator running role \<longleftrightarrow> running \<and> role = ''HOST''"

definition session_pause :: "bool \<Rightarrow> string \<Rightarrow> bool \<Rightarrow> bool" where
  "session_pause running role paused = (if session_operator running role then \<not> paused else paused)"

definition kiosk_toggle :: "kiosk_env \<Rightarrow> time \<Rightarrow> kiosk \<times> kiosk_ui \<Rightarrow> (py_error + unit) \<times> kiosk \<times> kiosk_ui" where
  "kiosk_toggle env now st = (if kiosk_active (fst st) then exit_now env st else enter_now env now st)"

subsection \<open>Saved and loaded\<close>

definition prefs_ok :: "addon_prefs \<Rightarrow> bool" where
  "prefs_ok p \<longleftrightarrow> dkeys (ap_values p) = dkeys PREF_KINDS \<and> (\<forall>(n, k) \<in> set PREF_KINDS. prop_value k (pref_at p n) = Inr (pref_at p n))"

lemma pref_kinds_distinct: "distinct (dkeys PREF_KINDS)"
  by (simp add: PREF_KINDS_def)

lemma default_prefs_ok: "prefs_ok default_prefs"
  by (simp add: prefs_ok_def PREF_KINDS_def default_prefs_def pref_at_def prop_value_def)

lemma prop_value_idem: "prop_value k v = Inr x \<Longrightarrow> (\<forall>lo hi. k = PInt lo hi \<longrightarrow> - (2 ^ 31) \<le> lo \<and> lo \<le> hi \<and> hi < 2 ^ 31) \<Longrightarrow> prop_value k x = Inr x"
  by (auto simp: prop_value_def split: prop_kind.splits json.splits if_splits option.splits)

lemma set_pref_fields:
  assumes "set_pref n v p = Inr q"
  shows "pref_at q n' = (if n' = n then pref_at q n else pref_at p n')" "ap_mappings q = ap_mappings p" "ap_active q = ap_active p"
  using assms by (auto simp: set_pref_def err_bind_Inr pref_at_def update_conv split: option.splits)

text \<open>Whatever is loaded, every property keeps a value of its type and range.\<close>

lemma set_pref_ok:
  assumes "prefs_ok p" "set_pref n v p = Inr q"
  shows "prefs_ok q"
proof -
  obtain k x where k: "dget PREF_KINDS n = Some k" "prop_value k v = Inr x" "q = p\<lparr>ap_values := dset n x (ap_values p)\<rparr>"
    using assms(2) by (auto simp: set_pref_def err_bind_Inr split: option.splits)
  have n: "n \<in> set (dkeys PREF_KINDS)" using map_of_SomeD [OF k(1)] by force
  then have keys: "dkeys (ap_values q) = dkeys PREF_KINDS" using assms(1) k(3) by (simp add: prefs_ok_def update_keys)
  have "\<forall>(m, k) \<in> set PREF_KINDS. \<forall>lo hi. k = PInt lo hi \<longrightarrow> - (2 ^ 31) \<le> lo \<and> lo \<le> hi \<and> hi < 2 ^ 31"
    by (simp add: PREF_KINDS_def)
  moreover have "(n, k) \<in> set PREF_KINDS" using k(1) by (rule map_of_SomeD)
  ultimately have x: "prop_value k x = Inr x" by (intro prop_value_idem [OF k(2)]) auto
  have "prop_value k' (pref_at q m) = Inr (pref_at q m)" if m: "(m, k') \<in> set PREF_KINDS" for m k'
  proof (cases "m = n")
    case True
    then have "dget PREF_KINDS n = Some k'" using m pref_kinds_distinct by (simp add: map_of_eq_Some_iff)
    then have "k' = k" using k(1) by simp
    then show ?thesis using x True by (simp add: k(3) pref_at_def update_conv)
  next
    case False
    then show ?thesis using assms(1) m by (fastforce simp: prefs_ok_def k(3) pref_at_def update_conv)
  qed
  then show ?thesis using keys by (auto simp: prefs_ok_def)
qed

lemma load_fields_ok: "prefs_ok p \<Longrightarrow> prefs_ok (snd (load_fields ns data p))"
proof (induction ns arbitrary: p)
  case (Cons n ns)
  then show ?case
    by (auto split: sum.splits bool.splits json.splits dest: set_pref_ok)
qed simp

lemma load_rows_values: "ap_values (snd (load_rows rs p)) = ap_values p"
  by (induction rs arbitrary: p) (auto split: prod.splits sum.splits)

lemma prefs_ok_mappings: "prefs_ok p \<Longrightarrow> ap_values q = ap_values p \<Longrightarrow> prefs_ok q"
  by (simp add: prefs_ok_def pref_at_def)

lemma load_mappings_values: "ap_values (snd (load_mappings data p)) = ap_values p"
  by (auto simp: load_mappings_def Let_def load_rows_values split: sum.splits bool.splits json.splits)


lemma load_settings_ok:
  assumes "prefs_ok p"
  shows "prefs_ok (snd (load_settings doc p))"
proof (cases doc)
  case (Inr data)
  obtain r1 p1 where 1: "load_fields SETTINGS_FIELDS data p = (r1, p1)" by fastforce
  obtain r2 p2 where 2: "load_mappings data p1 = (r2, p2)" by fastforce
  have ok1: "prefs_ok p1" using load_fields_ok [OF assms, of SETTINGS_FIELDS data] 1 by simp
  have "ap_values p2 = ap_values p1" using load_mappings_values [of data p1] 2 by simp
  then have "prefs_ok p2" using prefs_ok_mappings [OF ok1] by blast
  then show ?thesis using ok1 by (cases r1; cases r2) (simp_all add: load_settings_def Inr 1 2)
qed (use assms in \<open>simp add: load_settings_def\<close>)

definition saved_dict :: "addon_prefs \<Rightarrow> header" where
  "saved_dict p = map (\<lambda>n. (n, pref_at p n)) SETTINGS_FIELDS @ [(''path_mappings'', JList (rows_to_wire (ap_mappings p)))]"

lemma saved_at:
  shows "n \<in> set SETTINGS_FIELDS \<Longrightarrow> dget (saved_dict p) n = Some (pref_at p n)"
    and "dget (saved_dict p) ''path_mappings'' = Some (JList (rows_to_wire (ap_mappings p)))"
proof -
  have "dget (map (\<lambda>n. (n, f n)) ns @ r) n = Some (f n)" if "n \<in> set ns" for f ns n and r :: header
    using that by (induction ns) auto
  then show "n \<in> set SETTINGS_FIELDS \<Longrightarrow> dget (saved_dict p) n = Some (pref_at p n)" by (simp add: saved_dict_def del: map_of_append)
  show "dget (saved_dict p) ''path_mappings'' = Some (JList (rows_to_wire (ap_mappings p)))"
    by (simp add: saved_dict_def SETTINGS_FIELDS_def)
qed

lemma settings_in_kinds: "n \<in> set SETTINGS_FIELDS \<Longrightarrow> \<exists>k. dget PREF_KINDS n = Some k"
  by (auto simp: SETTINGS_FIELDS_def PREF_KINDS_def)

lemma in_dict: "dget d n = Some v \<Longrightarrow> json_in (JStr n) (JObj d) = Inr True"
  by (force simp: json_in_def hashable_def dest: map_of_SomeD)

lemma load_saved_fields:
  assumes "prefs_ok p" "set ns \<subseteq> set SETTINGS_FIELDS"
  shows "\<exists>q'. load_fields ns (JObj (saved_dict p)) q = (Inr (), q') \<and> ap_mappings q' = ap_mappings q
    \<and> (\<forall>n. pref_at q' n = (if n \<in> set ns then pref_at p n else pref_at q n))"
  using assms(2)
proof (induction ns arbitrary: q)
  case (Cons n ns)
  have n: "n \<in> set SETTINGS_FIELDS" using Cons.prems by simp
  obtain k where k: "dget PREF_KINDS n = Some k" using settings_in_kinds [OF n] by blast
  have v: "prop_value k (pref_at p n) = Inr (pref_at p n)" using assms(1) map_of_SomeD [OF k] by (auto simp: prefs_ok_def)
  define q1 where "q1 = q\<lparr>ap_values := dset n (pref_at p n) (ap_values q)\<rparr>"
  have s: "set_pref n (pref_at p n) q = Inr q1" by (simp add: set_pref_def k v q1_def)
  obtain q' where q': "load_fields ns (JObj (saved_dict p)) q1 = (Inr (), q')" "ap_mappings q' = ap_mappings q1"
    "\<forall>m. pref_at q' m = (if m \<in> set ns then pref_at p m else pref_at q1 m)"
    using Cons.IH [of q1] Cons.prems by auto
  have "pref_at q1 m = (if m = n then pref_at p n else pref_at q m)" for m by (simp add: q1_def pref_at_def update_conv)
  moreover have "load_fields (n # ns) (JObj (saved_dict p)) q = (Inr (), q')"
    using in_dict [OF saved_at(1) [OF n, of p]] by (simp add: saved_at(1) [OF n] s q'(1))
  moreover have "ap_mappings q1 = ap_mappings q" by (simp add: q1_def)
  ultimately show ?case using q'(2,3) by auto
qed simp

lemma load_saved_rows: "load_rows (rows_to_wire ms) p = (Inr (), p\<lparr>ap_mappings := ap_mappings p @ ms\<rparr>)"
  by (induction ms arbitrary: p) (simp_all add: rows_to_wire_def fill_row_def prop_value_def get_or_def blank_mapping_def Let_def)

text \<open>C31: The settings file brings back what it was given: loading what was saved from one set of preferences into any other
  gives every saved field and the whole mapping table back, rows in order, with nothing raised. The two fields of the
  stream to QCView, whether the replica calls this machine and on which port, are not in the file: they stay as they were,
  which on a fresh install is the default.\<close>

theorem settings_roundtrip:
  assumes "prefs_ok p"
  shows "case load_settings (Inr (saved_settings p)) q of (r, q') \<Rightarrow> r = Inr True \<and> ap_mappings q' = ap_mappings p
    \<and> list_all (\<lambda>n. pref_at q' n = pref_at p n) SETTINGS_FIELDS
    \<and> pref_at q' ''viewer_push'' = pref_at q ''viewer_push'' \<and> pref_at q' ''viewer_port'' = pref_at q ''viewer_port''"
proof -
  obtain q1 where q1: "load_fields SETTINGS_FIELDS (JObj (saved_dict p)) q = (Inr (), q1)"
    "\<forall>n. pref_at q1 n = (if n \<in> set SETTINGS_FIELDS then pref_at p n else pref_at q n)"
    using load_saved_fields [OF assms order_refl] by blast
  have "load_mappings (JObj (saved_dict p)) q1 = (Inr (), q1\<lparr>ap_mappings := ap_mappings p\<rparr>)"
    using in_dict [OF saved_at(2) [of p]] by (simp add: load_mappings_def saved_at(2) json_iter_def load_saved_rows)
  then have "load_settings (Inr (saved_settings p)) q = (Inr True, q1\<lparr>ap_mappings := ap_mappings p\<rparr>)"
    by (simp add: load_settings_def saved_settings_def saved_dict_def [symmetric] q1(1))
  moreover have "pref_at (q1\<lparr>ap_mappings := ap_mappings p\<rparr>) n = pref_at q1 n" for n by (simp add: pref_at_def)
  moreover have "''viewer_push'' \<notin> set SETTINGS_FIELDS" "''viewer_port'' \<notin> set SETTINGS_FIELDS" by (simp_all add: SETTINGS_FIELDS_def)
  ultimately show ?thesis using q1(2) by (simp add: list_all_iff)
qed

definition demo_custom :: addon_prefs where
  "demo_custom = default_prefs\<lparr>ap_values := dset ''viewer_port'' (JInt 9000) (dset ''token'' (JStr ''t'') (ap_values default_prefs)),
     ap_mappings := [\<lparr>pm_win = ''P:'', pm_mac = ''/p'', pm_enabled = False, pm_label = ''projects''\<rparr>]\<rparr>"

lemma settings_roundtrip_witness:
  "case load_settings (Inr (saved_settings demo_custom)) default_prefs of (r, q') \<Rightarrow> r = Inr True \<and> ap_mappings q' = ap_mappings demo_custom
    \<and> pref_at q' ''token'' = JStr ''t'' \<and> pref_at q' ''viewer_port'' = JInt 9998"
proof -
  have "prefs_ok demo_custom"
    by (simp add: prefs_ok_def PREF_KINDS_def demo_custom_def default_prefs_def pref_at_def prop_value_def)
  from settings_roundtrip [OF this, of default_prefs] show ?thesis
    by (auto simp: SETTINGS_FIELDS_def demo_custom_def default_prefs_def pref_at_def split: prod.splits)
qed

text \<open>A row that is no object stops the load half way, with the table it was to replace gone.\<close>

lemma broken_row_wipes_mappings:
  "load_settings (Inr (JObj [(''path_mappings'', JList [JNull])])) p = (Inl AttributeError, p\<lparr>ap_mappings := [blank_mapping]\<rparr>)"
proof -
  have "load_fields ns (JObj [(''path_mappings'', JList [JNull])]) p = (Inr (), p)" if "''path_mappings'' \<notin> set ns" for ns
    using that by (induction ns) (auto simp: json_in_def hashable_def)
  then have "load_fields SETTINGS_FIELDS (JObj [(''path_mappings'', JList [JNull])]) p = (Inr (), p)"
    by (simp add: SETTINGS_FIELDS_def del: load_fields.simps)
  then show ?thesis
    by (simp add: load_settings_def load_mappings_def json_in_def hashable_def json_iter_def Let_def)
qed

end
