(* ===== verification/Hot_Sampler.thy ===== *)
theory Hot_Sampler
  imports Protocol
begin

text \<open>
  \<open>ring0/host_hot.py\<close>: the host's sampler of the viewport. The module's globals are the record \<open>sampler\<close>, an area is its
  type, its size and the view in it; the areas are those of all windows in order. Blender's floats are single precision
  and go into the packet as they are. The clock and the environment variables are arguments.
\<close>

record hot_view =
  hv_rotation :: "real \<times> real \<times> real \<times> real"
  hv_matrix :: "f32 list"
  hv_lens :: f32
  hv_clip_start :: f32
  hv_clip_end :: f32
  hv_is_persp :: bool
  hv_perspective :: string
  hv_zoom :: f32
  hv_offset :: "f32 \<times> f32"

record screen_area =
  ar_type :: string
  ar_width :: nat
  ar_height :: nat
  ar_view :: hot_view

record sampler =
  sp_on :: bool
  sp_interval :: real
  sp_probe :: bool
  sp_seq :: int
  sp_orbit :: real

text \<open>\<open>_target_view\<close>: the first of the largest 3D viewports, with its place among the areas.\<close>

definition area_size :: "screen_area \<Rightarrow> nat" where
  "area_size a = ar_width a * ar_height a"

definition larger_view :: "nat \<times> screen_area \<Rightarrow> (nat \<times> screen_area) option \<Rightarrow> (nat \<times> screen_area) option" where
  "larger_view ia best = (if ar_type (snd ia) \<noteq> ''VIEW_3D'' then best
     else case best of None \<Rightarrow> Some ia | Some b \<Rightarrow> if area_size (snd b) < area_size (snd ia) then Some ia else best)"

definition target_view :: "screen_area list \<Rightarrow> (nat \<times> screen_area) option" where
  "target_view areas = fold larger_view (enumerate 0 areas) None"

text \<open>A turn about the world's z axis, and the product of quaternions.\<close>

definition z_turn :: "real \<Rightarrow> real \<times> real \<times> real \<times> real" where
  "z_turn a = (cos (a / 2), 0, 0, sin (a / 2))"

definition quat_mul :: "real \<times> real \<times> real \<times> real \<Rightarrow> real \<times> real \<times> real \<times> real \<Rightarrow> real \<times> real \<times> real \<times> real" where
  "quat_mul p q = (case (p, q) of ((a, b, c, d), (w, x, y, z)) \<Rightarrow>
     (a * w - b * x - c * y - d * z, a * x + b * w + c * z - d * y, a * y - b * z + c * w + d * x, a * z + b * y - c * x + d * w))"

definition orbit :: "sampler \<Rightarrow> hot_view \<Rightarrow> hot_view" where
  "orbit s v = (if sp_orbit s \<noteq> 0 \<and> hv_perspective v \<noteq> ''CAMERA''
     then v\<lparr>hv_rotation := quat_mul (z_turn (sp_orbit s * sp_interval s)) (hv_rotation v)\<rparr> else v)"

text \<open>The packet; the view matrix follows the rotation only when the view is drawn again.\<close>

definition hot_sample :: "sampler \<Rightarrow> int \<Rightarrow> f64 \<Rightarrow> hot_view \<Rightarrow> hot_state" where
  "hot_sample s frame now v = \<lparr>hs_frame = frame, hs_view_matrix = hv_matrix v, hs_lens = hv_lens v, hs_clip_start = hv_clip_start v,
     hs_clip_end = hv_clip_end v, hs_is_persp = hv_is_persp v, hs_hold = False, hs_camera = (hv_perspective v = ''CAMERA''),
     hs_cam_zoom = hv_zoom v, hs_cam_offset = hv_offset v, hs_t_host = (if sp_probe s then now else 0),
     hs_probe_seq = take_bit 16 (sp_seq s)\<rparr>"

text \<open>
  One tick: when to come back (\<open>None\<close> unregisters the timer), what is sent, the state and the areas after it. A field that
  does not fit the packet raises after the probe's number was taken.
\<close>

definition hot_tick :: "int \<Rightarrow> f64 \<Rightarrow> sampler \<times> screen_area list
    \<Rightarrow> (py_error + real option \<times> byte list option) \<times> sampler \<times> screen_area list" where
  "hot_tick frame now st = (case st of (s, areas) \<Rightarrow>
     if \<not> sp_on s then (Inr (None, None), s, areas)
     else case target_view areas of None \<Rightarrow> (Inr (Some (sp_interval s), None), s, areas)
       | Some (i, a) \<Rightarrow>
           let v = orbit s (ar_view a); areas1 = areas[i := a\<lparr>ar_view := v\<rparr>]; s1 = s\<lparr>sp_seq := sp_seq s + 1\<rparr>
           in (case hot_pack (hot_sample s frame now v) of
                 Inl err \<Rightarrow> (Inl err, s1, areas1)
               | Inr bs \<Rightarrow> (Inr (Some (sp_interval s), Some bs), s1, areas1)))"

text \<open>\<open>probe.hot_hz\<close>, \<open>enabled\<close> and \<open>orbit_deg_per_s\<close>; a variable that is no number counts as not set.\<close>

definition env_float :: "real option \<Rightarrow> real \<Rightarrow> real" where
  "env_float v d = (case v of None \<Rightarrow> d | Some x \<Rightarrow> x)"

definition hot_hz :: "real option \<Rightarrow> real" where "hot_hz v = max 1 (env_float v 30)"

definition probe_enabled :: "string option \<Rightarrow> bool" where "probe_enabled v \<longleftrightarrow> v = Some ''1''"

definition orbit_deg_per_s :: "real option \<Rightarrow> real" where "orbit_deg_per_s v = env_float v 0"

definition hot_start :: "real option \<Rightarrow> string option \<Rightarrow> real option \<Rightarrow> sampler \<Rightarrow> sampler" where
  "hot_start hz probe deg s = s\<lparr>sp_on := True, sp_interval := 1 / hot_hz hz, sp_probe := probe_enabled probe,
     sp_orbit := (if probe_enabled probe then orbit_deg_per_s deg * pi / 180 else 0)\<rparr>"

definition hot_stop :: "sampler \<Rightarrow> sampler" where
  "hot_stop s = s\<lparr>sp_on := False\<rparr>"

lemma hot_interval: "0 < sp_interval (hot_start hz probe deg s) \<and> sp_interval (hot_start hz probe deg s) \<le> 1"
  by (simp add: hot_start_def hot_hz_def)

lemma stopped_unregisters: "hot_tick frame now (hot_stop s, areas) = (Inr (None, None), hot_stop s, areas)"
  by (simp add: hot_tick_def hot_stop_def)

subsection \<open>The viewport that is sampled\<close>

lemma larger_view_from: "fold larger_view xs best = Some c \<Longrightarrow> best = Some c \<or> c \<in> set xs \<and> ar_type (snd c) = ''VIEW_3D''"
  by (induction xs arbitrary: best) (fastforce simp: larger_view_def split: if_splits option.splits)+

lemma larger_view_step:
  shows "best = Some b \<Longrightarrow> \<exists>c. larger_view x best = Some c \<and> area_size (snd b) \<le> area_size (snd c)"
    and "ar_type (snd x) = ''VIEW_3D'' \<Longrightarrow> \<exists>c. larger_view x best = Some c \<and> area_size (snd x) \<le> area_size (snd c)"
proof -
  show "\<exists>c. larger_view x best = Some c \<and> area_size (snd b) \<le> area_size (snd c)" if "best = Some b"
    using that by (cases "ar_type (snd x) = ''VIEW_3D'' \<and> area_size (snd b) < area_size (snd x)") (auto simp: larger_view_def simp del: split_paired_Ex)
  show "\<exists>c. larger_view x best = Some c \<and> area_size (snd x) \<le> area_size (snd c)" if "ar_type (snd x) = ''VIEW_3D''"
  proof (cases best)
    case (Some b)
    then show ?thesis using that by (cases "area_size (snd b) < area_size (snd x)") (simp_all add: larger_view_def)
  qed (use that in \<open>simp add: larger_view_def\<close>)
qed

lemma larger_view_keeps: "best = Some b \<Longrightarrow> \<exists>c. fold larger_view xs best = Some c \<and> area_size (snd b) \<le> area_size (snd c)"
proof (induction xs arbitrary: best b)
  case (Cons x xs)
  obtain b' where b': "larger_view x best = Some b'" "area_size (snd b) \<le> area_size (snd b')"
    using larger_view_step(1) [OF Cons.prems, of x] by blast
  show ?case using Cons.IH [OF b'(1)] b'(2) by auto
qed simp

lemma larger_view_most:
  "x \<in> set xs \<Longrightarrow> ar_type (snd x) = ''VIEW_3D'' \<Longrightarrow> \<exists>c. fold larger_view xs best = Some c \<and> area_size (snd x) \<le> area_size (snd c)"
proof (induction xs arbitrary: best)
  case (Cons y xs)
  show ?case
  proof (cases "x = y")
    case True
    then obtain b' where b': "larger_view y best = Some b'" "area_size (snd x) \<le> area_size (snd b')"
      using larger_view_step(2) [of y best] Cons.prems(2) by blast
    show ?thesis using larger_view_keeps [OF b'(1), of xs] b'(2) by auto
  next
    case False
    then show ?thesis using Cons.IH [of "larger_view y best"] Cons.prems by auto
  qed
qed simp

lemma target_view_largest:
  assumes "a \<in> set areas" "ar_type a = ''VIEW_3D''"
  shows "\<exists>i b. target_view areas = Some (i, b) \<and> i < length areas \<and> areas ! i = b \<and> ar_type b = ''VIEW_3D''
    \<and> list_all (\<lambda>c. area_size c \<le> area_size b) (filter (\<lambda>c. ar_type c = ''VIEW_3D'') areas)"
proof -
  have en: "\<exists>i. (i, c) \<in> set (enumerate 0 areas)" if mem: "c \<in> set areas" for c
  proof -
    obtain i where i: "i < length areas" "areas ! i = c" using mem by (auto simp: in_set_conv_nth)
    then have "(i, c) \<in> set (enumerate 0 areas)" by (simp add: in_set_enumerate_eq)
    then show ?thesis ..
  qed
  have big: "\<exists>r. target_view areas = Some r \<and> area_size c \<le> area_size (snd r)" if "c \<in> set areas" "ar_type c = ''VIEW_3D''" for c
    using en [OF that(1)] that(2) larger_view_most [where xs = "enumerate 0 areas" and best = None] by (fastforce simp: target_view_def)
  obtain i b where r: "target_view areas = Some (i, b)" using big [OF assms] by auto
  have "(i, b) \<in> set (enumerate 0 areas) \<and> ar_type b = ''VIEW_3D''"
    using larger_view_from [of "enumerate 0 areas" None "(i, b)"] r by (simp add: target_view_def)
  moreover from this have "i < length areas" "areas ! i = b" by (simp_all add: in_set_enumerate_eq)
  ultimately show ?thesis using r big by (auto simp: list_all_iff)
qed

text \<open>What the replica reads is what the artist sees: with a 3D viewport open, a tick sends one packet, which unpacks on the
  other side to the frame and the whole view of a viewport that none of the others is larger than; the clock and the
  number of the probe are in it exactly when probing with a clock that is not zero.\<close>

theorem sample_shows_largest_view:
  assumes "sp_on s" "a \<in> set areas" "ar_type a = ''VIEW_3D''" "- (2 ^ 31) \<le> frame" "frame < 2 ^ 31"
    and "list_all (\<lambda>a. length (hv_matrix (ar_view a)) = 16) areas"
  shows "\<exists>b bs. b \<in> set areas \<and> ar_type b = ''VIEW_3D'' \<and> list_all (\<lambda>c. area_size c \<le> area_size b) (filter (\<lambda>c. ar_type c = ''VIEW_3D'') areas)
    \<and> fst (hot_tick frame now (s, areas)) = Inr (Some (sp_interval s), Some bs)
    \<and> unpack_hot bs = Some (if sp_probe s \<and> f64_true now then hot_sample s frame now (ar_view b)
        else (hot_sample s frame now (ar_view b))\<lparr>hs_t_host := 0, hs_probe_seq := 0\<rparr>)"
proof -
  obtain i b where b: "target_view areas = Some (i, b)" "i < length areas" "areas ! i = b" "ar_type b = ''VIEW_3D''"
    "list_all (\<lambda>c. area_size c \<le> area_size b) (filter (\<lambda>c. ar_type c = ''VIEW_3D'') areas)"
    using target_view_largest [OF assms(2,3)] by blast
  have mem: "b \<in> set areas" using b(2,3) by auto
  define h where "h = hot_sample s frame now (ar_view b)"
  have same: "hot_sample s frame now (orbit s (ar_view b)) = h" by (simp add: h_def hot_sample_def orbit_def)
  have m: "length (hs_view_matrix h) = 16" using assms(6) mem by (simp add: h_def hot_sample_def list_all_iff)
  have "0 \<le> hs_probe_seq h" "hs_probe_seq h < 256 ^ 4"
    using take_bit_int_less_exp [of 16 "sp_seq s"] by (simp_all add: h_def hot_sample_def)
  then have "\<exists>bs. hot_pack h = Inr bs"
    using assms(4,5) m hot_flags_bits(4,5) [of h]
    by (simp add: hot_pack_def hot_pack_core_def pack_uint_def pack_sint32_def, simp add: h_def hot_sample_def)
  then obtain bs where bs: "hot_pack h = Inr bs" ..
  have "fst (hot_tick frame now (s, areas)) = Inr (Some (sp_interval s), Some bs)"
    using assms(1) by (simp add: hot_tick_def b(1) same bs Let_def)
  moreover have "unpack_hot bs = Some (if sp_probe s \<and> f64_true now then h else h\<lparr>hs_t_host := 0, hs_probe_seq := 0\<rparr>)"
    using hot_pack_roundtrip [OF bs] by (simp add: h_def hot_sample_def f64_true_def)
  ultimately show ?thesis using mem b(4,5) unfolding h_def by blast
qed

definition demo_area :: "nat \<Rightarrow> screen_area" where
  "demo_area w = \<lparr>ar_type = ''VIEW_3D'', ar_width = w, ar_height = 10, ar_view = \<lparr>hv_rotation = (1, 0, 0, 0), hv_matrix = replicate 16 0,
     hv_lens = 1, hv_clip_start = 2, hv_clip_end = 3, hv_is_persp = True, hv_perspective = ''PERSP'', hv_zoom = 4, hv_offset = (5, 6)\<rparr>\<rparr>"

lemma sample_shows_largest_view_witness:
  "\<exists>b bs. b \<in> set [demo_area 10, demo_area 20] \<and> area_size (demo_area 20) \<le> area_size b
    \<and> fst (hot_tick 7 0 (hot_start None None None \<lparr>sp_on = False, sp_interval = 1, sp_probe = False, sp_seq = 3, sp_orbit = 0\<rparr>,
        [demo_area 10, demo_area 20])) = Inr (Some (1 / 30), Some bs)
    \<and> map_option hs_frame (unpack_hot bs) = Some 7"
  using sample_shows_largest_view [where s = "hot_start None None None \<lparr>sp_on = False, sp_interval = 1, sp_probe = False, sp_seq = 3, sp_orbit = 0\<rparr>"
      and a = "demo_area 10" and areas = "[demo_area 10, demo_area 20]" and frame = 7 and now = 0]
  by (fastforce simp: hot_start_def hot_hz_def env_float_def probe_enabled_def demo_area_def hot_sample_def)

end
