(* ===== verification/Bootstrap_File.thy ===== *)
theory Bootstrap_File
  imports Localize Readback Kiosk
begin

text \<open>
  \<open>apply_mainfile\<close> of \<open>ring0/bootstrap.py\<close>: the shipped project file is opened, its paths are pointed at this machine,
  its scenes are set up for the replica and the kiosk is asserted again. What opening the file gives, or that it raised,
  is an argument; a collection of Blender's data is the list of its datablocks.
\<close>

definition PATH_COLLECTIONS :: "string list" where
  "PATH_COLLECTIONS = [''images'', ''libraries'', ''movieclips'', ''sounds'', ''fonts'', ''volumes'', ''cache_files'']"

text \<open>A scene has Cycles' device only when that add-on is there.\<close>

record boot_scene =
  bs_device :: "string option"
  bs_render :: scene_render

record main_file =
  mf_colls :: "string \<Rightarrow> path_db list"
  mf_objects :: "sim_object list"
  mf_scenes :: "boot_scene list"

definition project_here :: "path_env \<Rightarrow> path_mapping list \<Rightarrow> string \<Rightarrow> string" where
  "project_here env maps project_dir =
     (let local_dir = (if project_dir = [] then [] else from_canonical (pe_os env) (pe_home env) project_dir maps)
      in if pe_dir env local_dir = None then [] else local_dir)"

fun localize_paths :: "path_env \<Rightarrow> string \<Rightarrow> path_mapping list \<Rightarrow> path_db list \<Rightarrow> (tally \<times> string list) \<times> path_db list" where
  "localize_paths env dir maps [] = (((0, 0, 0), []), [])"
| "localize_paths env dir maps (b # bs) = (case (localize_db env dir maps b, localize_paths env dir maps bs) of
      (((n, left), b'), ((k, later), bs')) \<Rightarrow> ((tally_add n k, left @ later), b' # bs'))"

fun localize_colls :: "path_env \<Rightarrow> string \<Rightarrow> path_mapping list \<Rightarrow> string list \<Rightarrow> (string \<Rightarrow> path_db list)
    \<Rightarrow> (tally \<times> string list) \<times> (string \<Rightarrow> path_db list)" where
  "localize_colls env dir maps [] colls = (((0, 0, 0), []), colls)"
| "localize_colls env dir maps (c # cs) colls = (case localize_paths env dir maps (colls c) of ((n, left), bs) \<Rightarrow>
     (case localize_colls env dir maps cs (colls(c := bs)) of ((k, later), colls') \<Rightarrow> ((tally_add n k, left @ later), colls')))"

definition boot_scenes :: "boot_scene list \<Rightarrow> readback \<Rightarrow> boot_scene list" where
  "boot_scenes scs rb = map (\<lambda>s. s\<lparr>bs_device := map_option (\<lambda>_. ''GPU'') (bs_device s), bs_render := fst (adopt_scene (bs_render s) rb)\<rparr>) scs"

definition boot_adopted :: "boot_scene list \<Rightarrow> readback \<Rightarrow> readback" where
  "boot_adopted scs rb = fold (\<lambda>s r. snd (adopt_scene (bs_render s) r)) scs rb"

text \<open>The answer is \<open>(errors, unmapped, local_dir)\<close>; the list is \<open>last_unmapped\<close>.\<close>

definition apply_mainfile :: "path_env \<Rightarrow> path_mapping list \<Rightarrow> string \<Rightarrow> time \<Rightarrow> (main_file \<times> kiosk_ui) option
    \<Rightarrow> readback \<times> kiosk \<Rightarrow> (nat \<times> nat \<times> string) \<times> string list \<times> (main_file \<times> kiosk_ui) option \<times> readback \<times> kiosk" where
  "apply_mainfile env maps project_dir now opened st = (case (opened, st) of
       (None, rb, k) \<Rightarrow> ((1, 0, []), [], None, rb, k)
     | (Some (f, ui), rb, k) \<Rightarrow>
         let dir = project_here env maps project_dir
         in case localize_colls env dir maps PATH_COLLECTIONS (mf_colls f) of (((f1, u1, e1), left), colls) \<Rightarrow>
            case localize_objects env dir maps (mf_objects f) of ((f2, u2, e2), obs) \<Rightarrow>
              ((e1 + e2, u1 + u2, dir), left,
               Some (\<lparr>mf_colls = colls, mf_objects = obs, mf_scenes = boot_scenes (mf_scenes f) rb\<rparr>, prepare_viewport ui),
               boot_adopted (mf_scenes f) rb, kiosk_reassert now k))"

subsection \<open>Nothing is made up\<close>

definition relative_db :: "path_db \<Rightarrow> bool" where
  "relative_db b \<longleftrightarrow> (case db_path b of None \<Rightarrow> False | Some p \<Rightarrow> startswith p [slash, slash])"

lemma relative_stays:
  assumes "relative_db b"
  shows "\<exists>e. localize_db env [] maps b = (((0, 1, 0), [e]), b)"
  using assms by (auto simp: relative_db_def localize_db_def place_def moved_def Let_def split: option.splits)

definition kept_relative :: "path_db list \<Rightarrow> path_db list \<Rightarrow> bool" where
  "kept_relative bs bs' \<longleftrightarrow> list_all2 (\<lambda>b b'. relative_db b \<longrightarrow> b' = b) bs bs'"

definition unmapped_of :: "tally \<times> string list \<Rightarrow> nat" where
  "unmapped_of t = fst (snd (fst t))"

lemma unmapped_add: "unmapped_of (tally_add n k, l) = unmapped_of (n, l') + unmapped_of (k, l'')"
  by (cases n; cases k) (simp add: unmapped_of_def tally_add_def)

lemma localize_paths_relative:
  "kept_relative bs (snd (localize_paths env [] maps bs))
    \<and> length (filter relative_db bs) \<le> unmapped_of (fst (localize_paths env [] maps bs))"
proof (induction bs)
  case (Cons b bs)
  obtain k later bs' where r: "localize_paths env [] maps bs = ((k, later), bs')" by (metis surj_pair)
  obtain n left b' where b: "localize_db env [] maps b = ((n, left), b')" by (metis surj_pair)
  have one: "relative_db b \<Longrightarrow> b' = b \<and> unmapped_of (n, left) = 1" using relative_stays [of b env maps] b by (auto simp: unmapped_of_def)
  show ?case using Cons.IH one unmapped_add [of n k "left @ later" left later]
    by (auto simp: r b kept_relative_def)
qed (simp add: kept_relative_def unmapped_of_def)

lemma localize_colls_relative:
  assumes "distinct cs"
  shows "(\<forall>c \<in> set cs. kept_relative (colls c) (snd (localize_colls env [] maps cs colls) c))
    \<and> (\<forall>c. c \<notin> set cs \<longrightarrow> snd (localize_colls env [] maps cs colls) c = colls c)
    \<and> length (filter relative_db (concat (map colls cs))) \<le> unmapped_of (fst (localize_colls env [] maps cs colls))"
  using assms
proof (induction cs arbitrary: colls)
  case (Cons c cs)
  obtain n left bs where p: "localize_paths env [] maps (colls c) = ((n, left), bs)" by (metis surj_pair)
  obtain k later colls' where q: "localize_colls env [] maps cs (colls(c := bs)) = ((k, later), colls')" by (metis surj_pair)
  have same: "map (colls(c := bs)) cs = map colls cs" using Cons.prems by (auto intro: map_cong)
  have rest: "\<forall>d \<in> set cs. kept_relative (colls d) (colls' d)" "\<forall>d. d \<notin> set cs \<longrightarrow> colls' d = (colls(c := bs)) d"
    "length (filter relative_db (concat (map colls cs))) \<le> unmapped_of (k, later)"
    using Cons.IH [of "colls(c := bs)"] Cons.prems unfolding q same by (auto split: if_splits)
  have here: "kept_relative (colls c) bs" "length (filter relative_db (colls c)) \<le> unmapped_of (n, left)"
    using localize_paths_relative [of "colls c" env maps] by (simp_all add: p)
  have "unmapped_of (tally_add n k, left @ later) = unmapped_of (n, left) + unmapped_of (k, later)" by (rule unmapped_add)
  then show ?case using Cons.prems rest here by (auto simp: p q)
qed (simp add: unmapped_of_def)

text \<open>A project directory this machine cannot see makes no path up: when it is mapped to no directory here, or there is
  none, every datablock with a path relative to the project keeps it, each of them is counted as unmapped, and no directory
  is reported to the blobs that follow.\<close>

theorem missing_project_makes_nothing_up:
  assumes "project_here env maps project_dir = []"
  shows "case apply_mainfile env maps project_dir now (Some (f, ui)) st of ((e, u, dir), left, opened, st') \<Rightarrow>
     dir = [] \<and> length (filter relative_db (concat (map (mf_colls f) PATH_COLLECTIONS))) \<le> u
     \<and> (case opened of None \<Rightarrow> False | Some (f', ui') \<Rightarrow> list_all (\<lambda>c. kept_relative (mf_colls f c) (mf_colls f' c)) PATH_COLLECTIONS)"
proof -
  have d: "distinct PATH_COLLECTIONS" by (simp add: PATH_COLLECTIONS_def)
  obtain f1 u1 e1 left colls where c: "localize_colls env [] maps PATH_COLLECTIONS (mf_colls f) = (((f1, u1, e1), left), colls)"
    by (metis surj_pair)
  obtain f2 u2 e2 obs where o: "localize_objects env [] maps (mf_objects f) = ((f2, u2, e2), obs)" by (metis surj_pair)
  obtain rb k where st: "st = (rb, k)" by (cases st)
  have r: "\<forall>n \<in> set PATH_COLLECTIONS. kept_relative (mf_colls f n) (colls n)"
    "length (filter relative_db (concat (map (mf_colls f) PATH_COLLECTIONS))) \<le> u1"
    using localize_colls_relative [OF d, of "mf_colls f" env maps] unfolding c by (simp_all add: unmapped_of_def)
  then show ?thesis
    unfolding apply_mainfile_def assms st prod.case option.case Let_def c o by (simp add: list_all_iff del: map_eq_conv)
qed

definition demo_away_env :: path_env where
  "demo_away_env = \<lparr>pe_os = ''mac'', pe_home = ''/u'', pe_nt_abs = (\<lambda>d ps. d), pe_exists = (\<lambda>p. False), pe_dir = (\<lambda>p. None),
     pe_reloads = (\<lambda>p. True)\<rparr>"

definition demo_main :: main_file where
  "demo_main = \<lparr>mf_colls = (\<lambda>c. if c = ''images'' then [\<lparr>pd_type = ''Image'', pd_name = ''a'', pd_path = Some ''//t/a.png'',
     pd_packed = False, pd_reloads = True, pd_editable = True\<rparr>] else []), mf_objects = [], mf_scenes = []\<rparr>"

lemma missing_project_makes_nothing_up_witness:
  "\<forall>st. case apply_mainfile demo_away_env [] ''P:/show'' 0 (Some (demo_main, demo_ui)) st of ((e, u, dir), left, opened, st') \<Rightarrow>
     dir = [] \<and> 1 \<le> u"
proof
  fix st
  have h: "project_here demo_away_env [] ''P:/show'' = []" by (simp add: project_here_def demo_away_env_def Let_def)
  have "length (filter relative_db (concat (map (mf_colls demo_main) PATH_COLLECTIONS))) = 1"
    by (simp add: PATH_COLLECTIONS_def demo_main_def relative_db_def db_path_def startswith_def)
  then show "case apply_mainfile demo_away_env [] ''P:/show'' 0 (Some (demo_main, demo_ui)) st of ((e, u, dir), left, opened, st') \<Rightarrow>
      dir = [] \<and> 1 \<le> u"
    using missing_project_makes_nothing_up [OF h, where now = 0 and f = demo_main and ui = demo_ui and st = st] by (auto split: prod.splits)
qed

end
