(* ===== verification/Spec2Isabelle.thy ===== *)
theory Spec2Isabelle
  imports Dirty_Set Probe Merge Registry Fast_Log Resync Shadow Visview Frame_Ring Pathmap Timeline Toolbox
    Transport_Agent Transport_Zmq Session_Claims Pixel_Path Vis_Apply Snapshot_Build
    Blob_Apply Readback Kiosk Agent_Boot Settings Hot_Sampler Bootstrap_File
begin

text \<open>
  A verification library for QCBridge, a Blender add-on that keeps a replica's scene equal to a host's and streams
  the replica's viewport back. The program is Python under \<open>src/qcbridge\<close>: \<open>ring1\<close> holds pure logic, \<open>ring0\<close> what
  touches Blender. Paths below are relative to \<open>src/qcbridge\<close>.

  The parts and how they interact. On the host, \<open>ring0/host_handlers.py\<close> (HostSync) watches the scene: it classifies
  changes and debounces them (\<open>classifier.py\<close>), remembers what is dirty (\<open>dirtyset.py\<close>), diffs tracked properties
  against a shadow (\<open>shadow.py\<close>) and sends property deltas on the fast lane and serialized datablocks on the cold
  lane; what left on the fast lane is logged (\<open>fastlog.py\<close>) so that a lost fast message can be re-asserted. Messages
  are packed by \<open>protocol.py\<close> and carried by a transport: the agent transport (\<open>transport_agent.py\<close>, a framed pipe to
  a helper process) or zmq (\<open>transport_zmq.py\<close>). On the replica the two lanes are merged into one order
  (\<open>merge.py\<close>), applied by \<open>ring0/replica_apply.py\<close>, and losses are answered with resync requests the host's
  policy (\<open>liveness.py\<close>) rate-limits and answers in full or as a difference (\<open>resync.py\<close>). \<open>ring0/session.py\<close> starts
  and stops both roles, runs the handshake and watches the peer. The pixel path (\<open>ring0/pixel_path.py\<close>) supervises an
  encoder that reads the frame ring (\<open>ring0/frame_ring.py\<close>, \<open>ring1/ring_layout.py\<close>).
\<close>

text \<open>
  Conventions. A Python dict is an association list in insertion order (\<open>Prelude\<close>), JSON values and the text they
  are parsed from are in \<open>Json\<close>, \<open>struct\<close> packing in \<open>Byte_Codec\<close> on machine words. Python's unbounded integers are
  \<open>int\<close>, sequence numbers are \<open>nat\<close>, time is real. An exception is \<open>Inl\<close> of a \<open>py_error\<close>; a method that changes an
  object and may raise is a state transformer with exceptions (\<open>State_Exc\<close>: sequencing, try, finally, loops, and its
  rules for invariants), and the state reached before an exception is kept, as in Python. A thread is modelled by
  atomic steps between which the others run. Blender, the operating system, hash functions, sockets and the clock are
  parameters: arguments of the definitions, or the record of what one operation reads (\<open>host_env\<close>, \<open>replica_env\<close>).
  Texts are lists of Latin-1 characters; a status text with other characters is a constructor of a datatype.

  Theories and sources.
  \<^item> Host data: \<open>Dirty_Set\<close> (\<open>ring1/dirtyset.py\<close>, \<open>ring1/classifier.py\<close>), \<open>Registry\<close> (\<open>ring1/registry.py\<close>), \<open>Identity\<close>
    (\<open>ring0/identity.py\<close>), \<open>Shadow\<close> (\<open>ring1/shadow.py\<close>), \<open>Fast_Log\<close> (\<open>ring1/fastlog.py\<close>), \<open>Resync\<close>
    (\<open>ring1/resync.py\<close>), \<open>Liveness\<close> (\<open>ring1/liveness.py\<close>), \<open>Visview\<close> (\<open>ring1/visview.py\<close>).
  \<^item> HostSync (\<open>ring0/host_handlers.py\<close>): \<open>Host_State\<close> (the object and its environment), \<open>Host_Send\<close> (numbering, deltas
    and blobs), \<open>Host_Flush\<close> (the queues, sweeps, resyncs and the flush timer), \<open>Host_Lanes\<close> (the log of what the
    transport took) and \<open>Host_Claims\<close>. What the host reads of a datablock: \<open>Snapshot\<close> (settings, pose and custom-property
    digests, animation, cache and node signatures) and \<open>Snapshot_Build\<close> (\<open>build_snapshot\<close>, the sweep vector, and
    \<open>_write_rna\<close> of the replica, which writes what a snapshot's difference carries).
  \<^item> Replica (\<open>ring0/replica_apply.py\<close>): \<open>Merge\<close> (\<open>ring1/merge.py\<close>), \<open>Replica_State\<close>, \<open>Replica_Apply\<close> (one message),
    \<open>Replica_Loop\<close> (order of application), \<open>Replica_Tick\<close> (the timer, sessions), \<open>Replica_Keeps\<close> and \<open>Replica_Claims\<close>.
    What it does to the followed viewport: \<open>Viewport\<close> (\<open>_apply_hot\<close>, shot mode in \<open>_service_shot\<close>, the layer
    collections) and \<open>Vis_Apply\<close> (\<open>_apply_vis\<close>). The apply loop has these, and the writes and snapshots of the previous
item, as parameters of its environment; these theories are what the code puts there.
  \<^item> Blobs: \<open>Blob_Apply\<close> (\<open>apply_blob\<close> of \<open>ring0/tier2_io.py\<close>: what the apply loop calls for a serialized
    datablock), \<open>Localize\<close> (the path rewriting of \<open>ring0/bootstrap.py\<close>) and \<open>Bootstrap_File\<close> (its \<open>apply_mainfile\<close>).
  \<^item> Hot lane: \<open>Hot_Sampler\<close> (\<open>ring0/host_hot.py\<close>).
  \<^item> Wire: \<open>Protocol\<close> (\<open>ring1/protocol.py\<close>), \<open>Transport\<close> (\<open>ring1/transport.py\<close>), \<open>Frame_Link\<close> and \<open>Transport_Agent\<close>
    (\<open>ring1/transport_agent.py\<close>), \<open>Transport_Zmq\<close> (\<open>ring1/transport_zmq.py\<close>), \<open>Pathmap\<close> (\<open>ring1/pathmap.py\<close>).
  \<^item> Session (\<open>ring0/session.py\<close>, with \<open>ring0/viewer_card.py\<close>): \<open>Session_Common\<close>, \<open>Session_Host\<close>, \<open>Session_Replica\<close>,
    \<open>Session_Claims\<close>. Before a session: \<open>Agent_Boot\<close> (finding, choosing and starting the agent, from
    \<open>ring1/transport_agent.py\<close>) and \<open>Settings\<close> (the preferences and their file, from \<open>prefs.py\<close>). The replica's window:
    \<open>Kiosk\<close> (\<open>ring0/kiosk.py\<close>).
  \<^item> Pixels and colour: \<open>Ring_Layout\<close>, \<open>Frame_Ring\<close>, \<open>Probe\<close> (\<open>ring1/probe.py\<close>), \<open>Wire_Format\<close>
    (\<open>ring1/wire_format.py\<close>), \<open>Colour_State\<close> (\<open>ring1/colour_state.py\<close>), \<open>Stream_Params\<close>
    (\<open>ring1/stream_params.py\<close>), \<open>Pixel_Path\<close> (\<open>ring0/pixel_path.py\<close>), \<open>Readback\<close>
    (\<open>ring0/engine_qcb.py\<close>: what the render engine reads back and publishes).
  \<^item> Tools: \<open>Timeline\<close> (\<open>ring1/timeline.py\<close>), \<open>Toolbox\<close> (\<open>ring1/toolbox.py\<close>).
\<close>

text \<open>
  What the lemmas show.
  \<^item> The lanes end to end: numbering on the host is contiguous over any run of its operations, also when the transport
    refuses (\<open>Host_Lanes\<close>, \<open>Host_Claims\<close>); transports deliver in order, credits and replies are exact
    (\<open>Transport_Agent\<close>, through the locales \<open>request_channel\<close> and \<open>lane_sender\<close> of \<open>Transport\<close>, interpreted on both
    transports); the merger never lets a fast message overtake what it depends on; the replica asks for every hole it
    sees, applies every batch, and the tracker and the fast window detect losses.
  \<^item> State of each side: the dirty set and the registry refine an abstract map; the shadow follows what the peer
    has; a failed flush puts everything back; delta resync reaches the host's state.
  \<^item> Wire formats: chunks reassemble in any order, headers and pixels round-trip within bounds, path translation is a
    longest-component match.
  \<^item> Blender's side: writing a full property delta makes the replica's snapshot read back every value sent; after one
    visibility pass the replica's viewport shows what the host's shows; the fit of shot mode neither exceeds the region
    nor the stream; re-asserting a packet already shown writes nothing; a blob
    replaces what it names and nothing else, and no reference is left to what it deletes; no cache stays external where
    no frames are.
  \<^item> Sessions: at most one handshake timer, a handshake pairs or is tried again, a started host and replica reach a
    common session. The locales \<open>replica_keeps\<close> and \<open>session_keeps\<close> carry a property of the state through every
    operation once it is kept by the few that touch it; each is interpreted on the properties the results need. No session
    attaches to an agent that is gone, the kiosk's steps end, saved settings come back.
  \<^item> Pixels: no torn frame is read from the ring for any interleaving of writer and reader, the ring's regions are
    disjoint and in bounds, a crashing encoder is respawned at a bounded rate; the stream catches up with the picture
    shown in at most four draws, and pictures fit the region and the stream.
  \<^item> Where the code does not do what it means to, a theorem says what it does instead: an edit refused for good is
    stranded, a handshake that raises strands the session, a restart is lost during a resolve, an unhashable request
    ends the zmq thread, a middle chunk lets deltas overtake blobs, a new session keeps old blobs, a nudged camera zoom is
    written again on every re-assert, a name used again hands the wrong datablock to its users, a picture dropped once is
    never retried, a whole region is flagged as the camera's rectangle, two registered agents start a third, the
    settings file lacks two settings and a broken row in it wipes the mapping table.

  Bounds and fuel. The JSON value parser has the length of the text as fuel, and every call consumes a character. A
  batch round has the number of waiting blobs as fuel, and applying adds none. How many messages fit into a tick's
  time budget is \<open>re_room\<close> of the environment, and whether a batch ran over its budget is \<open>re_over\<close>: arbitrary, so the
  results hold for every speed. All other recursions are structural or have a measure.

  Not modelled: the panels and the overlay, the copying of GPU buffers, writing and opening .blend files, the
  launch script, which only drive Blender or the operating system; Blender's properties are taken to
  be independent of each other, so that a setter changes the property it names alone; the texts of the panel, debug
  output and timeline marks inside other components; the agent and encoders (Rust, Swift); smokes, probes and tests. Floats on the wire are bit patterns or numerals; colour
  arithmetic is on real numbers, so rounding of floats is not covered. The clock is read once per operation.
\<close>

end
